(* ===== verification/Prelude.thy ===== *)
theory Prelude
  imports Main "HOL-Library.List_Lexorder" "HOL-Library.Char_ord" "HOL-Library.Word"
begin

text \<open>
  Shared material of the development: the exceptions of the Python code as values, tables of
  rows with a key (the SQLite tables), ordered de-duplication (\<open>dict.fromkeys\<close>), decimal
  printing, and the lemmas about them that the component theories share.
\<close>

named_theorems table_simps \<open>rewrite rules for keyed tables\<close>

section \<open>Exceptions as values\<close>

text \<open>
  One constructor per exception class that the modelled code raises or catches.  The string is
  the \<open>code\<close>, \<open>error_code\<close> or message the class carries.  \<open>PlainError c m\<close> is any other
  exception, with its \<open>error_code\<close> attribute (if it has one) and its message.
\<close>

datatype exn =
    ControlPlaneError string
  | AuthenticationError string
  | ArtifactSecurityError string
  | ResearchRunStoreError string
  | AccessDeniedError string
  | DeletionBlockedError "string list"
  | RetryableJobError string
  | AgentBudgetExceeded string
  | PlanValidationError string
  | ArgumentResolutionError string
  | JobShutdownRequested
  | CancelledError
  | ValidationError
  | IntegrityError
  | TypeError
  | KeyError
  | ValueError string
  | OperationalError string
  | PlainError "string option" string

text \<open>An operation on a store returns its result or exception together with the store.\<close>

type_synonym ('s, 'a) outcome = "(exn + 'a) \<times> 's"

fun is_ok :: "exn + 'a \<Rightarrow> bool" where
  "is_ok (Inl _) = False"
| "is_ok (Inr _) = True"

section \<open>Sequencing store calls\<close>

text \<open>\<open>x = f(); g(x)\<close>: an exception skips the rest, what was committed stays.\<close>

definition and_then ::
    "('s, 'a) outcome \<Rightarrow> ('a \<Rightarrow> 's \<Rightarrow> ('s, 'b) outcome) \<Rightarrow> ('s, 'b) outcome" where
  "and_then m f = (case m of (Inl e, s) \<Rightarrow> (Inl e, s) | (Inr x, s) \<Rightarrow> f x s)"

lemma and_then_simps [simp]:
  "and_then (Inl e, s) f = (Inl e, s)" "and_then (Inr x, s) f = f x s"
  by (simp_all add: and_then_def)

section \<open>Tables of rows with a key\<close>

text \<open>
  A SQL table is the list of its rows in insertion order.  \<open>find_by\<close> is
  \<open>SELECT ... WHERE key=?\<close> with \<open>fetchone\<close>, \<open>update_by\<close> is \<open>UPDATE ... WHERE key=?\<close>,
  \<open>insert_by\<close> is \<open>INSERT\<close> under a \<open>PRIMARY KEY\<close> constraint (\<open>None\<close> is the
  \<open>IntegrityError\<close>).
\<close>

definition find_by :: "('r \<Rightarrow> 'k) \<Rightarrow> 'k \<Rightarrow> 'r list \<Rightarrow> 'r option" where
  "find_by key k rows = List.find (\<lambda>r. key r = k) rows"

definition update_by :: "('r \<Rightarrow> 'k) \<Rightarrow> 'k \<Rightarrow> ('r \<Rightarrow> 'r) \<Rightarrow> 'r list \<Rightarrow> 'r list" where
  "update_by key k f rows = map (\<lambda>r. if key r = k then f r else r) rows"

definition insert_by :: "('r \<Rightarrow> 'k) \<Rightarrow> 'r \<Rightarrow> 'r list \<Rightarrow> 'r list option" where
  "insert_by key r rows = (if key r \<in> set (map key rows) then None else Some (rows @ [r]))"

text \<open>\<open>UPDATE ... WHERE P\<close> for any other condition.\<close>

definition update_where :: "('r \<Rightarrow> bool) \<Rightarrow> ('r \<Rightarrow> 'r) \<Rightarrow> 'r list \<Rightarrow> 'r list" where
  "update_where P f rows = map (\<lambda>r. if P r then f r else r) rows"

lemma map_update_where [table_simps]:
  "(\<And>r. g (f r) = g r) \<Longrightarrow> map g (update_where P f rows) = map g rows"
  by (induction rows) (auto simp: update_where_def)

lemma set_update_where:
  "set (update_where P f rows) = {r \<in> set rows. \<not> P r} \<union> f ` {r \<in> set rows. P r}"
  by (auto simp: update_where_def)

lemma ball_update_where:
  "(\<forall>r \<in> set (update_where P f rows). Q r) \<longleftrightarrow> (\<forall>r \<in> set rows. Q (if P r then f r else r))"
  by (induction rows) (simp_all add: update_where_def)

lemma find_by_update_where [table_simps]:
  "(\<And>r. key (f r) = key r) \<Longrightarrow>
   find_by key k (update_where P f rows) = map_option (\<lambda>r. if P r then f r else r) (find_by key k rows)"
  by (induction rows) (auto simp: update_where_def find_by_def)

lemma update_by_where: "update_by key k f = update_where (\<lambda>r. key r = k) f"
  by (simp add: update_by_def update_where_def fun_eq_iff)

lemma find_by_Nil [simp]: "find_by key k [] = None"
  by (simp add: find_by_def)

lemma find_by_Cons [simp]:
  "find_by key k (r # rs) = (if key r = k then Some r else find_by key k rs)"
  by (simp add: find_by_def)

lemma find_by_SomeD: "find_by key k rows = Some r \<Longrightarrow> r \<in> set rows \<and> key r = k"
  by (induction rows) (auto split: if_splits)

lemma find_SomeD: "List.find P xs = Some x \<Longrightarrow> x \<in> set xs \<and> P x"
  by (induction xs) (auto split: if_splits)

lemma find_by_None_iff: "find_by key k rows = None \<longleftrightarrow> k \<notin> key ` set rows"
  by (induction rows) auto

lemma find_by_distinct:
  "distinct (map key rows) \<Longrightarrow> r \<in> set rows \<Longrightarrow> find_by key (key r) rows = Some r"
  by (induction rows) (auto simp: image_iff)

lemma find_by_append [table_simps]:
  "find_by key k (xs @ ys) =
     (case find_by key k xs of None \<Rightarrow> find_by key k ys | Some r \<Rightarrow> Some r)"
  by (induction xs) auto

lemma find_by_update_by [table_simps]:
  "(\<And>r. key (f r) = key r) \<Longrightarrow>
   find_by key k (update_by key k' f rows) =
     (if k = k' then map_option f (find_by key k rows) else find_by key k rows)"
  by (induction rows) (auto simp: update_by_def)

lemma map_key_update_by [table_simps]:
  "(\<And>r. g (f r) = g r) \<Longrightarrow> map g (update_by key k f rows) = map g rows"
  by (induction rows) (auto simp: update_by_def)

lemma image_update_by [table_simps]:
  "(\<And>r. g (f r) = g r) \<Longrightarrow> g ` set (update_by key k f rows) = g ` set rows"
  using map_key_update_by [of g f key k rows] by (metis list.set_map)

lemma set_update_by:
  "set (update_by key k f rows) =
     {r \<in> set rows. key r \<noteq> k} \<union> f ` {r \<in> set rows. key r = k}"
  by (auto simp: update_by_def)

lemma in_update_byE:
  assumes "r \<in> set (update_by key k f rows)"
  obtains (same) "r \<in> set rows" "key r \<noteq> k"
    | (changed) r0 where "r0 \<in> set rows" "key r0 = k" "r = f r0"
  using assms by (auto simp: set_update_by)

lemma length_update_by [simp]: "length (update_by key k f rows) = length rows"
  by (simp add: update_by_def)

lemma update_by_absent: "k \<notin> key ` set rows \<Longrightarrow> update_by key k f rows = rows"
  by (induction rows) (auto simp: update_by_def)

lemma insert_by_SomeD:
  "insert_by key r rows = Some rows' \<Longrightarrow> rows' = rows @ [r] \<and> key r \<notin> key ` set rows"
  by (auto simp: insert_by_def split: if_splits)

lemma insert_by_fresh: "key r \<notin> key ` set rows \<Longrightarrow> insert_by key r rows = Some (rows @ [r])"
  by (auto simp: insert_by_def)

lemma insert_by_None_iff: "insert_by key r rows = None \<longleftrightarrow> key r \<in> key ` set rows"
  by (auto simp: insert_by_def)

lemma find_by_added: "key x \<notin> key ` set xs \<Longrightarrow> find_by key (key x) (xs @ [x]) = Some x"
  by (induction xs) auto

lemma length_filter_mono_imp:
  "(\<And>x. x \<in> set xs \<Longrightarrow> P x \<Longrightarrow> Q x) \<Longrightarrow> length (filter P xs) \<le> length (filter Q xs)"
  by (induction xs) (auto simp: le_SucI)

text \<open>Rows may change along \<open>R\<close> and be added, but a key that was there stays.\<close>

definition rows_later :: "('r \<Rightarrow> 'r \<Rightarrow> bool) \<Rightarrow> ('r \<Rightarrow> 'k) \<Rightarrow> 'r list \<Rightarrow> 'r list \<Rightarrow> bool" where
  "rows_later R key xs ys \<longleftrightarrow>
     (\<forall>k x. find_by key k xs = Some x \<longrightarrow> (\<exists>y. find_by key k ys = Some y \<and> R x y))"

lemma rows_laterD:
  "rows_later R key xs ys \<Longrightarrow> find_by key k xs = Some x \<Longrightarrow> \<exists>y. find_by key k ys = Some y \<and> R x y"
  by (simp add: rows_later_def)

lemma rows_later_refl: "(\<And>x. R x x) \<Longrightarrow> rows_later R key xs xs"
  by (simp add: rows_later_def)

lemma rows_later_trans:
  assumes "rows_later R key xs ys" "rows_later R key ys zs" "\<And>x y z. R x y \<Longrightarrow> R y z \<Longrightarrow> R x z"
  shows "rows_later R key xs zs"
  using assms unfolding rows_later_def by metis

lemma rows_later_append: "(\<And>x. R x x) \<Longrightarrow> rows_later R key xs (xs @ ys)"
  by (simp add: rows_later_def find_by_append)

lemma rows_later_update:
  "(\<And>x. R x x) \<Longrightarrow> (\<And>x. P x \<Longrightarrow> R x (f x)) \<Longrightarrow> (\<And>x. key (f x) = key x) \<Longrightarrow>
   rows_later R key xs (update_where P f xs)"
  by (simp add: rows_later_def find_by_update_where)

text \<open>
  The interface the stores rely on: what a lookup returns after an insert or an update of the
  table, and that both keep the key unique.
\<close>

locale keyed_table =
  fixes key :: "'r \<Rightarrow> 'k"
    and get :: "'k \<Rightarrow> 't \<Rightarrow> 'r option"
    and put :: "'k \<Rightarrow> ('r \<Rightarrow> 'r) \<Rightarrow> 't \<Rightarrow> 't"
    and add :: "'r \<Rightarrow> 't \<Rightarrow> 't option"
    and rows :: "'t \<Rightarrow> 'r list"
  assumes get_key: "get k t = Some r \<Longrightarrow> key r = k \<and> r \<in> set (rows t)"
    and get_unique: "distinct (map key (rows t)) \<Longrightarrow> r \<in> set (rows t) \<Longrightarrow> get (key r) t = Some r"
    and get_put: "(\<And>r. key (f r) = key r) \<Longrightarrow>
      get k (put k' f t) = (if k = k' then map_option f (get k t) else get k t)"
    and put_keys: "(\<And>r. key (f r) = key r) \<Longrightarrow> map key (rows (put k f t)) = map key (rows t)"
    and add_rows: "add r t = Some t' \<Longrightarrow> rows t' = rows t @ [r] \<and> get (key r) t = None"
    and add_get: "add r t = Some t' \<Longrightarrow> get k t' = (if k = key r then Some r else get k t)"
    and get_absent: "get k t = None \<longleftrightarrow> k \<notin> key ` set (rows t)"
begin

lemma add_distinct:
  "add r t = Some t' \<Longrightarrow> distinct (map key (rows t)) \<Longrightarrow> distinct (map key (rows t'))"
  using get_absent add_rows by fastforce

lemma put_distinct:
  "(\<And>r. key (f r) = key r) \<Longrightarrow> distinct (map key (rows t)) \<Longrightarrow>
   distinct (map key (rows (put k f t)))"
  using put_keys by metis

lemma put_frame: "(\<And>r. key (f r) = key r) \<Longrightarrow> k \<noteq> k' \<Longrightarrow> get k (put k' f t) = get k t"
  using get_put by simp

lemma add_frame: "add r t = Some t' \<Longrightarrow> get k t = Some x \<Longrightarrow> get k t' = Some x"
  using add_get add_rows by fastforce

end

text \<open>A list of rows that is one component of a larger state provides the interface.\<close>

lemma keyed_table_field:
  assumes "\<And>rows d. sel (upd rows d) = rows"
  shows "keyed_table key (\<lambda>k d. find_by key k (sel d))
    (\<lambda>k f d. upd (update_by key k f (sel d)) d)
    (\<lambda>r d. map_option (\<lambda>rows. upd rows d) (insert_by key r (sel d))) sel"
proof (unfold_locales, goal_cases)
  case (1 k t r) then show ?case by (auto dest: find_by_SomeD)
next
  case (2 t r) then show ?case by (rule find_by_distinct)
next
  case (3 f k k' t) then show ?case by (simp add: assms find_by_update_by)
next
  case (4 f k t) then show ?case by (simp add: assms map_key_update_by)
next
  case (5 r t t') then show ?case by (auto simp: assms find_by_None_iff dest!: insert_by_SomeD)
next
  case (6 r t t' k)
  then have t': "sel t' = sel t @ [r]" and "key r \<notin> key ` set (sel t)"
    by (auto simp: assms dest!: insert_by_SomeD)
  then have "find_by key (key r) (sel t) = None" by (simp add: find_by_None_iff)
  with t' show ?case by (auto simp: find_by_append split: option.splits)
next
  case (7 k t) then show ?case by (rule find_by_None_iff)
qed

section \<open>Machines driven by operations\<close>

text \<open>
  A store is driven by a list of operations, \<open>fold step ops s\<close>.  What every operation keeps
  (\<open>inv\<close>), and how it may change the state (\<open>later\<close>, a preorder), holds of every run.
\<close>

locale machine =
  fixes step :: "'op \<Rightarrow> 's \<Rightarrow> 's"
    and allowed :: "'op \<Rightarrow> bool"
    and inv :: "'s \<Rightarrow> bool"
    and later :: "'s \<Rightarrow> 's \<Rightarrow> bool"
  assumes step_inv: "inv s \<Longrightarrow> allowed op \<Longrightarrow> inv (step op s)"
    and step_later: "inv s \<Longrightarrow> allowed op \<Longrightarrow> later s (step op s)"
    and later_refl: "later s s"
    and later_trans: "later s t \<Longrightarrow> later t u \<Longrightarrow> later s u"
begin

lemma run_inv: "inv s \<Longrightarrow> list_all allowed ops \<Longrightarrow> inv (fold step ops s)"
  by (induction ops arbitrary: s) (auto intro: step_inv)

lemma run_later: "inv s \<Longrightarrow> list_all allowed ops \<Longrightarrow> later s (fold step ops s)"
proof (induction ops arbitrary: s)
  case Nil
  then show ?case by (simp add: later_refl)
next
  case (Cons op ops)
  then have "later s (step op s)" "later (step op s) (fold step ops (step op s))"
    by (simp_all add: step_inv step_later)
  then show ?case using later_trans by fastforce
qed

end

section \<open>Ordered de-duplication\<close>

text \<open>\<open>list(dict.fromkeys(values))\<close>: the distinct values, each at its first position.\<close>

fun fromkeys :: "'a list \<Rightarrow> 'a list" where
  "fromkeys [] = []"
| "fromkeys (x # xs) = x # filter (\<lambda>y. y \<noteq> x) (fromkeys xs)"

lemma set_fromkeys [simp]: "set (fromkeys xs) = set xs"
  by (induction xs) auto

lemma distinct_fromkeys [simp]: "distinct (fromkeys xs)"
  by (induction xs) auto

lemma fromkeys_eq_Nil [simp]: "fromkeys xs = [] \<longleftrightarrow> xs = []"
  by (cases xs) auto

lemma fromkeys_id: "distinct xs \<Longrightarrow> fromkeys xs = xs"
  by (induction xs) (auto simp: filter_id_conv)

lemma length_fromkeys: "length (fromkeys xs) \<le> length xs"
proof (induction xs)
  case (Cons x xs)
  have "length (filter (\<lambda>y. y \<noteq> x) (fromkeys xs)) \<le> length (fromkeys xs)"
    by (rule length_filter_le)
  from this Cons have "length (filter (\<lambda>y. y \<noteq> x) (fromkeys xs)) \<le> length xs"
    by (rule order_trans)
  then show ?case by simp
qed simp

text \<open>\<open>_unique\<close> of the research agent also drops falsy (here: empty) strings.\<close>

definition unique_nonempty :: "string list \<Rightarrow> string list" where
  "unique_nonempty vs = fromkeys (filter (\<lambda>v. v \<noteq> []) vs)"

section \<open>Stripping white space\<close>

text \<open>\<open>str.strip()\<close> on ASCII text.\<close>

definition is_space :: "char \<Rightarrow> bool" where
  "is_space c = (let n = of_char c :: nat in (9 \<le> n \<and> n \<le> 13) \<or> (28 \<le> n \<and> n \<le> 32))"

definition strip :: "string \<Rightarrow> string" where
  "strip s = rev (dropWhile is_space (rev (dropWhile is_space s)))"

text \<open>\<open>str.casefold()\<close> of one ASCII character.\<close>

definition fold_case :: "char \<Rightarrow> char" where
  "fold_case c = (let n = of_char c :: nat in if 65 \<le> n \<and> n \<le> 90 then char_of (n + 32) else c)"

section \<open>Decimal and hexadecimal printing\<close>

definition digit_char :: "nat \<Rightarrow> char" where
  "digit_char d = char_of (48 + d)"

fun show_nat :: "nat \<Rightarrow> string" where
  "show_nat n = (if n < 10 then [digit_char n] else show_nat (n div 10) @ [digit_char (n mod 10)])"

declare show_nat.simps [simp del]

definition show_int :: "int \<Rightarrow> string" where
  "show_int i = (if i < 0 then CHR ''-'' # show_nat (nat (- i)) else show_nat (nat i))"

definition hex_digit :: "nat \<Rightarrow> char" where
  "hex_digit d = (if d < 10 then char_of (48 + d) else char_of (87 + d))"

definition hex_chars :: string where
  "hex_chars = ''0123456789abcdef''"

lemma hex_digit_hex: "d < 16 \<Longrightarrow> hex_digit d \<in> set hex_chars"
proof -
  assume "d < 16"
  then have d: "d \<in> set [0..<16]" by simp
  have "list_all (\<lambda>d. hex_digit d \<in> set hex_chars) [0..<16]" by code_simp
  with d show ?thesis unfolding list_all_iff by (rule bspec [rotated])
qed

end
