(* ===== verification/Hashing.thy ===== *)
theory Hashing
  imports Prelude
begin

unbundle bit_operations_syntax

text \<open>
  \<open>hashlib.sha256(value.encode("utf-8")).hexdigest()\<close>, which the store
  (\<open>control_plane/store.py\<close>, \<open>stable_hash\<close>), the identity service (\<open>control_plane/auth.py\<close>,
  \<open>_hash\<close>) and the research agent use for tokens, requests and identifiers.  It is written out
  (FIPS 180-4) so that nothing about digests is assumed: the theorems below never suppose that
  the function is injective.  A HOL \<open>char\<close> stands for a code point below 256.
\<close>

type_synonym u32 = "32 word"

definition utf8_char :: "char \<Rightarrow> int list" where
  "utf8_char c = (let n = of_char c :: int in
     if n < 128 then [n] else [192 + n div 64, 128 + n mod 64])"

definition utf8_encode :: "string \<Rightarrow> int list" where
  "utf8_encode s = concat (map utf8_char s)"

definition sha256_round_constants :: "u32 list" where
  "sha256_round_constants =
  [0x428A2F98, 0x71374491, 0xB5C0FBCF, 0xE9B5DBA5, 0x3956C25B, 0x59F111F1, 0x923F82A4,
   0xAB1C5ED5, 0xD807AA98, 0x12835B01, 0x243185BE, 0x550C7DC3, 0x72BE5D74, 0x80DEB1FE,
   0x9BDC06A7, 0xC19BF174, 0xE49B69C1, 0xEFBE4786, 0x0FC19DC6, 0x240CA1CC, 0x2DE92C6F,
   0x4A7484AA, 0x5CB0A9DC, 0x76F988DA, 0x983E5152, 0xA831C66D, 0xB00327C8, 0xBF597FC7,
   0xC6E00BF3, 0xD5A79147, 0x06CA6351, 0x14292967, 0x27B70A85, 0x2E1B2138, 0x4D2C6DFC,
   0x53380D13, 0x650A7354, 0x766A0ABB, 0x81C2C92E, 0x92722C85, 0xA2BFE8A1, 0xA81A664B,
   0xC24B8B70, 0xC76C51A3, 0xD192E819, 0xD6990624, 0xF40E3585, 0x106AA070, 0x19A4C116,
   0x1E376C08, 0x2748774C, 0x34B0BCB5, 0x391C0CB3, 0x4ED8AA4A, 0x5B9CCA4F, 0x682E6FF3,
   0x748F82EE, 0x78A5636F, 0x84C87814, 0x8CC70208, 0x90BEFFFA, 0xA4506CEB, 0xBEF9A3F7,
   0xC67178F2]"

definition sha256_initial :: "u32 list" where
  "sha256_initial =
  [0x6A09E667, 0xBB67AE85, 0x3C6EF372, 0xA54FF53A, 0x510E527F, 0x9B05688C, 0x1F83D9AB, 0x5BE0CD19]"

definition rotr32 :: "nat \<Rightarrow> u32 \<Rightarrow> u32" where
  "rotr32 n x = drop_bit n x OR push_bit (32 - n) x"

definition be_bytes :: "nat \<Rightarrow> int \<Rightarrow> int list" where
  "be_bytes k n = map (\<lambda>i. n div 256 ^ i mod 256) (rev [0..<k])"

definition sha256_pad :: "int list \<Rightarrow> int list" where
  "sha256_pad bs = bs @ [128] @ replicate ((119 - length bs mod 64) mod 64) 0
     @ be_bytes 8 (8 * int (length bs))"

fun be_words :: "int list \<Rightarrow> u32 list" where
  "be_words (a # b # c # d # rest) =
     of_int (a * 16777216 + b * 65536 + c * 256 + d) # be_words rest"
| "be_words _ = []"

text \<open>The message schedule, newest word first.\<close>

fun sha256_extend :: "nat \<Rightarrow> u32 list \<Rightarrow> u32 list" where
  "sha256_extend 0 ws = ws"
| "sha256_extend (Suc n) ws =
     (let s0 = (let x = ws ! 14 in rotr32 7 x XOR rotr32 18 x XOR drop_bit 3 x);
          s1 = (let x = ws ! 1 in rotr32 17 x XOR rotr32 19 x XOR drop_bit 10 x)
      in sha256_extend n ((ws ! 15 + s0 + ws ! 6 + s1) # ws))"

fun sha256_round :: "u32 list \<Rightarrow> u32 \<times> u32 \<Rightarrow> u32 list" where
  "sha256_round [a, b, c, d, e, f, g, h] (k, w) =
     (let s1 = rotr32 6 e XOR rotr32 11 e XOR rotr32 25 e;
          ch = (e AND f) XOR (NOT e AND g);
          t1 = h + s1 + ch + k + w;
          s0 = rotr32 2 a XOR rotr32 13 a XOR rotr32 22 a;
          maj = (a AND b) XOR (a AND c) XOR (b AND c);
          t2 = s0 + maj
      in [t1 + t2, a, b, c, d + t1, e, f, g])"
| "sha256_round st _ = st"

definition sha256_block :: "u32 list \<Rightarrow> u32 list \<Rightarrow> u32 list" where
  "sha256_block st ws =
     (let sched = rev (sha256_extend 48 (rev ws))
      in map2 (+) st (foldl sha256_round st (zip sha256_round_constants sched)))"

fun sha256_blocks :: "nat \<Rightarrow> u32 list \<Rightarrow> u32 list \<Rightarrow> u32 list" where
  "sha256_blocks 0 st ws = st"
| "sha256_blocks (Suc n) st ws = sha256_blocks n (sha256_block st (take 16 ws)) (drop 16 ws)"

definition sha256_of_bytes :: "int list \<Rightarrow> u32 list" where
  "sha256_of_bytes bs =
     (let ws = be_words (sha256_pad bs)
      in sha256_blocks (length ws div 16) sha256_initial ws)"

definition sha256_words :: "string \<Rightarrow> u32 list" where
  "sha256_words s = sha256_of_bytes (utf8_encode s)"

definition word_hex :: "u32 \<Rightarrow> string" where
  "word_hex w = map (\<lambda>i. hex_digit (nat (uint w div 16 ^ i mod 16))) (rev [0..<8])"

definition stable_hash :: "string \<Rightarrow> string" where
  "stable_hash value = concat (map word_hex (sha256_words value))"

section \<open>Digests are 64 lowercase hexadecimal digits\<close>

text \<open>The pattern \<open>^[0-9a-f]{64}$\<close> of the pydantic models.\<close>

definition is_sha256_hex :: "string \<Rightarrow> bool" where
  "is_sha256_hex s \<longleftrightarrow> length s = 64 \<and> list_all (\<lambda>c. c \<in> set hex_chars) s"

lemma length_sha256_round [simp]: "length (sha256_round st kw) = length st"
  by (induction st kw rule: sha256_round.induct) (simp_all add: Let_def)

lemma length_foldl_sha256_round [simp]: "length (foldl sha256_round st kws) = length st"
  by (induction kws arbitrary: st) simp_all

lemma length_sha256_block [simp]: "length (sha256_block st ws) = length st"
  by (simp add: sha256_block_def Let_def)

lemma length_sha256_blocks [simp]: "length (sha256_blocks n st ws) = length st"
  by (induction n arbitrary: st ws) simp_all

lemma length_sha256_of_bytes [simp]: "length (sha256_of_bytes bs) = 8"
  by (simp add: sha256_of_bytes_def Let_def sha256_initial_def)

lemma length_sha256_words [simp]: "length (sha256_words s) = 8"
  by (simp add: sha256_words_def)

lemma length_word_hex [simp]: "length (word_hex w) = 8"
  by (simp add: word_hex_def)

lemma word_hex_hex: "c \<in> set (word_hex w) \<Longrightarrow> c \<in> set hex_chars"
  by (auto simp: word_hex_def intro!: hex_digit_hex simp: nat_less_iff)

lemma length_concat_word_hex: "length (concat (map word_hex ws)) = 8 * length ws"
  by (induction ws) simp_all

lemma length_stable_hash [simp]: "length (stable_hash s) = 64"
  by (simp add: stable_hash_def length_concat_word_hex)

lemma stable_hash_hex: "c \<in> set (stable_hash s) \<Longrightarrow> c \<in> set hex_chars"
  by (auto simp: stable_hash_def dest: word_hex_hex)

lemma stable_hash_not_Nil [simp]: "stable_hash s \<noteq> []" "[] \<noteq> stable_hash s"
  using length_stable_hash [of s] by (metis list.size(3) zero_neq_numeral)+

lemma stable_hash_valid [simp]: "is_sha256_hex (stable_hash s)"
  by (auto simp: is_sha256_hex_def list_all_iff dest: stable_hash_hex)

text \<open>From here on digests are used through these facts, never by evaluation.\<close>

end
