(* ===== verification/Py_Json.thy ===== *)
theory Py_Json
  imports Hashing "HOL-Library.Multiset"
begin

text \<open>
  The values of pydantic's \<open>JsonValue\<close> and the canonical text
  \<open>json.dumps(v, sort_keys=True, separators=(",", ":"), ensure_ascii=True)\<close> whose digest is the
  request hash of a job.  A dictionary is the list of its items in insertion order (keys
  distinct); a float is kept as the literal that \<open>repr\<close> prints.
\<close>

datatype json =
    JNull
  | JBool bool
  | JInt int
  | JFloat string
  | JStr string
  | JArr "json list"
  | JObj "(string \<times> json) list"

definition escape_char :: "char \<Rightarrow> string" where
  "escape_char c =
     (if c = CHR 0x22 then [CHR 0x5C, CHR 0x22]
      else if c = CHR 0x5C then [CHR 0x5C, CHR 0x5C]
      else if c = CHR 0x0A then [CHR 0x5C, CHR ''n'']
      else if c = CHR 0x0D then [CHR 0x5C, CHR ''r'']
      else if c = CHR 0x09 then [CHR 0x5C, CHR ''t'']
      else if c = CHR 0x0C then [CHR 0x5C, CHR ''f'']
      else if c = CHR 0x08 then [CHR 0x5C, CHR ''b'']
      else (let n = of_char c :: nat in
        if 32 \<le> n \<and> n \<le> 126 then [c]
        else [CHR 0x5C, CHR ''u'', CHR ''0'', CHR ''0'', hex_digit (n div 16), hex_digit (n mod 16)]))"

text \<open>\<open>ensure_ascii=False\<close> escapes only quotes, backslashes and control characters.\<close>

definition escape_char_raw :: "char \<Rightarrow> string" where
  "escape_char_raw c = (if (of_char c :: nat) < 127 then escape_char c else [c])"

definition dumps_string :: "(char \<Rightarrow> string) \<Rightarrow> string \<Rightarrow> string" where
  "dumps_string esc s = [CHR 0x22] @ concat (map esc s) @ [CHR 0x22]"

fun join_with :: "string \<Rightarrow> string list \<Rightarrow> string" where
  "join_with sep [] = []"
| "join_with sep [x] = x"
| "join_with sep (x # y # xs) = x @ sep @ join_with sep (y # xs)"

text \<open>\<open>sort_keys=True\<close>: every dictionary by its keys in code point order.\<close>

primrec sort_keys :: "json \<Rightarrow> json" where
  "sort_keys JNull = JNull"
| "sort_keys (JBool b) = JBool b"
| "sort_keys (JInt i) = JInt i"
| "sort_keys (JFloat s) = JFloat s"
| "sort_keys (JStr s) = JStr s"
| "sort_keys (JArr vs) = JArr (map sort_keys vs)"
| "sort_keys (JObj kvs) = JObj (sort_key fst (map (map_prod id sort_keys) kvs))"

primrec dumps_sorted :: "(char \<Rightarrow> string) \<Rightarrow> json \<Rightarrow> string" where
  "dumps_sorted esc JNull = ''null''"
| "dumps_sorted esc (JBool b) = (if b then ''true'' else ''false'')"
| "dumps_sorted esc (JInt i) = show_int i"
| "dumps_sorted esc (JFloat s) = s"
| "dumps_sorted esc (JStr s) = dumps_string esc s"
| "dumps_sorted esc (JArr vs) = ''['' @ join_with '','' (map (dumps_sorted esc) vs) @ '']''"
| "dumps_sorted esc (JObj kvs) =
     ''{'' @ join_with '','' (map (\<lambda>(k, t). dumps_string esc k @ '':'' @ t)
       (map (map_prod id (dumps_sorted esc)) kvs)) @ ''}''"

definition json_dumps :: "json \<Rightarrow> string" where
  "json_dumps v = dumps_sorted escape_char (sort_keys v)"

lemma sort_key_fst_eq:
  assumes "distinct (map fst kvs)" and "mset kvs = mset kvs'"
  shows "sort_key fst kvs = sort_key fst kvs'"
proof (rule sort_key_inj_key_eq)
  show "mset kvs = mset (sort_key fst kvs')" using assms(2) by simp
  show "inj_on fst (set kvs)" using assms(1) by (simp add: distinct_map)
  show "sorted (map fst (sort_key fst kvs'))" by simp
qed

lemma sort_keys_order:
  assumes "distinct (map fst kvs)" and "mset kvs = mset kvs'"
  shows "sort_keys (JObj kvs) = sort_keys (JObj kvs')"
proof -
  let ?f = "map (map_prod id sort_keys) :: (string \<times> json) list \<Rightarrow> _"
  have "distinct (map fst (?f kvs))" using assms(1) by (simp add: comp_def)
  moreover have "mset (?f kvs) = mset (?f kvs')" using assms(2) by simp
  ultimately have "sort_key fst (?f kvs) = sort_key fst (?f kvs')" by (rule sort_key_fst_eq)
  then show ?thesis by simp
qed

text \<open>Two requests with the same items have the same canonical text, so the same request hash.\<close>

lemma json_dumps_key_order:
  assumes "distinct (map fst kvs)" and "mset kvs = mset kvs'"
  shows "json_dumps (JObj kvs) = json_dumps (JObj kvs')"
  using sort_keys_order [OF assms] by (simp add: json_dumps_def)

end
