(* ===== verification/Cp_Schemas.thy ===== *)
theory Cp_Schemas
  imports Py_Json
begin

text \<open>
  The data of the control plane: \<open>backend/app/control_plane/schemas.py\<close> and the transition
  tables at the top of \<open>store.py\<close>.  Field names carry the prefix of their record
  (\<open>j_\<close> JobRecord, \<open>a_\<close> JobAttempt, \<open>o_\<close> OutboxEvent); a \<open>datetime\<close> in UTC is the
  number of its microseconds.  The \<open>_valid\<close> predicates are the pydantic validators; building a
  model or reading it back raises \<open>ValidationError\<close> exactly when they fail.
\<close>

type_synonym timestamp = int

datatype job_status =
    JQueued | JDispatching | JDispatched | JRunning | JRetryWait | JCancelling
  | JCompleted | JPartial | JFailed | JCancelled | JDead

datatype attempt_status =
    ACreated | ADispatched | AClaimed | ARunning | ASucceeded | AFailedRetryable
  | AFailedTerminal | ACancelled | ALost | ASuperseded

datatype job_type =
    Analysis | Indexing | Research | Alignment | Evaluation | Replay
  | Export | Backup | Restore | Maintenance | Delete

datatype resource_class = Cpu | Io | Provider | Gpu

datatype outbox_status = OPending | OPublishing | OPublished | OFailed

fun job_type_value :: "job_type \<Rightarrow> string" where
  "job_type_value Analysis = ''analysis''"
| "job_type_value Indexing = ''indexing''"
| "job_type_value Research = ''research''"
| "job_type_value Alignment = ''alignment''"
| "job_type_value Evaluation = ''evaluation''"
| "job_type_value Replay = ''replay''"
| "job_type_value Export = ''export''"
| "job_type_value Backup = ''backup''"
| "job_type_value Restore = ''restore''"
| "job_type_value Maintenance = ''maintenance''"
| "job_type_value Delete = ''delete''"

definition SCHEMA_VERSION :: string where
  "SCHEMA_VERSION = ''2.0''"

record job_record =
  j_schema_version :: string
  j_job_id :: string
  j_workspace_id :: string
  j_project_id :: "string option"
  j_job_type :: job_type
  j_queue_name :: string
  j_resource_class :: resource_class
  j_priority :: int
  j_domain_run_id :: "string option"
  j_retry_of_job_id :: "string option"
  j_status :: job_status
  j_dispatch_block_reason :: "string option"
  j_current_attempt_number :: int
  j_max_attempts :: int
  j_idempotency_key_hash :: string
  j_request_hash :: string
  j_task_schema_version :: int
  j_handler_version :: string
  j_scheduled_at :: "timestamp option"
  j_started_at :: "timestamp option"
  j_heartbeat_at :: "timestamp option"
  j_finished_at :: "timestamp option"
  j_cancel_requested :: bool
  j_retryable :: bool
  j_error_code :: "string option"
  j_result_artifact_ref_ids :: "string list"
  j_created_at :: timestamp
  j_updated_at :: timestamp
  j_revision :: int

record job_attempt =
  a_schema_version :: string
  a_attempt_id :: string
  a_job_id :: string
  a_attempt_number :: int
  a_status :: attempt_status
  a_execution_token_hash :: string
  a_celery_task_id :: "string option"
  a_worker_id_hash :: "string option"
  a_lease_until :: "timestamp option"
  a_heartbeat_at :: "timestamp option"
  a_started_at :: "timestamp option"
  a_finished_at :: "timestamp option"
  a_error_code :: "string option"
  a_retryable :: bool
  a_created_at :: timestamp
  a_updated_at :: timestamp

text \<open>The literal fields \<open>aggregate_type = "job"\<close> and \<open>event_type = "job.dispatch"\<close> have one
  value each.\<close>

record outbox_event =
  o_schema_version :: string
  o_outbox_event_id :: string
  o_aggregate_id :: string
  o_job_id :: string
  o_attempt_id :: string
  o_attempt_number :: int
  o_task_schema_version :: int
  o_request_hash :: string
  o_message_deduplication_key :: string
  o_status :: outbox_status
  o_claim_token_hash :: "string option"
  o_lease_owner_hash :: "string option"
  o_lease_until :: "timestamp option"
  o_publish_attempt :: int
  o_last_publish_error_code :: "string option"
  o_published_message_id :: "string option"
  o_next_retry_at :: "timestamp option"
  o_payload :: json
  o_created_at :: timestamp
  o_updated_at :: timestamp

section \<open>Terminal states and transition tables\<close>

definition TERMINAL_JOBS :: "job_status list" where
  "TERMINAL_JOBS = [JCompleted, JPartial, JFailed, JCancelled, JDead]"

fun JOB_TRANSITIONS :: "job_status \<Rightarrow> job_status list" where
  "JOB_TRANSITIONS JQueued = [JDispatching, JCancelling, JFailed]"
| "JOB_TRANSITIONS JDispatching = [JDispatched, JQueued, JFailed]"
| "JOB_TRANSITIONS JDispatched = [JRunning, JQueued, JCancelling]"
| "JOB_TRANSITIONS JRunning = [JCompleted, JPartial, JRetryWait, JCancelling, JFailed]"
| "JOB_TRANSITIONS JRetryWait = [JQueued, JDead, JCancelling]"
| "JOB_TRANSITIONS JCancelling = [JCancelled, JFailed]"
| "JOB_TRANSITIONS _ = []"

fun ATTEMPT_TRANSITIONS :: "attempt_status \<Rightarrow> attempt_status list" where
  "ATTEMPT_TRANSITIONS ACreated = [ADispatched, ACancelled, ASuperseded]"
| "ATTEMPT_TRANSITIONS ADispatched = [AClaimed, ALost, ACancelled, ASuperseded]"
| "ATTEMPT_TRANSITIONS AClaimed = [ARunning, ALost, ACancelled, ASuperseded]"
| "ATTEMPT_TRANSITIONS ARunning =
     [ASucceeded, AFailedRetryable, AFailedTerminal, ACancelled, ALost, ASuperseded]"
| "ATTEMPT_TRANSITIONS _ = []"

definition job_terminal :: "job_status \<Rightarrow> bool" where
  "job_terminal s = List.member TERMINAL_JOBS s"

definition attempt_live :: "attempt_status \<Rightarrow> bool" where
  "attempt_live s = List.member [ACreated, ADispatched, AClaimed, ARunning] s"

lemma job_terminal_iff [simp]:
  "job_terminal s \<longleftrightarrow> s \<in> {JCompleted, JPartial, JFailed, JCancelled, JDead}"
  by (auto simp: job_terminal_def TERMINAL_JOBS_def)

lemma attempt_live_iff: "attempt_live s \<longleftrightarrow> s \<in> {ACreated, ADispatched, AClaimed, ARunning}"
  by (auto simp: attempt_live_def)

lemma attempt_not_live_no_transition: "\<not> attempt_live s \<Longrightarrow> ATTEMPT_TRANSITIONS s = []"
  by (cases s) (auto simp: attempt_live_iff)

lemma attempt_transition_live: "t \<in> set (ATTEMPT_TRANSITIONS s) \<Longrightarrow> attempt_live s"
  by (cases s) (auto simp: attempt_live_iff)

text \<open>
  A life cycle given by a table of successor states: the states without a successor are the
  terminal ones, and a machine that follows the table never leaves them.
\<close>

locale lifecycle =
  fixes succs :: "'s \<Rightarrow> 's list"
    and terminal :: "'s \<Rightarrow> bool"
  assumes terminal_succs: "terminal s \<longleftrightarrow> succs s = []"
begin

inductive reaches :: "'s \<Rightarrow> 's \<Rightarrow> bool" where
  refl: "reaches s s"
| step: "reaches s t \<Longrightarrow> u \<in> set (succs t) \<Longrightarrow> reaches s u"

lemma terminal_stays: "reaches s t \<Longrightarrow> terminal s \<Longrightarrow> t = s"
  by (induction rule: reaches.induct) (auto simp: terminal_succs)

lemma reaches_trans: "reaches t u \<Longrightarrow> reaches s t \<Longrightarrow> reaches s u"
  by (induction rule: reaches.induct) (auto intro: reaches.step)

end

interpretation job_table: lifecycle JOB_TRANSITIONS job_terminal
proof
  fix s show "job_terminal s \<longleftrightarrow> JOB_TRANSITIONS s = []" by (cases s) auto
qed

interpretation attempt_table: lifecycle ATTEMPT_TRANSITIONS "\<lambda>s. \<not> attempt_live s"
proof
  fix s show "(\<not> attempt_live s) \<longleftrightarrow> ATTEMPT_TRANSITIONS s = []"
    by (cases s) (auto simp: attempt_live_iff)
qed

section \<open>Validators\<close>

definition job_record_valid :: "job_record \<Rightarrow> bool" where
  "job_record_valid j \<longleftrightarrow>
     1 \<le> length (j_job_id j) \<and> length (j_job_id j) \<le> 128 \<and>
     1 \<le> length (j_queue_name j) \<and> length (j_queue_name j) \<le> 128 \<and>
     -100 \<le> j_priority j \<and> j_priority j \<le> 100 \<and>
     1 \<le> j_current_attempt_number j \<and>
     1 \<le> j_max_attempts j \<and> j_max_attempts j \<le> 100 \<and>
     is_sha256_hex (j_idempotency_key_hash j) \<and> is_sha256_hex (j_request_hash j) \<and>
     1 \<le> j_task_schema_version j \<and>
     length (j_result_artifact_ref_ids j) \<le> 200 \<and>
     1 \<le> j_revision j \<and>
     (job_terminal (j_status j) \<longleftrightarrow> j_finished_at j \<noteq> None)"

definition job_attempt_valid :: "job_attempt \<Rightarrow> bool" where
  "job_attempt_valid a \<longleftrightarrow> 1 \<le> a_attempt_number a \<and> is_sha256_hex (a_execution_token_hash a)"

definition outbox_event_valid :: "outbox_event \<Rightarrow> bool" where
  "outbox_event_valid e \<longleftrightarrow>
     1 \<le> o_attempt_number e \<and> 1 \<le> o_task_schema_version e \<and>
     is_sha256_hex (o_request_hash e) \<and> is_sha256_hex (o_message_deduplication_key e) \<and>
     0 \<le> o_publish_attempt e"

definition validate_job :: "job_record \<Rightarrow> exn + job_record" where
  "validate_job j = (if job_record_valid j then Inr j else Inl ValidationError)"

definition validate_attempt :: "job_attempt \<Rightarrow> exn + job_attempt" where
  "validate_attempt a = (if job_attempt_valid a then Inr a else Inl ValidationError)"

definition validate_outbox :: "outbox_event \<Rightarrow> exn + outbox_event" where
  "validate_outbox e = (if outbox_event_valid e then Inr e else Inl ValidationError)"

lemmas validators = validate_job_def validate_attempt_def validate_outbox_def

end
