(* ===== verification/Cp_Tables.thy ===== *)
theory Cp_Tables
  imports Cp_Schemas
begin

text \<open>
  The job tables of \<open>migrations/001_control_plane.sql\<close> (and 002) and the row helpers at the end
  of \<open>store.py\<close>.  Every row keeps, next to the columns the queries use, the pydantic model that
  the \<open>_json\<close> column holds.  An insert checks the constraints of the schema: primary keys,
  \<open>UNIQUE\<close> and \<open>REFERENCES\<close> (\<open>PRAGMA foreign_keys=ON\<close>); a violation is an
  \<open>IntegrityError\<close>, here \<open>None\<close>.
\<close>

record job_row =
  jr_job_id :: string
  jr_workspace_id :: string
  jr_project_id :: "string option"
  jr_job_type :: job_type
  jr_queue_name :: string
  jr_priority :: int
  jr_status :: job_status
  jr_current_attempt_number :: int
  jr_idempotency_key_hash :: string
  jr_request_hash :: string
  jr_revision :: int
  jr_json :: job_record
  jr_created_at :: timestamp
  jr_updated_at :: timestamp

record attempt_row =
  ar_attempt_id :: string
  ar_job_id :: string
  ar_attempt_number :: int
  ar_status :: attempt_status
  ar_execution_token_hash :: string
  ar_json :: job_attempt
  ar_created_at :: timestamp
  ar_updated_at :: timestamp

record outbox_row =
  or_outbox_event_id :: string
  or_job_id :: string
  or_attempt_id :: string
  or_status :: outbox_status
  or_message_deduplication_key :: string
  or_claim_token_hash :: "string option"
  or_lease_owner_hash :: "string option"
  or_lease_until :: "timestamp option"
  or_publish_attempt :: int
  or_last_publish_error_code :: "string option"
  or_next_retry_at :: "timestamp option"
  or_json :: outbox_event
  or_created_at :: timestamp
  or_updated_at :: timestamp

record request_row =
  rr_job_id :: string
  rr_workspace_id :: string
  rr_project_id :: "string option"
  rr_request_hash :: string
  rr_request :: json
  rr_created_at :: timestamp

record domain_run_row =
  dr_domain_run_id :: string
  dr_workspace_id :: string
  dr_project_id :: "string option"
  dr_job_type :: job_type
  dr_status :: string
  dr_request_hash :: string
  dr_created_at :: timestamp
  dr_updated_at :: timestamp

record audit_row =
  au_audit_event_id :: string
  au_workspace_id :: "string option"
  au_project_id :: "string option"
  au_actor_id_hash :: string
  au_action :: string
  au_object_type :: string
  au_object_id :: string
  au_outcome :: string
  au_reason_code :: string
  au_occurred_at :: timestamp

record cp_db =
  domain_runs :: "domain_run_row list"
  jobs :: "job_row list"
  job_requests :: "request_row list"
  job_attempts :: "attempt_row list"
  outbox_events :: "outbox_row list"
  audit_events :: "audit_row list"

definition empty_db :: cp_db where
  "empty_db = \<lparr>domain_runs = [], jobs = [], job_requests = [], job_attempts = [],
     outbox_events = [], audit_events = []\<rparr>"

section \<open>Row helpers\<close>

text \<open>\<open>_insert_job\<close>: the columns are copied from the record.\<close>

definition job_row_of :: "job_record \<Rightarrow> job_row" where
  "job_row_of job = \<lparr>jr_job_id = j_job_id job, jr_workspace_id = j_workspace_id job,
     jr_project_id = j_project_id job, jr_job_type = j_job_type job,
     jr_queue_name = j_queue_name job, jr_priority = j_priority job, jr_status = j_status job,
     jr_current_attempt_number = j_current_attempt_number job,
     jr_idempotency_key_hash = j_idempotency_key_hash job,
     jr_request_hash = j_request_hash job, jr_revision = j_revision job, jr_json = job,
     jr_created_at = j_created_at job, jr_updated_at = j_updated_at job\<rparr>"

definition find_idempotent_job :: "string \<Rightarrow> string \<Rightarrow> cp_db \<Rightarrow> job_row option" where
  "find_idempotent_job workspace_id key_hash db =
     find_by (\<lambda>r. (jr_workspace_id r, jr_idempotency_key_hash r)) (workspace_id, key_hash) (jobs db)"

definition insert_job :: "job_record \<Rightarrow> cp_db \<Rightarrow> cp_db option" where
  "insert_job job db =
     (if find_idempotent_job (j_workspace_id job) (j_idempotency_key_hash job) db \<noteq> None then None
      else map_option (\<lambda>rows. db\<lparr>jobs := rows\<rparr>)
             (insert_by jr_job_id (job_row_of job) (jobs db)))"

definition set_job_row :: "job_record \<Rightarrow> job_row \<Rightarrow> job_row" where
  "set_job_row job r = r\<lparr>jr_status := j_status job,
     jr_current_attempt_number := j_current_attempt_number job, jr_revision := j_revision job,
     jr_json := job, jr_updated_at := j_updated_at job\<rparr>"

definition update_job :: "job_record \<Rightarrow> cp_db \<Rightarrow> cp_db" where
  "update_job job db =
     db\<lparr>jobs := update_by jr_job_id (j_job_id job) (set_job_row job) (jobs db)\<rparr>"

definition attempt_row_of :: "job_attempt \<Rightarrow> attempt_row" where
  "attempt_row_of att = \<lparr>ar_attempt_id = a_attempt_id att, ar_job_id = a_job_id att,
     ar_attempt_number = a_attempt_number att, ar_status = a_status att,
     ar_execution_token_hash = a_execution_token_hash att, ar_json = att,
     ar_created_at = a_created_at att, ar_updated_at = a_updated_at att\<rparr>"

definition find_attempt_number :: "string \<Rightarrow> int \<Rightarrow> cp_db \<Rightarrow> attempt_row option" where
  "find_attempt_number job_id number db =
     find_by (\<lambda>r. (ar_job_id r, ar_attempt_number r)) (job_id, number) (job_attempts db)"

definition insert_attempt :: "job_attempt \<Rightarrow> cp_db \<Rightarrow> cp_db option" where
  "insert_attempt att db =
     (if find_attempt_number (a_job_id att) (a_attempt_number att) db \<noteq> None
         \<or> find_by jr_job_id (a_job_id att) (jobs db) = None then None
      else map_option (\<lambda>rows. db\<lparr>job_attempts := rows\<rparr>)
             (insert_by ar_attempt_id (attempt_row_of att) (job_attempts db)))"

text \<open>\<open>UPDATE job_attempts SET status=?,attempt_json=?,updated_at=? WHERE attempt_id=?\<close>\<close>

definition set_attempt_row :: "job_attempt \<Rightarrow> attempt_row \<Rightarrow> attempt_row" where
  "set_attempt_row att r = r\<lparr>ar_status := a_status att, ar_json := att,
     ar_updated_at := a_updated_at att\<rparr>"

definition update_attempt :: "job_attempt \<Rightarrow> cp_db \<Rightarrow> cp_db" where
  "update_attempt att db =
     db\<lparr>job_attempts := update_by ar_attempt_id (a_attempt_id att) (set_attempt_row att)
          (job_attempts db)\<rparr>"

definition outbox_row_of :: "outbox_event \<Rightarrow> outbox_row" where
  "outbox_row_of e = \<lparr>or_outbox_event_id = o_outbox_event_id e, or_job_id = o_job_id e,
     or_attempt_id = o_attempt_id e, or_status = o_status e,
     or_message_deduplication_key = o_message_deduplication_key e,
     or_claim_token_hash = o_claim_token_hash e, or_lease_owner_hash = o_lease_owner_hash e,
     or_lease_until = o_lease_until e, or_publish_attempt = o_publish_attempt e,
     or_last_publish_error_code = o_last_publish_error_code e,
     or_next_retry_at = o_next_retry_at e, or_json = e, or_created_at = o_created_at e,
     or_updated_at = o_updated_at e\<rparr>"

definition insert_outbox :: "outbox_event \<Rightarrow> cp_db \<Rightarrow> cp_db option" where
  "insert_outbox e db =
     (if o_message_deduplication_key e \<in> or_message_deduplication_key ` set (outbox_events db)
         \<or> find_by jr_job_id (o_job_id e) (jobs db) = None
         \<or> find_by ar_attempt_id (o_attempt_id e) (job_attempts db) = None then None
      else map_option (\<lambda>rows. db\<lparr>outbox_events := rows\<rparr>)
             (insert_by or_outbox_event_id (outbox_row_of e) (outbox_events db)))"

definition update_outbox :: "string \<Rightarrow> (outbox_row \<Rightarrow> outbox_row) \<Rightarrow> cp_db \<Rightarrow> cp_db" where
  "update_outbox event_id f db =
     db\<lparr>outbox_events := update_by or_outbox_event_id event_id f (outbox_events db)\<rparr>"

definition insert_request :: "request_row \<Rightarrow> cp_db \<Rightarrow> cp_db option" where
  "insert_request r db =
     (if find_by jr_job_id (rr_job_id r) (jobs db) = None then None
      else map_option (\<lambda>rows. db\<lparr>job_requests := rows\<rparr>)
             (insert_by rr_job_id r (job_requests db)))"

definition insert_domain_run :: "domain_run_row \<Rightarrow> cp_db \<Rightarrow> cp_db option" where
  "insert_domain_run r db =
     map_option (\<lambda>rows. db\<lparr>domain_runs := rows\<rparr>) (insert_by dr_domain_run_id r (domain_runs db))"

definition insert_audit :: "audit_row \<Rightarrow> cp_db \<Rightarrow> cp_db option" where
  "insert_audit r db =
     map_option (\<lambda>rows. db\<lparr>audit_events := rows\<rparr>)
       (insert_by au_audit_event_id r (audit_events db))"

text \<open>
  \<open>_get_attempt_in\<close> and \<open>_get_outbox_for_attempt\<close> index the fetched row without testing it:
  no row is a \<open>TypeError\<close> (\<open>None[0]\<close>).
\<close>

definition get_attempt_in :: "string \<Rightarrow> int \<Rightarrow> cp_db \<Rightarrow> exn + job_attempt" where
  "get_attempt_in job_id number db =
     (case find_attempt_number job_id number db of
        None \<Rightarrow> Inl TypeError
      | Some r \<Rightarrow> validate_attempt (ar_json r))"

definition get_outbox_for_attempt :: "string \<Rightarrow> cp_db \<Rightarrow> exn + outbox_event" where
  "get_outbox_for_attempt attempt_id db =
     (case find_by or_attempt_id attempt_id (outbox_events db) of
        None \<Rightarrow> Inl TypeError
      | Some r \<Rightarrow> validate_outbox (or_json r))"

definition get_job_request_in :: "string \<Rightarrow> cp_db \<Rightarrow> exn + json" where
  "get_job_request_in job_id db =
     (case find_by rr_job_id job_id (job_requests db) of
        None \<Rightarrow> Inl (ControlPlaneError ''job_request_not_found'')
      | Some r \<Rightarrow> (case rr_request r of
            JObj kvs \<Rightarrow> Inr (JObj kvs)
          | _ \<Rightarrow> Inl (ControlPlaneError ''job_request_invalid'')))"

section \<open>The tables are keyed tables\<close>

definition job_row_at :: "string \<Rightarrow> cp_db \<Rightarrow> job_row option" where
  "job_row_at job_id db = find_by jr_job_id job_id (jobs db)"

definition attempt_row_at :: "string \<Rightarrow> cp_db \<Rightarrow> attempt_row option" where
  "attempt_row_at attempt_id db = find_by ar_attempt_id attempt_id (job_attempts db)"

definition outbox_row_at :: "string \<Rightarrow> cp_db \<Rightarrow> outbox_row option" where
  "outbox_row_at event_id db = find_by or_outbox_event_id event_id (outbox_events db)"

interpretation job_tbl: keyed_table jr_job_id
  "\<lambda>k db. find_by jr_job_id k (jobs db)"
  "\<lambda>k f db. db\<lparr>jobs := update_by jr_job_id k f (jobs db)\<rparr>"
  "\<lambda>r db. map_option (\<lambda>rows. db\<lparr>jobs := rows\<rparr>) (insert_by jr_job_id r (jobs db))"
  jobs
  by (rule keyed_table_field [where upd = "\<lambda>rows db. db\<lparr>jobs := rows\<rparr>"]) simp

interpretation attempt_tbl: keyed_table ar_attempt_id
  "\<lambda>k db. find_by ar_attempt_id k (job_attempts db)"
  "\<lambda>k f db. db\<lparr>job_attempts := update_by ar_attempt_id k f (job_attempts db)\<rparr>"
  "\<lambda>r db. map_option (\<lambda>rows. db\<lparr>job_attempts := rows\<rparr>)
     (insert_by ar_attempt_id r (job_attempts db))"
  job_attempts
  by (rule keyed_table_field [where upd = "\<lambda>rows db. db\<lparr>job_attempts := rows\<rparr>"]) simp

interpretation outbox_tbl: keyed_table or_outbox_event_id
  "\<lambda>k db. find_by or_outbox_event_id k (outbox_events db)"
  "\<lambda>k f db. db\<lparr>outbox_events := update_by or_outbox_event_id k f (outbox_events db)\<rparr>"
  "\<lambda>r db. map_option (\<lambda>rows. db\<lparr>outbox_events := rows\<rparr>)
     (insert_by or_outbox_event_id r (outbox_events db))"
  outbox_events
  by (rule keyed_table_field [where upd = "\<lambda>rows db. db\<lparr>outbox_events := rows\<rparr>"]) simp

lemma set_job_row_key [simp]: "jr_job_id (set_job_row job r) = jr_job_id r"
  by (simp add: set_job_row_def)

lemma set_attempt_row_simps [simp]:
  "ar_attempt_id (set_attempt_row att r) = ar_attempt_id r"
  "ar_job_id (set_attempt_row att r) = ar_job_id r"
  "ar_attempt_number (set_attempt_row att r) = ar_attempt_number r"
  by (simp_all add: set_attempt_row_def)

lemma job_row_at_update_job [table_simps]:
  "job_row_at k (update_job job db) =
     (if k = j_job_id job then map_option (set_job_row job) (job_row_at k db)
      else job_row_at k db)"
  unfolding job_row_at_def update_job_def by (rule job_tbl.get_put) simp

lemma attempt_row_at_update_attempt [table_simps]:
  "attempt_row_at k (update_attempt att db) =
     (if k = a_attempt_id att then map_option (set_attempt_row att) (attempt_row_at k db)
      else attempt_row_at k db)"
  unfolding attempt_row_at_def update_attempt_def by (rule attempt_tbl.get_put) simp

lemma outbox_row_at_update_outbox [table_simps]:
  "(\<And>r. or_outbox_event_id (f r) = or_outbox_event_id r) \<Longrightarrow>
   outbox_row_at k (update_outbox event_id f db) =
     (if k = event_id then map_option f (outbox_row_at k db) else outbox_row_at k db)"
  unfolding outbox_row_at_def update_outbox_def by (rule outbox_tbl.get_put)

text \<open>Each helper touches one table.\<close>

lemma update_job_frame [simp]:
  "job_attempts (update_job job db) = job_attempts db"
  "outbox_events (update_job job db) = outbox_events db"
  "job_requests (update_job job db) = job_requests db"
  "domain_runs (update_job job db) = domain_runs db"
  "audit_events (update_job job db) = audit_events db"
  by (simp_all add: update_job_def)

lemma update_attempt_frame [simp]:
  "jobs (update_attempt att db) = jobs db"
  "outbox_events (update_attempt att db) = outbox_events db"
  "job_requests (update_attempt att db) = job_requests db"
  "domain_runs (update_attempt att db) = domain_runs db"
  "audit_events (update_attempt att db) = audit_events db"
  by (simp_all add: update_attempt_def)

lemma update_outbox_frame [simp]:
  "jobs (update_outbox k f db) = jobs db"
  "job_attempts (update_outbox k f db) = job_attempts db"
  "job_requests (update_outbox k f db) = job_requests db"
  "domain_runs (update_outbox k f db) = domain_runs db"
  "audit_events (update_outbox k f db) = audit_events db"
  by (simp_all add: update_outbox_def)

lemma row_at_frame [simp]:
  "attempt_row_at k (update_job job db) = attempt_row_at k db"
  "outbox_row_at k (update_job job db) = outbox_row_at k db"
  "job_row_at k (update_attempt att db) = job_row_at k db"
  "outbox_row_at k (update_attempt att db) = outbox_row_at k db"
  "job_row_at k (update_outbox e f db) = job_row_at k db"
  "attempt_row_at k (update_outbox e f db) = attempt_row_at k db"
  by (simp_all add: job_row_at_def attempt_row_at_def outbox_row_at_def)

lemma job_row_at_key: "job_row_at k db = Some r \<Longrightarrow> jr_job_id r = k \<and> r \<in> set (jobs db)"
  unfolding job_row_at_def by (rule job_tbl.get_key)

lemma attempt_row_at_key:
  "attempt_row_at k db = Some r \<Longrightarrow> ar_attempt_id r = k \<and> r \<in> set (job_attempts db)"
  unfolding attempt_row_at_def by (rule attempt_tbl.get_key)

lemma outbox_row_at_key:
  "outbox_row_at k db = Some r \<Longrightarrow> or_outbox_event_id r = k \<and> r \<in> set (outbox_events db)"
  unfolding outbox_row_at_def by (rule outbox_tbl.get_key)

end
