(* ===== verification/Cp_Jobs.thy ===== *)
theory Cp_Jobs
  imports Cp_Tables
begin

text \<open>
  The job operations of \<open>LocalControlPlaneStore\<close> (\<open>control_plane/store.py\<close>).  Each runs in
  one \<open>BEGIN IMMEDIATE\<close> transaction: an operation is a function of the tables that returns its
  result or exception and the tables; a raised exception rolls back (the tables are the old
  ones), except where the code commits before it raises (\<open>create_retry_attempt\<close>).  The clock
  (\<open>datetime.now(UTC)\<close>) and the random identifiers (\<open>uuid4\<close>, \<open>secrets.token_urlsafe\<close>) are
  arguments.
\<close>

record nonces =
  n_job :: string
  n_attempt :: string
  n_run :: string
  n_token :: string
  n_outbox :: string
  n_audit :: string
  n_key :: string

text \<open>The keyword arguments of \<open>create_job\<close>.\<close>

record new_job =
  nj_workspace_id :: string
  nj_project_id :: "string option"
  nj_job_type :: job_type
  nj_queue_name :: string
  nj_request :: json
  nj_idempotency_key :: string
  nj_actor_id_hash :: string
  nj_domain_run_id :: "string option"
  nj_retry_of_job_id :: "string option"
  nj_max_attempts :: int
  nj_task_schema_version :: int

record created_job =
  cj_job :: job_record
  cj_attempt :: job_attempt
  cj_outbox :: outbox_event
  cj_execution_token :: string
  cj_request :: json

section \<open>Building the records\<close>

definition request_hash_of :: "json \<Rightarrow> string" where
  "request_hash_of request = stable_hash (json_dumps request)"

definition message_deduplication_key :: "string \<Rightarrow> int \<Rightarrow> int \<Rightarrow> string \<Rightarrow> string" where
  "message_deduplication_key job_id attempt_number task_schema_version request_hash =
     stable_hash (job_id @ '':'' @ show_int attempt_number @ '':'' @
       show_int task_schema_version @ '':'' @ request_hash)"

text \<open>\<open>value or default\<close> for an optional string.\<close>

definition str_or :: "string option \<Rightarrow> string \<Rightarrow> string" where
  "str_or v d = (case v of Some s \<Rightarrow> if s = [] then d else s | None \<Rightarrow> d)"

definition new_job_record :: "nonces \<Rightarrow> timestamp \<Rightarrow> new_job \<Rightarrow> job_record" where
  "new_job_record u now nj = \<lparr>
     j_schema_version = SCHEMA_VERSION, j_job_id = ''job_'' @ n_job u,
     j_workspace_id = nj_workspace_id nj, j_project_id = nj_project_id nj,
     j_job_type = nj_job_type nj, j_queue_name = nj_queue_name nj, j_resource_class = Cpu,
     j_priority = 0, j_domain_run_id = Some (str_or (nj_domain_run_id nj) (''run_'' @ n_run u)),
     j_retry_of_job_id = nj_retry_of_job_id nj, j_status = JQueued,
     j_dispatch_block_reason = None, j_current_attempt_number = 1,
     j_max_attempts = nj_max_attempts nj,
     j_idempotency_key_hash = stable_hash (nj_idempotency_key nj),
     j_request_hash = request_hash_of (nj_request nj),
     j_task_schema_version = nj_task_schema_version nj, j_handler_version = ''1'',
     j_scheduled_at = None, j_started_at = None, j_heartbeat_at = None, j_finished_at = None,
     j_cancel_requested = False, j_retryable = False, j_error_code = None,
     j_result_artifact_ref_ids = [], j_created_at = now, j_updated_at = now, j_revision = 1\<rparr>"

definition new_attempt :: "nonces \<Rightarrow> timestamp \<Rightarrow> string \<Rightarrow> int \<Rightarrow> job_attempt" where
  "new_attempt u now job_id number = \<lparr>
     a_schema_version = SCHEMA_VERSION, a_attempt_id = ''attempt_'' @ n_attempt u,
     a_job_id = job_id, a_attempt_number = number, a_status = ACreated,
     a_execution_token_hash = stable_hash (n_token u), a_celery_task_id = None,
     a_worker_id_hash = None, a_lease_until = None, a_heartbeat_at = None,
     a_started_at = None, a_finished_at = None, a_error_code = None, a_retryable = False,
     a_created_at = now, a_updated_at = now\<rparr>"

definition new_outbox :: "nonces \<Rightarrow> job_record \<Rightarrow> job_attempt \<Rightarrow> timestamp \<Rightarrow> outbox_event" where
  "new_outbox u job att now = \<lparr>
     o_schema_version = SCHEMA_VERSION, o_outbox_event_id = ''outbox_'' @ n_outbox u,
     o_aggregate_id = j_job_id job, o_job_id = j_job_id job, o_attempt_id = a_attempt_id att,
     o_attempt_number = a_attempt_number att,
     o_task_schema_version = j_task_schema_version job, o_request_hash = j_request_hash job,
     o_message_deduplication_key = message_deduplication_key (j_job_id job)
       (a_attempt_number att) (j_task_schema_version job) (j_request_hash job),
     o_status = OPending, o_claim_token_hash = None, o_lease_owner_hash = None,
     o_lease_until = None, o_publish_attempt = 0, o_last_publish_error_code = None,
     o_published_message_id = None, o_next_retry_at = None,
     o_payload = JObj [(''job_id'', JStr (j_job_id job)),
       (''attempt_id'', JStr (a_attempt_id att)),
       (''attempt_number'', JInt (a_attempt_number att)),
       (''job_type'', JStr (job_type_value (j_job_type job))),
       (''request_hash'', JStr (j_request_hash job)),
       (''task_schema_version'', JInt (j_task_schema_version job))],
     o_created_at = now, o_updated_at = now\<rparr>"

section \<open>create\_job\<close>

text \<open>The inserts of a new job; \<open>None\<close> is the first constraint that fails.\<close>

definition insert_new_job ::
    "nonces \<Rightarrow> timestamp \<Rightarrow> new_job \<Rightarrow> job_record \<Rightarrow> job_attempt \<Rightarrow> outbox_event \<Rightarrow> cp_db \<Rightarrow> cp_db option"
where
  "insert_new_job u now nj job att ev db =
     Option.bind (insert_domain_run
         \<lparr>dr_domain_run_id = str_or (nj_domain_run_id nj) (''run_'' @ n_run u),
          dr_workspace_id = nj_workspace_id nj, dr_project_id = nj_project_id nj,
          dr_job_type = nj_job_type nj, dr_status = ''queued'',
          dr_request_hash = j_request_hash job, dr_created_at = now, dr_updated_at = now\<rparr> db) (\<lambda>db1.
     Option.bind (insert_job job db1) (\<lambda>db2.
     Option.bind (insert_request
         \<lparr>rr_job_id = j_job_id job, rr_workspace_id = nj_workspace_id nj,
          rr_project_id = nj_project_id nj, rr_request_hash = j_request_hash job,
          rr_request = sort_keys (nj_request nj), rr_created_at = now\<rparr> db2) (\<lambda>db3.
     Option.bind (insert_attempt att db3) (\<lambda>db4.
     Option.bind (insert_outbox ev db4) (\<lambda>db5.
     insert_audit
         \<lparr>au_audit_event_id = ''audit_'' @ n_audit u,
          au_workspace_id = Some (nj_workspace_id nj), au_project_id = nj_project_id nj,
          au_actor_id_hash = nj_actor_id_hash nj, au_action = ''job.create'',
          au_object_type = ''job'', au_object_id = j_job_id job, au_outcome = ''succeeded'',
          au_reason_code = ''job_created'', au_occurred_at = now\<rparr> db5)))))"

definition create_job ::
    "nonces \<Rightarrow> timestamp \<Rightarrow> new_job \<Rightarrow> cp_db \<Rightarrow> (cp_db, created_job) outcome" where
  "create_job u now nj db =
     (case find_idempotent_job (nj_workspace_id nj) (stable_hash (nj_idempotency_key nj)) db of
        Some row \<Rightarrow>
          (case validate_job (jr_json row) of Inl e \<Rightarrow> (Inl e, db) | Inr job \<Rightarrow>
             if j_request_hash job \<noteq> request_hash_of (nj_request nj)
             then (Inl (ControlPlaneError ''idempotency_key_conflict''), db)
             else (case get_attempt_in (j_job_id job) (j_current_attempt_number job) db of
                 Inl e \<Rightarrow> (Inl e, db)
               | Inr att \<Rightarrow> (case get_outbox_for_attempt (a_attempt_id att) db of
                     Inl e \<Rightarrow> (Inl e, db)
                   | Inr ev \<Rightarrow> (case get_job_request_in (j_job_id job) db of
                         Inl e \<Rightarrow> (Inl e, db)
                       | Inr req \<Rightarrow>
                           (Inr \<lparr>cj_job = job, cj_attempt = att, cj_outbox = ev,
                              cj_execution_token = [], cj_request = req\<rparr>, db)))))
      | None \<Rightarrow>
          (let job0 = new_job_record u now nj; att0 = new_attempt u now (j_job_id job0) 1 in
           case validate_job job0 of Inl e \<Rightarrow> (Inl e, db) | Inr job \<Rightarrow>
           case validate_attempt att0 of Inl e \<Rightarrow> (Inl e, db) | Inr att \<Rightarrow>
           case validate_outbox (new_outbox u job att now) of Inl e \<Rightarrow> (Inl e, db) | Inr ev \<Rightarrow>
           case insert_new_job u now nj job att ev db of
             None \<Rightarrow> (Inl IntegrityError, db)
           | Some db' \<Rightarrow>
               (Inr \<lparr>cj_job = job, cj_attempt = att, cj_outbox = ev,
                  cj_execution_token = n_token u, cj_request = nj_request nj\<rparr>, db')))"

section \<open>Reading\<close>

definition get_job :: "string \<Rightarrow> cp_db \<Rightarrow> exn + job_record" where
  "get_job job_id db =
     (case job_row_at job_id db of
        None \<Rightarrow> Inl (ControlPlaneError ''job_not_found'')
      | Some row \<Rightarrow> validate_job (jr_json row))"

definition get_attempt :: "string \<Rightarrow> cp_db \<Rightarrow> exn + job_attempt" where
  "get_attempt attempt_id db =
     (case attempt_row_at attempt_id db of
        None \<Rightarrow> Inl (ControlPlaneError ''attempt_not_found'')
      | Some row \<Rightarrow> validate_attempt (ar_json row))"

section \<open>Attempts\<close>

definition transition_attempt ::
    "timestamp \<Rightarrow> string \<Rightarrow> string \<Rightarrow> attempt_status \<Rightarrow> string option \<Rightarrow> string option \<Rightarrow> cp_db
     \<Rightarrow> (cp_db, job_attempt) outcome" where
  "transition_attempt now attempt_id execution_token target worker_id_hash celery_task_id db =
     (case get_attempt attempt_id db of Inl e \<Rightarrow> (Inl e, db) | Inr att \<Rightarrow>
        if a_execution_token_hash att \<noteq> stable_hash execution_token
        then (Inl (ControlPlaneError ''stale_execution_token''), db)
        else if target \<notin> set (ATTEMPT_TRANSITIONS (a_status att))
        then (Inl (ControlPlaneError ''invalid_attempt_transition''), db)
        else (let upd = att\<lparr>a_status := target, a_updated_at := now,
                a_worker_id_hash :=
                  (if worker_id_hash \<noteq> None then worker_id_hash else a_worker_id_hash att),
                a_celery_task_id :=
                  (if celery_task_id \<noteq> None then celery_task_id else a_celery_task_id att),
                a_heartbeat_at :=
                  (if target \<in> {AClaimed, ARunning} then Some now else a_heartbeat_at att),
                a_started_at := (if target = ARunning then Some now else a_started_at att)\<rparr>
          in case validate_attempt upd of Inl e \<Rightarrow> (Inl e, db)
             | Inr updated \<Rightarrow> (Inr updated, update_attempt updated db)))"

definition heartbeat_attempt ::
    "timestamp \<Rightarrow> string \<Rightarrow> string \<Rightarrow> cp_db \<Rightarrow> (cp_db, job_attempt) outcome" where
  "heartbeat_attempt now attempt_id execution_token db =
     (case get_attempt attempt_id db of Inl e \<Rightarrow> (Inl e, db) | Inr att \<Rightarrow>
        if a_execution_token_hash att \<noteq> stable_hash execution_token
        then (Inl (ControlPlaneError ''stale_execution_token''), db)
        else if a_status att \<notin> {AClaimed, ARunning}
        then (Inl (ControlPlaneError ''attempt_not_heartbeat_eligible''), db)
        else (let upd = att\<lparr>a_heartbeat_at := Some now, a_updated_at := now\<rparr>
              in (Inr upd, update_attempt upd db)))"

section \<open>Jobs\<close>

definition transition_job ::
    "timestamp \<Rightarrow> string \<Rightarrow> job_status \<Rightarrow> string option \<Rightarrow> int option \<Rightarrow> cp_db
     \<Rightarrow> (cp_db, job_record) outcome" where
  "transition_job now job_id target error_code expected_revision db =
     (case get_job job_id db of Inl e \<Rightarrow> (Inl e, db) | Inr job \<Rightarrow>
        if (case expected_revision of None \<Rightarrow> False | Some rv \<Rightarrow> j_revision job \<noteq> rv)
        then (Inl (ControlPlaneError ''stale_job_revision''), db)
        else if job_terminal (j_status job) \<or> target \<notin> set (JOB_TRANSITIONS (j_status job))
        then (Inl (ControlPlaneError ''invalid_job_transition''), db)
        else (let upd = job\<lparr>j_status := target, j_error_code := error_code, j_updated_at := now,
                j_finished_at := (if job_terminal target then Some now else None),
                j_revision := j_revision job + 1,
                j_started_at := (if target = JRunning \<and> j_started_at job = None then Some now
                                 else j_started_at job)\<rparr>
          in case validate_job upd of Inl e \<Rightarrow> (Inl e, db)
             | Inr updated \<Rightarrow> (Inr updated, update_job updated db)))"

definition complete_allowed :: "attempt_status \<Rightarrow> bool" where
  "complete_allowed s =
     List.member [ASucceeded, AFailedRetryable, AFailedTerminal, ACancelled, ALost] s"

fun complete_target :: "attempt_status \<Rightarrow> job_status" where
  "complete_target ASucceeded = JCompleted"
| "complete_target AFailedRetryable = JRetryWait"
| "complete_target AFailedTerminal = JFailed"
| "complete_target ACancelled = JCancelled"
| "complete_target _ = JRetryWait"

text \<open>The two rewritten models of \<open>complete_attempt\<close>.\<close>

definition completed_attempt ::
    "timestamp \<Rightarrow> attempt_status \<Rightarrow> string option \<Rightarrow> job_attempt \<Rightarrow> job_attempt" where
  "completed_attempt now status error_code att = att\<lparr>a_status := status, a_error_code := error_code,
     a_retryable := (status = AFailedRetryable), a_finished_at := Some now, a_updated_at := now\<rparr>"

definition completed_job ::
    "timestamp \<Rightarrow> job_status \<Rightarrow> string option \<Rightarrow> string list \<Rightarrow> job_record \<Rightarrow> job_record" where
  "completed_job now target error_code result_refs job = job\<lparr>j_status := target,
     j_retryable := (target = JRetryWait), j_error_code := error_code,
     j_finished_at := (if job_terminal target then Some now else None), j_updated_at := now,
     j_revision := j_revision job + 1,
     j_result_artifact_ref_ids :=
       (if result_refs \<noteq> [] then result_refs else j_result_artifact_ref_ids job)\<rparr>"

definition complete_attempt ::
    "timestamp \<Rightarrow> string \<Rightarrow> string \<Rightarrow> attempt_status \<Rightarrow> string option \<Rightarrow> string list \<Rightarrow> cp_db
     \<Rightarrow> (cp_db, job_attempt \<times> job_record) outcome" where
  "complete_attempt now attempt_id execution_token status error_code result_refs db =
     (if \<not> complete_allowed status
      then (Inl (ControlPlaneError ''invalid_attempt_terminal_status''), db)
      else case get_attempt attempt_id db of Inl e \<Rightarrow> (Inl e, db) | Inr att \<Rightarrow>
        if a_execution_token_hash att \<noteq> stable_hash execution_token
        then (Inl (ControlPlaneError ''stale_execution_token''), db)
        else case job_row_at (a_job_id att) db of None \<Rightarrow> (Inl TypeError, db) | Some row \<Rightarrow>
        case validate_job (jr_json row) of Inl e \<Rightarrow> (Inl e, db) | Inr job \<Rightarrow>
        if j_current_attempt_number job \<noteq> a_attempt_number att
        then (Inl (ControlPlaneError ''late_attempt_result''), db)
        else if status \<notin> set (ATTEMPT_TRANSITIONS (a_status att)) \<and> a_status att \<noteq> ACreated
        then (Inl (ControlPlaneError ''invalid_attempt_transition''), db)
        else
          (let att' = completed_attempt now status error_code att;
               job' = completed_job now (complete_target status) error_code result_refs job
           in case validate_attempt att' of Inl e \<Rightarrow> (Inl e, db) | Inr updated_attempt \<Rightarrow>
              case validate_job job' of Inl e \<Rightarrow> (Inl e, db) | Inr updated_job \<Rightarrow>
                (Inr (updated_attempt, updated_job),
                 update_job updated_job (update_attempt updated_attempt db))))"

text \<open>The inserts of a further attempt, shared by the retry and the recovery.\<close>

definition start_attempt ::
    "job_record \<Rightarrow> job_attempt \<Rightarrow> outbox_event \<Rightarrow> cp_db \<Rightarrow> cp_db option" where
  "start_attempt job att ev db =
     Option.bind (insert_attempt att db) (\<lambda>db1.
     Option.bind (insert_outbox ev db1) (\<lambda>db2. Some (update_job job db2)))"

definition create_retry_attempt ::
    "nonces \<Rightarrow> timestamp \<Rightarrow> string \<Rightarrow> cp_db \<Rightarrow> (cp_db, created_job) outcome" where
  "create_retry_attempt u now job_id db =
     (case get_job job_id db of Inl e \<Rightarrow> (Inl e, db) | Inr job \<Rightarrow>
        if j_status job \<noteq> JRetryWait then (Inl (ControlPlaneError ''job_not_retry_wait''), db)
        else if j_max_attempts job \<le> j_current_attempt_number job then
          (case validate_job (job\<lparr>j_status := JDead, j_finished_at := Some now,
                  j_updated_at := now, j_revision := j_revision job + 1\<rparr>) of
             Inl e \<Rightarrow> (Inl e, db)
           | Inr dead \<Rightarrow> (Inl (ControlPlaneError ''job_attempts_exhausted''), update_job dead db))
        else
          case validate_attempt (new_attempt u now job_id (j_current_attempt_number job + 1)) of
            Inl e \<Rightarrow> (Inl e, db) | Inr att \<Rightarrow>
          case validate_job (job\<lparr>j_status := JQueued,
                 j_current_attempt_number := a_attempt_number att, j_retryable := False,
                 j_error_code := None, j_updated_at := now, j_revision := j_revision job + 1\<rparr>) of
            Inl e \<Rightarrow> (Inl e, db) | Inr updated_job \<Rightarrow>
          case get_job_request_in job_id db of Inl e \<Rightarrow> (Inl e, db) | Inr request \<Rightarrow>
          case validate_outbox (new_outbox u updated_job att now) of
            Inl e \<Rightarrow> (Inl e, db) | Inr ev \<Rightarrow>
          case start_attempt updated_job att ev db of
            None \<Rightarrow> (Inl IntegrityError, db)
          | Some db' \<Rightarrow> (Inr \<lparr>cj_job = updated_job, cj_attempt = att, cj_outbox = ev,
              cj_execution_token = n_token u, cj_request = request\<rparr>, db'))"

definition create_manual_retry ::
    "nonces \<Rightarrow> timestamp \<Rightarrow> string \<Rightarrow> string \<Rightarrow> cp_db \<Rightarrow> (cp_db, created_job) outcome" where
  "create_manual_retry u now job_id actor_id_hash db =
     (case get_job job_id db of Inl e \<Rightarrow> (Inl e, db) | Inr job \<Rightarrow>
        if \<not> job_terminal (j_status job)
        then (Inl (ControlPlaneError ''manual_retry_requires_terminal_job''), db)
        else case get_job_request_in job_id db of Inl e \<Rightarrow> (Inl e, db) | Inr request \<Rightarrow>
          create_job u now
            \<lparr>nj_workspace_id = j_workspace_id job, nj_project_id = j_project_id job,
             nj_job_type = j_job_type job, nj_queue_name = j_queue_name job,
             nj_request = request,
             nj_idempotency_key = ''manual-retry:'' @ job_id @ '':'' @ n_key u,
             nj_actor_id_hash = actor_id_hash, nj_domain_run_id = None,
             nj_retry_of_job_id = Some job_id, nj_max_attempts = j_max_attempts job,
             nj_task_schema_version = j_task_schema_version job\<rparr> db)"

definition request_cancel ::
    "timestamp \<Rightarrow> string \<Rightarrow> cp_db \<Rightarrow> (cp_db, job_record) outcome" where
  "request_cancel now job_id db =
     (case get_job job_id db of Inl e \<Rightarrow> (Inl e, db) | Inr job \<Rightarrow>
        if job_terminal (j_status job) then (Inr job, db)
        else if JCancelling \<notin> set (JOB_TRANSITIONS (j_status job))
        then (Inl (ControlPlaneError ''job_cannot_cancel''), db)
        else case validate_job (job\<lparr>j_status := JCancelling, j_cancel_requested := True,
                 j_updated_at := now, j_revision := j_revision job + 1\<rparr>) of
            Inl e \<Rightarrow> (Inl e, db)
          | Inr updated \<Rightarrow> (Inr updated, update_job updated db))"

section \<open>Restart recovery\<close>

text \<open>One iteration of the loop of \<open>recover_incomplete_jobs\<close>, split at its three effects: the
  attempt that the dead process owned is closed, its dispatch record is failed, and the job is
  cancelled, declared dead or queued again.\<close>

definition recover_close_attempt :: "timestamp \<Rightarrow> job_attempt \<Rightarrow> cp_db \<Rightarrow> cp_db" where
  "recover_close_attempt now att db =
     (if a_status att \<in> {ACreated, ADispatched, AClaimed, ARunning} then
        update_attempt (att\<lparr>
          a_status := (if a_status att = ACreated then ASuperseded else ALost),
          a_error_code := Some ''application_restart'', a_retryable := True,
          a_finished_at := Some now, a_updated_at := now\<rparr>) db
      else db)"

definition failed_event :: "timestamp \<Rightarrow> outbox_event \<Rightarrow> outbox_event" where
  "failed_event now e = e\<lparr>o_status := OFailed, o_claim_token_hash := None,
     o_lease_owner_hash := None, o_lease_until := None,
     o_last_publish_error_code := Some ''attempt_superseded_on_restart'', o_updated_at := now\<rparr>"

definition recover_fail_outbox :: "timestamp \<Rightarrow> string \<Rightarrow> cp_db \<Rightarrow> exn + cp_db" where
  "recover_fail_outbox now attempt_id db =
     (case find_by or_attempt_id attempt_id (outbox_events db) of
        None \<Rightarrow> Inr db
      | Some row \<Rightarrow> (case validate_outbox (or_json row) of Inl e \<Rightarrow> Inl e | Inr ev \<Rightarrow>
          if o_status ev = OFailed then Inr db
          else Inr (update_outbox (o_outbox_event_id ev) (\<lambda>r. r\<lparr>or_status := OFailed,
              or_claim_token_hash := None, or_lease_owner_hash := None, or_lease_until := None,
              or_last_publish_error_code := Some ''attempt_superseded_on_restart'',
              or_json := failed_event now ev, or_updated_at := now\<rparr>) db)))"

definition recover_job ::
    "nonces \<Rightarrow> timestamp \<Rightarrow> job_record \<Rightarrow> cp_db \<Rightarrow> exn + (created_job option \<times> cp_db)" where
  "recover_job u now job db =
     (if j_status job = JCancelling then
        Inr (None, update_job (job\<lparr>j_status := JCancelled, j_cancel_requested := True,
          j_retryable := False, j_error_code := Some ''job_cancelled_during_restart'',
          j_finished_at := Some now, j_updated_at := now, j_revision := j_revision job + 1\<rparr>) db)
      else if j_max_attempts job \<le> j_current_attempt_number job then
        Inr (None, update_job (job\<lparr>j_status := JDead, j_retryable := False,
          j_error_code := Some ''job_attempts_exhausted_after_restart'',
          j_finished_at := Some now, j_updated_at := now, j_revision := j_revision job + 1\<rparr>) db)
      else
        case validate_attempt (new_attempt u now (j_job_id job) (j_current_attempt_number job + 1)) of
          Inl e \<Rightarrow> Inl e | Inr att \<Rightarrow>
        let queued = job\<lparr>j_status := JQueued,
              j_current_attempt_number := a_attempt_number att, j_cancel_requested := False,
              j_retryable := False, j_error_code := None, j_finished_at := None,
              j_updated_at := now, j_revision := j_revision job + 1\<rparr> in
        case get_job_request_in (j_job_id job) db of Inl e \<Rightarrow> Inl e | Inr request \<Rightarrow>
        case validate_outbox (new_outbox u queued att now) of Inl e \<Rightarrow> Inl e | Inr ev \<Rightarrow>
        case start_attempt queued att ev db of
          None \<Rightarrow> Inl IntegrityError
        | Some db' \<Rightarrow> Inr (Some \<lparr>cj_job = queued, cj_attempt = att, cj_outbox = ev,
            cj_execution_token = n_token u, cj_request = request\<rparr>, db'))"

definition recover_row ::
    "nonces \<Rightarrow> timestamp \<Rightarrow> job_row \<Rightarrow> cp_db \<Rightarrow> exn + (created_job option \<times> cp_db)" where
  "recover_row u now row db =
     (case validate_job (jr_json row) of Inl e \<Rightarrow> Inl e | Inr job \<Rightarrow>
      case get_attempt_in (j_job_id job) (j_current_attempt_number job) db of
        Inl e \<Rightarrow> Inl e | Inr att \<Rightarrow>
      case recover_fail_outbox now (a_attempt_id att) (recover_close_attempt now att db) of
        Inl e \<Rightarrow> Inl e | Inr db' \<Rightarrow> recover_job u now job db')"

fun recover_rows ::
    "(string \<Rightarrow> nonces) \<Rightarrow> timestamp \<Rightarrow> job_row list \<Rightarrow> cp_db \<Rightarrow> exn + (created_job list \<times> cp_db)" where
  "recover_rows us now [] db = Inr ([], db)"
| "recover_rows us now (row # rows) db =
     (case recover_row (us (jr_job_id row)) now row db of Inl e \<Rightarrow> Inl e | Inr (c, db') \<Rightarrow>
      case recover_rows us now rows db' of Inl e \<Rightarrow> Inl e | Inr (cs, db'') \<Rightarrow>
        Inr ((case c of None \<Rightarrow> cs | Some x \<Rightarrow> x # cs), db''))"

text \<open>\<open>WHERE status NOT IN (...) ORDER BY created_at\<close>; ties keep the insertion order.\<close>

definition incomplete_rows :: "cp_db \<Rightarrow> job_row list" where
  "incomplete_rows db =
     sort_key jr_created_at (filter (\<lambda>r. \<not> job_terminal (jr_status r)) (jobs db))"

text \<open>\<open>us\<close> supplies the random identifiers drawn while the job with that id is recovered.\<close>

definition recover_incomplete_jobs ::
    "(string \<Rightarrow> nonces) \<Rightarrow> timestamp \<Rightarrow> cp_db \<Rightarrow> (cp_db, created_job list) outcome" where
  "recover_incomplete_jobs us now db =
     (case recover_rows us now (incomplete_rows db) db of
        Inl e \<Rightarrow> (Inl e, db)
      | Inr (cs, db') \<Rightarrow> (Inr cs, db'))"

section \<open>Listing\<close>

text \<open>\<open>ORDER BY created_at DESC\<close> of rows: the stable sort on the negated time.\<close>

definition list_jobs :: "string \<Rightarrow> string \<Rightarrow> nat \<Rightarrow> cp_db \<Rightarrow> exn + job_record list" where
  "list_jobs workspace_id project_id limit db =
     (let rows = take limit (sort_key (\<lambda>r. - jr_created_at r)
            (filter (\<lambda>r. jr_workspace_id r = workspace_id \<and> jr_project_id r = Some project_id)
              (jobs db)))
      in if list_all (\<lambda>r. job_record_valid (jr_json r)) rows then Inr (map jr_json rows)
         else Inl ValidationError)"

definition list_attempts :: "string \<Rightarrow> cp_db \<Rightarrow> exn + job_attempt list" where
  "list_attempts job_id db =
     (let rows = sort_key ar_attempt_number
            (filter (\<lambda>r. ar_job_id r = job_id) (job_attempts db))
      in if list_all (\<lambda>r. job_attempt_valid (ar_json r)) rows then Inr (map ar_json rows)
         else Inl ValidationError)"

end
