(* ===== verification/Cp_Job_Inv.thy ===== *)
theory Cp_Job_Inv
  imports Cp_Jobs
begin

text \<open>
  The invariant of the job tables and its preservation by every operation of \<open>Cp_Jobs\<close>.
\<close>

section \<open>The invariant\<close>

text \<open>Every row is the copy of the model in its \<open>_json\<close> column, and that model passes its
  validator (so no read raises \<open>ValidationError\<close>).\<close>

definition job_row_ok :: "job_row \<Rightarrow> bool" where
  "job_row_ok r \<longleftrightarrow> r = job_row_of (jr_json r) \<and> job_record_valid (jr_json r)
     \<and> j_current_attempt_number (jr_json r) \<le> j_max_attempts (jr_json r)"

definition attempt_row_ok :: "attempt_row \<Rightarrow> bool" where
  "attempt_row_ok r \<longleftrightarrow> r = attempt_row_of (ar_json r) \<and> job_attempt_valid (ar_json r)"

definition outbox_row_ok :: "outbox_row \<Rightarrow> bool" where
  "outbox_row_ok r \<longleftrightarrow> r = outbox_row_of (or_json r) \<and> outbox_event_valid (or_json r)"

definition inv_rows :: "cp_db \<Rightarrow> bool" where
  "inv_rows db \<longleftrightarrow>
     distinct (map jr_job_id (jobs db)) \<and> distinct (map ar_attempt_id (job_attempts db)) \<and>
     distinct (map or_outbox_event_id (outbox_events db)) \<and>
     (\<forall>r \<in> set (jobs db). job_row_ok r) \<and> (\<forall>r \<in> set (job_attempts db). attempt_row_ok r) \<and>
     (\<forall>r \<in> set (outbox_events db). outbox_row_ok r)"

text \<open>A job may still execute an attempt: it is neither finished nor waiting for a retry.\<close>

definition job_executing :: "job_status \<Rightarrow> bool" where
  "job_executing s \<longleftrightarrow> \<not> job_terminal s \<and> s \<noteq> JRetryWait"

text \<open>An attempt belongs to a job, is not newer than the current one, and is live only if it is
  the current attempt of a job that is executing.\<close>

definition attempt_fits :: "attempt_row \<Rightarrow> job_row \<Rightarrow> bool" where
  "attempt_fits r jr \<longleftrightarrow> 1 \<le> ar_attempt_number r
     \<and> ar_attempt_number r \<le> jr_current_attempt_number jr
     \<and> (attempt_live (ar_status r) \<longrightarrow>
          ar_attempt_number r = jr_current_attempt_number jr \<and> job_executing (jr_status jr))"

definition inv_attempts :: "cp_db \<Rightarrow> bool" where
  "inv_attempts db \<longleftrightarrow>
     (\<forall>r \<in> set (job_attempts db).
        \<exists>jr. job_row_at (ar_job_id r) db = Some jr \<and> attempt_fits r jr) \<and>
     distinct (map (\<lambda>r. (ar_job_id r, ar_attempt_number r)) (job_attempts db)) \<and>
     (\<forall>jr \<in> set (jobs db). \<exists>r \<in> set (job_attempts db).
        ar_job_id r = jr_job_id jr \<and> ar_attempt_number r = jr_current_attempt_number jr)"

definition inv_links :: "cp_db \<Rightarrow> bool" where
  "inv_links db \<longleftrightarrow>
     (\<forall>jr \<in> set (jobs db). \<exists>q kvs. find_by rr_job_id (jr_job_id jr) (job_requests db) = Some q
        \<and> rr_request q = JObj kvs) \<and>
     (\<forall>r \<in> set (job_attempts db). \<exists>e \<in> set (outbox_events db).
        or_attempt_id e = ar_attempt_id r)"

definition db_inv :: "cp_db \<Rightarrow> bool" where
  "db_inv db \<longleftrightarrow> inv_rows db \<and> inv_attempts db \<and> inv_links db"

lemmas db_inv_defs = db_inv_def inv_rows_def inv_attempts_def inv_links_def

lemma db_inv_empty: "db_inv empty_db"
  by (simp add: db_inv_defs empty_db_def)

section \<open>What the invariant gives a reader\<close>

lemma row_of_simps [simp]:
  "jr_job_id (job_row_of j) = j_job_id j"
  "jr_workspace_id (job_row_of j) = j_workspace_id j"
  "jr_status (job_row_of j) = j_status j"
  "jr_current_attempt_number (job_row_of j) = j_current_attempt_number j"
  "jr_idempotency_key_hash (job_row_of j) = j_idempotency_key_hash j"
  "jr_json (job_row_of j) = j"
  "jr_created_at (job_row_of j) = j_created_at j"
  "ar_attempt_id (attempt_row_of a) = a_attempt_id a"
  "ar_job_id (attempt_row_of a) = a_job_id a"
  "ar_attempt_number (attempt_row_of a) = a_attempt_number a"
  "ar_status (attempt_row_of a) = a_status a"
  "ar_json (attempt_row_of a) = a"
  "or_outbox_event_id (outbox_row_of e) = o_outbox_event_id e"
  "or_attempt_id (outbox_row_of e) = o_attempt_id e"
  "or_json (outbox_row_of e) = e"
  by (simp_all add: job_row_of_def attempt_row_of_def outbox_row_of_def)

lemma job_row_ok_simps:
  "job_row_ok r \<Longrightarrow> j_job_id (jr_json r) = jr_job_id r"
  "job_row_ok r \<Longrightarrow> j_status (jr_json r) = jr_status r"
  "job_row_ok r \<Longrightarrow> j_current_attempt_number (jr_json r) = jr_current_attempt_number r"
  "job_row_ok r \<Longrightarrow> j_workspace_id (jr_json r) = jr_workspace_id r"
  "job_row_ok r \<Longrightarrow> j_idempotency_key_hash (jr_json r) = jr_idempotency_key_hash r"
  unfolding job_row_ok_def by (metis row_of_simps)+

lemma attempt_row_ok_simps:
  "attempt_row_ok r \<Longrightarrow> a_attempt_id (ar_json r) = ar_attempt_id r"
  "attempt_row_ok r \<Longrightarrow> a_job_id (ar_json r) = ar_job_id r"
  "attempt_row_ok r \<Longrightarrow> a_attempt_number (ar_json r) = ar_attempt_number r"
  "attempt_row_ok r \<Longrightarrow> a_status (ar_json r) = ar_status r"
  unfolding attempt_row_ok_def by (metis row_of_simps)+

lemma outbox_row_ok_simps:
  "outbox_row_ok r \<Longrightarrow> o_outbox_event_id (or_json r) = or_outbox_event_id r"
  "outbox_row_ok r \<Longrightarrow> o_attempt_id (or_json r) = or_attempt_id r"
  unfolding outbox_row_ok_def by (metis row_of_simps)+

lemma db_inv_job_row: "db_inv db \<Longrightarrow> job_row_at k db = Some r \<Longrightarrow> job_row_ok r"
  using job_row_at_key by (fastforce simp: db_inv_defs)

lemma db_inv_attempt_row: "db_inv db \<Longrightarrow> attempt_row_at k db = Some r \<Longrightarrow> attempt_row_ok r"
  using attempt_row_at_key by (fastforce simp: db_inv_defs)

lemma db_inv_job_at: "db_inv db \<Longrightarrow> r \<in> set (jobs db) \<Longrightarrow> job_row_at (jr_job_id r) db = Some r"
  unfolding job_row_at_def by (rule job_tbl.get_unique) (auto simp: db_inv_defs)

lemma db_inv_attempt_at:
  "db_inv db \<Longrightarrow> r \<in> set (job_attempts db) \<Longrightarrow> attempt_row_at (ar_attempt_id r) db = Some r"
  unfolding attempt_row_at_def by (rule attempt_tbl.get_unique) (auto simp: db_inv_defs)

lemma get_job_Inr:
  assumes "get_job k db = Inr job"
  obtains r where "job_row_at k db = Some r" "jr_json r = job" "job_record_valid job"
  using assms by (auto simp: get_job_def validators split: option.splits if_splits)

lemma get_attempt_Inr:
  assumes "get_attempt k db = Inr att"
  obtains r where "attempt_row_at k db = Some r" "ar_json r = att" "job_attempt_valid att"
  using assms by (auto simp: get_attempt_def validators split: option.splits if_splits)

lemma db_inv_get_job:
  "db_inv db \<Longrightarrow> job_row_at k db = Some r \<Longrightarrow> get_job k db = Inr (jr_json r)"
  using db_inv_job_row by (fastforce simp: get_job_def validators job_row_ok_def)

text \<open>The current attempt of a job exists and is unique.\<close>

lemma db_inv_current:
  assumes "db_inv db" and "r \<in> set (jobs db)"
  obtains a where "a \<in> set (job_attempts db)" "ar_job_id a = jr_job_id r"
    "ar_attempt_number a = jr_current_attempt_number r"
    "get_attempt_in (jr_job_id r) (jr_current_attempt_number r) db = Inr (ar_json a)"
proof -
  from assms obtain a where a: "a \<in> set (job_attempts db)" "ar_job_id a = jr_job_id r"
    "ar_attempt_number a = jr_current_attempt_number r"
    by (auto simp: db_inv_def inv_attempts_def)
  have "find_by (\<lambda>r. (ar_job_id r, ar_attempt_number r)) (ar_job_id a, ar_attempt_number a)
      (job_attempts db) = Some a"
    using assms(1) a(1) by (intro find_by_distinct [where key =
      "\<lambda>r. (ar_job_id r, ar_attempt_number r)"]) (auto simp: db_inv_def inv_attempts_def)
  moreover have "job_attempt_valid (ar_json a)"
    using assms(1) a(1) by (auto simp: db_inv_def inv_rows_def attempt_row_ok_def)
  ultimately have "get_attempt_in (jr_job_id r) (jr_current_attempt_number r) db = Inr (ar_json a)"
    using a by (simp add: get_attempt_in_def find_attempt_number_def validators)
  with a that show thesis by blast
qed

lemma db_inv_same_attempt:
  assumes "db_inv db" "a \<in> set (job_attempts db)" "b \<in> set (job_attempts db)"
    "ar_job_id a = ar_job_id b" "ar_attempt_number a = ar_attempt_number b"
  shows "a = b"
  using assms by (auto simp: db_inv_def inv_attempts_def distinct_map dest: inj_onD)

lemma db_inv_fits:
  assumes "db_inv db" "a \<in> set (job_attempts db)"
  obtains jr where "job_row_at (ar_job_id a) db = Some jr" "attempt_fits a jr"
  using assms by (auto simp: db_inv_def inv_attempts_def)

section \<open>Updating a job, an attempt, an event\<close>

text \<open>The fields no update writes.\<close>

definition same_job :: "job_record \<Rightarrow> job_record \<Rightarrow> bool" where
  "same_job j j' \<longleftrightarrow> j_job_id j' = j_job_id j \<and> j_workspace_id j' = j_workspace_id j
     \<and> j_project_id j' = j_project_id j \<and> j_job_type j' = j_job_type j
     \<and> j_queue_name j' = j_queue_name j \<and> j_priority j' = j_priority j
     \<and> j_idempotency_key_hash j' = j_idempotency_key_hash j
     \<and> j_request_hash j' = j_request_hash j \<and> j_created_at j' = j_created_at j
     \<and> j_max_attempts j' = j_max_attempts j
     \<and> j_task_schema_version j' = j_task_schema_version j"

definition same_attempt :: "job_attempt \<Rightarrow> job_attempt \<Rightarrow> bool" where
  "same_attempt a a' \<longleftrightarrow> a_attempt_id a' = a_attempt_id a \<and> a_job_id a' = a_job_id a
     \<and> a_attempt_number a' = a_attempt_number a
     \<and> a_execution_token_hash a' = a_execution_token_hash a \<and> a_created_at a' = a_created_at a"

lemma set_job_row_of: "same_job j j' \<Longrightarrow> set_job_row j' (job_row_of j) = job_row_of j'"
  by (simp add: set_job_row_def job_row_of_def same_job_def)

lemma set_attempt_row_of: "same_attempt a a' \<Longrightarrow> set_attempt_row a' (attempt_row_of a) = attempt_row_of a'"
  by (simp add: set_attempt_row_def attempt_row_of_def same_attempt_def)

lemma update_job_rows:
  assumes inv: "inv_rows db" and r: "job_row_at k db = Some r" and same: "same_job (jr_json r) j'"
    and x: "x \<in> set (jobs (update_job j' db))"
  shows "x \<in> set (jobs db) \<and> jr_job_id x \<noteq> k \<or> x = job_row_of j' \<and> j_job_id j' = k"
proof -
  have rk: "jr_job_id r = k" "r \<in> set (jobs db)" using r job_row_at_key by auto
  then have row: "r = job_row_of (jr_json r)" "j_job_id (jr_json r) = k"
    using inv job_row_ok_simps(1) by (auto simp: inv_rows_def job_row_ok_def)
  then have k': "j_job_id j' = k" using same by (simp add: same_job_def)
  from x have "x \<in> set (update_by jr_job_id k (set_job_row j') (jobs db))"
    by (simp add: update_job_def k')
  then show ?thesis
  proof (cases rule: in_update_byE)
    case same
    then show ?thesis by blast
  next
    case (changed r0)
    then have "r0 = r"
      using inv rk unfolding inv_rows_def by (metis distinct_map inj_onD)
    with changed row(1) same k' show ?thesis by (metis set_job_row_of)
  qed
qed

lemma job_row_at_updated:
  assumes "inv_rows db" and "job_row_at k db = Some r" and "same_job (jr_json r) j'"
  shows "job_row_at k' (update_job j' db) =
           (if k' = k then Some (job_row_of j') else job_row_at k' db)"
proof -
  have "jr_job_id r = k" "r \<in> set (jobs db)" using assms(2) job_row_at_key by auto
  then have row: "r = job_row_of (jr_json r)" "j_job_id (jr_json r) = k"
    using assms(1) job_row_ok_simps(1) by (auto simp: inv_rows_def job_row_ok_def)
  then have "j_job_id j' = k" using assms(3) by (simp add: same_job_def)
  moreover have "set_job_row j' r = job_row_of j'"
    using row(1) assms(3) by (metis set_job_row_of)
  ultimately show ?thesis using assms(2) by (simp add: job_row_at_update_job)
qed

lemma attempt_row_at_updated:
  assumes "inv_rows db" and "attempt_row_at k db = Some r" and "same_attempt (ar_json r) a'"
  shows "attempt_row_at k' (update_attempt a' db) =
           (if k' = k then Some (attempt_row_of a') else attempt_row_at k' db)"
proof -
  have "ar_attempt_id r = k" "r \<in> set (job_attempts db)" using assms(2) attempt_row_at_key by auto
  then have row: "r = attempt_row_of (ar_json r)" "a_attempt_id (ar_json r) = k"
    using assms(1) attempt_row_ok_simps(1) by (auto simp: inv_rows_def attempt_row_ok_def)
  then have "a_attempt_id a' = k" using assms(3) by (simp add: same_attempt_def)
  moreover have "set_attempt_row a' r = attempt_row_of a'"
    using row(1) assms(3) by (metis set_attempt_row_of)
  ultimately show ?thesis using assms(2) by (simp add: attempt_row_at_update_attempt)
qed

lemma update_attempt_rows:
  assumes inv: "inv_rows db" and r: "attempt_row_at k db = Some r"
    and same: "same_attempt (ar_json r) a'" and x: "x \<in> set (job_attempts (update_attempt a' db))"
  shows "x \<in> set (job_attempts db) \<and> ar_attempt_id x \<noteq> k \<or> x = attempt_row_of a' \<and> a_attempt_id a' = k"
proof -
  have rk: "ar_attempt_id r = k" "r \<in> set (job_attempts db)" using r attempt_row_at_key by auto
  then have row: "r = attempt_row_of (ar_json r)" "a_attempt_id (ar_json r) = k"
    using inv attempt_row_ok_simps(1) by (auto simp: inv_rows_def attempt_row_ok_def)
  then have k': "a_attempt_id a' = k" using same by (simp add: same_attempt_def)
  from x have "x \<in> set (update_by ar_attempt_id k (set_attempt_row a') (job_attempts db))"
    by (simp add: update_attempt_def k')
  then show ?thesis
  proof (cases rule: in_update_byE)
    case same
    then show ?thesis by blast
  next
    case (changed r0)
    then have "r0 = r"
      using inv rk unfolding inv_rows_def by (metis distinct_map inj_onD)
    with changed row(1) same k' show ?thesis by (metis set_attempt_row_of)
  qed
qed

lemma inv_rows_update_job:
  assumes "inv_rows db" "job_row_at k db = Some r" "same_job (jr_json r) j'"
    "job_record_valid j'" "j_current_attempt_number j' \<le> j_max_attempts j'"
  shows "inv_rows (update_job j' db)"
proof -
  have "distinct (map jr_job_id (jobs (update_job j' db)))"
    unfolding update_job_def using assms(1)
    by (intro job_tbl.put_distinct) (auto simp: inv_rows_def)
  moreover have "\<forall>x \<in> set (jobs (update_job j' db)). job_row_ok x"
    using update_job_rows [OF assms(1-3)] assms(1,4,5)
    by (fastforce simp: inv_rows_def job_row_ok_def)
  ultimately show ?thesis using assms(1) by (simp add: inv_rows_def)
qed

lemma inv_rows_update_attempt:
  assumes "inv_rows db" "attempt_row_at k db = Some r" "same_attempt (ar_json r) a'"
    "job_attempt_valid a'"
  shows "inv_rows (update_attempt a' db)"
proof -
  have "distinct (map ar_attempt_id (job_attempts (update_attempt a' db)))"
    unfolding update_attempt_def using assms(1)
    by (intro attempt_tbl.put_distinct) (auto simp: inv_rows_def)
  moreover have "\<forall>x \<in> set (job_attempts (update_attempt a' db)). attempt_row_ok x"
    using update_attempt_rows [OF assms(1-3)] assms(1,4)
    by (fastforce simp: inv_rows_def attempt_row_ok_def)
  ultimately show ?thesis using assms(1) by (simp add: inv_rows_def)
qed

lemma jobs_ids_update_job: "jr_job_id ` set (jobs (update_job j' db)) = jr_job_id ` set (jobs db)"
  by (simp add: update_job_def image_update_by)

lemma db_inv_update_job:
  assumes inv: "db_inv db" and r: "job_row_at k db = Some r" and same: "same_job (jr_json r) j'"
    and valid: "job_record_valid j'"
    and cur: "j_current_attempt_number j' = jr_current_attempt_number r"
    and live: "job_executing (j_status j') \<or>
      (\<forall>a \<in> set (job_attempts db). ar_job_id a = k \<longrightarrow>
         ar_attempt_number a = jr_current_attempt_number r \<longrightarrow> \<not> attempt_live (ar_status a))"
  shows "db_inv (update_job j' db)"
proof -
  from inv have ir: "inv_rows db" by (simp add: db_inv_def)
  have rk: "jr_job_id r = k" "r \<in> set (jobs db)" using r job_row_at_key by auto
  have rok: "job_row_ok r" using inv r by (rule db_inv_job_row)
  note at = job_row_at_updated [OF ir r same]
  have k': "j_job_id j' = k"
    using rok rk(1) same job_row_ok_simps(1) by (auto simp: same_job_def)
  have "j_current_attempt_number j' \<le> j_max_attempts j'"
    using rok cur same job_row_ok_simps(3) by (auto simp: job_row_ok_def same_job_def)
  then have rows: "inv_rows (update_job j' db)"
    by (rule inv_rows_update_job [OF ir r same valid])
  have fits: "\<exists>jr. job_row_at (ar_job_id a) (update_job j' db) = Some jr \<and> attempt_fits a jr"
    if a: "a \<in> set (job_attempts db)" for a
  proof -
    obtain jr where jr: "job_row_at (ar_job_id a) db = Some jr" "attempt_fits a jr"
      using inv a by (rule db_inv_fits)
    show ?thesis
    proof (cases "ar_job_id a = k")
      case True
      then have "jr = r" using jr(1) r by simp
      with jr(2) a True live cur have "attempt_fits a (job_row_of j')"
        by (auto simp: attempt_fits_def)
      with True at show ?thesis by simp
    next
      case False
      with at jr show ?thesis by simp
    qed
  qed
  have current: "\<exists>a \<in> set (job_attempts db). ar_job_id a = jr_job_id x
      \<and> ar_attempt_number a = jr_current_attempt_number x"
    if x: "x \<in> set (jobs (update_job j' db))" for x
  proof -
    have "x \<in> set (jobs db) \<or> x = job_row_of j'"
      using update_job_rows [OF ir r same x] by blast
    moreover have "\<exists>a \<in> set (job_attempts db). ar_job_id a = jr_job_id y
      \<and> ar_attempt_number a = jr_current_attempt_number y" if "y \<in> set (jobs db)" for y
      using inv that by (auto simp: db_inv_def inv_attempts_def)
    ultimately show ?thesis using rk cur k' by fastforce
  qed
  have links: "inv_links (update_job j' db)"
  proof -
    have "jr_job_id x \<in> jr_job_id ` set (jobs db)" if "x \<in> set (jobs (update_job j' db))" for x
      using jobs_ids_update_job that by blast
    with inv show ?thesis by (fastforce simp: db_inv_def inv_links_def)
  qed
  show ?thesis
    using rows fits current links inv by (simp add: db_inv_def inv_attempts_def)
qed

lemma db_inv_update_attempt:
  assumes inv: "db_inv db" and r: "attempt_row_at k db = Some r"
    and same: "same_attempt (ar_json r) a'" and valid: "job_attempt_valid a'"
    and live: "attempt_live (a_status a') \<longrightarrow> attempt_live (ar_status r)"
  shows "db_inv (update_attempt a' db)"
proof -
  from inv have ir: "inv_rows db" by (simp add: db_inv_def)
  have rk: "ar_attempt_id r = k" "r \<in> set (job_attempts db)" using r attempt_row_at_key by auto
  have rok: "attempt_row_ok r" using inv r by (rule db_inv_attempt_row)
  have a': "a_attempt_id a' = k" "a_job_id a' = ar_job_id r" "a_attempt_number a' = ar_attempt_number r"
    using rok rk(1) same attempt_row_ok_simps by (auto simp: same_attempt_def)
  note rows = inv_rows_update_attempt [OF ir r same valid]
  have rows_eq: "map f (job_attempts (update_attempt a' db)) = map f (job_attempts db)"
    if "\<And>x. f (set_attempt_row a' x) = f x" for f :: "attempt_row \<Rightarrow> 'z"
    unfolding update_attempt_def by (simp add: map_key_update_by that)
  have fits: "\<exists>jr. job_row_at (ar_job_id x) db = Some jr \<and> attempt_fits x jr"
    if x: "x \<in> set (job_attempts (update_attempt a' db))" for x
  proof -
    have old: "\<exists>jr. job_row_at (ar_job_id y) db = Some jr \<and> attempt_fits y jr"
      if "y \<in> set (job_attempts db)" for y
      using inv that by (auto simp: db_inv_def inv_attempts_def)
    from update_attempt_rows [OF ir r same x] show ?thesis
    proof
      assume "x = attempt_row_of a' \<and> a_attempt_id a' = k"
      then show ?thesis using old [OF rk(2)] a' live by (auto simp: attempt_fits_def)
    qed (use old in blast)
  qed
  have "distinct (map (\<lambda>r. (ar_job_id r, ar_attempt_number r)) (job_attempts (update_attempt a' db)))"
    using inv rows_eq [of "\<lambda>r. (ar_job_id r, ar_attempt_number r)"]
    by (simp add: db_inv_def inv_attempts_def)
  moreover have cur: "(\<exists>a \<in> set (job_attempts (update_attempt a' db)). ar_job_id a = i \<and> ar_attempt_number a = n)
      \<longleftrightarrow> (\<exists>a \<in> set (job_attempts db). ar_job_id a = i \<and> ar_attempt_number a = n)" for i n
  proof -
    have "set (map (\<lambda>r. (ar_job_id r, ar_attempt_number r)) (job_attempts (update_attempt a' db)))
        = set (map (\<lambda>r. (ar_job_id r, ar_attempt_number r)) (job_attempts db))"
      using rows_eq [of "\<lambda>r. (ar_job_id r, ar_attempt_number r)"] by simp
    then show ?thesis unfolding set_map set_eq_iff image_iff by (metis prod.inject)
  qed
  moreover have "ar_attempt_id x \<in> ar_attempt_id ` set (job_attempts db)"
    if "x \<in> set (job_attempts (update_attempt a' db))" for x
    using rows_eq [of ar_attempt_id] that by (metis image_eqI list.set_map set_attempt_row_simps(1))
  then have "inv_links (update_attempt a' db)"
    using inv by (fastforce simp: db_inv_def inv_links_def)
  ultimately show ?thesis
    using rows fits inv by (simp add: db_inv_def inv_attempts_def)
qed

lemma db_inv_update_outbox:
  assumes inv: "db_inv db" and r: "outbox_row_at k db = Some r"
    and f: "f r = outbox_row_of e'" "\<And>x. or_outbox_event_id (f x) = or_outbox_event_id x"
      "\<And>x. or_attempt_id (f x) = or_attempt_id x"
    and valid: "outbox_event_valid e'"
  shows "db_inv (update_outbox k f db)"
proof -
  have rk: "or_outbox_event_id r = k" "r \<in> set (outbox_events db)" using r outbox_row_at_key by auto
  have d: "distinct (map or_outbox_event_id (outbox_events db))"
    using inv by (simp add: db_inv_def inv_rows_def)
  have "distinct (map or_outbox_event_id (outbox_events (update_outbox k f db)))"
    unfolding update_outbox_def by (rule outbox_tbl.put_distinct [OF f(2) d])
  moreover have "outbox_row_ok x" if "x \<in> set (outbox_events (update_outbox k f db))" for x
  proof -
    from that have "x \<in> set (update_by or_outbox_event_id k f (outbox_events db))"
      by (simp add: update_outbox_def)
    then show ?thesis
    proof (cases rule: in_update_byE)
      case same
      then show ?thesis using inv by (simp add: db_inv_def inv_rows_def)
    next
      case (changed r0)
      then have "r0 = r" using d rk by (metis distinct_map inj_onD)
      with changed f(1) valid show ?thesis by (simp add: outbox_row_ok_def)
    qed
  qed
  moreover have ids: "or_attempt_id ` set (outbox_events (update_outbox k f db))
      = or_attempt_id ` set (outbox_events db)"
    by (simp add: update_outbox_def image_update_by f(3))
  then have "\<exists>e \<in> set (outbox_events (update_outbox k f db)). or_attempt_id e = i"
    if "\<exists>e \<in> set (outbox_events db). or_attempt_id e = i" for i
    using that by (metis image_iff)
  then have "inv_links (update_outbox k f db)"
    using inv by (simp add: db_inv_def inv_links_def)
  ultimately show ?thesis using inv by (simp add: db_inv_def inv_rows_def inv_attempts_def)
qed

section \<open>Inserting an attempt, a job\<close>

lemma insert_attempt_SomeD:
  assumes "insert_attempt att db = Some db'"
  shows "db' = db\<lparr>job_attempts := job_attempts db @ [attempt_row_of att]\<rparr>"
    and "a_attempt_id att \<notin> ar_attempt_id ` set (job_attempts db)"
    and "(a_job_id att, a_attempt_number att)
           \<notin> (\<lambda>r. (ar_job_id r, ar_attempt_number r)) ` set (job_attempts db)"
  using assms
  by (auto simp: insert_attempt_def find_attempt_number_def find_by_None_iff
      split: if_splits dest!: insert_by_SomeD)

lemma insert_outbox_SomeD:
  assumes "insert_outbox ev db = Some db'"
  shows "db' = db\<lparr>outbox_events := outbox_events db @ [outbox_row_of ev]\<rparr>"
    and "o_outbox_event_id ev \<notin> or_outbox_event_id ` set (outbox_events db)"
  using assms by (auto simp: insert_outbox_def split: if_splits dest!: insert_by_SomeD)

lemma insert_job_SomeD:
  assumes "insert_job job db = Some db'"
  shows "db' = db\<lparr>jobs := jobs db @ [job_row_of job]\<rparr>"
    and "j_job_id job \<notin> jr_job_id ` set (jobs db)"
  using assms by (auto simp: insert_job_def split: if_splits dest!: insert_by_SomeD)

lemma insert_request_SomeD:
  assumes "insert_request q db = Some db'"
  shows "db' = db\<lparr>job_requests := job_requests db @ [q]\<rparr>"
    and "rr_job_id q \<notin> rr_job_id ` set (job_requests db)"
  using assms by (auto simp: insert_request_def split: if_splits dest!: insert_by_SomeD)

lemma start_attempt_SomeD:
  assumes "start_attempt job att ev db = Some db'"
  shows "db' = update_job job (db\<lparr>job_attempts := job_attempts db @ [attempt_row_of att],
            outbox_events := outbox_events db @ [outbox_row_of ev]\<rparr>)"
    and "a_attempt_id att \<notin> ar_attempt_id ` set (job_attempts db)"
    and "(a_job_id att, a_attempt_number att)
           \<notin> (\<lambda>r. (ar_job_id r, ar_attempt_number r)) ` set (job_attempts db)"
    and "o_outbox_event_id ev \<notin> or_outbox_event_id ` set (outbox_events db)"
proof -
  from assms obtain db1 db2 where 1: "insert_attempt att db = Some db1"
    and 2: "insert_outbox ev db1 = Some db2" and 3: "db' = update_job job db2"
    by (auto simp: start_attempt_def bind_eq_Some_conv)
  note i1 = insert_attempt_SomeD [OF 1] and i2 = insert_outbox_SomeD [OF 2]
  show "db' = update_job job (db\<lparr>job_attempts := job_attempts db @ [attempt_row_of att],
            outbox_events := outbox_events db @ [outbox_row_of ev]\<rparr>)"
    using i1(1) i2(1) 3 by simp
  show "a_attempt_id att \<notin> ar_attempt_id ` set (job_attempts db)" by (rule i1(2))
  show "(a_job_id att, a_attempt_number att)
           \<notin> (\<lambda>r. (ar_job_id r, ar_attempt_number r)) ` set (job_attempts db)" by (rule i1(3))
  show "o_outbox_event_id ev \<notin> or_outbox_event_id ` set (outbox_events db)"
    using i1(1) i2(2) by simp
qed

lemma row_at_add_frame [simp]:
  "job_row_at k (db\<lparr>job_attempts := as, outbox_events := es\<rparr>) = job_row_at k db"
  by (simp add: job_row_at_def)

lemma db_inv_start_attempt:
  assumes inv: "db_inv db" and r: "job_row_at k db = Some r" and same: "same_job (jr_json r) job"
    and valid: "job_record_valid job" "job_attempt_valid att" "outbox_event_valid ev"
    and cur: "j_current_attempt_number job = jr_current_attempt_number r + 1"
      "j_current_attempt_number job \<le> j_max_attempts job"
    and executing: "job_executing (j_status job)"
    and att: "a_job_id att = k" "a_attempt_number att = j_current_attempt_number job"
    and ev: "o_attempt_id ev = a_attempt_id att"
    and dead: "\<forall>a \<in> set (job_attempts db). ar_job_id a = k \<longrightarrow>
         ar_attempt_number a = jr_current_attempt_number r \<longrightarrow> \<not> attempt_live (ar_status a)"
    and st: "start_attempt job att ev db = Some db'"
  shows "db_inv db'"
proof -
  let ?db = "db\<lparr>job_attempts := job_attempts db @ [attempt_row_of att],
            outbox_events := outbox_events db @ [outbox_row_of ev]\<rparr>"
  note sd = start_attempt_SomeD [OF st]
  have rk: "jr_job_id r = k" "r \<in> set (jobs db)" using r job_row_at_key by auto
  have rok: "job_row_ok r" using inv r by (rule db_inv_job_row)
  have k': "j_job_id job = k"
    using rok rk(1) same job_row_ok_simps(1) by (auto simp: same_job_def)
  have ir: "inv_rows ?db"
    using inv valid sd by (auto simp: db_inv_def inv_rows_def attempt_row_ok_def outbox_row_ok_def)
  have r': "job_row_at k ?db = Some r" using r by simp
  have rows: "inv_rows db'"
    using inv_rows_update_job [OF ir r' same valid(1) cur(2)] sd(1) by simp
  have at: "job_row_at k' db' = (if k' = k then Some (job_row_of job) else job_row_at k' db)" for k'
    using job_row_at_updated [OF ir r' same] sd(1) by simp
  have atts: "job_attempts db' = job_attempts db @ [attempt_row_of att]"
    and evs: "outbox_events db' = outbox_events db @ [outbox_row_of ev]"
    and reqs: "job_requests db' = job_requests db"
    using sd(1) by simp_all
  have old: "\<exists>jr. job_row_at (ar_job_id a) db' = Some jr \<and> attempt_fits a jr"
    if a: "a \<in> set (job_attempts db)" for a
  proof -
    obtain jr where jr: "job_row_at (ar_job_id a) db = Some jr" "attempt_fits a jr"
      using inv a by (rule db_inv_fits)
    show ?thesis
    proof (cases "ar_job_id a = k")
      case True
      then have "jr = r" using jr(1) r by simp
      then have "attempt_fits a (job_row_of job)"
        using jr(2) dead a True cur(1) by (auto simp: attempt_fits_def)
      with True at show ?thesis by simp
    next
      case False
      with at jr show ?thesis by simp
    qed
  qed
  have new: "attempt_fits (attempt_row_of att) (job_row_of job)"
    using valid(1) executing att by (auto simp: attempt_fits_def job_record_valid_def)
  have fits: "\<exists>jr. job_row_at (ar_job_id a) db' = Some jr \<and> attempt_fits a jr"
    if a: "a \<in> set (job_attempts db')" for a
  proof (cases "a = attempt_row_of att")
    case True
    with new att(1) show ?thesis by (simp add: at)
  next
    case False
    with a atts show ?thesis by (intro old) auto
  qed
  have ids: "jr_job_id ` set (jobs db') = jr_job_id ` set (jobs db)"
    using jobs_ids_update_job [of job ?db] sd(1) by simp
  have current: "\<exists>a \<in> set (job_attempts db'). ar_job_id a = jr_job_id x
      \<and> ar_attempt_number a = jr_current_attempt_number x" if x: "x \<in> set (jobs db')" for x
  proof -
    have "x \<in> set (jobs db) \<or> x = job_row_of job"
      using update_job_rows [OF ir r' same] x sd(1) by auto
    then show ?thesis
    proof
      assume "x \<in> set (jobs db)"
      then have "\<exists>a \<in> set (job_attempts db). ar_job_id a = jr_job_id x
          \<and> ar_attempt_number a = jr_current_attempt_number x"
        using inv by (simp add: db_inv_def inv_attempts_def)
      then show ?thesis using atts by auto
    next
      assume "x = job_row_of job"
      then show ?thesis using atts att k' by auto
    qed
  qed
  have pairs: "distinct (map (\<lambda>r. (ar_job_id r, ar_attempt_number r)) (job_attempts db'))"
    using inv sd(3) atts by (simp add: db_inv_def inv_attempts_def image_iff)
  have links: "inv_links db'"
  proof -
    have "jr_job_id x \<in> jr_job_id ` set (jobs db)" if "x \<in> set (jobs db')" for x
      using ids that by blast
    then have "\<exists>q kvs. find_by rr_job_id (jr_job_id x) (job_requests db') = Some q
        \<and> rr_request q = JObj kvs" if "x \<in> set (jobs db')" for x
      using inv that reqs by (fastforce simp: db_inv_def inv_links_def)
    moreover have "\<exists>e \<in> set (outbox_events db'). or_attempt_id e = ar_attempt_id a"
      if "a \<in> set (job_attempts db')" for a
      using that inv ev atts evs by (auto simp: db_inv_def inv_links_def)
    ultimately show ?thesis by (simp add: inv_links_def)
  qed
  show ?thesis
    using rows fits current pairs links by (simp add: db_inv_def inv_attempts_def)
qed

lemma insert_new_job_SomeD:
  assumes "insert_new_job u now nj job att ev db = Some db'"
  shows "jobs db' = jobs db @ [job_row_of job]"
    "job_attempts db' = job_attempts db @ [attempt_row_of att]"
    "outbox_events db' = outbox_events db @ [outbox_row_of ev]"
    "\<exists>q. job_requests db' = job_requests db @ [q] \<and> rr_job_id q = j_job_id job
       \<and> rr_request q = sort_keys (nj_request nj) \<and> rr_job_id q \<notin> rr_job_id ` set (job_requests db)"
    "j_job_id job \<notin> jr_job_id ` set (jobs db)"
    "a_attempt_id att \<notin> ar_attempt_id ` set (job_attempts db)"
    "(a_job_id att, a_attempt_number att)
       \<notin> (\<lambda>r. (ar_job_id r, ar_attempt_number r)) ` set (job_attempts db)"
    "o_outbox_event_id ev \<notin> or_outbox_event_id ` set (outbox_events db)"
proof -
  from assms obtain dr q db1 db2 db3 db4 db5 au where
    1: "insert_domain_run dr db = Some db1" and 2: "insert_job job db1 = Some db2"
    and 3: "insert_request q db2 = Some db3" and 4: "insert_attempt att db3 = Some db4"
    and 5: "insert_outbox ev db4 = Some db5" and 6: "insert_audit au db5 = Some db'"
    and q: "rr_job_id q = j_job_id job" "rr_request q = sort_keys (nj_request nj)"
    by (auto simp: insert_new_job_def bind_eq_Some_conv)
  from 1 have e1: "jobs db1 = jobs db" "job_attempts db1 = job_attempts db"
    "outbox_events db1 = outbox_events db" "job_requests db1 = job_requests db"
    by (auto simp: insert_domain_run_def)
  from 6 have e6: "jobs db' = jobs db5" "job_attempts db' = job_attempts db5"
    "outbox_events db' = outbox_events db5" "job_requests db' = job_requests db5"
    by (auto simp: insert_audit_def)
  note d2 = insert_job_SomeD [OF 2] and d3 = insert_request_SomeD [OF 3]
    and d4 = insert_attempt_SomeD [OF 4] and d5 = insert_outbox_SomeD [OF 5]
  show "jobs db' = jobs db @ [job_row_of job]"
    "job_attempts db' = job_attempts db @ [attempt_row_of att]"
    "outbox_events db' = outbox_events db @ [outbox_row_of ev]"
    "\<exists>q. job_requests db' = job_requests db @ [q] \<and> rr_job_id q = j_job_id job
       \<and> rr_request q = sort_keys (nj_request nj) \<and> rr_job_id q \<notin> rr_job_id ` set (job_requests db)"
    "j_job_id job \<notin> jr_job_id ` set (jobs db)"
    "a_attempt_id att \<notin> ar_attempt_id ` set (job_attempts db)"
    "(a_job_id att, a_attempt_number att)
       \<notin> (\<lambda>r. (ar_job_id r, ar_attempt_number r)) ` set (job_attempts db)"
    "o_outbox_event_id ev \<notin> or_outbox_event_id ` set (outbox_events db)"
    using e1 e6 d2 d3 d4 d5 q by auto
qed

lemma db_inv_insert_new_job:
  assumes inv: "db_inv db"
    and valid: "job_record_valid job" "job_attempt_valid att" "outbox_event_valid ev"
    and job: "j_current_attempt_number job = 1" "job_executing (j_status job)"
    and att: "a_job_id att = j_job_id job" "a_attempt_number att = 1"
    and ev: "o_attempt_id ev = a_attempt_id att"
    and req: "nj_request nj = JObj kvs"
    and ins: "insert_new_job u now nj job att ev db = Some db'"
  shows "db_inv db'"
proof -
  note d = insert_new_job_SomeD [OF ins]
  have le: "1 \<le> j_max_attempts job" using valid(1) by (simp add: job_record_valid_def)
  have rows: "inv_rows db'"
    using inv valid d job(1) le
    by (auto simp: db_inv_def inv_rows_def job_row_ok_def attempt_row_ok_def outbox_row_ok_def)
  have at: "job_row_at k db' = (if k = j_job_id job then Some (job_row_of job) else job_row_at k db)" for k
  proof -
    have "job_row_at (j_job_id job) db = None"
      using d(5) by (simp add: job_row_at_def find_by_None_iff)
    then show ?thesis
      by (auto simp: job_row_at_def d(1) find_by_append split: option.splits)
  qed
  have fits: "\<exists>jr. job_row_at (ar_job_id a) db' = Some jr \<and> attempt_fits a jr"
    if a: "a \<in> set (job_attempts db')" for a
  proof (cases "a = attempt_row_of att")
    case True
    with job att show ?thesis by (auto simp: at attempt_fits_def)
  next
    case False
    with a d(2) have "a \<in> set (job_attempts db)" by auto
    then obtain jr where jr: "job_row_at (ar_job_id a) db = Some jr" "attempt_fits a jr"
      by (rule db_inv_fits [OF inv])
    then have "ar_job_id a \<noteq> j_job_id job"
      using d(5) job_row_at_key by (metis image_eqI)
    with jr show ?thesis by (simp add: at)
  qed
  have current: "\<exists>a \<in> set (job_attempts db'). ar_job_id a = jr_job_id x
      \<and> ar_attempt_number a = jr_current_attempt_number x" if "x \<in> set (jobs db')" for x
    using that inv d(1,2) job(1) att by (auto simp: db_inv_def inv_attempts_def)
  have pairs: "distinct (map (\<lambda>r. (ar_job_id r, ar_attempt_number r)) (job_attempts db'))"
    using inv d(2,7) by (simp add: db_inv_def inv_attempts_def image_iff)
  have links: "inv_links db'"
  proof -
    obtain q where q: "job_requests db' = job_requests db @ [q]" "rr_job_id q = j_job_id job"
      "rr_request q = sort_keys (nj_request nj)" "rr_job_id q \<notin> rr_job_id ` set (job_requests db)"
      using d(4) by blast
    have "\<exists>q kvs. find_by rr_job_id (jr_job_id x) (job_requests db') = Some q
        \<and> rr_request q = JObj kvs" if x: "x \<in> set (jobs db')" for x
    proof (cases "x \<in> set (jobs db)")
      case True
      with inv obtain q' kvs' where "find_by rr_job_id (jr_job_id x) (job_requests db) = Some q'"
        "rr_request q' = JObj kvs'" by (auto simp: db_inv_def inv_links_def)
      with q(1) show ?thesis by (simp add: find_by_append)
    next
      case False
      with x d(1) have "jr_job_id x = rr_job_id q" using q(2) by auto
      moreover have "find_by rr_job_id (rr_job_id q) (job_requests db) = None"
        using q(4) by (simp add: find_by_None_iff)
      ultimately show ?thesis using q(1,3) req by (simp add: find_by_append)
    qed
    moreover have "\<exists>e \<in> set (outbox_events db'). or_attempt_id e = ar_attempt_id a"
      if "a \<in> set (job_attempts db')" for a
      using that inv ev d(2,3) by (auto simp: db_inv_def inv_links_def)
    ultimately show ?thesis by (simp add: inv_links_def)
  qed
  show ?thesis using rows fits current pairs links by (simp add: db_inv_def inv_attempts_def)
qed


end
