(* ===== verification/Cp_Job_Safety.thy ===== *)
theory Cp_Job_Safety
  imports Cp_Job_Inv
begin

text \<open>
  Every operation of \<open>Cp_Jobs\<close> keeps the invariant of \<open>Cp_Job_Inv\<close>, on every branch.
\<close>

section \<open>Every operation keeps the invariant\<close>

lemma db_inv_create_job:
  assumes inv: "db_inv db" and req: "nj_request nj = JObj kvs"
  shows "db_inv (snd (create_job u now nj db))"
proof (cases "find_idempotent_job (nj_workspace_id nj) (stable_hash (nj_idempotency_key nj)) db")
  case None
  let ?job = "new_job_record u now nj" and ?att = "new_attempt u now (j_job_id (new_job_record u now nj)) 1"
  let ?ev = "new_outbox u ?job ?att now"
  show ?thesis
  proof (cases "job_record_valid ?job \<and> job_attempt_valid ?att \<and> outbox_event_valid ?ev")
    case True
    have "db_inv db'" if "insert_new_job u now nj ?job ?att ?ev db = Some db'" for db'
    proof (rule db_inv_insert_new_job [OF inv _ _ _ _ _ _ _ _ req that])
      show "job_record_valid ?job" "job_attempt_valid ?att" "outbox_event_valid ?ev"
        using True by simp_all
      show "o_attempt_id ?ev = a_attempt_id ?att" by (simp add: new_outbox_def)
    qed (simp_all add: new_job_record_def new_attempt_def job_executing_def)
    with None inv True show ?thesis
      by (auto simp: create_job_def Let_def validators split: option.split)
  qed (use None inv in \<open>auto simp: create_job_def Let_def validators split: option.split\<close>)
qed (use inv in \<open>auto simp: create_job_def split: sum.split\<close>)

lemma db_inv_transition_attempt:
  assumes inv: "db_inv db"
  shows "db_inv (snd (transition_attempt now k tok target w c db))"
proof (cases "transition_attempt now k tok target w c db")
  case (Pair res db')
  show ?thesis
  proof (cases res)
    case (Inl e)
    with Pair inv show ?thesis
      by (auto simp: transition_attempt_def validators Let_def split: sum.splits if_splits)
  next
    case (Inr upd)
    with Pair obtain att where att: "get_attempt k db = Inr att"
      and tr: "target \<in> set (ATTEMPT_TRANSITIONS (a_status att))"
      and upd: "same_attempt att upd" "job_attempt_valid upd" "a_status upd = target"
      and db': "db' = update_attempt upd db"
      by (auto simp: transition_attempt_def validators Let_def same_attempt_def
          split: sum.splits if_splits)
    from att obtain r where r: "attempt_row_at k db = Some r" "ar_json r = att"
      by (rule get_attempt_Inr)
    then have "ar_status r = a_status att"
      using db_inv_attempt_row [OF inv r(1)] attempt_row_ok_simps(4) by fastforce
    then have "attempt_live (ar_status r)" using tr by (auto dest: attempt_transition_live)
    then show ?thesis
      using Pair db' db_inv_update_attempt [OF inv r(1), of upd] upd r(2) by simp
  qed
qed

lemma db_inv_heartbeat_attempt:
  assumes inv: "db_inv db"
  shows "db_inv (snd (heartbeat_attempt now k tok db))"
proof (cases "heartbeat_attempt now k tok db")
  case (Pair res db')
  show ?thesis
  proof (cases res)
    case (Inl e)
    with Pair inv show ?thesis
      by (auto simp: heartbeat_attempt_def Let_def split: sum.splits if_splits)
  next
    case (Inr upd)
    with Pair obtain att where att: "get_attempt k db = Inr att"
      and upd: "same_attempt att upd" "a_status upd = a_status att"
        "job_attempt_valid att \<longrightarrow> job_attempt_valid upd"
      and db': "db' = update_attempt upd db"
      by (auto simp: heartbeat_attempt_def Let_def same_attempt_def job_attempt_valid_def
          split: sum.splits if_splits)
    from att obtain r where r: "attempt_row_at k db = Some r" "ar_json r = att" "job_attempt_valid att"
      by (rule get_attempt_Inr)
    then have "ar_status r = a_status att"
      using db_inv_attempt_row [OF inv r(1)] attempt_row_ok_simps(4) by fastforce
    then show ?thesis
      using Pair db' db_inv_update_attempt [OF inv r(1), of upd] upd r by simp
  qed
qed

text \<open>The job an update starts from, with its row.\<close>

lemma db_inv_get_job_row:
  assumes "db_inv db" "get_job k db = Inr job"
  obtains r where "job_row_at k db = Some r" "jr_json r = job" "r \<in> set (jobs db)"
    "jr_job_id r = k" "jr_status r = j_status job" "j_job_id job = k"
    "jr_current_attempt_number r = j_current_attempt_number job" "job_record_valid job"
    "j_current_attempt_number job \<le> j_max_attempts job"
proof -
  from assms(2) obtain r where r: "job_row_at k db = Some r" "jr_json r = job" "job_record_valid job"
    by (rule get_job_Inr)
  have ok: "job_row_ok r" using db_inv_job_row [OF assms(1) r(1)] .
  have k: "jr_job_id r = k" "r \<in> set (jobs db)" using r(1) job_row_at_key by auto
  show thesis
  proof (rule that)
    show "j_current_attempt_number job \<le> j_max_attempts job"
      using ok r(2) by (simp add: job_row_ok_def)
  qed (use r k job_row_ok_simps [OF ok] in simp_all)
qed

text \<open>Only these targets are asked for by the backend; a terminal target would leave the
  attempt live.\<close>

lemma db_inv_transition_job:
  assumes inv: "db_inv db" and target: "job_executing target"
  shows "db_inv (snd (transition_job now k target ec rv db))"
proof (cases "transition_job now k target ec rv db")
  case (Pair res db')
  show ?thesis
  proof (cases res)
    case (Inl e)
    with Pair inv show ?thesis
      by (auto simp: transition_job_def validators Let_def split: sum.splits if_splits)
  next
    case (Inr upd)
    with Pair obtain job where job: "get_job k db = Inr job"
      and upd: "same_job job upd" "job_record_valid upd" "j_status upd = target"
        "j_current_attempt_number upd = j_current_attempt_number job"
      and db': "db' = update_job upd db"
      by (auto simp: transition_job_def validators Let_def same_job_def
          split: sum.splits if_splits option.splits)
    from inv job obtain r where r: "job_row_at k db = Some r" "jr_json r = job"
      "jr_current_attempt_number r = j_current_attempt_number job"
      by (rule db_inv_get_job_row)
    then show ?thesis
      using Pair db' db_inv_update_job [OF inv r(1), of upd] upd target by simp
  qed
qed

lemma complete_allowed_not_live: "complete_allowed s \<Longrightarrow> \<not> attempt_live s"
  by (cases s) (auto simp: complete_allowed_def attempt_live_iff)

text \<open>What a successful \<open>complete_attempt\<close> did.\<close>

lemma complete_attempt_Inr:
  assumes "complete_attempt now k tok st ec refs db = (Inr (att', job'), db')"
  obtains att job where "get_attempt k db = Inr att" "get_job (a_job_id att) db = Inr job"
    "complete_allowed st" "a_execution_token_hash att = stable_hash tok"
    "j_current_attempt_number job = a_attempt_number att"
    "st \<in> set (ATTEMPT_TRANSITIONS (a_status att)) \<or> a_status att = ACreated"
    "same_attempt att att'" "a_status att' = st" "job_attempt_valid att'"
    "same_job job job'" "j_status job' = complete_target st" "job_record_valid job'"
    "j_current_attempt_number job' = j_current_attempt_number job"
    "j_result_artifact_ref_ids job' = (if refs \<noteq> [] then refs else j_result_artifact_ref_ids job)"
    "j_error_code job' = ec" "j_revision job' = j_revision job + 1"
    "db' = update_job job' (update_attempt att' db)"
  using assms
  by (auto simp: complete_attempt_def completed_attempt_def completed_job_def validators Let_def
      same_attempt_def same_job_def get_job_def
      split: sum.splits if_splits option.splits intro: that)

lemma complete_attempt_Inl:
  "complete_attempt now k tok st ec refs db = (Inl e, db') \<Longrightarrow> db' = db"
  by (auto simp: complete_attempt_def validators Let_def split: sum.splits if_splits option.splits)

lemma db_inv_complete_attempt:
  assumes inv: "db_inv db"
  shows "db_inv (snd (complete_attempt now k tok st ec refs db))"
proof (cases "complete_attempt now k tok st ec refs db")
  case (Pair res db')
  show ?thesis
  proof (cases res)
    case (Inl e)
    with Pair inv show ?thesis using complete_attempt_Inl by fastforce
  next
    case (Inr p)
    obtain att' job' where p: "p = (att', job')" by (cases p)
    with Pair Inr obtain att job where
      g: "get_attempt k db = Inr att" "get_job (a_job_id att) db = Inr job"
      and allowed: "complete_allowed st"
      and num: "j_current_attempt_number job = a_attempt_number att"
      and att': "same_attempt att att'" "a_status att' = st" "job_attempt_valid att'"
      and job': "same_job job job'" "job_record_valid job'"
        "j_current_attempt_number job' = j_current_attempt_number job"
      and db': "db' = update_job job' (update_attempt att' db)"
      by (auto elim!: complete_attempt_Inr)
    obtain ra where ra: "attempt_row_at k db = Some ra" "ar_json ra = att"
      using g(1) by (rule get_attempt_Inr)
    have raok: "attempt_row_ok ra" "ra \<in> set (job_attempts db)" "ar_attempt_id ra = k"
      using db_inv_attempt_row [OF inv ra(1)] attempt_row_at_key [OF ra(1)] by auto
    obtain rj where rj: "job_row_at (a_job_id att) db = Some rj" "jr_json rj = job"
      "jr_current_attempt_number rj = j_current_attempt_number job"
      using inv g(2) by (rule db_inv_get_job_row)
    have dead: "\<not> attempt_live st" using allowed by (rule complete_allowed_not_live)
    let ?db1 = "update_attempt att' db"
    have inv1: "db_inv ?db1"
      using db_inv_update_attempt [OF inv ra(1), of att'] att' ra(2) dead by simp
    have rj1: "job_row_at (a_job_id att) ?db1 = Some rj" using rj(1) by simp
    have "\<not> attempt_live (ar_status a)"
      if a: "a \<in> set (job_attempts ?db1)" "ar_job_id a = a_job_id att"
        "ar_attempt_number a = jr_current_attempt_number rj" for a
    proof -
      have "attempt_row_of att' \<in> set (job_attempts ?db1)"
      proof -
        have "attempt_row_at k ?db1 = Some (attempt_row_of att')"
          using attempt_row_at_updated [of db k ra att' k] inv ra att'(1) by (simp add: db_inv_def)
        then show ?thesis using attempt_row_at_key by blast
      qed
      moreover have "ar_job_id a = ar_job_id (attempt_row_of att')"
        "ar_attempt_number a = ar_attempt_number (attempt_row_of att')"
        using a(2,3) num rj(3) att'(1) by (simp_all add: same_attempt_def)
      ultimately have "a = attempt_row_of att'"
        by (rule db_inv_same_attempt [OF inv1 a(1)])
      then show ?thesis using att'(2) dead by simp
    qed
    then have "db_inv (update_job job' ?db1)"
      using db_inv_update_job [OF inv1 rj1, of job'] job' rj by simp
    with Pair db' show ?thesis by simp
  qed
qed

lemma db_inv_not_executing:
  assumes inv: "db_inv db" and a: "a \<in> set (job_attempts db)"
    and r: "job_row_at (ar_job_id a) db = Some r" and "\<not> job_executing (jr_status r)"
  shows "\<not> attempt_live (ar_status a)"
proof -
  obtain jr where "job_row_at (ar_job_id a) db = Some jr" "attempt_fits a jr"
    by (rule db_inv_fits [OF inv a])
  with r assms(4) show ?thesis by (auto simp: attempt_fits_def)
qed

lemma db_inv_create_retry_attempt:
  assumes inv: "db_inv db"
  shows "db_inv (snd (create_retry_attempt u now k db))"
proof (cases "get_job k db")
  case (Inl e)
  then show ?thesis using inv by (simp add: create_retry_attempt_def)
next
  case (Inr job)
  obtain r where r: "job_row_at k db = Some r" "jr_json r = job" "jr_job_id r = k"
    "jr_status r = j_status job" "j_job_id job = k"
    "jr_current_attempt_number r = j_current_attempt_number job" "job_record_valid job"
    using inv Inr by (rule db_inv_get_job_row)
  show ?thesis
  proof (cases "j_status job = JRetryWait")
    case False
    then show ?thesis using inv Inr by (simp add: create_retry_attempt_def)
  next
    case True
    have dead: "\<not> attempt_live (ar_status a)"
      if "a \<in> set (job_attempts db)" "ar_job_id a = k" for a
      using db_inv_not_executing [OF inv that(1)] that(2) r(1,4) True by (simp add: job_executing_def)
    show ?thesis
    proof (cases "j_max_attempts job \<le> j_current_attempt_number job")
      case max: True
      let ?dead = "job\<lparr>j_status := JDead, j_finished_at := Some now,
                  j_updated_at := now, j_revision := j_revision job + 1\<rparr>"
      have "db_inv (update_job ?dead db)" if "job_record_valid ?dead"
        using db_inv_update_job [OF inv r(1), of ?dead] that dead r by (simp add: same_job_def)
      with Inr True max inv show ?thesis
        by (auto simp: create_retry_attempt_def validators)
    next
      case less: False
      let ?att = "new_attempt u now k (j_current_attempt_number job + 1)"
      let ?job = "job\<lparr>j_status := JQueued,
                 j_current_attempt_number := a_attempt_number ?att, j_retryable := False,
                 j_error_code := None, j_updated_at := now, j_revision := j_revision job + 1\<rparr>"
      let ?ev = "new_outbox u ?job ?att now"
      have "db_inv db'" if v: "job_attempt_valid ?att" "job_record_valid ?job" "outbox_event_valid ?ev"
        and st: "start_attempt ?job ?att ?ev db = Some db'" for db'
        by (rule db_inv_start_attempt [OF inv r(1) _ v(2,1,3) _ _ _ _ _ _ _ st])
          (use r dead less in \<open>auto simp: same_job_def new_attempt_def new_outbox_def job_executing_def\<close>)
      with Inr True less inv show ?thesis
        by (auto simp: create_retry_attempt_def validators split: sum.split option.split)
    qed
  qed
qed

lemma get_job_request_obj:
  assumes "get_job_request_in k db = Inr req"
  shows "\<exists>kvs. req = JObj kvs"
proof (cases "find_by rr_job_id k (job_requests db)")
  case None
  with assms show ?thesis by (simp add: get_job_request_in_def)
next
  case (Some r)
  with assms show ?thesis by (cases "rr_request r") (simp_all add: get_job_request_in_def, blast)
qed

lemma db_inv_create_manual_retry:
  assumes inv: "db_inv db"
  shows "db_inv (snd (create_manual_retry u now k actor db))"
  using inv
  by (auto simp: create_manual_retry_def split: sum.split
      dest!: get_job_request_obj intro!: db_inv_create_job)

lemma db_inv_request_cancel:
  assumes inv: "db_inv db"
  shows "db_inv (snd (request_cancel now k db))"
proof (cases "get_job k db")
  case (Inl e)
  then show ?thesis using inv by (simp add: request_cancel_def)
next
  case (Inr job)
  obtain r where r: "job_row_at k db = Some r" "jr_json r = job"
    "jr_current_attempt_number r = j_current_attempt_number job"
    using inv Inr by (rule db_inv_get_job_row)
  let ?upd = "job\<lparr>j_status := JCancelling, j_cancel_requested := True,
                 j_updated_at := now, j_revision := j_revision job + 1\<rparr>"
  have "db_inv (update_job ?upd db)" if "job_record_valid ?upd"
    using db_inv_update_job [OF inv r(1), of ?upd] that r by (simp add: same_job_def job_executing_def)
  with Inr inv show ?thesis by (auto simp: request_cancel_def validators)
qed


section \<open>Recovery\<close>

lemma recover_close_attempt_frame [simp]:
  "jobs (recover_close_attempt now att db) = jobs db"
  "outbox_events (recover_close_attempt now att db) = outbox_events db"
  "job_requests (recover_close_attempt now att db) = job_requests db"
  "job_row_at k (recover_close_attempt now att db) = job_row_at k db"
  by (simp_all add: recover_close_attempt_def)

lemma recover_close_attempt_inv:
  assumes inv: "db_inv db" and a: "a \<in> set (job_attempts db)"
  shows "db_inv (recover_close_attempt now (ar_json a) db)"
    and "\<And>b. b \<in> set (job_attempts (recover_close_attempt now (ar_json a) db)) \<Longrightarrow>
      ar_job_id b = ar_job_id a \<Longrightarrow> ar_attempt_number b = ar_attempt_number a \<Longrightarrow>
      \<not> attempt_live (ar_status b)"
proof -
  let ?att = "ar_json a"
  let ?upd = "?att\<lparr>a_status := (if a_status ?att = ACreated then ASuperseded else ALost),
          a_error_code := Some ''application_restart'', a_retryable := True,
          a_finished_at := Some now, a_updated_at := now\<rparr>"
  have at: "attempt_row_at (ar_attempt_id a) db = Some a" by (rule db_inv_attempt_at [OF inv a])
  have ok: "attempt_row_ok a" by (rule db_inv_attempt_row [OF inv at])
  have st: "a_status ?att = ar_status a" "a_job_id ?att = ar_job_id a"
    "a_attempt_number ?att = ar_attempt_number a" using attempt_row_ok_simps [OF ok] by simp_all
  have same: "same_attempt ?att ?upd" by (simp add: same_attempt_def)
  have valid: "job_attempt_valid ?upd" using ok by (simp add: attempt_row_ok_def job_attempt_valid_def)
  have dead: "\<not> attempt_live (a_status ?upd)" by (simp add: attempt_live_iff)
  have inv1: "db_inv (update_attempt ?upd db)"
    using db_inv_update_attempt [OF inv at same valid] dead by simp
  then show "db_inv (recover_close_attempt now ?att db)"
    using inv by (simp add: recover_close_attempt_def)
  fix b
  assume b: "b \<in> set (job_attempts (recover_close_attempt now ?att db))"
    "ar_job_id b = ar_job_id a" "ar_attempt_number b = ar_attempt_number a"
  show "\<not> attempt_live (ar_status b)"
  proof (cases "attempt_live (ar_status a)")
    case True
    then have rc: "recover_close_attempt now ?att db = update_attempt ?upd db"
      using st by (auto simp: recover_close_attempt_def attempt_live_iff)
    have "attempt_row_at (ar_attempt_id a) (update_attempt ?upd db) = Some (attempt_row_of ?upd)"
      using attempt_row_at_updated [OF _ at same] inv by (simp add: db_inv_def)
    then have new: "attempt_row_of ?upd \<in> set (job_attempts (update_attempt ?upd db))"
      using attempt_row_at_key by blast
    have "b = attempt_row_of ?upd"
      by (rule db_inv_same_attempt [OF inv1 _ new]) (use b rc st in simp_all)
    then have "ar_status b = a_status ?upd" by simp
    with dead show ?thesis by (simp only: not_False_eq_True)
  next
    case False
    then have "recover_close_attempt now ?att db = db"
      using st by (auto simp: recover_close_attempt_def attempt_live_iff)
    then have "b = a" using db_inv_same_attempt [OF inv _ a] b by simp
    with False show ?thesis by simp
  qed
qed

lemma recover_fail_outbox_inv:
  assumes inv: "db_inv db" and f: "recover_fail_outbox now aid db = Inr db'"
  shows "db_inv db' \<and> jobs db' = jobs db \<and> job_attempts db' = job_attempts db
    \<and> job_requests db' = job_requests db"
proof (cases "find_by or_attempt_id aid (outbox_events db)")
  case None
  with f inv show ?thesis by (simp add: recover_fail_outbox_def)
next
  case (Some row)
  then have row: "row \<in> set (outbox_events db)" by (auto dest: find_by_SomeD)
  then have ok: "outbox_row_ok row" using inv by (simp add: db_inv_def inv_rows_def)
  have at: "outbox_row_at (or_outbox_event_id row) db = Some row"
    unfolding outbox_row_at_def
    by (rule outbox_tbl.get_unique) (use inv row in \<open>auto simp: db_inv_def inv_rows_def\<close>)
  let ?e = "or_json row"
  let ?f = "\<lambda>r. r\<lparr>or_status := OFailed, or_claim_token_hash := None,
      or_lease_owner_hash := None, or_lease_until := None,
      or_last_publish_error_code := Some ''attempt_superseded_on_restart'',
      or_json := failed_event now ?e, or_updated_at := now\<rparr>"
  have row_eq: "row = outbox_row_of ?e" "outbox_event_valid ?e" using ok by (simp_all add: outbox_row_ok_def)
  have "?f (outbox_row_of ?e) = outbox_row_of (failed_event now ?e)"
    by (simp add: outbox_row_of_def failed_event_def)
  then have "?f row = outbox_row_of (failed_event now ?e)" using row_eq(1) by simp
  moreover have "outbox_event_valid (failed_event now ?e)"
    using row_eq(2) by (simp add: outbox_event_valid_def failed_event_def)
  ultimately have "db_inv (update_outbox (or_outbox_event_id row) ?f db)"
    by (intro db_inv_update_outbox [OF inv at]) simp_all
  moreover have "o_outbox_event_id ?e = or_outbox_event_id row"
    using outbox_row_ok_simps(1) [OF ok] .
  ultimately show ?thesis
    using f Some inv row_eq(2) by (auto simp: recover_fail_outbox_def validators split: if_splits)
qed

lemma recover_fail_outbox_total:
  assumes inv: "db_inv db"
  shows "\<exists>db'. recover_fail_outbox now aid db = Inr db'"
proof (cases "find_by or_attempt_id aid (outbox_events db)")
  case None
  then show ?thesis by (simp add: recover_fail_outbox_def)
next
  case (Some row)
  then have "row \<in> set (outbox_events db)" by (auto dest: find_by_SomeD)
  then have "outbox_event_valid (or_json row)"
    using inv by (simp add: db_inv_def inv_rows_def outbox_row_ok_def)
  with Some show ?thesis by (simp add: recover_fail_outbox_def validators)
qed

text \<open>What recovery leaves of one job: it has ended, or it is queued with a new attempt.\<close>

definition recovered_job :: "job_record \<Rightarrow> job_record \<Rightarrow> bool" where
  "recovered_job j j' \<longleftrightarrow> same_job j j' \<and> j_revision j' = j_revision j + 1 \<and>
     (if j_status j = JCancelling then j_status j' = JCancelled
        \<and> j_current_attempt_number j' = j_current_attempt_number j
      else if j_max_attempts j \<le> j_current_attempt_number j then j_status j' = JDead
        \<and> j_current_attempt_number j' = j_current_attempt_number j
      else j_status j' = JQueued \<and> \<not> j_cancel_requested j'
        \<and> j_current_attempt_number j' = j_current_attempt_number j + 1)"

lemma recover_job_inv:
  assumes inv: "db_inv db" and r: "job_row_at k db = Some r" and open_job: "\<not> job_terminal (jr_status r)"
    and dead: "\<forall>a \<in> set (job_attempts db). ar_job_id a = k \<longrightarrow>
         ar_attempt_number a = jr_current_attempt_number r \<longrightarrow> \<not> attempt_live (ar_status a)"
    and rec: "recover_job u now (jr_json r) db = Inr (c, db')"
  shows "db_inv db' \<and> (\<exists>j'. recovered_job (jr_json r) j' \<and>
    (\<forall>k'. job_row_at k' db' = (if k' = k then Some (job_row_of j') else job_row_at k' db)))"
proof -
  let ?job = "jr_json r"
  have ir: "inv_rows db" using inv by (simp add: db_inv_def)
  have ok: "job_row_ok r" using inv r by (rule db_inv_job_row)
  then have valid: "job_record_valid ?job" by (simp add: job_row_ok_def)
  note rs = job_row_ok_simps [OF ok]
  have rk: "jr_job_id r = k" using job_row_at_key [OF r] by simp
  have upd: "db_inv (update_job j' db) \<and> (\<forall>k'. job_row_at k' (update_job j' db) =
      (if k' = k then Some (job_row_of j') else job_row_at k' db))"
    if "same_job ?job j'" "job_record_valid j'"
      "j_current_attempt_number j' = j_current_attempt_number ?job" for j'
    using db_inv_update_job [OF inv r that(1,2)] that(3) dead rs(3)
      job_row_at_updated [OF ir r that(1)] by simp
  consider (cancel) "j_status ?job = JCancelling"
    | (dead) "j_status ?job \<noteq> JCancelling" "j_max_attempts ?job \<le> j_current_attempt_number ?job"
    | (queue) "j_status ?job \<noteq> JCancelling" "j_current_attempt_number ?job < j_max_attempts ?job"
    by fastforce
  then show ?thesis
  proof cases
    case cancel
    let ?j = "?job\<lparr>j_status := JCancelled, j_cancel_requested := True, j_retryable := False,
      j_error_code := Some ''job_cancelled_during_restart'', j_finished_at := Some now,
      j_updated_at := now, j_revision := j_revision ?job + 1\<rparr>"
    have "same_job ?job ?j" "job_record_valid ?j" "recovered_job ?job ?j"
      using valid cancel by (auto simp: same_job_def job_record_valid_def recovered_job_def)
    with rec cancel upd [of ?j] show ?thesis by (auto simp: recover_job_def)
  next
    case dead
    let ?j = "?job\<lparr>j_status := JDead, j_retryable := False,
      j_error_code := Some ''job_attempts_exhausted_after_restart'', j_finished_at := Some now,
      j_updated_at := now, j_revision := j_revision ?job + 1\<rparr>"
    have "same_job ?job ?j" "job_record_valid ?j" "recovered_job ?job ?j"
      using valid dead by (auto simp: same_job_def job_record_valid_def recovered_job_def)
    with rec dead upd [of ?j] show ?thesis by (auto simp: recover_job_def)
  next
    case queue
    let ?att = "new_attempt u now (j_job_id ?job) (j_current_attempt_number ?job + 1)"
    let ?j = "?job\<lparr>j_status := JQueued, j_current_attempt_number := a_attempt_number ?att,
      j_cancel_requested := False, j_retryable := False, j_error_code := None,
      j_finished_at := None, j_updated_at := now, j_revision := j_revision ?job + 1\<rparr>"
    let ?ev = "new_outbox u ?j ?att now"
    have same: "same_job ?job ?j" and vj: "job_record_valid ?j" and rj: "recovered_job ?job ?j"
      using valid queue by (auto simp: same_job_def job_record_valid_def recovered_job_def new_attempt_def)
    from rec queue have v: "job_attempt_valid ?att" "outbox_event_valid ?ev"
      and st: "start_attempt ?j ?att ?ev db = Some db'"
      by (auto simp: recover_job_def validators Let_def split: sum.splits option.splits if_splits)
    have "db_inv db'"
      by (rule db_inv_start_attempt [OF inv r same vj v _ _ _ _ _ _ _ st])
        (use rs rk dead queue in \<open>auto simp: new_attempt_def new_outbox_def job_executing_def\<close>)
    moreover have "job_row_at k' db' = (if k' = k then Some (job_row_of ?j) else job_row_at k' db)" for k'
    proof -
      note sd = start_attempt_SomeD [OF st]
      let ?db = "db\<lparr>job_attempts := job_attempts db @ [attempt_row_of ?att],
            outbox_events := outbox_events db @ [outbox_row_of ?ev]\<rparr>"
      have "inv_rows ?db"
        using ir v sd by (auto simp: inv_rows_def attempt_row_ok_def outbox_row_ok_def)
      moreover have "job_row_at k ?db = Some r" using r by simp
      ultimately show ?thesis using job_row_at_updated [OF _ _ same] sd(1) by simp
    qed
    ultimately show ?thesis using rj by blast
  qed
qed

lemma recover_row_inv:
  assumes inv: "db_inv db" and r: "job_row_at k db = Some r" and open_job: "\<not> job_terminal (jr_status r)"
    and rec: "recover_row u now r db = Inr (c, db')"
  shows "db_inv db' \<and> (\<exists>j'. recovered_job (jr_json r) j' \<and>
    (\<forall>k'. job_row_at k' db' = (if k' = k then Some (job_row_of j') else job_row_at k' db)))"
proof -
  have ok: "job_row_ok r" using inv r by (rule db_inv_job_row)
  note rs = job_row_ok_simps [OF ok]
  have rk: "jr_job_id r = k" "r \<in> set (jobs db)" using job_row_at_key [OF r] by auto
  obtain a where a: "a \<in> set (job_attempts db)" "ar_job_id a = k"
    "ar_attempt_number a = jr_current_attempt_number r"
    "get_attempt_in k (jr_current_attempt_number r) db = Inr (ar_json a)"
    using db_inv_current [OF inv rk(2)] rk(1) by auto
  let ?db1 = "recover_close_attempt now (ar_json a) db"
  note close = recover_close_attempt_inv [OF inv a(1), where now = now]
  from rec a(4) rs rk(1) obtain db2 where
    2: "recover_fail_outbox now (a_attempt_id (ar_json a)) ?db1 = Inr db2"
    and 3: "recover_job u now (jr_json r) db2 = Inr (c, db')"
    by (auto simp: recover_row_def validators split: if_splits sum.splits)
  note fo = recover_fail_outbox_inv [OF close(1) 2]
  have jobs: "job_row_at k' db2 = job_row_at k' db" for k'
    using fo by (simp add: job_row_at_def)
  have "\<forall>b \<in> set (job_attempts db2). ar_job_id b = k \<longrightarrow>
      ar_attempt_number b = jr_current_attempt_number r \<longrightarrow> \<not> attempt_live (ar_status b)"
    using close(2) a(2,3) fo by auto
  then have "db_inv db' \<and> (\<exists>j'. recovered_job (jr_json r) j' \<and>
    (\<forall>k'. job_row_at k' db' = (if k' = k then Some (job_row_of j') else job_row_at k' db2)))"
    using fo r open_job 3 jobs by (intro recover_job_inv) simp_all
  then show ?thesis unfolding jobs .
qed

text \<open>The rows still to be recovered are as they were before one of them was.\<close>

lemma recover_rows_next:
  assumes "db_inv db"
    and "\<forall>x \<in> set (r # rows). job_row_at (jr_job_id x) db = Some x \<and> \<not> job_terminal (jr_status x)"
    and "distinct (map jr_job_id (r # rows))"
    and "recover_row u now r db = Inr (c, db1)"
  shows "db_inv db1"
    and "\<forall>x \<in> set rows. job_row_at (jr_job_id x) db1 = Some x \<and> \<not> job_terminal (jr_status x)"
    and "distinct (map jr_job_id rows)"
proof -
  from assms(2) have r: "job_row_at (jr_job_id r) db = Some r" "\<not> job_terminal (jr_status r)" by auto
  obtain j' where inv1: "db_inv db1"
    and at: "\<And>k. job_row_at k db1 = (if k = jr_job_id r then Some (job_row_of j') else job_row_at k db)"
    using recover_row_inv [OF assms(1) r assms(4)] by blast
  show "db_inv db1" by (rule inv1)
  show "distinct (map jr_job_id rows)" using assms(3) by simp
  show "\<forall>x \<in> set rows. job_row_at (jr_job_id x) db1 = Some x \<and> \<not> job_terminal (jr_status x)"
  proof
    fix x
    assume x: "x \<in> set rows"
    then have "jr_job_id x \<noteq> jr_job_id r" using assms(3) by (auto simp: image_iff)
    with at [of "jr_job_id x"] have "job_row_at (jr_job_id x) db1 = job_row_at (jr_job_id x) db" by simp
    with assms(2) x show "job_row_at (jr_job_id x) db1 = Some x \<and> \<not> job_terminal (jr_status x)"
      by simp
  qed
qed

lemma recover_rows_inv:
  assumes "db_inv db" and "\<forall>r \<in> set rows. job_row_at (jr_job_id r) db = Some r \<and> \<not> job_terminal (jr_status r)"
    and "distinct (map jr_job_id rows)" and "recover_rows us now rows db = Inr (cs, db')"
  shows "db_inv db' \<and> (\<forall>k. k \<notin> jr_job_id ` set rows \<longrightarrow> job_row_at k db' = job_row_at k db)
    \<and> (\<forall>r \<in> set rows. \<exists>j'. recovered_job (jr_json r) j' \<and>
          job_row_at (jr_job_id r) db' = Some (job_row_of j'))"
  using assms
proof (induction rows arbitrary: db cs)
  case Nil
  then show ?case by simp
next
  case (Cons r rows)
  from Cons.prems(4) obtain c db1 cs' where
    1: "recover_row (us (jr_job_id r)) now r db = Inr (c, db1)" and
    2: "recover_rows us now rows db1 = Inr (cs', db')"
    by (auto split: sum.splits)
  from Cons.prems(2) have r: "job_row_at (jr_job_id r) db = Some r" "\<not> job_terminal (jr_status r)"
    by auto
  obtain j' where inv1: "db_inv db1" and j': "recovered_job (jr_json r) j'"
    and at: "\<And>k. job_row_at k db1 = (if k = jr_job_id r then Some (job_row_of j') else job_row_at k db)"
    using recover_row_inv [OF Cons.prems(1) r 1] by blast
  note rest = recover_rows_next(2) [OF Cons.prems(1-3) 1]
  have d: "distinct (map jr_job_id rows)" and nr: "jr_job_id r \<notin> jr_job_id ` set rows"
    using Cons.prems(3) by auto
  note I = Cons.IH [OF inv1 rest d 2]
  note inv' = I [THEN conjunct1]
  note frame = I [THEN conjunct2, THEN conjunct1, rule_format]
  note done_rows = I [THEN conjunct2, THEN conjunct2]
  have head: "job_row_at (jr_job_id r) db' = Some (job_row_of j')"
    using frame [OF nr] at by simp
  have "job_row_at k db' = job_row_at k db" if "k \<notin> jr_job_id ` set (r # rows)" for k
    using frame [of k] at [of k] that by simp
  moreover have "\<exists>j'. recovered_job (jr_json x) j' \<and> job_row_at (jr_job_id x) db' = Some (job_row_of j')"
    if "x \<in> set (r # rows)" for x
    using that head j' done_rows by (cases "x = r") auto
  ultimately show ?case using inv' by blast
qed

lemma incomplete_rows_at:
  assumes "db_inv db"
  shows "\<forall>r \<in> set (incomplete_rows db). job_row_at (jr_job_id r) db = Some r \<and> \<not> job_terminal (jr_status r)"
    and "distinct (map jr_job_id (incomplete_rows db))"
proof -
  show "\<forall>r \<in> set (incomplete_rows db). job_row_at (jr_job_id r) db = Some r \<and> \<not> job_terminal (jr_status r)"
    using db_inv_job_at [OF assms] by (auto simp: incomplete_rows_def)
  have "distinct (map jr_job_id (filter (\<lambda>r. \<not> job_terminal (jr_status r)) (jobs db)))"
    using assms by (intro distinct_map_filter) (simp add: db_inv_def inv_rows_def)
  then have "distinct (map jr_job_id (sort_key jr_created_at
      (filter (\<lambda>r. \<not> job_terminal (jr_status r)) (jobs db))))"
    by (simp only: distinct_map distinct_sort set_sort)
  then show "distinct (map jr_job_id (incomplete_rows db))" by (simp only: incomplete_rows_def)
qed

lemma recover_incomplete_jobs_result:
  assumes "db_inv db" and "recover_incomplete_jobs us now db = (Inr cs, db')"
  shows "db_inv db'"
    and "\<And>k r. job_row_at k db = Some r \<Longrightarrow>
      (if job_terminal (jr_status r) then job_row_at k db' = Some r
       else \<exists>j'. recovered_job (jr_json r) j' \<and> job_row_at k db' = Some (job_row_of j'))"
proof -
  from assms(2) have rows: "recover_rows us now (incomplete_rows db) db = Inr (cs, db')"
    by (auto simp: recover_incomplete_jobs_def split: sum.splits)
  note R = recover_rows_inv [OF assms(1) incomplete_rows_at [OF assms(1)] rows]
  show "db_inv db'" using R by blast
  fix k r
  assume r: "job_row_at k db = Some r"
  then have rk: "jr_job_id r = k" "r \<in> set (jobs db)" using job_row_at_key by auto
  show "if job_terminal (jr_status r) then job_row_at k db' = Some r
       else \<exists>j'. recovered_job (jr_json r) j' \<and> job_row_at k db' = Some (job_row_of j')"
  proof (cases "job_terminal (jr_status r)")
    case True
    have "k \<notin> jr_job_id ` set (incomplete_rows db)"
    proof
      assume "k \<in> jr_job_id ` set (incomplete_rows db)"
      then obtain x where "x \<in> set (incomplete_rows db)" "jr_job_id x = k" by blast
      with incomplete_rows_at(1) [OF assms(1)] r True show False by fastforce
    qed
    with R r True show ?thesis by simp
  next
    case False
    then have "r \<in> set (incomplete_rows db)" using rk by (simp add: incomplete_rows_def)
    with R False rk show ?thesis by auto
  qed
qed

lemma db_inv_recover:
  assumes "db_inv db"
  shows "db_inv (snd (recover_incomplete_jobs us now db))"
proof (cases "recover_incomplete_jobs us now db")
  case (Pair res db')
  show ?thesis
  proof (cases res)
    case (Inl e)
    with Pair assms show ?thesis by (auto simp: recover_incomplete_jobs_def split: sum.splits)
  next
    case (Inr cs)
    with Pair assms recover_incomplete_jobs_result(1) show ?thesis by auto
  qed
qed

end
