(* ===== verification/Cp_Outbox.thy ===== *)
theory Cp_Outbox
  imports Cp_Job_Safety
begin

text \<open>
  The transactional outbox: \<open>claim_outbox\<close> and the three acknowledgements of \<open>store.py\<close>, and the
  dispatcher of \<open>control_plane/outbox.py\<close> that claims a batch, publishes each message and
  acknowledges it.  The broker is a parameter (a function from the message to its id or the
  exception it raises); claim tokens and the clock are arguments.
\<close>

record claimed_outbox =
  co_event :: outbox_event
  co_token :: string

definition seconds :: "int \<Rightarrow> timestamp" where
  "seconds n = 1000000 * n"

section \<open>Claiming\<close>

definition outbox_due :: "timestamp \<Rightarrow> outbox_row \<Rightarrow> bool" where
  "outbox_due now r \<longleftrightarrow>
     (or_status r = OPending \<or>
      or_status r = OPublishing \<and> (case or_lease_until r of None \<Rightarrow> False | Some t \<Rightarrow> t < now)) \<and>
     (case or_next_retry_at r of None \<Rightarrow> True | Some t \<Rightarrow> t \<le> now)"

definition claimed_event ::
    "string \<Rightarrow> timestamp \<Rightarrow> timestamp \<Rightarrow> string \<Rightarrow> outbox_event \<Rightarrow> outbox_event" where
  "claimed_event dispatcher_id now lease_until claim_token event = event\<lparr>
     o_status := OPublishing, o_claim_token_hash := Some (stable_hash claim_token),
     o_lease_owner_hash := Some (stable_hash dispatcher_id), o_lease_until := Some lease_until,
     o_publish_attempt := o_publish_attempt event + 1, o_updated_at := now\<rparr>"

definition set_claimed_row :: "outbox_event \<Rightarrow> outbox_row \<Rightarrow> outbox_row" where
  "set_claimed_row e r = r\<lparr>or_status := OPublishing, or_claim_token_hash := o_claim_token_hash e,
     or_lease_owner_hash := o_lease_owner_hash e, or_lease_until := o_lease_until e,
     or_publish_attempt := o_publish_attempt e, or_json := e, or_updated_at := o_updated_at e\<rparr>"

fun claim_rows ::
    "(string \<Rightarrow> string) \<Rightarrow> string \<Rightarrow> timestamp \<Rightarrow> timestamp \<Rightarrow> outbox_row list \<Rightarrow> cp_db
     \<Rightarrow> exn + (claimed_outbox list \<times> cp_db)" where
  "claim_rows tok dispatcher_id now lease_until [] db = Inr ([], db)"
| "claim_rows tok dispatcher_id now lease_until (row # rows) db =
     (case validate_outbox (or_json row) of Inl e \<Rightarrow> Inl e | Inr event \<Rightarrow>
      let token = tok (o_outbox_event_id event) in
      case validate_outbox (claimed_event dispatcher_id now lease_until token event) of
        Inl e \<Rightarrow> Inl e | Inr updated \<Rightarrow>
      case claim_rows tok dispatcher_id now lease_until rows
             (update_outbox (o_outbox_event_id event) (set_claimed_row updated) db) of
        Inl e \<Rightarrow> Inl e
      | Inr (cs, db') \<Rightarrow> Inr (\<lparr>co_event = updated, co_token = token\<rparr> # cs, db'))"

text \<open>\<open>ORDER BY created_at LIMIT batch_size\<close>; \<open>tok\<close> gives the random token drawn for an event.\<close>

definition due_rows :: "nat \<Rightarrow> timestamp \<Rightarrow> cp_db \<Rightarrow> outbox_row list" where
  "due_rows batch_size now db =
     take batch_size (sort_key or_created_at (filter (outbox_due now) (outbox_events db)))"

definition claim_outbox ::
    "(string \<Rightarrow> string) \<Rightarrow> timestamp \<Rightarrow> string \<Rightarrow> nat \<Rightarrow> int \<Rightarrow> cp_db
     \<Rightarrow> (cp_db, claimed_outbox list) outcome" where
  "claim_outbox tok now dispatcher_id batch_size lease_seconds db =
     (case claim_rows tok dispatcher_id now (now + seconds lease_seconds)
             (due_rows batch_size now db) db of
        Inl e \<Rightarrow> (Inl e, db)
      | Inr (cs, db') \<Rightarrow> (Inr cs, db'))"

section \<open>Acknowledging\<close>

definition mark_outbox_published ::
    "timestamp \<Rightarrow> string \<Rightarrow> string \<Rightarrow> string \<Rightarrow> cp_db \<Rightarrow> (cp_db, outbox_event) outcome" where
  "mark_outbox_published now event_id claim_token message_id db =
     (case outbox_row_at event_id db of
        None \<Rightarrow> (Inl (ControlPlaneError ''outbox_not_found''), db)
      | Some row \<Rightarrow> (case validate_outbox (or_json row) of Inl e \<Rightarrow> (Inl e, db) | Inr event \<Rightarrow>
          if o_status event \<noteq> OPublishing \<or> str_or (o_claim_token_hash event) [] = []
          then (Inl (ControlPlaneError ''outbox_not_claimed''), db)
          else if o_claim_token_hash event \<noteq> Some (stable_hash claim_token)
          then (Inl (ControlPlaneError ''outbox_claim_lost''), db)
          else case validate_outbox (event\<lparr>o_status := OPublished,
                 o_published_message_id := Some message_id, o_claim_token_hash := None,
                 o_lease_owner_hash := None, o_lease_until := None, o_updated_at := now\<rparr>) of
              Inl e \<Rightarrow> (Inl e, db)
            | Inr updated \<Rightarrow> (Inr updated, update_outbox event_id (\<lambda>r. r\<lparr>or_status := OPublished,
                or_claim_token_hash := None, or_lease_owner_hash := None, or_lease_until := None,
                or_json := updated, or_updated_at := now\<rparr>) db)))"

definition mark_outbox_publish_failed ::
    "timestamp \<Rightarrow> string \<Rightarrow> string \<Rightarrow> string \<Rightarrow> int \<Rightarrow> cp_db \<Rightarrow> (cp_db, outbox_event) outcome" where
  "mark_outbox_publish_failed now event_id claim_token error_code retry_seconds db =
     (case outbox_row_at event_id db of
        None \<Rightarrow> (Inl (ControlPlaneError ''outbox_not_found''), db)
      | Some row \<Rightarrow> (case validate_outbox (or_json row) of Inl e \<Rightarrow> (Inl e, db) | Inr event \<Rightarrow>
          if o_status event \<noteq> OPublishing \<or> str_or (o_claim_token_hash event) [] = []
             \<or> o_claim_token_hash event \<noteq> Some (stable_hash claim_token)
          then (Inl (ControlPlaneError ''outbox_claim_lost''), db)
          else (let retry_at = now + seconds (max 1 retry_seconds);
                    updated = event\<lparr>o_status := OPending, o_claim_token_hash := None,
                      o_lease_owner_hash := None, o_lease_until := None,
                      o_last_publish_error_code := Some error_code,
                      o_next_retry_at := Some retry_at, o_updated_at := now\<rparr>
                in (Inr updated, update_outbox event_id (\<lambda>r. r\<lparr>or_status := OPending,
                     or_claim_token_hash := None, or_lease_owner_hash := None,
                     or_lease_until := None, or_last_publish_error_code := Some error_code,
                     or_next_retry_at := Some retry_at, or_json := updated,
                     or_updated_at := now\<rparr>) db))))"

definition mark_outbox_consumed_local ::
    "timestamp \<Rightarrow> string \<Rightarrow> cp_db \<Rightarrow> (cp_db, outbox_event) outcome" where
  "mark_outbox_consumed_local now event_id db =
     (case outbox_row_at event_id db of
        None \<Rightarrow> (Inl (ControlPlaneError ''outbox_not_found''), db)
      | Some row \<Rightarrow> (case validate_outbox (or_json row) of Inl e \<Rightarrow> (Inl e, db) | Inr event \<Rightarrow>
          if o_status event = OPublished then (Inr event, db)
          else if o_status event \<noteq> OPending
          then (Inl (ControlPlaneError ''outbox_not_pending''), db)
          else (let updated = event\<lparr>o_status := OPublished,
                      o_published_message_id := Some (''local:'' @ o_message_deduplication_key event),
                      o_updated_at := now\<rparr>
                in (Inr updated, update_outbox event_id (\<lambda>r. r\<lparr>or_status := OPublished,
                     or_json := updated, or_updated_at := now\<rparr>) db))))"

section \<open>The dispatcher\<close>

text \<open>
  \<open>str(payload.get("job_type") or "maintenance")\<close>: a missing or falsy value selects the default,
  and the \<open>str\<close> of any other value that is not a string (\<open>True\<close>, a number, \<open>[..]\<close>, \<open>{..}\<close>)
  is not one of the allowed words.
\<close>

definition queue_for_event :: "json \<Rightarrow> string" where
  "queue_for_event payload =
     (case payload of
        JObj kvs \<Rightarrow> (case map_of kvs ''job_type'' of
            Some (JStr s) \<Rightarrow>
              if List.member [''analysis'', ''indexing'', ''research'', ''alignment'', ''evaluation'',
                   ''replay'', ''export'', ''backup'', ''restore'', ''maintenance'', ''delete''] s
              then ''cra.'' @ s else ''cra.maintenance''
          | _ \<Rightarrow> ''cra.maintenance'')
      | _ \<Rightarrow> ''cra.maintenance'')"

text \<open>\<open>publish\<close>: payload, queue, deduplication key and task schema version to a message id.\<close>

type_synonym publisher = "json \<Rightarrow> string \<Rightarrow> string \<Rightarrow> int \<Rightarrow> exn + string"

definition publish_event :: "publisher \<Rightarrow> outbox_event \<Rightarrow> exn + string" where
  "publish_event publish event = publish (o_payload event) (queue_for_event (o_payload event))
     (o_message_deduplication_key event) (o_task_schema_version event)"

text \<open>\<open>except Exception\<close> does not catch a cancellation (a \<open>BaseException\<close>).\<close>

fun dispatch_claims ::
    "publisher \<Rightarrow> (string \<Rightarrow> timestamp) \<Rightarrow> claimed_outbox list \<Rightarrow> cp_db \<Rightarrow> (cp_db, nat) outcome" where
  "dispatch_claims publish clock [] db = (Inr 0, db)"
| "dispatch_claims publish clock (c # cs) db =
     (let event_id = o_outbox_event_id (co_event c); now = clock event_id in
      case publish_event publish (co_event c) of
        Inl CancelledError \<Rightarrow> (Inl CancelledError, db)
      | Inl e \<Rightarrow>
          (case mark_outbox_publish_failed now event_id (co_token c) ''broker_publish_failed'' 5 db of
             (Inl e', db') \<Rightarrow> (Inl e', db')
           | (Inr _, db') \<Rightarrow> dispatch_claims publish clock cs db')
      | Inr message_id \<Rightarrow>
          (case mark_outbox_published now event_id (co_token c) message_id db of
             (Inl e', db') \<Rightarrow> (Inl e', db')
           | (Inr _, db') \<Rightarrow>
               (case dispatch_claims publish clock cs db' of
                  (Inl e', db'') \<Rightarrow> (Inl e', db'')
                | (Inr n, db'') \<Rightarrow> (Inr (n + 1), db''))))"

definition dispatch_once ::
    "publisher \<Rightarrow> (string \<Rightarrow> string) \<Rightarrow> timestamp \<Rightarrow> (string \<Rightarrow> timestamp) \<Rightarrow> string \<Rightarrow> nat \<Rightarrow> cp_db
     \<Rightarrow> (cp_db, nat) outcome" where
  "dispatch_once publish tok now clock dispatcher_id batch_size db =
     (case claim_outbox tok now dispatcher_id batch_size 30 db of
        (Inl e, db') \<Rightarrow> (Inl e, db')
      | (Inr claims, db') \<Rightarrow> dispatch_claims publish clock claims db')"

section \<open>Updating one event\<close>

lemma outbox_row_at_updated:
  assumes "outbox_row_at k db = Some r" and "f r = outbox_row_of e'"
    and "\<And>x. or_outbox_event_id (f x) = or_outbox_event_id x"
  shows "outbox_row_at k' (update_outbox k f db) =
           (if k' = k then Some (outbox_row_of e') else outbox_row_at k' db)"
  using assms by (simp add: outbox_row_at_update_outbox)

lemma db_inv_outbox_row:
  assumes "db_inv db" and "outbox_row_at k db = Some r"
  shows "r = outbox_row_of (or_json r)" "outbox_event_valid (or_json r)"
    "o_outbox_event_id (or_json r) = k" "o_status (or_json r) = or_status r"
proof -
  have "or_outbox_event_id r = k" "r \<in> set (outbox_events db)" using assms(2) outbox_row_at_key by auto
  moreover from this assms(1) have "outbox_row_ok r" by (auto simp: db_inv_def inv_rows_def)
  ultimately show row: "r = outbox_row_of (or_json r)" and "outbox_event_valid (or_json r)"
    and "o_outbox_event_id (or_json r) = k"
    using outbox_row_ok_simps(1) by (auto simp: outbox_row_ok_def)
  show "o_status (or_json r) = or_status r" by (subst row) (simp add: outbox_row_of_def)
qed

lemma db_inv_outbox_at:
  "db_inv db \<Longrightarrow> r \<in> set (outbox_events db) \<Longrightarrow> outbox_row_at (or_outbox_event_id r) db = Some r"
  unfolding outbox_row_at_def by (rule outbox_tbl.get_unique) (auto simp: db_inv_defs)

lemma set_claimed_row_of:
  "set_claimed_row (claimed_event d now l t e) (outbox_row_of e) = outbox_row_of (claimed_event d now l t e)"
  by (simp add: set_claimed_row_def claimed_event_def outbox_row_of_def)

lemma claimed_event_simps [simp]:
  "o_outbox_event_id (claimed_event d now l t e) = o_outbox_event_id e"
  "o_status (claimed_event d now l t e) = OPublishing"
  "o_claim_token_hash (claimed_event d now l t e) = Some (stable_hash t)"
  "o_lease_until (claimed_event d now l t e) = Some l"
  "outbox_event_valid e \<Longrightarrow> outbox_event_valid (claimed_event d now l t e)"
  by (simp_all add: claimed_event_def outbox_event_valid_def)

section \<open>What a claim does\<close>

lemma claim_rows_result:
  assumes "db_inv db" and "\<forall>r \<in> set rows. outbox_row_at (or_outbox_event_id r) db = Some r"
    and "distinct (map or_outbox_event_id rows)"
  shows "\<exists>db'. claim_rows tok d now l rows db =
      Inr (map (\<lambda>r. \<lparr>co_event = claimed_event d now l (tok (or_outbox_event_id r)) (or_json r),
                     co_token = tok (or_outbox_event_id r)\<rparr>) rows, db')
    \<and> db_inv db' \<and> jobs db' = jobs db \<and> job_attempts db' = job_attempts db
    \<and> (\<forall>k. outbox_row_at k db' =
         (if k \<in> or_outbox_event_id ` set rows
          then map_option (\<lambda>r. outbox_row_of (claimed_event d now l (tok k) (or_json r))) (outbox_row_at k db)
          else outbox_row_at k db))"
  using assms
proof (induction rows arbitrary: db)
  case Nil
  then show ?case by simp
next
  case (Cons r rows)
  let ?k = "or_outbox_event_id r"
  let ?e = "claimed_event d now l (tok ?k) (or_json r)"
  let ?db1 = "update_outbox ?k (set_claimed_row ?e) db"
  from Cons.prems(2) have at: "outbox_row_at ?k db = Some r" by simp
  note R = db_inv_outbox_row [OF Cons.prems(1) at]
  have fr: "set_claimed_row ?e r = outbox_row_of ?e"
    using R(1) set_claimed_row_of by metis
  have keys: "\<And>x. or_outbox_event_id (set_claimed_row ?e x) = or_outbox_event_id x"
    "\<And>x. or_attempt_id (set_claimed_row ?e x) = or_attempt_id x" by (simp_all add: set_claimed_row_def)
  have inv1: "db_inv ?db1"
    by (rule db_inv_update_outbox [OF Cons.prems(1) at fr keys]) (use R(2) in simp)
  have at1: "outbox_row_at k ?db1 = (if k = ?k then Some (outbox_row_of ?e) else outbox_row_at k db)" for k
    by (rule outbox_row_at_updated [where r = r]) (use at fr keys in simp_all)
  have other: "\<forall>x \<in> set rows. outbox_row_at (or_outbox_event_id x) ?db1 = Some x"
  proof
    fix x assume x: "x \<in> set rows"
    with Cons.prems(3) have "or_outbox_event_id x \<noteq> ?k" by (auto simp: image_iff)
    with at1 Cons.prems(2) x show "outbox_row_at (or_outbox_event_id x) ?db1 = Some x" by simp
  qed
  from Cons.prems(3) have d: "distinct (map or_outbox_event_id rows)" and
    nr: "?k \<notin> or_outbox_event_id ` set rows" by auto
  from Cons.IH [OF inv1 other d] obtain db' where
    I: "claim_rows tok d now l rows ?db1 =
      Inr (map (\<lambda>r. \<lparr>co_event = claimed_event d now l (tok (or_outbox_event_id r)) (or_json r),
                     co_token = tok (or_outbox_event_id r)\<rparr>) rows, db')"
    "db_inv db'" "jobs db' = jobs db" "job_attempts db' = job_attempts db"
    and at': "\<And>k. outbox_row_at k db' = (if k \<in> or_outbox_event_id ` set rows
          then map_option (\<lambda>r. outbox_row_of (claimed_event d now l (tok k) (or_json r))) (outbox_row_at k ?db1)
          else outbox_row_at k ?db1)" by auto
  have "outbox_row_at k db' = (if k \<in> or_outbox_event_id ` set (r # rows)
          then map_option (\<lambda>r. outbox_row_of (claimed_event d now l (tok k) (or_json r))) (outbox_row_at k db)
          else outbox_row_at k db)" for k
    using at' [of k] at1 [of k] at nr by (cases "k = ?k") simp_all
  then show ?case using I R
    by (intro exI [of _ db']) (simp add: validators Let_def)
qed

lemma due_rows_at:
  assumes "db_inv db"
  shows "\<forall>r \<in> set (due_rows n now db). outbox_row_at (or_outbox_event_id r) db = Some r \<and> outbox_due now r"
    and "distinct (map or_outbox_event_id (due_rows n now db))"
proof -
  show "\<forall>r \<in> set (due_rows n now db). outbox_row_at (or_outbox_event_id r) db = Some r \<and> outbox_due now r"
    using db_inv_outbox_at [OF assms] by (auto simp: due_rows_def dest!: in_set_takeD)
  have "distinct (map or_outbox_event_id (filter (outbox_due now) (outbox_events db)))"
    using assms by (intro distinct_map_filter) (simp add: db_inv_defs)
  then have "distinct (map or_outbox_event_id (sort_key or_created_at
      (filter (outbox_due now) (outbox_events db))))"
    by (simp only: distinct_map distinct_sort set_sort)
  then show "distinct (map or_outbox_event_id (due_rows n now db))"
    by (simp only: due_rows_def take_map [symmetric] distinct_take)
qed

lemma claim_outbox_result:
  assumes "db_inv db"
  obtains db' where "claim_outbox tok now d n ls db =
      (Inr (map (\<lambda>r. \<lparr>co_event = claimed_event d now (now + seconds ls) (tok (or_outbox_event_id r)) (or_json r),
                     co_token = tok (or_outbox_event_id r)\<rparr>) (due_rows n now db)), db')"
    "db_inv db'" "jobs db' = jobs db" "job_attempts db' = job_attempts db"
    "\<And>k. outbox_row_at k db' = (if k \<in> or_outbox_event_id ` set (due_rows n now db)
          then map_option (\<lambda>r. outbox_row_of (claimed_event d now (now + seconds ls) (tok k) (or_json r)))
                 (outbox_row_at k db)
          else outbox_row_at k db)"
proof -
  from due_rows_at [OF assms, of n now]
  have at: "\<forall>r \<in> set (due_rows n now db). outbox_row_at (or_outbox_event_id r) db = Some r" by simp
  from claim_rows_result [OF assms at due_rows_at(2) [OF assms], of tok d now "now + seconds ls"]
  show thesis using that by (auto simp: claim_outbox_def)
qed

section \<open>What an acknowledgement does\<close>

text \<open>One event was replaced by \<open>e\<close>; jobs and attempts are untouched.\<close>

definition outbox_acked :: "string \<Rightarrow> outbox_event \<Rightarrow> cp_db \<Rightarrow> cp_db \<Rightarrow> bool" where
  "outbox_acked k e db db' \<longleftrightarrow> db_inv db' \<and> jobs db' = jobs db \<and> job_attempts db' = job_attempts db
     \<and> job_requests db' = job_requests db
     \<and> (\<forall>k'. outbox_row_at k' db' = (if k' = k then Some (outbox_row_of e) else outbox_row_at k' db))"

lemma outbox_ackedI:
  assumes "db_inv db" and "outbox_row_at k db = Some r" and "f r = outbox_row_of e'"
    "\<And>x. or_outbox_event_id (f x) = or_outbox_event_id x"
    "\<And>x. or_attempt_id (f x) = or_attempt_id x" and "outbox_event_valid e'"
  shows "outbox_acked k e' db (update_outbox k f db)"
  unfolding outbox_acked_def
  using db_inv_update_outbox [OF assms] outbox_row_at_updated [of k db r f e'] assms(2-4) by simp

lemma mark_outbox_published_result:
  assumes inv: "db_inv db"
  shows "mark_outbox_published now k t m db = (Inl e, db') \<Longrightarrow> db' = db"
    and "mark_outbox_published now k t m db = (Inr ev, db') \<Longrightarrow>
      o_status ev = OPublished \<and> o_published_message_id ev = Some m \<and> outbox_acked k ev db db'"
proof -
  show "mark_outbox_published now k t m db = (Inl e, db') \<Longrightarrow> db' = db"
    by (auto simp: mark_outbox_published_def validators Let_def split: option.splits if_splits sum.splits)
  assume ok: "mark_outbox_published now k t m db = (Inr ev, db')"
  then obtain r where r: "outbox_row_at k db = Some r"
    by (auto simp: mark_outbox_published_def split: option.splits)
  note R = db_inv_outbox_row [OF inv r]
  let ?f = "\<lambda>r. r\<lparr>or_status := OPublished, or_claim_token_hash := None, or_lease_owner_hash := None,
    or_lease_until := None, or_json := ev, or_updated_at := now\<rparr>"
  from ok r R(2) have ev: "ev = (or_json r)\<lparr>o_status := OPublished,
                 o_published_message_id := Some m, o_claim_token_hash := None,
                 o_lease_owner_hash := None, o_lease_until := None, o_updated_at := now\<rparr>"
    and db': "db' = update_outbox k ?f db"
    by (auto simp: mark_outbox_published_def validators Let_def split: if_splits)
  have "?f (outbox_row_of (or_json r)) = outbox_row_of ev" by (simp add: ev outbox_row_of_def)
  then have "outbox_acked k ev db db'"
    unfolding db' by (intro outbox_ackedI [OF inv r]) (use R in \<open>simp_all add: ev outbox_event_valid_def\<close>)
  then show "o_status ev = OPublished \<and> o_published_message_id ev = Some m \<and> outbox_acked k ev db db'"
    by (simp add: ev)
qed

lemma mark_outbox_publish_failed_result:
  assumes inv: "db_inv db"
  shows "mark_outbox_publish_failed now k t ec rs db = (Inl e, db') \<Longrightarrow> db' = db"
    and "mark_outbox_publish_failed now k t ec rs db = (Inr ev, db') \<Longrightarrow>
      o_status ev = OPending \<and> o_next_retry_at ev = Some (now + seconds (max 1 rs)) \<and> outbox_acked k ev db db'"
proof -
  show "mark_outbox_publish_failed now k t ec rs db = (Inl e, db') \<Longrightarrow> db' = db"
    by (auto simp: mark_outbox_publish_failed_def validators Let_def split: option.splits if_splits sum.splits)
  assume ok: "mark_outbox_publish_failed now k t ec rs db = (Inr ev, db')"
  then obtain r where r: "outbox_row_at k db = Some r"
    by (auto simp: mark_outbox_publish_failed_def split: option.splits)
  note R = db_inv_outbox_row [OF inv r]
  let ?t = "now + seconds (max 1 rs)"
  let ?f = "\<lambda>r. r\<lparr>or_status := OPending, or_claim_token_hash := None, or_lease_owner_hash := None,
    or_lease_until := None, or_last_publish_error_code := Some ec, or_next_retry_at := Some ?t,
    or_json := ev, or_updated_at := now\<rparr>"
  from ok r R(2) have ev: "ev = (or_json r)\<lparr>o_status := OPending, o_claim_token_hash := None,
                      o_lease_owner_hash := None, o_lease_until := None,
                      o_last_publish_error_code := Some ec,
                      o_next_retry_at := Some ?t, o_updated_at := now\<rparr>"
    and db': "db' = update_outbox k ?f db"
    by (auto simp: mark_outbox_publish_failed_def validators Let_def split: if_splits)
  have "?f (outbox_row_of (or_json r)) = outbox_row_of ev" by (simp add: ev outbox_row_of_def)
  then have "outbox_acked k ev db db'"
    unfolding db' by (intro outbox_ackedI [OF inv r]) (use R in \<open>simp_all add: ev outbox_event_valid_def\<close>)
  then show "o_status ev = OPending \<and> o_next_retry_at ev = Some ?t \<and> outbox_acked k ev db db'"
    by (simp add: ev)
qed

lemma mark_outbox_consumed_local_result:
  assumes inv: "db_inv db"
  shows "mark_outbox_consumed_local now k db = (Inl e, db') \<Longrightarrow> db' = db"
    and "mark_outbox_consumed_local now k db = (Inr ev, db') \<Longrightarrow>
      o_status ev = OPublished \<and> (db' = db \<or> outbox_acked k ev db db')"
proof -
  show "mark_outbox_consumed_local now k db = (Inl e, db') \<Longrightarrow> db' = db"
    by (auto simp: mark_outbox_consumed_local_def validators Let_def split: option.splits if_splits sum.splits)
  assume ok: "mark_outbox_consumed_local now k db = (Inr ev, db')"
  then obtain r where r: "outbox_row_at k db = Some r"
    by (auto simp: mark_outbox_consumed_local_def split: option.splits)
  note R = db_inv_outbox_row [OF inv r]
  show "o_status ev = OPublished \<and> (db' = db \<or> outbox_acked k ev db db')"
  proof (cases "o_status (or_json r) = OPublished")
    case True
    with ok r R(2) show ?thesis by (auto simp: mark_outbox_consumed_local_def validators)
  next
    case False
    let ?f = "\<lambda>r. r\<lparr>or_status := OPublished, or_json := ev, or_updated_at := now\<rparr>"
    from False ok r R(2) have ev: "ev = (or_json r)\<lparr>o_status := OPublished,
        o_published_message_id := Some (''local:'' @ o_message_deduplication_key (or_json r)),
        o_updated_at := now\<rparr>" and db': "db' = update_outbox k ?f db"
      by (auto simp: mark_outbox_consumed_local_def validators Let_def split: if_splits)
    have "?f (outbox_row_of (or_json r)) = outbox_row_of ev" by (simp add: ev outbox_row_of_def)
    then have "outbox_acked k ev db db'"
      unfolding db' by (intro outbox_ackedI [OF inv r]) (use R in \<open>simp_all add: ev outbox_event_valid_def\<close>)
    then show ?thesis by (simp add: ev)
  qed
qed

lemma db_inv_claim_outbox: "db_inv db \<Longrightarrow> db_inv (snd (claim_outbox tok now d n ls db))"
  by (rule claim_outbox_result [of db tok now d n ls]) simp_all

lemma db_inv_mark_outbox_published:
  "db_inv db \<Longrightarrow> db_inv (snd (mark_outbox_published now k t m db))"
  by (cases "mark_outbox_published now k t m db"; cases "fst (mark_outbox_published now k t m db)")
    (auto dest: mark_outbox_published_result simp: outbox_acked_def)

lemma db_inv_mark_outbox_publish_failed:
  "db_inv db \<Longrightarrow> db_inv (snd (mark_outbox_publish_failed now k t ec rs db))"
  by (cases "mark_outbox_publish_failed now k t ec rs db";
      cases "fst (mark_outbox_publish_failed now k t ec rs db)")
    (auto dest: mark_outbox_publish_failed_result simp: outbox_acked_def)

lemma db_inv_mark_outbox_consumed_local:
  assumes inv: "db_inv db"
  shows "db_inv (snd (mark_outbox_consumed_local now k db))"
proof (cases "mark_outbox_consumed_local now k db")
  case (Pair res db')
  show ?thesis
  proof (cases res)
    case (Inl e)
    with mark_outbox_consumed_local_result(1) [OF inv] Pair inv show ?thesis by auto
  next
    case (Inr ev)
    with mark_outbox_consumed_local_result(2) [OF inv] Pair inv show ?thesis
      by (auto simp: outbox_acked_def)
  qed
qed

end
