(* ===== verification/Cp_Reach.thy ===== *)
theory Cp_Reach
  imports Cp_Outbox
begin

text \<open>
  The control-plane store as a machine: any list of calls of its public operations, whatever
  their arguments and whoever makes them (workers, a cancelling user, the dispatcher, a
  restart).  Every run keeps the invariant of \<open>Cp_Job_Inv\<close>, and a job only moves forward.
\<close>

datatype store_op =
    CreateJob nonces timestamp new_job
  | TransitionAttempt timestamp string string attempt_status "string option" "string option"
  | HeartbeatAttempt timestamp string string
  | TransitionJob timestamp string job_status "string option" "int option"
  | CompleteAttempt timestamp string string attempt_status "string option" "string list"
  | CreateRetryAttempt nonces timestamp string
  | CreateManualRetry nonces timestamp string string
  | RequestCancel timestamp string
  | RecoverIncompleteJobs "string \<Rightarrow> nonces" timestamp
  | ClaimOutbox "string \<Rightarrow> string" timestamp string nat int
  | MarkOutboxPublished timestamp string string string
  | MarkOutboxPublishFailed timestamp string string string int
  | MarkOutboxConsumedLocal timestamp string

fun run_op :: "store_op \<Rightarrow> cp_db \<Rightarrow> cp_db" where
  "run_op (CreateJob u now nj) db = snd (create_job u now nj db)"
| "run_op (TransitionAttempt now k tok st w c) db = snd (transition_attempt now k tok st w c db)"
| "run_op (HeartbeatAttempt now k tok) db = snd (heartbeat_attempt now k tok db)"
| "run_op (TransitionJob now k st ec rv) db = snd (transition_job now k st ec rv db)"
| "run_op (CompleteAttempt now k tok st ec refs) db = snd (complete_attempt now k tok st ec refs db)"
| "run_op (CreateRetryAttempt u now k) db = snd (create_retry_attempt u now k db)"
| "run_op (CreateManualRetry u now k actor) db = snd (create_manual_retry u now k actor db)"
| "run_op (RequestCancel now k) db = snd (request_cancel now k db)"
| "run_op (RecoverIncompleteJobs us now) db = snd (recover_incomplete_jobs us now db)"
| "run_op (ClaimOutbox tok now d n ls) db = snd (claim_outbox tok now d n ls db)"
| "run_op (MarkOutboxPublished now k tok m) db = snd (mark_outbox_published now k tok m db)"
| "run_op (MarkOutboxPublishFailed now k tok ec rs) db =
     snd (mark_outbox_publish_failed now k tok ec rs db)"
| "run_op (MarkOutboxConsumedLocal now k) db = snd (mark_outbox_consumed_local now k db)"

text \<open>
  What the callers under \<open>src/\<close> guarantee: a request is a \<open>dict\<close> (the annotation of
  \<open>create_job\<close>), and \<open>transition_job\<close> is only called with DISPATCHING, DISPATCHED and
  RUNNING (a job is ended through \<open>complete_attempt\<close>, which ends the attempt with it).
\<close>

fun op_allowed :: "store_op \<Rightarrow> bool" where
  "op_allowed (CreateJob u now nj) = (case nj_request nj of JObj _ \<Rightarrow> True | _ \<Rightarrow> False)"
| "op_allowed (TransitionJob now k st ec rv) = job_executing st"
| "op_allowed _ = True"

lemma db_inv_run_op: "db_inv db \<Longrightarrow> op_allowed op \<Longrightarrow> db_inv (run_op op db)"
  by (cases op)
    (auto intro: db_inv_create_job db_inv_transition_attempt db_inv_heartbeat_attempt
      db_inv_transition_job db_inv_complete_attempt db_inv_create_retry_attempt
      db_inv_create_manual_retry db_inv_request_cancel db_inv_recover db_inv_claim_outbox
      db_inv_mark_outbox_published db_inv_mark_outbox_publish_failed
      db_inv_mark_outbox_consumed_local split: json.splits)

section \<open>Jobs only move forward\<close>

text \<open>One call leaves a job alone or, if it has not ended, rewrites it under the next revision;
  its identity, request and limits never change.\<close>

definition job_advanced :: "job_row \<Rightarrow> job_row \<Rightarrow> bool" where
  "job_advanced r r' \<longleftrightarrow> r' = r \<or>
     \<not> job_terminal (jr_status r) \<and> same_job (jr_json r) (jr_json r') \<and>
     j_revision (jr_json r') = j_revision (jr_json r) + 1 \<and>
     (jr_current_attempt_number r' = jr_current_attempt_number r \<or>
      jr_current_attempt_number r' = jr_current_attempt_number r + 1)"

definition jobs_advanced :: "cp_db \<Rightarrow> cp_db \<Rightarrow> bool" where
  "jobs_advanced db db' \<longleftrightarrow> (\<forall>k r. job_row_at k db = Some r \<longrightarrow>
     (\<exists>r'. job_row_at k db' = Some r' \<and> job_advanced r r'))"

lemma jobs_advanced_refl [simp]: "jobs_advanced db db"
  by (simp add: jobs_advanced_def job_advanced_def)

lemma jobs_advanced_same: "jobs db' = jobs db \<Longrightarrow> jobs_advanced db db'"
  by (simp add: jobs_advanced_def job_advanced_def job_row_at_def)

lemma jobs_advanced_at:
  assumes "job_row_at k db = Some r"
    and "\<And>k'. job_row_at k' db' = (if k' = k then Some (job_row_of j') else job_row_at k' db)"
    and "job_row_ok r" "\<not> job_terminal (jr_status r)" "same_job (jr_json r) j'"
    "j_revision j' = j_revision (jr_json r) + 1"
    "j_current_attempt_number j' = jr_current_attempt_number r \<or>
     j_current_attempt_number j' = jr_current_attempt_number r + 1"
  shows "jobs_advanced db db'"
  using assms by (auto simp: jobs_advanced_def job_advanced_def)

lemma jobs_advanced_update_job:
  assumes inv: "db_inv db" and j: "get_job k db = Inr job" and "\<not> job_terminal (j_status job)"
    "same_job job j'" "j_revision j' = j_revision job + 1"
    "j_current_attempt_number j' = j_current_attempt_number job"
  shows "jobs_advanced db (update_job j' db)"
proof -
  obtain r where r: "job_row_at k db = Some r" "jr_json r = job" "jr_status r = j_status job"
    "jr_current_attempt_number r = j_current_attempt_number job"
    using inv j by (rule db_inv_get_job_row)
  have ir: "inv_rows db" using inv by (simp add: db_inv_def)
  show ?thesis
    by (rule jobs_advanced_at [OF r(1), of _ j'])
      (use assms r job_row_at_updated [OF ir r(1), of j'] db_inv_job_row [OF inv r(1)] in simp_all)
qed

lemma jobs_advanced_start_attempt:
  assumes inv: "db_inv db" and j: "get_job k db = Inr job" and "\<not> job_terminal (j_status job)"
    and same: "same_job job j'" and "j_revision j' = j_revision job + 1"
    "j_current_attempt_number j' = j_current_attempt_number job + 1"
    and v: "job_attempt_valid att" "outbox_event_valid ev"
    and st: "start_attempt j' att ev db = Some db'"
  shows "jobs_advanced db db'"
proof -
  obtain r where r: "job_row_at k db = Some r" "jr_json r = job" "jr_status r = j_status job"
    "jr_current_attempt_number r = j_current_attempt_number job"
    using inv j by (rule db_inv_get_job_row)
  note sd = start_attempt_SomeD [OF st]
  let ?db = "db\<lparr>job_attempts := job_attempts db @ [attempt_row_of att],
            outbox_events := outbox_events db @ [outbox_row_of ev]\<rparr>"
  have ir: "inv_rows ?db"
    using inv v sd by (auto simp: db_inv_def inv_rows_def attempt_row_ok_def outbox_row_ok_def)
  have r': "job_row_at k ?db = Some r" using r(1) by simp
  have at: "job_row_at k' db' = (if k' = k then Some (job_row_of j') else job_row_at k' db)" for k'
    using job_row_at_updated [OF ir r', of j'] same r(2) sd(1) by simp
  show ?thesis
    by (rule jobs_advanced_at [OF r(1) at]) (use assms r db_inv_job_row [OF inv r(1)] in simp_all)
qed

lemma jobs_advanced_create_job: "jobs_advanced db (snd (create_job u now nj db))"
proof -
  have "jobs_advanced db db'" if "insert_new_job u now nj job att ev db = Some db'" for db' job att ev
  proof -
    note d = insert_new_job_SomeD [OF that]
    show ?thesis
      by (auto simp: jobs_advanced_def job_advanced_def job_row_at_def d(1) find_by_append
          split: option.splits)
  qed
  then show ?thesis
    by (auto simp: create_job_def Let_def split: option.split sum.split)
qed

lemma jobs_advanced_transition_job:
  assumes "db_inv db"
  shows "jobs_advanced db (snd (transition_job now k st ec rv db))"
  using jobs_advanced_update_job [OF assms]
  by (auto simp: transition_job_def validators Let_def same_job_def split: sum.split option.split)

text \<open>A result is only accepted for a live attempt, so for the current attempt of a job that is
  executing.\<close>

lemma complete_attempt_live:
  assumes inv: "db_inv db" and att: "get_attempt k db = Inr att" and job: "get_job (a_job_id att) db = Inr job"
    and st: "complete_allowed st" "st \<in> set (ATTEMPT_TRANSITIONS (a_status att)) \<or> a_status att = ACreated"
  shows "attempt_live (a_status att)" "job_executing (j_status job)"
    "j_current_attempt_number job = a_attempt_number att"
proof -
  show live: "attempt_live (a_status att)"
    using st(2) by (auto dest: attempt_transition_live simp: attempt_live_iff)
  from att obtain ra where ra: "attempt_row_at k db = Some ra" "ar_json ra = att" by (rule get_attempt_Inr)
  then have a: "ra \<in> set (job_attempts db)" using attempt_row_at_key by blast
  note as = attempt_row_ok_simps [OF db_inv_attempt_row [OF inv ra(1)]]
  obtain r where r: "job_row_at (a_job_id att) db = Some r" "jr_status r = j_status job"
    "jr_current_attempt_number r = j_current_attempt_number job"
    using inv job by (rule db_inv_get_job_row)
  obtain jr where "job_row_at (ar_job_id ra) db = Some jr" "attempt_fits ra jr"
    using inv a by (rule db_inv_fits)
  then show "job_executing (j_status job)" "j_current_attempt_number job = a_attempt_number att"
    using live r ra(2) as by (auto simp: attempt_fits_def)
qed

lemma jobs_advanced_complete_attempt:
  assumes inv: "db_inv db"
  shows "jobs_advanced db (snd (complete_attempt now k tok st ec refs db))"
proof (cases "complete_attempt now k tok st ec refs db")
  case (Pair res db')
  show ?thesis
  proof (cases res)
    case (Inl e)
    with Pair show ?thesis using complete_attempt_Inl by fastforce
  next
    case (Inr p)
    obtain att' job' where p: "p = (att', job')" by (cases p)
    with Pair Inr obtain att job where
      g: "get_attempt k db = Inr att" "get_job (a_job_id att) db = Inr job"
      and st: "complete_allowed st" "st \<in> set (ATTEMPT_TRANSITIONS (a_status att)) \<or> a_status att = ACreated"
      and job': "same_job job job'" "j_revision job' = j_revision job + 1"
        "j_current_attempt_number job' = j_current_attempt_number job"
      and db': "db' = update_job job' (update_attempt att' db)"
      by (auto elim!: complete_attempt_Inr)
    have "\<not> job_terminal (j_status job)"
      using complete_attempt_live(2) [OF inv g st] unfolding job_executing_def by (rule conjunct1)
    then have "jobs_advanced db (update_job job' db)"
      by (rule jobs_advanced_update_job [OF inv g(2)]) (use job' in simp_all)
    then show ?thesis using Pair db' by (simp add: jobs_advanced_def job_row_at_def update_job_def)
  qed
qed

lemma jobs_advanced_request_cancel:
  assumes "db_inv db"
  shows "jobs_advanced db (snd (request_cancel now k db))"
  using jobs_advanced_update_job [OF assms]
  by (auto simp: request_cancel_def validators same_job_def split: sum.split)

lemma jobs_advanced_create_retry_attempt:
  assumes inv: "db_inv db"
  shows "jobs_advanced db (snd (create_retry_attempt u now k db))"
proof (cases "get_job k db")
  case (Inl e)
  then show ?thesis by (simp add: create_retry_attempt_def)
next
  case (Inr job)
  show ?thesis
  proof (cases "j_status job = JRetryWait")
    case False
    then show ?thesis using Inr by (simp add: create_retry_attempt_def)
  next
    case True
    then have nt: "\<not> job_terminal (j_status job)" by simp
    let ?dead = "job\<lparr>j_status := JDead, j_finished_at := Some now,
                  j_updated_at := now, j_revision := j_revision job + 1\<rparr>"
    have "jobs_advanced db (update_job ?dead db)"
      by (rule jobs_advanced_update_job [OF inv Inr nt]) (simp_all add: same_job_def)
    moreover have "jobs_advanced db db'"
      if "job_attempt_valid (new_attempt u now k (j_current_attempt_number job + 1))"
        "outbox_event_valid ev"
        "start_attempt (job\<lparr>j_status := JQueued,
           j_current_attempt_number := a_attempt_number (new_attempt u now k (j_current_attempt_number job + 1)),
           j_retryable := False, j_error_code := None, j_updated_at := now,
           j_revision := j_revision job + 1\<rparr>)
          (new_attempt u now k (j_current_attempt_number job + 1)) ev db = Some db'" for ev db'
      by (rule jobs_advanced_start_attempt [OF inv Inr nt _ _ _ that])
        (simp_all add: same_job_def new_attempt_def)
    ultimately show ?thesis using Inr True
      by (auto simp: create_retry_attempt_def validators split: sum.split option.split)
  qed
qed

lemma jobs_advanced_create_manual_retry: "jobs_advanced db (snd (create_manual_retry u now k actor db))"
  by (auto simp: create_manual_retry_def jobs_advanced_create_job split: sum.split)

lemma jobs_advanced_recover:
  assumes inv: "db_inv db"
  shows "jobs_advanced db (snd (recover_incomplete_jobs us now db))"
proof (cases "recover_incomplete_jobs us now db")
  case (Pair res db')
  show ?thesis
  proof (cases res)
    case (Inl e)
    with Pair show ?thesis by (auto simp: recover_incomplete_jobs_def split: sum.splits)
  next
    case (Inr cs)
    with Pair have rec: "recover_incomplete_jobs us now db = (Inr cs, db')" by simp
    have "\<exists>r'. job_row_at k db' = Some r' \<and> job_advanced r r'" if r: "job_row_at k db = Some r" for k r
    proof (cases "job_terminal (jr_status r)")
      case True
      then have "job_row_at k db' = Some r"
        using recover_incomplete_jobs_result(2) [OF inv rec r] by (simp only: if_True)
      then show ?thesis by (simp add: job_advanced_def)
    next
      case False
      then obtain j' where "recovered_job (jr_json r) j'" "job_row_at k db' = Some (job_row_of j')"
        using recover_incomplete_jobs_result(2) [OF inv rec r] by (auto simp only: if_False)
      moreover have "j_current_attempt_number (jr_json r) = jr_current_attempt_number r"
        using job_row_ok_simps(3) db_inv_job_row [OF inv r] by blast
      ultimately show ?thesis using False
        by (auto simp: job_advanced_def recovered_job_def split: if_splits)
    qed
    with Pair show ?thesis by (simp add: jobs_advanced_def)
  qed
qed

lemma transition_attempt_jobs: "jobs (snd (transition_attempt now k tok st w c db)) = jobs db"
  by (auto simp: transition_attempt_def validators Let_def split: sum.split)

lemma heartbeat_attempt_jobs: "jobs (snd (heartbeat_attempt now k tok db)) = jobs db"
  by (auto simp: heartbeat_attempt_def Let_def split: sum.split)

lemma mark_outbox_jobs:
  "jobs (snd (mark_outbox_published now k tok m db)) = jobs db"
  "jobs (snd (mark_outbox_publish_failed now k tok ec rs db)) = jobs db"
  "jobs (snd (mark_outbox_consumed_local now k db)) = jobs db"
  by (auto simp: mark_outbox_published_def mark_outbox_publish_failed_def
      mark_outbox_consumed_local_def validators Let_def split: option.split sum.split)

lemma claim_outbox_jobs: "db_inv db \<Longrightarrow> jobs (snd (claim_outbox tok now d n ls db)) = jobs db"
  by (rule claim_outbox_result [of db tok now d n ls]) simp_all

lemma jobs_advanced_run_op: "db_inv db \<Longrightarrow> jobs_advanced db (run_op op db)"
  by (cases op)
    (simp_all add: jobs_advanced_create_job jobs_advanced_transition_job
      jobs_advanced_complete_attempt jobs_advanced_request_cancel jobs_advanced_create_retry_attempt
      jobs_advanced_create_manual_retry jobs_advanced_recover jobs_advanced_same
      transition_attempt_jobs heartbeat_attempt_jobs mark_outbox_jobs claim_outbox_jobs)

section \<open>Attempts only move forward; jobs and their keys are only added\<close>

text \<open>An attempt keeps its identity and token; one that is over stays as it is, and one that runs
  can only end.\<close>


definition attempt_later :: "attempt_row \<Rightarrow> attempt_row \<Rightarrow> bool" where
  "attempt_later a a' \<longleftrightarrow> same_attempt (ar_json a) (ar_json a') \<and>
     (\<not> attempt_live (ar_status a) \<longrightarrow> a' = a) \<and>
     (ar_status a = ARunning \<longrightarrow> ar_status a' = ARunning \<or> \<not> attempt_live (ar_status a'))"

definition attempts_later :: "cp_db \<Rightarrow> cp_db \<Rightarrow> bool" where
  "attempts_later db db' \<longleftrightarrow> (\<forall>k a. attempt_row_at k db = Some a \<longrightarrow>
     (\<exists>a'. attempt_row_at k db' = Some a' \<and> attempt_later a a'))"

definition job_keys :: "cp_db \<Rightarrow> (string \<times> string \<times> string \<times> string) list" where
  "job_keys db = map (\<lambda>r. (jr_workspace_id r, jr_idempotency_key_hash r, jr_job_id r, jr_request_hash r))
     (jobs db)"

definition keys_added :: "cp_db \<Rightarrow> cp_db \<Rightarrow> bool" where
  "keys_added db db' \<longleftrightarrow> (\<exists>ks. job_keys db' = job_keys db @ ks)"

text \<open>Both are preorders.\<close>

definition store_grows :: "cp_db \<Rightarrow> cp_db \<Rightarrow> bool" where
  "store_grows db db' \<longleftrightarrow> attempts_later db db' \<and> keys_added db db'"

lemma same_attempt_refl [simp]: "same_attempt a a"
  by (simp add: same_attempt_def)

lemma same_attempt_trans: "same_attempt a b \<Longrightarrow> same_attempt b c \<Longrightarrow> same_attempt a c"
  by (simp add: same_attempt_def)

lemma attempt_later_refl [simp]: "attempt_later a a"
  by (simp add: attempt_later_def)

lemma attempt_later_trans: "attempt_later a b \<Longrightarrow> attempt_later b c \<Longrightarrow> attempt_later a c"
  unfolding attempt_later_def using same_attempt_trans by blast

lemma store_grows_refl [simp]: "store_grows db db"
  by (simp add: store_grows_def attempts_later_def keys_added_def)

lemma attempts_later_trans: "attempts_later s t \<Longrightarrow> attempts_later t u \<Longrightarrow> attempts_later s u"
  unfolding attempts_later_def by (meson attempt_later_trans)

lemma store_grows_trans:
  assumes "store_grows s t" "store_grows t u"
  shows "store_grows s u"
proof -
  have "attempts_later s u" using assms attempts_later_trans by (simp add: store_grows_def) blast
  moreover have "keys_added s u" using assms by (auto simp: store_grows_def keys_added_def)
  ultimately show ?thesis by (simp add: store_grows_def)
qed

lemma store_grows_same:
  "jobs db' = jobs db \<Longrightarrow> job_attempts db' = job_attempts db \<Longrightarrow> store_grows db db'"
  by (simp add: store_grows_def attempts_later_def keys_added_def job_keys_def attempt_row_at_def)

lemma job_keys_update_job [simp]: "job_keys (update_job j db) = job_keys db"
  unfolding job_keys_def update_job_def
  by (simp add: map_key_update_by set_job_row_def)

lemma job_keys_update_attempt [simp]: "job_keys (update_attempt a db) = job_keys db"
  by (simp add: job_keys_def)

lemma store_grows_update_job [simp]: "store_grows db (update_job j db)"
  by (simp add: store_grows_def attempts_later_def keys_added_def)

lemma store_grows_update_attempt:
  assumes inv: "db_inv db" and att: "get_attempt k db = Inr att" and live: "attempt_live (a_status att)"
    and same: "same_attempt att att'"
    and run: "a_status att = ARunning \<Longrightarrow> a_status att' = ARunning \<or> \<not> attempt_live (a_status att')"
  shows "store_grows db (update_attempt att' db)"
proof -
  from att obtain r where r: "attempt_row_at k db = Some r" "ar_json r = att" by (rule get_attempt_Inr)
  have ir: "inv_rows db" using inv by (simp add: db_inv_def)
  have "ar_status r = a_status att"
    using attempt_row_ok_simps(4) [OF db_inv_attempt_row [OF inv r(1)]] r(2) by simp
  with live same run r have "attempt_later r (attempt_row_of att')" by (simp add: attempt_later_def)
  with same r attempt_row_at_updated [OF ir r(1), of att'] show ?thesis
    by (auto simp: store_grows_def attempts_later_def keys_added_def)
qed

lemma store_grows_add_attempt:
  assumes "job_attempts db' = job_attempts db @ as" and "keys_added db db'"
  shows "store_grows db db'"
  using assms by (auto simp: store_grows_def attempts_later_def attempt_row_at_def find_by_append)

lemma store_grows_start_attempt:
  assumes "start_attempt j att ev db = Some db'"
  shows "store_grows db db'"
proof (rule store_grows_add_attempt)
  show "job_attempts db' = job_attempts db @ [attempt_row_of att]"
    using start_attempt_SomeD(1) [OF assms] by simp
  show "keys_added db db'"
    using start_attempt_SomeD(1) [OF assms] by (simp add: keys_added_def) (simp add: job_keys_def)
qed

lemma store_grows_insert_new_job:
  assumes "insert_new_job u now nj job att ev db = Some db'"
  shows "store_grows db db'"
proof (rule store_grows_add_attempt)
  note d = insert_new_job_SomeD [OF assms]
  show "job_attempts db' = job_attempts db @ [attempt_row_of att]" by (rule d(2))
  show "keys_added db db'" using d(1) by (simp add: keys_added_def job_keys_def)
qed

lemma store_grows_create_job: "store_grows db (snd (create_job u now nj db))"
  by (auto simp: create_job_def Let_def store_grows_insert_new_job split: option.split sum.split)

lemma store_grows_transition_attempt:
  assumes inv: "db_inv db"
  shows "store_grows db (snd (transition_attempt now k tok st w c db))"
proof (cases "transition_attempt now k tok st w c db")
  case (Pair res db')
  show ?thesis
  proof (cases res)
    case (Inl e)
    with Pair show ?thesis
      by (auto simp: transition_attempt_def validators Let_def split: sum.splits if_splits)
  next
    case (Inr upd)
    with Pair obtain att where att: "get_attempt k db = Inr att"
      and tr: "st \<in> set (ATTEMPT_TRANSITIONS (a_status att))"
      and upd: "same_attempt att upd" "a_status upd = st" and db': "db' = update_attempt upd db"
      by (auto simp: transition_attempt_def validators Let_def same_attempt_def
          split: sum.splits if_splits)
    have "\<not> attempt_live st" if "a_status att = ARunning"
      using tr that by (auto simp: attempt_live_iff)
    then show ?thesis using store_grows_update_attempt [OF inv att _ upd(1)] Pair db' upd(2)
      attempt_transition_live [OF tr] by auto
  qed
qed

lemma store_grows_heartbeat_attempt:
  assumes inv: "db_inv db"
  shows "store_grows db (snd (heartbeat_attempt now k tok db))"
  using store_grows_update_attempt [OF inv]
  by (auto simp: heartbeat_attempt_def Let_def same_attempt_def attempt_live_iff split: sum.split)

lemma store_grows_complete_attempt:
  assumes inv: "db_inv db"
  shows "store_grows db (snd (complete_attempt now k tok st ec refs db))"
proof (cases "complete_attempt now k tok st ec refs db")
  case (Pair res db')
  show ?thesis
  proof (cases res)
    case (Inl e)
    with Pair show ?thesis using complete_attempt_Inl by fastforce
  next
    case (Inr p)
    obtain att' job' where p: "p = (att', job')" by (cases p)
    with Pair Inr obtain att job where
      g: "get_attempt k db = Inr att" "get_job (a_job_id att) db = Inr job"
      and st: "complete_allowed st" "st \<in> set (ATTEMPT_TRANSITIONS (a_status att)) \<or> a_status att = ACreated"
      and same: "same_attempt att att'" "a_status att' = st"
      and db': "db' = update_job job' (update_attempt att' db)"
      by (auto elim!: complete_attempt_Inr)
    have "store_grows db (update_attempt att' db)"
      by (rule store_grows_update_attempt [OF inv g(1) complete_attempt_live(1) [OF inv g st] same(1)])
        (use same(2) complete_allowed_not_live [OF st(1)] in simp)
    then show ?thesis using Pair db' store_grows_trans store_grows_update_job by simp
  qed
qed

lemma store_grows_create_retry_attempt: "store_grows db (snd (create_retry_attempt u now k db))"
  by (auto simp: create_retry_attempt_def validators store_grows_start_attempt split: option.split sum.split)

lemma store_grows_recover_row:
  assumes inv: "db_inv db" and rec: "recover_row u now r db = Inr (c, db')"
  shows "store_grows db db'"
proof -
  from rec obtain job att db2 where att: "get_attempt_in (j_job_id job) (j_current_attempt_number job) db = Inr att"
    and f: "recover_fail_outbox now (a_attempt_id att) (recover_close_attempt now att db) = Inr db2"
    and j: "recover_job u now job db2 = Inr (c, db')"
    by (auto simp: recover_row_def split: sum.splits)
  from att obtain a where a: "a \<in> set (job_attempts db)" "ar_json a = att"
    by (auto simp: get_attempt_in_def find_attempt_number_def validators
        split: option.splits if_splits dest!: find_by_SomeD)
  have "get_attempt (ar_attempt_id a) db = Inr att"
    using db_inv_attempt_at [OF inv a(1)] db_inv_attempt_row [OF inv] a(2)
    by (fastforce simp: get_attempt_def validators attempt_row_ok_def)
  then have g1: "store_grows db (recover_close_attempt now att db)"
    using store_grows_update_attempt [OF inv]
    by (auto simp: recover_close_attempt_def same_attempt_def attempt_live_iff)
  have g2: "store_grows (recover_close_attempt now att db) db2"
    using recover_fail_outbox_inv [OF recover_close_attempt_inv(1) [OF inv a(1)], of now] f a(2)
    by (intro store_grows_same) auto
  have "store_grows db2 db'"
    using j by (auto simp: recover_job_def validators Let_def store_grows_start_attempt
        split: sum.splits option.splits if_splits)
  then show ?thesis using g1 g2 store_grows_trans by blast
qed

lemma store_grows_recover_rows:
  assumes "db_inv db" and "\<forall>r \<in> set rows. job_row_at (jr_job_id r) db = Some r \<and> \<not> job_terminal (jr_status r)"
    and "distinct (map jr_job_id rows)" and "recover_rows us now rows db = Inr (cs, db')"
  shows "store_grows db db'"
  using assms
proof (induction rows arbitrary: db cs)
  case Nil
  then show ?case by simp
next
  case (Cons r rows)
  from Cons.prems(4) obtain c db1 cs' where
    1: "recover_row (us (jr_job_id r)) now r db = Inr (c, db1)" and
    2: "recover_rows us now rows db1 = Inr (cs', db')"
    by (auto split: sum.splits)
  note next_row = recover_rows_next [OF Cons.prems(1-3) 1]
  have "store_grows db1 db'" by (rule Cons.IH [OF next_row 2])
  with store_grows_recover_row [OF Cons.prems(1) 1] show ?case by (rule store_grows_trans)
qed

lemma store_grows_recover:
  assumes inv: "db_inv db"
  shows "store_grows db (snd (recover_incomplete_jobs us now db))"
  using store_grows_recover_rows [OF inv incomplete_rows_at [OF inv]]
  by (auto simp: recover_incomplete_jobs_def split: sum.split)

lemma mark_outbox_attempts:
  "job_attempts (snd (mark_outbox_published now k tok m db)) = job_attempts db"
  "job_attempts (snd (mark_outbox_publish_failed now k tok ec rs db)) = job_attempts db"
  "job_attempts (snd (mark_outbox_consumed_local now k db)) = job_attempts db"
  by (auto simp: mark_outbox_published_def mark_outbox_publish_failed_def
      mark_outbox_consumed_local_def validators Let_def split: option.split sum.split)

lemma claim_outbox_attempts:
  "db_inv db \<Longrightarrow> job_attempts (snd (claim_outbox tok now d n ls db)) = job_attempts db"
  by (rule claim_outbox_result [of db tok now d n ls]) simp_all

lemma store_grows_run_op:
  assumes inv: "db_inv db"
  shows "store_grows db (run_op op db)"
proof (cases op)
  case (TransitionJob now k st ec rv)
  then show ?thesis
    by (auto simp: transition_job_def validators Let_def split: sum.split)
next
  case (CreateManualRetry u now k actor)
  then show ?thesis by (auto simp: create_manual_retry_def store_grows_create_job split: sum.split)
next
  case (RequestCancel now k)
  then show ?thesis by (auto simp: request_cancel_def validators split: sum.split)
qed (simp_all add: inv store_grows_create_job store_grows_transition_attempt
    store_grows_heartbeat_attempt store_grows_complete_attempt store_grows_create_retry_attempt
    store_grows_recover store_grows_same mark_outbox_jobs mark_outbox_attempts claim_outbox_jobs
    claim_outbox_attempts)

section \<open>Runs\<close>

definition job_later :: "job_row \<Rightarrow> job_row \<Rightarrow> bool" where
  "job_later r r' \<longleftrightarrow> r' = r \<or>
     \<not> job_terminal (jr_status r) \<and> same_job (jr_json r) (jr_json r') \<and>
     j_revision (jr_json r) < j_revision (jr_json r') \<and>
     jr_current_attempt_number r \<le> jr_current_attempt_number r'"

definition jobs_later :: "cp_db \<Rightarrow> cp_db \<Rightarrow> bool" where
  "jobs_later db db' \<longleftrightarrow> store_grows db db' \<and> (\<forall>k r. job_row_at k db = Some r \<longrightarrow>
     (\<exists>r'. job_row_at k db' = Some r' \<and> job_later r r'))"

lemma job_later_trans: "job_later r s \<Longrightarrow> job_later s t \<Longrightarrow> job_later r t"
  by (auto simp: job_later_def same_job_def)

interpretation store: machine run_op op_allowed db_inv jobs_later
proof
  fix db op
  assume "db_inv db" "op_allowed op"
  then show "db_inv (run_op op db)" by (rule db_inv_run_op)
  have "jobs_advanced db (run_op op db)" using \<open>db_inv db\<close> by (rule jobs_advanced_run_op)
  then have "\<forall>k r. job_row_at k db = Some r \<longrightarrow>
     (\<exists>r'. job_row_at k (run_op op db) = Some r' \<and> job_later r r')"
    by (fastforce simp: jobs_advanced_def job_advanced_def job_later_def)
  then show "jobs_later db (run_op op db)"
    using store_grows_run_op [OF \<open>db_inv db\<close>] by (simp add: jobs_later_def)
next
  fix s t u
  assume "jobs_later s t" "jobs_later t u"
  then show "jobs_later s u" unfolding jobs_later_def by (meson job_later_trans store_grows_trans)
qed (simp add: jobs_later_def job_later_def)

end
