(* ===== verification/Cp_Recovery.thy ===== *)
theory Cp_Recovery
  imports Cp_Reach
begin

text \<open>
  \<open>recover_incomplete_jobs\<close> does not fail: from a store that satisfies the invariant, and when the
  identifiers it draws are new, every open job is recovered.  (A failure would keep the whole
  application from starting.)
\<close>

section \<open>Fresh identifiers\<close>

text \<open>The rows that recovery queues again; it draws identifiers for these only.\<close>

definition recovery_requeues :: "job_row \<Rightarrow> bool" where
  "recovery_requeues r \<longleftrightarrow> j_status (jr_json r) \<noteq> JCancelling \<and>
     j_current_attempt_number (jr_json r) < j_max_attempts (jr_json r)"

text \<open>The key of the message that recovery would send for a row.\<close>

definition recovery_key :: "job_row \<Rightarrow> string" where
  "recovery_key r = message_deduplication_key (jr_job_id r) (jr_current_attempt_number r + 1)
     (j_task_schema_version (jr_json r)) (j_request_hash (jr_json r))"

definition recovery_attempt :: "(string \<Rightarrow> nonces) \<Rightarrow> job_row \<Rightarrow> string" where
  "recovery_attempt us r = ''attempt_'' @ n_attempt (us (jr_job_id r))"

definition recovery_outbox :: "(string \<Rightarrow> nonces) \<Rightarrow> job_row \<Rightarrow> string" where
  "recovery_outbox us r = ''outbox_'' @ n_outbox (us (jr_job_id r))"

text \<open>New in the tables, and different from each other.\<close>

definition fresh_in :: "('r \<Rightarrow> string) \<Rightarrow> 'r list \<Rightarrow> string set \<Rightarrow> bool" where
  "fresh_in f rows used \<longleftrightarrow> distinct (map f rows) \<and> f ` set rows \<inter> used = {}"

definition attempt_ids :: "cp_db \<Rightarrow> string set" where
  "attempt_ids db = ar_attempt_id ` set (job_attempts db)"

definition outbox_ids :: "cp_db \<Rightarrow> string set" where
  "outbox_ids db = or_outbox_event_id ` set (outbox_events db)"

definition outbox_keys :: "cp_db \<Rightarrow> string set" where
  "outbox_keys db = or_message_deduplication_key ` set (outbox_events db)"

definition recovery_fresh :: "(string \<Rightarrow> nonces) \<Rightarrow> job_row list \<Rightarrow> cp_db \<Rightarrow> bool" where
  "recovery_fresh us rows db \<longleftrightarrow>
     fresh_in (recovery_attempt us) (filter recovery_requeues rows) (attempt_ids db) \<and>
     fresh_in (recovery_outbox us) (filter recovery_requeues rows) (outbox_ids db) \<and>
     fresh_in recovery_key (filter recovery_requeues rows) (outbox_keys db)"

lemma fresh_in_Cons:
  assumes "fresh_in f (r # rows) used" and "used' \<subseteq> insert (f r) used"
  shows "f r \<notin> used" "fresh_in f rows used'"
proof -
  show "f r \<notin> used" using assms(1) by (auto simp: fresh_in_def)
  have "f ` set rows \<inter> insert (f r) used = {}" "distinct (map f rows)"
    using assms(1) by (auto simp: fresh_in_def)
  with assms(2) show "fresh_in f rows used'" unfolding fresh_in_def by blast
qed

lemma fresh_in_subset: "fresh_in f rows used \<Longrightarrow> used' \<subseteq> used \<Longrightarrow> fresh_in f rows used'"
  by (auto simp: fresh_in_def)

section \<open>One row\<close>

lemma start_attempt_total:
  assumes "a_attempt_id att \<notin> attempt_ids db" "o_outbox_event_id ev \<notin> outbox_ids db"
    "o_message_deduplication_key ev \<notin> outbox_keys db"
    "\<forall>a \<in> set (job_attempts db). ar_job_id a = a_job_id att \<longrightarrow> ar_attempt_number a < a_attempt_number att"
    "job_row_at (a_job_id att) db \<noteq> None" "o_job_id ev = a_job_id att" "o_attempt_id ev = a_attempt_id att"
  shows "\<exists>db'. start_attempt job att ev db = Some db'"
proof -
  have 1: "find_attempt_number (a_job_id att) (a_attempt_number att) db = None"
    using assms(4) by (fastforce simp: find_attempt_number_def find_by_None_iff)
  have 2: "insert_by ar_attempt_id (attempt_row_of att) (job_attempts db)
      = Some (job_attempts db @ [attempt_row_of att])"
    using assms(1) by (intro insert_by_fresh) (simp add: attempt_ids_def)
  have 3: "insert_by or_outbox_event_id (outbox_row_of ev) (outbox_events db)
      = Some (outbox_events db @ [outbox_row_of ev])"
    using assms(2) by (intro insert_by_fresh) (simp add: outbox_ids_def)
  have 4: "find_by ar_attempt_id (a_attempt_id att) (job_attempts db @ [attempt_row_of att]) \<noteq> None"
    by (simp add: find_by_None_iff)
  show ?thesis
    using 1 2 3 4 assms(3,5-7)
    by (simp add: start_attempt_def insert_attempt_def insert_outbox_def job_row_at_def outbox_keys_def)
qed

lemma update_outbox_sets:
  "(\<And>r. or_outbox_event_id (f r) = or_outbox_event_id r) \<Longrightarrow>
   outbox_ids (update_outbox k f db) = outbox_ids db"
  "(\<And>r. or_message_deduplication_key (f r) = or_message_deduplication_key r) \<Longrightarrow>
   outbox_keys (update_outbox k f db) = outbox_keys db"
  by (simp_all add: outbox_ids_def outbox_keys_def update_outbox_def image_update_by)

lemma recover_fail_outbox_sets:
  assumes "recover_fail_outbox now aid db = Inr db'"
  shows "outbox_ids db' = outbox_ids db" "outbox_keys db' = outbox_keys db"
  using assms
  by (auto simp: recover_fail_outbox_def update_outbox_sets split: option.splits sum.splits if_splits)

lemma recover_close_attempt_ids: "attempt_ids (recover_close_attempt now att db) = attempt_ids db"
  by (simp add: recover_close_attempt_def attempt_ids_def update_attempt_def image_update_by)

lemma start_attempt_sets:
  assumes "start_attempt job att ev db = Some db'"
  shows "attempt_ids db' = insert (a_attempt_id att) (attempt_ids db)"
    "outbox_ids db' = insert (o_outbox_event_id ev) (outbox_ids db)"
    "outbox_keys db' = insert (o_message_deduplication_key ev) (outbox_keys db)"
  using start_attempt_SomeD(1) [OF assms]
  by (auto simp: attempt_ids_def outbox_ids_def outbox_keys_def outbox_row_of_def)

lemma recover_job_total:
  assumes inv: "db_inv db" and r: "job_row_at k db = Some r"
    and fresh: "recovery_requeues r \<Longrightarrow> recovery_attempt us r \<notin> attempt_ids db"
      "recovery_requeues r \<Longrightarrow> recovery_outbox us r \<notin> outbox_ids db"
      "recovery_requeues r \<Longrightarrow> recovery_key r \<notin> outbox_keys db"
  shows "\<exists>c db'. recover_job (us k) now (jr_json r) db = Inr (c, db')
    \<and> attempt_ids db' \<subseteq> (if recovery_requeues r then insert (recovery_attempt us r) (attempt_ids db) else attempt_ids db)
    \<and> outbox_ids db' \<subseteq> (if recovery_requeues r then insert (recovery_outbox us r) (outbox_ids db) else outbox_ids db)
    \<and> outbox_keys db' \<subseteq> (if recovery_requeues r then insert (recovery_key r) (outbox_keys db) else outbox_keys db)"
proof -
  let ?job = "jr_json r"
  have ok: "job_row_ok r" using inv r by (rule db_inv_job_row)
  then have valid: "job_record_valid ?job" by (simp add: job_row_ok_def)
  note rs = job_row_ok_simps [OF ok]
  have rk: "jr_job_id r = k" "r \<in> set (jobs db)" using job_row_at_key [OF r] by auto
  consider (close) "j_status ?job = JCancelling \<or> j_max_attempts ?job \<le> j_current_attempt_number ?job"
    | (queue) "j_status ?job \<noteq> JCancelling" "j_current_attempt_number ?job < j_max_attempts ?job"
    by fastforce
  then show ?thesis
  proof cases
    case close
    then show ?thesis
      by (auto simp: recover_job_def attempt_ids_def outbox_ids_def outbox_keys_def recovery_requeues_def)
  next
    case queue
    then have rq: "recovery_requeues r" by (simp add: recovery_requeues_def)
    let ?att = "new_attempt (us k) now (j_job_id ?job) (j_current_attempt_number ?job + 1)"
    let ?j = "?job\<lparr>j_status := JQueued, j_current_attempt_number := a_attempt_number ?att,
      j_cancel_requested := False, j_retryable := False, j_error_code := None,
      j_finished_at := None, j_updated_at := now, j_revision := j_revision ?job + 1\<rparr>"
    let ?ev = "new_outbox (us k) ?j ?att now"
    have ids: "a_attempt_id ?att = recovery_attempt us r" "o_outbox_event_id ?ev = recovery_outbox us r"
      "o_message_deduplication_key ?ev = recovery_key r" "a_job_id ?att = k" "o_job_id ?ev = k"
      using rk rs by (simp_all add: new_attempt_def new_outbox_def recovery_attempt_def
          recovery_outbox_def recovery_key_def)
    have below: "\<forall>a \<in> set (job_attempts db). ar_job_id a = k \<longrightarrow> ar_attempt_number a < a_attempt_number ?att"
    proof (intro ballI impI)
      fix a assume a: "a \<in> set (job_attempts db)" "ar_job_id a = k"
      obtain jr where "job_row_at (ar_job_id a) db = Some jr" "attempt_fits a jr"
        using inv a(1) by (rule db_inv_fits)
      with a(2) r have "ar_attempt_number a \<le> jr_current_attempt_number r" by (simp add: attempt_fits_def)
      then show "ar_attempt_number a < a_attempt_number ?att" using rs by (simp add: new_attempt_def)
    qed
    have v: "job_attempt_valid ?att" "outbox_event_valid ?ev"
      using valid by (simp_all add: job_attempt_valid_def outbox_event_valid_def new_attempt_def
          new_outbox_def job_record_valid_def message_deduplication_key_def)
    have "o_attempt_id ?ev = a_attempt_id ?att" by (simp add: new_outbox_def)
    with fresh [OF rq] ids below r obtain db' where st: "start_attempt ?j ?att ?ev db = Some db'"
      using start_attempt_total [of ?att db ?ev ?j] by auto
    obtain q kvs where "find_by rr_job_id k (job_requests db) = Some q" "rr_request q = JObj kvs"
      using inv rk by (fastforce simp: db_inv_def inv_links_def)
    then have "get_job_request_in (j_job_id ?job) db = Inr (JObj kvs)"
      using rk rs by (simp add: get_job_request_in_def)
    with st v queue have "\<exists>c. recover_job (us k) now ?job db = Inr (c, db')"
      by (simp add: recover_job_def validators Let_def)
    then show ?thesis using start_attempt_sets [OF st] ids rq by auto
  qed
qed

lemma recover_row_total:
  assumes inv: "db_inv db" and r: "job_row_at k db = Some r"
    and fresh: "recovery_requeues r \<Longrightarrow> recovery_attempt us r \<notin> attempt_ids db"
      "recovery_requeues r \<Longrightarrow> recovery_outbox us r \<notin> outbox_ids db"
      "recovery_requeues r \<Longrightarrow> recovery_key r \<notin> outbox_keys db"
  shows "\<exists>c db'. recover_row (us k) now r db = Inr (c, db')
    \<and> attempt_ids db' \<subseteq> (if recovery_requeues r then insert (recovery_attempt us r) (attempt_ids db) else attempt_ids db)
    \<and> outbox_ids db' \<subseteq> (if recovery_requeues r then insert (recovery_outbox us r) (outbox_ids db) else outbox_ids db)
    \<and> outbox_keys db' \<subseteq> (if recovery_requeues r then insert (recovery_key r) (outbox_keys db) else outbox_keys db)"
proof -
  have ok: "job_row_ok r" using inv r by (rule db_inv_job_row)
  note rs = job_row_ok_simps [OF ok]
  have rk: "jr_job_id r = k" "r \<in> set (jobs db)" using job_row_at_key [OF r] by auto
  obtain a where a: "a \<in> set (job_attempts db)" "ar_job_id a = k"
    "get_attempt_in k (jr_current_attempt_number r) db = Inr (ar_json a)"
    using db_inv_current [OF inv rk(2)] rk(1) by auto
  let ?db1 = "recover_close_attempt now (ar_json a) db"
  have inv1: "db_inv ?db1" by (rule recover_close_attempt_inv(1) [OF inv a(1)])
  obtain db2 where f: "recover_fail_outbox now (a_attempt_id (ar_json a)) ?db1 = Inr db2"
    using recover_fail_outbox_total [OF inv1] by blast
  have inv2: "db_inv db2" and same: "jobs db2 = jobs db" "job_attempts db2 = job_attempts ?db1"
    using recover_fail_outbox_inv [OF inv1 f] by auto
  have sets: "attempt_ids db2 = attempt_ids db" "outbox_ids db2 = outbox_ids db" "outbox_keys db2 = outbox_keys db"
    using recover_fail_outbox_sets [OF f] same(2) recover_close_attempt_ids [of now "ar_json a" db]
    by (simp_all add: attempt_ids_def outbox_ids_def outbox_keys_def)
  have r2: "job_row_at k db2 = Some r" using r same(1) by (simp add: job_row_at_def)
  have "recover_row (us k) now r db = recover_job (us k) now (jr_json r) db2"
    using ok a(3) f rs rk by (simp add: recover_row_def validators job_row_ok_def)
  with recover_job_total [OF inv2 r2, of us now] fresh show ?thesis unfolding sets by simp
qed

section \<open>All rows\<close>

lemma recover_rows_total:
  assumes "db_inv db" and "\<forall>r \<in> set rows. job_row_at (jr_job_id r) db = Some r \<and> \<not> job_terminal (jr_status r)"
    and "distinct (map jr_job_id rows)" and "recovery_fresh us rows db"
  shows "\<exists>cs db'. recover_rows us now rows db = Inr (cs, db')"
  using assms
proof (induction rows arbitrary: db)
  case Nil
  then show ?case by simp
next
  case (Cons r rows)
  from Cons.prems(2) have r: "job_row_at (jr_job_id r) db = Some r" "\<not> job_terminal (jr_status r)" by auto
  have f: "recovery_requeues r \<Longrightarrow> fresh_in (recovery_attempt us) (r # filter recovery_requeues rows) (attempt_ids db)"
    "recovery_requeues r \<Longrightarrow> fresh_in (recovery_outbox us) (r # filter recovery_requeues rows) (outbox_ids db)"
    "recovery_requeues r \<Longrightarrow> fresh_in recovery_key (r # filter recovery_requeues rows) (outbox_keys db)"
    using Cons.prems(4) by (simp_all add: recovery_fresh_def)
  obtain c db1 where 1: "recover_row (us (jr_job_id r)) now r db = Inr (c, db1)"
    and sub: "attempt_ids db1 \<subseteq> (if recovery_requeues r then insert (recovery_attempt us r) (attempt_ids db) else attempt_ids db)"
      "outbox_ids db1 \<subseteq> (if recovery_requeues r then insert (recovery_outbox us r) (outbox_ids db) else outbox_ids db)"
      "outbox_keys db1 \<subseteq> (if recovery_requeues r then insert (recovery_key r) (outbox_keys db) else outbox_keys db)"
    using recover_row_total [OF Cons.prems(1) r(1), of us now]
      fresh_in_Cons(1) [OF f(1) subset_insertI] fresh_in_Cons(1) [OF f(2) subset_insertI]
      fresh_in_Cons(1) [OF f(3) subset_insertI] by auto
  note next_row = recover_rows_next [OF Cons.prems(1-3) 1]
  have fresh1: "recovery_fresh us rows db1"
  proof (cases "recovery_requeues r")
    case True
    with sub fresh_in_Cons(2) [OF f(1) [OF True]] fresh_in_Cons(2) [OF f(2) [OF True]]
      fresh_in_Cons(2) [OF f(3) [OF True]] show ?thesis by (simp add: recovery_fresh_def)
  next
    case False
    with sub Cons.prems(4) show ?thesis by (auto simp: recovery_fresh_def intro: fresh_in_subset)
  qed
  from Cons.IH [OF next_row fresh1] 1 show ?case by auto
qed

lemma recover_incomplete_jobs_total:
  assumes "db_inv db" and "recovery_fresh us (incomplete_rows db) db"
  shows "\<exists>cs db'. recover_incomplete_jobs us now db = (Inr cs, db')"
  using recover_rows_total [OF assms(1) incomplete_rows_at [OF assms(1)] assms(2), of now]
  by (auto simp: recover_incomplete_jobs_def)

end
