(* ===== verification/Cp_Properties.thy ===== *)
theory Cp_Properties
  imports Cp_Recovery
begin

text \<open>
  The properties of the control-plane store (\<open>Cp_Jobs\<close>, \<open>Cp_Outbox\<close>).  They speak of the tables
  that a list of calls \<open>ops\<close> makes of the empty ones, \<open>fold run_op ops empty_db\<close>.
\<close>

section \<open>A small store for the witnesses\<close>

definition demo_nonces :: "string \<Rightarrow> nonces" where
  "demo_nonces x = \<lparr>n_job = x, n_attempt = x, n_run = x, n_token = ''tok'' @ x, n_outbox = x,
     n_audit = x, n_key = x\<rparr>"

definition demo_new_job :: new_job where
  "demo_new_job = \<lparr>nj_workspace_id = ''ws'', nj_project_id = Some ''p'', nj_job_type = Analysis,
     nj_queue_name = ''cra.analysis'', nj_request = JObj [], nj_idempotency_key = ''key'',
     nj_actor_id_hash = ''user'', nj_domain_run_id = None, nj_retry_of_job_id = None,
     nj_max_attempts = 3, nj_task_schema_version = 1\<rparr>"

definition demo_ops :: "store_op list" where
  "demo_ops = [CreateJob (demo_nonces ''1'') 0 demo_new_job]"

definition demo_db :: cp_db where
  "demo_db = fold run_op demo_ops empty_db"

definition demo_job :: job_record where
  "demo_job = new_job_record (demo_nonces ''1'') 0 demo_new_job"

definition demo_attempt :: job_attempt where
  "demo_attempt = new_attempt (demo_nonces ''1'') 0 ''job_1'' 1"

definition demo_event :: outbox_event where
  "demo_event = new_outbox (demo_nonces ''1'') demo_job demo_attempt 0"

lemmas demo_defs = demo_nonces_def demo_new_job_def demo_job_def demo_attempt_def demo_event_def
  new_job_record_def new_attempt_def new_outbox_def

lemma demo_valid [simp]: "job_record_valid demo_job" "job_attempt_valid demo_attempt"
  "outbox_event_valid demo_event"
  by (simp_all add: demo_defs job_record_valid_def job_attempt_valid_def outbox_event_valid_def
      request_hash_of_def message_deduplication_key_def)

lemma demo_simps [simp]:
  "j_job_id demo_job = ''job_1''" "j_status demo_job = JQueued" "j_current_attempt_number demo_job = 1"
  "j_workspace_id demo_job = ''ws''" "j_max_attempts demo_job = 3" "j_finished_at demo_job = None"
  "j_idempotency_key_hash demo_job = stable_hash ''key''" "j_revision demo_job = 1"
  "j_created_at demo_job = 0" "j_result_artifact_ref_ids demo_job = []"
  "j_request_hash demo_job = request_hash_of (JObj [])"
  "a_attempt_id demo_attempt = ''attempt_1''" "a_job_id demo_attempt = ''job_1''"
  "a_attempt_number demo_attempt = 1" "a_status demo_attempt = ACreated"
  "a_execution_token_hash demo_attempt = stable_hash ''tok1''"
  "o_outbox_event_id demo_event = ''outbox_1''" "o_job_id demo_event = ''job_1''"
  "o_attempt_id demo_event = ''attempt_1''" "o_status demo_event = OPending"
  "o_next_retry_at demo_event = None" "o_lease_until demo_event = None" "o_created_at demo_event = 0"
  "o_publish_attempt demo_event = 0"
  by (simp_all add: demo_defs)

lemma demo_create: "create_job (demo_nonces ''1'') 0 demo_new_job empty_db =
    (Inr \<lparr>cj_job = demo_job, cj_attempt = demo_attempt, cj_outbox = demo_event,
       cj_execution_token = ''tok1'', cj_request = JObj []\<rparr>, demo_db)"
  and demo_tables: "jobs demo_db = [job_row_of demo_job]"
    "job_attempts demo_db = [attempt_row_of demo_attempt]"
    "outbox_events demo_db = [outbox_row_of demo_event]"
proof -
  have "\<exists>db'. create_job (demo_nonces ''1'') 0 demo_new_job empty_db =
    (Inr \<lparr>cj_job = demo_job, cj_attempt = demo_attempt, cj_outbox = demo_event,
       cj_execution_token = ''tok1'', cj_request = JObj []\<rparr>, db') \<and>
    jobs db' = [job_row_of demo_job] \<and> job_attempts db' = [attempt_row_of demo_attempt] \<and>
    outbox_events db' = [outbox_row_of demo_event]"
  proof -
    let ?j = "new_job_record (demo_nonces ''1'') 0 demo_new_job"
    let ?a = "new_attempt (demo_nonces ''1'') 0 ''job_1'' 1"
    have fold: "?j = demo_job" "?a = demo_attempt" "new_outbox (demo_nonces ''1'') demo_job demo_attempt 0 = demo_event"
      by (simp_all add: demo_job_def demo_attempt_def demo_event_def)
    have ins: "\<exists>db'. insert_new_job (demo_nonces ''1'') 0 demo_new_job demo_job demo_attempt demo_event empty_db
        = Some db' \<and> jobs db' = [job_row_of demo_job] \<and> job_attempts db' = [attempt_row_of demo_attempt] \<and>
        outbox_events db' = [outbox_row_of demo_event]"
      by (simp add: insert_new_job_def insert_domain_run_def insert_job_def insert_request_def
          insert_attempt_def insert_outbox_def insert_audit_def insert_by_def empty_db_def
          find_idempotent_job_def find_attempt_number_def)
    have "find_idempotent_job ws kh empty_db = None" for ws kh
      by (simp add: find_idempotent_job_def empty_db_def)
    with ins fold show ?thesis
      by (auto simp: create_job_def validators Let_def demo_nonces_def demo_new_job_def)
  qed
  then show "create_job (demo_nonces ''1'') 0 demo_new_job empty_db =
    (Inr \<lparr>cj_job = demo_job, cj_attempt = demo_attempt, cj_outbox = demo_event,
       cj_execution_token = ''tok1'', cj_request = JObj []\<rparr>, demo_db)"
    "jobs demo_db = [job_row_of demo_job]"
    "job_attempts demo_db = [attempt_row_of demo_attempt]"
    "outbox_events demo_db = [outbox_row_of demo_event]"
    by (auto simp: demo_db_def demo_ops_def)
qed

lemma demo_ops_allowed [simp]: "list_all op_allowed demo_ops"
  by (simp add: demo_ops_def demo_new_job_def)

lemma demo_rows [simp]:
  "job_row_at ''job_1'' demo_db = Some (job_row_of demo_job)"
  "attempt_row_at ''attempt_1'' demo_db = Some (attempt_row_of demo_attempt)"
  "outbox_row_at ''outbox_1'' demo_db = Some (outbox_row_of demo_event)"
  by (simp_all add: job_row_at_def attempt_row_at_def outbox_row_at_def demo_tables)

lemma demo_run: "demo_db = fold run_op demo_ops empty_db"
  by (simp add: demo_db_def)

lemma run_db_inv: "list_all op_allowed ops \<Longrightarrow> db_inv (fold run_op ops empty_db)"
  by (rule store.run_inv [OF db_inv_empty])

section \<open>Attempts\<close>



text \<open>
  C2.  A job never has more attempts than its \<open>max_attempts\<close>, over retries and restarts together,
  and no two of its attempts have the same number.
\<close>

theorem attempts_bounded:
  assumes "list_all op_allowed ops" and "db = fold run_op ops empty_db"
    and "job_row_at k db = Some r"
  shows "length (filter (\<lambda>a. ar_job_id a = k) (job_attempts db)) \<le> nat (j_max_attempts (jr_json r))
    \<and> distinct (map ar_attempt_number (filter (\<lambda>a. ar_job_id a = k) (job_attempts db)))"
proof -
  have inv: "db_inv db" using assms(1,2) run_db_inv by simp
  let ?as = "filter (\<lambda>a. ar_job_id a = k) (job_attempts db)"
  have "distinct (map (\<lambda>a. (ar_job_id a, ar_attempt_number a)) ?as)"
    using inv by (intro distinct_map_filter) (simp add: db_inv_def inv_attempts_def)
  then have "inj_on (\<lambda>a. (ar_job_id a, ar_attempt_number a)) (set ?as)" "distinct ?as"
    by (auto simp: distinct_map)
  then have d: "distinct (map ar_attempt_number ?as)"
    by (auto simp: distinct_map inj_on_def)
  have le: "ar_attempt_number ` set ?as \<subseteq> {1..j_max_attempts (jr_json r)}"
  proof
    fix n assume "n \<in> ar_attempt_number ` set ?as"
    then obtain a where a: "a \<in> set (job_attempts db)" "ar_job_id a = k" "n = ar_attempt_number a" by auto
    obtain r' where "job_row_at (ar_job_id a) db = Some r'" "attempt_fits a r'"
      using inv a(1) by (rule db_inv_fits)
    with a assms(3) have fits: "attempt_fits a r" by simp
    have ok: "job_row_ok r" using inv assms(3) by (rule db_inv_job_row)
    have "jr_current_attempt_number r \<le> j_max_attempts (jr_json r)"
      using ok job_row_ok_simps(3) [OF ok] by (simp add: job_row_ok_def)
    with fits a(3) show "n \<in> {1..j_max_attempts (jr_json r)}" by (simp add: attempt_fits_def)
  qed
  have "length ?as = card (set (map ar_attempt_number ?as))"
    using d distinct_card [of "map ar_attempt_number ?as"] by simp
  also have "\<dots> \<le> card {1..j_max_attempts (jr_json r)}"
    by (rule card_mono) (use le in auto)
  finally show ?thesis using d by simp
qed

lemma attempts_bounded_witness:
  "length (filter (\<lambda>a. ar_job_id a = ''job_1'') (job_attempts demo_db)) \<le> 3"
  using attempts_bounded [OF demo_ops_allowed demo_run demo_rows(1)] by simp

section \<open>Job life cycle\<close>


definition demo_done :: "store_op list" where
  "demo_done = demo_ops @ [CompleteAttempt 5 ''attempt_1'' ''tok1'' ACancelled (Some ''job_cancelled'') []]"

lemma complete_demo:
  "complete_attempt now ''attempt_1'' ''tok1'' ACancelled ec [] demo_db =
    (let att = demo_attempt\<lparr>a_status := ACancelled, a_error_code := ec, a_retryable := False,
               a_finished_at := Some now, a_updated_at := now\<rparr>;
         job = demo_job\<lparr>j_status := JCancelled, j_retryable := False, j_error_code := ec,
               j_finished_at := Some now, j_updated_at := now, j_revision := 2,
               j_result_artifact_ref_ids := []\<rparr>
     in (Inr (att, job), update_job job (update_attempt att demo_db)))"
proof -
  have "job_record_valid (demo_job\<lparr>j_status := JCancelled, j_retryable := False, j_error_code := ec,
               j_finished_at := Some now, j_updated_at := now, j_revision := 2,
               j_result_artifact_ref_ids := []\<rparr>)"
    using demo_valid(1) by (simp add: job_record_valid_def)
  moreover have "job_attempt_valid (demo_attempt\<lparr>a_status := ACancelled, a_error_code := ec,
      a_retryable := False, a_finished_at := Some now, a_updated_at := now\<rparr>)"
    using demo_valid(2) by (simp add: job_attempt_valid_def)
  ultimately show ?thesis
    by (simp add: complete_attempt_def complete_allowed_def get_attempt_def validators Let_def
        completed_attempt_def completed_job_def)
qed


text \<open>
  One call leaves the row of a job as it is, or it rewrites a job that has not ended under
  exactly the next revision (so an \<open>expected_revision\<close> that still matches means that nothing was
  written in between); the identity, request hash, idempotency key and limits of a job never
  change, no job disappears, and the attempt number grows by at most one.
\<close>

theorem job_revision_step:
  assumes "list_all op_allowed ops" and "db = fold run_op ops empty_db" and "op_allowed op"
    and "job_row_at k db = Some r"
  shows "\<exists>r'. job_row_at k (run_op op db) = Some r' \<and>
    (r' = r \<or> \<not> job_terminal (jr_status r) \<and> same_job (jr_json r) (jr_json r') \<and>
       jr_revision r' = jr_revision r + 1 \<and>
       jr_current_attempt_number r' - jr_current_attempt_number r \<in> {0, 1})"
proof -
  have inv: "db_inv db" using assms(1,2) run_db_inv by simp
  then have inv': "db_inv (run_op op db)" using assms(3) by (rule db_inv_run_op)
  obtain r' where r': "job_row_at k (run_op op db) = Some r'" "job_advanced r r'"
    using jobs_advanced_run_op [OF inv] assms(4) unfolding jobs_advanced_def by blast
  have "jr_revision x = j_revision (jr_json x)" if "job_row_ok x" for x
    using that unfolding job_row_ok_def job_row_of_def by (metis job_row.select_convs(11))
  then have "jr_revision r = j_revision (jr_json r)" "jr_revision r' = j_revision (jr_json r')"
    using db_inv_job_row [OF inv assms(4)] db_inv_job_row [OF inv' r'(1)] by simp_all
  with r' show ?thesis by (auto simp: job_advanced_def)
qed

lemma job_revision_step_witness:
  "\<exists>r'. job_row_at ''job_1'' (run_op (RequestCancel 7 ''job_1'') demo_db) = Some r' \<and>
     (r' = job_row_of demo_job \<or> jr_revision r' = jr_revision (job_row_of demo_job) + 1)"
  using job_revision_step [OF demo_ops_allowed demo_run _ demo_rows(1), of "RequestCancel 7 ''job_1''"]
  by auto

section \<open>Reading a store\<close>

lemma db_inv_outbox_for_attempt:
  assumes "db_inv db" and "a \<in> set (job_attempts db)"
  shows "\<exists>ev. get_outbox_for_attempt (ar_attempt_id a) db = Inr ev \<and> o_attempt_id ev = ar_attempt_id a"
proof -
  have "ar_attempt_id a \<in> or_attempt_id ` set (outbox_events db)"
    using assms by (force simp: db_inv_def inv_links_def)
  then obtain x where x: "find_by or_attempt_id (ar_attempt_id a) (outbox_events db) = Some x"
    using find_by_None_iff [of or_attempt_id] by fastforce
  then have "x \<in> set (outbox_events db)" "or_attempt_id x = ar_attempt_id a" by (auto dest: find_by_SomeD)
  moreover from this assms(1) have ok: "outbox_row_ok x" by (simp add: db_inv_def inv_rows_def)
  ultimately show ?thesis using x outbox_row_ok_simps(2) [OF ok]
    by (simp add: get_outbox_for_attempt_def validators outbox_row_ok_def)
qed

lemma db_inv_request:
  assumes "db_inv db" and "r \<in> set (jobs db)"
  shows "\<exists>kvs. get_job_request_in (jr_job_id r) db = Inr (JObj kvs)"
  using assms by (fastforce simp: db_inv_def inv_links_def get_job_request_in_def)

text \<open>
  Reading back never fails in a store that the operations made: for every job row,
  \<open>get_job\<close>, its current attempt, the dispatch record of that attempt and the stored request are
  found and pass their validators, and \<open>list_attempts\<close> returns exactly the attempts of the job
  (none of the \<open>None[0]\<close> accesses of \<open>store.py\<close> is reachable).
\<close>

theorem store_reads_total:
  assumes "list_all op_allowed ops" and "db = fold run_op ops empty_db" and "r \<in> set (jobs db)"
  shows "get_job (jr_job_id r) db = Inr (jr_json r)
    \<and> (\<exists>att ev kvs. get_attempt_in (jr_job_id r) (j_current_attempt_number (jr_json r)) db = Inr att
        \<and> a_job_id att = jr_job_id r \<and> get_attempt (a_attempt_id att) db = Inr att
        \<and> get_outbox_for_attempt (a_attempt_id att) db = Inr ev \<and> o_attempt_id ev = a_attempt_id att
        \<and> get_job_request_in (jr_job_id r) db = Inr (JObj kvs))
    \<and> (\<exists>atts. list_attempts (jr_job_id r) db = Inr atts
        \<and> set atts = ar_json ` {a \<in> set (job_attempts db). ar_job_id a = jr_job_id r})"
proof -
  have inv: "db_inv db" using assms(1,2) run_db_inv by simp
  have at: "job_row_at (jr_job_id r) db = Some r" by (rule db_inv_job_at [OF inv assms(3)])
  note rs = job_row_ok_simps [OF db_inv_job_row [OF inv at]]
  obtain a where a: "a \<in> set (job_attempts db)" "ar_job_id a = jr_job_id r"
    "get_attempt_in (jr_job_id r) (jr_current_attempt_number r) db = Inr (ar_json a)"
    using db_inv_current [OF inv assms(3)] by auto
  have aat: "attempt_row_at (ar_attempt_id a) db = Some a" by (rule db_inv_attempt_at [OF inv a(1)])
  have aok: "attempt_row_ok a" by (rule db_inv_attempt_row [OF inv aat])
  have get: "get_attempt (ar_attempt_id a) db = Inr (ar_json a)"
    using aat aok by (simp add: get_attempt_def validators attempt_row_ok_def)
  have "list_attempts (jr_job_id r) db =
      Inr (map ar_json (sort_key ar_attempt_number (filter (\<lambda>a. ar_job_id a = jr_job_id r) (job_attempts db))))"
    using inv by (auto simp: list_attempts_def Let_def list_all_iff db_inv_def inv_rows_def attempt_row_ok_def)
  then have lists: "\<exists>atts. list_attempts (jr_job_id r) db = Inr atts
        \<and> set atts = ar_json ` {a \<in> set (job_attempts db). ar_job_id a = jr_job_id r}" by simp
  obtain ev where "get_outbox_for_attempt (ar_attempt_id a) db = Inr ev" "o_attempt_id ev = ar_attempt_id a"
    using db_inv_outbox_for_attempt [OF inv a(1)] by blast
  moreover obtain kvs where "get_job_request_in (jr_job_id r) db = Inr (JObj kvs)"
    using db_inv_request [OF inv assms(3)] by blast
  ultimately show ?thesis
    using db_inv_get_job [OF inv at] a get rs attempt_row_ok_simps [OF aok] lists by simp
qed

lemma store_reads_total_witness:
  "get_job ''job_1'' demo_db = Inr demo_job \<and>
   (\<exists>atts. list_attempts ''job_1'' demo_db = Inr atts \<and> set atts = {demo_attempt})"
proof -
  have "{a \<in> set (job_attempts demo_db). ar_job_id a = ''job_1''} = {attempt_row_of demo_attempt}"
    by (auto simp: demo_tables)
  with store_reads_total [OF demo_ops_allowed demo_run, of "job_row_of demo_job"] show ?thesis
    by (simp add: demo_tables)
qed

section \<open>Results of attempts\<close>

text \<open>When \<open>complete_attempt\<close> accepts a result, and what it then writes.\<close>

lemma complete_attempt_ok_iff:
  assumes inv: "db_inv db"
  shows "is_ok (fst (complete_attempt now k tok st ec refs db)) \<longleftrightarrow>
    complete_allowed st \<and> length refs \<le> 200 \<and>
    (\<exists>a. attempt_row_at k db = Some a \<and> ar_execution_token_hash a = stable_hash tok \<and>
       (st \<in> set (ATTEMPT_TRANSITIONS (ar_status a)) \<or> ar_status a = ACreated))"
proof (cases "attempt_row_at k db")
  case None
  then show ?thesis by (auto simp: complete_attempt_def get_attempt_def)
next
  case (Some a)
  have aok: "attempt_row_ok a" by (rule db_inv_attempt_row [OF inv Some])
  have a: "a \<in> set (job_attempts db)" "ar_attempt_id a = k" using attempt_row_at_key [OF Some] by auto
  have tok: "a_execution_token_hash (ar_json a) = ar_execution_token_hash a"
    using aok unfolding attempt_row_ok_def attempt_row_of_def by (metis attempt_row.select_convs(5))
  note as = attempt_row_ok_simps [OF aok] tok
  have get: "get_attempt k db = Inr (ar_json a)"
    using Some aok by (simp add: get_attempt_def validators attempt_row_ok_def)
  obtain r where r: "job_row_at (ar_job_id a) db = Some r" "attempt_fits a r"
    using inv a(1) by (rule db_inv_fits)
  have rok: "job_row_ok r" using inv r(1) by (rule db_inv_job_row)
  then have valid: "job_record_valid (jr_json r)" "j_current_attempt_number (jr_json r) = jr_current_attempt_number r"
    using job_row_ok_simps(3) by (auto simp: job_row_ok_def)
  have av: "job_attempt_valid (completed_attempt now st ec (ar_json a))"
    using aok by (simp add: attempt_row_ok_def job_attempt_valid_def completed_attempt_def)
  have jv: "job_record_valid (completed_job now t ec refs (jr_json r)) \<longleftrightarrow> length refs \<le> 200" for t
    using valid(1) by (auto simp: job_record_valid_def completed_job_def)
  have current: "jr_current_attempt_number r = ar_attempt_number a"
    if "st \<in> set (ATTEMPT_TRANSITIONS (ar_status a)) \<or> ar_status a = ACreated"
    using that r(2) by (auto simp: attempt_fits_def attempt_live_iff dest: attempt_transition_live)
  show ?thesis
    using Some r(1) as get valid current by (auto simp: complete_attempt_def Let_def validators av jv)
qed

text \<open>
  C6.  The result of an attempt is accepted exactly when it comes with the attempt's own token
  and the attempt may still end that way (it runs, or it was only created), for at most 200 result
  references; the job then takes the status that belongs to the outcome, and a refused result
  changes nothing.
\<close>

theorem complete_attempt_accepts:
  assumes "list_all op_allowed ops" and "db = fold run_op ops empty_db"
  shows "case complete_attempt now k tok st ec refs db of
      (Inr (att', job'), db') \<Rightarrow>
         complete_allowed st \<and> length refs \<le> 200 \<and>
         (\<exists>a r. attempt_row_at k db = Some a \<and> ar_execution_token_hash a = stable_hash tok
            \<and> (st \<in> set (ATTEMPT_TRANSITIONS (ar_status a)) \<or> ar_status a = ACreated)
            \<and> job_row_at (ar_job_id a) db = Some r \<and> job_executing (jr_status r)
            \<and> jr_current_attempt_number r = ar_attempt_number a
            \<and> attempt_row_at k db' = Some (attempt_row_of att') \<and> a_status att' = st
            \<and> job_row_at (ar_job_id a) db' = Some (job_row_of job') \<and> j_status job' = complete_target st)
    | (Inl e, db') \<Rightarrow> db' = db \<and>
         \<not> (complete_allowed st \<and> length refs \<le> 200 \<and>
            (\<exists>a. attempt_row_at k db = Some a \<and> ar_execution_token_hash a = stable_hash tok
            \<and> (st \<in> set (ATTEMPT_TRANSITIONS (ar_status a)) \<or> ar_status a = ACreated)))"
proof -
  have inv: "db_inv db" using assms run_db_inv by simp
  note iff = complete_attempt_ok_iff [OF inv, of now k tok st ec refs]
  show ?thesis
  proof (cases "complete_attempt now k tok st ec refs db")
    case (Pair res db')
    show ?thesis
    proof (cases res)
      case (Inl e)
      then have "db' = db" using Pair complete_attempt_Inl by simp
      with Pair Inl iff show ?thesis by simp
    next
      case (Inr p)
      obtain att' job' where p: "p = (att', job')" by (cases p)
      with Pair Inr obtain att job where
        g: "get_attempt k db = Inr att" "get_job (a_job_id att) db = Inr job"
        and st: "complete_allowed st" "st \<in> set (ATTEMPT_TRANSITIONS (a_status att)) \<or> a_status att = ACreated"
        and same: "same_attempt att att'" "a_status att' = st" "same_job job job'"
          "j_status job' = complete_target st"
        and db': "db' = update_job job' (update_attempt att' db)"
        by (auto elim!: complete_attempt_Inr)
      from g(1) obtain a where a: "attempt_row_at k db = Some a" "ar_json a = att" by (rule get_attempt_Inr)
      note as = attempt_row_ok_simps [OF db_inv_attempt_row [OF inv a(1)]]
      obtain r where r: "job_row_at (a_job_id att) db = Some r" "jr_json r = job" "jr_status r = j_status job"
        "jr_current_attempt_number r = j_current_attempt_number job"
        using inv g(2) by (rule db_inv_get_job_row)
      have ir: "inv_rows db" using inv by (simp add: db_inv_def)
      have job_at: "job_row_at (a_job_id att) (update_job job' db) = Some (job_row_of job')"
        using job_row_at_updated [OF ir r(1), of job' "a_job_id att"] same(3) r(2) by simp
      have "attempt_row_at k db' = Some (attempt_row_of att')"
        using attempt_row_at_updated [OF ir a(1), of att' k] same(1) a(2) db' by simp
      moreover have "job_row_at (a_job_id att) db' = Some (job_row_of job')"
        using job_at db' by (simp add: job_row_at_def update_job_def)
      ultimately show ?thesis
        using Pair Inr p iff a r as same complete_attempt_live [OF inv g st] by auto
    qed
  qed
qed

lemma complete_attempt_accepts_witness:
  "\<exists>e. complete_attempt 5 ''attempt_1'' ''tok1'' ASuperseded None [] demo_db = (Inl e, demo_db)"
  using complete_attempt_accepts [OF demo_ops_allowed demo_run,
      where now = 5 and k = "''attempt_1''" and tok = "''tok1''" and st = ASuperseded and ec = None and refs = "[]"]
  by (auto simp: complete_allowed_def split: prod.splits sum.splits)

lemma complete_attempt_dead:
  assumes inv: "db_inv db" and a: "attempt_row_at k db = Some a" and dead: "\<not> attempt_live (ar_status a)"
  shows "\<exists>e. complete_attempt now k tok st ec refs db = (Inl e, db)"
proof -
  have "\<not> (st \<in> set (ATTEMPT_TRANSITIONS (ar_status a)) \<or> ar_status a = ACreated)"
    using dead by (auto simp: attempt_live_iff dest: attempt_transition_live)
  then have "\<not> is_ok (fst (complete_attempt now k tok st ec refs db))"
    using a complete_attempt_ok_iff [OF inv] by simp
  then show ?thesis
    using complete_attempt_Inl [of now k tok st ec refs db]
    by (cases "complete_attempt now k tok st ec refs db"; cases "fst (complete_attempt now k tok st ec refs db)")
      auto
qed

text \<open>
  The outcome of an attempt is recorded at most once: after \<open>complete_attempt\<close> accepted one,
  every later result for the same attempt, with whatever token and outcome and after whatever other
  calls (a retry, a restart, a cancel), is refused and changes nothing.
\<close>

theorem complete_attempt_once:
  assumes "list_all op_allowed ops" and "db = fold run_op ops empty_db"
    and "complete_attempt now k tok st ec refs db = (Inr res, db1)"
    and "list_all op_allowed ops2"
  shows "\<exists>e. complete_attempt now' k tok' st' ec' refs' (fold run_op ops2 db1) = (Inl e, fold run_op ops2 db1)"
proof -
  have inv: "db_inv db" using assms(1,2) run_db_inv by simp
  have inv1: "db_inv db1"
    using db_inv_complete_attempt [OF inv, of now k tok st ec refs] assms(3) by simp
  obtain att' job' where "res = (att', job')" by (cases res)
  with assms(3) obtain att where g: "get_attempt k db = Inr att"
    and st: "complete_allowed st" and same: "same_attempt att att'" "a_status att' = st"
    and db1: "db1 = update_job job' (update_attempt att' db)"
    by (auto elim!: complete_attempt_Inr)
  from g obtain a where a: "attempt_row_at k db = Some a" "ar_json a = att" by (rule get_attempt_Inr)
  have ir: "inv_rows db" using inv by (simp add: db_inv_def)
  have a1: "attempt_row_at k db1 = Some (attempt_row_of att')"
    using attempt_row_at_updated [OF ir a(1), of att' k] same(1) a(2) db1 by simp
  have dead: "\<not> attempt_live (ar_status (attempt_row_of att'))"
    using complete_allowed_not_live [OF st] same(2) by simp
  have inv2: "db_inv (fold run_op ops2 db1)" by (rule store.run_inv [OF inv1 assms(4)])
  have "attempts_later db1 (fold run_op ops2 db1)"
    using store.run_later [OF inv1 assms(4)] by (simp add: jobs_later_def store_grows_def)
  with a1 dead have "attempt_row_at k (fold run_op ops2 db1) = Some (attempt_row_of att')"
    unfolding attempts_later_def attempt_later_def by blast
  then show ?thesis using dead by (rule complete_attempt_dead [OF inv2])
qed

lemma complete_attempt_once_witness:
  "\<exists>db1 res. complete_attempt 5 ''attempt_1'' ''tok1'' ACancelled None [] demo_db = (Inr res, db1) \<and>
    (\<exists>e. complete_attempt 6 ''attempt_1'' ''tok1'' ASucceeded None [] (fold run_op [] db1) = (Inl e, db1))"
proof -
  obtain res db1 where c: "complete_attempt 5 ''attempt_1'' ''tok1'' ACancelled None [] demo_db = (Inr res, db1)"
    by (simp add: complete_demo Let_def)
  from complete_attempt_once [OF demo_ops_allowed demo_run c, of "[]" 6 "''tok1''" ASucceeded None "[]"] c
  show ?thesis by auto
qed

section \<open>Creating a job\<close>

lemma find_by_map_prefix:
  assumes "map g rows' = map g rows @ ks" and "\<And>r. f r = p (g r)" and "find_by f k rows = Some r"
  shows "\<exists>r'. find_by f k rows' = Some r' \<and> g r' = g r"
  using assms(1,3)
proof (induction rows arbitrary: rows')
  case Nil
  then show ?case by simp
next
  case (Cons x rows)
  then obtain y ys where y: "rows' = y # ys" "g y = g x" "map g ys = map g rows @ ks"
    by (cases rows') auto
  then have "f y = f x" using assms(2) by simp
  with Cons y show ?case by (auto split: if_splits)
qed

lemma keys_added_find:
  assumes "keys_added db db'" and "find_idempotent_job ws kh db = Some r"
  shows "\<exists>r'. find_idempotent_job ws kh db' = Some r' \<and> jr_job_id r' = jr_job_id r
    \<and> jr_request_hash r' = jr_request_hash r"
proof -
  let ?g = "\<lambda>r. (jr_workspace_id r, jr_idempotency_key_hash r, jr_job_id r, jr_request_hash r)"
  from assms(1) obtain ks where "map ?g (jobs db') = map ?g (jobs db) @ ks"
    by (auto simp: keys_added_def job_keys_def)
  from find_by_map_prefix [OF this, of "\<lambda>r. (jr_workspace_id r, jr_idempotency_key_hash r)"
      "\<lambda>(a, b, c, d). (a, b)" "(ws, kh)" r] assms(2)
  show ?thesis by (auto simp: find_idempotent_job_def)
qed

lemma db_inv_idempotent_row:
  assumes inv: "db_inv db" and r: "find_idempotent_job ws kh db = Some r"
  shows "r \<in> set (jobs db)" "job_record_valid (jr_json r)" "j_job_id (jr_json r) = jr_job_id r"
    "j_request_hash (jr_json r) = jr_request_hash r"
    "j_current_attempt_number (jr_json r) = jr_current_attempt_number r"
proof -
  show mem: "r \<in> set (jobs db)" using r by (auto simp: find_idempotent_job_def dest: find_by_SomeD)
  with inv have ok: "job_row_ok r" by (simp add: db_inv_def inv_rows_def)
  then show "job_record_valid (jr_json r)" by (simp add: job_row_ok_def)
  show "j_job_id (jr_json r) = jr_job_id r" "j_current_attempt_number (jr_json r) = jr_current_attempt_number r"
    using job_row_ok_simps [OF ok] by simp_all
  show "j_request_hash (jr_json r) = jr_request_hash r"
    using ok unfolding job_row_ok_def job_row_of_def by (metis job_row.select_convs(10))
qed

text \<open>A call of \<open>create_job\<close> that succeeded leaves the row its key finds.\<close>

lemma create_job_found:
  assumes inv: "db_inv db" and c: "create_job u now nj db = (Inr c, db1)"
  shows "\<exists>r. find_idempotent_job (nj_workspace_id nj) (stable_hash (nj_idempotency_key nj)) db1 = Some r
    \<and> jr_job_id r = j_job_id (cj_job c) \<and> jr_request_hash r = request_hash_of (nj_request nj)"
proof (cases "find_idempotent_job (nj_workspace_id nj) (stable_hash (nj_idempotency_key nj)) db")
  case (Some r)
  with c db_inv_idempotent_row [OF inv Some] show ?thesis
    by (auto simp: create_job_def validators split: sum.splits if_splits)
next
  case None
  let ?job = "new_job_record u now nj"
  let ?att = "new_attempt u now (j_job_id ?job) 1"
  from None c have ins: "insert_new_job u now nj ?job ?att (new_outbox u ?job ?att now) db = Some db1"
    and job: "cj_job c = ?job"
    by (auto simp: create_job_def validators Let_def split: sum.splits if_splits option.splits)
  from insert_new_job_SomeD(1) [OF ins] None
  have "find_idempotent_job (nj_workspace_id nj) (stable_hash (nj_idempotency_key nj)) db1
      = Some (job_row_of ?job)"
    by (simp add: find_idempotent_job_def find_by_append new_job_record_def job_row_of_def)
  then show ?thesis by (simp add: job new_job_record_def job_row_of_def)
qed

lemma create_job_again:
  assumes inv: "db_inv db" and r: "find_idempotent_job (nj_workspace_id nj) (stable_hash (nj_idempotency_key nj)) db = Some r"
  shows "if jr_request_hash r = request_hash_of (nj_request nj)
    then \<exists>c. create_job u now nj db = (Inr c, db) \<and> j_job_id (cj_job c) = jr_job_id r \<and> cj_execution_token c = []
    else create_job u now nj db = (Inl (ControlPlaneError ''idempotency_key_conflict''), db)"
proof -
  note R = db_inv_idempotent_row [OF inv r]
  obtain a where a: "a \<in> set (job_attempts db)"
    "get_attempt_in (jr_job_id r) (jr_current_attempt_number r) db = Inr (ar_json a)"
    using db_inv_current [OF inv R(1)] by auto
  have "attempt_row_ok a" using inv a(1) by (simp add: db_inv_def inv_rows_def)
  then have "a_attempt_id (ar_json a) = ar_attempt_id a" by (rule attempt_row_ok_simps)
  then obtain ev where "get_outbox_for_attempt (a_attempt_id (ar_json a)) db = Inr ev"
    using db_inv_outbox_for_attempt [OF inv a(1)] by auto
  moreover obtain kvs where "get_job_request_in (jr_job_id r) db = Inr (JObj kvs)"
    using db_inv_request [OF inv R(1)] by blast
  ultimately show ?thesis using r R a by (simp add: create_job_def validators)
qed

text \<open>
  \<open>create_job\<close> is idempotent in its key, for ever: once it has succeeded, a second call with
  the same workspace and key, after any other calls, changes nothing; with the same request it
  returns the same job (and no execution token, so it cannot be run twice), with another request
  it raises \<open>idempotency_key_conflict\<close>.
\<close>

theorem create_job_idempotent:
  assumes "list_all op_allowed ops" and "db = fold run_op ops empty_db"
    and "op_allowed (CreateJob u now nj)" and "create_job u now nj db = (Inr c, db1)"
    and "list_all op_allowed ops2" and "db2 = fold run_op ops2 db1"
    and "nj_workspace_id nj' = nj_workspace_id nj" and "nj_idempotency_key nj' = nj_idempotency_key nj"
  shows "if request_hash_of (nj_request nj') = request_hash_of (nj_request nj)
    then \<exists>c'. create_job u' now' nj' db2 = (Inr c', db2) \<and> j_job_id (cj_job c') = j_job_id (cj_job c)
      \<and> cj_execution_token c' = []
    else create_job u' now' nj' db2 = (Inl (ControlPlaneError ''idempotency_key_conflict''), db2)"
proof -
  have inv: "db_inv db" using assms(1,2) run_db_inv by simp
  have inv1: "db_inv db1" using db_inv_run_op [OF inv assms(3)] assms(4) by simp
  have inv2: "db_inv db2" using store.run_inv [OF inv1 assms(5)] assms(6) by simp
  obtain r where r: "find_idempotent_job (nj_workspace_id nj) (stable_hash (nj_idempotency_key nj)) db1 = Some r"
    "jr_job_id r = j_job_id (cj_job c)" "jr_request_hash r = request_hash_of (nj_request nj)"
    using create_job_found [OF inv assms(4)] by blast
  have "keys_added db1 db2"
    using store.run_later [OF inv1 assms(5)] assms(6) by (simp add: jobs_later_def store_grows_def)
  from keys_added_find [OF this r(1)] obtain r' where
    r': "find_idempotent_job (nj_workspace_id nj) (stable_hash (nj_idempotency_key nj)) db2 = Some r'"
    "jr_job_id r' = jr_job_id r" "jr_request_hash r' = jr_request_hash r" by blast
  with create_job_again [OF inv2, of nj' r' u' now'] r assms(7,8) show ?thesis by auto
qed

lemma create_job_idempotent_witness:
  "\<exists>c'. create_job (demo_nonces ''2'') 50 demo_new_job (fold run_op [RequestCancel 7 ''job_1''] demo_db)
      = (Inr c', fold run_op [RequestCancel 7 ''job_1''] demo_db)
    \<and> j_job_id (cj_job c') = ''job_1'' \<and> cj_execution_token c' = []"
  using create_job_idempotent [of "[]" empty_db "demo_nonces ''1''" 0 demo_new_job _ demo_db
      "[RequestCancel 7 ''job_1'']" _ demo_new_job "demo_nonces ''2''" 50, OF _ _ _ demo_create _ refl]
  by (simp add: demo_new_job_def)

section \<open>Restart\<close>

text \<open>
  C9.  A restart always succeeds (when the identifiers it draws are new) and settles every job:
  finished jobs keep their row; a job whose cancellation was requested ends as cancelled, one
  without attempts left ends as dead, every other open job is queued again under the next attempt
  number with its cancel flag cleared; and no attempt that existed before the restart is live.
\<close>

theorem recovery_settles_all:
  assumes "list_all op_allowed ops" and "db = fold run_op ops empty_db"
    and "recovery_fresh us (incomplete_rows db) db"
  shows "\<exists>cs db'. recover_incomplete_jobs us now db = (Inr cs, db')
    \<and> (\<forall>k r. job_row_at k db = Some r \<longrightarrow>
        (if job_terminal (jr_status r) then job_row_at k db' = Some r
         else \<exists>j'. recovered_job (jr_json r) j' \<and> job_row_at k db' = Some (job_row_of j')))
    \<and> (\<forall>a \<in> set (job_attempts db). \<forall>a'. attempt_row_at (ar_attempt_id a) db' = Some a' \<longrightarrow>
        \<not> attempt_live (ar_status a'))"
proof -
  have inv: "db_inv db" using assms(1,2) run_db_inv by simp
  obtain cs db' where rec: "recover_incomplete_jobs us now db = (Inr cs, db')"
    using recover_incomplete_jobs_total [OF inv assms(3)] by blast
  note R = recover_incomplete_jobs_result [OF inv rec]
  have "\<not> attempt_live (ar_status a')"
    if a: "a \<in> set (job_attempts db)" and a': "attempt_row_at (ar_attempt_id a) db' = Some a'" for a a'
  proof
    assume live: "attempt_live (ar_status a')"
    have aat: "attempt_row_at (ar_attempt_id a) db = Some a" by (rule db_inv_attempt_at [OF inv a])
    have "attempts_later db db'"
      using store_grows_recover [OF inv, of us now] rec by (simp add: store_grows_def)
    then have "same_attempt (ar_json a) (ar_json a')"
      using aat a' unfolding attempts_later_def attempt_later_def by fastforce
    then have same: "ar_job_id a' = ar_job_id a" "ar_attempt_number a' = ar_attempt_number a"
      using attempt_row_ok_simps [OF db_inv_attempt_row [OF inv aat]]
        attempt_row_ok_simps [OF db_inv_attempt_row [OF R(1) a']] by (simp_all add: same_attempt_def)
    obtain r where r: "job_row_at (ar_job_id a) db = Some r" "attempt_fits a r"
      using inv a by (rule db_inv_fits)
    obtain r' where r': "job_row_at (ar_job_id a') db' = Some r'" "attempt_fits a' r'"
      using R(1) a' attempt_row_at_key [OF a'] by (blast elim: db_inv_fits)
    have fits': "job_executing (jr_status r')" "ar_attempt_number a = jr_current_attempt_number r'"
      using r'(2) live same by (simp_all add: attempt_fits_def)
    show False
    proof (cases "job_terminal (jr_status r)")
      case True
      then have "job_row_at (ar_job_id a) db' = Some r" using R(2) [OF r(1)] by (simp only: if_True)
      with r' fits' same True show False by (simp add: job_executing_def)
    next
      case False
      then obtain j' where j': "recovered_job (jr_json r) j'" "job_row_at (ar_job_id a) db' = Some (job_row_of j')"
        using R(2) [OF r(1)] by (auto simp only: if_False)
      have "j_current_attempt_number (jr_json r) = jr_current_attempt_number r"
        using job_row_ok_simps(3) db_inv_job_row [OF inv r(1)] by blast
      with j' r r' same fits' show False
        by (auto simp: recovered_job_def job_executing_def attempt_fits_def split: if_splits)
    qed
  qed
  with rec R(2) show ?thesis by blast
qed

lemma recovery_settles_all_witness:
  "\<exists>cs db' j'. recover_incomplete_jobs (\<lambda>_. demo_nonces ''2'') 9
       (fold run_op (demo_ops @ [RequestCancel 7 ''job_1'']) empty_db) = (Inr cs, db')
     \<and> job_row_at ''job_1'' db' = Some (job_row_of j') \<and> j_status j' = JCancelled"
proof -
  let ?j = "demo_job\<lparr>j_status := JCancelling, j_cancel_requested := True, j_updated_at := 7, j_revision := 2\<rparr>"
  let ?db = "fold run_op (demo_ops @ [RequestCancel 7 ''job_1'']) empty_db"
  have v: "job_record_valid ?j" using demo_valid(1) by (simp add: job_record_valid_def)
  have db: "?db = update_job ?j demo_db"
    by (simp add: demo_db_def [symmetric] request_cancel_def get_job_def validators v)
  then have jobs: "jobs ?db = [job_row_of ?j]"
    by (simp add: update_job_def update_by_def demo_tables set_job_row_of [unfolded same_job_def])
  have allowed: "list_all op_allowed (demo_ops @ [RequestCancel 7 ''job_1''])" by simp
  have "recovery_fresh (\<lambda>_. demo_nonces ''2'') (incomplete_rows ?db) ?db"
    using jobs by (simp add: incomplete_rows_def recovery_fresh_def recovery_requeues_def fresh_in_def)
  from recovery_settles_all [OF allowed refl this, of 9] obtain cs db' where
    rec: "recover_incomplete_jobs (\<lambda>_. demo_nonces ''2'') 9 ?db = (Inr cs, db')"
    and all: "\<forall>k r. job_row_at k ?db = Some r \<longrightarrow>
        (if job_terminal (jr_status r) then job_row_at k db' = Some r
         else \<exists>j'. recovered_job (jr_json r) j' \<and> job_row_at k db' = Some (job_row_of j'))" by blast
  have "job_row_at ''job_1'' ?db = Some (job_row_of ?j)" unfolding job_row_at_def jobs by simp
  with all have "\<exists>j'. recovered_job ?j j' \<and> job_row_at ''job_1'' db' = Some (job_row_of j')" by fastforce
  with rec show ?thesis by (auto simp: recovered_job_def)
qed

end
