(* ===== verification/Cp_Outbox_Props.thy ===== *)
theory Cp_Outbox_Props
  imports Cp_Properties
begin

text \<open>
  The properties of the transactional outbox and its dispatcher (\<open>Cp_Outbox\<close>).
\<close>

section \<open>Claims\<close>

lemma due_row_not_leased:
  assumes "outbox_due now r" and "r = outbox_row_of (claimed_event d t l tok e)"
  shows "l < now"
  using assms by (auto simp: outbox_due_def outbox_row_of_def)


lemma demo_due: "due_rows 10 5 demo_db = [outbox_row_of demo_event]"
proof -
  have "outbox_due 5 (outbox_row_of demo_event)" by (simp add: outbox_due_def outbox_row_of_def)
  then show ?thesis by (simp add: due_rows_def demo_tables)
qed


section \<open>Acknowledgements\<close>

text \<open>
  Only the holder of the current claim can acknowledge an event: both acknowledgements
  succeed exactly when the event is being published under the hash of the given token, and
  otherwise change nothing (so a dispatcher whose lease ran out and whose event was claimed again
  cannot overwrite the newer claim).
\<close>

theorem acknowledge_needs_claim:
  assumes "list_all op_allowed ops" and "db = fold run_op ops empty_db"
  shows "let holds = (\<exists>r. outbox_row_at k db = Some r \<and> or_status r = OPublishing
             \<and> or_claim_token_hash r = Some (stable_hash t))
    in (if holds then is_ok (fst (mark_outbox_published now k t m db))
          \<and> is_ok (fst (mark_outbox_publish_failed now k t ec rs db))
        else \<not> is_ok (fst (mark_outbox_published now k t m db)) \<and> snd (mark_outbox_published now k t m db) = db
          \<and> \<not> is_ok (fst (mark_outbox_publish_failed now k t ec rs db))
          \<and> snd (mark_outbox_publish_failed now k t ec rs db) = db)"
proof -
  have inv: "db_inv db" using assms run_db_inv by simp
  show ?thesis
  proof (cases "outbox_row_at k db")
    case None
    then show ?thesis by (simp add: mark_outbox_published_def mark_outbox_publish_failed_def)
  next
    case (Some r)
    note R = db_inv_outbox_row [OF inv Some]
    have claim: "or_claim_token_hash r = o_claim_token_hash (or_json r)"
      by (subst R(1)) (simp add: outbox_row_of_def)
    have v: "outbox_event_valid (or_json r\<lparr>o_status := OPublished,
                 o_published_message_id := Some m, o_claim_token_hash := None,
                 o_lease_owner_hash := None, o_lease_until := None, o_updated_at := now\<rparr>)"
      using R(2) by (simp add: outbox_event_valid_def)
    have ne: "stable_hash t \<noteq> []" using length_stable_hash [of t] by auto
    show ?thesis
      using Some R(2,4) claim ne v
      by (auto simp: mark_outbox_published_def mark_outbox_publish_failed_def validators Let_def str_or_def)
  qed
qed

lemma acknowledge_needs_claim_witness:
  "snd (mark_outbox_published 6 ''outbox_1'' ''t'' ''m'' demo_db) = demo_db"
  using acknowledge_needs_claim [OF demo_ops_allowed demo_run, where k = "''outbox_1''" and t = "''t''"
      and now = 6 and m = "''m''" and ec = "[]" and rs = 0]
  by (simp add: Let_def outbox_row_of_def)

section \<open>The dispatcher\<close>

lemma mark_published_claimed:
  assumes inv: "db_inv db" and r: "outbox_row_at k db = Some (outbox_row_of e)"
    and e: "o_status e = OPublishing" "o_claim_token_hash e = Some (stable_hash t)"
  shows "\<exists>ev db'. mark_outbox_published now k t m db = (Inr ev, db') \<and> outbox_acked k ev db db'
    \<and> o_status ev = OPublished \<and> o_published_message_id ev = Some m"
proof -
  have v: "outbox_event_valid e" using db_inv_outbox_row(2) [OF inv r] by simp
  then have v': "outbox_event_valid (e\<lparr>o_status := OPublished,
                 o_published_message_id := Some m, o_claim_token_hash := None,
                 o_lease_owner_hash := None, o_lease_until := None, o_updated_at := now\<rparr>)"
    by (simp add: outbox_event_valid_def)
  have "stable_hash t \<noteq> []" using length_stable_hash [of t] by auto
  with r v v' e have "\<exists>ev db'. mark_outbox_published now k t m db = (Inr ev, db')"
    by (simp add: mark_outbox_published_def validators str_or_def)
  then show ?thesis using mark_outbox_published_result(2) [OF inv] by blast
qed

lemma mark_failed_claimed:
  assumes inv: "db_inv db" and r: "outbox_row_at k db = Some (outbox_row_of e)"
    and e: "o_status e = OPublishing" "o_claim_token_hash e = Some (stable_hash t)"
  shows "\<exists>ev db'. mark_outbox_publish_failed now k t ec rs db = (Inr ev, db') \<and> outbox_acked k ev db db'
    \<and> o_status ev = OPending \<and> o_next_retry_at ev = Some (now + seconds (max 1 rs))"
proof -
  have v: "outbox_event_valid e" using db_inv_outbox_row(2) [OF inv r] by simp
  have "stable_hash t \<noteq> []" using length_stable_hash [of t] by auto
  with r v e have "\<exists>ev db'. mark_outbox_publish_failed now k t ec rs db = (Inr ev, db')"
    by (simp add: mark_outbox_publish_failed_def validators str_or_def Let_def)
  then show ?thesis using mark_outbox_publish_failed_result(2) [OF inv] by blast
qed

text \<open>What the dispatcher leaves of one due event.\<close>

definition dispatched_as :: "(exn + string) \<Rightarrow> timestamp \<Rightarrow> outbox_event \<Rightarrow> bool" where
  "dispatched_as outcome now e =
     (case outcome of
        Inr m \<Rightarrow> o_status e = OPublished \<and> o_published_message_id e = Some m
      | Inl _ \<Rightarrow> o_status e = OPending \<and> o_next_retry_at e = Some (now + seconds 5))"

lemma publish_claimed_event [simp]: "publish_event p (claimed_event d now l t e) = publish_event p e"
  by (simp add: publish_event_def claimed_event_def)

lemma dispatch_claims_result:
  assumes "db_inv db" and "distinct (map or_outbox_event_id rows)"
    and "\<forall>r \<in> set rows. o_outbox_event_id (or_json r) = or_outbox_event_id r \<and>
       publish_event p (or_json r) \<noteq> Inl CancelledError \<and>
       outbox_row_at (or_outbox_event_id r) db =
         Some (outbox_row_of (claimed_event d now l (tok (or_outbox_event_id r)) (or_json r)))"
  shows "\<exists>db'. dispatch_claims p clock
      (map (\<lambda>r. \<lparr>co_event = claimed_event d now l (tok (or_outbox_event_id r)) (or_json r),
                 co_token = tok (or_outbox_event_id r)\<rparr>) rows) db
        = (Inr (length (filter (\<lambda>r. is_ok (publish_event p (or_json r))) rows)), db')
    \<and> (\<forall>r \<in> set rows. \<exists>e. outbox_row_at (or_outbox_event_id r) db' = Some (outbox_row_of e)
         \<and> dispatched_as (publish_event p (or_json r)) (clock (or_outbox_event_id r)) e)
    \<and> (\<forall>k. k \<notin> or_outbox_event_id ` set rows \<longrightarrow> outbox_row_at k db' = outbox_row_at k db)
    \<and> jobs db' = jobs db"
  using assms
proof (induction rows arbitrary: db)
  case Nil
  then show ?case by simp
next
  case (Cons r rows)
  let ?k = "or_outbox_event_id r"
  let ?e = "claimed_event d now l (tok ?k) (or_json r)"
  let ?cs = "map (\<lambda>r. \<lparr>co_event = claimed_event d now l (tok (or_outbox_event_id r)) (or_json r),
                 co_token = tok (or_outbox_event_id r)\<rparr>) rows"
  from Cons.prems(3) have r: "outbox_row_at ?k db = Some (outbox_row_of ?e)"
    "o_outbox_event_id (or_json r) = ?k" "publish_event p (or_json r) \<noteq> Inl CancelledError" by auto
  have step: "\<exists>db'. dispatch_claims p clock ?cs db1
        = (Inr (length (filter (\<lambda>r. is_ok (publish_event p (or_json r))) rows)), db')
    \<and> (\<forall>x \<in> set (r # rows). \<exists>e. outbox_row_at (or_outbox_event_id x) db' = Some (outbox_row_of e)
         \<and> dispatched_as (publish_event p (or_json x)) (clock (or_outbox_event_id x)) e)
    \<and> (\<forall>k. k \<notin> or_outbox_event_id ` set (r # rows) \<longrightarrow> outbox_row_at k db' = outbox_row_at k db)
    \<and> jobs db' = jobs db"
    if acked: "outbox_acked ?k ev db db1" and as: "dispatched_as (publish_event p (or_json r)) (clock ?k) ev"
    for ev db1
  proof -
    have inv1: "db_inv db1" and same: "jobs db1 = jobs db"
      and at: "outbox_row_at k' db1 = (if k' = ?k then Some (outbox_row_of ev) else outbox_row_at k' db)" for k'
      using acked by (simp_all add: outbox_acked_def)
    have d: "distinct (map or_outbox_event_id rows)" and nr: "?k \<notin> or_outbox_event_id ` set rows"
      using Cons.prems(2) by auto
    have "\<forall>x \<in> set rows. o_outbox_event_id (or_json x) = or_outbox_event_id x \<and>
       publish_event p (or_json x) \<noteq> Inl CancelledError \<and>
       outbox_row_at (or_outbox_event_id x) db1 =
         Some (outbox_row_of (claimed_event d now l (tok (or_outbox_event_id x)) (or_json x)))"
    proof
      fix x assume x: "x \<in> set rows"
      with nr have "or_outbox_event_id x \<noteq> ?k" by (auto simp: image_iff)
      with at [of "or_outbox_event_id x"] have "outbox_row_at (or_outbox_event_id x) db1 = outbox_row_at (or_outbox_event_id x) db"
        by simp
      with Cons.prems(3) x show "o_outbox_event_id (or_json x) = or_outbox_event_id x \<and>
       publish_event p (or_json x) \<noteq> Inl CancelledError \<and>
       outbox_row_at (or_outbox_event_id x) db1 =
         Some (outbox_row_of (claimed_event d now l (tok (or_outbox_event_id x)) (or_json x)))" by simp
    qed
    from Cons.IH [OF inv1 d this] obtain db' where
      I: "dispatch_claims p clock ?cs db1
        = (Inr (length (filter (\<lambda>r. is_ok (publish_event p (or_json r))) rows)), db')"
      and done_rows: "\<forall>x \<in> set rows. \<exists>e. outbox_row_at (or_outbox_event_id x) db' = Some (outbox_row_of e)
         \<and> dispatched_as (publish_event p (or_json x)) (clock (or_outbox_event_id x)) e"
      and frame: "\<forall>k. k \<notin> or_outbox_event_id ` set rows \<longrightarrow> outbox_row_at k db' = outbox_row_at k db1"
      and same': "jobs db' = jobs db1" by blast
    have "outbox_row_at ?k db' = Some (outbox_row_of ev)" using frame nr at [of ?k] by simp
    moreover have "outbox_row_at k db' = outbox_row_at k db" if "k \<notin> or_outbox_event_id ` set (r # rows)" for k
      using that frame at [of k] by simp
    ultimately show ?thesis using I done_rows as same same' by (intro exI [of _ db']) auto
  qed
  show ?case
  proof (cases "publish_event p (or_json r)")
    case (Inr m)
    obtain ev db1 where "mark_outbox_published (clock ?k) ?k (tok ?k) m db = (Inr ev, db1)"
      "outbox_acked ?k ev db db1" "o_status ev = OPublished" "o_published_message_id ev = Some m"
      using mark_published_claimed [OF Cons.prems(1) r(1), of "tok ?k" "clock ?k" m] by auto
    with step [of ev db1] Inr r(2) show ?thesis
      by (auto simp: Let_def dispatched_as_def)
  next
    case (Inl x)
    obtain ev db1 where "mark_outbox_publish_failed (clock ?k) ?k (tok ?k) ''broker_publish_failed'' 5 db = (Inr ev, db1)"
      "outbox_acked ?k ev db db1" "o_status ev = OPending" "o_next_retry_at ev = Some (clock ?k + seconds 5)"
      using mark_failed_claimed [OF Cons.prems(1) r(1), of "tok ?k" "clock ?k" "''broker_publish_failed''" 5] by auto
    with step [of ev db1] Inl r(2,3) show ?thesis
      by (cases x) (auto simp: Let_def dispatched_as_def)
  qed
qed

text \<open>
  One round of the dispatcher returns the number of messages the broker took; every due
  event (up to the batch size) it took is published under the broker's message id, every other one
  is pending again and due five seconds later, and no other event and no job is touched.
\<close>

theorem dispatch_once_result:
  assumes "list_all op_allowed ops" and "db = fold run_op ops empty_db"
    and "\<forall>r \<in> set (due_rows n now db). publish_event publish (or_json r) \<noteq> Inl CancelledError"
  shows "\<exists>db'. dispatch_once publish tok now clock d n db =
        (Inr (length (filter (\<lambda>r. is_ok (publish_event publish (or_json r))) (due_rows n now db))), db')
    \<and> (\<forall>r \<in> set (due_rows n now db). \<exists>e. outbox_row_at (or_outbox_event_id r) db' = Some (outbox_row_of e)
         \<and> (case publish_event publish (or_json r) of
              Inr m \<Rightarrow> o_status e = OPublished \<and> o_published_message_id e = Some m
            | Inl _ \<Rightarrow> o_status e = OPending
                \<and> o_next_retry_at e = Some (clock (or_outbox_event_id r) + seconds 5)))
    \<and> (\<forall>k. k \<notin> or_outbox_event_id ` set (due_rows n now db) \<longrightarrow> outbox_row_at k db' = outbox_row_at k db)
    \<and> jobs db' = jobs db"
proof -
  have inv: "db_inv db" using assms(1,2) run_db_inv by simp
  let ?rows = "due_rows n now db" and ?l = "now + seconds 30"
  obtain db1 where claim: "claim_outbox tok now d n 30 db =
      (Inr (map (\<lambda>r. \<lparr>co_event = claimed_event d now ?l (tok (or_outbox_event_id r)) (or_json r),
                     co_token = tok (or_outbox_event_id r)\<rparr>) ?rows), db1)"
    and inv1: "db_inv db1" and same: "jobs db1 = jobs db" and "job_attempts db1 = job_attempts db"
    and at: "\<And>k. outbox_row_at k db1 = (if k \<in> or_outbox_event_id ` set ?rows
          then map_option (\<lambda>r. outbox_row_of (claimed_event d now ?l (tok k) (or_json r))) (outbox_row_at k db)
          else outbox_row_at k db)"
    by (rule claim_outbox_result [OF inv, of tok now d n 30]) (rule that)
  have "\<forall>r \<in> set ?rows. o_outbox_event_id (or_json r) = or_outbox_event_id r \<and>
       publish_event publish (or_json r) \<noteq> Inl CancelledError \<and>
       outbox_row_at (or_outbox_event_id r) db1 =
         Some (outbox_row_of (claimed_event d now ?l (tok (or_outbox_event_id r)) (or_json r)))"
  proof
    fix r assume r: "r \<in> set ?rows"
    then have row: "outbox_row_at (or_outbox_event_id r) db = Some r"
      using due_rows_at(1) [OF inv] by blast
    with r at [of "or_outbox_event_id r"] assms(3) db_inv_outbox_row(3) [OF inv row]
    show "o_outbox_event_id (or_json r) = or_outbox_event_id r \<and>
       publish_event publish (or_json r) \<noteq> Inl CancelledError \<and>
       outbox_row_at (or_outbox_event_id r) db1 =
         Some (outbox_row_of (claimed_event d now ?l (tok (or_outbox_event_id r)) (or_json r)))" by simp
  qed
  from dispatch_claims_result [OF inv1 due_rows_at(2) [OF inv] this, of clock] claim same at
  show ?thesis by (auto simp: dispatch_once_def dispatched_as_def)
qed

lemma dispatch_once_result_witness:
  "\<exists>db'. dispatch_once (\<lambda>_ _ _ _. Inr ''m1'') (\<lambda>_. ''t'') 5 (\<lambda>_. 6) ''d1'' 10 demo_db = (Inr 1, db')"
  using dispatch_once_result [OF demo_ops_allowed demo_run, of 10 5 "\<lambda>_ _ _ _. Inr ''m1''"
      "\<lambda>_. ''t''" "\<lambda>_. 6" "''d1''"]
  by (auto simp: demo_due publish_event_def)

end
