(* ===== verification/Cp_Backend.thy ===== *)
theory Cp_Backend
  imports Cp_Properties
begin

text \<open>
  \<open>InProcessJobBackend\<close> of \<open>control_plane/jobs.py\<close>.  A task (\<open>_execute\<close>) only gives up control
  where it awaits: for the semaphore, for the handler and for the heartbeat to stop.  It is
  modelled as the two atomic pieces between those points, \<open>execute_begin\<close> (up to the call of the
  handler) and \<open>execute_end\<close> (from the handler's outcome on); the store may change in between.
  The handler is a parameter: what it returned or raised is an argument of \<open>execute_end\<close>.
\<close>

section \<open>Classifying errors\<close>

fun exn_error_code :: "exn \<Rightarrow> string option" where
  "exn_error_code (RetryableJobError c) = Some c"
| "exn_error_code (ResearchRunStoreError c) = Some c"
| "exn_error_code (PlainError c m) = c"
| "exn_error_code _ = None"

text \<open>\<open>str(exc)\<close>; the messages that Python or SQLite write are none of those the table names.\<close>

fun exn_message :: "exn \<Rightarrow> string" where
  "exn_message (AuthenticationError c) = c"
| "exn_message (AccessDeniedError p) = ''access_denied''"
| "exn_message (DeletionBlockedError rs) = join_with '','' rs"
| "exn_message (ValueError m) = m"
| "exn_message (OperationalError m) = m"
| "exn_message (PlainError c m) = m"
| "exn_message _ = []"

text \<open>\<open>str.casefold\<close> on the letters that the two markers are made of.\<close>

definition lower_char :: "char \<Rightarrow> char" where
  "lower_char c = (let n = of_char c :: nat in if 65 \<le> n \<and> n \<le> 90 then char_of (n + 32) else c)"

definition contains :: "string \<Rightarrow> string \<Rightarrow> bool" where
  "contains needle s = list_ex (\<lambda>i. take (length needle) (drop i s) = needle) [0..<Suc (length s)]"

definition known_run_messages :: "string list" where
  "known_run_messages = [''research_run_failed'', ''alignment_run_failed'', ''evaluation_run_failed'',
     ''research_runtime_unavailable'', ''alignment_runtime_unavailable'',
     ''evaluation_runtime_unavailable'', ''live_evaluation_requires_explicit_v2_consent'']"

fun classify_job_error :: "exn \<Rightarrow> attempt_status \<times> string" where
  "classify_job_error (ControlPlaneError c) =
     (if c \<in> {''local_store_busy'', ''artifact_store_temporarily_unavailable''}
      then AFailedRetryable else AFailedTerminal, c)"
| "classify_job_error (ArtifactSecurityError c) = (AFailedTerminal, c)"
| "classify_job_error ValidationError = (AFailedTerminal, ''job_payload_invalid'')"
| "classify_job_error e =
     (if (case e of OperationalError m \<Rightarrow>
            contains ''locked'' (map lower_char m) \<or> contains ''busy'' (map lower_char m)
          | _ \<Rightarrow> False)
      then (AFailedRetryable, ''local_store_busy'')
      else case exn_error_code e of
          Some (x # xs) \<Rightarrow> (AFailedTerminal, x # xs)
        | _ \<Rightarrow> if List.member known_run_messages (exn_message e) then (AFailedTerminal, exn_message e)
               else (AFailedTerminal, ''job_internal_error''))"

lemma classify_job_error_status:
  "fst (classify_job_error e) = AFailedRetryable \<or> fst (classify_job_error e) = AFailedTerminal"
  by (cases e rule: classify_job_error.cases) (auto split: option.split list.split)

section \<open>One task\<close>

definition finish_safely ::
    "timestamp \<Rightarrow> created_job \<Rightarrow> attempt_status \<Rightarrow> string \<Rightarrow> cp_db \<Rightarrow> (cp_db, unit) outcome" where
  "finish_safely now created status error_code db =
     (case complete_attempt now (a_attempt_id (cj_attempt created)) (cj_execution_token created)
             status (Some error_code) [] db of
        (Inl (ControlPlaneError c), db') \<Rightarrow>
          if List.member [''late_attempt_result'', ''stale_execution_token'', ''invalid_attempt_transition''] c
          then (Inr (), db') else (Inl (ControlPlaneError c), db')
      | (Inl e, db') \<Rightarrow> (Inl e, db')
      | (Inr _, db') \<Rightarrow> (Inr (), db'))"

text \<open>
  The \<open>try\<close> block up to the call of the handler.  \<open>True\<close>: the handler is called now; \<open>False\<close>:
  the task returned.  \<open>registered\<close> tells for which job types a handler is registered.
\<close>

definition execute_prologue ::
    "timestamp \<Rightarrow> (job_type \<Rightarrow> bool) \<Rightarrow> created_job \<Rightarrow> cp_db \<Rightarrow> (cp_db, bool) outcome" where
  "execute_prologue now registered created db =
     (let job_id = j_job_id (cj_job created); attempt_id = a_attempt_id (cj_attempt created);
          token = cj_execution_token created in
      and_then (get_job job_id db, db) (\<lambda>job db.
      if j_status job = JCancelling then
        and_then (complete_attempt now attempt_id token ACancelled (Some ''job_cancelled'') [] db)
          (\<lambda>_ db. (Inr False, db))
      else
        and_then (transition_job now job_id JDispatching None None db) (\<lambda>_ db.
        and_then (mark_outbox_consumed_local now (o_outbox_event_id (cj_outbox created)) db) (\<lambda>_ db.
        and_then (transition_job now job_id JDispatched None None db) (\<lambda>_ db.
        and_then (transition_attempt now attempt_id token ADispatched None None db) (\<lambda>_ db.
        and_then (transition_attempt now attempt_id token AClaimed
                    (Some (stable_hash ''local-in-process'')) None db) (\<lambda>_ db.
        and_then (transition_attempt now attempt_id token ARunning None None db) (\<lambda>_ db.
        and_then (transition_job now job_id JRunning None None db) (\<lambda>_ db.
        if \<not> registered (j_job_type (cj_job created)) then
          and_then (complete_attempt now attempt_id token AFailedTerminal (Some ''job_handler_missing'') [] db)
            (\<lambda>_ db. (Inr False, db))
        else (Inr True, db)))))))))) "

text \<open>The \<open>try\<close> block from the handler's result on.\<close>

definition execute_epilogue ::
    "timestamp \<Rightarrow> created_job \<Rightarrow> string list \<Rightarrow> cp_db \<Rightarrow> (cp_db, unit) outcome" where
  "execute_epilogue now created result_refs db =
     (let attempt_id = a_attempt_id (cj_attempt created); token = cj_execution_token created in
      and_then (get_job (j_job_id (cj_job created)) db, db) (\<lambda>current db.
      if j_status current = JCancelling then
        and_then (complete_attempt now attempt_id token ACancelled (Some ''job_cancelled'') [] db)
          (\<lambda>_ db. (Inr (), db))
      else
        and_then (complete_attempt now attempt_id token ASucceeded None result_refs db)
          (\<lambda>_ db. (Inr (), db))))"

text \<open>
  The retryable branches: the attempt failed, and the job gets another one if it may.  When none is
  left \<open>create_retry_attempt\<close> is still called (it declares the job dead) and its exception is
  dropped if \<open>drops\<close> allows it.
\<close>

definition fail_retryable ::
    "nonces \<Rightarrow> timestamp \<Rightarrow> (exn \<Rightarrow> bool) \<Rightarrow> created_job \<Rightarrow> string \<Rightarrow> cp_db
     \<Rightarrow> (cp_db, created_job option) outcome" where
  "fail_retryable u now drops created error_code db =
     and_then (complete_attempt now (a_attempt_id (cj_attempt created)) (cj_execution_token created)
                 AFailedRetryable (Some error_code) [] db) (\<lambda>(_, job) db.
     if j_current_attempt_number job < j_max_attempts job then
       and_then (create_retry_attempt u now (j_job_id job) db) (\<lambda>retry db. (Inr (Some retry), db))
     else
       (case create_retry_attempt u now (j_job_id job) db of
          (Inl e, db') \<Rightarrow> if drops e then (Inr None, db') else (Inl e, db')
        | (Inr _, db') \<Rightarrow> (Inr None, db')))"

fun is_control_plane_error :: "exn \<Rightarrow> bool" where
  "is_control_plane_error (ControlPlaneError c) = True"
| "is_control_plane_error _ = False"

text \<open>The \<open>except\<close> clauses, in their order.\<close>

definition handle_exception ::
    "nonces \<Rightarrow> timestamp \<Rightarrow> bool \<Rightarrow> created_job \<Rightarrow> exn \<Rightarrow> cp_db \<Rightarrow> (cp_db, created_job option) outcome" where
  "handle_exception u now shutdown_requested created exc db =
     (case exc of
        JobShutdownRequested \<Rightarrow>
          and_then (finish_safely now created ALost ''application_shutdown'' db) (\<lambda>_ db. (Inr None, db))
      | CancelledError \<Rightarrow>
          and_then (finish_safely now created (if shutdown_requested then ALost else ACancelled)
              (if shutdown_requested then ''application_shutdown'' else ''job_cancelled'') db)
            (\<lambda>_ db. (Inr None, db))
      | RetryableJobError c \<Rightarrow> fail_retryable u now (\<lambda>e. e \<noteq> CancelledError) created c db
      | e \<Rightarrow>
          (let (status, code) = classify_job_error e in
           if status = AFailedRetryable then fail_retryable u now is_control_plane_error created code db
           else and_then (finish_safely now created status code db) (\<lambda>_ db. (Inr None, db))))"

datatype task_state = HandlerCalled | TaskReturned "created_job option"

definition execute_begin ::
    "nonces \<Rightarrow> timestamp \<Rightarrow> bool \<Rightarrow> (job_type \<Rightarrow> bool) \<Rightarrow> created_job \<Rightarrow> cp_db \<Rightarrow> (cp_db, task_state) outcome" where
  "execute_begin u now shutdown_requested registered created db =
     (case execute_prologue now registered created db of
        (Inr True, db') \<Rightarrow> (Inr HandlerCalled, db')
      | (Inr False, db') \<Rightarrow> (Inr (TaskReturned None), db')
      | (Inl exc, db') \<Rightarrow>
          and_then (handle_exception u now shutdown_requested created exc db')
            (\<lambda>retry db. (Inr (TaskReturned retry), db)))"

definition execute_end ::
    "nonces \<Rightarrow> timestamp \<Rightarrow> bool \<Rightarrow> created_job \<Rightarrow> exn + string list \<Rightarrow> cp_db
     \<Rightarrow> (cp_db, created_job option) outcome" where
  "execute_end u now shutdown_requested created result db =
     (case result of
        Inl exc \<Rightarrow> handle_exception u now shutdown_requested created exc db
      | Inr result_refs \<Rightarrow>
          (case execute_epilogue now created result_refs db of
             (Inr _, db') \<Rightarrow> (Inr None, db')
           | (Inl exc, db') \<Rightarrow> handle_exception u now shutdown_requested created exc db'))"

text \<open>\<open>JobExecutionContext.checkpoint\<close>, which the heartbeat and the handlers call.\<close>

definition checkpoint :: "timestamp \<Rightarrow> bool \<Rightarrow> created_job \<Rightarrow> cp_db \<Rightarrow> (cp_db, unit) outcome" where
  "checkpoint now shutdown_requested created db =
     and_then (heartbeat_attempt now (a_attempt_id (cj_attempt created)) (cj_execution_token created) db)
       (\<lambda>_ db.
     if shutdown_requested then (Inl JobShutdownRequested, db)
     else and_then (get_job (j_job_id (cj_job created)) db, db) (\<lambda>job db.
       if j_cancel_requested job then (Inl CancelledError, db) else (Inr (), db)))"

section \<open>The backend\<close>

text \<open>
  \<open>b_waiting\<close> are the tasks that wait for the semaphore, \<open>b_running\<close> those whose handler runs
  (they hold one of its \<open>concurrency\<close> slots).  \<open>_tasks\<close> and \<open>_active\<close> together hold both.
\<close>

record backend =
  b_store :: cp_db
  b_concurrency :: nat
  b_accepting :: bool
  b_shutdown_requested :: bool
  b_started :: bool
  b_waiting :: "created_job list"
  b_running :: "created_job list"

definition b_task_ids :: "backend \<Rightarrow> string list" where
  "b_task_ids b = map (\<lambda>c. j_job_id (cj_job c)) (b_waiting b @ b_running b)"

definition b_schedule :: "created_job \<Rightarrow> backend \<Rightarrow> backend" where
  "b_schedule created b = b\<lparr>b_waiting := b_waiting b @ [created]\<rparr>"

text \<open>\<open>str_or (j_domain_run_id job) ""\<close> is \<open>created.job.domain_run_id or ""\<close>.\<close>

definition job_handle :: "created_job \<Rightarrow> string \<times> string \<times> string" where
  "job_handle c = (j_job_id (cj_job c), str_or (j_domain_run_id (cj_job c)) [], a_attempt_id (cj_attempt c))"

definition b_submit ::
    "nonces \<Rightarrow> timestamp \<Rightarrow> new_job \<Rightarrow> backend \<Rightarrow> (backend, string \<times> string \<times> string) outcome" where
  "b_submit u now request b =
     (if \<not> b_accepting b then (Inl (ControlPlaneError ''job_backend_shutting_down''), b)
      else case create_job u now request (b_store b) of
          (Inl e, db) \<Rightarrow> (Inl e, b\<lparr>b_store := db\<rparr>)
        | (Inr created, db) \<Rightarrow>
            (let b' = b\<lparr>b_store := db\<rparr> in
             (Inr (job_handle created),
              if cj_execution_token created \<noteq> [] \<and> j_job_id (cj_job created) \<notin> set (b_task_ids b)
              then b_schedule created b' else b')))"

definition b_cancel :: "timestamp \<Rightarrow> string \<Rightarrow> backend \<Rightarrow> (backend, unit) outcome" where
  "b_cancel now job_id b =
     (case get_job job_id (b_store b) of
        Inl e \<Rightarrow> (Inl e, b)
      | Inr job \<Rightarrow>
          if job_terminal (j_status job) then (Inr (), b)
          else (case request_cancel now job_id (b_store b) of
              (Inl e, db) \<Rightarrow> (Inl e, b\<lparr>b_store := db\<rparr>)
            | (Inr _, db) \<Rightarrow> (Inr (), b\<lparr>b_store := db\<rparr>)))"

text \<open>The retry is written to the store before \<open>_accepting\<close> is tested.\<close>

definition b_retry ::
    "nonces \<Rightarrow> timestamp \<Rightarrow> string \<Rightarrow> backend \<Rightarrow> (backend, string \<times> string \<times> string) outcome" where
  "b_retry u now job_id b =
     (case create_manual_retry u now job_id ''system'' (b_store b) of
        (Inl e, db) \<Rightarrow> (Inl e, b\<lparr>b_store := db\<rparr>)
      | (Inr created, db) \<Rightarrow>
          if \<not> b_accepting b then (Inl (ControlPlaneError ''job_backend_shutting_down''), b\<lparr>b_store := db\<rparr>)
          else (Inr (job_handle created), b_schedule created (b\<lparr>b_store := db\<rparr>)))"

definition b_start :: "(string \<Rightarrow> nonces) \<Rightarrow> timestamp \<Rightarrow> backend \<Rightarrow> (backend, unit) outcome" where
  "b_start us now b =
     (if b_started b then (Inr (), b)
      else let b1 = b\<lparr>b_started := True, b_accepting := True, b_shutdown_requested := False\<rparr> in
        case recover_incomplete_jobs us now (b_store b1) of
          (Inl e, db) \<Rightarrow> (Inl e, b1\<lparr>b_store := db\<rparr>)
        | (Inr recovered, db) \<Rightarrow> (Inr (), fold b_schedule recovered (b1\<lparr>b_store := db\<rparr>)))"

text \<open>\<open>if retry is not None: if not self._shutdown_requested: self._schedule(..)\<close>\<close>

definition b_reschedule :: "created_job option \<Rightarrow> backend \<Rightarrow> backend" where
  "b_reschedule retry b =
     (case retry of None \<Rightarrow> b
      | Some created \<Rightarrow> if b_shutdown_requested b then b else b_schedule created b)"

text \<open>The first waiting task gets a free slot of the semaphore.\<close>

definition b_task_begins ::
    "nonces \<Rightarrow> timestamp \<Rightarrow> (job_type \<Rightarrow> bool) \<Rightarrow> backend \<Rightarrow> backend" where
  "b_task_begins u now registered b =
     (case b_waiting b of
        [] \<Rightarrow> b
      | created # rest \<Rightarrow>
          if b_concurrency b \<le> length (b_running b) then b
          else case execute_begin u now (b_shutdown_requested b) registered created (b_store b) of
              (Inl e, db) \<Rightarrow> b\<lparr>b_store := db, b_waiting := rest\<rparr>
            | (Inr HandlerCalled, db) \<Rightarrow>
                b\<lparr>b_store := db, b_waiting := rest, b_running := b_running b @ [created]\<rparr>
            | (Inr (TaskReturned retry), db) \<Rightarrow>
                b_reschedule retry (b\<lparr>b_store := db, b_waiting := rest\<rparr>))"

text \<open>The handler of the task for \<open>job_id\<close> returned or raised.\<close>

definition b_task_ends ::
    "nonces \<Rightarrow> timestamp \<Rightarrow> string \<Rightarrow> exn + string list \<Rightarrow> backend \<Rightarrow> backend" where
  "b_task_ends u now job_id result b =
     (case List.find (\<lambda>c. j_job_id (cj_job c) = job_id) (b_running b) of
        None \<Rightarrow> b
      | Some created \<Rightarrow>
          (let b1 = b\<lparr>b_running := remove1 created (b_running b)\<rparr> in
           case execute_end u now (b_shutdown_requested b) created result (b_store b) of
             (Inl e, db) \<Rightarrow> b1\<lparr>b_store := db\<rparr>
           | (Inr retry, db) \<Rightarrow> b_reschedule retry (b1\<lparr>b_store := db\<rparr>)))"

text \<open>
  \<open>shutdown\<close>: no new job is accepted; when the grace period is over the flag is set, the attempts
  of the tasks that are still there are closed as lost, and the tasks are dropped.
\<close>

definition b_shutdown_starts :: "backend \<Rightarrow> backend" where
  "b_shutdown_starts b = b\<lparr>b_accepting := False\<rparr>"

definition b_shutdown_flag :: "backend \<Rightarrow> backend" where
  "b_shutdown_flag b = b\<lparr>b_shutdown_requested := True\<rparr>"

fun finish_pending :: "timestamp \<Rightarrow> created_job list \<Rightarrow> cp_db \<Rightarrow> (cp_db, unit) outcome" where
  "finish_pending now [] db = (Inr (), db)"
| "finish_pending now (c # cs) db =
     and_then (finish_safely now c ALost ''application_shutdown'' db) (\<lambda>_ db. finish_pending now cs db)"

definition b_shutdown_ends :: "timestamp \<Rightarrow> backend \<Rightarrow> (backend, unit) outcome" where
  "b_shutdown_ends now b =
     (case finish_pending now (b_waiting b @ b_running b) (b_store b) of
        (Inl e, db) \<Rightarrow> (Inl e, b\<lparr>b_store := db\<rparr>)
      | (Inr _, db) \<Rightarrow> (Inr (), b\<lparr>b_store := db, b_waiting := [], b_running := []\<rparr>))"

end
