(* ===== verification/Cp_Backend_Props.thy ===== *)
theory Cp_Backend_Props
  imports Cp_Backend
begin

text \<open>
  What one task of the backend does to its job and its attempt (\<open>Cp_Backend\<close>).
\<close>

section \<open>The rows a task works on\<close>

text \<open>The attempt of the task and the job it belongs to are stored as \<open>a\<close> and \<open>j\<close>.\<close>

definition task_at :: "created_job \<Rightarrow> cp_db \<Rightarrow> job_record \<Rightarrow> job_attempt \<Rightarrow> bool" where
  "task_at c db j a \<longleftrightarrow> db_inv db
     \<and> job_row_at (j_job_id (cj_job c)) db = Some (job_row_of j)
     \<and> attempt_row_at (a_attempt_id (cj_attempt c)) db = Some (attempt_row_of a)
     \<and> a_job_id a = j_job_id (cj_job c)
     \<and> a_execution_token_hash a = stable_hash (cj_execution_token c)"

lemma task_at_ids:
  assumes "task_at c db j a"
  shows "j_job_id j = j_job_id (cj_job c)" "a_attempt_id a = a_attempt_id (cj_attempt c)"
    "job_record_valid j" "job_attempt_valid a" "j_current_attempt_number j \<le> j_max_attempts j"
  using assms job_row_at_key [of _ db "job_row_of j"] attempt_row_at_key [of _ db "attempt_row_of a"]
    db_inv_job_row [of db _ "job_row_of j"] db_inv_attempt_row [of db _ "attempt_row_of a"]
  by (auto simp: task_at_def job_row_ok_def attempt_row_ok_def)

lemma task_at_get:
  assumes "task_at c db j a"
  shows "get_job (j_job_id (cj_job c)) db = Inr j" "get_attempt (a_attempt_id (cj_attempt c)) db = Inr a"
  using assms task_at_ids [OF assms] by (simp_all add: task_at_def get_job_def get_attempt_def validators)

lemma task_at_live:
  assumes "task_at c db j a" and "attempt_live (a_status a)"
  shows "job_executing (j_status j)" "j_current_attempt_number j = a_attempt_number a"
proof -
  have mem: "attempt_row_of a \<in> set (job_attempts db)" and inv: "db_inv db"
    using assms(1) attempt_row_at_key by (auto simp: task_at_def)
  obtain r where "job_row_at (ar_job_id (attempt_row_of a)) db = Some r" "attempt_fits (attempt_row_of a) r"
    using inv mem by (rule db_inv_fits)
  with assms show "job_executing (j_status j)" "j_current_attempt_number j = a_attempt_number a"
    by (auto simp: task_at_def attempt_fits_def)
qed

lemma task_at_update_job:
  assumes t: "task_at c db j a" and "same_job j j'" and "db_inv (update_job j' db)"
  shows "task_at c (update_job j' db) j' a"
proof -
  have r: "job_row_at (j_job_id (cj_job c)) db = Some (job_row_of j)" and "inv_rows db"
    using t by (simp_all add: task_at_def db_inv_def)
  then have "job_row_at (j_job_id (cj_job c)) (update_job j' db) = Some (job_row_of j')"
    using job_row_at_updated [of db _ _ j'] assms(2) by simp
  with t assms(3) show ?thesis by (simp add: task_at_def)
qed

lemma task_at_update_attempt:
  assumes t: "task_at c db j a" and "same_attempt a a'" and "db_inv (update_attempt a' db)"
  shows "task_at c (update_attempt a' db) j a'"
proof -
  have r: "attempt_row_at (a_attempt_id (cj_attempt c)) db = Some (attempt_row_of a)" and "inv_rows db"
    using t by (simp_all add: task_at_def db_inv_def)
  then have "attempt_row_at (a_attempt_id (cj_attempt c)) (update_attempt a' db) = Some (attempt_row_of a')"
    using attempt_row_at_updated [of db _ _ a'] assms(2) by simp
  with t assms(2,3) show ?thesis by (simp add: task_at_def same_attempt_def)
qed

lemma task_at_same_tables:
  "task_at c db j a \<Longrightarrow> db_inv db' \<Longrightarrow> jobs db' = jobs db \<Longrightarrow> job_attempts db' = job_attempts db \<Longrightarrow>
   task_at c db' j a"
  by (simp add: task_at_def job_row_at_def attempt_row_at_def)

text \<open>The calls of \<open>_execute\<close> from such a store.\<close>

lemma task_transition_job:
  assumes t: "task_at c db j a" and target: "job_executing target"
  shows "if target \<in> set (JOB_TRANSITIONS (j_status j)) then
      \<exists>j' db'. transition_job now (j_job_id (cj_job c)) target None None db = (Inr j', db')
        \<and> task_at c db' j' a \<and> j_status j' = target \<and> same_job j j'
        \<and> j_current_attempt_number j' = j_current_attempt_number j
        \<and> outbox_events db' = outbox_events db
    else transition_job now (j_job_id (cj_job c)) target None None db
      = (Inl (ControlPlaneError ''invalid_job_transition''), db)"
proof (cases "target \<in> set (JOB_TRANSITIONS (j_status j))")
  case True
  have nt: "\<not> job_terminal (j_status j)" using True by (cases "j_status j") auto
  have nt': "\<not> job_terminal target" using target unfolding job_executing_def by blast
  let ?j = "j\<lparr>j_status := target, j_error_code := None, j_updated_at := now,
                j_finished_at := None, j_revision := j_revision j + 1,
                j_started_at := (if target = JRunning \<and> j_started_at j = None then Some now
                                 else j_started_at j)\<rparr>"
  have v: "job_record_valid ?j" using task_at_ids(3) [OF t] nt' by (simp add: job_record_valid_def)
  have same: "same_job j ?j" by (simp add: same_job_def)
  have tr: "transition_job now (j_job_id (cj_job c)) target None None db = (Inr ?j, update_job ?j db)"
    using True nt nt' v task_at_get(1) [OF t] by (simp add: transition_job_def Let_def validators)
  have "db_inv (update_job ?j db)"
    using db_inv_transition_job [OF _ target, of db now "j_job_id (cj_job c)" None None] tr t
    by (simp add: task_at_def)
  then have t': "task_at c (update_job ?j db) ?j a" by (rule task_at_update_job [OF t same])
  show ?thesis unfolding if_P [OF True]
    by (rule exI [of _ ?j], rule exI [of _ "update_job ?j db"]) (use tr t' same in simp)
next
  case False
  then show ?thesis using task_at_get(1) [OF t] by (simp add: transition_job_def)
qed

lemma task_transition_attempt:
  assumes t: "task_at c db j a" and target: "target \<in> set (ATTEMPT_TRANSITIONS (a_status a))"
  shows "\<exists>a' db'. transition_attempt now (a_attempt_id (cj_attempt c)) (cj_execution_token c) target w ct db
      = (Inr a', db') \<and> task_at c db' j a' \<and> a_status a' = target
      \<and> outbox_events db' = outbox_events db"
proof -
  let ?a = "a\<lparr>a_status := target, a_updated_at := now,
                a_worker_id_hash := (if w \<noteq> None then w else a_worker_id_hash a),
                a_celery_task_id := (if ct \<noteq> None then ct else a_celery_task_id a),
                a_heartbeat_at := (if target \<in> {AClaimed, ARunning} then Some now else a_heartbeat_at a),
                a_started_at := (if target = ARunning then Some now else a_started_at a)\<rparr>"
  have v: "job_attempt_valid ?a" using task_at_ids(4) [OF t] by (simp add: job_attempt_valid_def)
  have tok: "a_execution_token_hash a = stable_hash (cj_execution_token c)" using t by (simp add: task_at_def)
  have tr: "transition_attempt now (a_attempt_id (cj_attempt c)) (cj_execution_token c) target w ct db
      = (Inr ?a, update_attempt ?a db)"
    using target v tok task_at_get(2) [OF t] by (simp add: transition_attempt_def Let_def validators)
  have "db_inv (update_attempt ?a db)"
    using db_inv_transition_attempt [of db now "a_attempt_id (cj_attempt c)" "cj_execution_token c" target w ct]
      tr t by (simp add: task_at_def)
  moreover have "same_attempt a ?a" by (simp add: same_attempt_def)
  ultimately have "task_at c (update_attempt ?a db) j ?a" by (intro task_at_update_attempt [OF t])
  with tr show ?thesis by (intro exI [of _ ?a] exI [of _ "update_attempt ?a db"]) simp
qed

lemma task_mark_consumed:
  assumes t: "task_at c db j a"
  shows "(\<exists>ev db'. mark_outbox_consumed_local now k db = (Inr ev, db') \<and> task_at c db' j a)
    \<or> (\<exists>code. mark_outbox_consumed_local now k db = (Inl (ControlPlaneError code), db)
         \<and> code \<in> {''outbox_not_found'', ''outbox_not_pending''})"
proof -
  have inv: "db_inv db" using t by (simp add: task_at_def)
  show ?thesis
  proof (cases "mark_outbox_consumed_local now k db")
    case (Pair res db')
    show ?thesis
    proof (cases res)
      case (Inr ev)
      have "db_inv db'" using db_inv_mark_outbox_consumed_local [OF inv, of now k] Pair by simp
      moreover have "jobs db' = jobs db" "job_attempts db' = job_attempts db"
        using mark_outbox_jobs(3) [of now k db] mark_outbox_attempts(3) [of now k db] Pair by simp_all
      ultimately show ?thesis using Pair Inr task_at_same_tables [OF t] by simp
    next
      case (Inl e)
      have "e \<noteq> ValidationError"
        using Pair Inl db_inv_outbox_row(2) [OF inv]
        by (auto simp: mark_outbox_consumed_local_def validators Let_def split: option.splits if_splits)
      with Pair Inl show ?thesis
        by (auto simp: mark_outbox_consumed_local_def validators Let_def split: option.splits if_splits)
    qed
  qed
qed

lemma task_complete:
  assumes t: "task_at c db j a" and st: "complete_allowed st"
    and "st \<in> set (ATTEMPT_TRANSITIONS (a_status a)) \<or> a_status a = ACreated" and "length refs \<le> 200"
  shows "\<exists>j' a' db'. complete_attempt now (a_attempt_id (cj_attempt c)) (cj_execution_token c) st ec refs db
      = (Inr (a', j'), db') \<and> task_at c db' j' a' \<and> a_status a' = st \<and> j_status j' = complete_target st
      \<and> same_job j j' \<and> j_current_attempt_number j' = j_current_attempt_number j
      \<and> j_result_artifact_ref_ids j' = (if refs \<noteq> [] then refs else j_result_artifact_ref_ids j)
      \<and> j_error_code j' = ec \<and> j_job_id j' = j_job_id j
      \<and> outbox_events db' = outbox_events db \<and> attempt_ids db' = attempt_ids db"
proof -
  have inv: "db_inv db" using t by (simp add: task_at_def)
  note iff = complete_attempt_ok_iff [OF inv, of now "a_attempt_id (cj_attempt c)" "cj_execution_token c" st ec refs]
  have "is_ok (fst (complete_attempt now (a_attempt_id (cj_attempt c)) (cj_execution_token c) st ec refs db))"
    using assms by (simp add: iff task_at_def attempt_row_of_def)
  then obtain a' j' db' where ok: "complete_attempt now (a_attempt_id (cj_attempt c)) (cj_execution_token c) st ec refs db
      = (Inr (a', j'), db')"
    by (cases "complete_attempt now (a_attempt_id (cj_attempt c)) (cj_execution_token c) st ec refs db";
        cases "fst (complete_attempt now (a_attempt_id (cj_attempt c)) (cj_execution_token c) st ec refs db)") auto
  then obtain att job where g: "get_attempt (a_attempt_id (cj_attempt c)) db = Inr att" "get_job (a_job_id att) db = Inr job"
    and r: "same_attempt att a'" "a_status a' = st" "same_job job j'" "j_status j' = complete_target st"
      "j_current_attempt_number j' = j_current_attempt_number job"
      "j_result_artifact_ref_ids j' = (if refs \<noteq> [] then refs else j_result_artifact_ref_ids job)"
      "j_error_code j' = ec" "db' = update_job j' (update_attempt a' db)" "job_attempt_valid a'"
    by (auto elim!: complete_attempt_Inr)
  from g task_at_get [OF t] t have eq: "att = a" "job = j" by (auto simp: task_at_def)
  have inv': "db_inv db'"
    using db_inv_complete_attempt [OF inv, of now "a_attempt_id (cj_attempt c)" "cj_execution_token c" st ec refs] ok
    by simp
  have ar: "attempt_row_at (a_attempt_id (cj_attempt c)) db = Some (attempt_row_of a)" using t by (simp add: task_at_def)
  have inv1: "db_inv (update_attempt a' db)"
    using db_inv_update_attempt [OF inv ar, of a'] r(1,2,9) eq complete_allowed_not_live [OF st] by simp
  have "task_at c (update_attempt a' db) j a'"
    by (rule task_at_update_attempt [OF t _ inv1]) (use r eq in simp)
  then have "task_at c db' j' a'"
    using task_at_update_job [of c "update_attempt a' db" j a' j'] r eq inv' by simp
  moreover have "attempt_ids db' = attempt_ids db"
    using r(8) by (simp add: attempt_ids_def update_attempt_def image_update_by)
  moreover have "outbox_events db' = outbox_events db" using r(8) by simp
  ultimately show ?thesis using ok r eq by (simp add: same_job_def)
qed

lemma task_complete_refused:
  assumes t: "task_at c db j a" and st: "complete_allowed st"
    and no: "st \<notin> set (ATTEMPT_TRANSITIONS (a_status a))" "a_status a \<noteq> ACreated"
  shows "\<exists>code. complete_attempt now (a_attempt_id (cj_attempt c)) (cj_execution_token c) st ec refs db
      = (Inl (ControlPlaneError code), db) \<and> code \<in> {''late_attempt_result'', ''invalid_attempt_transition''}"
  using t st no task_at_get(2) [OF t] task_at_ids [OF t]
  by (simp add: complete_attempt_def task_at_def validators)

lemma task_complete_too_many:
  assumes t: "task_at c db j a" and st: "complete_allowed st"
    and "st \<in> set (ATTEMPT_TRANSITIONS (a_status a))" and "200 < length refs"
  shows "complete_attempt now (a_attempt_id (cj_attempt c)) (cj_execution_token c) st ec refs db
      = (Inl ValidationError, db)"
proof -
  have "attempt_live (a_status a)" using assms(3) by (auto dest: attempt_transition_live)
  note cur = task_at_live(2) [OF t this]
  have "\<not> job_record_valid (completed_job now (complete_target st) ec refs j)"
    using assms(4) by (auto simp: job_record_valid_def completed_job_def)
  moreover have "job_attempt_valid (completed_attempt now st ec a)"
    using task_at_ids(4) [OF t] by (simp add: job_attempt_valid_def completed_attempt_def)
  ultimately show ?thesis
    using t assms(2,3) cur task_at_get(2) [OF t] task_at_ids [OF t]
    by (simp add: complete_attempt_def task_at_def validators Let_def)
qed

section \<open>Finishing\<close>

lemma finish_safely_result:
  assumes t: "task_at c db j a" and st: "complete_allowed st"
  shows "\<exists>j' a' db'. finish_safely now c st code db = (Inr (), db') \<and> task_at c db' j' a' \<and>
    (if st \<in> set (ATTEMPT_TRANSITIONS (a_status a)) \<or> a_status a = ACreated
     then a_status a' = st \<and> j_status j' = complete_target st \<and> j_error_code j' = Some code \<and> same_job j j'
     else db' = db \<and> a' = a \<and> j' = j)"
proof (cases "st \<in> set (ATTEMPT_TRANSITIONS (a_status a)) \<or> a_status a = ACreated")
  case True
  from task_complete [OF t st True, of "[]" now "Some code"] obtain j' a' db' where
    "complete_attempt now (a_attempt_id (cj_attempt c)) (cj_execution_token c) st (Some code) [] db = (Inr (a', j'), db')"
    "task_at c db' j' a'" "a_status a' = st" "j_status j' = complete_target st" "same_job j j'"
    "j_error_code j' = Some code" by auto
  then show ?thesis unfolding if_P [OF True]
    by (intro exI [of _ j'] exI [of _ a'] exI [of _ db']) (simp add: finish_safely_def)
next
  case False
  with task_complete_refused [OF t st, of now "Some code" "[]"] t show ?thesis
    by (auto simp: finish_safely_def)
qed

lemma handle_exception_other:
  assumes "exc \<noteq> JobShutdownRequested" "exc \<noteq> CancelledError" "\<And>code. exc \<noteq> RetryableJobError code"
  shows "handle_exception u now sd c exc db =
    (if fst (classify_job_error exc) = AFailedRetryable
     then fail_retryable u now is_control_plane_error c (snd (classify_job_error exc)) db
     else and_then (finish_safely now c (fst (classify_job_error exc)) (snd (classify_job_error exc)) db)
            (\<lambda>_ db. (Inr None, db)))"
proof (cases exc)
  case (RetryableJobError x)
  with assms(3) show ?thesis by blast
qed (use assms(1,2) in \<open>simp_all add: handle_exception_def Let_def case_prod_beta
    del: classify_job_error.simps\<close>)

lemma handle_exception_terminal:
  assumes "exc \<noteq> JobShutdownRequested" "exc \<noteq> CancelledError" "\<And>code. exc \<noteq> RetryableJobError code"
    and "fst (classify_job_error exc) = AFailedTerminal"
  shows "handle_exception u now sd c exc db =
    and_then (finish_safely now c AFailedTerminal (snd (classify_job_error exc)) db) (\<lambda>_ db. (Inr None, db))"
  using handle_exception_other [OF assms(1-3)] assms(4) by simp

section \<open>Up to the handler\<close>

lemma execute_prologue_cancelling:
  assumes t: "task_at c db j a" and a: "a_status a = ACreated" and j: "j_status j = JCancelling"
  shows "\<exists>db' j' a'. execute_prologue now reg c db = (Inr False, db') \<and> task_at c db' j' a'
    \<and> a_status a' = ACancelled \<and> j_status j' = JCancelled"
proof -
  from task_complete [OF t, of ACancelled "[]" now "Some ''job_cancelled''"] a obtain j' a' db' where
    "complete_attempt now (a_attempt_id (cj_attempt c)) (cj_execution_token c) ACancelled (Some ''job_cancelled'') [] db
      = (Inr (a', j'), db')" "task_at c db' j' a'" "a_status a' = ACancelled" "j_status j' = JCancelled"
    by (auto simp: complete_allowed_def)
  then show ?thesis using task_at_get(1) [OF t] j
    by (intro exI [of _ db'] exI [of _ j'] exI [of _ a']) (simp add: execute_prologue_def Let_def)
qed

text \<open>The three transitions of the attempt.\<close>

lemma task_attempt_runs:
  assumes t: "task_at c db j a" and a: "a_status a = ACreated"
  obtains db1 db2 db3 a1 a2 a3 where
    "transition_attempt now (a_attempt_id (cj_attempt c)) (cj_execution_token c) ADispatched None None db = (Inr a1, db1)"
    "transition_attempt now (a_attempt_id (cj_attempt c)) (cj_execution_token c) AClaimed
       (Some (stable_hash ''local-in-process'')) None db1 = (Inr a2, db2)"
    "transition_attempt now (a_attempt_id (cj_attempt c)) (cj_execution_token c) ARunning None None db2 = (Inr a3, db3)"
    "task_at c db3 j a3" "a_status a3 = ARunning"
proof -
  from task_transition_attempt [OF t, of ADispatched now None None] a obtain a1 db1 where
    1: "transition_attempt now (a_attempt_id (cj_attempt c)) (cj_execution_token c) ADispatched None None db = (Inr a1, db1)"
      "task_at c db1 j a1" "a_status a1 = ADispatched" by auto
  from task_transition_attempt [OF 1(2), of AClaimed now "Some (stable_hash ''local-in-process'')" None] 1(3)
  obtain a2 db2 where
    2: "transition_attempt now (a_attempt_id (cj_attempt c)) (cj_execution_token c) AClaimed
       (Some (stable_hash ''local-in-process'')) None db1 = (Inr a2, db2)"
      "task_at c db2 j a2" "a_status a2 = AClaimed" by auto
  from task_transition_attempt [OF 2(2), of ARunning now None None] 2(3) obtain a3 db3 where
    3: "transition_attempt now (a_attempt_id (cj_attempt c)) (cj_execution_token c) ARunning None None db2 = (Inr a3, db3)"
      "task_at c db3 j a3" "a_status a3 = ARunning" by auto
  show thesis by (rule that [OF 1(1) 2(1) 3])
qed

lemma execute_prologue_refused:
  assumes t: "task_at c db j a" and a: "a_status a = ACreated"
    and j: "j_status j \<noteq> JCancelling" "j_status j \<noteq> JQueued"
  shows "execute_prologue now reg c db = (Inl (ControlPlaneError ''invalid_job_transition''), db)"
proof -
  have "JDispatching \<notin> set (JOB_TRANSITIONS (j_status j))" using j by (cases "j_status j") auto
  then have "transition_job now (j_job_id (cj_job c)) JDispatching None None db
      = (Inl (ControlPlaneError ''invalid_job_transition''), db)"
    using task_transition_job [OF t, of JDispatching now] by (simp add: job_executing_def)
  then show ?thesis using task_at_get(1) [OF t] j(1) by (simp add: execute_prologue_def Let_def)
qed

lemma execute_prologue_queued:
  assumes t: "task_at c db j a" and a: "a_status a = ACreated" and j: "j_status j = JQueued"
  shows "\<exists>res db' j' a'. execute_prologue now reg c db = (res, db') \<and> task_at c db' j' a' \<and>
    (case res of
       Inr True \<Rightarrow> reg (j_job_type (cj_job c)) \<and> a_status a' = ARunning \<and> j_status j' = JRunning
     | Inr False \<Rightarrow> \<not> reg (j_job_type (cj_job c)) \<and> a_status a' = AFailedTerminal \<and> j_status j' = JFailed
     | Inl e \<Rightarrow> a_status a' = ACreated \<and>
         e \<in> {ControlPlaneError ''outbox_not_found'', ControlPlaneError ''outbox_not_pending''})"
proof -
  have ex: "job_executing JDispatching" "job_executing JDispatched" "job_executing JRunning"
    by (simp_all add: job_executing_def)
  let ?jid = "j_job_id (cj_job c)"
  have get: "get_job ?jid db = Inr j" by (rule task_at_get(1) [OF t])
  from task_transition_job [OF t ex(1), of now] j obtain j1 db1 where
    1: "transition_job now ?jid JDispatching None None db = (Inr j1, db1)" "task_at c db1 j1 a"
      "j_status j1 = JDispatching" by auto
  from task_mark_consumed [OF 1(2), of now "o_outbox_event_id (cj_outbox c)"] consider
    (marked) ev db2 where "mark_outbox_consumed_local now (o_outbox_event_id (cj_outbox c)) db1 = (Inr ev, db2)"
      "task_at c db2 j1 a"
    | (refused) code where
      "mark_outbox_consumed_local now (o_outbox_event_id (cj_outbox c)) db1 = (Inl (ControlPlaneError code), db1)"
      "code \<in> {''outbox_not_found'', ''outbox_not_pending''}"
    by blast
  then show ?thesis
  proof cases
    case refused
    then have "execute_prologue now reg c db = (Inl (ControlPlaneError code), db1)"
      using get 1 j by (simp add: execute_prologue_def Let_def)
    with 1(2) a refused(2) show ?thesis
      by (intro exI [of _ "Inl (ControlPlaneError code)"] exI [of _ db1] exI [of _ j1] exI [of _ a]) simp
  next
    case marked
    from task_transition_job [OF marked(2) ex(2), of now] 1(3) obtain j3 db3 where
      3: "transition_job now ?jid JDispatched None None db2 = (Inr j3, db3)" "task_at c db3 j3 a"
        "j_status j3 = JDispatched" by auto
    obtain db4 db5 db6 a4 a5 a6 where
      r: "transition_attempt now (a_attempt_id (cj_attempt c)) (cj_execution_token c) ADispatched None None db3 = (Inr a4, db4)"
         "transition_attempt now (a_attempt_id (cj_attempt c)) (cj_execution_token c) AClaimed
            (Some (stable_hash ''local-in-process'')) None db4 = (Inr a5, db5)"
         "transition_attempt now (a_attempt_id (cj_attempt c)) (cj_execution_token c) ARunning None None db5 = (Inr a6, db6)"
      and t6: "task_at c db6 j3 a6" "a_status a6 = ARunning"
      using task_attempt_runs [OF 3(2) a] .
    from task_transition_job [OF t6(1) ex(3), of now] 3(3) obtain j7 db7 where
      7: "transition_job now ?jid JRunning None None db6 = (Inr j7, db7)" "task_at c db7 j7 a6"
        "j_status j7 = JRunning" by auto
    note steps = get 1(1) marked(1) 3(1) r 7(1)
    show ?thesis
    proof (cases "reg (j_job_type (cj_job c))")
      case True
      then have "execute_prologue now reg c db = (Inr True, db7)"
        using steps j by (simp add: execute_prologue_def Let_def)
      with 7 t6(2) True show ?thesis
        by (intro exI [of _ "Inr True"] exI [of _ db7] exI [of _ j7] exI [of _ a6]) simp
    next
      case False
      from task_complete [OF 7(2), of AFailedTerminal "[]" now "Some ''job_handler_missing''"] t6(2)
      obtain j8 a8 db8 where
        8: "complete_attempt now (a_attempt_id (cj_attempt c)) (cj_execution_token c) AFailedTerminal
              (Some ''job_handler_missing'') [] db7 = (Inr (a8, j8), db8)"
           "task_at c db8 j8 a8" "a_status a8 = AFailedTerminal" "j_status j8 = JFailed"
        by (auto simp: complete_allowed_def)
      then have "execute_prologue now reg c db = (Inr False, db8)"
        using steps j False by (simp add: execute_prologue_def Let_def)
      with 8 False show ?thesis
        by (intro exI [of _ "Inr False"] exI [of _ db8] exI [of _ j8] exI [of _ a8]) simp
    qed
  qed
qed

lemma execute_begin_result:
  assumes t: "task_at c db j a" and a: "a_status a = ACreated"
  shows "\<exists>res db' j' a'. execute_begin u now sd reg c db = (Inr res, db') \<and> task_at c db' j' a' \<and>
    (case res of
       HandlerCalled \<Rightarrow> j_status j = JQueued \<and> reg (j_job_type (cj_job c)) \<and> a_status a' = ARunning \<and> j_status j' = JRunning
     | TaskReturned retry \<Rightarrow> retry = None \<and> \<not> attempt_live (a_status a')
         \<and> j_status j' = (if j_status j = JCancelling then JCancelled else JFailed))"
proof -
  have failed: "\<exists>res db' j' a'. execute_begin u now sd reg c db = (Inr res, db') \<and> task_at c db' j' a' \<and>
      res = TaskReturned None \<and> \<not> attempt_live (a_status a') \<and> j_status j' = JFailed"
    if p: "execute_prologue now reg c db = (Inl (ControlPlaneError code), db1)" and t1: "task_at c db1 j1 a1"
      and a1: "a_status a1 = ACreated"
      and code: "code \<in> {''outbox_not_found'', ''outbox_not_pending'', ''invalid_job_transition''}" for code db1 j1 a1
  proof -
    have "classify_job_error (ControlPlaneError code) = (AFailedTerminal, code)" using code by auto
    then have h: "handle_exception u now sd c (ControlPlaneError code) db1 =
        and_then (finish_safely now c AFailedTerminal code db1) (\<lambda>_ db. (Inr None, db))"
      using handle_exception_terminal [of "ControlPlaneError code"] by simp
    from finish_safely_result [OF t1, of AFailedTerminal now code] a1 obtain j2 a2 db2 where
      "finish_safely now c AFailedTerminal code db1 = (Inr (), db2)" "task_at c db2 j2 a2"
      "a_status a2 = AFailedTerminal" "j_status j2 = JFailed"
      by (auto simp: complete_allowed_def)
    with p h show ?thesis
      by (intro exI [of _ "TaskReturned None"] exI [of _ db2] exI [of _ j2] exI [of _ a2])
        (simp add: execute_begin_def attempt_live_iff)
  qed
  consider (cancelling) "j_status j = JCancelling" | (queued) "j_status j = JQueued"
    | (other) "j_status j \<noteq> JCancelling" "j_status j \<noteq> JQueued" by blast
  then show ?thesis
  proof cases
    case cancelling
    from execute_prologue_cancelling [OF t a cancelling, of now reg] obtain db' j' a' where
      "execute_prologue now reg c db = (Inr False, db')" "task_at c db' j' a'"
      "a_status a' = ACancelled" "j_status j' = JCancelled" by blast
    with cancelling show ?thesis
      by (intro exI [of _ "TaskReturned None"] exI [of _ db'] exI [of _ j'] exI [of _ a'])
        (simp add: execute_begin_def attempt_live_iff)
  next
    case other
    from failed [OF execute_prologue_refused [OF t a other] t a] other show ?thesis by fastforce
  next
    case queued
    from execute_prologue_queued [OF t a queued, of now reg] obtain res db' j' a' where
      p: "execute_prologue now reg c db = (res, db')" "task_at c db' j' a'"
      and r: "case res of
       Inr True \<Rightarrow> reg (j_job_type (cj_job c)) \<and> a_status a' = ARunning \<and> j_status j' = JRunning
     | Inr False \<Rightarrow> \<not> reg (j_job_type (cj_job c)) \<and> a_status a' = AFailedTerminal \<and> j_status j' = JFailed
     | Inl e \<Rightarrow> a_status a' = ACreated \<and>
         e \<in> {ControlPlaneError ''outbox_not_found'', ControlPlaneError ''outbox_not_pending''}" by blast
    show ?thesis
    proof (cases res)
      case (Inl e)
      then obtain code where "e = ControlPlaneError code" "code \<in> {''outbox_not_found'', ''outbox_not_pending'', ''invalid_job_transition''}"
        using r by auto
      with failed [of code db' j' a'] p r Inl queued show ?thesis by fastforce
    next
      case (Inr b)
      with p r queued show ?thesis
        by (cases b; intro exI [of _ "if b then HandlerCalled else TaskReturned None"] exI [of _ db'] exI [of _ j'] exI [of _ a'])
          (simp_all add: execute_begin_def attempt_live_iff)
    qed
  qed
qed

section \<open>From the handler's outcome on\<close>

text \<open>A refused call of \<open>create_retry_attempt\<close> or a successful one: the attempt stays as it was.\<close>

lemma task_dead_after_retry:
  assumes t: "task_at c db j a" and dead: "\<not> attempt_live (a_status a)"
  shows "attempt_row_at (a_attempt_id (cj_attempt c)) (snd (create_retry_attempt u now k db)) = Some (attempt_row_of a)"
proof -
  have "attempts_later db (snd (create_retry_attempt u now k db))"
    using store_grows_create_retry_attempt by (simp add: store_grows_def)
  with t dead show ?thesis unfolding attempts_later_def attempt_later_def task_at_def by fastforce
qed

text \<open>The attempt of the task is over.\<close>

definition task_over :: "created_job \<Rightarrow> cp_db \<Rightarrow> bool" where
  "task_over c db \<longleftrightarrow> (\<exists>a. attempt_row_at (a_attempt_id (cj_attempt c)) db = Some (attempt_row_of a)
     \<and> \<not> attempt_live (a_status a))"

lemma task_overI: "task_at c db j a \<Longrightarrow> \<not> attempt_live (a_status a) \<Longrightarrow> task_over c db"
  by (auto simp: task_over_def task_at_def)

definition running_or_dead :: "attempt_status \<Rightarrow> bool" where
  "running_or_dead s \<longleftrightarrow> s = ARunning \<or> \<not> attempt_live s"

lemma finish_safely_over:
  assumes t: "task_at c db j a" and r: "running_or_dead (a_status a)"
    and st: "complete_allowed st"
  shows "\<exists>db'. finish_safely now c st code db = (Inr (), db') \<and> task_over c db'"
proof -
  have run: "st \<in> set (ATTEMPT_TRANSITIONS ARunning)" using st by (cases st) (auto simp: complete_allowed_def)
  obtain j' a' db' where f: "finish_safely now c st code db = (Inr (), db')" "task_at c db' j' a'"
    and if': "if st \<in> set (ATTEMPT_TRANSITIONS (a_status a)) \<or> a_status a = ACreated
       then a_status a' = st \<and> j_status j' = complete_target st \<and> j_error_code j' = Some code \<and> same_job j j'
       else db' = db \<and> a' = a \<and> j' = j"
    using finish_safely_result [OF t st] by blast
  have "\<not> attempt_live (a_status a')"
  proof (cases "st \<in> set (ATTEMPT_TRANSITIONS (a_status a)) \<or> a_status a = ACreated")
    case True
    then have "a_status a' = st" using if' by (simp only: if_True)
    with complete_allowed_not_live [OF st] show ?thesis by simp
  next
    case False
    then have "a' = a" using if' by (simp only: if_False)
    with r False run show ?thesis by (auto simp: running_or_dead_def)
  qed
  with f task_overI [OF f(2)] show ?thesis by blast
qed

lemma fail_retryable_over:
  assumes t: "task_at c db j a" and r: "running_or_dead (a_status a)"
  shows "task_over c (snd (fail_retryable u now drops c code db))"
proof (cases "a_status a = ARunning")
  case True
  from task_complete [OF t, of AFailedRetryable "[]" now "Some code"] True obtain j' a' db' where
    c: "complete_attempt now (a_attempt_id (cj_attempt c)) (cj_execution_token c) AFailedRetryable (Some code) [] db
      = (Inr (a', j'), db')" "task_at c db' j' a'" "a_status a' = AFailedRetryable"
    by (auto simp: complete_allowed_def)
  have dead: "\<not> attempt_live (a_status a')" using c(3) by (simp add: attempt_live_iff)
  have over: "task_over c (snd (create_retry_attempt u now (j_job_id j') db'))" "task_over c db'"
    using task_dead_after_retry [OF c(2) dead] dead task_overI [OF c(2) dead] by (auto simp: task_over_def)
  then show ?thesis
    by (cases "create_retry_attempt u now (j_job_id j') db'")
      (auto simp: fail_retryable_def c(1) and_then_def split: sum.split)
next
  case False
  with r have dead: "\<not> attempt_live (a_status a)" by (simp add: running_or_dead_def)
  then have "AFailedRetryable \<notin> set (ATTEMPT_TRANSITIONS (a_status a))" "a_status a \<noteq> ACreated"
    by (auto simp: attempt_live_iff dest: attempt_transition_live)
  from task_complete_refused [OF t _ this, of now "Some code" "[]"] obtain code' where
    "complete_attempt now (a_attempt_id (cj_attempt c)) (cj_execution_token c) AFailedRetryable (Some code) [] db
      = (Inl (ControlPlaneError code'), db)" by (auto simp: complete_allowed_def)
  with task_overI [OF t dead] show ?thesis by (simp add: fail_retryable_def)
qed

lemma handle_exception_over:
  assumes t: "task_at c db j a" and r: "running_or_dead (a_status a)"
  shows "task_over c (snd (handle_exception u now sd c exc db))"
proof -
  have fin: "task_over c (snd (and_then (finish_safely now c st code db) (\<lambda>_ db. (Inr None, db))))"
    if "complete_allowed st" for st code
    using finish_safely_over [OF t r that, of now code] by auto
  consider (shutdown) "exc = JobShutdownRequested" | (cancelled) "exc = CancelledError"
    | (retryable) code where "exc = RetryableJobError code"
    | (other) "exc \<noteq> JobShutdownRequested" "exc \<noteq> CancelledError" "\<And>code. exc \<noteq> RetryableJobError code"
    by blast
  then show ?thesis
  proof cases
    case shutdown
    with fin [of ALost] show ?thesis by (simp add: handle_exception_def complete_allowed_def)
  next
    case cancelled
    with fin [of ALost] fin [of ACancelled] show ?thesis
      by (cases sd) (simp_all add: handle_exception_def complete_allowed_def)
  next
    case retryable
    with fail_retryable_over [OF t r] show ?thesis by (simp add: handle_exception_def)
  next
    case other
    show ?thesis
      using handle_exception_other [OF other] classify_job_error_status [of exc]
        fail_retryable_over [OF t r] fin [of AFailedTerminal] by (auto simp: complete_allowed_def)
  qed
qed

lemma execute_end_over:
  assumes t: "task_at c db j a" and r: "running_or_dead (a_status a)"
  shows "task_over c (snd (execute_end u now sd c result db))"
proof (cases result)
  case (Inl exc)
  with handle_exception_over [OF t r] show ?thesis by (simp add: execute_end_def)
next
  case (Inr refs)
  let ?st = "if j_status j = JCancelling then ACancelled else ASucceeded"
  let ?ec = "if j_status j = JCancelling then Some ''job_cancelled'' else None"
  let ?refs = "if j_status j = JCancelling then [] else refs"
  have ep: "execute_epilogue now c refs db =
      and_then (complete_attempt now (a_attempt_id (cj_attempt c)) (cj_execution_token c) ?st ?ec ?refs db)
        (\<lambda>_ db. (Inr (), db))"
    using task_at_get(1) [OF t] by (simp add: execute_epilogue_def Let_def)
  have allowed: "complete_allowed ?st" by (simp add: complete_allowed_def)
  have over: "task_over c (snd (execute_end u now sd c (Inr refs) db))"
    if "complete_attempt now (a_attempt_id (cj_attempt c)) (cj_execution_token c) ?st ?ec ?refs db = (Inl e, db)" for e
    using handle_exception_over [OF t r, of u now sd e] that ep by (simp add: execute_end_def)
  show ?thesis
  proof (cases "a_status a = ARunning")
    case True
    then have tr: "?st \<in> set (ATTEMPT_TRANSITIONS (a_status a))" by simp
    show ?thesis
    proof (cases "length ?refs \<le> 200")
      case True
      from task_complete [OF t allowed disjI1 [OF tr] this, of now ?ec] obtain j' a' db' where
        c: "complete_attempt now (a_attempt_id (cj_attempt c)) (cj_execution_token c) ?st ?ec ?refs db
          = (Inr (a', j'), db')" "task_at c db' j' a'" "a_status a' = ?st" by auto
      then have "task_over c db'" using complete_allowed_not_live [OF allowed] by (intro task_overI [OF c(2)]) simp
      with c(1) ep Inr show ?thesis by (simp add: execute_end_def)
    next
      case False
      with over task_complete_too_many [OF t allowed tr, of ?refs now ?ec] Inr show ?thesis by simp
    qed
  next
    case False
    with r have "\<not> attempt_live (a_status a)" by (simp add: running_or_dead_def)
    then have "?st \<notin> set (ATTEMPT_TRANSITIONS (a_status a))" "a_status a \<noteq> ACreated"
      by (auto simp: attempt_live_iff dest: attempt_transition_live)
    from task_complete_refused [OF t allowed this, of now ?ec ?refs] over Inr show ?thesis by blast
  qed
qed

end
