(* ===== verification/Cp_Task_Props.thy ===== *)
theory Cp_Task_Props
  imports Cp_Backend_Props
begin

text \<open>
  The properties of the in-process backend: a task settles its attempt, whatever its handler does
  and whatever happens to the store while the handler runs, and the job ends as the outcome says.
\<close>

section \<open>A store with a running attempt, for the witnesses\<close>

definition demo_created :: created_job where
  "demo_created = \<lparr>cj_job = demo_job, cj_attempt = demo_attempt, cj_outbox = demo_event,
     cj_execution_token = ''tok1'', cj_request = JObj []\<rparr>"

lemma demo_db_inv [simp]: "db_inv demo_db"
  unfolding demo_run by (rule run_db_inv [OF demo_ops_allowed])

lemma demo_task_at: "task_at demo_created demo_db demo_job demo_attempt"
  by (simp add: task_at_def demo_created_def)

definition running_job :: "int \<Rightarrow> job_record" where
  "running_job n = demo_job\<lparr>j_status := JRunning, j_started_at := Some 1, j_updated_at := 1, j_revision := n\<rparr>"

definition running_attempt :: job_attempt where
  "running_attempt = demo_attempt\<lparr>a_status := ARunning, a_started_at := Some 1, a_updated_at := 1\<rparr>"

definition running_db :: cp_db where
  "running_db = update_attempt running_attempt (update_job (running_job 4) demo_db)"

lemma running_task_at: "task_at demo_created running_db (running_job 4) running_attempt"
proof -
  have v: "job_record_valid (running_job 4)" "job_attempt_valid running_attempt"
    using demo_valid(1,2) by (simp_all add: running_job_def running_attempt_def job_record_valid_def job_attempt_valid_def)
  have same: "same_job demo_job (running_job 4)" "same_attempt demo_attempt running_attempt"
    by (simp_all add: running_job_def running_attempt_def same_job_def same_attempt_def)
  have "db_inv (update_job (running_job 4) demo_db)"
    by (rule db_inv_update_job [OF demo_db_inv demo_rows(1)])
      (use v same in \<open>simp_all add: running_job_def job_executing_def\<close>)
  then have t1: "task_at demo_created (update_job (running_job 4) demo_db) (running_job 4) demo_attempt"
    using task_at_update_job [OF demo_task_at same(1)] by simp
  have at: "attempt_row_at ''attempt_1'' (update_job (running_job 4) demo_db) = Some (attempt_row_of demo_attempt)"
    by simp
  have "db_inv running_db" unfolding running_db_def
    by (rule db_inv_update_attempt [OF _ at]) (use t1 v same in \<open>simp_all add: task_at_def attempt_live_iff\<close>)
  then show ?thesis unfolding running_db_def using task_at_update_attempt [OF t1 same(2)] by simp
qed

lemma running_db_inv: "db_inv running_db"
  using running_task_at by (simp add: task_at_def)

lemma task_atI:
  assumes inv: "db_inv db" and ra: "attempt_row_at (a_attempt_id (cj_attempt c)) db = Some ra"
    and "ar_job_id ra = j_job_id (cj_job c)"
    and "ar_execution_token_hash ra = stable_hash (cj_execution_token c)"
  shows "\<exists>j. task_at c db j (ar_json ra) \<and> a_status (ar_json ra) = ar_status ra
    \<and> job_row_at (j_job_id (cj_job c)) db = Some (job_row_of j)"
proof -
  have mem: "ra \<in> set (job_attempts db)" using attempt_row_at_key [OF ra] by simp
  have ok: "attempt_row_ok ra" by (rule db_inv_attempt_row [OF inv ra])
  then have eq: "ra = attempt_row_of (ar_json ra)" by (simp add: attempt_row_ok_def)
  have tok: "a_execution_token_hash (ar_json ra) = ar_execution_token_hash ra"
    using eq unfolding attempt_row_of_def by (metis attempt_row.select_convs(5))
  obtain r where r: "job_row_at (ar_job_id ra) db = Some r" using inv mem by (rule db_inv_fits)
  have req: "r = job_row_of (jr_json r)" using db_inv_job_row [OF inv r] by (simp add: job_row_ok_def)
  have r': "job_row_at (j_job_id (cj_job c)) db = Some (job_row_of (jr_json r))"
    using r req assms(3) by simp
  have ra': "attempt_row_at (a_attempt_id (cj_attempt c)) db = Some (attempt_row_of (ar_json ra))"
    using ra eq by simp
  show ?thesis
    by (rule exI [of _ "jr_json r"])
      (simp add: task_at_def inv ra' r' assms(3,4) tok attempt_row_ok_simps [OF ok])
qed

section \<open>Properties\<close>

text \<open>
  When a task gets its slot, it either calls the handler, and then its attempt is RUNNING and
  its job too, or it returns, and then its attempt is over and the job cancelled (if that was asked
  for) or failed: no path of the prologue (a cancelled job, a missing handler, a message that is
  being sent by a dispatcher, an unexpected job status) leaves the attempt open or lets an
  exception escape.
\<close>

theorem task_begin_settles:
  assumes "db_inv db"
    and "attempt_row_at (a_attempt_id (cj_attempt c)) db = Some ra" and "ar_status ra = ACreated"
    and "ar_job_id ra = j_job_id (cj_job c)"
    and "ar_execution_token_hash ra = stable_hash (cj_execution_token c)"
  shows "\<exists>res db' ra' r'. execute_begin u now shutdown registered c db = (Inr res, db') \<and> db_inv db'
    \<and> attempt_row_at (a_attempt_id (cj_attempt c)) db' = Some ra'
    \<and> job_row_at (j_job_id (cj_job c)) db' = Some r'
    \<and> (case res of
         HandlerCalled \<Rightarrow> registered (j_job_type (cj_job c)) \<and> ar_status ra' = ARunning \<and> jr_status r' = JRunning
       | TaskReturned retry \<Rightarrow> retry = None \<and> \<not> attempt_live (ar_status ra')
           \<and> (jr_status r' = JCancelled \<or> jr_status r' = JFailed))"
proof -
  obtain j where t: "task_at c db j (ar_json ra)" "a_status (ar_json ra) = ar_status ra"
    using task_atI [OF assms(1,2,4,5)] by blast
  from execute_begin_result [OF t(1), of u now shutdown registered] t(2) assms(3)
  obtain res db' j' a' where b: "execute_begin u now shutdown registered c db = (Inr res, db')"
    and t': "task_at c db' j' a'"
    and r: "case res of
       HandlerCalled \<Rightarrow> j_status j = JQueued \<and> registered (j_job_type (cj_job c)) \<and> a_status a' = ARunning \<and> j_status j' = JRunning
     | TaskReturned retry \<Rightarrow> retry = None \<and> \<not> attempt_live (a_status a')
         \<and> j_status j' = (if j_status j = JCancelling then JCancelled else JFailed)" by auto
  show ?thesis
    by (intro exI [of _ res] exI [of _ db'] exI [of _ "attempt_row_of a'"] exI [of _ "job_row_of j'"])
      (use b t' r in \<open>auto simp: task_at_def split: task_state.splits if_splits\<close>)
qed

lemma task_begin_settles_witness:
  "\<exists>res db'. execute_begin (demo_nonces ''2'') 1 False (\<lambda>t. t = Analysis) demo_created demo_db = (Inr res, db') \<and> db_inv db'"
  using task_begin_settles [OF demo_db_inv, of demo_created "attempt_row_of demo_attempt"
      "demo_nonces ''2''" 1 False "\<lambda>t. t = Analysis"]
  by (auto simp: demo_created_def attempt_row_of_def)

text \<open>
  C14.  A task never leaves its attempt open: whatever the handler returned or raised, and whatever
  other calls (a cancel, a restart's recovery, a result from elsewhere) changed in the store while it
  ran, the attempt is over when the task has handled the outcome.
\<close>

theorem task_end_closes_attempt:
  assumes "db_inv db0"
    and "attempt_row_at (a_attempt_id (cj_attempt c)) db0 = Some ra" and "ar_status ra = ARunning"
    and "ar_job_id ra = j_job_id (cj_job c)"
    and "ar_execution_token_hash ra = stable_hash (cj_execution_token c)"
    and "list_all op_allowed ops" and "db = fold run_op ops db0"
  shows "\<exists>a. attempt_row_at (a_attempt_id (cj_attempt c)) (snd (execute_end u now shutdown c result db))
      = Some (attempt_row_of a) \<and> \<not> attempt_live (a_status a)"
proof -
  have inv: "db_inv db" using store.run_inv [OF assms(1,6)] assms(7) by simp
  have "attempts_later db0 db"
    using store.run_later [OF assms(1,6)] assms(7) by (simp add: jobs_later_def store_grows_def)
  then obtain ra' where ra': "attempt_row_at (a_attempt_id (cj_attempt c)) db = Some ra'"
    "same_attempt (ar_json ra) (ar_json ra')" "ar_status ra' = ARunning \<or> \<not> attempt_live (ar_status ra')"
    using assms(2,3) unfolding attempts_later_def attempt_later_def by blast
  have ok: "attempt_row_ok ra" "attempt_row_ok ra'"
    using db_inv_attempt_row [OF assms(1,2)] db_inv_attempt_row [OF inv ra'(1)] .
  have tok: "a_execution_token_hash (ar_json x) = ar_execution_token_hash x" if "attempt_row_ok x" for x
    using that unfolding attempt_row_ok_def attempt_row_of_def by (metis attempt_row.select_convs(5))
  have ids: "ar_job_id ra' = j_job_id (cj_job c)"
    "ar_execution_token_hash ra' = stable_hash (cj_execution_token c)"
    using ra'(2) assms(4,5) attempt_row_ok_simps [OF ok(1)] attempt_row_ok_simps [OF ok(2)] tok [OF ok(1)] tok [OF ok(2)]
    by (simp_all add: same_attempt_def)
  obtain j where t: "task_at c db j (ar_json ra')" "a_status (ar_json ra') = ar_status ra'"
    using task_atI [OF inv ra'(1) ids] by blast
  have "running_or_dead (a_status (ar_json ra'))" using t(2) ra'(3) by (simp add: running_or_dead_def)
  from execute_end_over [OF t(1) this] show ?thesis by (simp add: task_over_def)
qed

lemma running_row:
  "attempt_row_at (a_attempt_id (cj_attempt demo_created)) running_db = Some (attempt_row_of running_attempt)"
  "ar_status (attempt_row_of running_attempt) = ARunning"
  "ar_job_id (attempt_row_of running_attempt) = j_job_id (cj_job demo_created)"
  "ar_execution_token_hash (attempt_row_of running_attempt) = stable_hash (cj_execution_token demo_created)"
  "job_row_at (j_job_id (cj_job demo_created)) running_db = Some (job_row_of (running_job 4))"
  using running_task_at
  by (simp_all add: task_at_def running_attempt_def demo_created_def attempt_row_of_def)

lemma task_end_closes_attempt_witness:
  "\<exists>a. attempt_row_at ''attempt_1'' (snd (execute_end (demo_nonces ''2'') 9 False demo_created
      (Inl (ValueError ''boom'')) (fold run_op [RequestCancel 7 ''job_1''] running_db))) = Some (attempt_row_of a)
    \<and> \<not> attempt_live (a_status a)"
  using task_end_closes_attempt [OF running_db_inv running_row(1-4), of "[RequestCancel 7 ''job_1'']" _
      "demo_nonces ''2''" 9 False "Inl (ValueError ''boom'')"]
  by (simp add: demo_created_def)

text \<open>
  The job status and error code that an outcome of the handler calls for (\<open>None\<close> where a retry
  decides).
\<close>

definition expected_end :: "bool \<Rightarrow> bool \<Rightarrow> exn + string list \<Rightarrow> (job_status \<times> string option) option" where
  "expected_end shutdown cancelling result =
     (case result of
        Inr refs \<Rightarrow>
          if cancelling then Some (JCancelled, Some ''job_cancelled'')
          else if 200 < length refs then Some (JFailed, Some ''job_payload_invalid'')
          else Some (JCompleted, None)
      | Inl JobShutdownRequested \<Rightarrow> Some (JRetryWait, Some ''application_shutdown'')
      | Inl CancelledError \<Rightarrow>
          if shutdown then Some (JRetryWait, Some ''application_shutdown'')
          else Some (JCancelled, Some ''job_cancelled'')
      | Inl (RetryableJobError code) \<Rightarrow> None
      | Inl e \<Rightarrow>
          if fst (classify_job_error e) = AFailedTerminal then Some (JFailed, Some (snd (classify_job_error e)))
          else None)"

lemma finish_safely_running:
  assumes t: "task_at c db j a" and "a_status a = ARunning" and st: "complete_allowed st"
  shows "\<exists>db' j'. finish_safely now c st code db = (Inr (), db')
    \<and> job_row_at (j_job_id (cj_job c)) db' = Some (job_row_of j')
    \<and> j_status j' = complete_target st \<and> j_error_code j' = Some code"
proof -
  have run: "st \<in> set (ATTEMPT_TRANSITIONS (a_status a))"
    using assms(2) st by (cases st) (auto simp: complete_allowed_def)
  then have "st \<in> set (ATTEMPT_TRANSITIONS (a_status a)) \<or> a_status a = ACreated" ..
  with finish_safely_result [OF t st, of now code] show ?thesis
    unfolding task_at_def by (simp only: if_True) blast
qed

lemma expected_end_other:
  assumes "exc \<noteq> JobShutdownRequested" "exc \<noteq> CancelledError" "\<And>code. exc \<noteq> RetryableJobError code"
  shows "expected_end sd cn (Inl exc) =
    (if fst (classify_job_error exc) = AFailedTerminal then Some (JFailed, Some (snd (classify_job_error exc))) else None)"
proof (cases exc)
  case (RetryableJobError x)
  with assms(3) show ?thesis by blast
qed (use assms(1,2) in \<open>simp_all add: expected_end_def del: classify_job_error.simps\<close>)

lemma execute_end_exception:
  assumes t: "task_at c db j a" and run: "a_status a = ARunning"
    and e: "expected_end sd cn (Inl exc) = Some (st, code)"
  shows "\<exists>db' j'. handle_exception u now sd c exc db = (Inr None, db')
    \<and> job_row_at (j_job_id (cj_job c)) db' = Some (job_row_of j') \<and> j_status j' = st \<and> j_error_code j' = code"
proof -
  have fin: "\<exists>db' j'. and_then (finish_safely now c s k db) (\<lambda>_ db. (Inr None, db)) = (Inr None, db')
    \<and> job_row_at (j_job_id (cj_job c)) db' = Some (job_row_of j') \<and> j_status j' = complete_target s \<and> j_error_code j' = Some k"
    if "complete_allowed s" for s k
    using finish_safely_running [OF t run that, of now k] by auto
  consider (shutdown) "exc = JobShutdownRequested" | (cancelled) "exc = CancelledError"
    | (retryable) code where "exc = RetryableJobError code"
    | (other) "exc \<noteq> JobShutdownRequested" "exc \<noteq> CancelledError" "\<And>code. exc \<noteq> RetryableJobError code"
    by blast
  then show ?thesis
  proof cases
    case shutdown
    with fin [of ALost "''application_shutdown''"] e show ?thesis
      by (auto simp: handle_exception_def complete_allowed_def expected_end_def)
  next
    case cancelled
    with fin [of ALost "''application_shutdown''"] fin [of ACancelled "''job_cancelled''"] e show ?thesis
      by (cases sd) (auto simp: handle_exception_def complete_allowed_def expected_end_def)
  next
    case retryable
    with e show ?thesis by (simp add: expected_end_def)
  next
    case other
    have cl: "fst (classify_job_error exc) = AFailedTerminal" "st = JFailed" "code = Some (snd (classify_job_error exc))"
      using e expected_end_other [OF other, of sd cn] by (auto split: if_splits)
    with fin [of AFailedTerminal "snd (classify_job_error exc)"] show ?thesis
      using handle_exception_terminal [OF other cl(1)] by (simp add: complete_allowed_def)
  qed
qed

text \<open>
  If nothing else closed the attempt, the job ends as the outcome of its handler says: a
  result completes it with its references (a cancelled one stays cancelled, and more than 200
  references fail it), a cancellation cancels it or, during a shutdown, leaves it for the next
  start, and every error that is not retryable fails it under its classified code; no task is
  scheduled.
\<close>

theorem task_end_outcome:
  assumes "db_inv db"
    and "attempt_row_at (a_attempt_id (cj_attempt c)) db = Some ra" and "ar_status ra = ARunning"
    and "ar_job_id ra = j_job_id (cj_job c)"
    and "ar_execution_token_hash ra = stable_hash (cj_execution_token c)"
    and "job_row_at (j_job_id (cj_job c)) db = Some r"
    and "expected_end shutdown (jr_status r = JCancelling) result = Some (st, code)"
  shows "\<exists>db' j'. execute_end u now shutdown c result db = (Inr None, db')
    \<and> job_row_at (j_job_id (cj_job c)) db' = Some (job_row_of j') \<and> j_status j' = st \<and> j_error_code j' = code
    \<and> (case result of Inr refs \<Rightarrow> st = JCompleted \<and> refs \<noteq> [] \<longrightarrow> j_result_artifact_ref_ids j' = refs
       | Inl _ \<Rightarrow> True)"
proof -
  obtain j where t: "task_at c db j (ar_json ra)" "a_status (ar_json ra) = ar_status ra"
    "job_row_at (j_job_id (cj_job c)) db = Some (job_row_of j)"
    using task_atI [OF assms(1,2,4,5)] by blast
  have run: "a_status (ar_json ra) = ARunning" and r: "j_status j = jr_status r"
    using assms(3,6) t(2,3) by auto
  note t = t(1)
  show ?thesis
  proof (cases result)
    case (Inl exc)
    with execute_end_exception [OF t run, of shutdown "jr_status r = JCancelling" exc st code u now] assms(7)
    show ?thesis by (simp add: execute_end_def)
  next
    case (Inr refs)
    let ?st = "if j_status j = JCancelling then ACancelled else ASucceeded"
    let ?ec = "if j_status j = JCancelling then Some ''job_cancelled'' else None"
    let ?refs = "if j_status j = JCancelling then [] else refs"
    have ep: "execute_epilogue now c refs db =
        and_then (complete_attempt now (a_attempt_id (cj_attempt c)) (cj_execution_token c) ?st ?ec ?refs db)
          (\<lambda>_ db. (Inr (), db))"
      using task_at_get(1) [OF t] by (simp add: execute_epilogue_def Let_def)
    have allowed: "complete_allowed ?st" by (simp add: complete_allowed_def)
    have tr: "?st \<in> set (ATTEMPT_TRANSITIONS (a_status (ar_json ra)))" using run by simp
    show ?thesis
    proof (cases "length ?refs \<le> 200")
      case True
      from task_complete [OF t allowed disjI1 [OF tr] this, of now ?ec] obtain j' a' db' where
        c: "complete_attempt now (a_attempt_id (cj_attempt c)) (cj_execution_token c) ?st ?ec ?refs db
          = (Inr (a', j'), db')" "task_at c db' j' a'" "j_status j' = complete_target ?st" "j_error_code j' = ?ec"
          "j_result_artifact_ref_ids j' = (if ?refs \<noteq> [] then ?refs else j_result_artifact_ref_ids j)"
        by blast
      have "execute_end u now shutdown c result db = (Inr None, db')"
        using c(1) ep Inr by (simp add: execute_end_def)
      moreover have "st = complete_target ?st" "code = ?ec"
        using assms(7) Inr True r by (auto simp: expected_end_def split: if_splits)
      ultimately show ?thesis using c(2-5) Inr
        by (intro exI [of _ db'] exI [of _ j']) (auto simp: task_at_def)
    next
      case False
      then have nc: "j_status j \<noteq> JCancelling" "200 < length refs" by (auto split: if_splits)
      have ep': "execute_epilogue now c refs db = (Inl ValidationError, db)"
        using ep task_complete_too_many [OF t allowed tr, of ?refs now ?ec] nc by simp
      have e: "expected_end shutdown (jr_status r = JCancelling) (Inl ValidationError) = Some (st, code)"
        using assms(7) Inr nc r by (simp add: expected_end_def)
      have "st \<noteq> JCompleted" using assms(7) Inr nc r by (auto simp: expected_end_def)
      with execute_end_exception [OF t run e, of u now] ep' Inr show ?thesis by (simp add: execute_end_def)
    qed
  qed
qed

lemma task_end_outcome_witness:
  "\<exists>db' j'. execute_end (demo_nonces ''2'') 9 False demo_created (Inr [''artifact_1'']) running_db = (Inr None, db')
    \<and> job_row_at ''job_1'' db' = Some (job_row_of j') \<and> j_status j' = JCompleted
    \<and> j_result_artifact_ref_ids j' = [''artifact_1'']"
proof -
  have e: "expected_end False (jr_status (job_row_of (running_job 4)) = JCancelling) (Inr [''artifact_1''])
      = Some (JCompleted, None)"
    by (simp add: expected_end_def running_job_def)
  from task_end_outcome [OF running_db_inv running_row(1-5) e, of "demo_nonces ''2''" 9] show ?thesis
    by (auto simp: demo_created_def)
qed

section \<open>Retries\<close>

lemma task_retry_exhausted:
  assumes t: "task_at c db j a" and j: "j_status j = JRetryWait" "j_max_attempts j \<le> j_current_attempt_number j"
  shows "\<exists>j' db'. create_retry_attempt u now (j_job_id (cj_job c)) db
      = (Inl (ControlPlaneError ''job_attempts_exhausted''), db')
    \<and> job_row_at (j_job_id (cj_job c)) db' = Some (job_row_of j') \<and> j_status j' = JDead"
proof -
  let ?d = "j\<lparr>j_status := JDead, j_finished_at := Some now, j_updated_at := now, j_revision := j_revision j + 1\<rparr>"
  have v: "job_record_valid ?d" using task_at_ids(3) [OF t] by (simp add: job_record_valid_def)
  have ir: "inv_rows db" and r: "job_row_at (j_job_id (cj_job c)) db = Some (job_row_of j)"
    using t by (simp_all add: task_at_def db_inv_def)
  have "job_row_at (j_job_id (cj_job c)) (update_job ?d db) = Some (job_row_of ?d)"
    using job_row_at_updated [OF ir r, of ?d] by (simp add: same_job_def)
  then show ?thesis using task_at_get(1) [OF t] j v
    by (intro exI [of _ ?d] exI [of _ "update_job ?d db"]) (simp add: create_retry_attempt_def validators)
qed

lemma task_retry_queued:
  assumes t: "task_at c db j a" and j: "j_status j = JRetryWait" "j_current_attempt_number j < j_max_attempts j"
    and fresh: "''attempt_'' @ n_attempt u \<notin> attempt_ids db" "''outbox_'' @ n_outbox u \<notin> outbox_ids db"
      "recovery_key (job_row_of j) \<notin> outbox_keys db"
  shows "\<exists>j' c' db'. create_retry_attempt u now (j_job_id (cj_job c)) db = (Inr c', db')
    \<and> job_row_at (j_job_id (cj_job c)) db' = Some (job_row_of j') \<and> j_status j' = JQueued
    \<and> j_current_attempt_number j' = j_current_attempt_number j + 1
    \<and> attempt_row_of (cj_attempt c') \<in> set (job_attempts db') \<and> a_status (cj_attempt c') = ACreated
    \<and> a_attempt_number (cj_attempt c') = j_current_attempt_number j + 1"
proof -
  let ?jid = "j_job_id (cj_job c)"
  let ?att = "new_attempt u now ?jid (j_current_attempt_number j + 1)"
  let ?j = "j\<lparr>j_status := JQueued, j_current_attempt_number := a_attempt_number ?att, j_retryable := False,
       j_error_code := None, j_updated_at := now, j_revision := j_revision j + 1\<rparr>"
  let ?ev = "new_outbox u ?j ?att now"
  have inv: "db_inv db" and r: "job_row_at ?jid db = Some (job_row_of j)" using t by (simp_all add: task_at_def)
  have id: "j_job_id j = ?jid" using task_at_ids(1) [OF t] .
  have v: "job_attempt_valid ?att" "job_record_valid ?j" "outbox_event_valid ?ev"
    using task_at_ids(3) [OF t] j
    by (simp_all add: job_attempt_valid_def outbox_event_valid_def new_attempt_def new_outbox_def
        job_record_valid_def message_deduplication_key_def)
  have key: "o_message_deduplication_key ?ev = recovery_key (job_row_of j)"
    using id by (simp add: new_outbox_def new_attempt_def recovery_key_def)
  have below: "\<forall>x \<in> set (job_attempts db). ar_job_id x = a_job_id ?att \<longrightarrow> ar_attempt_number x < a_attempt_number ?att"
  proof (intro ballI impI)
    fix x assume x: "x \<in> set (job_attempts db)" "ar_job_id x = a_job_id ?att"
    obtain jr where "job_row_at (ar_job_id x) db = Some jr" "attempt_fits x jr" using inv x(1) by (rule db_inv_fits)
    with x(2) r show "ar_attempt_number x < a_attempt_number ?att" by (auto simp: attempt_fits_def new_attempt_def)
  qed
  have "\<exists>db'. start_attempt ?j ?att ?ev db = Some db'"
    by (rule start_attempt_total) (use fresh key below r id in \<open>simp_all add: new_attempt_def new_outbox_def\<close>)
  then obtain db' where st: "start_attempt ?j ?att ?ev db = Some db'" ..
  obtain kvs where "get_job_request_in ?jid db = Inr (JObj kvs)"
    using db_inv_request [OF inv, of "job_row_of j"] job_row_at_key [OF r] id by auto
  with v st j task_at_get(1) [OF t] have cr: "\<exists>c'. create_retry_attempt u now ?jid db = (Inr c', db') \<and> cj_attempt c' = ?att"
    by (simp add: create_retry_attempt_def validators)
  note sd = start_attempt_SomeD [OF st]
  let ?db = "db\<lparr>job_attempts := job_attempts db @ [attempt_row_of ?att],
            outbox_events := outbox_events db @ [outbox_row_of ?ev]\<rparr>"
  have ir: "inv_rows ?db"
    using inv v sd by (auto simp: db_inv_def inv_rows_def attempt_row_ok_def outbox_row_ok_def)
  have "job_row_at ?jid ?db = Some (job_row_of j)" using r by simp
  from job_row_at_updated [OF ir this, of ?j ?jid] sd(1)
  have "job_row_at ?jid db' = Some (job_row_of ?j)" by (simp add: same_job_def)
  moreover have "attempt_row_of ?att \<in> set (job_attempts db')" using sd(1) by simp
  moreover have "a_status ?att = ACreated" "a_attempt_number ?att = j_current_attempt_number j + 1"
    by (simp_all add: new_attempt_def)
  ultimately show ?thesis using cr by (intro exI [of _ ?j]) auto
qed

text \<open>The error code of an outcome that asks for a retry.\<close>

definition retry_code :: "exn + string list \<Rightarrow> string option" where
  "retry_code result =
     (case result of
        Inr refs \<Rightarrow> None
      | Inl JobShutdownRequested \<Rightarrow> None
      | Inl CancelledError \<Rightarrow> None
      | Inl (RetryableJobError code) \<Rightarrow> Some code
      | Inl e \<Rightarrow> if fst (classify_job_error e) = AFailedRetryable then Some (snd (classify_job_error e)) else None)"

lemma execute_end_retryable:
  assumes "retry_code result = Some code"
  obtains drops where "execute_end u now sd c result db = fail_retryable u now drops c code db"
    "drops (ControlPlaneError ''job_attempts_exhausted'')"
proof -
  obtain exc where r: "result = Inl exc" using assms by (cases result) (auto simp: retry_code_def)
  show thesis
  proof (cases "\<exists>k. exc = RetryableJobError k")
    case True
    with assms r that [of "\<lambda>e. e \<noteq> CancelledError"] show thesis
      by (auto simp: retry_code_def execute_end_def handle_exception_def)
  next
    case False
    have "exc \<noteq> JobShutdownRequested" "exc \<noteq> CancelledError"
      using assms r by (auto simp: retry_code_def)
    moreover from this False assms r have "fst (classify_job_error exc) = AFailedRetryable \<and> code = snd (classify_job_error exc)"
      by (cases exc) (auto simp: retry_code_def simp del: classify_job_error.simps split: if_splits)
    ultimately show thesis
      using that [of is_control_plane_error] handle_exception_other [of exc u now sd c db] False r
      by (auto simp: execute_end_def)
  qed
qed

text \<open>
  An outcome that asks for a retry gets it as long as the job has attempts left: the job is
  queued again under the next attempt number and the new attempt is handed to the scheduler; with
  the last attempt gone the job is dead, and nothing is scheduled.
\<close>

theorem task_retry_or_dead:
  assumes "db_inv db"
    and "attempt_row_at (a_attempt_id (cj_attempt c)) db = Some ra" and "ar_status ra = ARunning"
    and "ar_job_id ra = j_job_id (cj_job c)"
    and "ar_execution_token_hash ra = stable_hash (cj_execution_token c)"
    and "job_row_at (j_job_id (cj_job c)) db = Some r"
    and "retry_code result = Some code"
    and "''attempt_'' @ n_attempt u \<notin> attempt_ids db" and "''outbox_'' @ n_outbox u \<notin> outbox_ids db"
    and "recovery_key r \<notin> outbox_keys db"
  shows "\<exists>db' j'. job_row_at (j_job_id (cj_job c)) db' = Some (job_row_of j') \<and>
    (if jr_current_attempt_number r < j_max_attempts (jr_json r)
     then \<exists>c'. execute_end u now shutdown c result db = (Inr (Some c'), db') \<and> j_status j' = JQueued
       \<and> j_current_attempt_number j' = jr_current_attempt_number r + 1
       \<and> a_attempt_number (cj_attempt c') = jr_current_attempt_number r + 1 \<and> a_status (cj_attempt c') = ACreated
     else execute_end u now shutdown c result db = (Inr None, db') \<and> j_status j' = JDead)"
proof -
  obtain j where t: "task_at c db j (ar_json ra)" "a_status (ar_json ra) = ar_status ra"
    "job_row_at (j_job_id (cj_job c)) db = Some (job_row_of j)"
    using task_atI [OF assms(1,2,4,5)] by blast
  have run: "a_status (ar_json ra) = ARunning" and r: "r = job_row_of j" using assms(3,6) t(2,3) by auto
  obtain drops where e: "execute_end u now shutdown c result db = fail_retryable u now drops c code db"
    "drops (ControlPlaneError ''job_attempts_exhausted'')"
    using execute_end_retryable [OF assms(7)] by blast
  from task_complete [OF t(1), of AFailedRetryable "[]" now "Some code"] run obtain j1 a1 db1 where
    1: "complete_attempt now (a_attempt_id (cj_attempt c)) (cj_execution_token c) AFailedRetryable (Some code) [] db
      = (Inr (a1, j1), db1)" "task_at c db1 j1 a1" "j_status j1 = JRetryWait" "same_job j j1"
      "j_current_attempt_number j1 = j_current_attempt_number j"
      "outbox_events db1 = outbox_events db" "attempt_ids db1 = attempt_ids db"
    by (auto simp: complete_allowed_def)
  have id: "j_job_id j1 = j_job_id (cj_job c)" using task_at_ids(1) [OF 1(2)] .
  have max: "j_max_attempts j1 = j_max_attempts j" using 1(4) by (simp add: same_job_def)
  show ?thesis
  proof (cases "j_current_attempt_number j < j_max_attempts j")
    case True
    have "recovery_key (job_row_of j1) = recovery_key (job_row_of j)"
      using 1(4,5) by (simp add: recovery_key_def same_job_def)
    with assms(8-10) 1(6,7) r have fresh: "''attempt_'' @ n_attempt u \<notin> attempt_ids db1"
      "''outbox_'' @ n_outbox u \<notin> outbox_ids db1" "recovery_key (job_row_of j1) \<notin> outbox_keys db1"
      by (simp_all add: outbox_ids_def outbox_keys_def)
    have less: "j_current_attempt_number j1 < j_max_attempts j1" using True 1(5) max by simp
    obtain j2 c2 db2 where
      2: "create_retry_attempt u now (j_job_id (cj_job c)) db1 = (Inr c2, db2)"
        "job_row_at (j_job_id (cj_job c)) db2 = Some (job_row_of j2)" "j_status j2 = JQueued"
        "j_current_attempt_number j2 = j_current_attempt_number j1 + 1"
        "a_status (cj_attempt c2) = ACreated" "a_attempt_number (cj_attempt c2) = j_current_attempt_number j1 + 1"
      using task_retry_queued [OF 1(2,3) less fresh, of now] by blast
    have "execute_end u now shutdown c result db = (Inr (Some c2), db2)"
      using e(1) 1(1) id less 2(1) by (simp add: fail_retryable_def)
    with 2 1(5) r True show ?thesis by (intro exI [of _ db2] exI [of _ j2]) simp
  next
    case False
    then have le: "j_max_attempts j1 \<le> j_current_attempt_number j1" using 1(5) max by simp
    obtain j2 db2 where
      2: "create_retry_attempt u now (j_job_id (cj_job c)) db1 = (Inl (ControlPlaneError ''job_attempts_exhausted''), db2)"
        "job_row_at (j_job_id (cj_job c)) db2 = Some (job_row_of j2)" "j_status j2 = JDead"
      using task_retry_exhausted [OF 1(2,3) le, of u now] by blast
    have "execute_end u now shutdown c result db = (Inr None, db2)"
      using e 1(1) id le 2(1) by (simp add: fail_retryable_def)
    with 2 r False show ?thesis by (intro exI [of _ db2] exI [of _ j2]) simp
  qed
qed

text \<open>For the witness: the running store with a dispatch record whose key is not the one of the
  next attempt.\<close>

definition other_key :: "string \<Rightarrow> string" where
  "other_key k = (if k = replicate 64 CHR ''0'' then replicate 64 CHR ''1'' else replicate 64 CHR ''0'')"

lemma other_key: "other_key k \<noteq> k" "is_sha256_hex (other_key k)"
proof -
  have "is_sha256_hex (replicate 64 CHR ''0'')" "is_sha256_hex (replicate 64 CHR ''1'')"
    "replicate 64 CHR ''1'' \<noteq> replicate 64 CHR ''0''" by code_simp+
  then show "other_key k \<noteq> k" "is_sha256_hex (other_key k)" by (simp_all add: other_key_def)
qed

definition retry_event :: outbox_event where
  "retry_event = demo_event\<lparr>o_message_deduplication_key := other_key (recovery_key (job_row_of (running_job 4)))\<rparr>"

definition retry_db :: cp_db where
  "retry_db = update_outbox ''outbox_1'' (\<lambda>r. r\<lparr>or_message_deduplication_key := o_message_deduplication_key retry_event,
     or_json := retry_event\<rparr>) running_db"

lemma retry_db_tables:
  "db_inv retry_db" "attempt_ids retry_db = {''attempt_1''}" "outbox_ids retry_db = {''outbox_1''}"
  "outbox_keys retry_db = {other_key (recovery_key (job_row_of (running_job 4)))}"
  "attempt_row_at k retry_db = attempt_row_at k running_db" "job_row_at k retry_db = job_row_at k running_db"
proof -
  have ev: "outbox_events running_db = [outbox_row_of demo_event]"
    by (simp add: running_db_def demo_tables)
  have at: "outbox_row_at ''outbox_1'' running_db = Some (outbox_row_of demo_event)"
    by (simp add: outbox_row_at_def ev)
  have "outbox_event_valid retry_event"
    using demo_valid(3) other_key(2) by (simp add: retry_event_def outbox_event_valid_def)
  then show "db_inv retry_db" unfolding retry_db_def
    by (intro db_inv_update_outbox [OF running_db_inv at]) (simp_all add: retry_event_def outbox_row_of_def)
  show "attempt_ids retry_db = {''attempt_1''}"
    by (simp add: retry_db_def attempt_ids_def running_db_def update_attempt_def image_update_by demo_tables)
  show "outbox_ids retry_db = {''outbox_1''}"
    "outbox_keys retry_db = {other_key (recovery_key (job_row_of (running_job 4)))}"
    by (simp_all add: retry_db_def outbox_ids_def outbox_keys_def update_outbox_def update_by_def ev retry_event_def)
  show "attempt_row_at k retry_db = attempt_row_at k running_db" "job_row_at k retry_db = job_row_at k running_db"
    by (simp_all add: retry_db_def)
qed

lemma task_retry_or_dead_witness:
  "\<exists>db' j' c'. execute_end (demo_nonces ''2'') 9 False demo_created (Inl (RetryableJobError ''provider_busy'')) retry_db
      = (Inr (Some c'), db')
    \<and> job_row_at ''job_1'' db' = Some (job_row_of j') \<and> j_status j' = JQueued \<and> a_attempt_number (cj_attempt c') = 2"
proof -
  have "''attempt_'' @ n_attempt (demo_nonces ''2'') \<notin> attempt_ids retry_db"
    "''outbox_'' @ n_outbox (demo_nonces ''2'') \<notin> outbox_ids retry_db"
    "recovery_key (job_row_of (running_job 4)) \<notin> outbox_keys retry_db"
    using other_key(1) [of "recovery_key (job_row_of (running_job 4))"]
    by (simp_all add: retry_db_tables demo_nonces_def)
  moreover have "retry_code (Inl (RetryableJobError ''provider_busy'')) = Some ''provider_busy''"
    by (simp add: retry_code_def)
  ultimately show ?thesis
    using task_retry_or_dead [OF retry_db_tables(1), of demo_created "attempt_row_of running_attempt"
        "job_row_of (running_job 4)" "Inl (RetryableJobError ''provider_busy'')" "''provider_busy''"
        "demo_nonces ''2''" 9 False] running_row
    by (auto simp: retry_db_tables(5,6) demo_created_def running_job_def)
qed

end
