(* ===== verification/Cp_Backend_Runs.thy ===== *)
theory Cp_Backend_Runs
  imports Cp_Task_Props
begin

text \<open>
  The backend as a machine: submissions, cancellations, retries, the starts and ends of its tasks,
  a shutdown, and calls that others (heartbeats, handlers, a second process) make of the same store,
  in any order.  Every run of the backend is a run of the store, so everything proved of the store
  holds of it; and the number of handlers that run at once is bounded.
\<close>

section \<open>The backend only uses the store's operations\<close>

definition by_ops :: "cp_db \<Rightarrow> cp_db \<Rightarrow> bool" where
  "by_ops db db' \<longleftrightarrow> (\<exists>ops. list_all op_allowed ops \<and> db' = fold run_op ops db)"

lemma by_ops_refl [simp]: "by_ops db db"
  by (auto simp: by_ops_def intro: exI [of _ "[]"])

lemma by_ops_op: "op_allowed op \<Longrightarrow> by_ops db (run_op op db)"
  by (auto simp: by_ops_def intro: exI [of _ "[op]"])

lemma by_ops_trans: "by_ops s t \<Longrightarrow> by_ops t u \<Longrightarrow> by_ops s u"
  unfolding by_ops_def by (metis fold_append list_all_append o_apply)

lemma by_ops_and_then:
  assumes "by_ops s (snd m)" and "\<And>x t. by_ops t (snd (f x t))"
  shows "by_ops s (snd (and_then m f))"
proof (cases m)
  case (Pair r t)
  then show ?thesis using assms by_ops_trans by (cases r) auto
qed

lemma by_ops_calls:
  "by_ops db (snd (transition_attempt now k tok st w c db))"
  "job_executing js \<Longrightarrow> by_ops db (snd (transition_job now k js ec rv db))"
  "by_ops db (snd (complete_attempt now k tok st ec refs db))"
  "by_ops db (snd (create_retry_attempt u now k db))"
  "by_ops db (snd (create_manual_retry u now k actor db))"
  "by_ops db (snd (request_cancel now k db))"
  "by_ops db (snd (recover_incomplete_jobs us now db))"
  "by_ops db (snd (mark_outbox_consumed_local now k db))"
  using by_ops_op [of "TransitionAttempt now k tok st w c"] by_ops_op [of "TransitionJob now k js ec rv"]
    by_ops_op [of "CompleteAttempt now k tok st ec refs"] by_ops_op [of "CreateRetryAttempt u now k"]
    by_ops_op [of "CreateManualRetry u now k actor"] by_ops_op [of "RequestCancel now k"]
    by_ops_op [of "RecoverIncompleteJobs us now"] by_ops_op [of "MarkOutboxConsumedLocal now k"]
  by simp_all

lemma by_ops_create_job: "op_allowed (CreateJob u now nj) \<Longrightarrow> by_ops db (snd (create_job u now nj db))"
  using by_ops_op [of "CreateJob u now nj"] by simp

lemma executing_targets: "job_executing JDispatching" "job_executing JDispatched" "job_executing JRunning"
  by (simp_all add: job_executing_def)

lemma by_ops_finish_safely: "by_ops db (snd (finish_safely now c st code db))"
proof -
  have "snd (finish_safely now c st code db) = snd (complete_attempt now (a_attempt_id (cj_attempt c))
      (cj_execution_token c) st (Some code) [] db)"
    by (auto simp: finish_safely_def split: prod.split sum.split exn.split)
  then show ?thesis by (simp add: by_ops_calls)
qed

lemma by_ops_prologue: "by_ops db (snd (execute_prologue now reg c db))"
  unfolding execute_prologue_def Let_def
  by (rule by_ops_and_then, simp)
    (auto intro!: by_ops_and_then by_ops_calls executing_targets)

lemma by_ops_epilogue: "by_ops db (snd (execute_epilogue now c refs db))"
  unfolding execute_epilogue_def Let_def
  by (rule by_ops_and_then, simp) (auto intro!: by_ops_and_then by_ops_calls)

lemma by_ops_fail_retryable: "by_ops db (snd (fail_retryable u now drops c code db))"
proof -
  have "by_ops t (snd (case create_retry_attempt u now k t of
          (Inl e, db') \<Rightarrow> if drops e then (Inr (None :: created_job option), db') else (Inl e, db')
        | (Inr _, db') \<Rightarrow> (Inr None, db')))" for t k
    using by_ops_calls(4) [of t u now k] by (auto split: prod.split sum.split)
  note exhausted = this
  show ?thesis unfolding fail_retryable_def
  proof (rule by_ops_and_then)
    fix x :: "job_attempt \<times> job_record" and t
    obtain att job where x: "x = (att, job)" by (cases x)
    have "by_ops t (snd (and_then (create_retry_attempt u now (j_job_id job) t) (\<lambda>retry db. (Inr (Some retry), db))))"
      by (rule by_ops_and_then) (simp_all add: by_ops_calls)
    with exhausted [of t "j_job_id job"]
    show "by_ops t (snd ((\<lambda>(_, job) db.
       if j_current_attempt_number job < j_max_attempts job then
         and_then (create_retry_attempt u now (j_job_id job) db) (\<lambda>retry db. (Inr (Some retry), db))
       else
         (case create_retry_attempt u now (j_job_id job) db of
            (Inl e, db') \<Rightarrow> if drops e then (Inr None, db') else (Inl e, db')
          | (Inr _, db') \<Rightarrow> (Inr None, db'))) x t))" by (simp add: x)
  qed (simp add: by_ops_calls)
qed

lemma by_ops_handle_exception: "by_ops db (snd (handle_exception u now sd c exc db))"
proof -
  have fin: "by_ops db (snd (and_then (finish_safely now c st code db) (\<lambda>_ db. (Inr (None :: created_job option), db))))" for st code
    by (rule by_ops_and_then) (simp_all add: by_ops_finish_safely)
  consider "exc = JobShutdownRequested" | "exc = CancelledError" | code where "exc = RetryableJobError code"
    | (other) "exc \<noteq> JobShutdownRequested" "exc \<noteq> CancelledError" "\<And>code. exc \<noteq> RetryableJobError code"
    by blast
  then show ?thesis
  proof cases
    case other
    show ?thesis using handle_exception_other [OF other] fin by (simp add: by_ops_fail_retryable)
  qed (simp_all add: handle_exception_def fin by_ops_fail_retryable)
qed

lemma by_ops_begin: "by_ops db (snd (execute_begin u now sd reg c db))"
proof (cases "execute_prologue now reg c db")
  case (Pair res t)
  then have t: "by_ops db t" using by_ops_prologue [of db now reg c] by simp
  show ?thesis
  proof (cases res)
    case (Inl e)
    have "by_ops t (snd (and_then (handle_exception u now sd c e t) (\<lambda>retry db. (Inr (TaskReturned retry), db))))"
      by (rule by_ops_and_then) (simp_all add: by_ops_handle_exception)
    with t Pair Inl show ?thesis by (auto simp: execute_begin_def intro: by_ops_trans)
  next
    case (Inr b)
    with t Pair show ?thesis by (cases b) (simp_all add: execute_begin_def)
  qed
qed

lemma by_ops_end: "by_ops db (snd (execute_end u now sd c result db))"
proof (cases result)
  case (Inl e)
  then show ?thesis by (simp add: execute_end_def by_ops_handle_exception)
next
  case (Inr refs)
  obtain res t where e: "execute_epilogue now c refs db = (res, t)" by fastforce
  then have t: "by_ops db t" using by_ops_epilogue [of db now c refs] by simp
  have "by_ops t (snd (handle_exception u now sd c exc t))" for exc by (rule by_ops_handle_exception)
  with t e Inr by_ops_trans show ?thesis by (cases res) (auto simp: execute_end_def)
qed

lemma by_ops_finish_pending: "by_ops db (snd (finish_pending now cs db))"
  by (induction cs arbitrary: db) (auto intro!: by_ops_and_then by_ops_finish_safely)

section \<open>Runs of the backend\<close>

datatype backend_op =
    Submit nonces timestamp new_job
  | Cancel timestamp string
  | Retry nonces timestamp string
  | Start "string \<Rightarrow> nonces" timestamp
  | TaskBegins nonces timestamp "job_type \<Rightarrow> bool"
  | TaskEnds nonces timestamp string "exn + string list"
  | ShutdownStarts
  | ShutdownFlag
  | ShutdownEnds timestamp
  | StoreCall store_op

fun run_backend_op :: "backend_op \<Rightarrow> backend \<Rightarrow> backend" where
  "run_backend_op (Submit u now nj) b = snd (b_submit u now nj b)"
| "run_backend_op (Cancel now k) b = snd (b_cancel now k b)"
| "run_backend_op (Retry u now k) b = snd (b_retry u now k b)"
| "run_backend_op (Start us now) b = snd (b_start us now b)"
| "run_backend_op (TaskBegins u now reg) b = b_task_begins u now reg b"
| "run_backend_op (TaskEnds u now k result) b = b_task_ends u now k result b"
| "run_backend_op ShutdownStarts b = b_shutdown_starts b"
| "run_backend_op ShutdownFlag b = b_shutdown_flag b"
| "run_backend_op (ShutdownEnds now) b = snd (b_shutdown_ends now b)"
| "run_backend_op (StoreCall op) b = b\<lparr>b_store := run_op op (b_store b)\<rparr>"

fun backend_op_allowed :: "backend_op \<Rightarrow> bool" where
  "backend_op_allowed (Submit u now nj) = op_allowed (CreateJob u now nj)"
| "backend_op_allowed (StoreCall op) = op_allowed op"
| "backend_op_allowed _ = True"

definition backend_later :: "backend \<Rightarrow> backend \<Rightarrow> bool" where
  "backend_later b b' \<longleftrightarrow> by_ops (b_store b) (b_store b') \<and> b_concurrency b' = b_concurrency b"

definition slots_ok :: "backend \<Rightarrow> bool" where
  "slots_ok b \<longleftrightarrow> length (b_running b) \<le> b_concurrency b"

lemma b_schedule_simps [simp]:
  "b_store (b_schedule c b) = b_store b" "b_concurrency (b_schedule c b) = b_concurrency b"
  "b_running (b_schedule c b) = b_running b"
  by (simp_all add: b_schedule_def)

lemma fold_b_schedule [simp]:
  "b_store (fold b_schedule cs b) = b_store b" "b_concurrency (fold b_schedule cs b) = b_concurrency b"
  "b_running (fold b_schedule cs b) = b_running b"
  by (induction cs arbitrary: b) simp_all

lemma b_reschedule_simps [simp]:
  "b_store (b_reschedule r b) = b_store b" "b_concurrency (b_reschedule r b) = b_concurrency b"
  "b_running (b_reschedule r b) = b_running b"
  by (auto simp: b_reschedule_def split: option.split)

lemma backend_step:
  assumes "slots_ok b" and "backend_op_allowed op"
  shows "slots_ok (run_backend_op op b) \<and> backend_later b (run_backend_op op b)"
proof (cases op)
  case (Submit u now nj)
  with assms by_ops_create_job [of u now nj "b_store b"] show ?thesis
    by (cases "create_job u now nj (b_store b)")
      (auto simp: b_submit_def backend_later_def slots_ok_def Let_def split: sum.split)
next
  case (Cancel now k)
  with assms by_ops_calls(6) [of "b_store b" now k] show ?thesis
    by (cases "request_cancel now k (b_store b)")
      (auto simp: b_cancel_def backend_later_def slots_ok_def split: sum.split)
next
  case (Retry u now k)
  with assms by_ops_calls(5) [of "b_store b" u now k "''system''"] show ?thesis
    by (cases "create_manual_retry u now k ''system'' (b_store b)")
      (auto simp: b_retry_def backend_later_def slots_ok_def split: sum.split)
next
  case (Start us now)
  with assms by_ops_calls(7) [of "b_store b" us now] show ?thesis
    by (cases "recover_incomplete_jobs us now (b_store b)")
      (auto simp: b_start_def backend_later_def slots_ok_def Let_def split: sum.split)
next
  case (TaskBegins u now reg)
  show ?thesis
  proof (cases "b_waiting b")
    case Nil
    with TaskBegins assms show ?thesis by (simp add: b_task_begins_def backend_later_def)
  next
    case (Cons c cs)
    with TaskBegins assms by_ops_begin [of "b_store b" u now "b_shutdown_requested b" reg c] show ?thesis
      by (cases "execute_begin u now (b_shutdown_requested b) reg c (b_store b)")
        (auto simp: b_task_begins_def backend_later_def slots_ok_def split: sum.split task_state.split)
  qed
next
  case (TaskEnds u now k result)
  show ?thesis
  proof (cases "List.find (\<lambda>c. j_job_id (cj_job c) = k) (b_running b)")
    case None
    with TaskEnds assms show ?thesis by (simp add: b_task_ends_def backend_later_def)
  next
    case (Some c)
    have "length (remove1 c (b_running b)) \<le> b_concurrency b"
      using assms(1) by (auto simp: slots_ok_def length_remove1)
    with Some TaskEnds assms by_ops_end [of "b_store b" u now "b_shutdown_requested b" c result] show ?thesis
      by (cases "execute_end u now (b_shutdown_requested b) c result (b_store b)")
        (auto simp: b_task_ends_def backend_later_def slots_ok_def Let_def split: sum.split)
  qed
next
  case (ShutdownEnds now)
  with assms by_ops_finish_pending [of "b_store b" now "b_waiting b @ b_running b"] show ?thesis
    by (cases "finish_pending now (b_waiting b @ b_running b) (b_store b)")
      (auto simp: b_shutdown_ends_def backend_later_def slots_ok_def split: sum.split)
next
  case (StoreCall op')
  with assms by_ops_op [of op'] show ?thesis by (simp add: backend_later_def slots_ok_def)
qed (use assms in \<open>simp_all add: b_shutdown_starts_def b_shutdown_flag_def backend_later_def slots_ok_def\<close>)

interpretation backend: machine run_backend_op backend_op_allowed slots_ok backend_later
proof
  show "slots_ok b \<Longrightarrow> backend_op_allowed op \<Longrightarrow> slots_ok (run_backend_op op b)" for b op
    using backend_step by blast
  show "slots_ok b \<Longrightarrow> backend_op_allowed op \<Longrightarrow> backend_later b (run_backend_op op b)" for b op
    using backend_step by blast
  show "backend_later b b" for b by (simp add: backend_later_def)
  show "backend_later b b' \<Longrightarrow> backend_later b' b'' \<Longrightarrow> backend_later b b''" for b b' b''
    using by_ops_trans by (auto simp: backend_later_def)
qed

text \<open>The state \<open>__init__\<close> leaves, over a store.\<close>

definition new_backend :: "nat \<Rightarrow> cp_db \<Rightarrow> backend" where
  "new_backend concurrency db = \<lparr>b_store = db, b_concurrency = concurrency, b_accepting = True,
     b_shutdown_requested = False, b_started = False, b_waiting = [], b_running = []\<rparr>"

text \<open>
  C17.  A run of the backend is a run of the store: whatever the backend and its tasks do, the
  store it leaves is one that a list of (permitted) store operations makes, so the properties of the
  store hold of it; and never more than \<open>concurrency\<close> handlers run at once.
\<close>

theorem backend_refines_store:
  assumes "list_all backend_op_allowed bops" and "list_all op_allowed ops"
    and "b = fold run_backend_op bops (new_backend n (fold run_op ops empty_db))"
  shows "(\<exists>ops'. list_all op_allowed ops' \<and> b_store b = fold run_op ops' empty_db)
    \<and> length (b_running b) \<le> n"
proof -
  let ?b0 = "new_backend n (fold run_op ops empty_db)"
  have ok: "slots_ok ?b0" by (simp add: slots_ok_def new_backend_def)
  have inv: "slots_ok b" using backend.run_inv [OF ok assms(1)] assms(3) by simp
  have later: "backend_later ?b0 b" using backend.run_later [OF ok assms(1)] assms(3) by simp
  have "by_ops empty_db (fold run_op ops empty_db)" using assms(2) by (auto simp: by_ops_def)
  with later have "by_ops empty_db (b_store b)"
    using by_ops_trans by (auto simp: backend_later_def new_backend_def)
  moreover have "length (b_running b) \<le> n"
    using inv later by (simp add: slots_ok_def backend_later_def new_backend_def)
  ultimately show ?thesis by (simp add: by_ops_def)
qed

lemma backend_refines_store_witness:
  "\<exists>b. b = fold run_backend_op [Submit (demo_nonces ''1'') 0 demo_new_job, TaskBegins (demo_nonces ''2'') 1 (\<lambda>_. True)]
       (new_backend 2 (fold run_op [] empty_db))
     \<and> (\<exists>ops'. list_all op_allowed ops' \<and> b_store b = fold run_op ops' empty_db) \<and> length (b_running b) \<le> 2"
  using backend_refines_store [of "[Submit (demo_nonces ''1'') 0 demo_new_job, TaskBegins (demo_nonces ''2'') 1 (\<lambda>_. True)]"
      "[]" _ 2, OF _ _ refl] by (simp add: demo_new_job_def)

text \<open>
  A manual retry during a shutdown raises \<open>job_backend_shutting_down\<close> and nevertheless creates
  the new job: it stays queued in the store (and the next start runs it), because \<open>retry\<close> writes to
  the store before it looks at \<open>_accepting\<close>.
\<close>

theorem retry_during_shutdown_creates_job:
  assumes "\<not> b_accepting b" and "create_manual_retry u now job_id ''system'' (b_store b) = (Inr c, db')"
    and "cj_execution_token c \<noteq> []"
  shows "b_retry u now job_id b = (Inl (ControlPlaneError ''job_backend_shutting_down''), b\<lparr>b_store := db'\<rparr>)
    \<and> get_job (j_job_id (cj_job c)) (b_store b) = Inl (ControlPlaneError ''job_not_found'')
    \<and> get_job (j_job_id (cj_job c)) db' = Inr (cj_job c) \<and> j_status (cj_job c) = JQueued"
proof -
  obtain nj where "create_job u now nj (b_store b) = (Inr c, db')"
    using assms(2) by (auto simp: create_manual_retry_def split: sum.splits if_splits)
  with assms(3) obtain att ev where ins: "insert_new_job u now nj (cj_job c) att ev (b_store b) = Some db'"
    and c: "cj_job c = new_job_record u now nj" "job_record_valid (cj_job c)"
    by (auto simp: create_job_def validators Let_def split: sum.splits if_splits option.splits)
  note d = insert_new_job_SomeD [OF ins]
  have "job_row_at (j_job_id (cj_job c)) (b_store b) = None"
    using d(5) by (simp add: job_row_at_def find_by_None_iff)
  then have "get_job (j_job_id (cj_job c)) (b_store b) = Inl (ControlPlaneError ''job_not_found'')"
    "job_row_at (j_job_id (cj_job c)) db' = Some (job_row_of (cj_job c))"
    by (simp_all add: get_job_def job_row_at_def d(1) find_by_append)
  with assms(1,2) c show ?thesis
    by (simp add: b_retry_def get_job_def validators new_job_record_def)
qed

text \<open>For the witness: a store with one finished job.\<close>

definition shutdown_job :: job_record where
  "shutdown_job = demo_job\<lparr>j_status := JFailed, j_finished_at := Some 5\<rparr>"

definition shutdown_db :: cp_db where
  "shutdown_db = empty_db\<lparr>jobs := [(job_row_of shutdown_job)\<lparr>jr_idempotency_key_hash := []\<rparr>],
     job_requests := [\<lparr>rr_job_id = ''job_1'', rr_workspace_id = ''ws'', rr_project_id = None,
       rr_request_hash = [], rr_request = JObj [], rr_created_at = 0\<rparr>]\<rparr>"

lemma shutdown_retry:
  "\<exists>c db'. create_manual_retry (demo_nonces ''2'') 9 ''job_1'' ''system'' shutdown_db = (Inr c, db')
     \<and> cj_execution_token c \<noteq> []"
proof -
  have v: "job_record_valid shutdown_job" "j_status shutdown_job = JFailed" "j_job_id shutdown_job = ''job_1''"
    using demo_valid(1) by (simp_all add: shutdown_job_def job_record_valid_def)
  let ?nj = "\<lparr>nj_workspace_id = j_workspace_id shutdown_job, nj_project_id = j_project_id shutdown_job,
             nj_job_type = j_job_type shutdown_job, nj_queue_name = j_queue_name shutdown_job,
             nj_request = JObj [], nj_idempotency_key = ''manual-retry:job_1:2'', nj_actor_id_hash = ''system'',
             nj_domain_run_id = None, nj_retry_of_job_id = Some ''job_1'',
             nj_max_attempts = j_max_attempts shutdown_job,
             nj_task_schema_version = j_task_schema_version shutdown_job\<rparr>"
  let ?j = "new_job_record (demo_nonces ''2'') 9 ?nj"
  let ?a = "new_attempt (demo_nonces ''2'') 9 ''job_2'' 1"
  let ?e = "new_outbox (demo_nonces ''2'') ?j ?a 9"
  have req: "create_manual_retry (demo_nonces ''2'') 9 ''job_1'' ''system'' shutdown_db
      = create_job (demo_nonces ''2'') 9 ?nj shutdown_db"
    using v by (simp add: create_manual_retry_def get_job_def job_row_at_def shutdown_db_def validators
        get_job_request_in_def demo_nonces_def)
  have v': "job_record_valid ?j" "job_attempt_valid ?a" "outbox_event_valid ?e"
    using v(1) by (simp_all add: job_record_valid_def job_attempt_valid_def outbox_event_valid_def demo_nonces_def
        new_job_record_def new_attempt_def new_outbox_def request_hash_of_def message_deduplication_key_def
        shutdown_job_def)
  have none: "find_idempotent_job ws (stable_hash k) shutdown_db = None" for ws k
    by (auto simp: find_idempotent_job_def shutdown_db_def dest: sym)
  have id: "j_job_id ?j = ''job_2''" by (simp add: new_job_record_def demo_nonces_def)
  have "\<exists>db'. insert_new_job (demo_nonces ''2'') 9 ?nj ?j ?a ?e shutdown_db = Some db'"
    by (simp add: insert_new_job_def insert_domain_run_def insert_job_def insert_request_def
        insert_attempt_def insert_outbox_def insert_audit_def insert_by_def shutdown_db_def empty_db_def
        find_idempotent_job_def find_attempt_number_def id new_attempt_def new_outbox_def shutdown_job_def
        demo_nonces_def new_job_record_def)
  with none v' id show ?thesis unfolding req
    by (auto simp: create_job_def validators Let_def demo_nonces_def)
qed

lemma retry_during_shutdown_creates_job_witness:
  "\<exists>b' (c :: created_job). b_retry (demo_nonces ''2'') 9 ''job_1'' (b_shutdown_starts (new_backend 2 shutdown_db))
      = (Inl (ControlPlaneError ''job_backend_shutting_down''), b')
    \<and> get_job (j_job_id (cj_job c)) (b_store b') = Inr (cj_job c) \<and> j_status (cj_job c) = JQueued"
proof -
  obtain c db' where c: "create_manual_retry (demo_nonces ''2'') 9 ''job_1'' ''system'' shutdown_db = (Inr c, db')"
    "cj_execution_token c \<noteq> []" using shutdown_retry by blast
  let ?b = "b_shutdown_starts (new_backend 2 shutdown_db)"
  have b: "\<not> b_accepting ?b" "b_store ?b = shutdown_db" by (simp_all add: b_shutdown_starts_def new_backend_def)
  from c(1) b(2) have "create_manual_retry (demo_nonces ''2'') 9 ''job_1'' ''system'' (b_store ?b) = (Inr c, db')"
    by simp
  from retry_during_shutdown_creates_job [OF b(1) this c(2)] show ?thesis
    by (intro exI [of _ "?b\<lparr>b_store := db'\<rparr>"] exI [of _ c]) simp
qed

end
