(* ===== verification/Id_Auth.thy ===== *)
theory Id_Auth
  imports Hashing
begin

text \<open>
  \<open>LocalIdentityService\<close> (\<open>control_plane/auth.py\<close>) over its six tables: users, sessions with
  rotating refresh tokens in families, bootstrap tokens, failed-login accounting and OIDC links.
  Random values (\<open>uuid4\<close>, \<open>secrets.token_urlsafe\<close>), the clock and the password hasher (a third
  party library) are arguments.  Here an access token is the payload that it
  signs; \<open>Id_Token\<close> has its text and its MAC.
\<close>

type_synonym time = int

definition micros :: "int \<Rightarrow> time" where
  "micros s = 1000000 * s"

datatype session_status = SActive | SRevoked

datatype token_status = TActive | TUsed | TRevoked

datatype bootstrap_status = BActive | BUsed

record user_row =
  u_id :: string
  u_name :: string
  u_password_hash :: string
  u_token_version :: int
  u_active :: bool
  u_created :: time
  u_updated :: time

record session_row =
  s_id :: string
  s_user :: string
  s_family :: string
  s_csrf_hash :: string
  s_agent_hash :: "string option"
  s_status :: session_status
  s_expires :: time
  s_created :: time
  s_updated :: time

record refresh_row =
  t_id :: string
  t_family :: string
  t_session :: string
  t_hash :: string
  t_status :: token_status
  t_expires :: time
  t_used_at :: "time option"
  t_revoked_at :: "time option"
  t_created :: time

record bootstrap_row =
  bt_hash :: string
  bt_status :: bootstrap_status
  bt_expires :: time
  bt_used_at :: "time option"

record login_row =
  la_id :: string
  la_identity_hash :: string
  la_source_hash :: string
  la_failed :: bool
  la_occurred :: time

record oidc_row =
  oi_id :: string
  oi_user :: string
  oi_issuer :: string
  oi_subject :: string
  oi_email_hash :: "string option"
  oi_created :: time

record id_db =
  users :: "user_row list"
  sessions :: "session_row list"
  refresh_tokens :: "refresh_row list"
  bootstrap_tokens :: "bootstrap_row list"
  login_attempts :: "login_row list"
  oidc_links :: "oidc_row list"

definition empty_id_db :: id_db where
  "empty_id_db = \<lparr>users = [], sessions = [], refresh_tokens = [], bootstrap_tokens = [],
     login_attempts = [], oidc_links = []\<rparr>"

record id_config =
  access_minutes :: int
  refresh_days :: int
  signing_key_id :: string

record id_nonces =
  in_user :: string
  in_session :: string
  in_family :: string
  in_csrf :: string
  in_refresh :: string
  in_refresh_id :: string
  in_login :: string
  in_link :: string
  in_password :: string
  in_bootstrap :: string

record access_payload =
  ap_sub :: string
  ap_sid :: string
  ap_ver :: int
  ap_iat :: int
  ap_exp :: int
  ap_kid :: string

record session_tokens =
  st_access :: access_payload
  st_refresh :: string
  st_csrf :: string
  st_session :: string
  st_family :: string

text \<open>The password hasher: \<open>hash\<close> and \<open>verify\<close>.\<close>

record hasher =
  h_hash :: "string \<Rightarrow> string"
  h_verify :: "string \<Rightarrow> string \<Rightarrow> bool"

section \<open>User names\<close>

text \<open>\<open>username.strip().casefold()\<close>, on ASCII names.\<close>

definition normalized :: "string \<Rightarrow> string" where
  "normalized name = map fold_case (strip name)"

section \<open>Rows\<close>

definition user_at :: "string \<Rightarrow> id_db \<Rightarrow> user_row option" where
  "user_at k db = find_by u_id k (users db)"

definition user_named :: "string \<Rightarrow> id_db \<Rightarrow> user_row option" where
  "user_named name db = find_by u_name name (users db)"

definition session_at :: "string \<Rightarrow> id_db \<Rightarrow> session_row option" where
  "session_at k db = find_by s_id k (sessions db)"

definition refresh_at :: "string \<Rightarrow> id_db \<Rightarrow> refresh_row option" where
  "refresh_at h db = find_by t_hash h (refresh_tokens db)"

text \<open>\<open>INSERT INTO users\<close>: \<open>user_id\<close> is the key and the name is \<open>UNIQUE\<close>.\<close>

definition insert_user :: "user_row \<Rightarrow> id_db \<Rightarrow> id_db option" where
  "insert_user r db =
     (if user_named (u_name r) db \<noteq> None then None
      else map_option (\<lambda>rows. db\<lparr>users := rows\<rparr>) (insert_by u_id r (users db)))"

definition new_user :: "time \<Rightarrow> string \<Rightarrow> string \<Rightarrow> string \<Rightarrow> user_row" where
  "new_user now user_id name password_hash = \<lparr>u_id = user_id, u_name = name,
     u_password_hash = password_hash, u_token_version = 1, u_active = True,
     u_created = now, u_updated = now\<rparr>"

definition insert_session :: "session_row \<Rightarrow> id_db \<Rightarrow> id_db option" where
  "insert_session r db =
     (if user_at (s_user r) db = None then None
      else map_option (\<lambda>rows. db\<lparr>sessions := rows\<rparr>) (insert_by s_id r (sessions db)))"

definition insert_refresh :: "refresh_row \<Rightarrow> id_db \<Rightarrow> id_db option" where
  "insert_refresh r db =
     (if refresh_at (t_hash r) db \<noteq> None \<or> session_at (t_session r) db = None then None
      else map_option (\<lambda>rows. db\<lparr>refresh_tokens := rows\<rparr>) (insert_by t_id r (refresh_tokens db)))"

section \<open>Sessions and tokens\<close>

definition issue_tokens_in ::
    "id_config \<Rightarrow> id_nonces \<Rightarrow> time \<Rightarrow> string \<Rightarrow> string \<Rightarrow> string \<Rightarrow> int \<Rightarrow> id_db
     \<Rightarrow> (session_tokens \<times> id_db) option" where
  "issue_tokens_in cfg u now user_id session_id family_id token_version db =
     map_option (\<lambda>db'.
       (\<lparr>st_access = \<lparr>ap_sub = user_id, ap_sid = session_id, ap_ver = token_version,
           ap_iat = now div 1000000,
           ap_exp = (now + micros (60 * access_minutes cfg)) div 1000000,
           ap_kid = signing_key_id cfg\<rparr>,
         st_refresh = in_refresh u, st_csrf = in_csrf u, st_session = session_id,
         st_family = family_id\<rparr>,
        db'\<lparr>sessions := update_by s_id session_id
          (\<lambda>s. s\<lparr>s_csrf_hash := stable_hash (in_csrf u), s_updated := now\<rparr>) (sessions db')\<rparr>))
     (insert_refresh \<lparr>t_id = ''refresh_'' @ in_refresh_id u, t_family = family_id,
        t_session = session_id, t_hash = stable_hash (in_refresh u), t_status = TActive,
        t_expires = now + micros (86400 * refresh_days cfg), t_used_at = None,
        t_revoked_at = None, t_created = now\<rparr> db)"

definition create_session ::
    "id_config \<Rightarrow> id_nonces \<Rightarrow> time \<Rightarrow> string \<Rightarrow> int \<Rightarrow> string \<Rightarrow> id_db \<Rightarrow> (id_db, session_tokens) outcome"
where
  "create_session cfg u now user_id token_version user_agent db =
     (let session_id = ''session_'' @ in_session u; family_id = ''family_'' @ in_family u in
      case Option.bind (insert_session \<lparr>s_id = session_id, s_user = user_id, s_family = family_id,
             s_csrf_hash = stable_hash (in_csrf u),
             s_agent_hash = (if user_agent \<noteq> [] then Some (stable_hash user_agent) else None),
             s_status = SActive, s_expires = now + micros (86400 * refresh_days cfg),
             s_created = now, s_updated = now\<rparr> db)
           (issue_tokens_in cfg u now user_id session_id family_id token_version) of
        None \<Rightarrow> (Inl IntegrityError, db)
      | Some (tokens, db') \<Rightarrow> (Inr tokens, db'))"

text \<open>\<open>_revoke_family_in\<close>\<close>

definition revoke_family :: "string \<Rightarrow> time \<Rightarrow> id_db \<Rightarrow> id_db" where
  "revoke_family family_id now db = db\<lparr>
     refresh_tokens := update_where (\<lambda>t. t_family t = family_id \<and> t_status t \<noteq> TRevoked)
       (\<lambda>t. t\<lparr>t_status := TRevoked, t_revoked_at := Some now\<rparr>) (refresh_tokens db),
     sessions := update_where (\<lambda>s. s_family s = family_id)
       (\<lambda>s. s\<lparr>s_status := SRevoked, s_updated := now\<rparr>) (sessions db)\<rparr>"

text \<open>The two \<open>UPDATE\<close> statements that \<open>change_password\<close> and \<open>revoke_all_sessions\<close> share.\<close>

definition revoke_user :: "string \<Rightarrow> time \<Rightarrow> id_db \<Rightarrow> id_db" where
  "revoke_user user_id now db =
     (let ss = update_where (\<lambda>s. s_user s = user_id)
            (\<lambda>s. s\<lparr>s_status := SRevoked, s_updated := now\<rparr>) (sessions db)
      in db\<lparr>sessions := ss,
        refresh_tokens := update_where
          (\<lambda>t. t_session t \<in> set (map s_id (filter (\<lambda>s. s_user s = user_id) ss)) \<and> t_status t = TActive)
          (\<lambda>t. t\<lparr>t_status := TRevoked, t_revoked_at := Some now\<rparr>) (refresh_tokens db)\<rparr>)"

section \<open>Registration\<close>

text \<open>The constructor stores the configured bootstrap token (\<open>INSERT OR IGNORE\<close>).\<close>

definition init_bootstrap :: "time \<Rightarrow> string \<Rightarrow> id_db \<Rightarrow> id_db" where
  "init_bootstrap now bootstrap_token db =
     (case insert_by bt_hash \<lparr>bt_hash = stable_hash bootstrap_token, bt_status = BActive,
             bt_expires = now + micros (3600 * 24), bt_used_at = None\<rparr> (bootstrap_tokens db) of
        None \<Rightarrow> db | Some rows \<Rightarrow> db\<lparr>bootstrap_tokens := rows\<rparr>)"

definition create_bootstrap_token ::
    "id_nonces \<Rightarrow> time \<Rightarrow> int \<Rightarrow> id_db \<Rightarrow> (id_db, string) outcome" where
  "create_bootstrap_token u now ttl_hours db =
     (if \<not> (1 \<le> ttl_hours \<and> ttl_hours \<le> 168)
      then (Inl (ValueError ''bootstrap token ttl must be between 1 and 168 hours''), db)
      else if users db \<noteq> [] then (Inl (AuthenticationError ''bootstrap_already_completed''), db)
      else case insert_by bt_hash \<lparr>bt_hash = stable_hash (in_bootstrap u), bt_status = BActive,
             bt_expires = now + micros (3600 * ttl_hours), bt_used_at = None\<rparr> (bootstrap_tokens db) of
          None \<Rightarrow> (Inl IntegrityError, db)
        | Some rows \<Rightarrow> (Inr (in_bootstrap u), db\<lparr>bootstrap_tokens := rows\<rparr>))"

definition bootstrap_owner ::
    "hasher \<Rightarrow> id_nonces \<Rightarrow> time \<Rightarrow> string \<Rightarrow> string \<Rightarrow> string \<Rightarrow> id_db \<Rightarrow> (id_db, string) outcome" where
  "bootstrap_owner hs u now bootstrap_token username password db =
     (if length (normalized username) < 3 \<or> length password < 12
      then (Inl (AuthenticationError ''invalid_registration''), db)
      else let token_hash = stable_hash bootstrap_token; user_id = ''user_'' @ in_user u in
        case find_by bt_hash token_hash (bootstrap_tokens db) of
          None \<Rightarrow> (Inl (AuthenticationError ''bootstrap_invalid''), db)
        | Some token \<Rightarrow>
            if users db \<noteq> [] \<or> bt_status token \<noteq> BActive \<or> bt_expires token \<le> now
            then (Inl (AuthenticationError ''bootstrap_invalid''), db)
            else case insert_user (new_user now user_id (normalized username) (h_hash hs password)) db of
                None \<Rightarrow> (Inl IntegrityError, db)
              | Some db' \<Rightarrow> (Inr user_id, db'\<lparr>bootstrap_tokens := update_by bt_hash token_hash
                  (\<lambda>t. t\<lparr>bt_status := BUsed, bt_used_at := Some now\<rparr>) (bootstrap_tokens db')\<rparr>))"

definition create_user ::
    "hasher \<Rightarrow> id_nonces \<Rightarrow> time \<Rightarrow> string \<Rightarrow> string \<Rightarrow> id_db \<Rightarrow> (id_db, string) outcome" where
  "create_user hs u now username password db =
     (if length (normalized username) < 3 \<or> length password < 12
      then (Inl (AuthenticationError ''invalid_registration''), db)
      else let user_id = ''user_'' @ in_user u in
        case insert_user (new_user now user_id (normalized username) (h_hash hs password)) db of
          None \<Rightarrow> (Inl (AuthenticationError ''invalid_registration''), db)
        | Some db' \<Rightarrow> (Inr user_id, db'))"

definition create_local_session ::
    "hasher \<Rightarrow> id_config \<Rightarrow> id_nonces \<Rightarrow> time \<Rightarrow> string \<Rightarrow> string \<Rightarrow> id_db
     \<Rightarrow> (id_db, string \<times> session_tokens) outcome" where
  "create_local_session hs cfg u now username user_agent db =
     (if length (normalized username) < 3 then (Inl (AuthenticationError ''invalid_registration''), db)
      else and_then
        (case user_named (normalized username) db of
           Some row \<Rightarrow>
             if \<not> u_active row then (Inl (AuthenticationError ''authentication_failed''), db)
             else (Inr (u_id row, u_token_version row), db)
         | None \<Rightarrow>
             (case insert_user (new_user now (''user_'' @ in_user u) (normalized username)
                     (h_hash hs (in_password u))) db of
                None \<Rightarrow> (Inl IntegrityError, db)
              | Some db' \<Rightarrow> (Inr (''user_'' @ in_user u, 1), db')))
        (\<lambda>(user_id, version) db.
           and_then (create_session cfg u now user_id version user_agent db)
             (\<lambda>tokens db. (Inr (user_id, tokens), db))))"

section \<open>Login\<close>

definition enforce_login_limit :: "time \<Rightarrow> string \<Rightarrow> id_db \<Rightarrow> exn + unit" where
  "enforce_login_limit now identity_hash db =
     (if 5 \<le> length (filter (\<lambda>a. la_identity_hash a = identity_hash \<and> la_failed a \<and>
             now - micros (60 * 15) \<le> la_occurred a) (login_attempts db))
      then Inl (AuthenticationError ''login_rate_limited'') else Inr ())"

definition record_login ::
    "id_nonces \<Rightarrow> time \<Rightarrow> string \<Rightarrow> string \<Rightarrow> bool \<Rightarrow> id_db \<Rightarrow> (id_db, unit) outcome" where
  "record_login u now identity_hash source_hash failed db =
     (case insert_by la_id \<lparr>la_id = ''login_'' @ in_login u, la_identity_hash = identity_hash,
             la_source_hash = source_hash, la_failed = failed, la_occurred = now\<rparr> (login_attempts db) of
        None \<Rightarrow> (Inl IntegrityError, db)
      | Some rows \<Rightarrow> (Inr (), db\<lparr>login_attempts := rows\<rparr>))"

definition login ::
    "hasher \<Rightarrow> id_config \<Rightarrow> id_nonces \<Rightarrow> time \<Rightarrow> string \<Rightarrow> string \<Rightarrow> string \<Rightarrow> id_db
     \<Rightarrow> (id_db, session_tokens) outcome" where
  "login hs cfg u now username password user_agent db =
     (let identity_hash = stable_hash (normalized username);
          source_hash = stable_hash (if user_agent \<noteq> [] then user_agent else ''unknown'') in
      and_then (enforce_login_limit now identity_hash db, db) (\<lambda>_ db.
      case user_named (normalized username) db of
        Some row \<Rightarrow>
          if \<not> u_active row \<or> \<not> h_verify hs (u_password_hash row) password then
            and_then (record_login u now identity_hash source_hash True db)
              (\<lambda>_ db. (Inl (AuthenticationError ''authentication_failed''), db))
          else
            and_then (record_login u now identity_hash source_hash False db)
              (\<lambda>_ db. create_session cfg u now (u_id row) (u_token_version row) user_agent db)
      | None \<Rightarrow>
          and_then (record_login u now identity_hash source_hash True db)
            (\<lambda>_ db. (Inl (AuthenticationError ''authentication_failed''), db))))"

section \<open>Using and ending sessions\<close>

definition list_sessions :: "string \<Rightarrow> id_db \<Rightarrow> session_row list" where
  "list_sessions user_id db =
     sort_key (\<lambda>s. - s_created s) (filter (\<lambda>s. s_user s = user_id) (sessions db))"

definition logout :: "time \<Rightarrow> string \<Rightarrow> id_db \<Rightarrow> id_db" where
  "logout now session_id db =
     (case session_at session_id db of
        None \<Rightarrow> db
      | Some row \<Rightarrow> revoke_family (s_family row) now
          (db\<lparr>sessions := update_by s_id session_id
             (\<lambda>s. s\<lparr>s_status := SRevoked, s_updated := now\<rparr>) (sessions db)\<rparr>))"

definition revoke_session :: "time \<Rightarrow> string \<Rightarrow> string \<Rightarrow> id_db \<Rightarrow> (id_db, unit) outcome" where
  "revoke_session now user_id session_id db =
     (case session_at session_id db of
        None \<Rightarrow> (Inl (AuthenticationError ''session_not_found''), db)
      | Some row \<Rightarrow>
          if s_user row \<noteq> user_id then (Inl (AuthenticationError ''session_not_found''), db)
          else (Inr (), logout now session_id db))"

definition change_password ::
    "hasher \<Rightarrow> time \<Rightarrow> string \<Rightarrow> string \<Rightarrow> string \<Rightarrow> id_db \<Rightarrow> (id_db, unit) outcome" where
  "change_password hs now user_id current_password new_password db =
     (if length new_password < 12 then (Inl (AuthenticationError ''invalid_password''), db)
      else case user_at user_id db of
          None \<Rightarrow> (Inl (AuthenticationError ''authentication_failed''), db)
        | Some row \<Rightarrow>
            if \<not> u_active row \<or> \<not> h_verify hs (u_password_hash row) current_password
            then (Inl (AuthenticationError ''authentication_failed''), db)
            else (Inr (), revoke_user user_id now
              (db\<lparr>users := update_by u_id user_id (\<lambda>r. r\<lparr>u_password_hash := h_hash hs new_password,
                 u_token_version := u_token_version r + 1, u_updated := now\<rparr>) (users db)\<rparr>)))"

definition revoke_all_sessions :: "time \<Rightarrow> string \<Rightarrow> id_db \<Rightarrow> id_db" where
  "revoke_all_sessions now user_id db =
     (let db' = revoke_user user_id now db in
      db'\<lparr>users := update_by u_id user_id
        (\<lambda>r. r\<lparr>u_token_version := u_token_version r + 1, u_updated := now\<rparr>) (users db')\<rparr>)"

definition refresh ::
    "id_config \<Rightarrow> id_nonces \<Rightarrow> time \<Rightarrow> string \<Rightarrow> string \<Rightarrow> id_db \<Rightarrow> (id_db, session_tokens) outcome" where
  "refresh cfg u now refresh_token csrf_token db =
     (case refresh_at (stable_hash refresh_token) db of
        None \<Rightarrow> (Inl (AuthenticationError ''refresh_invalid''), db)
      | Some t \<Rightarrow>
      case session_at (t_session t) db of
        None \<Rightarrow> (Inl (AuthenticationError ''refresh_invalid''), db)
      | Some s \<Rightarrow>
      case user_at (s_user s) db of
        None \<Rightarrow> (Inl (AuthenticationError ''refresh_invalid''), db)
      | Some usr \<Rightarrow>
          if t_status t = TUsed then
            (Inl (AuthenticationError ''refresh_reuse_detected''), revoke_family (t_family t) now db)
          else if t_status t \<noteq> TActive \<or> s_status s \<noteq> SActive \<or> \<not> u_active usr \<or> t_expires t \<le> now
             \<or> s_csrf_hash s \<noteq> stable_hash csrf_token
          then (Inl (AuthenticationError ''refresh_invalid''), db)
          else case issue_tokens_in cfg u now (s_user s) (t_session t) (t_family t) (u_token_version usr)
                 (db\<lparr>refresh_tokens := update_by t_id (t_id t)
                    (\<lambda>x. x\<lparr>t_status := TUsed, t_used_at := Some now\<rparr>) (refresh_tokens db)\<rparr>) of
              None \<Rightarrow> (Inl IntegrityError, db)
            | Some (tokens, db') \<Rightarrow> (Inr tokens, db'))"

text \<open>\<open>verify_access\<close> from the decoded payload on: \<open>(user, session, version)\<close>.\<close>

definition verify_access :: "time \<Rightarrow> access_payload \<Rightarrow> id_db \<Rightarrow> exn + (string \<times> string \<times> int)" where
  "verify_access now p db =
     (if ap_exp p \<le> now div 1000000 then Inl (AuthenticationError ''access_expired'')
      else case session_at (ap_sid p) db of
        None \<Rightarrow> Inl (AuthenticationError ''access_revoked'')
      | Some s \<Rightarrow>
      case user_at (s_user s) db of
        None \<Rightarrow> Inl (AuthenticationError ''access_revoked'')
      | Some usr \<Rightarrow>
          if s_user s \<noteq> ap_sub p \<or> s_status s \<noteq> SActive \<or> \<not> u_active usr \<or> u_token_version usr \<noteq> ap_ver p
          then Inl (AuthenticationError ''access_revoked'')
          else Inr (ap_sub p, ap_sid p, u_token_version usr))"

text \<open>\<open>issuer.startswith("https://")\<close>; the email hash is over its case-folded form.\<close>

definition link_oidc ::
    "id_nonces \<Rightarrow> time \<Rightarrow> string \<Rightarrow> string \<Rightarrow> string \<Rightarrow> string option \<Rightarrow> id_db \<Rightarrow> (id_db, string) outcome" where
  "link_oidc u now user_id issuer subject email db =
     (if take 8 issuer \<noteq> ''https://'' \<or> subject = []
      then (Inl (AuthenticationError ''oidc_identity_invalid''), db)
      else let link_id = ''oidc_'' @ in_link u in
        if user_at user_id db = None
           \<or> find_by (\<lambda>r. (oi_issuer r, oi_subject r)) (issuer, subject) (oidc_links db) \<noteq> None
        then (Inl (AuthenticationError ''oidc_identity_already_linked''), db)
        else case insert_by oi_id \<lparr>oi_id = link_id, oi_user = user_id, oi_issuer = issuer,
               oi_subject = subject,
               oi_email_hash = (case email of Some e \<Rightarrow> if e \<noteq> [] then Some (stable_hash (map fold_case e)) else None
                 | None \<Rightarrow> None),
               oi_created = now\<rparr> (oidc_links db) of
            None \<Rightarrow> (Inl (AuthenticationError ''oidc_identity_already_linked''), db)
          | Some rows \<Rightarrow> (Inr link_id, db\<lparr>oidc_links := rows\<rparr>))"

end
