(* ===== verification/Id_Inv.thy ===== *)
theory Id_Inv
  imports Id_Auth
begin

text \<open>
  The invariant of the identity tables, its preservation by every operation of \<open>Id_Auth\<close>, and what
  no operation ever undoes: a revoked session stays revoked, a user or session is never deleted.
\<close>

section \<open>The invariant\<close>

definition token_fits :: "id_db \<Rightarrow> refresh_row \<Rightarrow> bool" where
  "token_fits db t \<longleftrightarrow> (\<exists>s \<in> set (sessions db). s_id s = t_session t \<and> s_family s = t_family t
     \<and> (t_status t = TActive \<longrightarrow> s_status s = SActive))"

definition one_active :: "id_db \<Rightarrow> bool" where
  "one_active db \<longleftrightarrow> (\<forall>t \<in> set (refresh_tokens db). \<forall>t' \<in> set (refresh_tokens db).
     t_status t = TActive \<and> t_status t' = TActive \<and> t_session t = t_session t' \<longrightarrow> t = t')"

definition id_inv :: "id_db \<Rightarrow> bool" where
  "id_inv db \<longleftrightarrow> distinct (map u_id (users db)) \<and> distinct (map s_id (sessions db))
     \<and> distinct (map t_id (refresh_tokens db)) \<and> distinct (map t_hash (refresh_tokens db))
     \<and> (\<forall>s \<in> set (sessions db). s_user s \<in> u_id ` set (users db))
     \<and> (\<forall>t \<in> set (refresh_tokens db). token_fits db t) \<and> one_active db"

lemma id_inv_empty: "id_inv empty_id_db"
  by (simp add: id_inv_def empty_id_db_def one_active_def)

lemma id_inv_session_at: "id_inv db \<Longrightarrow> s \<in> set (sessions db) \<Longrightarrow> session_at (s_id s) db = Some s"
  unfolding session_at_def by (rule find_by_distinct) (simp_all add: id_inv_def)

lemma session_atD: "session_at k db = Some s \<Longrightarrow> s \<in> set (sessions db) \<and> s_id s = k"
  unfolding session_at_def by (rule find_by_SomeD)

lemma refresh_atD: "refresh_at h db = Some t \<Longrightarrow> t \<in> set (refresh_tokens db) \<and> t_hash t = h"
  unfolding refresh_at_def by (rule find_by_SomeD)

lemma user_atD: "user_at k db = Some r \<Longrightarrow> r \<in> set (users db) \<and> u_id r = k"
  unfolding user_at_def by (rule find_by_SomeD)

lemma id_inv_same_session:
  "id_inv db \<Longrightarrow> s \<in> set (sessions db) \<Longrightarrow> s' \<in> set (sessions db) \<Longrightarrow> s_id s = s_id s' \<Longrightarrow> s = s'"
  by (auto simp: id_inv_def distinct_map dest: inj_onD)

lemma id_inv_same_token:
  "id_inv db \<Longrightarrow> t \<in> set (refresh_tokens db) \<Longrightarrow> t' \<in> set (refresh_tokens db) \<Longrightarrow> t_id t = t_id t' \<Longrightarrow> t = t'"
  by (auto simp: id_inv_def distinct_map dest: inj_onD)

text \<open>The fields that no update of a session writes.\<close>

definition same_session :: "session_row \<Rightarrow> session_row \<Rightarrow> bool" where
  "same_session s s' \<longleftrightarrow> s_id s' = s_id s \<and> s_user s' = s_user s \<and> s_family s' = s_family s
     \<and> s_created s' = s_created s \<and> s_expires s' = s_expires s"

text \<open>Sessions rewritten by \<open>f\<close> and tokens by \<open>g\<close>, row by row: what has to be checked.\<close>

lemma id_inv_rewrite:
  assumes inv: "id_inv db"
    and f: "\<And>s. same_session s (f s)"
    and g: "\<And>t. t_id (g t) = t_id t" "\<And>t. t_hash (g t) = t_hash t" "\<And>t. t_session (g t) = t_session t"
      "\<And>t. t_family (g t) = t_family t" "\<And>t. t_status (g t) = TActive \<Longrightarrow> t_status t = TActive"
    and live: "\<And>s t. s \<in> set (sessions db) \<Longrightarrow> t \<in> set (refresh_tokens db) \<Longrightarrow> s_id s = t_session t \<Longrightarrow>
      s_family s = t_family t \<Longrightarrow> s_status s = SActive \<Longrightarrow> t_status (g t) = TActive \<Longrightarrow> s_status (f s) = SActive"
    and db': "sessions db' = map f (sessions db)" "refresh_tokens db' = map g (refresh_tokens db)"
      "map u_id (users db') = map u_id (users db)"
  shows "id_inv db'"
proof -
  have fs: "s_id (f s) = s_id s" "s_user (f s) = s_user s" "s_family (f s) = s_family s" for s
    using f by (simp_all add: same_session_def)
  have maps: "map s_id (sessions db') = map s_id (sessions db)"
    "map t_id (refresh_tokens db') = map t_id (refresh_tokens db)"
    "map t_hash (refresh_tokens db') = map t_hash (refresh_tokens db)"
    using db' fs g by simp_all
  have users: "u_id ` set (users db') = u_id ` set (users db)"
    using db'(3) by (metis list.set_map)
  have fits: "token_fits db' (g t)" if t: "t \<in> set (refresh_tokens db)" for t
  proof -
    obtain s where s: "s \<in> set (sessions db)" "s_id s = t_session t" "s_family s = t_family t"
      "t_status t = TActive \<longrightarrow> s_status s = SActive"
      using inv t by (auto simp: id_inv_def token_fits_def)
    have "t_status (g t) = TActive \<longrightarrow> s_status (f s) = SActive"
      using live [OF s(1) t s(2,3)] s(4) g(5) by blast
    with s fs g db' show ?thesis by (auto simp: token_fits_def intro!: bexI [of _ s])
  qed
  have "one_active db'"
    unfolding one_active_def
  proof (intro ballI impI)
    fix t t'
    assume "t \<in> set (refresh_tokens db')" "t' \<in> set (refresh_tokens db')"
    then obtain x x' where x: "x \<in> set (refresh_tokens db)" "t = g x" "x' \<in> set (refresh_tokens db)" "t' = g x'"
      using db'(2) by auto
    assume "t_status t = TActive \<and> t_status t' = TActive \<and> t_session t = t_session t'"
    then have "x = x'"
      using inv x g(3,5) unfolding id_inv_def one_active_def by metis
    then show "t = t'" using x by simp
  qed
  moreover have "\<forall>t \<in> set (refresh_tokens db'). token_fits db' t" using fits db'(2) by simp
  moreover have "\<forall>s \<in> set (sessions db'). s_user s \<in> u_id ` set (users db')"
    unfolding users using inv db'(1) fs by (simp add: id_inv_def)
  ultimately show ?thesis
    unfolding id_inv_def maps db'(3) using inv by (simp add: id_inv_def)
qed

lemma id_inv_same_tables:
  assumes "id_inv db" "users db' = users db" "sessions db' = sessions db" "refresh_tokens db' = refresh_tokens db"
  shows "id_inv db'"
  using assms by (simp add: id_inv_def token_fits_def one_active_def)

section \<open>Revocation\<close>

lemma revoke_family_inv: "id_inv db \<Longrightarrow> id_inv (revoke_family k now db)"
  by (rule id_inv_rewrite [where db = db
      and f = "\<lambda>s. if s_family s = k then s\<lparr>s_status := SRevoked, s_updated := now\<rparr> else s"
      and g = "\<lambda>t. if t_family t = k \<and> t_status t \<noteq> TRevoked then t\<lparr>t_status := TRevoked, t_revoked_at := Some now\<rparr> else t"])
    (simp_all add: revoke_family_def update_where_def same_session_def split: if_splits)

lemma revoke_family_post:
  "\<forall>s \<in> set (sessions (revoke_family k now db)). s_family s = k \<longrightarrow> s_status s = SRevoked"
  "\<forall>t \<in> set (refresh_tokens (revoke_family k now db)). t_family t = k \<longrightarrow> t_status t = TRevoked"
  by (simp_all add: revoke_family_def ball_update_where)

lemma user_sessions_ids:
  "set (map s_id (filter (\<lambda>s. s_user s = user_id) (update_where (\<lambda>s. s_user s = user_id)
      (\<lambda>s. s\<lparr>s_status := SRevoked, s_updated := now\<rparr>) ss))) = {s_id s |s. s \<in> set ss \<and> s_user s = user_id}"
proof -
  have *: "map s_id (filter (\<lambda>s. s_user s = user_id) (update_where (\<lambda>s. s_user s = user_id)
      (\<lambda>s. s\<lparr>s_status := SRevoked, s_updated := now\<rparr>) ss)) = map s_id (filter (\<lambda>s. s_user s = user_id) ss)"
    by (induction ss) (simp_all add: update_where_def)
  show ?thesis unfolding * by auto
qed

lemma revoke_user_inv:
  assumes inv: "id_inv db"
  shows "id_inv (revoke_user user_id now db)"
proof (rule id_inv_rewrite [OF inv,
      where f = "\<lambda>s. if s_user s = user_id then s\<lparr>s_status := SRevoked, s_updated := now\<rparr> else s"
      and g = "\<lambda>t. if t_session t \<in> {s_id s |s. s \<in> set (sessions db) \<and> s_user s = user_id} \<and> t_status t = TActive
        then t\<lparr>t_status := TRevoked, t_revoked_at := Some now\<rparr> else t"])
  show "sessions (revoke_user user_id now db) =
      map (\<lambda>s. if s_user s = user_id then s\<lparr>s_status := SRevoked, s_updated := now\<rparr> else s) (sessions db)"
    by (simp add: revoke_user_def update_where_def Let_def)
  show "refresh_tokens (revoke_user user_id now db) =
      map (\<lambda>t. if t_session t \<in> {s_id s |s. s \<in> set (sessions db) \<and> s_user s = user_id} \<and> t_status t = TActive
        then t\<lparr>t_status := TRevoked, t_revoked_at := Some now\<rparr> else t) (refresh_tokens db)"
    unfolding revoke_user_def Let_def user_sessions_ids by (simp add: update_where_def)
  fix s t
  assume s: "s \<in> set (sessions db)" "s_id s = t_session t" "s_status s = SActive"
    and act: "t_status (if t_session t \<in> {s_id s |s. s \<in> set (sessions db) \<and> s_user s = user_id} \<and> t_status t = TActive
        then t\<lparr>t_status := TRevoked, t_revoked_at := Some now\<rparr> else t) = TActive"
  have "s_user s \<noteq> user_id" using s act by (auto split: if_splits)
  with s show "s_status (if s_user s = user_id then s\<lparr>s_status := SRevoked, s_updated := now\<rparr> else s) = SActive" by simp
qed (simp_all add: same_session_def revoke_user_def Let_def split: if_splits)

lemma revoke_user_post:
  "\<forall>s \<in> set (sessions (revoke_user user_id now db)). s_user s = user_id \<longrightarrow> s_status s = SRevoked"
  by (simp add: revoke_user_def ball_update_where Let_def)

lemma revoke_user_frame [simp]:
  "users (revoke_user user_id now db) = users db"
  "login_attempts (revoke_user user_id now db) = login_attempts db"
  by (simp_all add: revoke_user_def Let_def)

lemma update_user_inv:
  assumes "id_inv db" and "\<And>r. u_id (f r) = u_id r"
  shows "id_inv (db\<lparr>users := update_by u_id k f (users db)\<rparr>)"
  using assms(1)
  by (rule id_inv_rewrite [where f = id and g = id])
    (simp_all add: same_session_def map_key_update_by assms(2))

lemma logout_inv:
  assumes inv: "id_inv db"
  shows "id_inv (logout now k db)"
proof (cases "session_at k db")
  case None
  then show ?thesis using inv by (simp add: logout_def)
next
  case (Some row)
  let ?fam = "s_family row"
  show ?thesis
  proof (rule id_inv_rewrite [OF inv,
        where f = "\<lambda>s. if s_family s = ?fam \<or> s_id s = k then s\<lparr>s_status := SRevoked, s_updated := now\<rparr> else s"
        and g = "\<lambda>t. if t_family t = ?fam \<and> t_status t \<noteq> TRevoked then t\<lparr>t_status := TRevoked, t_revoked_at := Some now\<rparr> else t"])
    show "sessions (logout now k db) =
        map (\<lambda>s. if s_family s = ?fam \<or> s_id s = k then s\<lparr>s_status := SRevoked, s_updated := now\<rparr> else s) (sessions db)"
      using Some by (simp add: logout_def revoke_family_def update_where_def update_by_def comp_def)
    show "refresh_tokens (logout now k db) = map (\<lambda>t. if t_family t = ?fam \<and> t_status t \<noteq> TRevoked
        then t\<lparr>t_status := TRevoked, t_revoked_at := Some now\<rparr> else t) (refresh_tokens db)"
      using Some by (simp add: logout_def revoke_family_def update_where_def)
    fix s t
    assume s: "s \<in> set (sessions db)" "s_id s = t_session t" "s_family s = t_family t" "s_status s = SActive"
      and act: "t_status (if t_family t = ?fam \<and> t_status t \<noteq> TRevoked
        then t\<lparr>t_status := TRevoked, t_revoked_at := Some now\<rparr> else t) = TActive"
    then have "s_family s \<noteq> ?fam" by (auto split: if_splits)
    moreover from this have "s_id s \<noteq> k"
      using id_inv_same_session [OF inv s(1)] session_atD [OF Some] by auto
    ultimately show "s_status (if s_family s = ?fam \<or> s_id s = k then s\<lparr>s_status := SRevoked, s_updated := now\<rparr> else s) = SActive"
      using s by simp
  qed (use Some in \<open>auto simp: same_session_def logout_def revoke_family_def split: if_splits\<close>)
qed

section \<open>New rows\<close>

lemma insert_user_SomeD:
  "insert_user r db = Some db' \<Longrightarrow> db' = db\<lparr>users := users db @ [r]\<rparr> \<and> u_id r \<notin> u_id ` set (users db)"
  by (auto simp: insert_user_def split: if_splits dest!: insert_by_SomeD)

lemma insert_user_inv:
  assumes "id_inv db" and "insert_user r db = Some db'"
  shows "id_inv db'"
  using assms(1) insert_user_SomeD [OF assms(2)]
  by (auto simp: id_inv_def token_fits_def one_active_def)

lemma insert_session_SomeD:
  "insert_session r db = Some db' \<Longrightarrow> db' = db\<lparr>sessions := sessions db @ [r]\<rparr>
     \<and> s_id r \<notin> s_id ` set (sessions db) \<and> s_user r \<in> u_id ` set (users db)"
  by (auto simp: insert_session_def user_at_def find_by_None_iff split: if_splits dest!: insert_by_SomeD)

lemma insert_refresh_SomeD:
  "insert_refresh r db = Some db' \<Longrightarrow> db' = db\<lparr>refresh_tokens := refresh_tokens db @ [r]\<rparr>
     \<and> t_id r \<notin> t_id ` set (refresh_tokens db) \<and> t_hash r \<notin> t_hash ` set (refresh_tokens db)
     \<and> t_session r \<in> s_id ` set (sessions db)"
  by (auto simp: insert_refresh_def refresh_at_def session_at_def find_by_None_iff
      split: if_splits dest!: insert_by_SomeD)

lemma insert_session_inv:
  assumes "id_inv db" and "insert_session r db = Some db'"
  shows "id_inv db'"
  using assms(1) insert_session_SomeD [OF assms(2)]
  by (auto simp: id_inv_def token_fits_def one_active_def)

lemma insert_refresh_inv:
  assumes inv: "id_inv db" and ins: "insert_refresh r db = Some db'"
    and s: "session_at (t_session r) db = Some s" "s_family s = t_family r" "s_status s = SActive"
    and none: "\<forall>t \<in> set (refresh_tokens db). t_session t = t_session r \<longrightarrow> t_status t \<noteq> TActive"
  shows "id_inv db'"
proof -
  note d = insert_refresh_SomeD [OF ins]
  have "token_fits db' r" using d s session_atD [OF s(1)] by (auto simp: token_fits_def)
  moreover have "one_active db'" using inv d none by (auto simp: id_inv_def one_active_def)
  ultimately show ?thesis using inv d by (auto simp: id_inv_def token_fits_def)
qed

lemma update_csrf_inv:
  assumes "id_inv db"
  shows "id_inv (db\<lparr>sessions := update_by s_id k (\<lambda>s. s\<lparr>s_csrf_hash := h, s_updated := now\<rparr>) (sessions db)\<rparr>)"
  using assms
  by (rule id_inv_rewrite [where f = "\<lambda>s. if s_id s = k then s\<lparr>s_csrf_hash := h, s_updated := now\<rparr> else s" and g = id])
    (auto simp: update_by_def same_session_def)

text \<open>What \<open>_issue_tokens_in\<close> inserts.\<close>

definition issued_row :: "id_config \<Rightarrow> id_nonces \<Rightarrow> time \<Rightarrow> string \<Rightarrow> string \<Rightarrow> refresh_row" where
  "issued_row cfg u now session_id family_id = \<lparr>t_id = ''refresh_'' @ in_refresh_id u, t_family = family_id,
     t_session = session_id, t_hash = stable_hash (in_refresh u), t_status = TActive,
     t_expires = now + micros (86400 * refresh_days cfg), t_used_at = None, t_revoked_at = None,
     t_created = now\<rparr>"

lemma issue_tokens_SomeD:
  assumes "issue_tokens_in cfg u now user_id k fam ver db = Some (tokens, db')"
  obtains db1 where "insert_refresh (issued_row cfg u now k fam) db = Some db1"
    "db' = db1\<lparr>sessions := update_by s_id k
        (\<lambda>s. s\<lparr>s_csrf_hash := stable_hash (in_csrf u), s_updated := now\<rparr>) (sessions db1)\<rparr>"
    "tokens = \<lparr>st_access = \<lparr>ap_sub = user_id, ap_sid = k, ap_ver = ver, ap_iat = now div 1000000,
           ap_exp = (now + micros (60 * access_minutes cfg)) div 1000000, ap_kid = signing_key_id cfg\<rparr>,
         st_refresh = in_refresh u, st_csrf = in_csrf u, st_session = k, st_family = fam\<rparr>"
  using assms by (auto simp: issue_tokens_in_def issued_row_def)

lemma issue_tokens_inv:
  assumes inv: "id_inv db" and "issue_tokens_in cfg u now user_id k fam ver db = Some (tokens, db')"
    and s: "session_at k db = Some s" "s_family s = fam" "s_status s = SActive"
    and none: "\<forall>t \<in> set (refresh_tokens db). t_session t = k \<longrightarrow> t_status t \<noteq> TActive"
  shows "id_inv db'"
  using assms(2)
proof (rule issue_tokens_SomeD)
  fix db1
  assume 1: "insert_refresh (issued_row cfg u now k fam) db = Some db1"
    and 2: "db' = db1\<lparr>sessions := update_by s_id k
        (\<lambda>s. s\<lparr>s_csrf_hash := stable_hash (in_csrf u), s_updated := now\<rparr>) (sessions db1)\<rparr>"
  have "id_inv db1"
    by (rule insert_refresh_inv [OF inv 1]) (use s none in \<open>simp_all add: issued_row_def\<close>)
  then show "id_inv db'" unfolding 2 by (rule update_csrf_inv)
qed

text \<open>No token exists for a session that does not.\<close>

lemma fresh_session_no_token:
  "id_inv db \<Longrightarrow> k \<notin> s_id ` set (sessions db) \<Longrightarrow> t \<in> set (refresh_tokens db) \<Longrightarrow> t_session t \<noteq> k"
proof
  assume inv: "id_inv db" and k: "k \<notin> s_id ` set (sessions db)" and t: "t \<in> set (refresh_tokens db)"
    and eq: "t_session t = k"
  from inv t have "token_fits db t" by (simp add: id_inv_def)
  then obtain s where "s \<in> set (sessions db)" "s_id s = t_session t" unfolding token_fits_def by blast
  with eq have "k \<in> s_id ` set (sessions db)" by (intro image_eqI [of _ _ s]) simp_all
  with k show False ..
qed

lemma create_session_inv:
  assumes inv: "id_inv db"
  shows "id_inv (snd (create_session cfg u now user_id ver agent db))"
proof -
  let ?k = "''session_'' @ in_session u" and ?fam = "''family_'' @ in_family u"
  have "id_inv db2"
    if 1: "insert_session row db = Some db1" and 2: "issue_tokens_in cfg u now user_id ?k ?fam ver db1 = Some (tok, db2)"
      and row: "s_id row = ?k" "s_family row = ?fam" "s_status row = SActive" for row db1 db2 tok
  proof (rule issue_tokens_inv [OF insert_session_inv [OF inv 1] 2])
    note d = insert_session_SomeD [OF 1]
    show "session_at ?k db1 = Some row"
      using id_inv_session_at [OF insert_session_inv [OF inv 1], of row] d row by simp
    show "\<forall>t \<in> set (refresh_tokens db1). t_session t = ?k \<longrightarrow> t_status t \<noteq> TActive"
      using fresh_session_no_token [OF inv] d row by auto
  qed (use row in simp_all)
  with inv show ?thesis
    by (auto simp: create_session_def Let_def bind_eq_Some_conv split: option.split)
qed

end
