(* ===== verification/Id_Runs.thy ===== *)
theory Id_Runs
  imports Id_Inv
begin

text \<open>
  The identity service as a machine: any list of calls of its operations, by anyone, with any
  arguments, random values and times.  Every run keeps the invariant of \<open>Id_Inv\<close>, and no
  call undoes a revocation, makes a spent refresh token usable or lowers a token version.
\<close>

section \<open>Operations\<close>

datatype id_op =
    CreateBootstrapToken id_nonces time int
  | BootstrapOwner id_nonces time string string string
  | CreateUser id_nonces time string string
  | CreateLocalSession id_nonces time string string
  | Login id_nonces time string string string
  | Refresh id_nonces time string string
  | Logout time string
  | RevokeSession time string string
  | RevokeAllSessions time string
  | ChangePassword time string string string
  | LinkOidc id_nonces time string string string "string option"

fun run_id_op :: "hasher \<Rightarrow> id_config \<Rightarrow> id_op \<Rightarrow> id_db \<Rightarrow> id_db" where
  "run_id_op hs cfg (CreateBootstrapToken u now ttl) db = snd (create_bootstrap_token u now ttl db)"
| "run_id_op hs cfg (BootstrapOwner u now tok name pw) db = snd (bootstrap_owner hs u now tok name pw db)"
| "run_id_op hs cfg (CreateUser u now name pw) db = snd (create_user hs u now name pw db)"
| "run_id_op hs cfg (CreateLocalSession u now name agent) db = snd (create_local_session hs cfg u now name agent db)"
| "run_id_op hs cfg (Login u now name pw agent) db = snd (login hs cfg u now name pw agent db)"
| "run_id_op hs cfg (Refresh u now tok csrf) db = snd (refresh cfg u now tok csrf db)"
| "run_id_op hs cfg (Logout now k) db = logout now k db"
| "run_id_op hs cfg (RevokeSession now user k) db = snd (revoke_session now user k db)"
| "run_id_op hs cfg (RevokeAllSessions now user) db = revoke_all_sessions now user db"
| "run_id_op hs cfg (ChangePassword now user old pw) db = snd (change_password hs now user old pw db)"
| "run_id_op hs cfg (LinkOidc u now user iss sub email) db = snd (link_oidc u now user iss sub email db)"

section \<open>How a call may change the rows\<close>

definition session_moves :: "session_row \<Rightarrow> session_row \<Rightarrow> bool" where
  "session_moves s s' \<longleftrightarrow> same_session s s' \<and> (s_status s = SRevoked \<longrightarrow> s_status s' = SRevoked)"

definition token_moves :: "refresh_row \<Rightarrow> refresh_row \<Rightarrow> bool" where
  "token_moves t t' \<longleftrightarrow> t_id t' = t_id t \<and> t_hash t' = t_hash t \<and> t_session t' = t_session t
     \<and> t_family t' = t_family t \<and> (t_status t' = TActive \<longrightarrow> t_status t = TActive)"

definition user_moves :: "user_row \<Rightarrow> user_row \<Rightarrow> bool" where
  "user_moves r r' \<longleftrightarrow> u_id r' = u_id r \<and> u_name r' = u_name r \<and> u_token_version r \<le> u_token_version r'"

definition id_later :: "id_db \<Rightarrow> id_db \<Rightarrow> bool" where
  "id_later db db' \<longleftrightarrow> rows_later session_moves s_id (sessions db) (sessions db')
     \<and> rows_later token_moves t_hash (refresh_tokens db) (refresh_tokens db')
     \<and> rows_later user_moves u_id (users db) (users db')"

lemma moves_refl [simp]: "session_moves s s" "token_moves t t" "user_moves r r"
  by (simp_all add: session_moves_def same_session_def token_moves_def user_moves_def)

lemma id_later_refl: "id_later db db"
  by (simp add: id_later_def rows_later_refl)

lemma id_later_trans:
  assumes "id_later a b" "id_later b c" shows "id_later a c"
  unfolding id_later_def
proof (intro conjI)
  show "rows_later session_moves s_id (sessions a) (sessions c)"
    by (rule rows_later_trans [where ys = "sessions b"])
      (use assms in \<open>auto simp: id_later_def session_moves_def same_session_def\<close>)
  show "rows_later token_moves t_hash (refresh_tokens a) (refresh_tokens c)"
    by (rule rows_later_trans [where ys = "refresh_tokens b"])
      (use assms in \<open>auto simp: id_later_def token_moves_def\<close>)
  show "rows_later user_moves u_id (users a) (users c)"
    by (rule rows_later_trans [where ys = "users b"])
      (use assms in \<open>auto simp: id_later_def user_moves_def\<close>)
qed

lemma id_later_same:
  "users db' = users db \<Longrightarrow> sessions db' = sessions db \<Longrightarrow> refresh_tokens db' = refresh_tokens db \<Longrightarrow> id_later db db'"
  by (simp add: id_later_def rows_later_refl)

lemma later_revoke_family: "id_later db (revoke_family k now db)"
  unfolding id_later_def revoke_family_def
  by (simp add: rows_later_refl rows_later_update session_moves_def same_session_def token_moves_def)

lemma later_revoke_user: "id_later db (revoke_user k now db)"
  unfolding id_later_def revoke_user_def Let_def
  by (simp add: rows_later_refl rows_later_update session_moves_def same_session_def token_moves_def)

lemma later_update_session:
  "(\<And>s. session_moves s (f s)) \<Longrightarrow> id_later db (db\<lparr>sessions := update_by s_id k f (sessions db)\<rparr>)"
  by (simp add: id_later_def rows_later_refl update_by_where rows_later_update session_moves_def same_session_def)

lemma later_update_token:
  "(\<And>t. token_moves t (f t)) \<Longrightarrow> id_later db (db\<lparr>refresh_tokens := update_by t_id k f (refresh_tokens db)\<rparr>)"
  by (simp add: id_later_def rows_later_refl update_by_where rows_later_update token_moves_def)

lemma later_update_user:
  "(\<And>r. user_moves r (f r)) \<Longrightarrow> id_later db (db\<lparr>users := update_by u_id k f (users db)\<rparr>)"
  by (simp add: id_later_def rows_later_refl update_by_where rows_later_update user_moves_def)

lemma later_inserts:
  "insert_user r db = Some db' \<Longrightarrow> id_later db db'"
  "insert_session s db = Some db' \<Longrightarrow> id_later db db'"
  "insert_refresh t db = Some db' \<Longrightarrow> id_later db db'"
  by (auto simp: id_later_def rows_later_refl rows_later_append
      dest!: insert_user_SomeD insert_session_SomeD insert_refresh_SomeD)

lemma later_logout: "id_later db (logout now k db)"
proof (cases "session_at k db")
  case None
  then show ?thesis by (simp add: logout_def id_later_refl)
next
  case (Some row)
  have "id_later db (db\<lparr>sessions := update_by s_id k (\<lambda>s. s\<lparr>s_status := SRevoked, s_updated := now\<rparr>) (sessions db)\<rparr>)"
    by (rule later_update_session) (simp add: session_moves_def same_session_def)
  from id_later_trans [OF this later_revoke_family] Some show ?thesis
    by (simp add: logout_def)
qed

lemma later_issue_tokens:
  assumes "issue_tokens_in cfg u now user_id k fam ver db = Some (tokens, db')"
  shows "id_later db db'"
  using assms
proof (rule issue_tokens_SomeD)
  fix db1
  assume 1: "insert_refresh (issued_row cfg u now k fam) db = Some db1"
    and 2: "db' = db1\<lparr>sessions := update_by s_id k
        (\<lambda>s. s\<lparr>s_csrf_hash := stable_hash (in_csrf u), s_updated := now\<rparr>) (sessions db1)\<rparr>"
  have "id_later db1 db'"
    unfolding 2 by (rule later_update_session) (simp add: session_moves_def same_session_def)
  with later_inserts(3) [OF 1] show ?thesis by (rule id_later_trans)
qed

lemma later_create_session: "id_later db (snd (create_session cfg u now user_id ver agent db))"
  by (auto simp: create_session_def Let_def bind_eq_Some_conv id_later_refl
      intro: id_later_trans [OF later_inserts(2) later_issue_tokens] split: option.split)

section \<open>Login bookkeeping\<close>

lemma record_login_frame:
  assumes "record_login u now h src failed db = (r, db')"
  shows "users db' = users db" "sessions db' = sessions db" "refresh_tokens db' = refresh_tokens db"
  using assms by (auto simp: record_login_def split: option.splits)

lemma login_cases:
  obtains (refused) e where "login hs cfg u now name pw agent db = (Inl e, db)"
  | (failed) e db1 h src where "record_login u now h src True db = (Inr (), db1)"
      "login hs cfg u now name pw agent db = (Inl e, db1)"
  | (entered) row db1 h src where "record_login u now h src False db = (Inr (), db1)"
      "user_named (normalized name) db = Some row" "u_active row" "h_verify hs (u_password_hash row) pw"
      "login hs cfg u now name pw agent db =
         create_session cfg u now (u_id row) (u_token_version row) agent db1"
proof -
  let ?h = "stable_hash (normalized name)" and ?src = "stable_hash (if agent \<noteq> [] then agent else ''unknown'')"
  show ?thesis
  proof (cases "enforce_login_limit now ?h db")
    case (Inl e)
    then show ?thesis using refused by (simp add: login_def Let_def)
  next
    case (Inr x)
    have fail: ?thesis if "login hs cfg u now name pw agent db = and_then (record_login u now ?h ?src True db)
              (\<lambda>_ db. (Inl (AuthenticationError ''authentication_failed''), db))"
      using that refused failed [of ?h ?src]
      by (cases "record_login u now ?h ?src True db") (auto simp: record_login_def and_then_def split: option.splits)
    show ?thesis
    proof (cases "user_named (normalized name) db")
      case None
      with Inr show ?thesis by (intro fail) (simp add: login_def Let_def)
    next
      case (Some row)
      show ?thesis
      proof (cases "u_active row \<and> h_verify hs (u_password_hash row) pw")
        case False
        with Inr Some show ?thesis by (intro fail) (auto simp: login_def Let_def)
      next
        case True
        with Inr Some have "login hs cfg u now name pw agent db = and_then (record_login u now ?h ?src False db)
              (\<lambda>_ db. create_session cfg u now (u_id row) (u_token_version row) agent db)"
          by (simp add: login_def Let_def)
        then show ?thesis using refused entered [of ?h ?src _ row] Some True
          by (cases "record_login u now ?h ?src False db") (auto simp: record_login_def and_then_def split: option.splits)
      qed
    qed
  qed
qed

section \<open>Every operation keeps the invariant and only moves forward\<close>

lemma record_login_inv: "id_inv db \<Longrightarrow> record_login u now h src failed db = (r, db') \<Longrightarrow> id_inv db'"
  by (rule id_inv_same_tables) (simp_all add: record_login_frame)

lemma record_login_later: "record_login u now h src failed db = (r, db') \<Longrightarrow> id_later db db'"
  by (rule id_later_same) (simp_all add: record_login_frame)

lemma login_inv:
  assumes inv: "id_inv db"
  shows "id_inv (snd (login hs cfg u now name pw agent db))"
proof (cases rule: login_cases [of hs cfg u now name pw agent db])
  case (refused e)
  with inv show ?thesis by simp
next
  case (failed e db1 h src)
  with record_login_inv [OF inv failed(1)] show ?thesis by simp
next
  case (entered row db1 h src)
  with create_session_inv [OF record_login_inv [OF inv entered(1)]] show ?thesis by simp
qed

lemma login_later: "id_later db (snd (login hs cfg u now name pw agent db))"
proof (cases rule: login_cases [of hs cfg u now name pw agent db])
  case (refused e)
  then show ?thesis by (simp add: id_later_refl)
next
  case (failed e db1 h src)
  with record_login_later [OF failed(1)] show ?thesis by simp
next
  case (entered row db1 h src)
  with id_later_trans [OF record_login_later [OF entered(1)] later_create_session] show ?thesis by simp
qed

text \<open>The four ways a refresh ends.\<close>

definition spend_token :: "time \<Rightarrow> string \<Rightarrow> id_db \<Rightarrow> id_db" where
  "spend_token now k db = db\<lparr>refresh_tokens := update_by t_id k
     (\<lambda>x. x\<lparr>t_status := TUsed, t_used_at := Some now\<rparr>) (refresh_tokens db)\<rparr>"

lemma refresh_cases:
  obtains (refused) e where "refresh cfg u now tok csrf db = (Inl e, db)"
  | (reused) t where "refresh_at (stable_hash tok) db = Some t" "t_status t = TUsed"
      "refresh cfg u now tok csrf db =
         (Inl (AuthenticationError ''refresh_reuse_detected''), revoke_family (t_family t) now db)"
  | (rotated) t s usr tokens db' where "refresh_at (stable_hash tok) db = Some t"
      "session_at (t_session t) db = Some s" "user_at (s_user s) db = Some usr"
      "t_status t = TActive" "s_status s = SActive" "u_active usr" "now < t_expires t"
      "s_csrf_hash s = stable_hash csrf"
      "issue_tokens_in cfg u now (s_user s) (t_session t) (t_family t) (u_token_version usr)
         (spend_token now (t_id t) db) = Some (tokens, db')"
      "refresh cfg u now tok csrf db = (Inr tokens, db')"
proof -
  show ?thesis
  proof (cases "refresh_at (stable_hash tok) db")
    case None
    then show ?thesis using refused by (simp add: refresh_def)
  next
    case t: (Some t)
    show ?thesis
    proof (cases "session_at (t_session t) db")
      case None
      with t show ?thesis using refused by (simp add: refresh_def)
    next
      case s: (Some s)
      show ?thesis
      proof (cases "user_at (s_user s) db")
        case None
        with t s show ?thesis using refused by (simp add: refresh_def)
      next
        case usr: (Some usr)
        consider (used) "t_status t = TUsed"
          | (bad) "t_status t \<noteq> TUsed" "t_status t \<noteq> TActive \<or> s_status s \<noteq> SActive \<or> \<not> u_active usr
              \<or> t_expires t \<le> now \<or> s_csrf_hash s \<noteq> stable_hash csrf"
          | (good) "t_status t = TActive" "s_status s = SActive" "u_active usr" "now < t_expires t"
              "s_csrf_hash s = stable_hash csrf"
          by fastforce
        then show ?thesis
        proof cases
          case used
          with t s usr show ?thesis by (intro reused) (simp_all add: refresh_def)
        next
          case bad
          with t s usr show ?thesis by (intro refused) (simp add: refresh_def)
        next
          case good
          let ?i = "issue_tokens_in cfg u now (s_user s) (t_session t) (t_family t) (u_token_version usr)
            (spend_token now (t_id t) db)"
          have eq: "refresh cfg u now tok csrf db = (case ?i of None \<Rightarrow> (Inl IntegrityError, db)
              | Some (tokens, db') \<Rightarrow> (Inr tokens, db'))"
            using t s usr good by (simp add: refresh_def spend_token_def)
          show ?thesis
          proof (cases ?i)
            case None
            with eq show ?thesis using refused by simp
          next
            case (Some p)
            obtain tokens db' where "p = (tokens, db')" by (cases p)
            with eq Some good t s usr show ?thesis by (intro rotated) simp_all
          qed
        qed
      qed
    qed
  qed
qed

lemma spend_token_inv:
  assumes "id_inv db" shows "id_inv (spend_token now k db)"
  using assms
  by (rule id_inv_rewrite [where f = id and g = "\<lambda>x. if t_id x = k then x\<lparr>t_status := TUsed, t_used_at := Some now\<rparr> else x"])
    (auto simp: spend_token_def update_by_def same_session_def split: if_splits)

lemma later_spend_token:
  "id_later db (spend_token now k db)"
  unfolding spend_token_def by (rule later_update_token) (simp add: token_moves_def)

text \<open>After the spent token is marked, the session has no active token left.\<close>

lemma spend_token_none_active:
  assumes inv: "id_inv db" and t: "t \<in> set (refresh_tokens db)" "t_status t = TActive"
    and x: "x \<in> set (refresh_tokens (spend_token now (t_id t) db))" "t_session x = t_session t"
  shows "t_status x \<noteq> TActive"
proof
  assume act: "t_status x = TActive"
  from x(1) obtain y where y: "y \<in> set (refresh_tokens db)"
    "x = (if t_id y = t_id t then y\<lparr>t_status := TUsed, t_used_at := Some now\<rparr> else y)"
    by (auto simp: spend_token_def update_by_def)
  with act have "x = y" "t_id y \<noteq> t_id t" by (auto split: if_splits)
  with y act x t inv have "y = t" unfolding id_inv_def one_active_def by metis
  with \<open>t_id y \<noteq> t_id t\<close> show False by simp
qed

lemma refresh_inv:
  assumes inv: "id_inv db"
  shows "id_inv (snd (refresh cfg u now tok csrf db))"
proof (cases rule: refresh_cases [of cfg u now tok csrf db])
  case (refused e)
  with inv show ?thesis by simp
next
  case (reused t)
  with revoke_family_inv [OF inv] show ?thesis by simp
next
  case (rotated t s usr tokens db')
  note t = refresh_atD [OF rotated(1)] and s = session_atD [OF rotated(2)]
  obtain s' where s': "s' \<in> set (sessions db)" "s_id s' = t_session t" "s_family s' = t_family t"
    using inv t by (auto simp: id_inv_def token_fits_def)
  have "s' = s" using id_inv_same_session [OF inv] s s' by metis
  have "id_inv db'"
  proof (rule issue_tokens_inv [OF spend_token_inv [OF inv] rotated(9)])
    show "session_at (t_session t) (spend_token now (t_id t) db) = Some s"
      using rotated(2) by (simp add: session_at_def spend_token_def)
    show "s_family s = t_family t" using s' \<open>s' = s\<close> by simp
    show "s_status s = SActive" by (rule rotated(5))
    show "\<forall>x \<in> set (refresh_tokens (spend_token now (t_id t) db)). t_session x = t_session t \<longrightarrow> t_status x \<noteq> TActive"
      using spend_token_none_active [OF inv conjunct1 [OF t] rotated(4)] by blast
  qed
  with rotated(10) show ?thesis by simp
qed

lemma refresh_later: "id_later db (snd (refresh cfg u now tok csrf db))"
proof (cases rule: refresh_cases [of cfg u now tok csrf db])
  case (refused e)
  then show ?thesis by (simp add: id_later_refl)
next
  case (reused t)
  then show ?thesis by (simp add: later_revoke_family)
next
  case (rotated t s usr tokens db')
  with id_later_trans [OF later_spend_token later_issue_tokens [OF rotated(9)]] show ?thesis by simp
qed

text \<open>The operations that touch neither sessions nor tokens.\<close>

lemma id_frame_inv_later:
  assumes "users db' = users db" "sessions db' = sessions db" "refresh_tokens db' = refresh_tokens db"
  shows "(id_inv db \<longrightarrow> id_inv db') \<and> id_later db db'"
  using id_inv_same_tables [OF _ assms] id_later_same [OF assms] by blast

lemma create_bootstrap_token_frame:
  "users (snd (create_bootstrap_token u now ttl db)) = users db"
  "sessions (snd (create_bootstrap_token u now ttl db)) = sessions db"
  "refresh_tokens (snd (create_bootstrap_token u now ttl db)) = refresh_tokens db"
  by (simp_all add: create_bootstrap_token_def split: option.split)

lemma link_oidc_frame:
  "users (snd (link_oidc u now user iss sub email db)) = users db"
  "sessions (snd (link_oidc u now user iss sub email db)) = sessions db"
  "refresh_tokens (snd (link_oidc u now user iss sub email db)) = refresh_tokens db"
  by (simp_all add: link_oidc_def Let_def split: option.split)

lemma add_user_inv_later:
  assumes "insert_user r db = Some db'"
  shows "(id_inv db \<longrightarrow> id_inv db') \<and> id_later db db'"
  using insert_user_inv [OF _ assms] later_inserts(1) [OF assms] by blast

lemma bootstrap_owner_cases:
  obtains (refused) e where "bootstrap_owner hs u now tok name pw db = (Inl e, db)"
  | (created) db1 rows where "insert_user (new_user now (''user_'' @ in_user u) (normalized name) (h_hash hs pw)) db = Some db1"
      "users db = []" "bootstrap_owner hs u now tok name pw db =
         (Inr (''user_'' @ in_user u), db1\<lparr>bootstrap_tokens := rows\<rparr>)"
proof (cases "length (normalized name) < 3 \<or> length pw < 12")
  case True
  then show ?thesis using refused by (simp add: bootstrap_owner_def)
next
  case long: False
  let ?i = "insert_user (new_user now (''user_'' @ in_user u) (normalized name) (h_hash hs pw)) db"
  show ?thesis
  proof (cases "find_by bt_hash (stable_hash tok) (bootstrap_tokens db)")
    case None
    with long show ?thesis using refused by (simp add: bootstrap_owner_def)
  next
    case (Some token)
    show ?thesis
    proof (cases "users db \<noteq> [] \<or> bt_status token \<noteq> BActive \<or> bt_expires token \<le> now")
      case True
      with long Some show ?thesis using refused by (auto simp: bootstrap_owner_def)
    next
      case False
      then have nil: "users db = []" by simp
      have eq: "bootstrap_owner hs u now tok name pw db = (case ?i of None \<Rightarrow> (Inl IntegrityError, db)
              | Some db' \<Rightarrow> (Inr (''user_'' @ in_user u), db'\<lparr>bootstrap_tokens := update_by bt_hash (stable_hash tok)
                  (\<lambda>t. t\<lparr>bt_status := BUsed, bt_used_at := Some now\<rparr>) (bootstrap_tokens db')\<rparr>))"
        using long Some False by (simp only: bootstrap_owner_def Let_def if_False option.case)
      show ?thesis
      proof (cases ?i)
        case None
        show ?thesis by (rule refused) (simp only: eq None option.case)
      next
        case (Some db')
        show ?thesis by (rule created [OF Some nil]) (simp only: eq Some option.case)
      qed
    qed
  qed
qed

lemma bootstrap_owner_inv_later:
  "(id_inv db \<longrightarrow> id_inv (snd (bootstrap_owner hs u now tok name pw db)))
     \<and> id_later db (snd (bootstrap_owner hs u now tok name pw db))"
proof (cases rule: bootstrap_owner_cases [of hs u now tok name pw db])
  case (refused e)
  then show ?thesis by (simp add: id_later_refl)
next
  case (created db1 rows)
  have 2: "(id_inv db1 \<longrightarrow> id_inv (db1\<lparr>bootstrap_tokens := rows\<rparr>)) \<and> id_later db1 (db1\<lparr>bootstrap_tokens := rows\<rparr>)"
    by (rule id_frame_inv_later) simp_all
  with add_user_inv_later [OF created(1)] created(3) show ?thesis
    using id_later_trans by fastforce
qed

lemma create_user_cases:
  obtains (refused) e where "create_user hs u now name pw db = (Inl e, db)"
  | (created) db' where "insert_user (new_user now (''user_'' @ in_user u) (normalized name) (h_hash hs pw)) db = Some db'"
      "create_user hs u now name pw db = (Inr (''user_'' @ in_user u), db')"
proof -
  let ?i = "insert_user (new_user now (''user_'' @ in_user u) (normalized name) (h_hash hs pw)) db"
  show ?thesis
  proof (cases "length (normalized name) < 3 \<or> length pw < 12")
    case True
    then show ?thesis using refused by (simp add: create_user_def)
  next
    case False
    then have eq: "create_user hs u now name pw db = (case ?i of
        None \<Rightarrow> (Inl (AuthenticationError ''invalid_registration''), db)
      | Some db' \<Rightarrow> (Inr (''user_'' @ in_user u), db'))"
      by (simp only: create_user_def Let_def if_False)
    show ?thesis
    proof (cases ?i)
      case None
      show ?thesis by (rule refused) (simp only: eq None option.case)
    next
      case (Some db')
      show ?thesis by (rule created [OF Some]) (simp only: eq Some option.case)
    qed
  qed
qed

lemma create_user_inv_later:
  "(id_inv db \<longrightarrow> id_inv (snd (create_user hs u now name pw db))) \<and> id_later db (snd (create_user hs u now name pw db))"
proof (cases rule: create_user_cases [of hs u now name pw db])
  case (refused e)
  then show ?thesis by (simp add: id_later_refl)
next
  case (created db')
  then show ?thesis using add_user_inv_later by simp
qed

lemma create_local_session_cases:
  obtains (refused) e where "create_local_session hs cfg u now name agent db = (Inl e, db)"
  | (entered) db1 user ver where "(id_inv db \<longrightarrow> id_inv db1) \<and> id_later db db1"
      "snd (create_local_session hs cfg u now name agent db) = snd (create_session cfg u now user ver agent db1)"
proof (cases "length (normalized name) < 3")
  case True
  then show ?thesis using refused by (simp add: create_local_session_def)
next
  case long: False
  have enter: thesis if "(id_inv db \<longrightarrow> id_inv db1) \<and> id_later db db1"
    "create_local_session hs cfg u now name agent db =
       and_then (create_session cfg u now user ver agent db1) (\<lambda>tokens db. (Inr (user, tokens), db))" for db1 user ver
    using that entered [of db1 user ver]
    by (cases "create_session cfg u now user ver agent db1") (auto simp: and_then_def split: sum.splits)
  show ?thesis
  proof (cases "user_named (normalized name) db")
    case (Some row)
    show ?thesis
    proof (cases "u_active row")
      case True
      show ?thesis by (rule enter [of db "u_id row" "u_token_version row"])
          (use long Some True in \<open>simp_all add: create_local_session_def id_later_refl\<close>)
    next
      case False
      with long Some show ?thesis using refused by (simp add: create_local_session_def)
    qed
  next
    case None
    let ?i = "insert_user (new_user now (''user_'' @ in_user u) (normalized name) (h_hash hs (in_password u))) db"
    show ?thesis
    proof (cases ?i)
      case None': None
      with long None show ?thesis using refused by (simp add: create_local_session_def)
    next
      case (Some db1)
      show ?thesis by (rule enter [of db1 "''user_'' @ in_user u" 1])
          (use long None Some add_user_inv_later [OF Some] in \<open>simp_all add: create_local_session_def\<close>)
    qed
  qed
qed

lemma create_local_session_inv_later:
  "(id_inv db \<longrightarrow> id_inv (snd (create_local_session hs cfg u now name agent db)))
     \<and> id_later db (snd (create_local_session hs cfg u now name agent db))"
proof (cases rule: create_local_session_cases [of hs cfg u now name agent db])
  case (refused e)
  then show ?thesis by (simp add: id_later_refl)
next
  case (entered db1 user ver)
  then show ?thesis
    using create_session_inv [of db1] id_later_trans [OF _ later_create_session] by simp
qed

lemma revoke_session_snd:
  "snd (revoke_session now user k db) = db \<or> snd (revoke_session now user k db) = logout now k db"
  by (simp add: revoke_session_def split: option.split)

lemma revoke_session_inv_later:
  "(id_inv db \<longrightarrow> id_inv (snd (revoke_session now user k db))) \<and> id_later db (snd (revoke_session now user k db))"
  using revoke_session_snd [of now user k db] logout_inv [of db now k] later_logout [of db now k]
  by (auto simp: id_later_refl)

text \<open>A new password or a forced sign-out: the token version goes up and every session is revoked.\<close>

lemma change_password_cases:
  obtains (refused) e where "change_password hs now user old pw db = (Inl e, db)"
  | (changed) row where "user_at user db = Some row" "u_active row" "h_verify hs (u_password_hash row) old"
      "change_password hs now user old pw db = (Inr (), revoke_user user now
         (db\<lparr>users := update_by u_id user (\<lambda>r. r\<lparr>u_password_hash := h_hash hs pw,
            u_token_version := u_token_version r + 1, u_updated := now\<rparr>) (users db)\<rparr>))"
proof (cases "length pw < 12")
  case True
  then show ?thesis using refused by (simp add: change_password_def)
next
  case long: False
  show ?thesis
  proof (cases "user_at user db")
    case None
    with long show ?thesis using refused by (simp add: change_password_def)
  next
    case (Some row)
    show ?thesis
    proof (cases "u_active row \<and> h_verify hs (u_password_hash row) old")
      case True
      then have "u_active row" "h_verify hs (u_password_hash row) old" by simp_all
      with long Some show ?thesis by (intro changed) (simp_all add: change_password_def)
    next
      case False
      with long Some show ?thesis by (intro refused) (auto simp: change_password_def)
    qed
  qed
qed

lemma change_password_inv_later:
  "(id_inv db \<longrightarrow> id_inv (snd (change_password hs now user old pw db)))
     \<and> id_later db (snd (change_password hs now user old pw db))"
proof (cases rule: change_password_cases [of hs now user old pw db])
  case (refused e)
  then show ?thesis by (simp add: id_later_refl)
next
  case (changed row)
  let ?f = "\<lambda>r. r\<lparr>u_password_hash := h_hash hs pw, u_token_version := u_token_version r + 1, u_updated := now\<rparr>"
  let ?db1 = "db\<lparr>users := update_by u_id user ?f (users db)\<rparr>"
  have 1: "id_inv db \<longrightarrow> id_inv ?db1" using update_user_inv [of db ?f user] by simp
  have 2: "id_later db ?db1" by (rule later_update_user) (simp add: user_moves_def)
  from 1 2 changed(4) show ?thesis
    using revoke_user_inv [of ?db1 user now] id_later_trans [OF 2 later_revoke_user] by simp
qed

lemma revoke_all_sessions_inv_later:
  "(id_inv db \<longrightarrow> id_inv (revoke_all_sessions now user db)) \<and> id_later db (revoke_all_sessions now user db)"
proof -
  let ?f = "\<lambda>r. r\<lparr>u_token_version := u_token_version r + 1, u_updated := now\<rparr>"
  let ?db1 = "revoke_user user now db"
  have "id_later ?db1 (?db1\<lparr>users := update_by u_id user ?f (users ?db1)\<rparr>)"
    by (rule later_update_user) (simp add: user_moves_def)
  moreover have "id_inv ?db1 \<longrightarrow> id_inv (?db1\<lparr>users := update_by u_id user ?f (users ?db1)\<rparr>)"
    using update_user_inv [of ?db1 ?f user] by simp
  ultimately show ?thesis
    using revoke_user_inv [of db user now] id_later_trans [OF later_revoke_user]
    unfolding revoke_all_sessions_def Let_def by blast
qed

section \<open>Runs\<close>

lemma run_id_op_inv_later:
  "(id_inv db \<longrightarrow> id_inv (run_id_op hs cfg op db)) \<and> id_later db (run_id_op hs cfg op db)"
proof (cases op)
  case (CreateBootstrapToken u now ttl)
  then show ?thesis
    unfolding CreateBootstrapToken run_id_op.simps
    by (intro id_frame_inv_later create_bootstrap_token_frame)
next
  case (LinkOidc u now user iss sub email)
  then show ?thesis
    unfolding LinkOidc run_id_op.simps by (intro id_frame_inv_later link_oidc_frame)
qed (simp_all add: bootstrap_owner_inv_later create_user_inv_later create_local_session_inv_later
    login_inv login_later refresh_inv refresh_later logout_inv later_logout revoke_session_inv_later
    change_password_inv_later revoke_all_sessions_inv_later)

interpretation identity: machine "run_id_op hs cfg" "\<lambda>_. True" id_inv id_later
proof
  show "id_inv db \<Longrightarrow> True \<Longrightarrow> id_inv (run_id_op hs cfg op db)" for db op
    using run_id_op_inv_later by blast
  show "id_inv db \<Longrightarrow> True \<Longrightarrow> id_later db (run_id_op hs cfg op db)" for db op
    using run_id_op_inv_later by blast
qed (auto intro: id_later_refl id_later_trans)

lemma id_runs_inv: "id_inv db \<Longrightarrow> id_inv (fold (run_id_op hs cfg) ops db)"
  by (rule identity.run_inv) (simp_all add: list_all_iff)

lemma id_runs_later: "id_inv db \<Longrightarrow> id_later db (fold (run_id_op hs cfg) ops db)"
  by (rule identity.run_later) (simp_all add: list_all_iff)

end
