(* ===== verification/Id_Props.thy ===== *)
theory Id_Props
  imports Id_Runs
begin

text \<open>
  The properties of the identity service: rotation of refresh tokens and detection of their
  reuse, the finality of every way to end a session, what a login gives, and the limits on
  failed logins and on the bootstrap.
\<close>

section \<open>Sessions that are over\<close>

text \<open>No access token of the session and no refresh token of it is accepted.\<close>

definition dead_session :: "id_config \<Rightarrow> string \<Rightarrow> id_db \<Rightarrow> bool" where
  "dead_session cfg k db \<longleftrightarrow>
     (\<forall>now (p :: access_payload). ap_sid p = k \<longrightarrow> (\<exists>e. verify_access now p db = Inl e)) \<and>
     (\<forall>u now tok csrf (t :: refresh_row). refresh_at (stable_hash tok) db = Some t \<and> t_session t = k \<longrightarrow>
        (\<exists>e. fst (refresh cfg u now tok csrf db) = Inl e))"

lemma revoked_dead:
  assumes "session_at k db = Some s" and "s_status s = SRevoked"
  shows "dead_session cfg k db"
  unfolding dead_session_def
proof (intro conjI allI impI)
  fix now and p :: access_payload
  assume "ap_sid p = k"
  with assms show "\<exists>e. verify_access now p db = Inl e"
    by (auto simp: verify_access_def split: option.split)
next
  fix u now tok csrf t
  assume t: "refresh_at (stable_hash tok) db = Some t \<and> t_session t = k"
  show "\<exists>e. fst (refresh cfg u now tok csrf db) = Inl e"
    using t assms by (cases rule: refresh_cases [of cfg u now tok csrf db]) auto
qed

lemma revoked_stays_dead:
  assumes inv: "id_inv db" and s: "session_at k db = Some s" "s_status s = SRevoked"
  shows "dead_session cfg k (fold (run_id_op hs cfg) ops db)"
proof -
  from id_runs_later [OF inv] have "rows_later session_moves s_id (sessions db)
      (sessions (fold (run_id_op hs cfg) ops db))"
    by (simp add: id_later_def)
  from rows_laterD [OF this, of k s] s(1)
  obtain s' :: session_row where "session_at k (fold (run_id_op hs cfg) ops db) = Some s'" "session_moves s s'"
    by (auto simp: session_at_def)
  then show ?thesis using s(2) by (intro revoked_dead [of _ _ s']) (simp_all add: session_moves_def)
qed

lemma session_at_revoke_family:
  "session_at k (revoke_family fam now db) =
     map_option (\<lambda>s. if s_family s = fam then s\<lparr>s_status := SRevoked, s_updated := now\<rparr> else s) (session_at k db)"
  by (simp add: session_at_def revoke_family_def find_by_update_where)

lemma session_at_revoke_user:
  "session_at k (revoke_user user now db) =
     map_option (\<lambda>s. if s_user s = user then s\<lparr>s_status := SRevoked, s_updated := now\<rparr> else s) (session_at k db)"
  by (simp add: session_at_def revoke_user_def Let_def find_by_update_where)

section \<open>Rotation\<close>

lemma one_active_token_parts:
  assumes "db = fold (run_id_op hs cfg) ops empty_id_db"
    and "t \<in> set (refresh_tokens db)" "t_status t = TActive"
  shows "id_inv db"
    and "\<exists>s. session_at (t_session t) db = Some s \<and> s_status s = SActive \<and> s_family s = t_family t"
    and "\<forall>t' \<in> set (refresh_tokens db). t_session t' = t_session t \<and> t_status t' = TActive \<longrightarrow> t' = t"
proof -
  show inv: "id_inv db" unfolding assms(1) by (rule id_runs_inv [OF id_inv_empty])
  from inv assms(2,3) obtain s where "s \<in> set (sessions db)" "s_id s = t_session t" "s_family s = t_family t"
    "s_status s = SActive"
    unfolding id_inv_def token_fits_def by blast
  with id_inv_session_at [OF inv] show "\<exists>s. session_at (t_session t) db = Some s \<and> s_status s = SActive \<and> s_family s = t_family t"
    by metis
  from inv assms(2,3) show "\<forall>t' \<in> set (refresh_tokens db). t_session t' = t_session t \<and> t_status t' = TActive \<longrightarrow> t' = t"
    unfolding id_inv_def one_active_def by metis
qed

text \<open>
  C19. Whatever calls were made, the identity tables are well formed: a session has at most one
  active refresh token, and it has one only while it is itself active; the token belongs to the
  session's family.
\<close>

theorem one_active_token:
  assumes "db = fold (run_id_op hs cfg) ops empty_id_db"
    and "t \<in> set (refresh_tokens db)" "t_status t = TActive"
  shows "(id_inv db)
    \<and> (\<exists>s. session_at (t_session t) db = Some s \<and> s_status s = SActive \<and> s_family s = t_family t)
    \<and> (\<forall>t' \<in> set (refresh_tokens db). t_session t' = t_session t \<and> t_status t' = TActive \<longrightarrow> t' = t)"
  using one_active_token_parts [OF assms] by blast

definition demo_nonces :: "string \<Rightarrow> id_nonces" where
  "demo_nonces x = \<lparr>in_user = x, in_session = x, in_family = x, in_csrf = x, in_refresh = x,
     in_refresh_id = x, in_login = x, in_link = x, in_password = x, in_bootstrap = x\<rparr>"

definition demo_cfg :: id_config where
  "demo_cfg = \<lparr>access_minutes = 15, refresh_days = 30, signing_key_id = ''local-v1''\<rparr>"

text \<open>A hasher for the examples: the encoded password is the password itself.\<close>

definition demo_hasher :: hasher where
  "demo_hasher = \<lparr>h_hash = id, h_verify = (\<lambda>enc pw. enc = pw)\<rparr>"

lemma demo_ids: "''session_'' @ ''1'' = ''session_1''" "''family_'' @ ''1'' = ''family_1''"
  "''refresh_'' @ ''1'' = ''refresh_1''" "''user_'' @ ''1'' = ''user_1''"
  "''login_'' @ ''2'' = ''login_2''" "''session_'' @ ''2'' = ''session_2''" "''family_'' @ ''2'' = ''family_2''"
  "''refresh_'' @ ''2'' = ''refresh_2''"
  by simp_all

lemma normalized_local: "normalized ''local'' = ''local''" "normalized '' Ada '' = ''ada''"
  by code_simp+

text \<open>The tables after a local session was opened at time 0.\<close>

definition demo_token :: refresh_row where
  "demo_token = \<lparr>t_id = ''refresh_1'', t_family = ''family_1'', t_session = ''session_1'',
     t_hash = stable_hash ''1'', t_status = TActive, t_expires = micros 2592000, t_used_at = None,
     t_revoked_at = None, t_created = 0\<rparr>"

definition demo_session :: session_row where
  "demo_session = \<lparr>s_id = ''session_1'', s_user = ''user_1'', s_family = ''family_1'',
     s_csrf_hash = stable_hash ''1'', s_agent_hash = None, s_status = SActive,
     s_expires = micros 2592000, s_created = 0, s_updated = 0\<rparr>"

definition demo_user :: user_row where
  "demo_user = \<lparr>u_id = ''user_1'', u_name = ''local'', u_password_hash = ''1'', u_token_version = 1,
     u_active = True, u_created = 0, u_updated = 0\<rparr>"

definition demo_id_db :: id_db where
  "demo_id_db = empty_id_db\<lparr>users := [demo_user], sessions := [demo_session], refresh_tokens := [demo_token]\<rparr>"

lemmas demo_id_defs = demo_nonces_def demo_cfg_def demo_hasher_def demo_token_def demo_session_def
  demo_user_def demo_id_db_def empty_id_db_def

lemma demo_local_session:
  "snd (create_local_session demo_hasher demo_cfg (demo_nonces ''1'') 0 ''local'' [] empty_id_db) = demo_id_db"
  by (simp add: create_local_session_def normalized_local user_named_def insert_user_def new_user_def
      create_session_def insert_session_def insert_by_def issue_tokens_in_def insert_refresh_def
      refresh_at_def session_at_def user_at_def update_by_def demo_id_defs micros_def Let_def)

lemma demo_id_inv: "id_inv demo_id_db"
  unfolding demo_local_session [symmetric] using create_local_session_inv_later id_inv_empty by blast

theorem one_active_token_witness:
  "\<exists>s. session_at ''session_1'' demo_id_db = Some s \<and> s_status s = SActive \<and> s_family s = ''family_1''"
proof -
  have "demo_id_db = fold (run_id_op demo_hasher demo_cfg)
      [CreateLocalSession (demo_nonces ''1'') 0 ''local'' []] empty_id_db"
    using demo_local_session by simp
  from one_active_token [OF this, of demo_token] show ?thesis
    by (simp add: demo_id_defs)
qed

text \<open>
  C20. A refresh token that was spent before is refused with \<open>refresh_reuse_detected\<close>, and this
  ends its whole family for good: whatever is called afterwards, no access token and no refresh
  token of any session of the family is accepted again.
\<close>

theorem refresh_reuse_kills_family:
  assumes inv: "id_inv db" and t: "refresh_at (stable_hash tok) db = Some t" "t_status t = TUsed"
  shows "\<exists>db'. refresh cfg u now tok csrf db = (Inl (AuthenticationError ''refresh_reuse_detected''), db')
     \<and> (\<forall>k s ops. session_at k db = Some s \<and> s_family s = t_family t \<longrightarrow>
          dead_session cfg k (fold (run_id_op hs cfg) ops db'))"
proof -
  have tin: "t \<in> set (refresh_tokens db)" using refresh_atD [OF t(1)] by simp
  with inv obtain s where s: "s \<in> set (sessions db)" "s_id s = t_session t"
    by (auto simp: id_inv_def token_fits_def)
  from inv s(1) have "s_user s \<in> u_id ` set (users db)" by (simp add: id_inv_def)
  then obtain usr where usr: "user_at (s_user s) db = Some usr"
    unfolding user_at_def using find_by_None_iff [of u_id "s_user s" "users db"] by fastforce
  have ses: "session_at (t_session t) db = Some s"
    using id_inv_session_at [OF inv s(1)] s(2) by simp
  have "dead_session cfg k (fold (run_id_op hs cfg) ops (revoke_family (t_family t) now db))"
    if "session_at k db = Some x \<and> s_family x = t_family t" for k ops and x :: session_row
    by (rule revoked_stays_dead [OF revoke_family_inv [OF inv], where s = "x\<lparr>s_status := SRevoked, s_updated := now\<rparr>"])
      (use that in \<open>simp_all add: session_at_revoke_family\<close>)
  then show ?thesis
    using t ses usr by (intro exI [of _ "revoke_family (t_family t) now db"]) (auto simp: refresh_def)
qed

definition demo_reuse_db :: id_db where
  "demo_reuse_db = demo_id_db\<lparr>refresh_tokens := [demo_token\<lparr>t_status := TUsed\<rparr>]\<rparr>"

lemma demo_reuse_inv: "id_inv demo_reuse_db"
  by (simp add: id_inv_def token_fits_def one_active_def demo_reuse_db_def demo_id_defs)

theorem refresh_reuse_kills_family_witness:
  "fst (refresh demo_cfg (demo_nonces ''2'') 5 ''1'' ''1'' demo_reuse_db) =
     Inl (AuthenticationError ''refresh_reuse_detected'')"
proof -
  have "refresh_at (stable_hash ''1'') demo_reuse_db = Some (demo_token\<lparr>t_status := TUsed\<rparr>)"
    by (simp add: refresh_at_def demo_reuse_db_def demo_id_defs)
  from refresh_reuse_kills_family [OF demo_reuse_inv this, where cfg = demo_cfg and u = "demo_nonces ''2''"
      and now = 5 and csrf = "''1''" and hs = demo_hasher]
  show ?thesis by auto
qed

lemma session_at_logout:
  "session_at k db = Some s \<Longrightarrow> \<exists>s'. session_at k (logout now k db) = Some s' \<and> s_status s' = SRevoked"
proof -
  assume s: "session_at k db = Some s"
  let ?f = "\<lambda>s. s\<lparr>s_status := SRevoked, s_updated := now\<rparr>"
  have "session_at k (db\<lparr>sessions := update_by s_id k ?f (sessions db)\<rparr>) = Some (?f s)"
    using s by (simp add: session_at_def find_by_update_by)
  with s show ?thesis by (simp add: logout_def session_at_revoke_family)
qed

lemma sign_out_is_final_parts:
  assumes inv: "id_inv db" and s: "session_at k db = Some s"
  shows "dead_session cfg k (fold (run_id_op hs cfg) ops (logout now k db))"
    and "revoke_session now user k db =
      (if s_user s = user then (Inr (), logout now k db) else (Inl (AuthenticationError ''session_not_found''), db))"
proof -
  from session_at_logout [OF s, of now] obtain s' where
    "session_at k (logout now k db) = Some s'" "s_status s' = SRevoked" by blast
  then show "dead_session cfg k (fold (run_id_op hs cfg) ops (logout now k db))"
    by (rule revoked_stays_dead [OF logout_inv [OF inv]])
  show "revoke_session now user k db =
      (if s_user s = user then (Inr (), logout now k db) else (Inl (AuthenticationError ''session_not_found''), db))"
    using s by (simp add: revoke_session_def)
qed

text \<open>
  A logout is final for the session it names, whatever is called afterwards; so is
  \<open>revoke_session\<close> by the user who owns it, and a user cannot end a session of somebody else.
\<close>

theorem sign_out_is_final:
  assumes inv: "id_inv db" and s: "session_at k db = Some s"
  shows "(dead_session cfg k (fold (run_id_op hs cfg) ops (logout now k db)))
    \<and> (revoke_session now user k db =
      (if s_user s = user then (Inr (), logout now k db) else (Inl (AuthenticationError ''session_not_found''), db)))"
  using sign_out_is_final_parts [OF assms] by blast

theorem sign_out_is_final_witness:
  "dead_session demo_cfg ''session_1'' (logout 7 ''session_1'' demo_id_db)"
proof -
  have "session_at ''session_1'' demo_id_db = Some demo_session"
    by (simp add: session_at_def demo_id_defs)
  from sign_out_is_final [OF demo_id_inv this, where cfg = demo_cfg and ops = "[]" and now = 7] show ?thesis by simp
qed

lemma password_change_signs_out_parts:
  assumes inv: "id_inv db" and ok: "fst (change_password hs now user old pw db) = Inr ()"
    and s: "session_at k db = Some s" "s_user s = user"
  shows "\<exists>row. user_at user db = Some row \<and> user_at user (snd (change_password hs now user old pw db)) =
      Some (row\<lparr>u_password_hash := h_hash hs pw, u_token_version := u_token_version row + 1, u_updated := now\<rparr>)"
    and "dead_session cfg k (fold (run_id_op hs cfg) ops (snd (change_password hs now user old pw db)))"
    and "dead_session cfg k (fold (run_id_op hs cfg) ops (revoke_all_sessions now user db))"
proof -
  let ?db = "snd (change_password hs now user old pw db)"
  obtain row where row: "user_at user db = Some row"
    "change_password hs now user old pw db = (Inr (), revoke_user user now
         (db\<lparr>users := update_by u_id user (\<lambda>r. r\<lparr>u_password_hash := h_hash hs pw,
            u_token_version := u_token_version r + 1, u_updated := now\<rparr>) (users db)\<rparr>))"
    using ok by (cases rule: change_password_cases [of hs now user old pw db]) auto
  then show "\<exists>row. user_at user db = Some row \<and> user_at user ?db =
      Some (row\<lparr>u_password_hash := h_hash hs pw, u_token_version := u_token_version row + 1, u_updated := now\<rparr>)"
    by (intro exI [of _ row]) (simp add: user_at_def find_by_update_by)
  have db: "id_inv ?db" using change_password_inv_later inv by blast
  have at: "session_at k ?db = Some (s\<lparr>s_status := SRevoked, s_updated := now\<rparr>)"
    unfolding row(2) snd_conv session_at_revoke_user using s by (simp add: session_at_def)
  show "dead_session cfg k (fold (run_id_op hs cfg) ops ?db)"
    by (rule revoked_stays_dead [OF db at]) simp
  have db': "id_inv (revoke_all_sessions now user db)" using revoke_all_sessions_inv_later inv by blast
  have "session_at k (revoke_all_sessions now user db) = session_at k (revoke_user user now db)"
    by (simp add: session_at_def revoke_all_sessions_def Let_def)
  with s have at': "session_at k (revoke_all_sessions now user db) = Some (s\<lparr>s_status := SRevoked, s_updated := now\<rparr>)"
    by (simp add: session_at_revoke_user)
  show "dead_session cfg k (fold (run_id_op hs cfg) ops (revoke_all_sessions now user db))"
    by (rule revoked_stays_dead [OF db' at']) simp
qed

text \<open>
  A successful change of password stores the new hash under the next token version and ends
  every session the user has, for good; \<open>revoke_all_sessions\<close> ends them too.
\<close>

theorem password_change_signs_out:
  assumes inv: "id_inv db" and ok: "fst (change_password hs now user old pw db) = Inr ()"
    and s: "session_at k db = Some s" "s_user s = user"
  shows "(\<exists>row. user_at user db = Some row \<and> user_at user (snd (change_password hs now user old pw db)) =
      Some (row\<lparr>u_password_hash := h_hash hs pw, u_token_version := u_token_version row + 1, u_updated := now\<rparr>))
    \<and> (dead_session cfg k (fold (run_id_op hs cfg) ops (snd (change_password hs now user old pw db))))
    \<and> (dead_session cfg k (fold (run_id_op hs cfg) ops (revoke_all_sessions now user db)))"
  using password_change_signs_out_parts [OF assms] by blast

theorem password_change_signs_out_witness:
  "dead_session demo_cfg ''session_1''
     (snd (change_password demo_hasher 9 ''user_1'' ''1'' ''correct horse'' demo_id_db))"
proof -
  have "session_at ''session_1'' demo_id_db = Some demo_session"
    by (simp add: session_at_def demo_id_defs)
  moreover have "fst (change_password demo_hasher 9 ''user_1'' ''1'' ''correct horse'' demo_id_db) = Inr ()"
    by (simp add: change_password_def user_at_def demo_id_defs)
  moreover have "s_user demo_session = ''user_1''" by (simp add: demo_session_def)
  ultimately show ?thesis
    using password_change_signs_out [OF demo_id_inv, where ops = "[]" and cfg = demo_cfg] by simp
qed

section \<open>Login\<close>

definition session_made :: "id_config \<Rightarrow> id_nonces \<Rightarrow> time \<Rightarrow> string \<Rightarrow> string \<Rightarrow> session_row" where
  "session_made cfg u now user_id agent = \<lparr>s_id = ''session_'' @ in_session u, s_user = user_id,
     s_family = ''family_'' @ in_family u, s_csrf_hash = stable_hash (in_csrf u),
     s_agent_hash = (if agent \<noteq> [] then Some (stable_hash agent) else None), s_status = SActive,
     s_expires = now + micros (86400 * refresh_days cfg), s_created = now, s_updated = now\<rparr>"

definition ids_fresh :: "id_nonces \<Rightarrow> id_db \<Rightarrow> bool" where
  "ids_fresh u db \<longleftrightarrow> ''session_'' @ in_session u \<notin> s_id ` set (sessions db)
     \<and> ''refresh_'' @ in_refresh_id u \<notin> t_id ` set (refresh_tokens db)
     \<and> stable_hash (in_refresh u) \<notin> t_hash ` set (refresh_tokens db)"

lemma create_session_fresh:
  assumes "user_at user db = Some row" and "ids_fresh u db"
  shows "create_session cfg u now user ver agent db =
    (Inr \<lparr>st_access = \<lparr>ap_sub = user, ap_sid = ''session_'' @ in_session u, ap_ver = ver,
         ap_iat = now div 1000000, ap_exp = (now + micros (60 * access_minutes cfg)) div 1000000,
         ap_kid = signing_key_id cfg\<rparr>,
       st_refresh = in_refresh u, st_csrf = in_csrf u, st_session = ''session_'' @ in_session u,
       st_family = ''family_'' @ in_family u\<rparr>,
     db\<lparr>sessions := sessions db @ [session_made cfg u now user agent],
        refresh_tokens := refresh_tokens db @
          [issued_row cfg u now (''session_'' @ in_session u) (''family_'' @ in_family u)]\<rparr>)"
proof -
  define k where "k = ''session_'' @ in_session u"
  define fam where "fam = ''family_'' @ in_family u"
  define rid where "rid = ''refresh_'' @ in_refresh_id u"
  note ids = k_def [symmetric] fam_def [symmetric] rid_def [symmetric]
  have k: "k \<notin> s_id ` set (sessions db)" and rid: "rid \<notin> t_id ` set (refresh_tokens db)"
    and h: "stable_hash (in_refresh u) \<notin> t_hash ` set (refresh_tokens db)"
    using assms(2) unfolding ids_fresh_def ids by simp_all
  have made: "session_made cfg u now user agent = \<lparr>s_id = k, s_user = user, s_family = fam,
      s_csrf_hash = stable_hash (in_csrf u),
      s_agent_hash = (if agent \<noteq> [] then Some (stable_hash agent) else None), s_status = SActive,
      s_expires = now + micros (86400 * refresh_days cfg), s_created = now, s_updated = now\<rparr>"
    unfolding session_made_def ids ..
  have upd: "update_by s_id k (\<lambda>s. s\<lparr>s_csrf_hash := stable_hash (in_csrf u), s_updated := now\<rparr>)
      (sessions db @ [session_made cfg u now user agent]) = sessions db @ [session_made cfg u now user agent]"
    using k update_by_absent [OF k] unfolding made by (simp add: update_by_def)
  have found: "find_by s_id k (sessions db @ [session_made cfg u now user agent]) \<noteq> None"
    unfolding find_by_None_iff made by simp
  have hf: "find_by t_hash (stable_hash (in_refresh u)) (refresh_tokens db) = None"
    using h by (simp add: find_by_None_iff)
  show ?thesis
    unfolding create_session_def Let_def issue_tokens_in_def insert_session_def insert_refresh_def
      refresh_at_def session_at_def ids
    using k rid hf found upd made assms(1)
    by (simp add: insert_by_fresh issued_row_def rid_def)
qed

text \<open>
  With the right credentials of an active user, below the limit and with fresh identifiers,
  a login succeeds; its access token verifies as that user and session exactly until the
  configured minutes are over, and its refresh token is active under the returned CSRF token.
\<close>

theorem login_opens_session:
  assumes inv: "id_inv db" and limit: "enforce_login_limit now (stable_hash (normalized name)) db = Inr ()"
    and row: "user_named (normalized name) db = Some row" "u_active row" "h_verify hs (u_password_hash row) pw"
    and fresh: "ids_fresh u db" "''login_'' @ in_login u \<notin> la_id ` set (login_attempts db)"
  shows "\<exists>tokens db'. login hs cfg u now name pw agent db = (Inr tokens, db') \<and>
    st_session tokens = ''session_'' @ in_session u \<and>
    (\<forall>t. verify_access t (st_access tokens) db' =
       (if (now + micros (60 * access_minutes cfg)) div 1000000 \<le> t div 1000000
        then Inl (AuthenticationError ''access_expired'')
        else Inr (u_id row, st_session tokens, u_token_version row))) \<and>
    (\<exists>r s. refresh_at (stable_hash (st_refresh tokens)) db' = Some r \<and> t_status r = TActive
       \<and> t_expires r = now + micros (86400 * refresh_days cfg) \<and> t_session r = st_session tokens
       \<and> session_at (st_session tokens) db' = Some s \<and> s_csrf_hash s = stable_hash (st_csrf tokens))"
proof -
  define k where "k = ''session_'' @ in_session u"
  define fam where "fam = ''family_'' @ in_family u"
  define la where "la = \<lparr>la_id = ''login_'' @ in_login u, la_identity_hash = stable_hash (normalized name),
     la_source_hash = stable_hash (if agent \<noteq> [] then agent else ''unknown''), la_failed = False, la_occurred = now\<rparr>"
  let ?db1 = "db\<lparr>login_attempts := login_attempts db @ [la]\<rparr>"
  have rin: "row \<in> set (users db)" using row(1) unfolding user_named_def by (blast dest: find_by_SomeD)
  then have usr: "user_at (u_id row) db = Some row"
    unfolding user_at_def using inv by (intro find_by_distinct) (simp_all add: id_inv_def)
  have la: "insert_by la_id la (login_attempts db) = Some (login_attempts db @ [la])"
    by (rule insert_by_fresh) (use fresh in \<open>simp add: la_def\<close>)
  have rec: "record_login u now (stable_hash (normalized name))
      (stable_hash (if agent \<noteq> [] then agent else ''unknown'')) False db = (Inr (), ?db1)"
    using la unfolding record_login_def la_def [symmetric] by simp
  have usr1: "user_at (u_id row) ?db1 = Some row" using usr by (simp add: user_at_def)
  let ?db2 = "?db1\<lparr>sessions := sessions db @ [session_made cfg u now (u_id row) agent],
        refresh_tokens := refresh_tokens db @ [issued_row cfg u now k fam]\<rparr>"
  let ?tokens = "\<lparr>st_access = \<lparr>ap_sub = u_id row, ap_sid = k, ap_ver = u_token_version row,
         ap_iat = now div 1000000, ap_exp = (now + micros (60 * access_minutes cfg)) div 1000000,
         ap_kid = signing_key_id cfg\<rparr>,
       st_refresh = in_refresh u, st_csrf = in_csrf u, st_session = k, st_family = fam\<rparr>"
  have sid: "s_id (session_made cfg u now (u_id row) agent) = k" "s_user (session_made cfg u now (u_id row) agent) = u_id row"
    "s_status (session_made cfg u now (u_id row) agent) = SActive"
    "s_csrf_hash (session_made cfg u now (u_id row) agent) = stable_hash (in_csrf u)"
    unfolding session_made_def k_def by (rule session_row.select_convs)+
  have "create_session cfg u now (u_id row) (u_token_version row) agent ?db1 = (Inr ?tokens, ?db2)"
    using create_session_fresh [OF usr1, of u cfg now "u_token_version row" agent] fresh
    unfolding ids_fresh_def k_def fam_def by simp
  with limit row rec have "login hs cfg u now name pw agent db = (Inr ?tokens, ?db2)"
    by (simp add: login_def Let_def)
  moreover have "session_at k ?db2 = Some (session_made cfg u now (u_id row) agent)"
    using fresh(1) sid(1) find_by_added [of s_id "session_made cfg u now (u_id row) agent" "sessions db"]
    unfolding ids_fresh_def k_def [symmetric] by (simp add: session_at_def)
  moreover have "refresh_at (stable_hash (in_refresh u)) ?db2 = Some (issued_row cfg u now k fam)"
    using fresh(1) find_by_added [of t_hash "issued_row cfg u now k fam" "refresh_tokens db"]
    unfolding ids_fresh_def by (simp add: refresh_at_def issued_row_def)
  moreover have "user_at (u_id row) ?db2 = Some row" using usr by (simp add: user_at_def)
  ultimately show ?thesis
    using row(2) sid by (intro exI [of _ ?tokens] exI [of _ ?db2]) (simp add: verify_access_def issued_row_def k_def)
qed

theorem login_opens_session_witness:
  "\<exists>tokens db'. login demo_hasher demo_cfg (demo_nonces ''2'') 9 ''local'' ''1'' []
     (demo_id_db\<lparr>sessions := [], refresh_tokens := []\<rparr>) = (Inr tokens, db') \<and> st_session tokens = ''session_2''"
  (is "\<exists>tokens db'. login _ _ _ _ _ _ _ ?db = _ \<and> _")
proof -
  have inv: "id_inv ?db" by (simp add: id_inv_def one_active_def demo_id_defs)
  have lim: "enforce_login_limit 9 (stable_hash (normalized ''local'')) ?db = Inr ()"
    by (simp add: enforce_login_limit_def demo_id_defs)
  have row: "user_named (normalized ''local'') ?db = Some demo_user"
    by (simp add: user_named_def normalized_local demo_id_defs)
  have "u_active demo_user" "h_verify demo_hasher (u_password_hash demo_user) ''1''"
    "ids_fresh (demo_nonces ''2'') ?db" "''login_'' @ in_login (demo_nonces ''2'') \<notin> la_id ` set (login_attempts ?db)"
    by (simp_all add: demo_id_defs ids_fresh_def)
  from login_opens_session [OF inv lim row this, where cfg = demo_cfg and agent = "[]"]
  show ?thesis by (auto simp: demo_nonces_def)
qed

text \<open>
  Below the limit, an unknown user, an inactive user and a wrong password are refused with
  the same error, and the only trace is one failed attempt for the name that was given.
\<close>

theorem login_uniform_refusal:
  assumes "enforce_login_limit now (stable_hash (normalized name)) db = Inr ()"
    and "''login_'' @ in_login u \<notin> la_id ` set (login_attempts db)"
    and "\<And>row. user_named (normalized name) db = Some row \<Longrightarrow>
      \<not> u_active row \<or> \<not> h_verify hs (u_password_hash row) pw"
  shows "login hs cfg u now name pw agent db = (Inl (AuthenticationError ''authentication_failed''),
    db\<lparr>login_attempts := login_attempts db @ [\<lparr>la_id = ''login_'' @ in_login u,
      la_identity_hash = stable_hash (normalized name),
      la_source_hash = stable_hash (if agent \<noteq> [] then agent else ''unknown''),
      la_failed = True, la_occurred = now\<rparr>]\<rparr>)"
proof -
  define la where "la = \<lparr>la_id = ''login_'' @ in_login u, la_identity_hash = stable_hash (normalized name),
     la_source_hash = stable_hash (if agent \<noteq> [] then agent else ''unknown''), la_failed = True, la_occurred = now\<rparr>"
  have "insert_by la_id la (login_attempts db) = Some (login_attempts db @ [la])"
    by (rule insert_by_fresh) (use assms(2) in \<open>simp add: la_def\<close>)
  then have "record_login u now (stable_hash (normalized name))
      (stable_hash (if agent \<noteq> [] then agent else ''unknown'')) True db =
      (Inr (), db\<lparr>login_attempts := login_attempts db @ [la]\<rparr>)"
    unfolding record_login_def la_def [symmetric] by simp
  with assms(1,3) show ?thesis
    unfolding la_def [symmetric] by (auto simp: login_def Let_def split: option.split)
qed

theorem login_uniform_refusal_witness:
  "fst (login demo_hasher demo_cfg (demo_nonces ''2'') 9 ''local'' ''wrong'' [] demo_id_db) =
     fst (login demo_hasher demo_cfg (demo_nonces ''2'') 9 ''nobody'' ''wrong'' [] demo_id_db)"
proof -
  have names: "normalized ''nobody'' = ''nobody''" by code_simp
  have lim: "enforce_login_limit 9 h demo_id_db = Inr ()" for h
    by (simp add: enforce_login_limit_def demo_id_defs)
  have fresh: "''login_'' @ in_login (demo_nonces ''2'') \<notin> la_id ` set (login_attempts demo_id_db)"
    by (simp add: demo_id_defs)
  have 1: "\<not> u_active row \<or> \<not> h_verify demo_hasher (u_password_hash row) ''wrong''"
    if "user_named (normalized ''local'') demo_id_db = Some row" for row
    using that by (simp add: user_named_def normalized_local demo_id_defs) auto
  have 2: "\<not> u_active row \<or> \<not> h_verify demo_hasher (u_password_hash row) ''wrong''"
    if "user_named (normalized ''nobody'') demo_id_db = Some row" for row
    using that by (simp add: user_named_def names demo_id_defs)
  show ?thesis
    using login_uniform_refusal [OF lim fresh 1, where cfg = demo_cfg and agent = "[]"]
      login_uniform_refusal [OF lim fresh 2, where cfg = demo_cfg and agent = "[]"] by simp
qed

text \<open>
  The limit on failed logins: what a run may add to the attempts.
\<close>

definition failures :: "string \<Rightarrow> time \<Rightarrow> id_db \<Rightarrow> login_row list" where
  "failures h w db = filter (\<lambda>a. la_identity_hash a = h \<and> la_failed a \<and> w \<le> la_occurred a
     \<and> la_occurred a \<le> w + micros (60 * 15)) (login_attempts db)"

definition attempts_ok :: "id_db \<Rightarrow> bool" where
  "attempts_ok db \<longleftrightarrow> (\<forall>h w. length (failures h w db) \<le> 5)"

lemma failures_same: "login_attempts db' = login_attempts db \<Longrightarrow> attempts_ok db' = attempts_ok db"
  by (simp add: attempts_ok_def failures_def)

lemma failures_window:
  assumes "enforce_login_limit now h db = Inr ()" and "w \<le> now" "now \<le> w + micros (60 * 15)"
  shows "length (failures h w db) < 5"
proof -
  have "length (failures h w db) \<le> length (filter (\<lambda>a. la_identity_hash a = h \<and> la_failed a \<and>
             now - micros (60 * 15) \<le> la_occurred a) (login_attempts db))"
    unfolding failures_def using assms(3)
    by (intro length_filter_mono_imp) auto
  also have "\<dots> < 5" using assms(1) by (simp add: enforce_login_limit_def split: if_splits)
  finally show ?thesis .
qed

lemma create_session_attempts:
  "login_attempts (snd (create_session cfg u now user ver agent db)) = login_attempts db"
  by (auto simp: create_session_def Let_def bind_eq_Some_conv issue_tokens_in_def
      dest!: insert_session_SomeD insert_refresh_SomeD split: option.split)

lemma record_login_ok:
  assumes "record_login u now h src failed db = (Inr x, db')"
  shows "login_attempts db' = login_attempts db @ [\<lparr>la_id = ''login_'' @ in_login u,
     la_identity_hash = h, la_source_hash = src, la_failed = failed, la_occurred = now\<rparr>]"
proof -
  define la where "la = \<lparr>la_id = ''login_'' @ in_login u, la_identity_hash = h, la_source_hash = src,
     la_failed = failed, la_occurred = now\<rparr>"
  show ?thesis
    using assms unfolding record_login_def la_def [symmetric]
    by (auto dest: insert_by_SomeD split: option.splits)
qed

lemma login_attempts_ok:
  assumes ok: "attempts_ok db"
  shows "attempts_ok (snd (login hs cfg u now name pw agent db))"
proof -
  let ?h = "stable_hash (normalized name)" and ?src = "stable_hash (if agent \<noteq> [] then agent else ''unknown'')"
  have grow: "attempts_ok db'" if rec: "record_login u now ?h ?src failed db = (r, db')"
    and lim: "enforce_login_limit now ?h db = Inr ()" for failed r db'
  proof (cases r)
    case (Inl e)
    with rec have "login_attempts db' = login_attempts db" by (auto simp: record_login_def split: option.splits)
    then show ?thesis using ok failures_same by blast
  next
    case (Inr x)
    note la = record_login_ok [OF rec [unfolded Inr]]
    show ?thesis
      unfolding attempts_ok_def
    proof (intro allI)
      fix h w
      show "length (failures h w db') \<le> 5"
      proof (cases "h = ?h \<and> failed \<and> w \<le> now \<and> now \<le> w + micros (60 * 15)")
        case True
        then have "length (failures h w db) < 5" using failures_window [OF lim] by simp
        with True show ?thesis unfolding failures_def la by simp
      next
        case False
        then have "failures h w db' = failures h w db" unfolding failures_def la by auto
        with ok show ?thesis by (simp add: attempts_ok_def)
      qed
    qed
  qed
  show ?thesis
  proof (cases "enforce_login_limit now ?h db")
    case (Inl e)
    with ok show ?thesis by (simp add: login_def Let_def)
  next
    case (Inr x)
    then have lim: "enforce_login_limit now ?h db = Inr ()" by simp
    have fail: "attempts_ok (snd (and_then (record_login u now ?h ?src True db)
        (\<lambda>_ db. (Inl (AuthenticationError ''authentication_failed''), db))))"
      using grow [OF _ lim]
      by (cases "record_login u now ?h ?src True db") (auto simp: and_then_def split: sum.split)
    have enter: "attempts_ok (snd (and_then (record_login u now ?h ?src False db)
        (\<lambda>_ db. create_session cfg u now user ver agent db)))" for user ver
      using grow [OF _ lim] failures_same [OF create_session_attempts]
      by (cases "record_login u now ?h ?src False db") (auto simp: and_then_def split: sum.split)
    show ?thesis
    proof (cases "user_named (normalized name) db")
      case None
      show ?thesis using fail unfolding login_def Let_def lim None and_then_simps option.case .
    next
      case (Some row)
      show ?thesis using fail enter unfolding login_def Let_def lim Some and_then_simps option.case
        by (cases "\<not> u_active row \<or> \<not> h_verify hs (u_password_hash row) pw") (simp_all only: if_True if_False)
    qed
  qed
qed

lemma attempts_frame:
  "login_attempts (revoke_family k now db) = login_attempts db"
  "login_attempts (logout now k' db) = login_attempts db"
  "login_attempts (snd (revoke_session now user k' db)) = login_attempts db"
  "login_attempts (snd (create_bootstrap_token u now ttl db)) = login_attempts db"
  "login_attempts (snd (link_oidc u now user iss sub email db)) = login_attempts db"
  "login_attempts (revoke_all_sessions now user db) = login_attempts db"
proof -
  show fam: "login_attempts (revoke_family k now db) = login_attempts db" for k db
    by (simp add: revoke_family_def)
  show out: "login_attempts (logout now k' db) = login_attempts db"
    by (simp add: logout_def fam split: option.split)
  show "login_attempts (snd (revoke_session now user k' db)) = login_attempts db"
    using revoke_session_snd [of now user k' db] out by auto
qed (simp_all add: create_bootstrap_token_def link_oidc_def revoke_all_sessions_def Let_def split: option.split)

lemma attempts_frame_cases:
  "login_attempts (snd (bootstrap_owner hs u now tok name pw db)) = login_attempts db"
  "login_attempts (snd (create_user hs u now name pw db)) = login_attempts db"
  "login_attempts (snd (change_password hs now user old pw db)) = login_attempts db"
  "login_attempts (snd (refresh cfg u now tok csrf db)) = login_attempts db"
proof -
  show "login_attempts (snd (bootstrap_owner hs u now tok name pw db)) = login_attempts db"
    by (cases rule: bootstrap_owner_cases [of hs u now tok name pw db]) (auto dest!: insert_user_SomeD)
  show "login_attempts (snd (create_user hs u now name pw db)) = login_attempts db"
    by (cases rule: create_user_cases [of hs u now name pw db]) (auto dest!: insert_user_SomeD)
  show "login_attempts (snd (change_password hs now user old pw db)) = login_attempts db"
    by (cases rule: change_password_cases [of hs now user old pw db]) simp_all
  show "login_attempts (snd (refresh cfg u now tok csrf db)) = login_attempts db"
  proof (cases rule: refresh_cases [of cfg u now tok csrf db])
    case (reused t)
    then show ?thesis by (simp add: attempts_frame)
  next
    case (rotated t s usr tokens db')
    from rotated(9) have "login_attempts db' = login_attempts db"
      by (auto simp: issue_tokens_in_def spend_token_def dest!: insert_refresh_SomeD)
    with rotated(10) show ?thesis by simp
  qed simp
qed

lemma create_local_session_attempts:
  "login_attempts (snd (create_local_session hs cfg u now name agent db)) = login_attempts db"
proof -
  have run: "login_attempts (snd (and_then (create_session cfg u now user ver agent db1)
      (\<lambda>tokens db. (Inr (user, tokens), db)))) = login_attempts db1" for user ver db1
    using create_session_attempts [of cfg u now user ver agent db1]
    by (cases "create_session cfg u now user ver agent db1") (auto simp: and_then_def split: sum.split)
  show ?thesis
    unfolding create_local_session_def
    by (auto simp: run dest!: insert_user_SomeD split: option.split)
qed

lemma run_id_op_attempts: "attempts_ok db \<Longrightarrow> attempts_ok (run_id_op hs cfg op db)"
  by (cases op)
    (simp_all add: login_attempts_ok failures_same [OF attempts_frame(2)] failures_same [OF attempts_frame(3)]
      failures_same [OF attempts_frame(4)] failures_same [OF attempts_frame(5)] failures_same [OF attempts_frame(6)]
      failures_same [OF attempts_frame_cases(1)] failures_same [OF attempts_frame_cases(2)]
      failures_same [OF attempts_frame_cases(3)] failures_same [OF attempts_frame_cases(4)]
      failures_same [OF create_local_session_attempts])

interpretation limiter: machine "run_id_op hs cfg" "\<lambda>_. True" attempts_ok "\<lambda>_ _. True"
  by unfold_locales (simp_all add: run_id_op_attempts)

text \<open>
  Whatever is called and at whatever times, at most five failed logins are recorded for one
  name within any fifteen minutes.
\<close>

theorem login_failures_bounded:
  "length (filter (\<lambda>a. la_identity_hash a = h \<and> la_failed a \<and> w \<le> la_occurred a
     \<and> la_occurred a \<le> w + micros (60 * 15))
     (login_attempts (fold (run_id_op hs cfg) ops empty_id_db))) \<le> 5"
proof -
  have "attempts_ok empty_id_db" by (simp add: attempts_ok_def failures_def empty_id_db_def)
  then have "attempts_ok (fold (run_id_op hs cfg) ops empty_id_db)"
    by (rule limiter.run_inv) (simp add: list_all_iff)
  then show ?thesis unfolding attempts_ok_def failures_def by blast
qed

lemma users_stay:
  assumes "id_later db db'" and "users db \<noteq> []"
  shows "users db' \<noteq> []"
proof
  assume nil: "users db' = []"
  obtain r rs where "users db = r # rs" using assms(2) by (cases "users db") auto
  then have "find_by u_id (u_id r) (users db) = Some r" by simp
  with assms(1) nil show False unfolding id_later_def rows_later_def by fastforce
qed

lemma bootstrap_once_parts:
  assumes inv: "id_inv db" and ok: "fst (bootstrap_owner hs u now tok name pw db) = Inr owner"
    and db': "db' = fold (run_id_op hs cfg) ops (snd (bootstrap_owner hs u now tok name pw db))"
  shows "\<exists>e. bootstrap_owner hs u' now' tok' name' pw' db' = (Inl e, db')"
    and "\<exists>e. create_bootstrap_token u' now' ttl db' = (Inl e, db')"
proof -
  let ?db1 = "snd (bootstrap_owner hs u now tok name pw db)"
  have 1: "id_inv ?db1" using bootstrap_owner_inv_later inv by blast
  have "users ?db1 \<noteq> []"
    using ok by (cases rule: bootstrap_owner_cases [of hs u now tok name pw db]) (auto dest!: insert_user_SomeD)
  then have some: "users db' \<noteq> []"
    unfolding db' by (rule users_stay [OF id_runs_later [OF 1]])
  show "\<exists>e. bootstrap_owner hs u' now' tok' name' pw' db' = (Inl e, db')"
    using some by (cases rule: bootstrap_owner_cases [of hs u' now' tok' name' pw' db']) auto
  show "\<exists>e. create_bootstrap_token u' now' ttl db' = (Inl e, db')"
    using some by (simp add: create_bootstrap_token_def)
qed

text \<open>
  The first owner is created at most once: after a bootstrap succeeded, whatever is called,
  every further bootstrap and every request for a bootstrap token is refused and changes nothing.
\<close>

theorem bootstrap_once:
  assumes inv: "id_inv db" and ok: "fst (bootstrap_owner hs u now tok name pw db) = Inr owner"
    and db': "db' = fold (run_id_op hs cfg) ops (snd (bootstrap_owner hs u now tok name pw db))"
  shows "(\<exists>e. bootstrap_owner hs u' now' tok' name' pw' db' = (Inl e, db'))
    \<and> (\<exists>e. create_bootstrap_token u' now' ttl db' = (Inl e, db'))"
  using bootstrap_once_parts [OF assms] by blast

theorem bootstrap_once_witness:
  "\<exists>e db'. bootstrap_owner demo_hasher (demo_nonces ''2'') 9 ''key'' ''Eve'' ''another passphrase''
     (snd (bootstrap_owner demo_hasher (demo_nonces ''1'') 5 ''key'' ''Ada'' ''correct horse''
        (init_bootstrap 0 ''key'' empty_id_db))) = (Inl e, db')"
proof -
  have ada: "normalized ''Ada'' = ''ada''" by code_simp
  have inv: "id_inv (init_bootstrap 0 ''key'' empty_id_db)"
    by (simp add: init_bootstrap_def insert_by_def empty_id_db_def id_inv_def one_active_def)
  have "fst (bootstrap_owner demo_hasher (demo_nonces ''1'') 5 ''key'' ''Ada'' ''correct horse''
      (init_bootstrap 0 ''key'' empty_id_db)) = Inr ''user_1''"
    by (simp add: bootstrap_owner_def init_bootstrap_def ada insert_by_def insert_user_def user_named_def
        new_user_def micros_def demo_id_defs Let_def)
  from bootstrap_once [OF inv this, where ops = "[]" and cfg = demo_cfg, OF refl] show ?thesis by fastforce
qed

end
