(* ===== verification/Py_Base64.thy ===== *)
theory Py_Base64
  imports Hashing
begin

text \<open>
  The byte strings of an access token (\<open>control_plane/auth.py\<close>): \<open>_b64\<close> and \<open>_pad\<close> over the
  standard library's \<open>base64\<close> and \<open>hmac\<close>.  Bytes are integers from 0 to 255.  The decoder is the
  non-strict one of CPython: it skips characters outside of the alphabet and stops at the padding
  that completes a quantum.
\<close>

section \<open>Encoding\<close>

definition is_byte :: "int \<Rightarrow> bool" where
  "is_byte b \<longleftrightarrow> 0 \<le> b \<and> b < 256"

text \<open>The URL-safe alphabet.\<close>

definition sextet_char :: "int \<Rightarrow> char" where
  "sextet_char v = (if v < 26 then char_of (nat (65 + v)) else if v < 52 then char_of (nat (71 + v))
     else if v < 62 then char_of (nat (v - 4)) else if v = 62 then CHR ''-'' else CHR ''_'')"

fun sextets :: "int list \<Rightarrow> int list" where
  "sextets [] = []"
| "sextets [a] = [a div 4, a mod 4 * 16]"
| "sextets [a, b] = [a div 4, a mod 4 * 16 + b div 16, b mod 16 * 4]"
| "sextets (a # b # c # rest) =
     [a div 4, a mod 4 * 16 + b div 16, b mod 16 * 4 + c div 64, c mod 64] @ sextets rest"

text \<open>\<open>_pad\<close> adds \<open>"=" * (-len(value) % 4)\<close>, as \<open>urlsafe_b64encode\<close> does after its characters.\<close>

definition pad4 :: "string \<Rightarrow> string" where
  "pad4 value = value @ replicate (nat (- int (length value) mod 4)) CHR ''=''"

definition urlsafe_b64encode :: "int list \<Rightarrow> string" where
  "urlsafe_b64encode bs = pad4 (map sextet_char (sextets bs))"

definition b64 :: "int list \<Rightarrow> string" where
  "b64 bs = rev (dropWhile (\<lambda>c. c = CHR ''='') (rev (urlsafe_b64encode bs)))"

section \<open>Decoding\<close>

text \<open>\<open>-\<close> and \<open>_\<close> are translated to \<open>+\<close> and \<open>/\<close> before the standard alphabet is used.\<close>

definition sextet_of :: "char \<Rightarrow> int option" where
  "sextet_of c = (let n = of_char c :: int in
     if 65 \<le> n \<and> n \<le> 90 then Some (n - 65) else if 97 \<le> n \<and> n \<le> 122 then Some (n - 71)
     else if 48 \<le> n \<and> n \<le> 57 then Some (n + 4) else if c = CHR ''-'' \<or> c = CHR ''+'' then Some 62
     else if c = CHR ''_'' \<or> c = CHR ''/'' then Some 63 else None)"

text \<open>
  \<open>binascii.a2b_base64\<close>: the position in the quantum, the bits left over, the padding characters
  seen; \<open>None\<close> is \<open>binascii.Error\<close>.
\<close>

fun a2b :: "nat \<Rightarrow> int \<Rightarrow> nat \<Rightarrow> string \<Rightarrow> int list option" where
  "a2b q left pads [] = (if q = 0 then Some [] else None)"
| "a2b q left pads (c # cs) =
     (if c = CHR ''='' then
        (if 2 \<le> q then (if 4 \<le> q + (pads + 1) then Some [] else a2b q left (pads + 1) cs) else a2b q left pads cs)
      else case sextet_of c of
          None \<Rightarrow> a2b q left pads cs
        | Some v \<Rightarrow>
            if q = 0 then a2b 1 v 0 cs
            else if q = 1 then map_option (\<lambda>bs. (left * 4 + v div 16) # bs) (a2b 2 (v mod 16) 0 cs)
            else if q = 2 then map_option (\<lambda>bs. (left * 16 + v div 4) # bs) (a2b 3 (v mod 4) 0 cs)
            else map_option (\<lambda>bs. (left * 64 + v) # bs) (a2b 0 0 0 cs))"

definition urlsafe_b64decode :: "string \<Rightarrow> int list option" where
  "urlsafe_b64decode s = a2b 0 0 0 s"

section \<open>Round trip\<close>

lemma of_char_char_of: "0 \<le> k \<Longrightarrow> k < 256 \<Longrightarrow> (of_char (char_of (nat k) :: char) :: int) = k"
proof -
  assume k: "0 \<le> k" "k < 256"
  have "(of_char (char_of (nat k) :: char) :: int) = int (of_char (char_of (nat k) :: char))" by (simp only: of_nat_of_char)
  also have "\<dots> = int (nat k mod 256)" by (simp only: of_char_of)
  finally show ?thesis using k by (simp add: nat_less_iff)
qed

lemma sextet_char_code: "0 \<le> v \<Longrightarrow> v < 64 \<Longrightarrow> sextet_of (sextet_char v) = Some v \<and> sextet_char v \<noteq> CHR ''=''"
proof -
  assume v: "0 \<le> v" "v < 64"
  have eq: "(of_char (CHR ''='') :: int) = 61" by (simp add: of_char_def)
  consider "v < 26" | "26 \<le> v" "v < 52" | "52 \<le> v" "v < 62" | "v = 62" | "v = 63" using v(2) by linarith
  then show ?thesis
  proof cases
    case 1
    then have "(of_char (sextet_char v) :: int) = 65 + v" using v by (simp add: sextet_char_def of_char_char_of)
    with 1 v eq show ?thesis by (auto simp: sextet_of_def Let_def)
  next
    case 2
    then have "(of_char (sextet_char v) :: int) = 71 + v" using v by (simp add: sextet_char_def of_char_char_of)
    with 2 v eq show ?thesis by (auto simp: sextet_of_def Let_def)
  next
    case 3
    then have "(of_char (sextet_char v) :: int) = v - 4" using v by (simp add: sextet_char_def of_char_char_of)
    with 3 v eq show ?thesis by (auto simp: sextet_of_def Let_def)
  qed (simp_all add: sextet_char_def sextet_of_def of_char_def)
qed

lemma byte_parts:
  assumes "is_byte b"
  shows "0 \<le> b div 4" "b div 4 \<le> 63" "0 \<le> b div 16" "b div 16 \<le> 15" "0 \<le> b div 64" "b div 64 \<le> 3"
  using assms unfolding is_byte_def by presburger+

lemma mod_parts:
  "0 \<le> (b :: int) mod 4" "b mod 4 \<le> 3" "0 \<le> b mod 16" "b mod 16 \<le> 15" "0 \<le> b mod 64" "b mod 64 \<le> 63"
  by presburger+

text \<open>A sextet from the low bits of one byte and the high bits of the next.\<close>

lemma joined16:
  fixes x y :: int
  assumes "0 \<le> x" "x \<le> 3" "0 \<le> y" "y \<le> 15"
  shows "0 \<le> x * 16 + y" "x * 16 + y < 64" "(x * 16 + y) div 16 = x" "(x * 16 + y) mod 16 = y"
  using assms by simp_all

lemma joined4:
  fixes x y :: int
  assumes "0 \<le> x" "x \<le> 15" "0 \<le> y" "y \<le> 3"
  shows "0 \<le> x * 4 + y" "x * 4 + y < 64" "(x * 4 + y) div 4 = x" "(x * 4 + y) mod 4 = y"
  using assms by simp_all

definition is_sextet :: "int \<Rightarrow> bool" where
  "is_sextet v \<longleftrightarrow> 0 \<le> v \<and> v < 64"

lemma sextet_parts:
  assumes "is_byte a"
  shows "is_sextet (a div 4)" "is_sextet (a mod 64)" "is_sextet (a mod 4 * 16)" "is_sextet (a mod 16 * 4)"
    "is_byte b \<Longrightarrow> is_sextet (a mod 4 * 16 + b div 16)" "is_byte b \<Longrightarrow> is_sextet (a mod 16 * 4 + b div 64)"
proof -
  show "is_sextet (a div 4)" unfolding is_sextet_def using byte_parts(1,2) [OF assms] by simp
  show "is_sextet (a mod 64)" by (simp add: is_sextet_def)
  show "is_sextet (a mod 4 * 16)"
    using joined16(1,2) [OF mod_parts(1,2) [of a], of 0] by (simp only: is_sextet_def add_0_right)
  show "is_sextet (a mod 16 * 4)"
    using joined4(1,2) [OF mod_parts(3,4) [of a], of 0] by (simp only: is_sextet_def add_0_right)
  show "is_byte b \<Longrightarrow> is_sextet (a mod 4 * 16 + b div 16)"
    using joined16(1,2) [OF mod_parts(1,2) [of a] byte_parts(3,4) [of b]] by (simp only: is_sextet_def)
  show "is_byte b \<Longrightarrow> is_sextet (a mod 16 * 4 + b div 64)"
    using joined4(1,2) [OF mod_parts(3,4) [of a] byte_parts(5,6) [of b]] by (simp only: is_sextet_def)
qed

lemma sextets_range: "list_all is_byte bs \<Longrightarrow> list_all is_sextet (sextets bs)"
  by (induction bs rule: sextets.induct) (simp_all add: sextet_parts)

text \<open>The decoder on the characters of sextets.\<close>

lemma a2b_sextet:
  assumes "is_sextet v"
  shows "a2b q left pads (sextet_char v # cs) =
     (if q = 0 then a2b 1 v 0 cs
      else if q = 1 then map_option (\<lambda>bs. (left * 4 + v div 16) # bs) (a2b 2 (v mod 16) 0 cs)
      else if q = 2 then map_option (\<lambda>bs. (left * 16 + v div 4) # bs) (a2b 3 (v mod 4) 0 cs)
      else map_option (\<lambda>bs. (left * 64 + v) # bs) (a2b 0 0 0 cs))"
  using sextet_char_code [of v] assms by (simp add: is_sextet_def)

declare a2b.simps(2) [simp del]

lemma a2b_pad: "a2b 2 left 0 ''=='' = Some []" "a2b 3 left 0 ''='' = Some []"
  by (simp_all add: a2b.simps)

lemma a2b_quantum:
  assumes "is_byte a" "is_byte b" "is_byte c"
  shows "a2b 0 0 0 (map sextet_char (sextets (a # b # c # bs)) @ cs) =
    map_option (\<lambda>r. a # b # c # r) (a2b 0 0 0 (map sextet_char (sextets bs) @ cs))"
proof -
  define v1 v2 v3 v4 where v: "v1 = a div 4" "v2 = a mod 4 * 16 + b div 16" "v3 = b mod 16 * 4 + c div 64" "v4 = c mod 64"
  have r: "is_sextet v1" "is_sextet v2" "is_sextet v3" "is_sextet v4"
    unfolding v by (rule sextet_parts, (rule assms)+)+
  have d: "v2 div 16 = a mod 4" "v2 mod 16 = b div 16" "v3 div 4 = b mod 16" "v3 mod 4 = c div 64"
    unfolding v
    by (rule joined16(3,4) [OF mod_parts(1,2) byte_parts(3,4) [OF assms(2)]] joined4(3,4) [OF mod_parts(3,4) byte_parts(5,6) [OF assms(3)]])+
  have e: "v1 * 4 + v2 div 16 = a" "v2 mod 16 * 16 + v3 div 4 = b" "v3 mod 4 * 64 + v4 = c"
    by (simp_all only: d) (simp_all add: v)
  have "map sextet_char (sextets (a # b # c # bs)) @ cs =
      sextet_char v1 # sextet_char v2 # sextet_char v3 # sextet_char v4 # map sextet_char (sextets bs) @ cs"
    by (simp add: v)
  then show ?thesis using r by (simp add: a2b_sextet e option.map_comp comp_def)
qed

lemma a2b_tail1:
  assumes "is_byte a"
  shows "a2b 0 0 0 (map sextet_char (sextets [a]) @ ''=='') = Some [a]"
proof -
  have "(a mod 4 * 16) div 16 = a mod 4" "a div 4 * 4 + a mod 4 = a" by simp_all
  then show ?thesis using sextet_parts [OF assms] by (simp add: a2b_sextet a2b_pad del: div_mult_mod_eq)
qed

lemma a2b_tail2:
  assumes "is_byte a" "is_byte b"
  shows "a2b 0 0 0 (map sextet_char (sextets [a, b]) @ ''='') = Some [a, b]"
proof -
  note j = joined16(3,4) [OF mod_parts(1,2) [of a] byte_parts(3,4) [OF assms(2)]]
  have "(b mod 16 * 4) div 4 = b mod 16" by simp
  with j show ?thesis using sextet_parts [OF assms(1)] sextet_parts [OF assms(2)] assms by (simp add: a2b_sextet a2b_pad)
qed

definition pads_for :: "nat \<Rightarrow> string" where
  "pads_for n = (if n mod 3 = 1 then ''=='' else if n mod 3 = 2 then ''='' else [])"

lemma a2b_sextets: "list_all is_byte bs \<Longrightarrow> a2b 0 0 0 (map sextet_char (sextets bs) @ pads_for (length bs)) = Some bs"
proof (induction bs rule: sextets.induct)
  case 1
  then show ?case by (simp add: pads_for_def)
next
  case (2 a)
  then have "is_byte a" by simp
  moreover have "pads_for (length [a]) = ''==''" by (simp add: pads_for_def)
  ultimately show ?case by (simp only: a2b_tail1)
next
  case (3 a b)
  then have "is_byte a" "is_byte b" by simp_all
  moreover have "pads_for (length [a, b]) = ''=''" by (simp add: pads_for_def)
  ultimately show ?case by (simp only: a2b_tail2)
next
  case (4 a b c rest)
  then have "is_byte a" "is_byte b" "is_byte c" "list_all is_byte rest" by simp_all
  moreover have "pads_for (length (a # b # c # rest)) = pads_for (length rest)"
    by (simp add: pads_for_def Suc3_eq_add_3)
  ultimately show ?case using 4 by (simp only: a2b_quantum option.map)
qed

lemma length_sextets: "length (sextets bs) mod 4 = (if length bs mod 3 = 0 then 0 else length bs mod 3 + 1)"
proof (induction bs rule: sextets.induct)
  case (4 a b c rest)
  have "length (a # b # c # rest) mod 3 = length rest mod 3" by (simp add: Suc3_eq_add_3)
  with 4 show ?case by simp
qed simp_all

lemma pad4_sextets: "pad4 (map f (sextets bs)) = map f (sextets bs) @ pads_for (length bs)"
proof -
  have cases: "length bs mod 3 = 0 \<or> length bs mod 3 = 1 \<or> length bs mod 3 = 2" by presburger
  have "nat (- int n mod 4) = (if n mod 4 = 0 then 0 else 4 - n mod 4)" for n :: nat
  proof -
    have "int n mod 4 = int (n mod 4)" by (simp add: zmod_int)
    then show ?thesis by (simp add: zmod_zminus1_eq_if nat_diff_distrib')
  qed
  then have "replicate (nat (- int (length (map f (sextets bs))) mod 4)) CHR ''='' = pads_for (length bs)"
    using cases length_sextets [of bs] by (auto simp: pads_for_def numeral_2_eq_2)
  then show ?thesis by (simp add: pad4_def)
qed

lemma b64_chars: "list_all is_byte bs \<Longrightarrow> b64 bs = map sextet_char (sextets bs)"
proof -
  assume "list_all is_byte bs"
  then have "list_all is_sextet (sextets bs)" by (rule sextets_range)
  then have "\<And>v. v \<in> set (sextets bs) \<Longrightarrow> sextet_char v \<noteq> CHR ''=''"
    by (simp add: list_all_iff is_sextet_def sextet_char_code)
  then have "CHR ''='' \<notin> set (map sextet_char (sextets bs))" by (metis (no_types, lifting) imageE list.set_map)
  moreover have "dropWhile (\<lambda>c. c = CHR ''='') (rev (xs @ pads_for n)) = rev xs" if "CHR ''='' \<notin> set xs" for xs n
    using that by (cases xs rule: rev_cases) (auto simp: pads_for_def)
  ultimately show ?thesis by (simp add: b64_def urlsafe_b64encode_def pad4_sextets)
qed

text \<open>What the service writes it reads back.\<close>

lemma b64_roundtrip: "list_all is_byte bs \<Longrightarrow> urlsafe_b64decode (pad4 (b64 bs)) = Some bs"
  by (simp add: b64_chars pad4_sextets urlsafe_b64decode_def a2b_sextets)

lemma b64_ascii: "list_all is_byte bs \<Longrightarrow> c \<in> set (b64 bs) \<Longrightarrow> c \<noteq> CHR ''.'' \<and> (of_char c :: int) < 128"
proof -
  assume "list_all is_byte bs" "c \<in> set (b64 bs)"
  then obtain v where "is_sextet v" "c = sextet_char v"
    using sextets_range [of bs] by (auto simp: b64_chars list_all_iff)
  then have v: "sextet_of c = Some v" using sextet_char_code by (simp add: is_sextet_def)
  then have "c \<noteq> CHR ''.''" by (auto simp: sextet_of_def of_char_def)
  moreover have "(of_char c :: int) < 128"
  proof (cases "c \<in> {CHR ''-'', CHR ''+'', CHR ''_'', CHR ''/''}")
    case True
    then show ?thesis by (auto simp: of_char_def)
  next
    case False
    then show ?thesis using v by (auto simp: sextet_of_def Let_def split: if_splits)
  qed
  ultimately show ?thesis by simp
qed

end
