(* ===== verification/Py_Json_Parse.thy ===== *)
theory Py_Json_Parse
  imports Py_Json "HOL-Library.AList"
begin

text \<open>
  \<open>json.loads\<close> on the texts of the model: the scanner of the standard library, with its white space,
  literals, numbers, strict strings and the rule that the last of several equal keys wins.  \<open>None\<close>
  is \<open>JSONDecodeError\<close>.  A number with a fraction or an exponent keeps its text.  An escape of a
  code point above 255 has no character in the model and is read as an error.
\<close>

section \<open>Scanner\<close>

definition json_space :: "char \<Rightarrow> bool" where
  "json_space c \<longleftrightarrow> c = CHR '' '' \<or> c = CHR 0x09 \<or> c = CHR 0x0A \<or> c = CHR 0x0D"

definition skip_ws :: "string \<Rightarrow> string" where
  "skip_ws s = dropWhile json_space s"

definition digit_val :: "char \<Rightarrow> nat" where
  "digit_val c = of_char c - 48"

definition is_digit :: "char \<Rightarrow> bool" where
  "is_digit c = (let n = of_char c :: nat in 48 \<le> n \<and> n \<le> 57)"

definition nat_of_digits :: "string \<Rightarrow> nat" where
  "nat_of_digits ds = foldl (\<lambda>n c. 10 * n + digit_val c) 0 ds"

definition hex_val :: "char \<Rightarrow> nat option" where
  "hex_val c = (let n = of_char c :: nat in
     if 48 \<le> n \<and> n \<le> 57 then Some (n - 48) else if 97 \<le> n \<and> n \<le> 102 then Some (n - 87)
     else if 65 \<le> n \<and> n \<le> 70 then Some (n - 55) else None)"

text \<open>\<open>(\.[0-9]+)?\<close> and \<open>([eE][-+]?[0-9]+)?\<close>: the text matched and the rest.\<close>

definition scan_frac :: "string \<Rightarrow> string \<times> string" where
  "scan_frac s = (case s of
     c # cs \<Rightarrow> if c = CHR ''.'' \<and> takeWhile is_digit cs \<noteq> []
               then (c # takeWhile is_digit cs, dropWhile is_digit cs) else ([], s)
   | [] \<Rightarrow> ([], s))"

definition scan_exp :: "string \<Rightarrow> string \<times> string" where
  "scan_exp s = (case s of
     c # cs \<Rightarrow>
       (let (sign, ds) = (case cs of d # ds \<Rightarrow> if d = CHR ''-'' \<or> d = CHR ''+'' then ([d], ds) else ([], cs) | [] \<Rightarrow> ([], cs))
        in if (c = CHR ''e'' \<or> c = CHR ''E'') \<and> takeWhile is_digit ds \<noteq> []
           then (c # sign @ takeWhile is_digit ds, dropWhile is_digit ds) else ([], s))
   | [] \<Rightarrow> ([], s))"

definition scan_number :: "string \<Rightarrow> (json \<times> string) option" where
  "scan_number s =
     (let (neg, body) = (case s of c # cs \<Rightarrow> if c = CHR ''-'' then (True, cs) else (False, s) | [] \<Rightarrow> (False, s));
          ds = (case body of c # cs \<Rightarrow> if c = CHR ''0'' then [c] else takeWhile is_digit body | [] \<Rightarrow> [])
      in if ds = [] then None
         else let (frac, rest1) = scan_frac (drop (length ds) body);
                  (ex, rest2) = scan_exp rest1;
                  text = (if neg then [CHR ''-''] else []) @ ds @ frac @ ex
              in if frac = [] \<and> ex = []
                 then Some (JInt ((if neg then -1 else 1) * int (nat_of_digits ds)), rest2)
                 else Some (JFloat text, rest2))"

text \<open>The characters of a string up to its closing quote.\<close>

fun scan_string :: "string \<Rightarrow> (string \<times> string) option" where
  "scan_string [] = None"
| "scan_string (c # cs) =
     (if c = CHR 0x22 then Some ([], cs)
      else if c = CHR 0x5C then
        (case cs of
           [] \<Rightarrow> None
         | d # ds \<Rightarrow>
             if d = CHR ''u'' then
               (case ds of
                  h1 # h2 # h3 # h4 # rest \<Rightarrow>
                    (case (hex_val h1, hex_val h2, hex_val h3, hex_val h4) of
                       (Some a, Some b, Some x, Some y) \<Rightarrow>
                         if a = 0 \<and> b = 0 then map_option (map_prod (\<lambda>t. char_of (16 * x + y) # t) id) (scan_string rest)
                         else None
                     | _ \<Rightarrow> None)
                | _ \<Rightarrow> None)
             else if d \<in> {CHR 0x22, CHR 0x5C, CHR ''/''} then map_option (map_prod (\<lambda>t. d # t) id) (scan_string ds)
             else if d = CHR ''b'' then map_option (map_prod (\<lambda>t. CHR 0x08 # t) id) (scan_string ds)
             else if d = CHR ''f'' then map_option (map_prod (\<lambda>t. CHR 0x0C # t) id) (scan_string ds)
             else if d = CHR ''n'' then map_option (map_prod (\<lambda>t. CHR 0x0A # t) id) (scan_string ds)
             else if d = CHR ''r'' then map_option (map_prod (\<lambda>t. CHR 0x0D # t) id) (scan_string ds)
             else if d = CHR ''t'' then map_option (map_prod (\<lambda>t. CHR 0x09 # t) id) (scan_string ds)
             else None)
      else if (of_char c :: nat) < 32 then None
      else map_option (map_prod (\<lambda>t. c # t) id) (scan_string cs))"

definition strip_prefix :: "string \<Rightarrow> string \<Rightarrow> string option" where
  "strip_prefix p s = (if take (length p) s = p then Some (drop (length p) s) else None)"

definition scan_literal :: "string \<Rightarrow> (json \<times> string) option" where
  "scan_literal s =
     (case (strip_prefix ''null'' s, strip_prefix ''true'' s, strip_prefix ''false'' s) of
        (Some r, _, _) \<Rightarrow> Some (JNull, r)
      | (None, Some r, _) \<Rightarrow> Some (JBool True, r)
      | (None, None, Some r) \<Rightarrow> Some (JBool False, r)
      | (None, None, None) \<Rightarrow>
          (case scan_number s of
             Some r \<Rightarrow> Some r
           | None \<Rightarrow>
               (case (strip_prefix ''NaN'' s, strip_prefix ''Infinity'' s, strip_prefix ''-Infinity'' s) of
                  (Some r, _, _) \<Rightarrow> Some (JFloat ''NaN'', r)
                | (None, Some r, _) \<Rightarrow> Some (JFloat ''Infinity'', r)
                | (None, None, Some r) \<Rightarrow> Some (JFloat ''-Infinity'', r)
                | (None, None, None) \<Rightarrow> None)))"

text \<open>\<open>dict(pairs)\<close>.\<close>

definition dict_of :: "(string \<times> json) list \<Rightarrow> (string \<times> json) list" where
  "dict_of pairs = foldl (\<lambda>d (k, v). AList.update k v d) [] pairs"

text \<open>
  Values, the elements of an array after a value was due, and the members of an object after a key
  was due.  The first argument bounds the nesting and the number of steps.
\<close>

fun parse_value :: "nat \<Rightarrow> string \<Rightarrow> (json \<times> string) option"
  and parse_elements :: "nat \<Rightarrow> string \<Rightarrow> (json list \<times> string) option"
  and parse_members :: "nat \<Rightarrow> string \<Rightarrow> ((string \<times> json) list \<times> string) option" where
  "parse_value 0 s = None"
| "parse_value (Suc n) s =
     (case s of
        [] \<Rightarrow> None
      | c # cs \<Rightarrow>
          if c = CHR 0x22 then map_option (map_prod JStr id) (scan_string cs)
          else if c = CHR ''['' then
            (case skip_ws cs of
               [] \<Rightarrow> None
             | d # ds \<Rightarrow> if d = CHR '']'' then Some (JArr [], ds)
                         else map_option (map_prod JArr id) (parse_elements n (d # ds)))
          else if c = CHR ''{'' then
            (case skip_ws cs of
               [] \<Rightarrow> None
             | d # ds \<Rightarrow> if d = CHR ''}'' then Some (JObj [], ds)
                         else map_option (map_prod (\<lambda>ms. JObj (dict_of ms)) id) (parse_members n (d # ds)))
          else scan_literal s)"
| "parse_elements 0 s = None"
| "parse_elements (Suc n) s =
     (case parse_value n s of
        None \<Rightarrow> None
      | Some (v, rest) \<Rightarrow>
          (case skip_ws rest of
             [] \<Rightarrow> None
           | d # ds \<Rightarrow> if d = CHR '']'' then Some ([v], ds)
                       else if d = CHR '','' then map_option (map_prod (\<lambda>vs. v # vs) id) (parse_elements n (skip_ws ds))
                       else None))"
| "parse_members 0 s = None"
| "parse_members (Suc n) s =
     (case s of
        [] \<Rightarrow> None
      | c # cs \<Rightarrow>
          if c \<noteq> CHR 0x22 then None
          else case scan_string cs of
              None \<Rightarrow> None
            | Some (k, rest) \<Rightarrow>
                (case skip_ws rest of
                   [] \<Rightarrow> None
                 | d # ds \<Rightarrow>
                     if d \<noteq> CHR '':'' then None
                     else case parse_value n (skip_ws ds) of
                         None \<Rightarrow> None
                       | Some (v, rest2) \<Rightarrow>
                           (case skip_ws rest2 of
                              [] \<Rightarrow> None
                            | x # xs \<Rightarrow> if x = CHR ''}'' then Some ([(k, v)], xs)
                                        else if x = CHR '','' then
                                          map_option (map_prod (\<lambda>ms. (k, v) # ms) id) (parse_members n (skip_ws xs))
                                        else None)))"

definition json_loads :: "string \<Rightarrow> json option" where
  "json_loads s =
     (case parse_value (length s + 1) (skip_ws s) of
        None \<Rightarrow> None
      | Some (v, rest) \<Rightarrow> if skip_ws rest = [] then Some v else None)"

section \<open>Round trip\<close>

text \<open>Values that \<open>dumps\<close> prints without a loss: no float, distinct keys.\<close>

fun plain :: "json \<Rightarrow> bool" where
  "plain (JFloat s) = False"
| "plain (JArr vs) = list_all plain vs"
| "plain (JObj kvs) = (distinct (map fst kvs) \<and> list_all (\<lambda>(k, v). plain v) kvs)"
| "plain _ = True"

lemma hex_val_digit: "d < 16 \<Longrightarrow> hex_val (hex_digit d) = Some d"
  by (auto simp: hex_val_def hex_digit_def)

lemma of_char_less [simp]: "(of_char (c :: char) :: nat) < 256"
  by (simp add: of_char_def)

lemma scan_escaped: "scan_string (escape_char c @ s) = map_option (map_prod (\<lambda>t. c # t) id) (scan_string s)"
proof -
  define n where "n = (of_char c :: nat)"
  have n: "n < 256" by (simp add: n_def)
  have c: "char_of n = c" by (simp add: n_def)
  consider "c \<in> {CHR 0x22, CHR 0x5C, CHR 0x0A, CHR 0x0D, CHR 0x09, CHR 0x0C, CHR 0x08}"
    | (raw) "c \<notin> {CHR 0x22, CHR 0x5C, CHR 0x0A, CHR 0x0D, CHR 0x09, CHR 0x0C, CHR 0x08}" "32 \<le> n \<and> n \<le> 126"
    | (hex) "c \<notin> {CHR 0x22, CHR 0x5C, CHR 0x0A, CHR 0x0D, CHR 0x09, CHR 0x0C, CHR 0x08}" "\<not> (32 \<le> n \<and> n \<le> 126)" by blast
  then show ?thesis
  proof cases
    case 1
    then show ?thesis by (auto simp: escape_char_def)
  next
    case raw
    then show ?thesis by (simp add: escape_char_def n_def [symmetric] Let_def)
  next
    case hex
    have "hex_val (hex_digit (n div 16)) = Some (n div 16)" "hex_val (hex_digit (n mod 16)) = Some (n mod 16)"
      using n by (simp_all add: hex_val_digit)
    moreover have "hex_val CHR ''0'' = Some 0" by (simp add: hex_val_def)
    moreover have "16 * (n div 16) + n mod 16 = n" by simp
    ultimately show ?thesis using hex c by (simp add: escape_char_def n_def [symmetric] Let_def)
  qed
qed

lemma scan_dumped: "scan_string (concat (map escape_char s) @ CHR 0x22 # rest) = Some (s, rest)"
  by (induction s) (simp_all add: scan_escaped)

lemma digit_char_digit: "d < 10 \<Longrightarrow> is_digit (digit_char d) \<and> digit_val (digit_char d) = d"
  by (simp add: is_digit_def digit_char_def digit_val_def Let_def)

lemma show_nat_is_digit: "list_all is_digit (show_nat n)"
  by (induction n rule: show_nat.induct) (subst show_nat.simps, auto simp: digit_char_digit)

lemma nat_of_digits_append: "nat_of_digits (ds @ [c]) = 10 * nat_of_digits ds + digit_val c"
  by (simp add: nat_of_digits_def)

lemma nat_of_show: "nat_of_digits (show_nat n) = n"
proof (induction n rule: show_nat.induct)
  case (1 n)
  show ?case
  proof (cases "n < 10")
    case True
    then show ?thesis by (subst show_nat.simps) (simp add: nat_of_digits_def digit_char_digit)
  next
    case False
    then show ?thesis using 1 by (subst show_nat.simps) (simp add: nat_of_digits_append digit_char_digit)
  qed
qed

lemma show_nat_head: "\<exists>d ds. show_nat n = d # ds \<and> is_digit d \<and> (d = CHR ''0'' \<longrightarrow> ds = [] \<and> n = 0)"
proof (induction n rule: show_nat.induct)
  case (1 n)
  show ?case
  proof (cases "n < 10")
    case True
    have "digit_val CHR ''0'' = 0" by (simp add: digit_val_def)
    then have "digit_char n = CHR ''0'' \<longrightarrow> n = 0" using digit_char_digit [OF True] by metis
    then show ?thesis using True digit_char_digit [OF True] by (subst show_nat.simps) simp
  next
    case False
    then obtain d ds where "show_nat (n div 10) = d # ds" "is_digit d" "d = CHR ''0'' \<longrightarrow> n div 10 = 0" using 1 by blast
    with False show ?thesis by (subst show_nat.simps) auto
  qed
qed

text \<open>What may follow a value inside of a printed text.\<close>

definition value_end :: "string \<Rightarrow> bool" where
  "value_end s \<longleftrightarrow> s = [] \<or> hd s \<in> {CHR '','', CHR '']'', CHR ''}''}"

lemma value_end_stops:
  "value_end s \<Longrightarrow> takeWhile is_digit s = [] \<and> scan_frac s = ([], s) \<and> scan_exp s = ([], s)"
  by (cases s) (auto simp: value_end_def is_digit_def scan_frac_def scan_exp_def Let_def split: prod.splits)

lemma take_digits: "value_end rest \<Longrightarrow> takeWhile is_digit (show_nat n @ rest) = show_nat n"
  using show_nat_is_digit [of n] value_end_stops [of rest] by (simp add: list_all_iff takeWhile_append2)

lemma scan_show_nat:
  assumes "value_end rest"
  shows "scan_number (show_nat n @ rest) = Some (JInt (int n), rest)"
    and "scan_number (CHR ''-'' # show_nat n @ rest) = Some (JInt (- int n), rest)"
proof -
  obtain d ds where d: "show_nat n = d # ds" "is_digit d" "d = CHR ''0'' \<longrightarrow> ds = [] \<and> n = 0" using show_nat_head by blast
  have minus: "d \<noteq> CHR ''-''" using d(2) by (auto simp: is_digit_def)
  have tw: "(if d = CHR ''0'' then [d] else takeWhile is_digit (d # ds @ rest)) = show_nat n"
    using take_digits [OF assms, of n] d by auto
  have n: "nat_of_digits (d # ds) = n" using nat_of_show [of n] d(1) by simp
  show "scan_number (show_nat n @ rest) = Some (JInt (int n), rest)"
    and "scan_number (CHR ''-'' # show_nat n @ rest) = Some (JInt (- int n), rest)"
    using tw minus n value_end_stops [OF assms] unfolding scan_number_def d(1) by (simp_all add: Let_def)
qed

lemma scan_show_int: "value_end rest \<Longrightarrow> scan_number (show_int i @ rest) = Some (JInt i, rest)"
  by (cases "i < 0") (simp_all add: show_int_def scan_show_nat)

text \<open>The first character of a printed value.\<close>

definition starts_value :: "string \<Rightarrow> bool" where
  "starts_value s \<longleftrightarrow> s \<noteq> [] \<and> \<not> json_space (hd s) \<and> hd s \<notin> {CHR '']'', CHR ''}''}"

lemma digit_start: "is_digit d \<Longrightarrow> starts_value (d # ds)"
  by (auto simp: starts_value_def json_space_def is_digit_def)

lemma dumps_start: "plain v \<Longrightarrow> starts_value (dumps_sorted esc v)"
proof (cases v)
  case (JInt i)
  obtain d ds where "show_nat (nat \<bar>i\<bar>) = d # ds" "is_digit d" using show_nat_head by blast
  then show ?thesis using digit_start [of d ds]
    by (cases "i < 0") (auto simp: JInt show_int_def starts_value_def json_space_def)
qed (auto simp: starts_value_def json_space_def dumps_string_def)

lemma skip_start: "starts_value s \<Longrightarrow> skip_ws (s @ rest) = s @ rest"
  by (cases s) (simp_all add: starts_value_def skip_ws_def)

lemma skip_end: "value_end (c # s) \<Longrightarrow> skip_ws (c # s) = c # s"
  by (auto simp: value_end_def skip_ws_def json_space_def)

lemma skip_quote [simp]: "skip_ws (CHR 0x22 # s) = CHR 0x22 # s" "skip_ws (CHR '':'' # s) = CHR '':'' # s"
  by (simp_all add: skip_ws_def json_space_def)

text \<open>Steps enough to read a value back.\<close>

primrec parse_fuel :: "json \<Rightarrow> nat" where
  "parse_fuel JNull = 1"
| "parse_fuel (JBool b) = 1"
| "parse_fuel (JInt i) = 1"
| "parse_fuel (JFloat s) = 1"
| "parse_fuel (JStr s) = 1"
| "parse_fuel (JArr vs) = 1 + sum_list (map (\<lambda>v. 1 + parse_fuel v) vs)"
| "parse_fuel (JObj kvs) = 1 + sum_list (map (\<lambda>p. 1 + snd p) (map (map_prod id parse_fuel) kvs))"

definition reads_back :: "json \<Rightarrow> bool" where
  "reads_back v \<longleftrightarrow> (\<forall>n rest. parse_fuel v \<le> n \<longrightarrow> value_end rest \<longrightarrow>
     parse_value n (dumps_sorted escape_char v @ rest) = Some (v, rest))"

lemma reads_backD:
  "reads_back v \<Longrightarrow> parse_fuel v \<le> n \<Longrightarrow> value_end rest \<Longrightarrow> parse_value n (dumps_sorted escape_char v @ rest) = Some (v, rest)"
  by (simp add: reads_back_def)

lemma value_end_simps [simp]:
  "value_end (CHR '','' # s)" "value_end (CHR '']'' # s)" "value_end (CHR ''}'' # s)" "value_end []"
  by (simp_all add: value_end_def)

lemma parse_printed_elements:
  assumes "vs \<noteq> []" "\<forall>v \<in> set vs. reads_back v \<and> plain v" "sum_list (map (\<lambda>v. 1 + parse_fuel v) vs) \<le> n"
  shows "parse_elements n (join_with '','' (map (dumps_sorted escape_char) vs) @ CHR '']'' # rest) = Some (vs, rest)"
  using assms
proof (induction vs arbitrary: n)
  case (Cons v vs)
  then obtain m where n: "n = Suc m" and m: "parse_fuel v \<le> m" by (cases n) auto
  show ?case
  proof (cases vs)
    case Nil
    have "parse_value m (dumps_sorted escape_char v @ CHR '']'' # rest) = Some (v, CHR '']'' # rest)"
      by (rule reads_backD) (use Cons.prems m in simp_all)
    then show ?thesis by (simp add: n Nil skip_end)
  next
    case (Cons w ws)
    let ?tail = "join_with '','' (map (dumps_sorted escape_char) vs) @ CHR '']'' # rest"
    have "parse_value m (dumps_sorted escape_char v @ CHR '','' # ?tail) = Some (v, CHR '','' # ?tail)"
      by (rule reads_backD) (use Cons.prems m in simp_all)
    moreover have "parse_elements m ?tail = Some (vs, rest)"
      by (rule Cons.IH) (use Cons.prems n Cons in simp_all)
    moreover have "skip_ws ?tail = ?tail"
    proof -
      have "starts_value (dumps_sorted escape_char w)" using Cons.prems Cons by (simp add: dumps_start)
      moreover have "\<exists>t. ?tail = dumps_sorted escape_char w @ t" by (cases ws) (simp_all add: Cons)
      ultimately show ?thesis using skip_start by metis
    qed
    ultimately show ?thesis by (simp add: n Cons skip_end)
  qed
qed simp

lemma skip_comma: "skip_ws (CHR '','' # s) = CHR '','' # s" "skip_ws (CHR ''}'' # s) = CHR ''}'' # s"
  by (simp_all add: skip_end)

definition print_member :: "string \<times> json \<Rightarrow> string" where
  "print_member kv = dumps_string escape_char (fst kv) @ '':'' @ dumps_sorted escape_char (snd kv)"

lemma print_member_start: "starts_value (print_member kv)"
  by (simp add: print_member_def dumps_string_def starts_value_def json_space_def)

lemma parse_printed_members:
  assumes "kvs \<noteq> []" "\<forall>kv \<in> set kvs. reads_back (snd kv) \<and> plain (snd kv)"
    "sum_list (map (\<lambda>kv. 1 + parse_fuel (snd kv)) kvs) \<le> n"
  shows "parse_members n (join_with '','' (map print_member kvs) @ CHR ''}'' # rest) = Some (kvs, rest)"
  using assms
proof (induction kvs arbitrary: n)
  case (Cons kv kvs)
  obtain k v where kv: "kv = (k, v)" by fastforce
  from Cons.prems obtain m where n: "n = Suc m" and m: "parse_fuel v \<le> m" by (cases n) (auto simp: kv)
  have start: "skip_ws (dumps_sorted escape_char v @ t) = dumps_sorted escape_char v @ t" for t
    by (rule skip_start) (use Cons.prems in \<open>simp add: kv dumps_start\<close>)
  have head: "scan_string (concat (map escape_char k) @ CHR 0x22 # CHR '':'' # t) = Some (k, CHR '':'' # t)" for t
    by (rule scan_dumped)
  show ?case
  proof (cases kvs)
    case Nil
    have "parse_value m (dumps_sorted escape_char v @ CHR ''}'' # rest) = Some (v, CHR ''}'' # rest)"
      by (rule reads_backD) (use Cons.prems m kv in simp_all)
    then show ?thesis by (simp add: n Nil kv print_member_def dumps_string_def head start skip_comma)
  next
    case (Cons kw kws)
    define tail where "tail = join_with '','' (map print_member kvs) @ CHR ''}'' # rest"
    have "parse_value m (dumps_sorted escape_char v @ CHR '','' # tail) = Some (v, CHR '','' # tail)"
      by (rule reads_backD) (use Cons.prems m kv in simp_all)
    moreover have "parse_members m tail = Some (kvs, rest)"
      unfolding tail_def by (rule Cons.IH) (use Cons.prems n Cons in simp_all)
    moreover have "skip_ws tail = tail"
    proof -
      have "\<exists>t. tail = print_member kw @ t" by (cases kws) (simp_all add: tail_def Cons)
      then show ?thesis using skip_start [OF print_member_start] by metis
    qed
    moreover have "join_with '','' (map print_member ((k, v) # kvs)) @ CHR ''}'' # rest =
        CHR 0x22 # concat (map escape_char k) @ CHR 0x22 # CHR '':'' # dumps_sorted escape_char v @ CHR '','' # tail"
      unfolding tail_def Cons by (simp add: print_member_def [of "(k, v)"] dumps_string_def)
    ultimately show ?thesis unfolding kv by (simp add: n head start skip_comma)
  qed
qed simp

lemma dict_of_snoc: "distinct (map fst ms) \<Longrightarrow> foldl (\<lambda>d (k, v). AList.update k v d) d ms = d @ ms"
  if "fst ` set d \<inter> fst ` set ms = {}"
  using that
proof (induction ms arbitrary: d)
  case (Cons m ms)
  obtain k v where m: "m = (k, v)" by fastforce
  have "k \<notin> fst ` set d" using Cons.prems m by auto
  then have "AList.update k v d = d @ [(k, v)]" by (induction d) auto
  moreover have "foldl (\<lambda>d (k, v). AList.update k v d) (d @ [(k, v)]) ms = (d @ [(k, v)]) @ ms"
    by (rule Cons.IH) (use Cons.prems m in auto)
  ultimately show ?case by (simp add: m)
qed simp

lemma dict_of_distinct: "distinct (map fst ms) \<Longrightarrow> dict_of ms = ms"
  using dict_of_snoc [of "[]" ms] by (simp add: dict_of_def)

lemma strip_prefix_head: "starts_value s \<Longrightarrow> p \<noteq> [] \<Longrightarrow> hd s \<noteq> hd p \<Longrightarrow> strip_prefix p (s @ rest) = None"
  by (cases s; cases p) (auto simp: strip_prefix_def starts_value_def)

lemma reads_back_leaf:
  assumes "\<And>rest. value_end rest \<Longrightarrow> scan_literal (dumps_sorted escape_char v @ rest) = Some (v, rest)"
    and "dumps_sorted escape_char v \<noteq> []" "hd (dumps_sorted escape_char v) \<notin> {CHR 0x22, CHR ''['', CHR ''{''}"
    and "0 < parse_fuel v"
  shows "reads_back v"
  unfolding reads_back_def
proof (intro allI impI)
  fix n rest assume n: "parse_fuel v \<le> n" "value_end rest"
  then obtain m where "n = Suc m" using assms(4) by (cases n) auto
  moreover obtain c cs where "dumps_sorted escape_char v = c # cs" using assms(2) by (cases "dumps_sorted escape_char v") auto
  ultimately show "parse_value n (dumps_sorted escape_char v @ rest) = Some (v, rest)"
    using assms(1) [OF n(2)] assms(3) by simp
qed

lemma reads_back_int: "reads_back (JInt i)"
proof (rule reads_back_leaf)
  have start: "starts_value (show_int i)" using dumps_start [of "JInt i"] by simp
  have "\<exists>d ds. show_int i = d # ds \<and> (d = CHR ''-'' \<or> is_digit d)"
  proof (cases "i < 0")
    case False
    obtain d ds where "show_nat (nat i) = d # ds" "is_digit d" using show_nat_head by blast
    with False show ?thesis by (simp add: show_int_def)
  qed (simp add: show_int_def)
  then obtain d ds where d: "show_int i = d # ds" "d = CHR ''-'' \<or> is_digit d" by blast
  then have "hd (show_int i) \<notin> {CHR ''n'', CHR ''t'', CHR ''f'', CHR 0x22, CHR ''['', CHR ''{''}"
    by (auto simp: is_digit_def)
  then show "hd (dumps_sorted escape_char (JInt i)) \<notin> {CHR 0x22, CHR ''['', CHR ''{''}"
    and "\<And>rest. value_end rest \<Longrightarrow> scan_literal (dumps_sorted escape_char (JInt i) @ rest) = Some (JInt i, rest)"
    by (simp_all add: scan_literal_def strip_prefix_head [OF start] scan_show_int)
  show "dumps_sorted escape_char (JInt i) \<noteq> []" using d by simp
qed simp

lemma reads_back_string: "reads_back (JStr s)"
  unfolding reads_back_def
proof (intro allI impI)
  fix n rest assume "parse_fuel (JStr s) \<le> n"
  then obtain m where "n = Suc m" by (cases n) auto
  then show "parse_value n (dumps_sorted escape_char (JStr s) @ rest) = Some (JStr s, rest)"
    by (simp add: dumps_string_def scan_dumped)
qed

lemma dumps_members:
  "dumps_sorted escape_char (JObj kvs) = CHR ''{'' # join_with '','' (map print_member kvs) @ ''}''"
  by (simp add: print_member_def [abs_def] comp_def case_prod_beta)

lemma printed_value_reads_back: "plain v \<Longrightarrow> reads_back v"
proof (induction v)
  case JNull
  show ?case by (rule reads_back_leaf) (simp_all add: scan_literal_def strip_prefix_def)
next
  case (JBool b)
  show ?case by (rule reads_back_leaf) (simp_all add: scan_literal_def strip_prefix_def)
next
  case (JArr vs)
  show ?case unfolding reads_back_def
  proof (intro allI impI)
    fix n rest assume n: "parse_fuel (JArr vs) \<le> n" "value_end rest"
    then obtain m where m: "n = Suc m" "sum_list (map (\<lambda>v. 1 + parse_fuel v) vs) \<le> m" by (cases n) auto
    show "parse_value n (dumps_sorted escape_char (JArr vs) @ rest) = Some (JArr vs, rest)"
    proof (cases vs)
      case (Cons w ws)
      define tail where "tail = join_with '','' (map (dumps_sorted escape_char) vs) @ CHR '']'' # rest"
      have all: "\<forall>v \<in> set vs. reads_back v \<and> plain v" using JArr by (simp add: list_all_iff)
      have "parse_elements m tail = Some (vs, rest)"
        unfolding tail_def by (rule parse_printed_elements) (use Cons all m in simp_all)
      moreover obtain t where t: "tail = dumps_sorted escape_char w @ t" by (cases ws) (simp_all add: tail_def Cons)
      moreover have "starts_value (dumps_sorted escape_char w)" using all Cons by (simp add: dumps_start)
      ultimately have "skip_ws tail = tail" "\<exists>d ds. tail = d # ds \<and> d \<noteq> CHR '']''"
        using skip_start [of "dumps_sorted escape_char w" t] by (auto simp: starts_value_def neq_Nil_conv)
      then obtain d ds where "skip_ws tail = d # ds" "tail = d # ds" "d \<noteq> CHR '']''" by auto
      moreover have "dumps_sorted escape_char (JArr vs) @ rest = CHR ''['' # tail" by (simp add: tail_def)
      ultimately show ?thesis using \<open>parse_elements m tail = Some (vs, rest)\<close> by (simp add: m)
    qed (simp add: m skip_ws_def json_space_def)
  qed
next
  case (JObj kvs)
  show ?case unfolding reads_back_def
  proof (intro allI impI)
    fix n rest assume n: "parse_fuel (JObj kvs) \<le> n" "value_end rest"
    then obtain m where m: "n = Suc m" "sum_list (map (\<lambda>kv. 1 + parse_fuel (snd kv)) kvs) \<le> m" by (cases n) (auto simp: comp_def)
    show "parse_value n (dumps_sorted escape_char (JObj kvs) @ rest) = Some (JObj kvs, rest)"
    proof (cases kvs)
      case (Cons kw kws)
      define tail where "tail = join_with '','' (map print_member kvs) @ CHR ''}'' # rest"
      have all: "\<forall>kv \<in> set kvs. reads_back (snd kv) \<and> plain (snd kv)"
        using JObj by (fastforce simp: list_all_iff)
      have parsed: "parse_members m tail = Some (kvs, rest)"
        unfolding tail_def by (rule parse_printed_members) (use Cons all m in simp_all)
      obtain t where t: "tail = print_member kw @ t" by (cases kws) (simp_all add: tail_def Cons)
      have "skip_ws tail = tail" "\<exists>d ds. tail = d # ds \<and> d \<noteq> CHR ''}''"
        using skip_start [OF print_member_start, of kw t] print_member_start [of kw]
        by (auto simp: t starts_value_def neq_Nil_conv)
      then obtain d ds where "skip_ws tail = d # ds" "tail = d # ds" "d \<noteq> CHR ''}''" by auto
      moreover have "dumps_sorted escape_char (JObj kvs) @ rest = CHR ''{'' # tail"
        unfolding dumps_members tail_def by simp
      moreover have "dict_of kvs = kvs" using JObj.prems by (simp add: dict_of_distinct)
      ultimately show ?thesis using parsed by (simp add: m)
    qed (simp add: m skip_ws_def json_space_def)
  qed
qed (simp_all add: reads_back_int reads_back_string)

lemma show_nat_length: "1 \<le> length (show_nat n)"
  using show_nat_head [of n] by auto

lemma show_int_length: "1 \<le> length (show_int i)"
  using show_nat_length by (simp add: show_int_def)

lemma length_join: "vs \<noteq> [] \<Longrightarrow> length (join_with [c] vs) + 1 = sum_list (map (\<lambda>v. 1 + length v) vs)"
proof (induction "[c]" vs rule: join_with.induct)
  case (3 x y xs)
  then show ?case by simp
qed simp_all

lemma sum_list_le: "(\<And>x. x \<in> set xs \<Longrightarrow> f x \<le> g x) \<Longrightarrow> sum_list (map f xs) \<le> sum_list (map (g :: 'a \<Rightarrow> nat) xs)"
  by (induction xs) (auto intro: add_mono)

lemma parse_fuel_length: "plain v \<Longrightarrow> parse_fuel v \<le> length (dumps_sorted escape_char v)"
proof (induction v)
  case (JArr vs)
  show ?case
  proof (cases "vs = []")
    case False
    have "sum_list (map (\<lambda>v. 1 + parse_fuel v) vs) \<le> sum_list (map (\<lambda>v. 1 + length (dumps_sorted escape_char v)) vs)"
      by (rule sum_list_le) (use JArr in \<open>auto simp: list_all_iff\<close>)
    then show ?thesis using length_join [of "map (dumps_sorted escape_char) vs" "CHR '',''"] False by (simp add: comp_def)
  qed simp
next
  case (JObj kvs)
  show ?case
  proof (cases "kvs = []")
    case False
    have "sum_list (map (\<lambda>kv. 1 + parse_fuel (snd kv)) kvs) \<le> sum_list (map (\<lambda>kv. 1 + length (print_member kv)) kvs)"
    proof (rule sum_list_le)
      fix kv assume "kv \<in> set kvs"
      then have "parse_fuel (snd kv) \<le> length (dumps_sorted escape_char (snd kv))"
        using JObj by (fastforce simp: list_all_iff)
      then show "1 + parse_fuel (snd kv) \<le> 1 + length (print_member kv)" by (simp add: print_member_def)
    qed
    then show ?thesis unfolding dumps_members
      using length_join [of "map print_member kvs" "CHR '',''"] False by (simp add: comp_def)
  qed simp
qed (use show_int_length in \<open>auto simp: dumps_string_def Suc_le_eq\<close>)

lemma plain_sort_keys: "plain v \<Longrightarrow> plain (sort_keys v)"
proof (induction v)
  case (JObj kvs)
  let ?kvs = "map (map_prod id sort_keys) kvs"
  have "distinct (map fst ?kvs)" using JObj.prems by (simp add: comp_def)
  then have "distinct (map fst (sort_key fst ?kvs))"
    by (metis distinct_map mset_eq_imp_distinct_iff mset_map mset_sort)
  moreover have "list_all (\<lambda>(k, v). plain v) (sort_key fst ?kvs)"
    using JObj by (fastforce simp: list_all_iff)
  ultimately show ?case by simp
qed (auto simp: list_all_iff)

text \<open>What \<open>json.dumps(v, sort_keys=True)\<close> prints, \<open>json.loads\<close> reads as the same value, keys sorted.\<close>

lemma json_roundtrip:
  assumes "plain v"
  shows "json_loads (json_dumps v) = Some (sort_keys v)"
proof -
  let ?w = "sort_keys v"
  have w: "plain ?w" using assms by (rule plain_sort_keys)
  have "skip_ws (json_dumps v) = json_dumps v"
    using skip_start [OF dumps_start [OF w], of escape_char "[]"] by (simp add: json_dumps_def)
  moreover have "parse_value (length (json_dumps v) + 1) (json_dumps v @ []) = Some (?w, [])"
    unfolding json_dumps_def
    by (rule reads_backD [OF printed_value_reads_back [OF w]]) (use parse_fuel_length [OF w] in simp_all)
  ultimately show ?thesis by (simp add: json_loads_def skip_ws_def)
qed

end
