(* ===== verification/Id_Token.thy ===== *)
theory Id_Token
  imports Id_Auth Py_Base64 Py_Json_Parse
begin

text \<open>
  Access tokens (\<open>control_plane/auth.py\<close>, \<open>_encode_access\<close> and \<open>_decode_access\<close>): the canonical JSON of
  the payload in URL-safe base64, a dot, and the HMAC-SHA-256 of that text under the signing key.
  The decoded body is taken as UTF-8; a character above code point 255 is read as an error.
\<close>

section \<open>HMAC\<close>

definition digest_bytes :: "int list \<Rightarrow> int list" where
  "digest_bytes bs = concat (map (\<lambda>w. be_bytes 4 (uint w)) (sha256_of_bytes bs))"

text \<open>A key of more than 64 bytes is hashed first; then it is filled up with zeros.\<close>

definition hmac_key :: "int list \<Rightarrow> int list" where
  "hmac_key key = (let k = (if 64 < length key then digest_bytes key else key) in k @ replicate (64 - length k) 0)"

definition hmac_sha256 :: "int list \<Rightarrow> int list \<Rightarrow> int list" where
  "hmac_sha256 key msg =
     (let k = hmac_key key
      in digest_bytes (map (\<lambda>b. b XOR 0x5C) k @ digest_bytes (map (\<lambda>b. b XOR 0x36) k @ msg)))"

section \<open>Tokens\<close>

definition payload_json :: "access_payload \<Rightarrow> json" where
  "payload_json p = JObj [(''sub'', JStr (ap_sub p)), (''sid'', JStr (ap_sid p)), (''ver'', JInt (ap_ver p)),
     (''iat'', JInt (ap_iat p)), (''exp'', JInt (ap_exp p)), (''kid'', JStr (ap_kid p))]"

definition signature_of :: "int list \<Rightarrow> string \<Rightarrow> string" where
  "signature_of key body = b64 (hmac_sha256 key (utf8_encode body))"

definition encode_access :: "int list \<Rightarrow> json \<Rightarrow> string" where
  "encode_access key payload =
     (let body = b64 (utf8_encode (json_dumps payload)) in body @ ''.'' @ signature_of key body)"

definition is_ascii :: "string \<Rightarrow> bool" where
  "is_ascii s \<longleftrightarrow> list_all (\<lambda>c. (of_char c :: int) < 128) s"

fun utf8_decode :: "int list \<Rightarrow> string option" where
  "utf8_decode [] = Some []"
| "utf8_decode (b # bs) =
     (if b < 128 then map_option (\<lambda>t. char_of (nat b) # t) (utf8_decode bs)
      else case bs of
          [] \<Rightarrow> None
        | b2 # rest \<Rightarrow>
            if (b = 194 \<or> b = 195) \<and> 128 \<le> b2 \<and> b2 < 192
            then map_option (\<lambda>t. char_of (nat ((b - 192) * 64 + (b2 - 128))) # t) (utf8_decode rest)
            else None)"

text \<open>
  \<open>token.split(".", 1)\<close> that does not give two parts, a body that is not ASCII, bad base64 and bad
  JSON are all \<open>ValueError\<close>s; \<open>hmac.compare_digest\<close> raises \<open>TypeError\<close> for a signature that is not ASCII.
\<close>

definition decode_access :: "int list \<Rightarrow> string \<Rightarrow> exn + json" where
  "decode_access key token =
     (let invalid = AuthenticationError ''access_invalid'';
          body = takeWhile (\<lambda>c. c \<noteq> CHR ''.'') token;
          rest = dropWhile (\<lambda>c. c \<noteq> CHR ''.'') token
      in if rest = [] then Inl invalid
         else if \<not> is_ascii body then Inl invalid
         else if \<not> is_ascii (tl rest) then Inl TypeError
         else if tl rest \<noteq> signature_of key body then Inl invalid
         else case urlsafe_b64decode (pad4 body) of
             None \<Rightarrow> Inl invalid
           | Some bs \<Rightarrow>
               (case utf8_decode bs of
                  None \<Rightarrow> Inl invalid
                | Some text \<Rightarrow> (case json_loads text of None \<Rightarrow> Inl invalid | Some v \<Rightarrow> Inr v)))"

text \<open>The fields that \<open>verify_access\<close> reads.\<close>

definition payload_field :: "string \<Rightarrow> json \<Rightarrow> json option" where
  "payload_field name v = (case v of JObj kvs \<Rightarrow> map_of kvs name | _ \<Rightarrow> None)"

section \<open>Facts about bytes\<close>

lemma be_bytes_byte: "list_all is_byte (be_bytes k n)"
  by (simp add: be_bytes_def list_all_iff is_byte_def)

lemma digest_is_byte: "list_all is_byte (digest_bytes bs)"
  using be_bytes_byte by (auto simp: digest_bytes_def list_all_iff)

lemma hmac_is_byte: "list_all is_byte (hmac_sha256 key msg)"
  by (simp add: hmac_sha256_def Let_def digest_is_byte)

lemma of_char_int_range: "0 \<le> (of_char (c :: char) :: int) \<and> (of_char c :: int) < 256"
proof -
  have "(of_char c :: int) = int (of_char c)" by (simp only: of_nat_of_char)
  then show ?thesis using of_char_less [of c] by linarith
qed

lemma utf8_char_byte: "list_all is_byte (utf8_char c)"
  using of_char_int_range [of c] by (auto simp: utf8_char_def is_byte_def Let_def)

lemma utf8_is_byte: "list_all is_byte (utf8_encode s)"
  using utf8_char_byte by (auto simp: utf8_encode_def list_all_iff)

lemma char_of_int: "char_of (nat (of_char c)) = (c :: char)"
proof -
  have "(of_char c :: int) = int (of_char c)" by (simp only: of_nat_of_char)
  then show ?thesis by (simp del: of_nat_of_char)
qed

lemma utf8_decode_char: "utf8_decode (utf8_char c @ bs) = map_option (\<lambda>t. c # t) (utf8_decode bs)"
proof (cases "(of_char c :: int) < 128")
  case True
  then show ?thesis by (simp add: utf8_char_def char_of_int)
next
  case False
  define n where "n = (of_char c :: int)"
  have n: "128 \<le> n" "n < 256" using False of_char_int_range [of c] by (simp_all add: n_def)
  then have d: "n div 64 = 2 \<or> n div 64 = 3" by presburger
  have m: "0 \<le> n mod 64" "n mod 64 < 64" by simp_all
  have "n div 64 * 64 + n mod 64 = n" by simp
  then have "char_of (nat ((192 + n div 64 - 192) * 64 + (128 + n mod 64 - 128))) = c"
    using char_of_int [of c] by (simp add: n_def)
  then show ?thesis using False d m by (auto simp: utf8_char_def n_def [symmetric] Let_def)
qed

lemma utf8_roundtrip: "utf8_decode (utf8_encode s) = Some s"
  by (induction s) (simp_all add: utf8_encode_def utf8_decode_char)

section \<open>Round trip\<close>

lemma ascii_b64: "list_all is_byte bs \<Longrightarrow> is_ascii (b64 bs)"
  using b64_ascii by (auto simp: is_ascii_def list_all_iff)

lemma split_token: "CHR ''.'' \<notin> set body \<Longrightarrow>
  takeWhile (\<lambda>c. c \<noteq> CHR ''.'') (body @ ''.'' @ s) = body \<and> dropWhile (\<lambda>c. c \<noteq> CHR ''.'') (body @ ''.'' @ s) = CHR ''.'' # s"
  by (induction body) auto

lemma encode_decode:
  assumes "plain v"
  shows "decode_access key (encode_access key v) = Inr (sort_keys v)"
proof -
  define bs where "bs = utf8_encode (json_dumps v)"
  define body where "body = b64 bs"
  have bytes: "list_all is_byte bs" by (simp add: bs_def utf8_is_byte)
  have "CHR ''.'' \<notin> set body" using b64_ascii [OF bytes] by (auto simp: body_def)
  note split = split_token [OF this, of "signature_of key body"]
  have ascii: "is_ascii body" "is_ascii (signature_of key body)"
    by (simp_all add: body_def signature_of_def ascii_b64 bytes hmac_is_byte)
  have "urlsafe_b64decode (pad4 body) = Some bs" by (simp add: body_def b64_roundtrip bytes)
  then show ?thesis
    using split ascii json_roundtrip [OF assms]
    by (simp add: decode_access_def encode_access_def bs_def [symmetric] body_def [symmetric] Let_def)
      (simp add: bs_def utf8_roundtrip)
qed

lemma plain_payload: "plain (payload_json p)"
  by (simp add: payload_json_def)

lemma payload_fields:
  "payload_field ''sub'' (sort_keys (payload_json p)) = Some (JStr (ap_sub p)) \<and>
   payload_field ''sid'' (sort_keys (payload_json p)) = Some (JStr (ap_sid p)) \<and>
   payload_field ''ver'' (sort_keys (payload_json p)) = Some (JInt (ap_ver p)) \<and>
   payload_field ''exp'' (sort_keys (payload_json p)) = Some (JInt (ap_exp p))"
  by (simp add: payload_field_def payload_json_def)


definition demo_payload :: access_payload where
  "demo_payload = \<lparr>ap_sub = ''user_1'', ap_sid = ''session_1'', ap_ver = 3, ap_iat = 1700000000, ap_exp = 1700000900, ap_kid = ''local-v1''\<rparr>"


text \<open>A signature with a character outside of ASCII escapes the error handling.\<close>

lemma non_ascii_signature_raises:
  assumes "CHR ''.'' \<notin> set body" "is_ascii body" "\<not> is_ascii s"
  shows "decode_access key (body @ ''.'' @ s) = Inl TypeError"
  using split_token [OF assms(1), of s] assms(2,3) by (simp add: decode_access_def Let_def)

end
