(* ===== verification/Ra_Schemas.thy ===== *)
theory Ra_Schemas
  imports Py_Json Complex_Main "HOL-Library.AList"
begin

text \<open>
  The data of the research agent: plans, observations, assessments and answers
  (\<open>agents/research/schemas.py\<close>) and the context and citation models it takes from
  \<open>retrieval/schemas.py\<close>.  Each pydantic constraint is a clause of a validity predicate.
  A float is the exact rational the code computes with; rounding is not modelled.  Free-text
  messages of errors are left out.
\<close>

type_synonym time = int

section \<open>Literals\<close>

datatype query_type =
    SymbolLookup | ImplementationExplanation | CallChain | Architecture | TensorShape
  | Configuration | TrainingProcess | InferenceProcess | PaperAlignment | GeneralRepository

primrec query_type_name :: "query_type \<Rightarrow> string" where
  "query_type_name SymbolLookup = ''symbol_lookup''"
| "query_type_name ImplementationExplanation = ''implementation_explanation''"
| "query_type_name CallChain = ''call_chain''"
| "query_type_name Architecture = ''architecture''"
| "query_type_name TensorShape = ''tensor_shape''"
| "query_type_name Configuration = ''configuration''"
| "query_type_name TrainingProcess = ''training_process''"
| "query_type_name InferenceProcess = ''inference_process''"
| "query_type_name PaperAlignment = ''paper_alignment''"
| "query_type_name GeneralRepository = ''general_repository''"

datatype tool_name =
    SearchHybrid | GetSymbolSource | GetGraphNeighbors | GetCallPath | GetModelFlow
  | SearchPaper | GetAlignment | InspectConfig

primrec tool_label :: "tool_name \<Rightarrow> string" where
  "tool_label SearchHybrid = ''search_hybrid''"
| "tool_label GetSymbolSource = ''get_symbol_source''"
| "tool_label GetGraphNeighbors = ''get_graph_neighbors''"
| "tool_label GetCallPath = ''get_call_path''"
| "tool_label GetModelFlow = ''get_model_flow''"
| "tool_label SearchPaper = ''search_paper''"
| "tool_label GetAlignment = ''get_alignment''"
| "tool_label InspectConfig = ''inspect_config''"

datatype research_route = Direct | Planned

datatype run_status =
    RQueued | RRouting | RPlanning | RRetrieving | RExecuting | RAssessing | RReplanning
  | RBuildingContext | RGenerating | RValidating | RVerifying | RFinalizing | RPaused
  | RInterrupted | RCancelling | RCompleted | RPartial | RFailed | RCancelled

definition TERMINAL_STATUSES :: "run_status set" where
  "TERMINAL_STATUSES = {RCompleted, RPartial, RFailed, RCancelled}"

definition RESUMABLE_STATUSES :: "run_status set" where
  "RESUMABLE_STATUSES = {RPaused, RInterrupted}"

datatype output_field = EntityIds | ChunkIds | EdgeIds | EvidenceIds

datatype selection = First | All | Unique

datatype evidence_type = CodeEvidence | GraphEvidence | PaperEvidence | ConfigEvidence | AlignmentEvidence

datatype step_status = SPending | SResolving | SRunning | SSuccess | SEmpty | SFailed | SSkipped

datatype observation_status = OSuccess | OEmpty | OFailed | OTimeout

datatype next_action = ResolveNext | EscalateToPlan | ReplanAction | BuildContextAction | PartialAction

datatype support_status = Supported | PartiallySupported | Unsupported

section \<open>Plans\<close>

record agent_error =
  ae_error_code :: string
  ae_component :: string
  ae_retryable :: bool
  ae_context :: "(string \<times> json) list"

definition agent_error :: "string \<Rightarrow> agent_error" where
  "agent_error code = \<lparr>ae_error_code = code, ae_component = ''research_agent'', ae_retryable = False, ae_context = []\<rparr>"

record expected_evidence =
  ee_type :: evidence_type
  ee_description :: string
  ee_required :: bool
  ee_minimum_count :: int

definition expected_evidence_valid :: "expected_evidence \<Rightarrow> bool" where
  "expected_evidence_valid e \<longleftrightarrow> 1 \<le> length (ee_description e) \<and> length (ee_description e) \<le> 500
     \<and> 1 \<le> ee_minimum_count e \<and> ee_minimum_count e \<le> 10"

record step_output_ref =
  ref_step :: string
  ref_field :: output_field
  ref_index :: "nat option"
  ref_selection :: selection
  ref_required :: bool

definition step_output_ref_valid :: "step_output_ref \<Rightarrow> bool" where
  "step_output_ref_valid r \<longleftrightarrow> 1 \<le> length (ref_step r) \<and> length (ref_step r) \<le> 100
     \<and> (ref_index r \<noteq> None \<longrightarrow> ref_selection r \<notin> {All, Unique})"

record argument_binding =
  ab_name :: string
  ab_from :: step_output_ref

definition ident_start :: "char \<Rightarrow> bool" where
  "ident_start c = (let n = of_char c :: nat in (65 \<le> n \<and> n \<le> 90) \<or> (97 \<le> n \<and> n \<le> 122) \<or> n = 95)"

definition ident_char :: "char \<Rightarrow> bool" where
  "ident_char c = (ident_start c \<or> (let n = of_char c :: nat in 48 \<le> n \<and> n \<le> 57))"

definition argument_binding_valid :: "argument_binding \<Rightarrow> bool" where
  "argument_binding_valid b \<longleftrightarrow> ab_name b \<noteq> [] \<and> ident_start (hd (ab_name b)) \<and> list_all ident_char (ab_name b)
     \<and> length (ab_name b) \<le> 100 \<and> step_output_ref_valid (ab_from b)"

record plan_step =
  ps_id :: string
  ps_ordinal :: int
  ps_goal :: string
  ps_tool :: tool_name
  ps_literals :: "(string \<times> json) list"
  ps_bindings :: "argument_binding list"
  ps_dependencies :: "string list"
  ps_success_criteria :: "string list"
  ps_expected :: "expected_evidence list"
  ps_max_results :: int

definition plan_step_valid :: "plan_step \<Rightarrow> bool" where
  "plan_step_valid s \<longleftrightarrow> 1 \<le> length (ps_id s) \<and> length (ps_id s) \<le> 100 \<and> 0 \<le> ps_ordinal s \<and> ps_ordinal s < 6
     \<and> 1 \<le> length (ps_goal s) \<and> length (ps_goal s) \<le> 1000
     \<and> length (ps_bindings s) \<le> 20 \<and> list_all argument_binding_valid (ps_bindings s)
     \<and> length (ps_dependencies s) \<le> 6
     \<and> 1 \<le> length (ps_success_criteria s) \<and> length (ps_success_criteria s) \<le> 10
     \<and> length (ps_expected s) \<le> 10 \<and> list_all expected_evidence_valid (ps_expected s)
     \<and> 1 \<le> ps_max_results s \<and> ps_max_results s \<le> 30
     \<and> distinct (map ab_name (ps_bindings s))
     \<and> fst ` set (ps_literals s) \<inter> ab_name ` set (ps_bindings s) = {}"

record research_plan =
  rp_id :: string
  rp_version :: string
  rp_query_type :: query_type
  rp_goal :: string
  rp_steps :: "plan_step list"
  rp_success_criteria :: "string list"
  rp_expected :: "expected_evidence list"
  rp_assumptions :: "string list"

definition research_plan_valid :: "research_plan \<Rightarrow> bool" where
  "research_plan_valid p \<longleftrightarrow> 1 \<le> length (rp_id p) \<and> length (rp_id p) \<le> 128
     \<and> 1 \<le> length (rp_version p) \<and> length (rp_version p) \<le> 32
     \<and> 1 \<le> length (rp_goal p) \<and> length (rp_goal p) \<le> 1000
     \<and> 1 \<le> length (rp_steps p) \<and> length (rp_steps p) \<le> 6 \<and> list_all plan_step_valid (rp_steps p)
     \<and> 1 \<le> length (rp_success_criteria p) \<and> length (rp_success_criteria p) \<le> 20
     \<and> length (rp_expected p) \<le> 20 \<and> list_all expected_evidence_valid (rp_expected p)
     \<and> length (rp_assumptions p) \<le> 10"

section \<open>Progress and results\<close>

record step_runtime =
  rt_step_id :: string
  rt_plan_version :: string
  rt_status :: step_status
  rt_execution_id :: "string option"
  rt_observation_id :: "string option"
  rt_started_at :: "time option"
  rt_finished_at :: "time option"
  rt_skip_reason :: "string option"
  rt_error_code :: "string option"

definition new_step_runtime :: "string \<Rightarrow> string \<Rightarrow> step_status \<Rightarrow> step_runtime" where
  "new_step_runtime step_id version st = \<lparr>rt_step_id = step_id, rt_plan_version = version, rt_status = st,
     rt_execution_id = None, rt_observation_id = None, rt_started_at = None, rt_finished_at = None,
     rt_skip_reason = None, rt_error_code = None\<rparr>"

record observation =
  ob_id :: string
  ob_step_id :: string
  ob_plan_version :: string
  ob_tool :: tool_name
  ob_arguments_hash :: string
  ob_call_key :: string
  ob_execution_id :: string
  ob_reused :: bool
  ob_reused_id :: "string option"
  ob_reused_version :: "string option"
  ob_status :: observation_status
  ob_entity_ids :: "string list"
  ob_chunk_ids :: "string list"
  ob_edge_ids :: "string list"
  ob_evidence_ids :: "string list"
  ob_summary :: string
  ob_result_count :: nat
  ob_warnings :: "string list"
  ob_latency_ms :: rat
  ob_error :: "agent_error option"

definition observation_valid :: "observation \<Rightarrow> bool" where
  "observation_valid ob \<longleftrightarrow> length (ob_entity_ids ob) \<le> 100 \<and> length (ob_chunk_ids ob) \<le> 100
     \<and> length (ob_edge_ids ob) \<le> 100 \<and> length (ob_evidence_ids ob) \<le> 100 \<and> length (ob_summary ob) \<le> 2000
     \<and> ob_result_count ob \<le> 100 \<and> length (ob_warnings ob) \<le> 50 \<and> 0 \<le> ob_latency_ms ob"

record criterion_result =
  cr_criterion :: string
  cr_satisfied :: bool
  cr_evidence_ids :: "string list"

record assessment =
  as_query_type :: query_type
  as_sufficient :: bool
  as_criteria :: "criterion_result list"
  as_entity_ids :: "string list"
  as_evidence_ids :: "string list"
  as_missing :: "string list"
  as_confidence :: rat
  as_next_action :: next_action
  as_reason_codes :: "string list"

record budget_limits =
  max_plan_steps :: nat
  max_tool_calls :: nat
  max_replan_count :: nat
  max_tool_failures :: nat
  max_graph_hops :: nat
  max_results_per_call :: nat
  max_context_items :: nat

definition default_limits :: budget_limits where
  "default_limits = \<lparr>max_plan_steps = 6, max_tool_calls = 10, max_replan_count = 2, max_tool_failures = 3,
     max_graph_hops = 2, max_results_per_call = 30, max_context_items = 8\<rparr>"

section \<open>Context, citations and answers\<close>

record retrieval_evidence =
  re_id :: string
  re_source_type :: string
  re_path :: "string option"
  re_start_line :: "int option"
  re_end_line :: "int option"
  re_paper_id :: "string option"
  re_page_number :: "int option"
  re_figure_id :: "string option"
  re_bbox :: "(rat \<times> rat \<times> rat \<times> rat) option"

record context_item =
  ci_id :: string
  ci_entity_id :: string
  ci_chunk_ids :: "string list"
  ci_title :: string
  ci_text :: string
  ci_token_count :: nat
  ci_truncated :: bool
  ci_rank :: nat
  ci_notes :: "string list"
  ci_evidence :: "retrieval_evidence list"

record context_bundle =
  cb_repo_id :: string
  cb_index_version_id :: string
  cb_query_id :: string
  cb_items :: "context_item list"
  cb_estimated_tokens :: nat
  cb_validated_tokens :: "nat option"
  cb_count_method :: string
  cb_token_budget :: nat
  cb_omitted_ids :: "string list"
  cb_warnings :: "string list"

record citation =
  ct_id :: string
  ct_context_id :: string
  ct_evidence_id :: string
  ct_entity_id :: string
  ct_path :: "string option"
  ct_start_line :: "int option"
  ct_end_line :: "int option"
  ct_paper_id :: "string option"
  ct_page_number :: "int option"

record draft_claim =
  dc_id :: string
  dc_text :: string
  dc_citation_ids :: "string list"
  dc_important :: bool

record draft_answer =
  da_answer :: string
  da_claims :: "draft_claim list"
  da_citations :: "citation list"
  da_confidence :: rat

record validated_claim =
  vc_id :: string
  vc_text :: string
  vc_citation_ids :: "string list"
  vc_important :: bool
  vc_support :: support_status

record validated_answer =
  va_answer :: string
  va_claims :: "validated_claim list"
  va_citations :: "citation list"
  va_confidence :: rat
  va_warnings :: "string list"

record agent_answer =
  aa_answer :: string
  aa_claims :: "validated_claim list"
  aa_citations :: "citation list"
  aa_unsupported :: "string list"
  aa_confidence :: rat
  aa_evidence_only :: bool

section \<open>Dictionaries\<close>

text \<open>\<open>d[k] = v\<close> on the items of a \<open>dict\<close> in insertion order.\<close>

definition dict_set :: "'k \<Rightarrow> 'v \<Rightarrow> ('k \<times> 'v) list \<Rightarrow> ('k \<times> 'v) list" where
  "dict_set = AList.update"

lemma map_of_dict_set [simp]: "map_of (dict_set k v d) = (map_of d)(k \<mapsto> v)"
  by (simp add: dict_set_def AList.update_conv')

end
