(* ===== verification/Ra_Tools.thy ===== *)
theory Ra_Tools
  imports Ra_Schemas
begin

text \<open>
  Tools of the research agent (\<open>agents/research/tool_registry.py\<close>), the resolution of a step's
  arguments (\<open>argument_resolver.py\<close>) and the execution of one step (\<open>executor.py\<close>).  What pydantic
  does with the input model of a tool (validate, then dump) is a field of the tool's specification.
\<close>

section \<open>Registry\<close>

record tool_result =
  tr_entity_ids :: "string list"
  tr_chunk_ids :: "string list"
  tr_edge_ids :: "string list"
  tr_evidence_ids :: "string list"
  tr_summary :: string
  tr_warnings :: "string list"
  tr_alignment_items :: "json list"

definition empty_tool_result :: tool_result where
  "empty_tool_result = \<lparr>tr_entity_ids = [], tr_chunk_ids = [], tr_edge_ids = [], tr_evidence_ids = [],
     tr_summary = [], tr_warnings = [], tr_alignment_items = []\<rparr>"

definition tool_result_valid :: "tool_result \<Rightarrow> bool" where
  "tool_result_valid r \<longleftrightarrow> length (tr_entity_ids r) \<le> 100 \<and> length (tr_chunk_ids r) \<le> 100
     \<and> length (tr_edge_ids r) \<le> 100 \<and> length (tr_evidence_ids r) \<le> 100 \<and> length (tr_summary r) \<le> 2000
     \<and> length (tr_warnings r) \<le> 50 \<and> length (tr_alignment_items r) \<le> 20"

definition result_count :: "tool_result \<Rightarrow> nat" where
  "result_count r = max (length (tr_entity_ids r)) (max (length (tr_chunk_ids r))
     (max (length (tr_edge_ids r)) (length (tr_evidence_ids r))))"

text \<open>
  \<open>ts_fields\<close> are the fields of the input model, each with what \<open>_expects_collection\<close> says of
  its annotation; \<open>ts_validate\<close> is \<open>input_model.model_validate\<close> followed by \<open>model_dump\<close>
  (\<open>None\<close> for a \<open>ValidationError\<close>); \<open>ts_field_ok\<close> is the \<open>TypeAdapter\<close> of one field.
\<close>

type_synonym arguments = "(string \<times> json) list"

record tool_spec =
  ts_fields :: "(string \<times> bool) list"
  ts_output_fields :: "output_field set"
  ts_validate :: "arguments \<Rightarrow> arguments option"
  ts_field_ok :: "string \<Rightarrow> json \<Rightarrow> bool"

type_synonym registry = "tool_name \<Rightarrow> tool_spec option"

definition register :: "tool_name \<Rightarrow> tool_spec \<Rightarrow> registry \<Rightarrow> exn + registry" where
  "register name spec reg =
     (if reg name \<noteq> None then Inl (ValueError (''tool already registered: '' @ tool_label name))
      else Inr (reg(name \<mapsto> spec)))"

definition registry_get :: "tool_name \<Rightarrow> registry \<Rightarrow> exn + tool_spec" where
  "registry_get name reg =
     (case reg name of None \<Rightarrow> Inl (ValueError (''tool_not_found:'' @ tool_label name)) | Some spec \<Rightarrow> Inr spec)"

text \<open>What a call of a handler does: it returns, exceeds \<open>asyncio.timeout\<close>, or raises.\<close>

datatype handler_outcome = Returned tool_result | TimedOut | Failed

record tool_env =
  te_cancelled_before :: bool
  te_handler :: "tool_name \<Rightarrow> arguments \<Rightarrow> handler_outcome"
  te_cancelled_after :: bool
  te_latency_ms :: rat

record invocation =
  iv_status :: observation_status
  iv_result :: tool_result
  iv_latency_ms :: rat
  iv_error :: "agent_error option"

definition invocation_failed :: "observation_status \<Rightarrow> rat \<Rightarrow> agent_error \<Rightarrow> invocation" where
  "invocation_failed st latency e =
     \<lparr>iv_status = st, iv_result = empty_tool_result, iv_latency_ms = latency, iv_error = Some e\<rparr>"

definition invoke_impl :: "registry \<Rightarrow> tool_name \<Rightarrow> arguments \<Rightarrow> tool_env \<Rightarrow> exn + invocation" where
  "invoke_impl reg name args te =
     (case registry_get name reg of
        Inl e \<Rightarrow> Inl e
      | Inr spec \<Rightarrow> Inr (
          if te_cancelled_before te then invocation_failed OFailed 0 (agent_error ''agent_cancelled'')
          else case te_handler te name args of
              TimedOut \<Rightarrow> invocation_failed OTimeout (te_latency_ms te)
                ((agent_error ''tool_timeout'')\<lparr>ae_retryable := True\<rparr>)
            | Failed \<Rightarrow> invocation_failed OFailed (te_latency_ms te) (agent_error ''tool_internal_error'')
            | Returned r \<Rightarrow>
                if te_cancelled_after te then invocation_failed OFailed (te_latency_ms te) (agent_error ''agent_cancelled'')
                else \<lparr>iv_status = (if result_count r \<noteq> 0 then OSuccess else OEmpty), iv_result = r,
                       iv_latency_ms = te_latency_ms te, iv_error = None\<rparr>))"

section \<open>Arguments of a step\<close>

text \<open>
  \<open>unicodedata.normalize("NFC", s)\<close> leaves every string of code points below 256 as it is, so
  \<open>_normalize\<close> is the identity on the strings of the model.
\<close>

definition canonical_arguments :: "arguments \<Rightarrow> string" where
  "canonical_arguments args = dumps_sorted escape_char_raw (sort_keys (JObj args))"

definition join_nul :: "string list \<Rightarrow> string" where
  "join_nul parts = join_with [CHR 0x00] parts"

definition step_execution_id :: "string \<Rightarrow> string \<Rightarrow> string \<Rightarrow> string" where
  "step_execution_id run_id plan_version step_id = stable_hash (join_nul [run_id, plan_version, step_id])"

definition semantic_tool_call_key :: "string \<Rightarrow> string \<Rightarrow> string \<Rightarrow> tool_name \<Rightarrow> string \<Rightarrow> string" where
  "semantic_tool_call_key run_id repo_id index_version_id name canonical =
     stable_hash (join_nul [run_id, repo_id, index_version_id, tool_label name, canonical])"

record resolved_arguments =
  ra_model :: arguments
  ra_canonical :: string
  ra_hash :: string

primrec output_of :: "output_field \<Rightarrow> observation \<Rightarrow> string list" where
  "output_of EntityIds ob = ob_entity_ids ob"
| "output_of ChunkIds ob = ob_chunk_ids ob"
| "output_of EdgeIds ob = ob_edge_ids ob"
| "output_of EvidenceIds ob = ob_evidence_ids ob"

text \<open>\<open>_select\<close>; \<open>None\<close> also stands for the empty list, which the caller treats alike.\<close>

definition select_output :: "string list \<Rightarrow> selection \<Rightarrow> nat option \<Rightarrow> json option" where
  "select_output values sel index =
     (case index of
        Some i \<Rightarrow> if i < length values then Some (JStr (values ! i)) else None
      | None \<Rightarrow>
          (case sel of
             First \<Rightarrow> (case values of [] \<Rightarrow> None | v # _ \<Rightarrow> Some (JStr v))
           | Unique \<Rightarrow> if values = [] then None else Some (JArr (map JStr (fromkeys values)))
           | All \<Rightarrow> if values = [] then None else Some (JArr (map JStr values))))"

text \<open>\<open>by_step\<close>: the last matching observation of a step wins.\<close>

definition step_output :: "string option \<Rightarrow> string \<Rightarrow> observation list \<Rightarrow> observation option" where
  "step_output version step_id obs =
     List.find (\<lambda>ob. ob_step_id ob = step_id \<and> ob_status ob \<in> {OSuccess, OEmpty}
       \<and> (case version of None \<Rightarrow> True | Some v \<Rightarrow> ob_plan_version ob = v)) (rev obs)"

fun bind_outputs ::
    "string option \<Rightarrow> observation list \<Rightarrow> argument_binding list \<Rightarrow> arguments \<Rightarrow> exn + arguments" where
  "bind_outputs version obs [] vals = Inr vals"
| "bind_outputs version obs (b # bs) vals =
     (let r = ab_from b;
          candidates = (case step_output version (ref_step r) obs of
              None \<Rightarrow> [] | Some ob \<Rightarrow> output_of (ref_field r) ob)
      in case select_output candidates (ref_selection r) (ref_index r) of
           None \<Rightarrow> if ref_required r then Inl (ArgumentResolutionError ''required_step_output_missing'')
                   else bind_outputs version obs bs vals
         | Some v \<Rightarrow> bind_outputs version obs bs (dict_set (ab_name b) v vals))"

definition resolve_step ::
    "registry \<Rightarrow> plan_step \<Rightarrow> observation list \<Rightarrow> string option \<Rightarrow> exn + resolved_arguments" where
  "resolve_step reg step obs version =
     (case bind_outputs version obs (ps_bindings step) (ps_literals step) of
        Inl e \<Rightarrow> Inl e
      | Inr vals \<Rightarrow>
          (case registry_get (ps_tool step) reg of
             Inl e \<Rightarrow> Inl e
           | Inr spec \<Rightarrow>
               (case ts_validate spec vals of
                  None \<Rightarrow> Inl (ArgumentResolutionError ''invalid_tool_arguments'')
                | Some model \<Rightarrow> Inr \<lparr>ra_model = model, ra_canonical = canonical_arguments model,
                    ra_hash = stable_hash (canonical_arguments model)\<rparr>)))"

section \<open>Execution of a step\<close>

record step_outcome =
  so_observation :: observation
  so_runtime :: step_runtime
  so_resolved :: resolved_arguments
  so_tool_calls :: nat
  so_reused_calls :: nat
  so_failures :: nat

definition runtime_of ::
    "plan_step \<Rightarrow> string \<Rightarrow> string \<Rightarrow> observation \<Rightarrow> time \<Rightarrow> time \<Rightarrow> step_runtime" where
  "runtime_of step version execution_id ob started now =
     (new_step_runtime (ps_id step) version
        (case ob_status ob of OSuccess \<Rightarrow> SSuccess | OEmpty \<Rightarrow> SEmpty | OFailed \<Rightarrow> SFailed | OTimeout \<Rightarrow> SFailed))
     \<lparr>rt_execution_id := Some execution_id, rt_observation_id := Some (ob_id ob), rt_started_at := Some started,
      rt_finished_at := Some now, rt_error_code := map_option ae_error_code (ob_error ob)\<rparr>"

text \<open>\<open>run_scope\<close> is \<open>(run_id, repo_id, index_version_id)\<close>.\<close>

type_synonym run_scope = "string \<times> string \<times> string"

definition call_key_of :: "run_scope \<Rightarrow> plan_step \<Rightarrow> resolved_arguments \<Rightarrow> string" where
  "call_key_of scope step resolved =
     (case scope of (run_id, repo_id, index_version_id) \<Rightarrow>
        semantic_tool_call_key run_id repo_id index_version_id (ps_tool step) (ra_canonical resolved))"

definition execute_tool_step ::
    "registry \<Rightarrow> budget_limits \<Rightarrow> tool_env \<Rightarrow> string \<Rightarrow> time \<Rightarrow> run_scope \<Rightarrow> string \<Rightarrow> plan_step
     \<Rightarrow> resolved_arguments \<Rightarrow> observation list \<Rightarrow> nat \<Rightarrow> exn + step_outcome" where
  "execute_tool_step reg limits te uuid now scope version step resolved obs tool_call_count =
     (let execution_id = step_execution_id (fst scope) version (ps_id step);
          call_key = call_key_of scope step resolved
      in case List.find (\<lambda>ob. ob_call_key ob = call_key \<and> ob_status ob = OSuccess) (rev obs) of
           Some old \<Rightarrow>
             (let ob = old\<lparr>ob_id := ''obs_'' @ uuid, ob_step_id := ps_id step, ob_plan_version := version,
                    ob_execution_id := execution_id, ob_reused := True, ob_reused_id := Some (ob_id old),
                    ob_reused_version := Some (ob_plan_version old), ob_latency_ms := 0\<rparr>
              in Inr \<lparr>so_observation = ob, so_runtime = runtime_of step version execution_id ob now now,
                   so_resolved = resolved, so_tool_calls = 0, so_reused_calls = 1, so_failures = 0\<rparr>)
         | None \<Rightarrow>
             if \<not> tool_call_count < max_tool_calls limits
             then Inl (AgentBudgetExceeded ''tool_call_budget_exhausted'')
             else case invoke_impl reg (ps_tool step) (ra_model resolved) te of
                 Inl e \<Rightarrow> Inl e
               | Inr iv \<Rightarrow>
                   (let r = iv_result iv;
                        ob = \<lparr>ob_id = ''obs_'' @ uuid, ob_step_id = ps_id step, ob_plan_version = version,
                          ob_tool = ps_tool step, ob_arguments_hash = ra_hash resolved, ob_call_key = call_key,
                          ob_execution_id = execution_id, ob_reused = False, ob_reused_id = None,
                          ob_reused_version = None, ob_status = iv_status iv, ob_entity_ids = tr_entity_ids r,
                          ob_chunk_ids = tr_chunk_ids r, ob_edge_ids = tr_edge_ids r,
                          ob_evidence_ids = tr_evidence_ids r, ob_summary = tr_summary r,
                          ob_result_count = result_count r, ob_warnings = tr_warnings r,
                          ob_latency_ms = iv_latency_ms iv, ob_error = iv_error iv\<rparr>
                    in Inr \<lparr>so_observation = ob, so_runtime = runtime_of step version execution_id ob now now,
                         so_resolved = resolved, so_tool_calls = 1, so_reused_calls = 0,
                         so_failures = (if iv_status iv \<in> {OFailed, OTimeout} then 1 else 0)\<rparr>))"

section \<open>The default registry\<close>

text \<open>
  The fields of the input models, and which of them are collections.  Every default tool returns
  the four identifier lists.
\<close>

primrec tool_fields :: "tool_name \<Rightarrow> (string \<times> bool) list" where
  "tool_fields SearchHybrid = [(''query'', False), (''query_type'', False), (''filters'', False), (''top_k'', False),
     (''include_graph'', False), (''include_reranker'', False)]"
| "tool_fields GetSymbolSource = [(''entity_id'', False), (''qualified_name'', False), (''max_characters'', False)]"
| "tool_fields GetGraphNeighbors = [(''entity_ids'', True), (''edge_types'', True), (''direction'', False),
     (''max_results'', False)]"
| "tool_fields GetCallPath = [(''source_entity_id'', False), (''target_entity_id'', False), (''max_hops'', False),
     (''max_paths'', False)]"
| "tool_fields GetModelFlow = [(''entity_id'', False), (''direction'', False), (''max_nodes'', False)]"
| "tool_fields SearchPaper = [(''query'', False), (''top_k'', False)]"
| "tool_fields GetAlignment = [(''entity_id'', False), (''max_results'', False)]"
| "tool_fields InspectConfig = [(''query'', False), (''path'', False), (''max_results'', False)]"

definition default_registry ::
    "(tool_name \<Rightarrow> arguments \<Rightarrow> arguments option) \<Rightarrow> (tool_name \<Rightarrow> string \<Rightarrow> json \<Rightarrow> bool) \<Rightarrow> registry" where
  "default_registry validate field_ok = (\<lambda>t. Some \<lparr>ts_fields = tool_fields t,
     ts_output_fields = {EntityIds, ChunkIds, EdgeIds, EvidenceIds}, ts_validate = validate t,
     ts_field_ok = field_ok t\<rparr>)"

end
