(* ===== verification/Ra_Plan.thy ===== *)
theory Ra_Plan
  imports Ra_Tools
begin

text \<open>
  Planning: the budget (\<open>agents/research/budget.py\<close>), the router (\<open>router.py\<close>), the rule-based and
  the structured planner (\<open>planner.py\<close>) and the plan validator (\<open>plan_validator.py\<close>).
\<close>

section \<open>Budget\<close>

record budget_counts =
  tool_call_count :: nat
  tool_reuse_count :: nat
  replan_count :: nat
  tool_failure_count :: nat

definition can_call_tool :: "budget_limits \<Rightarrow> budget_counts \<Rightarrow> bool" where
  "can_call_tool limits c \<longleftrightarrow> tool_call_count c < max_tool_calls limits"

definition can_replan :: "budget_limits \<Rightarrow> budget_counts \<Rightarrow> bool" where
  "can_replan limits c \<longleftrightarrow> replan_count c < max_replan_count limits"

definition failures_available :: "budget_limits \<Rightarrow> budget_counts \<Rightarrow> bool" where
  "failures_available limits c \<longleftrightarrow> tool_failure_count c < max_tool_failures limits"

definition validate_plan_size :: "budget_limits \<Rightarrow> nat \<Rightarrow> exn + unit" where
  "validate_plan_size limits n =
     (if max_plan_steps limits < n then Inl (ValueError ''plan_step_budget_exceeded'') else Inr ())"

section \<open>Router\<close>

text \<open>
  The regular expressions of \<open>retrieval/query_profiler.py\<close> and of the router (which match Chinese
  words) are an argument: for a query, the profile with the rule that fired, and whether the
  complexity pattern matches.
\<close>

record query_profiler =
  qp_classify :: "string \<Rightarrow> query_type \<times> string"
  qp_complex :: "string \<Rightarrow> bool"

record route_decision =
  rd_route :: research_route
  rd_query_type :: query_type
  rd_reasons :: "string list"

definition route_query_text :: "query_profiler \<Rightarrow> string \<Rightarrow> query_type option \<Rightarrow> route_decision" where
  "route_query_text qp query explicit_type =
     (let (query_type, rule) = (case explicit_type of Some t \<Rightarrow> (t, ''explicit'') | None \<Rightarrow> qp_classify qp query);
          complex_type = (query_type \<in> {CallChain, Architecture, TrainingProcess, InferenceProcess,
             PaperAlignment, GeneralRepository});
          route = (if complex_type \<or> qp_complex qp query then Planned else Direct)
      in \<lparr>rd_route = route, rd_query_type = query_type,
           rd_reasons = [''query_profile:'' @ rule, ''query_type:'' @ query_type_name query_type,
             if route = Planned then ''complex_query_feature'' else ''single_evidence_target'']\<rparr>)"

section \<open>Rule-based planner\<close>

definition expect :: "evidence_type \<Rightarrow> string \<Rightarrow> expected_evidence" where
  "expect t description = \<lparr>ee_type = t, ee_description = description, ee_required = True, ee_minimum_count = 1\<rparr>"

definition expected_for :: "query_type \<Rightarrow> expected_evidence list" where
  "expected_for qt =
     (if qt = PaperAlignment then
        [expect PaperEvidence ''Paper page or figure evidence'', expect CodeEvidence ''Code path and line evidence'',
         expect AlignmentEvidence ''ALIGNS_WITH edge evidence'']
      else if qt \<in> {CallChain, Architecture, TrainingProcess, InferenceProcess} then
        [expect CodeEvidence ''Code entity evidence'', expect GraphEvidence ''Resolved graph edge evidence'']
      else [expect CodeEvidence ''Code path and line evidence''])"

definition output_ref :: "string \<Rightarrow> output_field \<Rightarrow> nat option \<Rightarrow> selection \<Rightarrow> step_output_ref" where
  "output_ref step field index sel =
     \<lparr>ref_step = step, ref_field = field, ref_index = index, ref_selection = sel, ref_required = True\<rparr>"

definition search_step :: "string \<Rightarrow> query_type \<Rightarrow> plan_step" where
  "search_step query qt =
     (let tool = (if qt = PaperAlignment then SearchPaper else SearchHybrid) in
      \<lparr>ps_id = ''step_search'', ps_ordinal = 0, ps_goal = ''Find initial evidence candidates.'', ps_tool = tool,
        ps_literals = (''query'', JStr query) #
          (if tool = SearchHybrid then [(''query_type'', JStr (query_type_name qt)), (''top_k'', JInt 10)] else []),
        ps_bindings = [], ps_dependencies = [],
        ps_success_criteria = [''At least one entity or chunk is returned.''],
        ps_expected = expected_for qt, ps_max_results = 10\<rparr>)"

definition follow_up ::
    "query_type \<Rightarrow> string \<Rightarrow> string \<Rightarrow> tool_name \<Rightarrow> arguments \<Rightarrow> argument_binding list \<Rightarrow> string \<Rightarrow> plan_step" where
  "follow_up qt step_id goal tool literals bindings success =
     \<lparr>ps_id = step_id, ps_ordinal = 1, ps_goal = goal, ps_tool = tool, ps_literals = literals,
       ps_bindings = bindings, ps_dependencies = [''step_search''], ps_success_criteria = [success],
       ps_expected = expected_for qt, ps_max_results = 10\<rparr>"

definition plan_steps_for :: "string \<Rightarrow> query_type \<Rightarrow> plan_step list" where
  "plan_steps_for query qt =
     (let first = search_step query qt in
      if qt = CallChain then
        [first, follow_up qt ''step_call_path''
           ''Resolve the call path between the first two candidate entities.'' GetCallPath
           [(''max_hops'', JInt 2), (''max_paths'', JInt 5)]
           [\<lparr>ab_name = ''source_entity_id'', ab_from = output_ref (ps_id first) EntityIds (Some 0) First\<rparr>,
            \<lparr>ab_name = ''target_entity_id'', ab_from = output_ref (ps_id first) EntityIds (Some 1) First\<rparr>]
           ''A resolved path or an explicit unreachable result is returned.'']
      else if qt \<in> {Architecture, TrainingProcess, InferenceProcess, GeneralRepository} then
        [first, follow_up qt ''step_graph''
           ''Inspect graph relations around the retrieved entities.'' GetGraphNeighbors
           [(''edge_types'', JArr [JStr ''CONTAINS'', JStr ''DEFINES'', JStr ''CALLS'', JStr ''INSTANTIATES'', JStr ''IMPORTS'']),
            (''direction'', JStr ''both''), (''max_results'', JInt 30)]
           [\<lparr>ab_name = ''entity_ids'', ab_from = output_ref (ps_id first) EntityIds None Unique\<rparr>]
           ''At least one relevant graph relation is returned.'']
      else if qt = PaperAlignment then
        [first, follow_up qt ''step_alignment''
           ''Read code-paper alignment edges for the leading paper entity.'' GetAlignment
           [(''max_results'', JInt 20)]
           [\<lparr>ab_name = ''entity_id'', ab_from = output_ref (ps_id first) EntityIds None First\<rparr>]
           ''Paper and code evidence are linked by a real alignment edge.'']
      else [first])"

definition rule_plan :: "string \<Rightarrow> query_type \<Rightarrow> nat \<Rightarrow> research_plan" where
  "rule_plan query qt version =
     \<lparr>rp_id = ''plan_'' @ take 20 (stable_hash (join_nul [show_nat version, query_type_name qt, query])),
       rp_version = show_nat version, rp_query_type = qt, rp_goal = query, rp_steps = plan_steps_for query qt,
       rp_success_criteria = [''Collect the required repository evidence within the agent budget.''],
       rp_expected = expected_for qt, rp_assumptions = []\<rparr>"

text \<open>
  \<open>RuleBasedPlanner.create_plan\<close> builds pydantic models: a goal of more than 1,000 characters (the
  query may have 8,000) is a \<open>ValidationError\<close>.
\<close>

definition rule_create_plan :: "string \<Rightarrow> query_type \<Rightarrow> nat \<Rightarrow> exn + research_plan" where
  "rule_create_plan query qt version =
     (if research_plan_valid (rule_plan query qt version) then Inr (rule_plan query qt version) else Inl ValidationError)"

section \<open>Plan validator\<close>

definition plan_error :: "string \<Rightarrow> exn + 'a" where
  "plan_error code = Inl (PlanValidationError code)"

text \<open>\<open>by_id\<close> maps a step id to the step; ids are unique once the earlier check passed.\<close>

definition step_by_id :: "string \<Rightarrow> plan_step list \<Rightarrow> plan_step option" where
  "step_by_id step_id ordered = List.find (\<lambda>s. ps_id s = step_id) (rev ordered)"

definition require_prior :: "int \<Rightarrow> string \<Rightarrow> plan_step list \<Rightarrow> exn + plan_step" where
  "require_prior ordinal step_id ordered =
     (case step_by_id step_id ordered of
        None \<Rightarrow> plan_error ''step_reference_invalid''
      | Some source \<Rightarrow> if ordinal \<le> ps_ordinal source then plan_error ''step_reference_invalid'' else Inr source)"

fun check_dependencies :: "int \<Rightarrow> plan_step list \<Rightarrow> string list \<Rightarrow> exn + unit" where
  "check_dependencies ordinal ordered [] = Inr ()"
| "check_dependencies ordinal ordered (d # ds) =
     (case require_prior ordinal d ordered of Inl e \<Rightarrow> Inl e | Inr _ \<Rightarrow> check_dependencies ordinal ordered ds)"

definition check_binding ::
    "registry \<Rightarrow> plan_step list \<Rightarrow> plan_step \<Rightarrow> tool_spec \<Rightarrow> argument_binding \<Rightarrow> exn + unit" where
  "check_binding reg ordered step spec b =
     (case require_prior (ps_ordinal step) (ref_step (ab_from b)) ordered of
        Inl e \<Rightarrow> Inl e
      | Inr source \<Rightarrow>
          if ps_id source \<notin> set (ps_dependencies step) then plan_error ''step_binding_invalid''
          else case registry_get (ps_tool source) reg of
              Inl e \<Rightarrow> Inl e
            | Inr source_spec \<Rightarrow>
                if ref_field (ab_from b) \<notin> ts_output_fields source_spec then plan_error ''step_binding_invalid''
                else case map_of (ts_fields spec) (ab_name b) of
                    None \<Rightarrow> plan_error ''invalid_tool_arguments''
                  | Some collection \<Rightarrow>
                      if (ref_selection (ab_from b) \<in> {All, Unique}) \<noteq> collection
                      then plan_error ''step_binding_cardinality'' else Inr ())"

fun check_bindings ::
    "registry \<Rightarrow> plan_step list \<Rightarrow> plan_step \<Rightarrow> tool_spec \<Rightarrow> argument_binding list \<Rightarrow> exn + unit" where
  "check_bindings reg ordered step spec [] = Inr ()"
| "check_bindings reg ordered step spec (b # bs) =
     (case check_binding reg ordered step spec b of
        Inl e \<Rightarrow> Inl e | Inr _ \<Rightarrow> check_bindings reg ordered step spec bs)"

definition check_step :: "registry \<Rightarrow> plan_step list \<Rightarrow> plan_step \<Rightarrow> exn + unit" where
  "check_step reg ordered step =
     (case reg (ps_tool step) of
        None \<Rightarrow> plan_error ''tool_not_allowed''
      | Some spec \<Rightarrow>
          if \<not> fst ` set (ps_literals step) \<subseteq> fst ` set (ts_fields spec) then plan_error ''invalid_tool_arguments''
          else case check_dependencies (ps_ordinal step) ordered (ps_dependencies step) of
              Inl e \<Rightarrow> Inl e
            | Inr _ \<Rightarrow>
                (case check_bindings reg ordered step spec (ps_bindings step) of
                   Inl e \<Rightarrow> Inl e
                 | Inr _ \<Rightarrow>
                     if list_all (\<lambda>(name, v). ts_field_ok spec name v) (ps_literals step) then Inr ()
                     else plan_error ''invalid_tool_arguments''))"

fun check_steps :: "registry \<Rightarrow> plan_step list \<Rightarrow> plan_step list \<Rightarrow> exn + unit" where
  "check_steps reg ordered [] = Inr ()"
| "check_steps reg ordered (s # ss) =
     (case check_step reg ordered s of Inl e \<Rightarrow> Inl e | Inr _ \<Rightarrow> check_steps reg ordered ss)"

definition validate_plan :: "registry \<Rightarrow> budget_limits \<Rightarrow> research_plan \<Rightarrow> exn + research_plan" where
  "validate_plan reg limits plan =
     (case validate_plan_size limits (length (rp_steps plan)) of
        Inl e \<Rightarrow> Inl e
      | Inr _ \<Rightarrow>
          (let ordered = sort_key ps_ordinal (rp_steps plan) in
           if map ps_ordinal ordered \<noteq> map int [0..<length ordered] then plan_error ''plan_invalid''
           else if \<not> distinct (map ps_id ordered) then plan_error ''plan_invalid''
           else case check_steps reg ordered ordered of
               Inl e \<Rightarrow> Inl e
             | Inr _ \<Rightarrow> Inr (plan\<lparr>rp_steps := ordered\<rparr>)))"

section \<open>Structured planner\<close>

text \<open>
  \<open>StructuredPlanner.create_plan\<close>.  \<open>available\<close> is \<open>router.has_available_provider\<close> and \<open>reply\<close> the
  plan that \<open>generate_structured\<close> returned (\<open>None\<close> when it has no value); the router applies
  \<open>_validate_planner_identity\<close> to it.  \<open>check\<close> is the validator, if one was given.
\<close>

definition planner_identity_ok :: "query_type \<Rightarrow> nat \<Rightarrow> research_plan \<Rightarrow> bool" where
  "planner_identity_ok qt version plan \<longleftrightarrow> rp_query_type plan = qt \<and> rp_version plan = show_nat version"

definition structured_create_plan ::
    "bool \<Rightarrow> (research_plan \<Rightarrow> exn + research_plan) option \<Rightarrow> bool \<Rightarrow> research_plan option
     \<Rightarrow> string \<Rightarrow> query_type \<Rightarrow> nat \<Rightarrow> exn + research_plan" where
  "structured_create_plan available check consent reply query qt version =
     (if \<not> consent \<or> \<not> available then rule_create_plan query qt version
      else case reply of
          None \<Rightarrow> rule_create_plan query qt version
        | Some plan \<Rightarrow>
            if \<not> (research_plan_valid plan \<and> planner_identity_ok qt version plan) then rule_create_plan query qt version
            else case check of
                None \<Rightarrow> Inr plan
              | Some validate \<Rightarrow>
                  (case validate plan of
                     Inl (PlanValidationError _) \<Rightarrow> rule_create_plan query qt version
                   | Inl (ValueError _) \<Rightarrow> rule_create_plan query qt version
                   | r \<Rightarrow> r))"

end
