(* ===== verification/Ra_Answer.thy ===== *)
theory Ra_Answer
  imports Ra_Plan
begin

text \<open>
  What the agent concludes: the sufficiency of evidence (\<open>agents/research/evidence_checker.py\<close>) and
  the answer pipeline (\<open>answer_pipeline.py\<close>), from the generated draft over the validation of
  citations and the verification of claims to the final answer.  Texts are their UTF-8 bytes.
\<close>

section \<open>Sufficiency of evidence\<close>

definition GRAPH_REQUIRED :: "query_type set" where
  "GRAPH_REQUIRED = {CallChain, Architecture, TrainingProcess, InferenceProcess, PaperAlignment}"

definition criteria_of :: "query_type \<Rightarrow> observation list \<Rightarrow> criterion_result list" where
  "criteria_of qt successful =
     (let entity_ids = unique_nonempty (concat (map ob_entity_ids successful));
          evidence_ids = unique_nonempty (concat (map ob_evidence_ids successful));
          edge_ids = unique_nonempty (concat (map ob_edge_ids successful))
      in [\<lparr>cr_criterion = ''code_evidence'', cr_satisfied = (entity_ids \<noteq> [] \<and> evidence_ids \<noteq> []),
            cr_evidence_ids = evidence_ids\<rparr>] @
         (if qt \<in> GRAPH_REQUIRED
          then [\<lparr>cr_criterion = ''graph_evidence'', cr_satisfied = (edge_ids \<noteq> []), cr_evidence_ids = edge_ids\<rparr>]
          else []) @
         (if qt = PaperAlignment
          then [\<lparr>cr_criterion = ''paper_alignment_evidence'',
                  cr_satisfied = list_ex (\<lambda>ob. ob_tool ob \<in> {SearchPaper, GetAlignment} \<and> ob_status ob = OSuccess) successful,
                  cr_evidence_ids = evidence_ids @ edge_ids\<rparr>]
          else []))"

definition assess ::
    "query_type \<Rightarrow> research_route \<Rightarrow> observation list \<Rightarrow> bool \<Rightarrow> bool \<Rightarrow> bool \<Rightarrow> assessment" where
  "assess qt route obs has_remaining direct_escalated replan_possible =
     (let successful = filter (\<lambda>ob. ob_status ob = OSuccess) obs;
          criteria = criteria_of qt successful;
          sufficient = list_all cr_satisfied criteria;
          missing = map cr_criterion (filter (\<lambda>c. \<not> cr_satisfied c) criteria);
          action = (if sufficient then BuildContextAction
            else if has_remaining then ResolveNext
            else if route = Direct \<and> \<not> direct_escalated then EscalateToPlan
            else if route = Planned \<and> replan_possible then ReplanAction
            else PartialAction)
      in \<lparr>as_query_type = qt, as_sufficient = sufficient, as_criteria = criteria,
           as_entity_ids = unique_nonempty (concat (map ob_entity_ids successful)),
           as_evidence_ids = unique_nonempty (concat (map ob_evidence_ids successful)),
           as_missing = missing,
           as_confidence = (if sufficient then 1
             else of_nat (length (filter cr_satisfied criteria)) / of_nat (length criteria)),
           as_next_action = action, as_reason_codes = missing\<rparr>)"

section \<open>Draft answers\<close>

definition utf8_text :: "nat list \<Rightarrow> string" where
  "utf8_text bytes = map char_of bytes"

definition text_found :: string where
  "text_found = utf8_text [230, 163, 128, 231, 180, 162, 229, 136, 176, 228, 184, 142, 233, 151, 174,
     233, 162, 152, 231, 155, 184, 229, 133, 179, 231, 154, 132, 232, 175, 129, 230, 141, 174, 239, 188, 154]"

definition text_stop :: string where
  "text_stop = utf8_text [227, 128, 130]"

definition text_no_evidence :: string where
  "text_no_evidence = utf8_text [229, 189, 147, 229, 137, 141, 231, 180, 162, 229, 188, 149, 228, 184, 173,
     230, 178, 161, 230, 156, 137, 232, 182, 179, 229, 164, 159, 232, 175, 129, 230, 141, 174, 229, 155, 158,
     231, 173, 148, 232, 175, 165, 233, 151, 174, 233, 162, 152, 227, 128, 130]"

definition text_partial :: string where
  "text_partial = utf8_text [232, 175, 129, 230, 141, 174, 228, 187, 133, 233, 131, 168, 229, 136, 134,
     230, 148, 175, 230, 140, 129, 239, 188, 154]"

definition text_evidence_only :: string where
  "text_evidence_only = utf8_text [231, 142, 176, 230, 156, 137, 232, 175, 129, 230, 141, 174, 228, 184, 141,
     232, 182, 179, 239, 188, 140, 228, 187, 165, 228, 184, 139, 228, 187, 133, 232, 191, 148, 229, 155, 158,
     229, 183, 178, 230, 163, 128, 231, 180, 162, 229, 136, 176, 231, 154, 132, 232, 175, 129, 230, 141, 174,
     227, 128, 130]"

definition cite :: "string \<Rightarrow> context_item \<Rightarrow> retrieval_evidence \<Rightarrow> citation" where
  "cite citation_id item ev = \<lparr>ct_id = citation_id, ct_context_id = ci_id item, ct_evidence_id = re_id ev,
     ct_entity_id = ci_entity_id item, ct_path = re_path ev, ct_start_line = re_start_line ev,
     ct_end_line = re_end_line ev, ct_paper_id = re_paper_id ev, ct_page_number = re_page_number ev\<rparr>"

definition cite_id :: "nat \<Rightarrow> nat \<Rightarrow> string" where
  "cite_id i j = ''cite_'' @ show_nat i @ ''_'' @ show_nat j"

definition item_citations :: "nat \<Rightarrow> context_item \<Rightarrow> citation list" where
  "item_citations i item = map (\<lambda>(j, ev). cite (cite_id i j) item ev) (enumerate 1 (ci_evidence item))"

definition item_claim :: "nat \<Rightarrow> context_item \<Rightarrow> draft_claim" where
  "item_claim i item = \<lparr>dc_id = ''claim_'' @ show_nat i, dc_text = text_found @ ci_title item @ text_stop,
     dc_citation_ids = map ct_id (item_citations i item), dc_important = True\<rparr>"

definition evidence_first :: "context_bundle \<Rightarrow> draft_answer" where
  "evidence_first context =
     (let numbered = enumerate 1 (cb_items context);
          claims = map (\<lambda>(i, item). item_claim i item) numbered
      in \<lparr>da_answer = (if claims \<noteq> [] then join_with [CHR 0x0A] (map dc_text claims) else text_no_evidence),
           da_claims = claims, da_citations = concat (map (\<lambda>(i, item). item_citations i item) numbered),
           da_confidence = (if claims \<noteq> [] then min (9 / 10) (4 / 10 + of_nat (length claims) / 10) else 0)\<rparr>)"

text \<open>
  \<open>ConsentAwareAnswerGenerator\<close>: \<open>provider\<close> is absent, or what its \<open>generate\<close> did with this
  context (\<open>None\<close>: it raised).
\<close>

definition generate_draft :: "draft_answer option option \<Rightarrow> bool \<Rightarrow> context_bundle \<Rightarrow> draft_answer" where
  "generate_draft provider consent context =
     (if \<not> consent then evidence_first context
      else case provider of
          None \<Rightarrow> evidence_first context
        | Some None \<Rightarrow> evidence_first context
        | Some (Some generated) \<Rightarrow>
            generated\<lparr>da_claims := map (\<lambda>c. c\<lparr>dc_important := True\<rparr>) (da_claims generated)\<rparr>)"

section \<open>Citations, claims and the final answer\<close>

text \<open>\<open>lookup\<close>: a later pair with the same key overrides an earlier one.\<close>

definition evidence_pairs :: "context_bundle \<Rightarrow> (context_item \<times> retrieval_evidence) list" where
  "evidence_pairs context = concat (map (\<lambda>item. map (Pair item) (ci_evidence item)) (cb_items context))"

definition lookup_evidence :: "context_bundle \<Rightarrow> string \<Rightarrow> string \<Rightarrow> (context_item \<times> retrieval_evidence) option" where
  "lookup_evidence context context_id evidence_id =
     List.find (\<lambda>(item, ev). ci_id item = context_id \<and> re_id ev = evidence_id) (rev (evidence_pairs context))"

definition check_citation :: "context_bundle \<Rightarrow> citation \<Rightarrow> citation option" where
  "check_citation context c =
     (case lookup_evidence context (ct_context_id c) (ct_evidence_id c) of
        None \<Rightarrow> None
      | Some (item, ev) \<Rightarrow> if ct_entity_id c \<noteq> ci_entity_id item then None else Some (cite (ct_id c) item ev))"

definition validate_citations :: "draft_answer \<Rightarrow> context_bundle \<Rightarrow> draft_answer \<times> string list" where
  "validate_citations draft context =
     (let valid = List.map_filter (check_citation context) (da_citations draft);
          invalid = map ct_id (filter (\<lambda>c. check_citation context c = None) (da_citations draft))
      in (draft\<lparr>da_citations := valid,
            da_claims := map (\<lambda>c. c\<lparr>dc_citation_ids := filter (\<lambda>i. i \<in> set (map ct_id valid)) (dc_citation_ids c)\<rparr>)
              (da_claims draft)\<rparr>, invalid))"

definition verify_claim :: "draft_claim \<Rightarrow> validated_claim" where
  "verify_claim c = \<lparr>vc_id = dc_id c, vc_text = dc_text c, vc_citation_ids = dc_citation_ids c,
     vc_important = dc_important c, vc_support = (if dc_citation_ids c \<noteq> [] then Supported else Unsupported)\<rparr>"

definition verify_claims :: "draft_answer \<Rightarrow> validated_answer" where
  "verify_claims draft =
     (let claims = map verify_claim (da_claims draft) in
      \<lparr>va_answer = da_answer draft, va_claims = claims, va_citations = da_citations draft,
        va_confidence = (if list_ex (\<lambda>c. vc_support c = Supported) claims then da_confidence draft
          else min (da_confidence draft) (2 / 10)),
        va_warnings = []\<rparr>)"

definition finalize :: "validated_answer \<Rightarrow> agent_answer" where
  "finalize v =
     (let texts = (\<lambda>s. map vc_text (filter (\<lambda>c. vc_support c = s) (va_claims v)));
          visible = texts Supported @ map (\<lambda>t. text_partial @ t) (texts PartiallySupported)
      in \<lparr>aa_answer = (if visible \<noteq> [] then join_with [CHR 0x0A] visible else text_evidence_only),
           aa_claims = va_claims v, aa_citations = va_citations v, aa_unsupported = texts Unsupported,
           aa_confidence = (if visible = [] then min (va_confidence v) (2 / 10) else va_confidence v),
           aa_evidence_only = (visible = [])\<rparr>)"

end
