(* ===== verification/Ra_Graph.thy ===== *)
theory Ra_Graph
  imports Ra_Answer
begin

text \<open>
  The research agent as a state graph (\<open>agents/research/graph.py\<close>): the state, one function per
  node, the routing functions and the edges.  A run is a list of super-steps; each takes an
  environment with what the outside contributes to that step: whether a cancellation is
  pending, what the tool, the model provider and the context service do, the clock.  The graph
  library merges the dictionary a node returns into the state; a raised exception ends the run.
  The timestamps of the state and the constant token usage are left out.
\<close>

section \<open>State\<close>

record research_state =
  g_run_id :: string
  g_repo_id :: string
  g_index_version_id :: string
  g_query :: string
  g_query_type :: "query_type option"
  g_route :: research_route
  g_route_reason :: "string list"
  g_escalated :: bool
  g_plan :: "research_plan option"
  g_pending :: "research_plan option"
  g_plan_history :: "string list"
  g_step_index :: nat
  g_runtimes :: "step_runtime list"
  g_resolved :: arguments
  g_resolution_failed :: bool
  g_observations :: "observation list"
  g_evidence_ids :: "string list"
  g_seed_ids :: "string list"
  g_entity_ids :: "string list"
  g_assessment :: "assessment option"
  g_sufficient :: bool
  g_missing :: "string list"
  g_context :: "context_bundle option"
  g_draft :: "draft_answer option"
  g_validated :: "validated_answer option"
  g_answer :: "agent_answer option"
  g_confidence :: "rat option"
  g_answer_enabled :: bool
  g_consent :: bool
  g_counts :: budget_counts
  g_status :: run_status
  g_stop_reason :: "string option"
  g_errors :: "agent_error list"
  g_cancel_requested :: bool
  g_resume_count :: nat

text \<open>
  The table \<open>research_plan_versions\<close> travels with the state: the run starts with the rows of the
  other runs.  A superseded row has its reason; the rows of the run that inserts one are otherwise
  active.  The hash of the planner's request and the time of creation are left out.
\<close>

record plan_row =
  pr_plan_id :: string
  pr_run_id :: string
  pr_version :: string
  pr_plan :: research_plan
  pr_active :: bool
  pr_replaced_reason :: "string option"

record run_world = research_state +
  w_plan_rows :: "plan_row list"

record run_request =
  rq_query :: string
  rq_query_type :: "query_type option"
  rq_answer_enabled :: bool
  rq_consent :: bool
  rq_seed_ids :: "string list"

definition initial_research_state ::
    "run_scope \<Rightarrow> nat \<Rightarrow> run_request \<Rightarrow> plan_row list \<Rightarrow> run_world" where
  "initial_research_state scope resume_count rq plan_rows = (case scope of (run_id, repo_id, index_version_id) \<Rightarrow>
     \<lparr>g_run_id = run_id, g_repo_id = repo_id, g_index_version_id = index_version_id, g_query = rq_query rq,
       g_query_type = rq_query_type rq, g_route = Direct, g_route_reason = [], g_escalated = False,
       g_plan = None, g_pending = None, g_plan_history = [], g_step_index = 0, g_runtimes = [],
       g_resolved = [], g_resolution_failed = False, g_observations = [], g_evidence_ids = rq_seed_ids rq,
       g_seed_ids = rq_seed_ids rq, g_entity_ids = [], g_assessment = None, g_sufficient = False,
       g_missing = [], g_context = None, g_draft = None, g_validated = None, g_answer = None,
       g_confidence = None, g_answer_enabled = rq_answer_enabled rq, g_consent = rq_consent rq,
       g_counts = \<lparr>tool_call_count = 0, tool_reuse_count = 0, replan_count = 0, tool_failure_count = 0\<rparr>,
       g_status = RQueued, g_stop_reason = None, g_errors = [], g_cancel_requested = False,
       g_resume_count = resume_count, w_plan_rows = plan_rows\<rparr>)"

text \<open>The structured planner with the validator it was given, or the rule-based one.\<close>

datatype planner = RulePlanner | StructuredPlanner bool

record graph_runtime =
  gr_registry :: registry
  gr_limits :: budget_limits
  gr_profiler :: query_profiler
  gr_planner :: planner

record step_env =
  e_cancelled :: bool
  e_tool :: tool_env
  e_uuid :: string
  e_now :: time
  e_plan_reply :: "research_plan option"
  e_provider :: "draft_answer option option"
  e_context :: "string list \<Rightarrow> string list \<Rightarrow> string list \<Rightarrow> nat \<Rightarrow> exn + context_bundle"

section \<open>Updates shared by the nodes\<close>

definition run_cancelled :: "step_env \<Rightarrow> run_world \<Rightarrow> bool" where
  "run_cancelled env w \<longleftrightarrow> g_cancel_requested w \<or> e_cancelled env"

definition cancel_update :: "run_world \<Rightarrow> run_world" where
  "cancel_update w = w\<lparr>g_cancel_requested := True, g_status := RCancelled, g_stop_reason := Some ''cancel_requested''\<rparr>"

definition failure :: "string \<Rightarrow> run_world \<Rightarrow> run_world" where
  "failure code w = w\<lparr>g_status := RFailed, g_stop_reason := Some code, g_errors := [agent_error code]\<rparr>"

definition current_step :: "run_world \<Rightarrow> (research_plan \<times> plan_step) option" where
  "current_step w =
     (case g_plan w of
        None \<Rightarrow> None
      | Some plan \<Rightarrow> if length (rp_steps plan) \<le> g_step_index w then None
                     else Some (plan, rp_steps plan ! g_step_index w))"

fun replace_runtime :: "step_runtime \<Rightarrow> step_runtime list \<Rightarrow> step_runtime list" where
  "replace_runtime r [] = [r]"
| "replace_runtime r (x # xs) =
     (if rt_step_id x = rt_step_id r \<and> rt_plan_version x = rt_plan_version r then r # xs
      else x # replace_runtime r xs)"

definition failed_step_update :: "time \<Rightarrow> plan_step \<Rightarrow> string \<Rightarrow> string \<Rightarrow> run_world \<Rightarrow> run_world" where
  "failed_step_update now step version code w = w\<lparr>
     g_runtimes := replace_runtime ((new_step_runtime (ps_id step) version SFailed)
       \<lparr>rt_error_code := Some code, rt_finished_at := Some now\<rparr>) (g_runtimes w),
     g_step_index := g_step_index w + 1,
     g_counts := (g_counts w)\<lparr>tool_failure_count := tool_failure_count (g_counts w) + 1\<rparr>,
     g_errors := g_errors w @ [agent_error code],
     g_resolution_failed := True, g_status := RExecuting\<rparr>"

definition scope_of :: "run_world \<Rightarrow> run_scope" where
  "scope_of w = (g_run_id w, g_repo_id w, g_index_version_id w)"

definition resolve_in :: "graph_runtime \<Rightarrow> plan_step \<Rightarrow> string \<Rightarrow> run_world \<Rightarrow> exn + resolved_arguments" where
  "resolve_in rt step version w = resolve_step (gr_registry rt) step (g_observations w) (Some version)"

text \<open>\<open>_execute_step\<close> with the arguments already resolved.\<close>

definition execute_resolved ::
    "graph_runtime \<Rightarrow> step_env \<Rightarrow> plan_step \<Rightarrow> string \<Rightarrow> resolved_arguments \<Rightarrow> run_world \<Rightarrow> exn + run_world" where
  "execute_resolved rt env step version resolved w =
     (case execute_tool_step (gr_registry rt) (gr_limits rt) (e_tool env) (e_uuid env) (e_now env) (scope_of w)
             version step resolved (g_observations w) (tool_call_count (g_counts w)) of
        Inl e \<Rightarrow> Inl e
      | Inr out \<Rightarrow> Inr (w\<lparr>
          g_observations := g_observations w @ [so_observation out],
          g_runtimes := replace_runtime (so_runtime out) (g_runtimes w),
          g_step_index := (if version \<noteq> ''direct'' then g_step_index w + 1 else 0),
          g_counts := (g_counts w)\<lparr>tool_call_count := tool_call_count (g_counts w) + so_tool_calls out,
            tool_reuse_count := tool_reuse_count (g_counts w) + so_reused_calls out,
            tool_failure_count := tool_failure_count (g_counts w) + so_failures out\<rparr>,
          g_resolved := ra_model resolved,
          g_resolution_failed := False\<rparr>))"

section \<open>Saved plans\<close>

text \<open>
  \<open>ResearchRunStore.save_plan\<close>: two plans are the same content when their canonical JSON agrees,
  which forgets the order of the literal arguments.  A plan id that another run uses is not
  inserted (\<open>ON CONFLICT(plan_id) DO NOTHING\<close>, which SQLite checks before the other constraints); a
  second plan of the run with the same version violates \<open>UNIQUE(run_id, plan_version)\<close>.
\<close>

definition plan_content :: "research_plan \<Rightarrow> research_plan" where
  "plan_content p = p\<lparr>rp_steps := map (\<lambda>s. s\<lparr>ps_literals :=
     (case sort_keys (JObj (ps_literals s)) of JObj kvs \<Rightarrow> kvs | _ \<Rightarrow> [])\<rparr>) (rp_steps p)\<rparr>"

definition supersede :: "string \<Rightarrow> string option \<Rightarrow> plan_row \<Rightarrow> plan_row" where
  "supersede run_id reason r =
     (if pr_run_id r = run_id \<and> pr_active r then r\<lparr>pr_active := False, pr_replaced_reason := reason\<rparr> else r)"

definition save_plan ::
    "string \<Rightarrow> research_plan \<Rightarrow> string option \<Rightarrow> plan_row list \<Rightarrow> exn + plan_row list" where
  "save_plan run_id plan replaced_reason rows =
     (case find_by pr_plan_id (rp_id plan) (filter (\<lambda>r. pr_run_id r = run_id) rows) of
        Some r \<Rightarrow> if plan_content (pr_plan r) \<noteq> plan_content plan
                  then Inl (ResearchRunStoreError ''plan_id_conflict'') else Inr rows
      | None \<Rightarrow>
          (let rows' = map (supersede run_id replaced_reason) rows in
           if rp_id plan \<in> pr_plan_id ` set rows then Inr rows'
           else if (run_id, rp_version plan) \<in> (\<lambda>r. (pr_run_id r, pr_version r)) ` set rows then Inl IntegrityError
           else Inr (rows' @ [\<lparr>pr_plan_id = rp_id plan, pr_run_id = run_id, pr_version = rp_version plan,
             pr_plan = plan, pr_active = True, pr_replaced_reason = None\<rparr>])))"

section \<open>Nodes\<close>

datatype node =
    RouteQuery | DirectRetrieve | CreatePlan | ValidatePlan | ResolveStepArguments | MarkStepRunning
  | ExecuteStep | AssessEvidence | Replan | MarkRemainingStepsSkipped | BuildContext | GenerateAnswer
  | ValidateCitations | VerifyClaims | FinalizeAnswer | FinishPartial

definition unless_cancelled :: "step_env \<Rightarrow> run_world \<Rightarrow> exn + run_world \<Rightarrow> exn + run_world" where
  "unless_cancelled env w body = (if run_cancelled env w then Inr (cancel_update w) else body)"

definition node_route_query :: "graph_runtime \<Rightarrow> step_env \<Rightarrow> run_world \<Rightarrow> exn + run_world" where
  "node_route_query rt env w = unless_cancelled env w
     (let d = route_query_text (gr_profiler rt) (g_query w) (g_query_type w) in
      Inr (w\<lparr>g_query_type := Some (rd_query_type d), g_route := rd_route d, g_route_reason := rd_reasons d,
        g_status := RRouting\<rparr>))"

definition direct_step :: "string \<Rightarrow> query_type \<Rightarrow> plan_step" where
  "direct_step query qt = \<lparr>ps_id = ''direct_retrieve'', ps_ordinal = 0, ps_goal = ''Retrieve direct evidence.'',
     ps_tool = SearchHybrid,
     ps_literals = [(''query'', JStr query), (''query_type'', JStr (query_type_name qt)), (''top_k'', JInt 10)],
     ps_bindings = [], ps_dependencies = [], ps_success_criteria = [''Return direct repository evidence.''],
     ps_expected = [], ps_max_results = 10\<rparr>"

definition node_direct_retrieve :: "graph_runtime \<Rightarrow> step_env \<Rightarrow> run_world \<Rightarrow> exn + run_world" where
  "node_direct_retrieve rt env w = unless_cancelled env w
     (case g_query_type w of
        None \<Rightarrow> Inl KeyError
      | Some qt \<Rightarrow>
          (case resolve_in rt (direct_step (g_query w) qt) ''direct'' w of
             Inl e \<Rightarrow> Inl e
           | Inr resolved \<Rightarrow>
               (case execute_resolved rt env (direct_step (g_query w) qt) ''direct'' resolved w of
                  Inl e \<Rightarrow> Inl e
                | Inr w' \<Rightarrow> Inr (w'\<lparr>g_status := RRetrieving\<rparr>))))"

definition planned :: "graph_runtime \<Rightarrow> step_env \<Rightarrow> run_world \<Rightarrow> query_type \<Rightarrow> nat \<Rightarrow> exn + research_plan" where
  "planned rt env w qt version =
     (case gr_planner rt of
        RulePlanner \<Rightarrow> rule_create_plan (g_query w) qt version
      | StructuredPlanner available \<Rightarrow> structured_create_plan available
          (Some (validate_plan (gr_registry rt) (gr_limits rt))) (g_consent w) (e_plan_reply env)
          (g_query w) qt version)"

definition node_create_plan :: "graph_runtime \<Rightarrow> step_env \<Rightarrow> run_world \<Rightarrow> exn + run_world" where
  "node_create_plan rt env w = unless_cancelled env w
     (case g_query_type w of
        None \<Rightarrow> Inl KeyError
      | Some qt \<Rightarrow>
          (case planned rt env w qt (replan_count (g_counts w) + 1) of
             Inl e \<Rightarrow> Inl e
           | Inr p \<Rightarrow>
               (let plan = p\<lparr>rp_id := ''plan_'' @ take 24 (stable_hash (join_nul [g_run_id w, rp_id p]))\<rparr> in
                case save_plan (g_run_id w) plan (if g_plan w = None then None else Some ''replan'') (w_plan_rows w) of
                  Inl e \<Rightarrow> Inl e
                | Inr rows \<Rightarrow> Inr (w\<lparr>w_plan_rows := rows, g_pending := Some plan,
                    g_plan_history := (if rp_id plan \<in> set (g_plan_history w) then g_plan_history w
                      else g_plan_history w @ [rp_id plan]),
                    g_route := Planned,
                    g_status := (if g_plan w = None then RPlanning else RReplanning)\<rparr>))))"

definition node_validate_plan :: "graph_runtime \<Rightarrow> step_env \<Rightarrow> run_world \<Rightarrow> exn + run_world" where
  "node_validate_plan rt env w = unless_cancelled env w
     (case g_pending w of
        None \<Rightarrow> Inr (failure ''plan_missing'' w)
      | Some pending \<Rightarrow>
          (case validate_plan (gr_registry rt) (gr_limits rt) pending of
             Inl (PlanValidationError code) \<Rightarrow> Inr (failure code w)
           | Inl e \<Rightarrow> Inl e
           | Inr plan \<Rightarrow> Inr (w\<lparr>g_plan := Some plan, g_pending := None, g_step_index := 0,
               g_runtimes := filter (\<lambda>r. rt_plan_version r \<noteq> rp_version plan) (g_runtimes w) @
                 map (\<lambda>s. new_step_runtime (ps_id s) (rp_version plan) SPending) (rp_steps plan),
               g_status := RPlanning\<rparr>)))"

definition resolution_error_code :: "exn \<Rightarrow> string" where
  "resolution_error_code e =
     (case e of ArgumentResolutionError code \<Rightarrow> code | _ \<Rightarrow> ''step_argument_resolution_failed'')"

definition node_resolve :: "graph_runtime \<Rightarrow> step_env \<Rightarrow> run_world \<Rightarrow> exn + run_world" where
  "node_resolve rt env w = unless_cancelled env w
     (case current_step w of
        None \<Rightarrow> Inr (failure ''plan_step_missing'' w)
      | Some (plan, step) \<Rightarrow>
          (case resolve_in rt step (rp_version plan) w of
             Inl e \<Rightarrow> Inr (failed_step_update (e_now env) step (rp_version plan) (resolution_error_code e) w)
           | Inr resolved \<Rightarrow> Inr (w\<lparr>g_resolved := ra_model resolved, g_resolution_failed := False,
               g_runtimes := replace_runtime (new_step_runtime (ps_id step) (rp_version plan) SResolving) (g_runtimes w),
               g_status := RExecuting\<rparr>)))"

definition node_mark_running :: "step_env \<Rightarrow> run_world \<Rightarrow> exn + run_world" where
  "node_mark_running env w = unless_cancelled env w
     (case current_step w of
        None \<Rightarrow> Inr (failure ''plan_step_missing'' w)
      | Some (plan, step) \<Rightarrow>
          (let started = Option.bind (List.find (\<lambda>r. rt_step_id r = ps_id step \<and> rt_plan_version r = rp_version plan)
                 (g_runtimes w)) rt_started_at
           in Inr (w\<lparr>g_runtimes := replace_runtime ((new_step_runtime (ps_id step) (rp_version plan) SRunning)
                \<lparr>rt_execution_id := Some (step_execution_id (g_run_id w) (rp_version plan) (ps_id step)),
                 rt_started_at := Some (case started of Some t \<Rightarrow> t | None \<Rightarrow> e_now env)\<rparr>) (g_runtimes w),
               g_status := RExecuting\<rparr>)))"

definition node_execute :: "graph_runtime \<Rightarrow> step_env \<Rightarrow> run_world \<Rightarrow> exn + run_world" where
  "node_execute rt env w = unless_cancelled env w
     (case current_step w of
        None \<Rightarrow> Inr (failure ''plan_step_missing'' w)
      | Some (plan, step) \<Rightarrow>
          (case registry_get (ps_tool step) (gr_registry rt) of
             Inl e \<Rightarrow> Inl e
           | Inr spec \<Rightarrow>
               (case ts_validate spec (g_resolved w) of
                  None \<Rightarrow> Inl ValidationError
                | Some model \<Rightarrow>
                    (case resolve_in rt step (rp_version plan) w of
                       Inl e \<Rightarrow> Inl e
                     | Inr resolved \<Rightarrow>
                         if ra_canonical resolved \<noteq> canonical_arguments model
                         then Inr (failure ''resolved_arguments_changed'' w)
                         else (case execute_resolved rt env step (rp_version plan) resolved w of
                             Inl (AgentBudgetExceeded code) \<Rightarrow> Inr (failure code w)
                           | r \<Rightarrow> r)))))"

definition node_assess :: "graph_runtime \<Rightarrow> step_env \<Rightarrow> run_world \<Rightarrow> exn + run_world" where
  "node_assess rt env w = unless_cancelled env w
     (case g_query_type w of
        None \<Rightarrow> Inl KeyError
      | Some qt \<Rightarrow>
          (let has_remaining = (case g_plan w of None \<Rightarrow> False | Some plan \<Rightarrow> g_step_index w < length (rp_steps plan));
               a = assess qt (g_route w) (g_observations w) has_remaining (g_escalated w)
                     (can_replan (gr_limits rt) (g_counts w))
           in Inr (w\<lparr>g_assessment := Some a, g_sufficient := as_sufficient a, g_missing := as_missing a,
                g_evidence_ids := unique_nonempty (g_evidence_ids w @ as_evidence_ids a),
                g_entity_ids := unique_nonempty (g_entity_ids w @ as_entity_ids a),
                g_status := RAssessing,
                g_escalated := (g_escalated w \<or> as_next_action a = EscalateToPlan)\<rparr>)))"

definition node_replan :: "graph_runtime \<Rightarrow> run_world \<Rightarrow> exn + run_world" where
  "node_replan rt w = Inr
     (if \<not> can_replan (gr_limits rt) (g_counts w)
      then w\<lparr>g_stop_reason := Some ''replan_budget_exhausted'', g_status := RAssessing\<rparr>
      else w\<lparr>g_counts := (g_counts w)\<lparr>replan_count := replan_count (g_counts w) + 1\<rparr>, g_status := RReplanning\<rparr>)"

definition skipped_runtimes :: "time \<Rightarrow> research_plan \<Rightarrow> nat \<Rightarrow> step_runtime list \<Rightarrow> step_runtime option list" where
  "skipped_runtimes now plan current runtimes =
     map (\<lambda>(i, s). if current \<le> i
         then Some ((new_step_runtime (ps_id s) (rp_version plan) SSkipped)
           \<lparr>rt_skip_reason := Some ''evidence_sufficient'', rt_finished_at := Some now\<rparr>)
         else List.find (\<lambda>r. rt_plan_version r = rp_version plan \<and> rt_step_id r = ps_id s) (rev runtimes))
       (enumerate 0 (rp_steps plan))"

definition node_skip_remaining :: "step_env \<Rightarrow> run_world \<Rightarrow> exn + run_world" where
  "node_skip_remaining env w =
     (case g_plan w of
        None \<Rightarrow> Inr w
      | Some plan \<Rightarrow>
          (let rts = skipped_runtimes (e_now env) plan (g_step_index w) (g_runtimes w) in
           if None \<in> set rts then Inl KeyError
           else Inr (w\<lparr>g_runtimes := filter (\<lambda>r. rt_plan_version r \<noteq> rp_version plan) (g_runtimes w) @ map the rts\<rparr>)))"

definition context_for :: "graph_runtime \<Rightarrow> step_env \<Rightarrow> run_world \<Rightarrow> exn + context_bundle" where
  "context_for rt env w =
     (let obs = filter (\<lambda>ob. ob_status ob = OSuccess) (g_observations w) in
      e_context env (unique_nonempty (concat (map ob_chunk_ids obs))) (unique_nonempty (concat (map ob_entity_ids obs)))
        (map ob_summary (filter (\<lambda>ob. ob_edge_ids ob \<noteq> [] \<and> ob_summary ob \<noteq> []) obs)) (max_context_items (gr_limits rt)))"

definition node_build_context :: "graph_runtime \<Rightarrow> step_env \<Rightarrow> run_world \<Rightarrow> exn + run_world" where
  "node_build_context rt env w = unless_cancelled env w
     (case context_for rt env w of
        Inl e \<Rightarrow> Inl e
      | Inr context \<Rightarrow> Inr (w\<lparr>g_context := Some context, g_status := RBuildingContext\<rparr>))"

definition node_generate :: "step_env \<Rightarrow> run_world \<Rightarrow> exn + run_world" where
  "node_generate env w = unless_cancelled env w
     (case g_context w of
        None \<Rightarrow> Inr (failure ''context_missing'' w)
      | Some context \<Rightarrow>
          if \<not> g_answer_enabled w
          then Inr (w\<lparr>g_answer := Some \<lparr>aa_answer = [], aa_claims = [], aa_citations = [], aa_unsupported = [],
                 aa_confidence = (case g_confidence w of None \<Rightarrow> 0 | Some c \<Rightarrow> c), aa_evidence_only = True\<rparr>,
               g_status := RGenerating\<rparr>)
          else Inr (w\<lparr>g_draft := Some (generate_draft (e_provider env) (g_consent w) context), g_status := RGenerating\<rparr>))"

definition node_validate_citations :: "run_world \<Rightarrow> exn + run_world" where
  "node_validate_citations w =
     (if \<not> g_answer_enabled w then Inr (w\<lparr>g_status := RValidating\<rparr>)
      else case (g_draft w, g_context w) of
          (Some draft, Some context) \<Rightarrow>
            (let (answer, invalid) = validate_citations draft context in
             Inr (w\<lparr>g_draft := Some answer,
               g_errors := (if invalid \<noteq> [] then g_errors w @
                 [\<lparr>ae_error_code = ''invalid_citations_removed'', ae_component = ''citation_validator'',
                   ae_retryable = False, ae_context = [(''citation_ids'', JArr (map JStr invalid))]\<rparr>] else g_errors w),
               g_status := RValidating\<rparr>))
        | _ \<Rightarrow> Inl KeyError)"

definition node_verify_claims :: "run_world \<Rightarrow> exn + run_world" where
  "node_verify_claims w =
     (if \<not> g_answer_enabled w then Inr (w\<lparr>g_status := RVerifying\<rparr>)
      else case g_draft w of
          None \<Rightarrow> Inl KeyError
        | Some draft \<Rightarrow> Inr (w\<lparr>g_validated := Some (verify_claims draft), g_status := RVerifying\<rparr>))"

text \<open>\<open>finalize_answer\<close> from the answer on: without one it reads the assessment, which may be missing.\<close>

definition finalize_with :: "agent_answer option \<Rightarrow> run_world \<Rightarrow> exn + run_world" where
  "finalize_with answer w =
     (let terminal = (if g_sufficient w \<and> \<not> (case answer of None \<Rightarrow> False
              | Some a \<Rightarrow> aa_evidence_only a \<and> g_answer_enabled w) then RCompleted else RPartial)
      in case (case answer of Some a \<Rightarrow> Some (aa_confidence a) | None \<Rightarrow> map_option as_confidence (g_assessment w)) of
           None \<Rightarrow> Inl (PlainError None ''AttributeError'')
         | Some confidence \<Rightarrow> Inr (w\<lparr>g_answer := answer, g_confidence := Some confidence, g_status := terminal,
             g_stop_reason := Some (if terminal = RCompleted then ''completed'' else ''insufficient_evidence'')\<rparr>))"

definition node_finalize :: "run_world \<Rightarrow> exn + run_world" where
  "node_finalize w =
     (if \<not> g_answer_enabled w then finalize_with (g_answer w) w
      else case g_validated w of None \<Rightarrow> Inl KeyError | Some v \<Rightarrow> finalize_with (Some (finalize v)) w)"

definition text_budget_end :: string where
  "text_budget_end = utf8_text [231, 142, 176, 230, 156, 137, 232, 175, 129, 230, 141, 174, 228, 184, 141,
     232, 182, 179, 239, 188, 140, 231, 160, 148, 231, 169, 182, 232, 191, 144, 232, 161, 140, 229, 183, 178,
     229, 156, 168, 233, 162, 132, 231, 174, 151, 232, 190, 185, 231, 149, 140, 229, 134, 133, 231, 187, 147,
     230, 157, 159, 227, 128, 130]"

definition node_finish_partial :: "graph_runtime \<Rightarrow> step_env \<Rightarrow> run_world \<Rightarrow> exn + run_world" where
  "node_finish_partial rt env w =
     (case (case g_context w of Some c \<Rightarrow> Inr c | None \<Rightarrow> context_for rt env w) of
        Inl e \<Rightarrow> Inl e
      | Inr context \<Rightarrow>
          (let draft = (if g_answer_enabled w \<and> cb_items context \<noteq> []
               then Some (fst (validate_citations (generate_draft (e_provider env) (g_consent w) context) context)) else None);
               validated = map_option verify_claims draft;
               answer = (case validated of Some v \<Rightarrow> finalize v | None \<Rightarrow>
                 \<lparr>aa_answer = text_budget_end, aa_claims = [], aa_citations = [], aa_unsupported = [],
                   aa_confidence = (case g_assessment w of None \<Rightarrow> 0 | Some a \<Rightarrow> as_confidence a),
                   aa_evidence_only = True\<rparr>)
           in Inr (w\<lparr>g_context := Some context, g_draft := draft, g_validated := validated, g_answer := Some answer,
                g_status := RPartial,
                g_stop_reason := Some (case g_stop_reason w of Some r \<Rightarrow> if r \<noteq> [] then r else ''insufficient_evidence''
                  | None \<Rightarrow> ''insufficient_evidence'')\<rparr>)))"

primrec run_node :: "graph_runtime \<Rightarrow> step_env \<Rightarrow> node \<Rightarrow> run_world \<Rightarrow> exn + run_world" where
  "run_node rt env RouteQuery w = node_route_query rt env w"
| "run_node rt env DirectRetrieve w = node_direct_retrieve rt env w"
| "run_node rt env CreatePlan w = node_create_plan rt env w"
| "run_node rt env ValidatePlan w = node_validate_plan rt env w"
| "run_node rt env ResolveStepArguments w = node_resolve rt env w"
| "run_node rt env MarkStepRunning w = node_mark_running env w"
| "run_node rt env ExecuteStep w = node_execute rt env w"
| "run_node rt env AssessEvidence w = node_assess rt env w"
| "run_node rt env Replan w = node_replan rt w"
| "run_node rt env MarkRemainingStepsSkipped w = node_skip_remaining env w"
| "run_node rt env BuildContext w = node_build_context rt env w"
| "run_node rt env GenerateAnswer w = node_generate env w"
| "run_node rt env ValidateCitations w = node_validate_citations w"
| "run_node rt env VerifyClaims w = node_verify_claims w"
| "run_node rt env FinalizeAnswer w = node_finalize w"
| "run_node rt env FinishPartial w = node_finish_partial rt env w"

section \<open>Edges\<close>

text \<open>The successor of a node in the state it left; \<open>Inr None\<close> is \<open>END\<close>.\<close>

definition route_after_router :: "run_world \<Rightarrow> node option" where
  "route_after_router w =
     (if g_status w \<in> {RCancelled, RFailed} then None
      else Some (if g_route w = Direct then DirectRetrieve else CreatePlan))"

definition route_after_validation :: "run_world \<Rightarrow> node option" where
  "route_after_validation w =
     (if g_status w = RCancelled then None
      else Some (if g_status w = RFailed then FinishPartial else ResolveStepArguments))"

definition route_after_resolution :: "run_world \<Rightarrow> node option" where
  "route_after_resolution w =
     (if g_status w = RCancelled then None
      else Some (if g_status w = RFailed \<or> g_resolution_failed w then AssessEvidence else MarkStepRunning))"

definition route_after_assessment :: "run_world \<Rightarrow> exn + node option" where
  "route_after_assessment w =
     (if g_status w = RCancelled then Inr None
      else if g_status w = RFailed then Inr (Some FinishPartial)
      else case g_assessment w of
          None \<Rightarrow> Inl KeyError
        | Some a \<Rightarrow> Inr (Some (case as_next_action a of
            BuildContextAction \<Rightarrow> MarkRemainingStepsSkipped
          | ResolveNext \<Rightarrow> ResolveStepArguments
          | EscalateToPlan \<Rightarrow> CreatePlan
          | ReplanAction \<Rightarrow> Replan
          | PartialAction \<Rightarrow> FinishPartial)))"

primrec next_node :: "node \<Rightarrow> run_world \<Rightarrow> exn + node option" where
  "next_node RouteQuery w = Inr (route_after_router w)"
| "next_node DirectRetrieve w = Inr (Some AssessEvidence)"
| "next_node CreatePlan w = Inr (Some ValidatePlan)"
| "next_node ValidatePlan w = Inr (route_after_validation w)"
| "next_node ResolveStepArguments w = Inr (route_after_resolution w)"
| "next_node MarkStepRunning w = Inr (Some ExecuteStep)"
| "next_node ExecuteStep w = Inr (Some AssessEvidence)"
| "next_node AssessEvidence w = route_after_assessment w"
| "next_node Replan w = Inr (Some CreatePlan)"
| "next_node MarkRemainingStepsSkipped w = Inr (Some BuildContext)"
| "next_node BuildContext w = Inr (Some GenerateAnswer)"
| "next_node GenerateAnswer w = Inr (Some ValidateCitations)"
| "next_node ValidateCitations w = Inr (Some VerifyClaims)"
| "next_node VerifyClaims w = Inr (Some FinalizeAnswer)"
| "next_node FinalizeAnswer w = Inr None"
| "next_node FinishPartial w = Inr None"

datatype run_point = At node run_world | Ended run_world | Raised exn run_world

fun graph_step :: "graph_runtime \<Rightarrow> step_env \<Rightarrow> run_point \<Rightarrow> run_point" where
  "graph_step rt env (At n w) =
     (case run_node rt env n w of
        Inl e \<Rightarrow> Raised e w
      | Inr w' \<Rightarrow> (case next_node n w' of
            Inl e \<Rightarrow> Raised e w'
          | Inr None \<Rightarrow> Ended w'
          | Inr (Some m) \<Rightarrow> At m w'))"
| "graph_step rt env p = p"

definition graph_run :: "graph_runtime \<Rightarrow> step_env list \<Rightarrow> run_point \<Rightarrow> run_point" where
  "graph_run rt envs p = fold (graph_step rt) envs p"

definition start_run :: "run_scope \<Rightarrow> nat \<Rightarrow> run_request \<Rightarrow> plan_row list \<Rightarrow> run_point" where
  "start_run scope resume_count rq plan_rows = At RouteQuery (initial_research_state scope resume_count rq plan_rows)"

end
