(* ===== verification/Ra_Term.thy ===== *)
theory Ra_Term
  imports Ra_Graph
begin

text \<open>
  Every run of the research graph ends, provided the tool budget covers the plans: the measure of a
  point of the run, the invariant that keeps the budget from running out in the middle of a plan, and
  their preservation by each node.
\<close>

section \<open>What is assumed of planner and tools\<close>

text \<open>Every plan the planner hands out has between one and \<open>N\<close> steps, and its version is not
  the one that stands for the direct route.\<close>

definition plans_within :: "graph_runtime \<Rightarrow> nat \<Rightarrow> bool" where
  "plans_within rt N \<longleftrightarrow> (\<forall>env w qt version p. planned rt env w qt version = Inr p \<longrightarrow>
     1 \<le> length (rp_steps p) \<and> length (rp_steps p) \<le> N \<and> rp_version p \<noteq> ''direct'')"

text \<open>Validating the dump of a validated input model gives the same dump again.\<close>

definition validation_stable :: "registry \<Rightarrow> bool" where
  "validation_stable reg \<longleftrightarrow> (\<forall>t spec v m. reg t = Some spec \<and> ts_validate spec v = Some m \<longrightarrow> ts_validate spec m = Some m)"

lemma rule_plan_length: "1 \<le> length (plan_steps_for q qt) \<and> length (plan_steps_for q qt) \<le> 2"
  by (simp add: plan_steps_for_def Let_def)

lemma show_nat_digits: "c \<in> set (show_nat n) \<Longrightarrow> c \<in> digit_char ` {..<10}"
  by (induction n rule: show_nat.induct) (subst (asm) show_nat.simps, auto split: if_splits)

lemma show_nat_not_direct [simp]: "show_nat n \<noteq> ''direct''"
proof
  assume "show_nat n = ''direct''"
  then have "CHR ''d'' \<in> digit_char ` {..<10}" using show_nat_digits [of "CHR ''d''" n] by simp
  then obtain k where k: "k \<in> set [0..<10]" "digit_char k = CHR ''d''" by auto
  have "list_all (\<lambda>k. digit_char k \<noteq> CHR ''d'') [0..<10]" by code_simp
  then have "digit_char k \<noteq> CHR ''d''" using k(1) unfolding list_all_iff by (rule bspec)
  with k(2) show False by simp
qed

lemma rule_planner_within: "gr_planner rt = RulePlanner \<Longrightarrow> plans_within rt 2"
  using rule_plan_length unfolding plans_within_def planned_def
  by (auto simp: rule_create_plan_def rule_plan_def split: if_splits)

section \<open>Measure and invariant\<close>

definition replans_left :: "graph_runtime \<Rightarrow> run_world \<Rightarrow> nat" where
  "replans_left rt w = max_replan_count (gr_limits rt) - replan_count (g_counts w)"

definition steps_left :: "run_world \<Rightarrow> nat" where
  "steps_left w = (case g_plan w of None \<Rightarrow> 0 | Some p \<Rightarrow> length (rp_steps p) - g_step_index w)"

definition may_escalate :: "run_world \<Rightarrow> bool" where
  "may_escalate w \<longleftrightarrow> g_route w = Direct \<and> \<not> g_escalated w"

primrec tail_rank :: "node \<Rightarrow> nat" where
  "tail_rank FinalizeAnswer = 1"
| "tail_rank VerifyClaims = 2"
| "tail_rank ValidateCitations = 3"
| "tail_rank GenerateAnswer = 4"
| "tail_rank BuildContext = 5"
| "tail_rank MarkRemainingStepsSkipped = 6"
| "tail_rank FinishPartial = 1"
| "tail_rank AssessEvidence = 1"
| "tail_rank ExecuteStep = 2"
| "tail_rank MarkStepRunning = 3"
| "tail_rank ResolveStepArguments = 1"
| "tail_rank ValidatePlan = 1"
| "tail_rank CreatePlan = 2"
| "tail_rank Replan = 3"
| "tail_rank DirectRetrieve = 2"
| "tail_rank RouteQuery = 1"

text \<open>\<open>tail_rank\<close> bounds the steps left once a cancellation was seen, or once the answer is built.\<close>

definition work_left :: "graph_runtime \<Rightarrow> nat \<Rightarrow> node \<Rightarrow> run_world \<Rightarrow> nat" where
  "work_left rt N n w =
     (let replans = (\<lambda>r. r * (4 * N + 3)); r = replans_left rt w in
      case n of
        RouteQuery \<Rightarrow> 11 + 4 * N + replans r
      | DirectRetrieve \<Rightarrow> 10 + 4 * N + replans r
      | CreatePlan \<Rightarrow> 8 + 4 * N + replans r
      | ValidatePlan \<Rightarrow> 7 + 4 * N + replans r
      | ResolveStepArguments \<Rightarrow> 6 + 4 * steps_left w + replans r
      | MarkStepRunning \<Rightarrow> 5 + 4 * steps_left w + replans r
      | ExecuteStep \<Rightarrow> 4 + 4 * steps_left w + replans r
      | AssessEvidence \<Rightarrow> 7 + 4 * steps_left w + replans r + (if may_escalate w then 4 * N + 2 else 0)
      | Replan \<Rightarrow> 9 + 4 * N + replans (r - 1)
      | _ \<Rightarrow> tail_rank n)"

definition rank :: "graph_runtime \<Rightarrow> nat \<Rightarrow> node \<Rightarrow> run_world \<Rightarrow> nat" where
  "rank rt N n w = (if g_cancel_requested w then tail_rank n else work_left rt N n w)"

text \<open>How many tool calls the rest of the run can still need.\<close>

definition calls_left :: "graph_runtime \<Rightarrow> nat \<Rightarrow> node \<Rightarrow> run_world \<Rightarrow> nat" where
  "calls_left rt N n w =
     (let r = replans_left rt w in
      case n of
        RouteQuery \<Rightarrow> 1 + N + r * N
      | DirectRetrieve \<Rightarrow> 1 + N + r * N
      | CreatePlan \<Rightarrow> N + r * N
      | ValidatePlan \<Rightarrow> N + r * N
      | ResolveStepArguments \<Rightarrow> steps_left w + r * N
      | MarkStepRunning \<Rightarrow> steps_left w + r * N
      | ExecuteStep \<Rightarrow> steps_left w + r * N
      | AssessEvidence \<Rightarrow> steps_left w + r * N + (if may_escalate w then N else 0)
      | Replan \<Rightarrow> N + (r - 1) * N
      | _ \<Rightarrow> 0)"

definition in_plan :: "nat \<Rightarrow> run_world \<Rightarrow> bool" where
  "in_plan N w \<longleftrightarrow> (\<exists>p. g_plan w = Some p \<and> g_step_index w < length (rp_steps p) \<and> length (rp_steps p) \<le> N
     \<and> rp_version p \<noteq> ''direct'') \<and> g_route w = Planned"

definition arguments_ready :: "graph_runtime \<Rightarrow> run_world \<Rightarrow> bool" where
  "arguments_ready rt w \<longleftrightarrow> (\<exists>p s resolved. current_step w = Some (p, s)
     \<and> resolve_in rt s (rp_version p) w = Inr resolved \<and> g_resolved w = ra_model resolved)"

definition node_ready :: "graph_runtime \<Rightarrow> nat \<Rightarrow> node \<Rightarrow> run_world \<Rightarrow> bool" where
  "node_ready rt N n w =
     (case n of
        RouteQuery \<Rightarrow> g_plan w = None
      | DirectRetrieve \<Rightarrow> g_plan w = None
      | ValidatePlan \<Rightarrow> g_route w = Planned \<and>
          (\<exists>p. g_pending w = Some p \<and> 1 \<le> length (rp_steps p) \<and> length (rp_steps p) \<le> N
             \<and> rp_version p \<noteq> ''direct'')
      | ResolveStepArguments \<Rightarrow> in_plan N w
      | MarkStepRunning \<Rightarrow> in_plan N w \<and> arguments_ready rt w
      | ExecuteStep \<Rightarrow> in_plan N w \<and> arguments_ready rt w
      | AssessEvidence \<Rightarrow> g_plan w = None \<or>
          (g_route w = Planned \<and> (\<exists>p. g_plan w = Some p \<and> length (rp_steps p) \<le> N \<and> rp_version p \<noteq> ''direct''))
      | _ \<Rightarrow> True)"

definition run_ready :: "graph_runtime \<Rightarrow> nat \<Rightarrow> node \<Rightarrow> run_world \<Rightarrow> bool" where
  "run_ready rt N n w \<longleftrightarrow> g_cancel_requested w \<or>
     (node_ready rt N n w \<and> tool_call_count (g_counts w) + calls_left rt N n w \<le> max_tool_calls (gr_limits rt))"

text \<open>One step makes progress: the run is over or continues at a ready point of smaller rank.\<close>

definition progress :: "graph_runtime \<Rightarrow> nat \<Rightarrow> nat \<Rightarrow> run_point \<Rightarrow> bool" where
  "progress rt N k p = (case p of At m w \<Rightarrow> run_ready rt N m w \<and> rank rt N m w < k | _ \<Rightarrow> True)"

lemma progress_simps [simp]:
  "progress rt N k (At m w) \<longleftrightarrow> run_ready rt N m w \<and> rank rt N m w < k"
  "progress rt N k (Ended w)" "progress rt N k (Raised e w)"
  by (simp_all add: progress_def)

lemmas rank_defs = rank_def work_left_def calls_left_def node_ready_def run_ready_def replans_left_def
  steps_left_def may_escalate_def

section \<open>Cancelled runs\<close>

lemma cancel_update_simps [simp]:
  "g_cancel_requested (cancel_update w)" "g_status (cancel_update w) = RCancelled"
  by (simp_all add: cancel_update_def)

lemma tail_rank_less: "n \<notin> {FinalizeAnswer, FinishPartial, VerifyClaims, ValidateCitations, GenerateAnswer, BuildContext,
    MarkRemainingStepsSkipped} \<Longrightarrow> 4 \<le> work_left rt N n w"
  by (cases n) (simp_all add: work_left_def Let_def)

text \<open>A node that checks for cancellation and sees one.\<close>

lemma cancelled_step:
  assumes "run_node rt env n w = Inr (cancel_update w)"
    and "n \<in> {RouteQuery, DirectRetrieve, CreatePlan, ValidatePlan, ResolveStepArguments, MarkStepRunning, ExecuteStep, AssessEvidence}"
  shows "progress rt N (rank rt N n w) (graph_step rt env (At n w))"
  using assms
  by (auto simp: route_after_router_def route_after_validation_def route_after_resolution_def
      route_after_assessment_def run_ready_def rank_def work_left_def Let_def)

lemma unless_cancelled_cases:
  obtains (seen) "run_cancelled env w" "unless_cancelled env w body = Inr (cancel_update w)"
  | (clear) "\<not> run_cancelled env w" "unless_cancelled env w body = body"
  by (cases "run_cancelled env w") (simp_all add: unless_cancelled_def)

lemma not_cancelled: "\<not> run_cancelled env w \<Longrightarrow> \<not> g_cancel_requested w"
  by (simp add: run_cancelled_def)

section \<open>Progress of each node\<close>

lemma step_route_query:
  assumes "run_ready rt N RouteQuery w"
  shows "progress rt N (rank rt N RouteQuery w) (graph_step rt env (At RouteQuery w))"
proof (cases "run_cancelled env w")
  case True
  then show ?thesis by (intro cancelled_step) (simp_all add: node_route_query_def unless_cancelled_def)
next
  case False
  with assms not_cancelled [OF False] show ?thesis
    by (auto simp: node_route_query_def unless_cancelled_def Let_def route_after_router_def rank_defs)
qed

text \<open>What a step execution leaves alone.\<close>

lemma execute_resolved_frame:
  assumes "execute_resolved rt env step version resolved w = Inr w'"
  shows "g_plan w' = g_plan w" "g_route w' = g_route w" "g_escalated w' = g_escalated w"
    "replan_count (g_counts w') = replan_count (g_counts w)" "g_cancel_requested w' = g_cancel_requested w"
    "g_step_index w' = (if version \<noteq> ''direct'' then g_step_index w + 1 else 0)"
    "tool_call_count (g_counts w') \<le> tool_call_count (g_counts w) + 1"
  using assms
  by (auto simp: execute_resolved_def execute_tool_step_def Let_def split: sum.splits option.splits if_splits)

lemma step_direct_retrieve:
  assumes "run_ready rt N DirectRetrieve w"
  shows "progress rt N (rank rt N DirectRetrieve w) (graph_step rt env (At DirectRetrieve w))"
proof (cases "run_cancelled env w")
  case True
  then show ?thesis by (intro cancelled_step) (simp_all add: node_direct_retrieve_def unless_cancelled_def)
next
  case False
  show ?thesis
  proof (cases "run_node rt env DirectRetrieve w")
    case (Inl e)
    then show ?thesis by simp
  next
    case (Inr w')
    then obtain qt resolved w1 where
      ex: "execute_resolved rt env (direct_step (g_query w) qt) ''direct'' resolved w = Inr w1"
      and w': "w' = w1\<lparr>g_status := RRetrieving\<rparr>"
      using False by (auto simp: node_direct_retrieve_def unless_cancelled_def split: option.splits sum.splits)
    note f = execute_resolved_frame [OF ex]
    from assms not_cancelled [OF False] f w' Inr show ?thesis
      by (auto simp: rank_defs Let_def split: option.splits)
  qed
qed

lemma step_create_plan:
  assumes ready: "run_ready rt N CreatePlan w" and bound: "plans_within rt N"
  shows "progress rt N (rank rt N CreatePlan w) (graph_step rt env (At CreatePlan w))"
proof (cases "run_cancelled env w")
  case True
  then show ?thesis by (intro cancelled_step) (simp_all add: node_create_plan_def unless_cancelled_def)
next
  case False
  show ?thesis
  proof (cases "run_node rt env CreatePlan w")
    case (Inl e)
    then show ?thesis by simp
  next
    case (Inr w')
    from Inr False have w': "g_route w' = Planned" "g_counts w' = g_counts w" "g_plan w' = g_plan w"
      "g_cancel_requested w' = g_cancel_requested w"
      "\<exists>p. planned rt env w (the (g_query_type w)) (replan_count (g_counts w) + 1) = Inr p
         \<and> (\<exists>q. g_pending w' = Some q \<and> rp_steps q = rp_steps p \<and> rp_version q = rp_version p)"
      by (auto simp: node_create_plan_def unless_cancelled_def Let_def split: option.splits sum.splits)
    then obtain q p' where q: "g_pending w' = Some q"
      "planned rt env w (the (g_query_type w)) (replan_count (g_counts w) + 1) = Inr p'" "rp_steps q = rp_steps p'"
      "rp_version q = rp_version p'"
      by blast
    from bound q(2) have "1 \<le> length (rp_steps q) \<and> length (rp_steps q) \<le> N \<and> rp_version q \<noteq> ''direct''"
      unfolding plans_within_def q(3,4) by blast
    with q w' ready not_cancelled [OF False] Inr show ?thesis
      by (simp add: rank_defs Let_def)
  qed
qed

lemma step_validate_plan:
  assumes "run_ready rt N ValidatePlan w"
  shows "progress rt N (rank rt N ValidatePlan w) (graph_step rt env (At ValidatePlan w))"
proof (cases "run_cancelled env w")
  case True
  then show ?thesis by (intro cancelled_step) (simp_all add: node_validate_plan_def unless_cancelled_def)
next
  case False
  note nc = not_cancelled [OF False]
  from assms nc obtain p where p: "g_pending w = Some p" "1 \<le> length (rp_steps p)" "length (rp_steps p) \<le> N"
      "rp_version p \<noteq> ''direct''"
    and route: "g_route w = Planned"
    by (auto simp: run_ready_def node_ready_def)
  show ?thesis
  proof (cases "validate_plan (gr_registry rt) (gr_limits rt) p")
    case (Inl e)
    show ?thesis
    proof (cases "\<exists>code. e = PlanValidationError code")
      case True
      with Inl p False nc assms show ?thesis
        by (auto simp: node_validate_plan_def unless_cancelled_def failure_def route_after_validation_def rank_defs Let_def)
    next
      case False': False
      with Inl p False show ?thesis
        by (cases e) (simp_all add: node_validate_plan_def unless_cancelled_def)
    qed
  next
    case (Inr q)
    then have "rp_steps q = sort_key ps_ordinal (rp_steps p)" and ver: "rp_version q = rp_version p"
      by (auto simp: validate_plan_def Let_def plan_error_def split: sum.splits if_splits)
    then have len: "length (rp_steps q) = length (rp_steps p)" by simp
    from Inr p False nc route assms len ver show ?thesis
      by (auto simp: node_validate_plan_def unless_cancelled_def route_after_validation_def rank_defs in_plan_def Let_def)
  qed
qed

lemma current_step_same:
  "current_step (w\<lparr>g_runtimes := rts, g_status := st\<rparr>) = current_step w"
  by (simp add: current_step_def split: option.split)

lemma ready_budget:
  assumes "run_ready rt N n w" "\<not> g_cancel_requested w" "g_plan w = Some p"
    and "n \<in> {ResolveStepArguments, MarkStepRunning, ExecuteStep}"
  shows "tool_call_count (g_counts w) + (length (rp_steps p) - g_step_index w) + replans_left rt w * N
      \<le> max_tool_calls (gr_limits rt)"
proof -
  have "calls_left rt N n w = (length (rp_steps p) - g_step_index w) + replans_left rt w * N"
    using assms(3,4) by (auto simp: calls_left_def steps_left_def Let_def)
  moreover have "tool_call_count (g_counts w) + calls_left rt N n w \<le> max_tool_calls (gr_limits rt)"
    using assms(1,2) by (simp add: run_ready_def)
  ultimately show ?thesis by (simp only: add.assoc)
qed

lemma in_plan_step:
  assumes "in_plan N w"
  obtains p s where "g_plan w = Some p" "current_step w = Some (p, s)" "g_step_index w < length (rp_steps p)"
    "length (rp_steps p) \<le> N" "g_route w = Planned" "rp_version p \<noteq> ''direct''"
  using assms by (auto simp: in_plan_def current_step_def)

lemma step_resolve:
  assumes ready: "run_ready rt N ResolveStepArguments w"
  shows "progress rt N (rank rt N ResolveStepArguments w) (graph_step rt env (At ResolveStepArguments w))"
proof (cases "run_cancelled env w")
  case True
  then show ?thesis by (intro cancelled_step) (simp_all add: node_resolve_def unless_cancelled_def)
next
  case False
  note nc = not_cancelled [OF False]
  from ready nc have "in_plan N w" by (simp add: run_ready_def node_ready_def)
  then obtain p s where p: "g_plan w = Some p" "current_step w = Some (p, s)" "g_step_index w < length (rp_steps p)"
    "length (rp_steps p) \<le> N" "g_route w = Planned" "rp_version p \<noteq> ''direct''"
    by (rule in_plan_step)
  from ready nc p(1) have budget: "tool_call_count (g_counts w) + (length (rp_steps p) - g_step_index w) + replans_left rt w * N
      \<le> max_tool_calls (gr_limits rt)"
    by (rule ready_budget) simp
  show ?thesis
  proof (cases "resolve_in rt s (rp_version p) w")
    case (Inl e)
    with p False nc budget show ?thesis
      by (auto simp: node_resolve_def unless_cancelled_def failed_step_update_def route_after_resolution_def rank_defs Let_def)
  next
    case (Inr resolved)
    have same: "resolve_in rt s (rp_version p) (w\<lparr>g_resolved := a, g_resolution_failed := b, g_runtimes := c, g_status := d\<rparr>)
        = Inr resolved" for a b c d
      using Inr by (simp add: resolve_in_def)
    from Inr p False nc budget same show ?thesis
      by (auto simp: node_resolve_def unless_cancelled_def route_after_resolution_def rank_defs in_plan_def
          arguments_ready_def current_step_def Let_def)
  qed
qed

lemma step_mark_running:
  assumes ready: "run_ready rt N MarkStepRunning w"
  shows "progress rt N (rank rt N MarkStepRunning w) (graph_step rt env (At MarkStepRunning w))"
proof (cases "run_cancelled env w")
  case True
  then show ?thesis by (intro cancelled_step) (simp_all add: node_mark_running_def unless_cancelled_def)
next
  case False
  note nc = not_cancelled [OF False]
  from ready nc have plan: "in_plan N w" "arguments_ready rt w" by (simp_all add: run_ready_def node_ready_def)
  from plan(1) obtain p s where p: "g_plan w = Some p" "current_step w = Some (p, s)" "g_step_index w < length (rp_steps p)"
    "length (rp_steps p) \<le> N" "g_route w = Planned" "rp_version p \<noteq> ''direct''"
    by (rule in_plan_step)
  obtain rts where run: "graph_step rt env (At MarkStepRunning w) = At ExecuteStep (w\<lparr>g_runtimes := rts, g_status := RExecuting\<rparr>)"
    using p(2) False by (simp add: node_mark_running_def unless_cancelled_def Let_def)
  have "in_plan N (w\<lparr>g_runtimes := rts, g_status := RExecuting\<rparr>)" using plan(1) by (simp add: in_plan_def)
  moreover have "arguments_ready rt (w\<lparr>g_runtimes := rts, g_status := RExecuting\<rparr>)"
    using plan(2) by (simp add: arguments_ready_def resolve_in_def current_step_same)
  ultimately show ?thesis
    unfolding run using ready nc p by (simp add: rank_defs Let_def)
qed

lemma step_execute:
  assumes ready: "run_ready rt N ExecuteStep w" and stable: "validation_stable (gr_registry rt)"
  shows "progress rt N (rank rt N ExecuteStep w) (graph_step rt env (At ExecuteStep w))"
proof (cases "run_cancelled env w")
  case True
  then show ?thesis by (intro cancelled_step) (simp_all add: node_execute_def unless_cancelled_def)
next
  case False
  note nc = not_cancelled [OF False]
  from ready nc have plan: "in_plan N w" "arguments_ready rt w" by (simp_all add: run_ready_def node_ready_def)
  from plan(1) obtain p s where p: "g_plan w = Some p" "current_step w = Some (p, s)" "g_step_index w < length (rp_steps p)"
    "length (rp_steps p) \<le> N" "g_route w = Planned" "rp_version p \<noteq> ''direct''"
    by (rule in_plan_step)
  from ready nc p(1) have budget: "tool_call_count (g_counts w) + (length (rp_steps p) - g_step_index w) + replans_left rt w * N
      \<le> max_tool_calls (gr_limits rt)"
    by (rule ready_budget) simp
  from plan(2) p(2) obtain resolved where res: "resolve_in rt s (rp_version p) w = Inr resolved" "g_resolved w = ra_model resolved"
    by (auto simp: arguments_ready_def)
  from res(1) obtain spec vals where spec: "gr_registry rt (ps_tool s) = Some spec" "ts_validate spec vals = Some (ra_model resolved)"
    "ra_canonical resolved = canonical_arguments (ra_model resolved)"
    by (auto simp: resolve_in_def resolve_step_def registry_get_def split: sum.splits option.splits)
  from stable spec have again: "ts_validate spec (ra_model resolved) = Some (ra_model resolved)"
    unfolding validation_stable_def by blast
  have node: "run_node rt env ExecuteStep w = (case execute_resolved rt env s (rp_version p) resolved w of
      Inl (AgentBudgetExceeded code) \<Rightarrow> Inr (failure code w) | r \<Rightarrow> r)"
    using False p(2) res spec again by (simp add: node_execute_def unless_cancelled_def registry_get_def)
  show ?thesis
  proof (cases "execute_resolved rt env s (rp_version p) resolved w")
    case (Inl e)
    have "\<nexists>code. e = AgentBudgetExceeded code"
      using Inl budget p(3)
      by (auto simp: execute_resolved_def execute_tool_step_def invoke_impl_def registry_get_def Let_def
          split: sum.splits option.splits if_splits)
    then show ?thesis using Inl node by (cases e) simp_all
  next
    case (Inr w')
    note f = execute_resolved_frame [OF Inr]
    have run: "graph_step rt env (At ExecuteStep w) = At AssessEvidence w'" using Inr node by simp
    from f p budget nc show ?thesis unfolding run by (auto simp: rank_defs Let_def)
  qed
qed

text \<open>The decision of the assessment, and when it may be taken.\<close>

lemma assess_action:
  "as_next_action (assess qt route obs rem esc can) = ResolveNext \<Longrightarrow> rem"
  "as_next_action (assess qt route obs rem esc can) = EscalateToPlan \<Longrightarrow> route = Direct \<and> \<not> esc"
  "as_next_action (assess qt route obs rem esc can) = ReplanAction \<Longrightarrow> route = Planned \<and> can"
  by (auto simp: assess_def Let_def split: if_splits)

lemma step_assess:
  assumes ready: "run_ready rt N AssessEvidence w"
  shows "progress rt N (rank rt N AssessEvidence w) (graph_step rt env (At AssessEvidence w))"
proof (cases "run_cancelled env w")
  case True
  then show ?thesis by (intro cancelled_step) (simp_all add: node_assess_def unless_cancelled_def)
next
  case False
  note nc = not_cancelled [OF False]
  show ?thesis
  proof (cases "g_query_type w")
    case None
    with False show ?thesis by (simp add: node_assess_def unless_cancelled_def)
  next
    case (Some qt)
    define rem where "rem = (case g_plan w of None \<Rightarrow> False | Some plan \<Rightarrow> g_step_index w < length (rp_steps plan))"
    define a where "a = assess qt (g_route w) (g_observations w) rem (g_escalated w) (can_replan (gr_limits rt) (g_counts w))"
    obtain w' where run: "run_node rt env AssessEvidence w = Inr w'"
      and w': "g_assessment w' = Some a" "g_status w' = RAssessing" "g_plan w' = g_plan w" "g_route w' = g_route w"
        "g_counts w' = g_counts w" "g_step_index w' = g_step_index w" "g_cancel_requested w' = g_cancel_requested w"
        "g_escalated w' = (g_escalated w \<or> as_next_action a = EscalateToPlan)"
      using Some False by (simp add: node_assess_def unless_cancelled_def Let_def rem_def a_def)
    have eqs: "steps_left w' = steps_left w" "replans_left rt w' = replans_left rt w"
      using w' by (simp_all add: steps_left_def replans_left_def split: option.split)
    have rem: "rem \<longleftrightarrow> 0 < steps_left w" by (auto simp: rem_def steps_left_def split: option.split)
    have budget: "tool_call_count (g_counts w) + (steps_left w + replans_left rt w * N + (if may_escalate w then N else 0))
        \<le> max_tool_calls (gr_limits rt)"
      using ready nc by (simp add: run_ready_def calls_left_def Let_def)
    have plan: "g_plan w = None \<or> (g_route w = Planned \<and> (\<exists>p. g_plan w = Some p \<and> length (rp_steps p) \<le> N
        \<and> rp_version p \<noteq> ''direct''))"
      using ready nc by (simp add: run_ready_def node_ready_def)
    have rank: "rank rt N AssessEvidence w = 7 + 4 * steps_left w + replans_left rt w * (4 * N + 3)
        + (if may_escalate w then 4 * N + 2 else 0)"
      using nc by (simp add: rank_def work_left_def Let_def)
    show ?thesis
    proof (cases "as_next_action a")
      case ResolveNext
      with assess_action(1) rem have pos: "0 < steps_left w" unfolding a_def by blast
      then obtain p where p: "g_plan w = Some p" by (auto simp: steps_left_def split: option.splits)
      with plan have "g_route w = Planned" "length (rp_steps p) \<le> N" "rp_version p \<noteq> ''direct''" by simp_all
      with pos p w' have "in_plan N w'" by (simp add: in_plan_def steps_left_def)
      with run w' nc eqs budget rank ResolveNext show ?thesis
        by (simp add: route_after_assessment_def run_ready_def node_ready_def calls_left_def rank_def work_left_def Let_def)
    next
      case EscalateToPlan
      with assess_action(2) have "may_escalate w" unfolding a_def may_escalate_def by blast
      with run w' nc eqs budget rank EscalateToPlan show ?thesis
        by (simp add: route_after_assessment_def run_ready_def node_ready_def calls_left_def rank_def work_left_def Let_def)
    next
      case ReplanAction
      with assess_action(3) have "can_replan (gr_limits rt) (g_counts w)" unfolding a_def by blast
      then obtain r where r: "replans_left rt w = Suc r"
        by (auto simp: can_replan_def replans_left_def dest: less_imp_Suc_add)
      with run w' nc eqs budget rank ReplanAction show ?thesis
        by (simp add: route_after_assessment_def run_ready_def node_ready_def calls_left_def rank_def work_left_def Let_def)
    next
      case BuildContextAction
      with run w' nc eqs budget rank show ?thesis
        by (simp add: route_after_assessment_def run_ready_def node_ready_def calls_left_def rank_def work_left_def Let_def)
    next
      case PartialAction
      with run w' nc eqs budget rank show ?thesis
        by (simp add: route_after_assessment_def run_ready_def node_ready_def calls_left_def rank_def work_left_def Let_def)
    qed
  qed
qed

lemma step_replan:
  assumes ready: "run_ready rt N Replan w"
  shows "progress rt N (rank rt N Replan w) (graph_step rt env (At Replan w))"
proof (cases "can_replan (gr_limits rt) (g_counts w)")
  case True
  then have "replans_left rt (w\<lparr>g_counts := (g_counts w)\<lparr>replan_count := replan_count (g_counts w) + 1\<rparr>, g_status := RReplanning\<rparr>)
      = replans_left rt w - 1"
    by (simp add: replans_left_def)
  with True ready show ?thesis
    by (simp add: node_replan_def run_ready_def node_ready_def calls_left_def rank_def work_left_def Let_def)
next
  case False
  then have "replans_left rt w = 0" by (simp add: replans_left_def can_replan_def)
  moreover from this have "replans_left rt (w\<lparr>g_stop_reason := Some ''replan_budget_exhausted'', g_status := RAssessing\<rparr>) = 0"
    by (simp add: replans_left_def)
  ultimately show ?thesis using False ready
    by (simp add: node_replan_def run_ready_def node_ready_def calls_left_def rank_def work_left_def Let_def)
qed

text \<open>The nodes after the last assessment form a chain.\<close>

lemma tail_ranks [simp]:
  "rank rt N MarkRemainingStepsSkipped w = 6" "rank rt N BuildContext w = 5" "rank rt N GenerateAnswer w = 4"
  "rank rt N ValidateCitations w = 3" "rank rt N VerifyClaims w = 2" "rank rt N FinalizeAnswer w = 1"
  "rank rt N FinishPartial w = 1"
  by (simp_all add: rank_def work_left_def Let_def)

lemma tail_ready:
  "n \<in> {MarkRemainingStepsSkipped, BuildContext, GenerateAnswer, ValidateCitations, VerifyClaims, FinalizeAnswer, FinishPartial} \<Longrightarrow>
   run_ready rt N n w \<longleftrightarrow> g_cancel_requested w \<or> tool_call_count (g_counts w) \<le> max_tool_calls (gr_limits rt)"
  by (auto simp: run_ready_def node_ready_def calls_left_def Let_def)

text \<open>A node that leaves counts and a pending cancellation alone, up to seeing one.\<close>

definition keeps_counts :: "run_world \<Rightarrow> exn + run_world \<Rightarrow> bool" where
  "keeps_counts w r = (case r of Inl _ \<Rightarrow> True
     | Inr w' \<Rightarrow> g_counts w' = g_counts w \<and> (g_cancel_requested w \<longrightarrow> g_cancel_requested w'))"

lemma tail_keeps:
  "keeps_counts w (node_skip_remaining env w)" "keeps_counts w (node_build_context rt env w)"
  "keeps_counts w (node_generate env w)" "keeps_counts w (node_validate_citations w)"
  "keeps_counts w (node_verify_claims w)"
  by (auto simp: keeps_counts_def node_skip_remaining_def node_build_context_def node_generate_def
      node_validate_citations_def node_verify_claims_def unless_cancelled_def cancel_update_def failure_def Let_def
      split: option.splits sum.splits prod.splits if_splits)

lemma chain_step:
  assumes "run_ready rt N n w" and "keeps_counts w (run_node rt env n w)" and "\<And>w'. next_node n w' = Inr (Some m)"
    and "n \<in> {MarkRemainingStepsSkipped, BuildContext, GenerateAnswer, ValidateCitations, VerifyClaims}"
    and "m \<in> {BuildContext, GenerateAnswer, ValidateCitations, VerifyClaims, FinalizeAnswer}"
    and "\<And>w'. rank rt N m w' < rank rt N n w"
  shows "progress rt N (rank rt N n w) (graph_step rt env (At n w))"
proof (cases "run_node rt env n w")
  case (Inl e)
  then show ?thesis by simp
next
  case (Inr w')
  with assms(2) have "g_counts w' = g_counts w" "g_cancel_requested w \<longrightarrow> g_cancel_requested w'"
    by (simp_all add: keeps_counts_def)
  with assms(1) have "run_ready rt N m w'"
    using tail_ready [of n rt N w] tail_ready [of m rt N w'] assms(4,5) by auto
  with Inr assms(3,6) show ?thesis by simp
qed

section \<open>Whole runs\<close>

lemma graph_step_progress:
  assumes ready: "run_ready rt N n w" and bound: "plans_within rt N" and stable: "validation_stable (gr_registry rt)"
  shows "progress rt N (rank rt N n w) (graph_step rt env (At n w))"
proof (cases n)
  case MarkRemainingStepsSkipped
  show ?thesis unfolding MarkRemainingStepsSkipped
    by (rule chain_step [where m = BuildContext]) (use ready MarkRemainingStepsSkipped tail_keeps in simp_all)
next
  case BuildContext
  show ?thesis unfolding BuildContext
    by (rule chain_step [where m = GenerateAnswer]) (use ready BuildContext tail_keeps in simp_all)
next
  case GenerateAnswer
  show ?thesis unfolding GenerateAnswer
    by (rule chain_step [where m = ValidateCitations]) (use ready GenerateAnswer tail_keeps in simp_all)
next
  case ValidateCitations
  show ?thesis unfolding ValidateCitations
    by (rule chain_step [where m = VerifyClaims]) (use ready ValidateCitations tail_keeps in simp_all)
next
  case VerifyClaims
  show ?thesis unfolding VerifyClaims
    by (rule chain_step [where m = FinalizeAnswer]) (use ready VerifyClaims tail_keeps in simp_all)
next
  case FinalizeAnswer
  then show ?thesis by (simp split: sum.split)
next
  case FinishPartial
  then show ?thesis by (simp split: sum.split)
qed (use ready bound stable in \<open>simp_all only: step_route_query step_direct_retrieve step_create_plan step_validate_plan
    step_resolve step_mark_running step_execute step_assess step_replan\<close>)

lemma graph_step_over: "\<not> (\<exists>n w. p = At n w) \<Longrightarrow> graph_step rt env p = p"
  by (cases p) simp_all

lemma graph_run_over: "\<not> (\<exists>n w. p = At n w) \<Longrightarrow> graph_run rt envs p = p"
  by (induction envs) (simp_all add: graph_run_def graph_step_over)

lemma graph_run_ends:
  assumes "run_ready rt N n w" and "plans_within rt N" and "validation_stable (gr_registry rt)"
    and "rank rt N n w \<le> length envs"
  shows "\<nexists>m w'. graph_run rt envs (At n w) = At m w'"
  using assms
proof (induction envs arbitrary: n w)
  case Nil
  have "rank rt N n w \<noteq> 0" by (cases n) (simp_all add: rank_def work_left_def Let_def)
  with Nil show ?case by simp
next
  case (Cons env envs)
  have step: "progress rt N (rank rt N n w) (graph_step rt env (At n w))"
    by (rule graph_step_progress [OF Cons.prems(1-3)])
  have split: "graph_run rt (env # envs) (At n w) = graph_run rt envs (graph_step rt env (At n w))"
    by (simp add: graph_run_def)
  show ?case
  proof (cases "\<exists>m w'. graph_step rt env (At n w) = At m w'")
    case False
    then show ?thesis unfolding split using graph_run_over [OF False] by metis
  next
    case True
    then obtain m w' where at: "graph_step rt env (At n w) = At m w'" by blast
    with step have "run_ready rt N m w'" "rank rt N m w' < rank rt N n w" by simp_all
    with Cons.prems(2-4) show ?thesis unfolding split at by (intro Cons.IH) simp_all
  qed
qed

lemma start_ready:
  assumes "N * (max_replan_count (gr_limits rt) + 1) + 1 \<le> max_tool_calls (gr_limits rt)"
  shows "run_ready rt N RouteQuery (initial_research_state scope k rq rows)"
    and "rank rt N RouteQuery (initial_research_state scope k rq rows) =
      11 + 4 * N + max_replan_count (gr_limits rt) * (4 * N + 3)"
  using assms
  by (simp_all add: run_ready_def node_ready_def calls_left_def rank_def work_left_def replans_left_def
      initial_research_state_def Let_def algebra_simps split: prod.split)

end
