(* ===== verification/Ra_Props.thy ===== *)
theory Ra_Props
  imports Ra_Term
begin

text \<open>
  Properties of research runs: they end, they respect the budget and repeat no successful call, and
  two ways in which they go wrong: a run whose tool budget is exhausted in the middle of a plan
  loops, and a cancellation during the construction of the context ends in an exception.
\<close>

section \<open>Runs end\<close>

text \<open>
  C27. If every plan has at most \<open>N\<close> steps and the tool budget covers the direct retrieval and the
  steps of every plan that the replanning budget allows, a run is over after a fixed number of
  super-steps, whatever the tools, the provider, the planner and cancellations do.
\<close>

theorem research_run_ends:
  assumes "plans_within rt N" and "validation_stable (gr_registry rt)"
    and "N * (max_replan_count (gr_limits rt) + 1) + 1 \<le> max_tool_calls (gr_limits rt)"
    and "11 + 4 * N + max_replan_count (gr_limits rt) * (4 * N + 3) \<le> length envs"
  shows "\<nexists>n w. graph_run rt envs (start_run scope k rq rows) = At n w"
  unfolding start_run_def
  by (rule graph_run_ends [OF _ assms(1,2)]) (use start_ready [OF assms(3)] assms(4) in simp_all)

definition demo_profiler :: query_profiler where
  "demo_profiler = \<lparr>qp_classify = (\<lambda>_. (CallChain, ''rule:call_chain'')), qp_complex = (\<lambda>_. True)\<rparr>"

definition demo_runtime :: graph_runtime where
  "demo_runtime = \<lparr>gr_registry = default_registry (\<lambda>_. Some) (\<lambda>_ _ _. True), gr_limits = default_limits,
     gr_profiler = demo_profiler, gr_planner = RulePlanner\<rparr>"

definition demo_tool_env :: tool_env where
  "demo_tool_env = \<lparr>te_cancelled_before = False,
     te_handler = (\<lambda>_ _. Returned (empty_tool_result\<lparr>tr_entity_ids := [''e1'', ''e2''], tr_chunk_ids := [''c1'']\<rparr>)),
     te_cancelled_after = False, te_latency_ms = 1\<rparr>"

definition demo_bundle :: context_bundle where
  "demo_bundle = \<lparr>cb_repo_id = ''repo'', cb_index_version_id = ''v1'', cb_query_id = ''run'', cb_items = [],
     cb_estimated_tokens = 0, cb_validated_tokens = None, cb_count_method = ''conservative_code_estimate'',
     cb_token_budget = 6000, cb_omitted_ids = [], cb_warnings = []\<rparr>"

definition demo_env :: step_env where
  "demo_env = \<lparr>e_cancelled = False, e_tool = demo_tool_env, e_uuid = ''1'', e_now = 0, e_plan_reply = None,
     e_provider = None, e_context = (\<lambda>_ _ _ _. Inr demo_bundle)\<rparr>"

definition demo_request :: run_request where
  "demo_request = \<lparr>rq_query = ''who calls main'', rq_query_type = None, rq_answer_enabled = True,
     rq_consent = False, rq_seed_ids = []\<rparr>"

lemma demo_stable: "validation_stable (gr_registry demo_runtime)"
  by (auto simp: validation_stable_def demo_runtime_def default_registry_def)

theorem research_run_ends_witness:
  "\<nexists>n w. graph_run demo_runtime (replicate 41 demo_env) (start_run (''run'', ''repo'', ''v1'') 0 demo_request []) = At n w"
proof (rule research_run_ends [of demo_runtime 2])
  show "plans_within demo_runtime 2" by (rule rule_planner_within) (simp add: demo_runtime_def)
qed (simp_all add: demo_stable, simp_all add: demo_runtime_def default_limits_def)

section \<open>Tool calls\<close>

definition fresh_success :: "observation \<Rightarrow> bool" where
  "fresh_success ob \<longleftrightarrow> \<not> ob_reused ob \<and> ob_status ob = OSuccess"

definition same_output :: "observation \<Rightarrow> observation \<Rightarrow> bool" where
  "same_output ob old \<longleftrightarrow> ob_call_key ob = ob_call_key old \<and> ob_status ob = ob_status old
     \<and> ob_entity_ids ob = ob_entity_ids old \<and> ob_chunk_ids ob = ob_chunk_ids old
     \<and> ob_edge_ids ob = ob_edge_ids old \<and> ob_evidence_ids ob = ob_evidence_ids old
     \<and> ob_summary ob = ob_summary old"

definition calls_inv :: "graph_runtime \<Rightarrow> run_world \<Rightarrow> bool" where
  "calls_inv rt w \<longleftrightarrow>
     tool_call_count (g_counts w) = length (filter (\<lambda>ob. \<not> ob_reused ob) (g_observations w)) \<and>
     tool_reuse_count (g_counts w) = length (filter ob_reused (g_observations w)) \<and>
     tool_call_count (g_counts w) \<le> max_tool_calls (gr_limits rt) \<and>
     replan_count (g_counts w) \<le> max_replan_count (gr_limits rt) \<and>
     distinct (map ob_call_key (filter fresh_success (g_observations w))) \<and>
     (\<forall>ob \<in> set (g_observations w). ob_reused ob \<longrightarrow>
        (\<exists>old \<in> set (g_observations w). fresh_success old \<and> same_output ob old))"

text \<open>Results of a node that touch neither the observations nor the counters of tool calls.\<close>

definition keeps_calls :: "run_world \<Rightarrow> exn + run_world \<Rightarrow> bool" where
  "keeps_calls w r = (case r of Inl _ \<Rightarrow> True
     | Inr w' \<Rightarrow> g_observations w' = g_observations w \<and> tool_call_count (g_counts w') = tool_call_count (g_counts w)
         \<and> tool_reuse_count (g_counts w') = tool_reuse_count (g_counts w)
         \<and> replan_count (g_counts w') = replan_count (g_counts w))"

lemma keeps_calls_simps [simp]:
  "keeps_calls w (Inl e)" "keeps_calls w (Inr w)" "keeps_calls w (Inr (cancel_update w))" "keeps_calls w (Inr (failure c w))"
  by (simp_all add: keeps_calls_def cancel_update_def failure_def)

lemma keeps_calls_unless: "keeps_calls w r \<Longrightarrow> keeps_calls w (unless_cancelled env w r)"
  by (simp add: unless_cancelled_def)

lemma keeps_calls_nodes:
  "keeps_calls w (node_route_query rt env w)" "keeps_calls w (node_create_plan rt env w)"
  "keeps_calls w (node_validate_plan rt env w)" "keeps_calls w (node_resolve rt env w)"
  "keeps_calls w (node_mark_running env w)" "keeps_calls w (node_assess rt env w)"
proof -
  show "keeps_calls w (node_route_query rt env w)"
    unfolding node_route_query_def by (rule keeps_calls_unless) (simp add: keeps_calls_def Let_def)
  show "keeps_calls w (node_create_plan rt env w)"
    unfolding node_create_plan_def
    by (rule keeps_calls_unless) (simp add: keeps_calls_def Let_def split: option.split sum.split)
  show "keeps_calls w (node_validate_plan rt env w)"
    unfolding node_validate_plan_def
    by (rule keeps_calls_unless) (simp split: option.split sum.split exn.split, simp add: keeps_calls_def)
  show "keeps_calls w (node_resolve rt env w)"
    unfolding node_resolve_def
    by (rule keeps_calls_unless) (auto simp: keeps_calls_def failure_def failed_step_update_def split: option.split sum.split)
  show "keeps_calls w (node_mark_running env w)"
    unfolding node_mark_running_def
    by (rule keeps_calls_unless) (auto simp: keeps_calls_def failure_def Let_def split: option.split)
  show "keeps_calls w (node_assess rt env w)"
    unfolding node_assess_def
    by (rule keeps_calls_unless) (simp add: keeps_calls_def Let_def split: option.split)
qed

lemma keeps_calls_tail:
  "keeps_calls w (node_skip_remaining env w)" "keeps_calls w (node_build_context rt env w)"
  "keeps_calls w (node_generate env w)" "keeps_calls w (node_validate_citations w)"
  "keeps_calls w (node_verify_claims w)" "keeps_calls w (node_finalize w)" "keeps_calls w (node_finish_partial rt env w)"
  by (auto simp: keeps_calls_def node_skip_remaining_def node_build_context_def node_generate_def
      node_validate_citations_def node_verify_claims_def node_finalize_def finalize_with_def node_finish_partial_def
      unless_cancelled_def cancel_update_def failure_def Let_def
      split: option.splits sum.splits prod.splits if_splits)

lemma keeps_calls_inv: "keeps_calls w (Inr w') \<Longrightarrow> calls_inv rt w \<Longrightarrow> calls_inv rt w'"
  by (simp add: keeps_calls_def calls_inv_def)

lemma find_rev_None: "List.find P (rev xs) = None \<longleftrightarrow> (\<forall>x \<in> set xs. \<not> P x)"
  by (auto simp: find_None_iff)

lemma find_rev_Some: "List.find P (rev xs) = Some x \<Longrightarrow> x \<in> set xs \<and> P x"
  by (auto simp: find_Some_iff) (metis nth_mem set_rev length_rev)

lemma execute_tool_step_cases:
  assumes "execute_tool_step reg limits te uuid now scope version step resolved obs n = Inr out"
  obtains (reused) old where "old \<in> set obs" "ob_call_key old = call_key_of scope step resolved" "ob_status old = OSuccess"
      "same_output (so_observation out) old" "ob_reused (so_observation out)" "so_tool_calls out = 0" "so_reused_calls out = 1"
  | (called) "\<forall>ob \<in> set obs. ob_call_key ob = call_key_of scope step resolved \<longrightarrow> ob_status ob \<noteq> OSuccess"
      "n < max_tool_calls limits" "ob_call_key (so_observation out) = call_key_of scope step resolved"
      "\<not> ob_reused (so_observation out)" "so_tool_calls out = 1" "so_reused_calls out = 0"
proof (cases "List.find (\<lambda>ob. ob_call_key ob = call_key_of scope step resolved \<and> ob_status ob = OSuccess) (rev obs)")
  case (Some old)
  with assms find_rev_Some [OF Some] show ?thesis
    by (intro reused [of old]) (auto simp: execute_tool_step_def Let_def same_output_def)
next
  case None
  then have none: "\<forall>ob \<in> set obs. ob_call_key ob = call_key_of scope step resolved \<longrightarrow> ob_status ob \<noteq> OSuccess"
    by (auto simp: find_rev_None)
  from None assms have lt: "n < max_tool_calls limits"
    by (auto simp: execute_tool_step_def Let_def split: if_splits)
  with None assms obtain iv where "invoke_impl reg (ps_tool step) (ra_model resolved) te = Inr iv"
    by (auto simp: execute_tool_step_def Let_def split: sum.splits)
  with None assms lt show ?thesis
    by (intro called [OF none lt]) (auto simp: execute_tool_step_def Let_def)
qed

lemma execute_resolved_calls_inv:
  assumes inv: "calls_inv rt w" and ex: "execute_resolved rt env step version resolved w = Inr w'"
  shows "calls_inv rt w'"
proof -
  from ex obtain out where out: "execute_tool_step (gr_registry rt) (gr_limits rt) (e_tool env) (e_uuid env) (e_now env)
      (scope_of w) version step resolved (g_observations w) (tool_call_count (g_counts w)) = Inr out"
    and w': "g_observations w' = g_observations w @ [so_observation out]"
      "tool_call_count (g_counts w') = tool_call_count (g_counts w) + so_tool_calls out"
      "tool_reuse_count (g_counts w') = tool_reuse_count (g_counts w) + so_reused_calls out"
      "replan_count (g_counts w') = replan_count (g_counts w)"
    by (auto simp: execute_resolved_def split: sum.splits)
  show ?thesis
    using out
  proof (cases rule: execute_tool_step_cases)
    case (reused old)
    have "\<exists>src \<in> set (g_observations w). fresh_success src \<and> same_output (so_observation out) src"
    proof (cases "ob_reused old")
      case True
      with inv reused(1) obtain src where "src \<in> set (g_observations w)" "fresh_success src" "same_output old src"
        unfolding calls_inv_def by blast
      with reused(4) show ?thesis by (intro bexI [of _ src]) (simp_all add: same_output_def)
    next
      case False
      with reused show ?thesis by (intro bexI [of _ old]) (simp_all add: fresh_success_def)
    qed
    with inv reused w' show ?thesis by (auto simp: calls_inv_def fresh_success_def)
  next
    case called
    have "call_key_of (scope_of w) step resolved \<notin> ob_call_key ` set (filter fresh_success (g_observations w))"
      using called(1) by (auto simp: fresh_success_def)
    with inv called w' show ?thesis by (auto simp: calls_inv_def)
  qed
qed

lemma calls_inv_status [simp]: "calls_inv rt (w\<lparr>g_status := st\<rparr>) = calls_inv rt w"
  by (simp add: calls_inv_def)

lemma run_node_calls_inv:
  assumes inv: "calls_inv rt w" and run: "run_node rt env n w = Inr w'"
  shows "calls_inv rt w'"
proof -
  have keep: ?thesis if "keeps_calls w (run_node rt env n w)"
    using that inv keeps_calls_inv unfolding run by blast
  show ?thesis
  proof (cases n)
    case DirectRetrieve
    show ?thesis
    proof (cases "run_cancelled env w")
      case True
      with run DirectRetrieve have "w' = cancel_update w" by (simp add: node_direct_retrieve_def unless_cancelled_def)
      with inv show ?thesis by (simp add: cancel_update_def calls_inv_def)
    next
      case False
      with run DirectRetrieve show ?thesis
        using execute_resolved_calls_inv [OF inv]
        by (auto simp: node_direct_retrieve_def unless_cancelled_def split: option.splits sum.splits)
    qed
  next
    case ExecuteStep
    show ?thesis
    proof (cases "run_cancelled env w")
      case True
      with run ExecuteStep have "w' = cancel_update w" by (simp add: node_execute_def unless_cancelled_def)
      with inv show ?thesis by (simp add: cancel_update_def calls_inv_def)
    next
      case False
      have "calls_inv rt (failure c w)" for c using inv by (simp add: failure_def calls_inv_def)
      with False run ExecuteStep show ?thesis
        using execute_resolved_calls_inv [OF inv]
        by (auto simp: node_execute_def unless_cancelled_def split: option.splits sum.splits if_splits exn.splits)
    qed
  next
    case Replan
    with run inv show ?thesis
      by (auto simp: node_replan_def can_replan_def calls_inv_def split: if_splits)
  qed (use keep keeps_calls_nodes keeps_calls_tail in simp_all)
qed

fun point_world :: "run_point \<Rightarrow> run_world" where
  "point_world (At n w) = w"
| "point_world (Ended w) = w"
| "point_world (Raised e w) = w"

lemma graph_step_calls_inv: "calls_inv rt (point_world p) \<Longrightarrow> calls_inv rt (point_world (graph_step rt env p))"
  by (cases p) (auto intro: run_node_calls_inv split: sum.split option.split)

interpretation agent: machine "graph_step rt" "\<lambda>_. True" "\<lambda>p. calls_inv rt (point_world p)" "\<lambda>_ _. True"
  by unfold_locales (simp_all add: graph_step_calls_inv)

lemma calls_inv_start: "calls_inv rt (point_world (start_run scope k rq rows))"
  by (simp add: start_run_def initial_research_state_def calls_inv_def split: prod.split)

lemma graph_run_calls_inv: "calls_inv rt (point_world (graph_run rt envs (start_run scope k rq rows)))"
  unfolding graph_run_def by (rule agent.run_inv) (simp_all add: calls_inv_start list_all_iff)

text \<open>
  C28. However a run goes, it never makes more tool calls than the budget allows and never replans
  more often; the counters are exactly the numbers of observations that a call produced and of
  those that were taken over from an earlier one.
\<close>

theorem tool_budget_respected:
  "let w = point_world (graph_run rt envs (start_run scope k rq rows)) in
     tool_call_count (g_counts w) \<le> max_tool_calls (gr_limits rt) \<and>
     replan_count (g_counts w) \<le> max_replan_count (gr_limits rt) \<and>
     tool_call_count (g_counts w) = length (filter (\<lambda>ob. \<not> ob_reused ob) (g_observations w)) \<and>
     tool_reuse_count (g_counts w) = length (filter ob_reused (g_observations w))"
  using graph_run_calls_inv [of rt envs scope k rq rows] by (simp add: calls_inv_def)

text \<open>
  C29. In a run no tool succeeds twice for the same arguments: two observations that a successful
  call produced have different call keys, and every reused observation repeats the output of such a
  call with its own key.
\<close>

theorem successful_call_once:
  assumes "w = point_world (graph_run rt envs (start_run scope k rq rows))"
  shows "distinct (map ob_call_key (filter fresh_success (g_observations w))) \<and>
    (\<forall>ob \<in> set (g_observations w). ob_reused ob \<longrightarrow>
       (\<exists>old \<in> set (g_observations w). fresh_success old \<and> same_output ob old))"
  using graph_run_calls_inv [of rt envs scope k rq rows] assms by (simp add: calls_inv_def)

theorem successful_call_once_witness:
  "distinct (map ob_call_key (filter fresh_success (g_observations
     (point_world (graph_run demo_runtime (replicate 6 demo_env) (start_run (''run'', ''repo'', ''v1'') 0 demo_request []))))))"
  using successful_call_once [OF refl] by blast

section \<open>An exhausted tool budget\<close>

text \<open>The part of the state that decides whether the loop goes on.\<close>

definition same_position :: "run_world \<Rightarrow> run_world \<Rightarrow> bool" where
  "same_position w w' \<longleftrightarrow> g_plan w' = g_plan w \<and> g_step_index w' = g_step_index w \<and> g_route w' = g_route w
     \<and> g_observations w' = g_observations w \<and> g_counts w' = g_counts w \<and> g_query_type w' = g_query_type w
     \<and> g_run_id w' = g_run_id w \<and> g_repo_id w' = g_repo_id w \<and> g_index_version_id w' = g_index_version_id w
     \<and> g_escalated w' = g_escalated w \<and> g_cancel_requested w' = g_cancel_requested w"

definition stuck :: "graph_runtime \<Rightarrow> run_world \<Rightarrow> bool" where
  "stuck rt w \<longleftrightarrow> (\<exists>qt p s resolved. g_query_type w = Some qt \<and> current_step w = Some (p, s)
     \<and> resolve_in rt s (rp_version p) w = Inr resolved
     \<and> (\<forall>ob \<in> set (g_observations w). ob_call_key ob = call_key_of (scope_of w) s resolved \<longrightarrow> ob_status ob \<noteq> OSuccess)
     \<and> max_tool_calls (gr_limits rt) \<le> tool_call_count (g_counts w)
     \<and> \<not> list_all cr_satisfied (criteria_of qt (filter (\<lambda>ob. ob_status ob = OSuccess) (g_observations w)))
     \<and> \<not> g_cancel_requested w)"

lemma same_position_trans: "same_position a b \<Longrightarrow> same_position b c \<Longrightarrow> same_position a c"
  by (simp add: same_position_def)

lemma same_position_views:
  assumes "same_position w w'"
  shows "current_step w' = current_step w" "resolve_in rt s v w' = resolve_in rt s v w" "scope_of w' = scope_of w"
    "g_query_type w' = g_query_type w" "g_observations w' = g_observations w" "g_counts w' = g_counts w"
    "g_cancel_requested w' = g_cancel_requested w"
  using assms by (simp_all add: same_position_def current_step_def resolve_in_def scope_of_def split: option.split)

lemma stuck_same: "same_position w w' \<Longrightarrow> stuck rt w \<Longrightarrow> stuck rt w'"
  by (simp add: stuck_def same_position_views)

lemma stuck_cycle:
  assumes stuck: "stuck rt w" and stable: "validation_stable (gr_registry rt)"
    and calm: "\<not> e_cancelled e1" "\<not> e_cancelled e2" "\<not> e_cancelled e3" "\<not> e_cancelled e4"
  shows "\<exists>w'. graph_run rt [e1, e2, e3, e4] (At ResolveStepArguments w) = At ResolveStepArguments w' \<and> same_position w w'"
proof -
  from stuck obtain qt p s resolved where st: "g_query_type w = Some qt" "current_step w = Some (p, s)"
    "resolve_in rt s (rp_version p) w = Inr resolved"
    "\<forall>ob \<in> set (g_observations w). ob_call_key ob = call_key_of (scope_of w) s resolved \<longrightarrow> ob_status ob \<noteq> OSuccess"
    "max_tool_calls (gr_limits rt) \<le> tool_call_count (g_counts w)"
    "\<not> list_all cr_satisfied (criteria_of qt (filter (\<lambda>ob. ob_status ob = OSuccess) (g_observations w)))"
    "\<not> g_cancel_requested w"
    unfolding stuck_def by blast
  from st(3) obtain spec vals where spec: "gr_registry rt (ps_tool s) = Some spec" "ts_validate spec vals = Some (ra_model resolved)"
    "ra_canonical resolved = canonical_arguments (ra_model resolved)"
    by (auto simp: resolve_in_def resolve_step_def registry_get_def split: sum.splits option.splits)
  from stable spec have again: "ts_validate spec (ra_model resolved) = Some (ra_model resolved)"
    unfolding validation_stable_def by blast
  obtain w1 where w1: "graph_step rt e1 (At ResolveStepArguments w) = At MarkStepRunning w1" "same_position w w1"
    "g_resolved w1 = ra_model resolved"
    using st calm(1)
    by (simp add: node_resolve_def unless_cancelled_def run_cancelled_def route_after_resolution_def same_position_def)
  have cur1: "current_step w1 = Some (p, s)" using st(2) by (simp only: same_position_views [OF w1(2)])
  obtain w2 where w2: "graph_step rt e2 (At MarkStepRunning w1) = At ExecuteStep w2" "same_position w1 w2"
    "g_resolved w2 = ra_model resolved"
    using cur1 calm(2) w1(2,3) st(7)
    by (simp add: node_mark_running_def unless_cancelled_def run_cancelled_def same_position_def Let_def)
  have pos2: "same_position w w2" using w1(2) w2(2) by (rule same_position_trans)
  have at2: "current_step w2 = Some (p, s)" "resolve_in rt s (rp_version p) w2 = Inr resolved" "\<not> run_cancelled e3 w2"
    using st calm(3) same_position_views [OF pos2] by (simp_all add: run_cancelled_def)
  have none: "List.find (\<lambda>ob. ob_call_key ob = call_key_of (scope_of w2) s resolved \<and> ob_status ob = OSuccess)
      (rev (g_observations w2)) = None"
    using st(4) pos2 by (auto simp: find_rev_None same_position_def scope_of_def)
  have "execute_resolved rt e3 s (rp_version p) resolved w2 = Inl (AgentBudgetExceeded ''tool_call_budget_exhausted'')"
    using none st(5) pos2 by (simp add: execute_resolved_def execute_tool_step_def Let_def same_position_def)
  then have w3: "graph_step rt e3 (At ExecuteStep w2) = At AssessEvidence (failure ''tool_call_budget_exhausted'' w2)"
    using at2 spec again w2(3) by (simp add: node_execute_def unless_cancelled_def registry_get_def)
  have pos3: "same_position w (failure ''tool_call_budget_exhausted'' w2)"
    using pos2 by (simp add: same_position_def failure_def)
  define wf where "wf = failure ''tool_call_budget_exhausted'' w2"
  have pos: "same_position w wf" using pos3 by (simp add: wf_def)
  have plan: "g_plan w = Some p" "g_step_index w < length (rp_steps p)"
    using st(2) by (auto simp: current_step_def split: option.splits if_splits)
  then have wf: "g_plan wf = Some p" "g_step_index wf < length (rp_steps p)" "g_query_type wf = Some qt"
    "\<not> g_cancel_requested wf" "g_observations wf = g_observations w"
    using pos st(1,7) by (simp_all add: same_position_def)
  have act: "as_next_action (assess qt (g_route wf) (g_observations w) True (g_escalated wf) c) = ResolveNext" for c
    using st(6) by (simp add: assess_def Let_def)
  obtain w4 where w4: "graph_step rt e4 (At AssessEvidence wf) = At ResolveStepArguments w4" "same_position wf w4"
    using wf act calm(4)
    by (simp add: node_assess_def unless_cancelled_def run_cancelled_def route_after_assessment_def same_position_def Let_def)
  have pos4: "same_position w w4" using pos w4(2) by (rule same_position_trans)
  show ?thesis
    using w1(1) w2(1) w3 [folded wf_def] w4(1) pos4 by (simp add: graph_run_def)
qed

lemma stuck_cycles:
  assumes "stuck rt w" and "validation_stable (gr_registry rt)" and "\<forall>env \<in> set envs. \<not> e_cancelled env"
    and "length envs = 4 * n"
  shows "\<exists>w'. graph_run rt envs (At ResolveStepArguments w) = At ResolveStepArguments w' \<and> same_position w w'"
  using assms
proof (induction n arbitrary: envs w)
  case 0
  then show ?case by (simp add: graph_run_def same_position_def)
next
  case (Suc n)
  then have "length envs = Suc (Suc (Suc (Suc (4 * n))))" by simp
  then obtain e1 e2 e3 e4 rest where envs: "envs = [e1, e2, e3, e4] @ rest" and len: "length rest = 4 * n"
    by (auto simp: length_Suc_conv)
  have calm: "\<not> e_cancelled e1" "\<not> e_cancelled e2" "\<not> e_cancelled e3" "\<not> e_cancelled e4"
    "\<forall>env \<in> set rest. \<not> e_cancelled env"
    using Suc.prems(3) by (simp_all add: envs)
  obtain w1 where 1: "graph_run rt [e1, e2, e3, e4] (At ResolveStepArguments w) = At ResolveStepArguments w1" "same_position w w1"
    using stuck_cycle [OF Suc.prems(1,2) calm(1-4)] by blast
  obtain w' where 2: "graph_run rt rest (At ResolveStepArguments w1) = At ResolveStepArguments w'" "same_position w1 w'"
    using Suc.IH [OF stuck_same [OF 1(2) Suc.prems(1)] Suc.prems(2) calm(5) len] by blast
  have "graph_run rt envs (At ResolveStepArguments w) = graph_run rt rest (graph_run rt [e1, e2, e3, e4] (At ResolveStepArguments w))"
    unfolding envs graph_run_def fold_append comp_apply ..
  then have "graph_run rt envs (At ResolveStepArguments w) = At ResolveStepArguments w'"
    unfolding 1(1) 2(1) .
  with same_position_trans [OF 1(2) 2(2)] show ?case by blast
qed

text \<open>
  C30. Once the tool budget is spent in the middle of a plan whose evidence does not suffice, the
  run makes no progress any more: the failed execution leaves the step index where it was and the
  assessment, which overwrites the failure, asks for the same step again.  However many super-steps
  follow, the run is back at the same step of the same plan with the same observations and counters.
\<close>

theorem exhausted_budget_loops:
  assumes "g_query_type w = Some qt" and "current_step w = Some (p, s)"
    and "resolve_in rt s (rp_version p) w = Inr resolved"
    and "\<forall>ob \<in> set (g_observations w). ob_call_key ob = call_key_of (scope_of w) s resolved \<longrightarrow> ob_status ob \<noteq> OSuccess"
    and "max_tool_calls (gr_limits rt) \<le> tool_call_count (g_counts w)"
    and "\<not> list_all cr_satisfied (criteria_of qt (filter (\<lambda>ob. ob_status ob = OSuccess) (g_observations w)))"
    and "\<not> g_cancel_requested w" and "validation_stable (gr_registry rt)"
    and "\<forall>env \<in> set envs. \<not> e_cancelled env" and "length envs = 4 * n"
  shows "\<exists>w'. graph_run rt envs (At ResolveStepArguments w) = At ResolveStepArguments w'
    \<and> g_plan w' = g_plan w \<and> g_step_index w' = g_step_index w \<and> g_observations w' = g_observations w
    \<and> g_counts w' = g_counts w"
proof -
  have "stuck rt w" unfolding stuck_def using assms(1-7) by blast
  from stuck_cycles [OF this assms(8-10)] show ?thesis by (auto simp: same_position_def)
qed

definition demo_stuck :: run_world where
  "demo_stuck = (initial_research_state (''run'', ''repo'', ''v1'') 0 demo_request [])
     \<lparr>g_query_type := Some CallChain, g_route := Planned, g_plan := Some (rule_plan ''who calls main'' CallChain 1),
      g_counts := \<lparr>tool_call_count = 10, tool_reuse_count = 0, replan_count = 0, tool_failure_count = 10\<rparr>\<rparr>"

theorem exhausted_budget_loops_witness:
  "\<exists>w'. graph_run demo_runtime (replicate 400 demo_env) (At ResolveStepArguments demo_stuck) = At ResolveStepArguments w'
     \<and> g_step_index w' = 0"
proof -
  define p where "p = rule_plan ''who calls main'' CallChain 1"
  define s where "s = search_step ''who calls main'' CallChain"
  have cur: "current_step demo_stuck = Some (p, s)"
    by (simp add: current_step_def demo_stuck_def initial_research_state_def p_def s_def rule_plan_def plan_steps_for_def Let_def)
  have "\<exists>resolved. resolve_in demo_runtime s (rp_version p) demo_stuck = Inr resolved"
    by (simp add: resolve_in_def resolve_step_def s_def search_step_def demo_runtime_def default_registry_def registry_get_def Let_def)
  then obtain resolved where res: "resolve_in demo_runtime s (rp_version p) demo_stuck = Inr resolved" by blast
  have obs: "g_observations demo_stuck = []" "g_query_type demo_stuck = Some CallChain" "\<not> g_cancel_requested demo_stuck"
    "tool_call_count (g_counts demo_stuck) = 10" "g_step_index demo_stuck = 0"
    by (simp_all add: demo_stuck_def initial_research_state_def)
  have crit: "\<not> list_all cr_satisfied (criteria_of CallChain (filter (\<lambda>ob. ob_status ob = OSuccess) (g_observations demo_stuck)))"
    unfolding obs by (simp add: criteria_of_def Let_def unique_nonempty_def)
  have calm: "\<forall>env \<in> set (replicate 400 demo_env). \<not> e_cancelled env"
    by (simp add: demo_env_def)
  have "\<exists>w'. graph_run demo_runtime (replicate 400 demo_env) (At ResolveStepArguments demo_stuck) = At ResolveStepArguments w'
    \<and> g_plan w' = g_plan demo_stuck \<and> g_step_index w' = g_step_index demo_stuck
    \<and> g_observations w' = g_observations demo_stuck \<and> g_counts w' = g_counts demo_stuck"
    by (rule exhausted_budget_loops [OF obs(2) cur res _ _ crit obs(3) demo_stable calm, where n = 100])
      (simp_all add: obs demo_runtime_def default_limits_def)
  with obs(5) show ?thesis by auto
qed

section \<open>Cancellation while the answer is built\<close>

text \<open>
  A cancellation that is first seen by \<open>build_context\<close> or \<open>generate_answer\<close> does not end the
  run as cancelled: with answers enabled \<open>validate_citations\<close> reads a draft that was never made, and
  the graph raises \<open>KeyError\<close>.
\<close>

theorem late_cancellation_raises:
  assumes "g_answer_enabled w" and "g_draft w = None"
    and "n \<in> {BuildContext, GenerateAnswer}" and "e_cancelled e1"
  shows "\<exists>w'. graph_run rt [e1, e2, e3] (At n w) = Raised KeyError w' \<and> g_cancel_requested w'"
  using assms
  by (auto simp: graph_run_def node_build_context_def node_generate_def node_validate_citations_def
      unless_cancelled_def run_cancelled_def cancel_update_def)

theorem late_cancellation_raises_witness:
  "\<exists>w'. graph_run demo_runtime [demo_env\<lparr>e_cancelled := True\<rparr>, demo_env, demo_env] (At BuildContext demo_stuck) = Raised KeyError w'"
proof -
  have "g_answer_enabled demo_stuck" "g_draft demo_stuck = None"
    by (simp_all add: demo_stuck_def initial_research_state_def demo_request_def)
  from late_cancellation_raises [OF this, of BuildContext "demo_env\<lparr>e_cancelled := True\<rparr>" demo_runtime demo_env demo_env]
  show ?thesis by auto
qed

end
