(* ===== verification/Ra_Answer_Props.thy ===== *)
theory Ra_Answer_Props
  imports Ra_Props
begin

text \<open>
  Properties of the answer pipeline and of the plan validator: what a final answer shows is
  grounded in the context, the offline generator is accepted by the validator, a validated plan is
  well founded, and the plans of the rule-based planner pass the validator unchanged.
\<close>

section \<open>Grounded answers\<close>

lemma lookup_evidenceD:
  assumes "lookup_evidence context cid eid = Some (item, ev)"
  shows "item \<in> set (cb_items context) \<and> ev \<in> set (ci_evidence item) \<and> ci_id item = cid \<and> re_id ev = eid"
proof -
  from assms have "(item, ev) \<in> set (rev (evidence_pairs context))"
    and "(\<lambda>(item, ev). ci_id item = cid \<and> re_id ev = eid) (item, ev)"
    unfolding lookup_evidence_def by (auto dest: find_rev_Some)
  then show ?thesis by (auto simp: evidence_pairs_def)
qed

lemma check_citationD:
  assumes "check_citation context c = Some c'"
  shows "ct_id c' = ct_id c \<and> (\<exists>item \<in> set (cb_items context). \<exists>ev \<in> set (ci_evidence item). c' = cite (ct_id c') item ev)"
proof -
  obtain item ev where l: "lookup_evidence context (ct_context_id c) (ct_evidence_id c) = Some (item, ev)"
    and c': "c' = cite (ct_id c) item ev"
    using assms by (auto simp: check_citation_def split: option.splits if_splits)
  have "ct_id c' = ct_id c" by (simp add: c' cite_def)
  with lookup_evidenceD [OF l] c' show ?thesis by metis
qed

text \<open>
  C32. Whatever a provider generated: each citation of the final answer is built from a piece of
  evidence of the context; a claim counts as supported only if it cites one of these citations; the
  claims without one are listed as unsupported; and if none is left the answer is marked as
  evidence only, with a confidence of at most 0.2.
\<close>

theorem final_answer_grounded:
  "let ans = finalize (verify_claims (fst (validate_citations draft context))) in
     (\<forall>c \<in> set (aa_citations ans). \<exists>item \<in> set (cb_items context). \<exists>ev \<in> set (ci_evidence item).
        c = cite (ct_id c) item ev) \<and>
     (\<forall>cl \<in> set (aa_claims ans). vc_support cl = Supported \<longrightarrow>
        vc_citation_ids cl \<noteq> [] \<and> set (vc_citation_ids cl) \<subseteq> ct_id ` set (aa_citations ans)) \<and>
     aa_unsupported ans = map vc_text (filter (\<lambda>cl. vc_citation_ids cl = []) (aa_claims ans)) \<and>
     (aa_evidence_only ans \<longleftrightarrow> (\<forall>cl \<in> set (aa_claims ans). vc_support cl \<noteq> Supported)) \<and>
     (aa_evidence_only ans \<longrightarrow> aa_confidence ans \<le> 2 / 10)"
proof -
  define d where "d = fst (validate_citations draft context)"
  define ans where "ans = finalize (verify_claims d)"
  have cits: "aa_citations ans = List.map_filter (check_citation context) (da_citations draft)"
    by (simp add: ans_def d_def finalize_def verify_claims_def validate_citations_def Let_def)
  have claims: "aa_claims ans = map verify_claim (da_claims d)"
    by (simp add: ans_def finalize_def verify_claims_def Let_def)
  have sup: "vc_support cl = (if vc_citation_ids cl \<noteq> [] then Supported else Unsupported)"
    if "cl \<in> set (aa_claims ans)" for cl
    using that by (auto simp: claims verify_claim_def)
  have 1: "\<forall>c \<in> set (aa_citations ans). \<exists>item \<in> set (cb_items context). \<exists>ev \<in> set (ci_evidence item). c = cite (ct_id c) item ev"
    unfolding cits by (auto simp: map_filter_def dest: check_citationD)
  have ids: "set (vc_citation_ids cl) \<subseteq> ct_id ` set (aa_citations ans)" if "cl \<in> set (aa_claims ans)" for cl
    using that unfolding claims cits by (auto simp: verify_claim_def d_def validate_citations_def Let_def)
  have un: "aa_unsupported ans = map vc_text (filter (\<lambda>cl. vc_citation_ids cl = []) (aa_claims ans))"
  proof -
    have "aa_unsupported ans = map vc_text (filter (\<lambda>cl. vc_support cl = Unsupported) (aa_claims ans))"
      by (simp add: ans_def finalize_def Let_def)
    also have "filter (\<lambda>cl. vc_support cl = Unsupported) (aa_claims ans) = filter (\<lambda>cl. vc_citation_ids cl = []) (aa_claims ans)"
      by (rule filter_cong) (use sup in auto)
    finally show ?thesis .
  qed
  have part: "filter (\<lambda>cl. vc_support cl = PartiallySupported) (aa_claims ans) = []"
    unfolding filter_empty_conv by (use sup in auto)
  have eo: "aa_evidence_only ans \<longleftrightarrow> filter (\<lambda>cl. vc_support cl = Supported) (aa_claims ans) = []
      \<and> filter (\<lambda>cl. vc_support cl = PartiallySupported) (aa_claims ans) = []"
    by (simp add: ans_def finalize_def Let_def)
  have conf: "aa_evidence_only ans \<longrightarrow> aa_confidence ans \<le> 2 / 10"
    by (simp add: ans_def finalize_def Let_def del: min.bounded_iff) (auto simp: min_def)
  show ?thesis
    using 1 sup ids un conf unfolding d_def [symmetric] ans_def [symmetric] Let_def
    by (auto simp: eo part filter_empty_conv)
qed

definition demo_item :: context_item where
  "demo_item = \<lparr>ci_id = ''ctx1'', ci_entity_id = ''e1'', ci_chunk_ids = [''c1''], ci_title = ''main'', ci_text = ''def main'',
     ci_token_count = 4, ci_truncated = False, ci_rank = 1, ci_notes = [],
     ci_evidence = [\<lparr>re_id = ''ev1'', re_source_type = ''code'', re_path = Some ''a.py'', re_start_line = Some 1,
       re_end_line = Some 9, re_paper_id = None, re_page_number = None, re_figure_id = None, re_bbox = None\<rparr>]\<rparr>"

theorem final_answer_grounded_witness:
  "aa_evidence_only (finalize (verify_claims (fst (validate_citations
     (evidence_first (demo_bundle\<lparr>cb_items := [demo_item]\<rparr>)) demo_bundle))))"
  using final_answer_grounded [of "evidence_first (demo_bundle\<lparr>cb_items := [demo_item]\<rparr>)" demo_bundle]
  by (simp add: Let_def demo_bundle_def validate_citations_def check_citation_def lookup_evidence_def evidence_pairs_def
      map_filter_def verify_claims_def finalize_def verify_claim_def)

lemma check_own_citation:
  assumes "distinct (map (\<lambda>(item, ev). (ci_id item, re_id ev)) (evidence_pairs context))"
    and "(item, ev) \<in> set (evidence_pairs context)"
  shows "check_citation context (cite cid item ev) = Some (cite cid item ev)"
proof -
  have "lookup_evidence context (ci_id item) (re_id ev) = Some (item, ev)"
  proof (cases "lookup_evidence context (ci_id item) (re_id ev)")
    case None
    with assms(2) show ?thesis by (auto simp: lookup_evidence_def find_rev_None)
  next
    case (Some p)
    then have "p \<in> set (evidence_pairs context)" "(\<lambda>(item, ev). (ci_id item, re_id ev)) p = (\<lambda>(item, ev). (ci_id item, re_id ev)) (item, ev)"
      by (auto simp: lookup_evidence_def dest: find_rev_Some)
    with assms have "p = (item, ev)" unfolding distinct_map inj_on_def by blast
    with Some show ?thesis by simp
  qed
  then show ?thesis by (simp add: check_citation_def cite_def)
qed

lemma evidence_first_citation:
  assumes "c \<in> set (da_citations (evidence_first context))"
  shows "\<exists>cid item ev. c = cite cid item ev \<and> (item, ev) \<in> set (evidence_pairs context)"
proof -
  obtain i item where i: "(i, item) \<in> set (enumerate 1 (cb_items context))" and c: "c \<in> set (item_citations i item)"
    using assms by (auto simp: evidence_first_def Let_def)
  obtain j ev where j: "(j, ev) \<in> set (enumerate 1 (ci_evidence item))" and c': "c = cite (cite_id i j) item ev"
    using c by (auto simp: item_citations_def)
  have "item \<in> set (cb_items context)" "ev \<in> set (ci_evidence item)"
    using i j by (auto simp: in_set_enumerate_eq)
  then have "(item, ev) \<in> set (evidence_pairs context)" by (auto simp: evidence_pairs_def)
  with c' show ?thesis by blast
qed

lemma map_filter_all_Some: "(\<And>x. x \<in> set xs \<Longrightarrow> f x = Some x) \<Longrightarrow> List.map_filter f xs = xs"
  by (induction xs) (auto simp: map_filter_def)

lemma enumerate_Nil_iff [simp]: "enumerate n xs = [] \<longleftrightarrow> xs = []"
  by (cases xs) auto

lemma evidence_first_ids:
  assumes "cl \<in> set (da_claims (evidence_first context))"
  shows "set (dc_citation_ids cl) \<subseteq> ct_id ` set (da_citations (evidence_first context))"
proof -
  obtain i item where i: "(i, item) \<in> set (enumerate 1 (cb_items context))" and cl: "cl = item_claim i item"
    using assms by (auto simp: evidence_first_def Let_def)
  have "set (item_citations i item) \<subseteq> set (da_citations (evidence_first context))"
    using i by (auto simp: evidence_first_def Let_def)
  then show ?thesis by (auto simp: cl item_claim_def)
qed

lemma validate_own_draft:
  assumes "distinct (map (\<lambda>(item, ev). (ci_id item, re_id ev)) (evidence_pairs context))"
  shows "validate_citations (evidence_first context) context = (evidence_first context, [])"
proof -
  let ?d = "evidence_first context"
  have ok: "check_citation context c = Some c" if "c \<in> set (da_citations ?d)" for c
    using evidence_first_citation [OF that] check_own_citation [OF assms] by blast
  have valid: "List.map_filter (check_citation context) (da_citations ?d) = da_citations ?d"
    by (rule map_filter_all_Some) (rule ok)
  have invalid: "filter (\<lambda>c. check_citation context c = None) (da_citations ?d) = []"
    using ok by (auto simp: filter_empty_conv)
  have claims: "map (\<lambda>c. c\<lparr>dc_citation_ids := filter (\<lambda>i. i \<in> set (map ct_id (da_citations ?d))) (dc_citation_ids c)\<rparr>)
      (da_claims ?d) = da_claims ?d"
  proof (rule map_idI)
    fix cl assume "cl \<in> set (da_claims ?d)"
    then have "filter (\<lambda>i. i \<in> set (map ct_id (da_citations ?d))) (dc_citation_ids cl) = dc_citation_ids cl"
      using evidence_first_ids by (fastforce simp: filter_id_conv)
    then show "cl\<lparr>dc_citation_ids := filter (\<lambda>i. i \<in> set (map ct_id (da_citations ?d))) (dc_citation_ids cl)\<rparr> = cl" by simp
  qed
  show ?thesis
    unfolding validate_citations_def Let_def valid invalid claims by simp
qed

lemma evidence_first_supported:
  assumes "\<forall>item \<in> set (cb_items context). ci_evidence item \<noteq> []"
    and "c \<in> set (va_claims (verify_claims (evidence_first context)))"
  shows "vc_support c = Supported"
proof -
  obtain i item where "(i, item) \<in> set (enumerate 1 (cb_items context))" and c: "c = verify_claim (item_claim i item)"
    using assms(2) by (auto simp: verify_claims_def evidence_first_def Let_def)
  then have "ci_evidence item \<noteq> []" using assms(1) by (auto simp: in_set_enumerate_eq)
  then show ?thesis by (simp add: c verify_claim_def item_claim_def item_citations_def)
qed

lemma finalize_all_supported:
  assumes "va_claims v \<noteq> []" and sup: "\<And>c. c \<in> set (va_claims v) \<Longrightarrow> vc_support c = Supported"
  shows "aa_answer (finalize v) = join_with [CHR 0x0A] (map vc_text (va_claims v)) \<and> aa_unsupported (finalize v) = []
    \<and> \<not> aa_evidence_only (finalize v) \<and> aa_confidence (finalize v) = va_confidence v"
proof -
  have "filter (\<lambda>c. vc_support c = Supported) (va_claims v) = va_claims v"
    "filter (\<lambda>c. vc_support c = PartiallySupported) (va_claims v) = []"
    "filter (\<lambda>c. vc_support c = Unsupported) (va_claims v) = []"
    using sup by (auto simp: filter_id_conv filter_empty_conv)
  then show ?thesis using assms(1) by (simp add: finalize_def Let_def)
qed

text \<open>
  The offline generator and the validators agree.  When the pieces of evidence of a non-empty
  context have distinct keys and every item has one, validating the generated draft changes nothing
  and rejects no citation, and the final answer is the text of the draft, with its confidence, every
  claim supported, none reported as unsupported, and not marked as evidence only.
\<close>

theorem offline_answer_accepted:
  assumes keys: "distinct (map (\<lambda>(item, ev). (ci_id item, re_id ev)) (evidence_pairs context))"
    and ev: "\<forall>item \<in> set (cb_items context). ci_evidence item \<noteq> []"
    and ne: "cb_items context \<noteq> []"
  shows "validate_citations (evidence_first context) context = (evidence_first context, []) \<and>
    (let d = evidence_first context; ans = finalize (verify_claims d) in
       aa_answer ans = da_answer d \<and> aa_confidence ans = da_confidence d \<and> aa_unsupported ans = [] \<and>
       \<not> aa_evidence_only ans \<and> (\<forall>c \<in> set (aa_claims ans). vc_support c = Supported))"
proof -
  let ?d = "evidence_first context" let ?v = "verify_claims ?d"
  have claims: "da_claims ?d \<noteq> []" and answer: "da_answer ?d = join_with [CHR 0x0A] (map dc_text (da_claims ?d))"
    using ne by (auto simp: evidence_first_def Let_def)
  have vc: "va_claims ?v = map verify_claim (da_claims ?d)" by (simp add: verify_claims_def Let_def)
  have texts: "map vc_text (va_claims ?v) = map dc_text (da_claims ?d)" by (simp add: vc verify_claim_def)
  have sup: "vc_support c = Supported" if "c \<in> set (va_claims ?v)" for c
    using evidence_first_supported [OF ev that] .
  have "list_ex (\<lambda>c. vc_support c = Supported) (va_claims ?v)"
    using sup claims unfolding list_ex_iff vc by (cases "da_claims ?d") auto
  then have conf: "va_confidence ?v = da_confidence ?d" by (simp add: verify_claims_def Let_def)
  have fin: "aa_claims (finalize ?v) = va_claims ?v" by (simp add: finalize_def Let_def)
  have ne': "va_claims ?v \<noteq> []" using claims by (simp add: vc)
  show ?thesis
    using finalize_all_supported [OF ne' sup] sup validate_own_draft [OF keys]
    by (simp add: fin conf texts answer Let_def)
qed

theorem offline_answer_accepted_witness:
  "\<not> aa_evidence_only (finalize (verify_claims (evidence_first (demo_bundle\<lparr>cb_items := [demo_item]\<rparr>))))"
  using offline_answer_accepted [of "demo_bundle\<lparr>cb_items := [demo_item]\<rparr>"]
  by (simp add: evidence_pairs_def demo_item_def Let_def)

section \<open>Validated plans\<close>

lemma require_priorD:
  assumes "require_prior k sid ordered = Inr source"
  shows "source \<in> set ordered \<and> ps_id source = sid \<and> ps_ordinal source < k"
  using assms find_rev_Some [of "\<lambda>s. ps_id s = sid" ordered source]
  by (auto simp: require_prior_def plan_error_def step_by_id_def split: option.splits if_splits)

lemma check_dependenciesD:
  "check_dependencies k ordered ds = Inr u \<Longrightarrow> d \<in> set ds \<Longrightarrow> \<exists>source. require_prior k d ordered = Inr source"
  by (induction ds) (auto split: sum.splits)

lemma check_bindingsD:
  "check_bindings reg ordered step spec bs = Inr u \<Longrightarrow> b \<in> set bs \<Longrightarrow> \<exists>u. check_binding reg ordered step spec b = Inr u"
  by (induction bs) (auto split: sum.splits)

lemma check_stepsD:
  "check_steps reg ordered ss = Inr u \<Longrightarrow> s \<in> set ss \<Longrightarrow> \<exists>u. check_step reg ordered s = Inr u"
  by (induction ss) (auto split: sum.splits)

lemma check_bindingD:
  assumes "check_binding reg ordered step spec b = Inr u"
  shows "(\<exists>source. require_prior (ps_ordinal step) (ref_step (ab_from b)) ordered = Inr source \<and>
      (\<exists>source_spec. reg (ps_tool source) = Some source_spec \<and> ref_field (ab_from b) \<in> ts_output_fields source_spec)) \<and>
    ref_step (ab_from b) \<in> set (ps_dependencies step) \<and> ab_name b \<in> fst ` set (ts_fields spec)"
proof -
  obtain source where s: "require_prior (ps_ordinal step) (ref_step (ab_from b)) ordered = Inr source"
    using assms by (auto simp: check_binding_def split: sum.splits)
  have dep: "ps_id source \<in> set (ps_dependencies step)"
    using assms s by (auto simp: check_binding_def plan_error_def split: if_splits)
  obtain source_spec where sp: "registry_get (ps_tool source) reg = Inr source_spec"
    using assms s dep by (auto simp: check_binding_def split: sum.splits)
  have out: "ref_field (ab_from b) \<in> ts_output_fields source_spec"
    using assms s dep sp by (auto simp: check_binding_def plan_error_def split: if_splits)
  obtain collection where "map_of (ts_fields spec) (ab_name b) = Some collection"
    using assms s dep sp out by (auto simp: check_binding_def plan_error_def split: option.splits)
  then have "ab_name b \<in> fst ` set (ts_fields spec)" by (force dest: map_of_SomeD)
  moreover have "reg (ps_tool source) = Some source_spec"
    using sp by (auto simp: registry_get_def split: option.splits)
  ultimately show ?thesis using s dep out require_priorD [OF s] by auto
qed

lemma check_stepD:
  assumes "check_step reg ordered step = Inr u"
  shows "\<exists>spec. reg (ps_tool step) = Some spec
    \<and> fst ` set (ps_literals step) \<subseteq> fst ` set (ts_fields spec)
    \<and> (\<forall>d \<in> set (ps_dependencies step). \<exists>source. require_prior (ps_ordinal step) d ordered = Inr source)
    \<and> (\<forall>b \<in> set (ps_bindings step). \<exists>u. check_binding reg ordered step spec b = Inr u)"
proof -
  obtain spec where spec: "reg (ps_tool step) = Some spec"
    using assms by (auto simp: check_step_def plan_error_def split: option.splits)
  have lits: "fst ` set (ps_literals step) \<subseteq> fst ` set (ts_fields spec)"
    using assms spec by (auto simp: check_step_def plan_error_def split: if_splits)
  obtain u1 where d: "check_dependencies (ps_ordinal step) ordered (ps_dependencies step) = Inr u1"
    using assms spec lits by (auto simp: check_step_def split: sum.splits)
  obtain u2 where b: "check_bindings reg ordered step spec (ps_bindings step) = Inr u2"
    using assms spec lits d by (auto simp: check_step_def split: sum.splits)
  show ?thesis using spec lits check_dependenciesD [OF d] check_bindingsD [OF b] by blast
qed

lemma validate_planD:
  assumes "validate_plan reg limits plan = Inr p"
  shows "length (rp_steps plan) \<le> max_plan_steps limits \<and> p = plan\<lparr>rp_steps := sort_key ps_ordinal (rp_steps plan)\<rparr>
    \<and> map ps_ordinal (rp_steps p) = map int [0..<length (rp_steps p)] \<and> distinct (map ps_id (rp_steps p))
    \<and> (\<forall>s \<in> set (rp_steps p). \<exists>u. check_step reg (rp_steps p) s = Inr u)"
proof -
  let ?o = "sort_key ps_ordinal (rp_steps plan)"
  have size: "length (rp_steps plan) \<le> max_plan_steps limits"
    using assms by (auto simp: validate_plan_def validate_plan_size_def split: if_splits)
  have ord: "map ps_ordinal ?o = map int [0..<length ?o]"
    using assms size by (auto simp: validate_plan_def validate_plan_size_def plan_error_def Let_def split: if_splits)
  have dis: "distinct (map ps_id ?o)"
    using assms size ord by (auto simp: validate_plan_def validate_plan_size_def plan_error_def Let_def split: if_splits)
  obtain u where u: "check_steps reg ?o ?o = Inr u"
    using assms size ord dis by (auto simp: validate_plan_def validate_plan_size_def Let_def split: sum.splits)
  have p: "p = plan\<lparr>rp_steps := ?o\<rparr>"
    using assms size ord dis u by (auto simp: validate_plan_def validate_plan_size_def Let_def)
  show ?thesis using size ord dis check_stepsD [OF u] by (simp add: p)
qed

lemma prior_position:
  assumes ord: "map ps_ordinal steps = map int [0..<length steps]" and i: "i < length steps"
    and r: "require_prior (ps_ordinal (steps ! i)) sid steps = Inr source"
  shows "\<exists>j < i. steps ! j = source \<and> ps_id source = sid"
proof -
  from require_priorD [OF r] obtain j where j: "j < length steps" "steps ! j = source"
    and lt: "ps_ordinal source < ps_ordinal (steps ! i)" and sid: "ps_id source = sid"
    by (auto simp: in_set_conv_nth)
  have o: "ps_ordinal (steps ! k) = int k" if "k < length steps" for k
    using arg_cong [OF ord, of "\<lambda>xs. xs ! k"] that by simp
  have "j < i" using lt j i o [of j] o [of i] by simp
  with j sid show ?thesis by blast
qed

text \<open>
  What makes the step at a position of a plan well founded: its ordinal is the position, it depends
  only on steps before it, it uses a registered tool and only arguments of its input model, and it
  binds an argument only to an output that the tool of its source produces, the source being an
  earlier step that it declares as a dependency.
\<close>

definition binding_founded :: "registry \<Rightarrow> plan_step list \<Rightarrow> nat \<Rightarrow> tool_spec \<Rightarrow> argument_binding \<Rightarrow> bool" where
  "binding_founded reg steps i spec b \<longleftrightarrow> ab_name b \<in> fst ` set (ts_fields spec)
     \<and> ref_step (ab_from b) \<in> set (ps_dependencies (steps ! i))
     \<and> (\<exists>j < i. ps_id (steps ! j) = ref_step (ab_from b)
          \<and> (\<exists>source_spec. reg (ps_tool (steps ! j)) = Some source_spec
                \<and> ref_field (ab_from b) \<in> ts_output_fields source_spec))"

definition step_founded :: "registry \<Rightarrow> plan_step list \<Rightarrow> nat \<Rightarrow> bool" where
  "step_founded reg steps i \<longleftrightarrow> ps_ordinal (steps ! i) = int i
     \<and> (\<forall>d \<in> set (ps_dependencies (steps ! i)). \<exists>j < i. ps_id (steps ! j) = d)
     \<and> (\<exists>spec. reg (ps_tool (steps ! i)) = Some spec
          \<and> fst ` set (ps_literals (steps ! i)) \<subseteq> fst ` set (ts_fields spec)
          \<and> (\<forall>b \<in> set (ps_bindings (steps ! i)). binding_founded reg steps i spec b))"

lemma check_binding_founded:
  assumes ord: "map ps_ordinal steps = map int [0..<length steps]" and i: "i < length steps"
    and b: "check_binding reg steps (steps ! i) spec b = Inr u"
  shows "binding_founded reg steps i spec b"
proof -
  from check_bindingD [OF b] obtain source source_spec where
    r: "require_prior (ps_ordinal (steps ! i)) (ref_step (ab_from b)) steps = Inr source"
    and sp: "reg (ps_tool source) = Some source_spec" "ref_field (ab_from b) \<in> ts_output_fields source_spec"
    and dep: "ref_step (ab_from b) \<in> set (ps_dependencies (steps ! i))" "ab_name b \<in> fst ` set (ts_fields spec)"
    by blast
  from prior_position [OF ord i r] obtain j where "j < i" "steps ! j = source" "ps_id source = ref_step (ab_from b)" by blast
  with sp dep show ?thesis unfolding binding_founded_def by blast
qed

lemma check_step_founded:
  assumes ord: "map ps_ordinal steps = map int [0..<length steps]" and i: "i < length steps"
    and c: "check_step reg steps (steps ! i) = Inr u"
  shows "step_founded reg steps i"
proof -
  from check_stepD [OF c] obtain spec where spec: "reg (ps_tool (steps ! i)) = Some spec"
    "fst ` set (ps_literals (steps ! i)) \<subseteq> fst ` set (ts_fields spec)"
    and deps: "\<forall>d \<in> set (ps_dependencies (steps ! i)). \<exists>source. require_prior (ps_ordinal (steps ! i)) d steps = Inr source"
    and binds: "\<forall>b \<in> set (ps_bindings (steps ! i)). \<exists>u. check_binding reg steps (steps ! i) spec b = Inr u"
    by blast
  have "ps_ordinal (steps ! i) = int i"
    using arg_cong [OF ord, of "\<lambda>xs. xs ! i"] i by simp
  moreover have "\<exists>j < i. ps_id (steps ! j) = d" if d: "d \<in> set (ps_dependencies (steps ! i))" for d
  proof -
    from deps d obtain source where "require_prior (ps_ordinal (steps ! i)) d steps = Inr source" by blast
    from prior_position [OF ord i this] show ?thesis by blast
  qed
  moreover have "binding_founded reg steps i spec b" if "b \<in> set (ps_bindings (steps ! i))" for b
    using binds that check_binding_founded [OF ord i] by blast
  ultimately show ?thesis using spec unfolding step_founded_def by blast
qed

text \<open>
  C34. A plan that passes the validator is well founded: it has the steps of the given plan, in the
  order of their ordinals 0, 1, 2, ..., at most \<open>max_plan_steps\<close> of them, with distinct ids, and
  each of them is well founded.
\<close>

theorem validate_plan_sound:
  assumes "validate_plan reg limits plan = Inr p"
  shows "mset (rp_steps p) = mset (rp_steps plan) \<and> length (rp_steps p) \<le> max_plan_steps limits \<and>
    distinct (map ps_id (rp_steps p)) \<and> (\<forall>i < length (rp_steps p). step_founded reg (rp_steps p) i)"
proof -
  have v: "length (rp_steps plan) \<le> max_plan_steps limits" "rp_steps p = sort_key ps_ordinal (rp_steps plan)"
    and ord: "map ps_ordinal (rp_steps p) = map int [0..<length (rp_steps p)]" and dis: "distinct (map ps_id (rp_steps p))"
    and steps: "\<And>s. s \<in> set (rp_steps p) \<Longrightarrow> \<exists>u. check_step reg (rp_steps p) s = Inr u"
    using validate_planD [OF assms] by auto
  have "step_founded reg (rp_steps p) i" if i: "i < length (rp_steps p)" for i
    using steps [OF nth_mem [OF i]] check_step_founded [OF ord i] by blast
  with dis show ?thesis using v(1) unfolding v(2) by simp
qed

section \<open>Plans of the rule-based planner\<close>

definition literals_accepted :: "(tool_name \<Rightarrow> string \<Rightarrow> json \<Rightarrow> bool) \<Rightarrow> plan_step list \<Rightarrow> bool" where
  "literals_accepted field_ok steps \<longleftrightarrow> list_all (\<lambda>s. list_all (\<lambda>(name, v). field_ok (ps_tool s) name v) (ps_literals s)) steps"

lemmas plan_shape = plan_steps_for_def search_step_def follow_up_def output_ref_def Let_def

lemma plan_steps_ordered:
  "sort_key ps_ordinal (plan_steps_for query qt) = plan_steps_for query qt
   \<and> map ps_ordinal (plan_steps_for query qt) = map int [0..<length (plan_steps_for query qt)]
   \<and> distinct (map ps_id (plan_steps_for query qt)) \<and> length (plan_steps_for query qt) \<le> 2"
  by (cases qt) (simp_all add: plan_shape)

lemma plan_steps_checked:
  assumes "literals_accepted field_ok (plan_steps_for query qt)" and "s \<in> set (plan_steps_for query qt)"
  shows "check_step (default_registry validate field_ok) (plan_steps_for query qt) s = Inr ()"
  using assms
  by (cases qt) (auto simp: plan_shape literals_accepted_def check_step_def default_registry_def check_binding_def
      require_prior_def step_by_id_def registry_get_def)

lemma check_steps_all: "(\<And>s. s \<in> set ss \<Longrightarrow> check_step reg ordered s = Inr ()) \<Longrightarrow> check_steps reg ordered ss = Inr ()"
  by (induction ss) auto

lemma rule_plan_validates:
  assumes "literals_accepted field_ok (plan_steps_for query qt)" and "2 \<le> max_plan_steps limits"
  shows "validate_plan (default_registry validate field_ok) limits (rule_plan query qt version) = Inr (rule_plan query qt version)"
proof -
  let ?s = "plan_steps_for query qt"
  have c: "check_steps (default_registry validate field_ok) ?s ?s = Inr ()"
    by (rule check_steps_all) (rule plan_steps_checked [OF assms(1)])
  have size: "validate_plan_size limits (length ?s) = Inr ()"
    using assms(2) plan_steps_ordered [of query qt] by (simp add: validate_plan_size_def)
  have upd: "(rule_plan query qt version)\<lparr>rp_steps := ?s\<rparr> = rule_plan query qt version" by (simp add: rule_plan_def)
  have rs: "rp_steps (rule_plan query qt version) = ?s" by (simp add: rule_plan_def)
  show ?thesis unfolding validate_plan_def rs size using plan_steps_ordered [of query qt] c upd by (simp add: Let_def)
qed

lemma show_nat_not_Nil [simp]: "show_nat n \<noteq> []"
  by (subst show_nat.simps) simp

lemma plan_steps_valid: "list_all plan_step_valid (plan_steps_for query qt)"
  by (cases qt) (simp_all add: plan_shape plan_step_valid_def argument_binding_valid_def step_output_ref_valid_def
      ident_start_def ident_char_def expected_for_def expect_def expected_evidence_valid_def)

lemma rule_plan_valid:
  assumes "query \<noteq> []" "length query \<le> 1000" "length (show_nat version) \<le> 32"
  shows "research_plan_valid (rule_plan query qt version)"
proof -
  have len: "1 \<le> length (plan_steps_for query qt)" "length (plan_steps_for query qt) \<le> 6"
    by (cases qt; simp add: plan_shape)+
  have "expected_evidence_valid e" if "e \<in> set (expected_for qt)" for e
    using that by (auto simp: expected_for_def expect_def expected_evidence_valid_def split: if_splits)
  moreover have "length (expected_for qt) \<le> 20" by (simp add: expected_for_def)
  moreover have "1 \<le> length query" "1 \<le> length (show_nat version)"
    using assms(1) show_nat_not_Nil [of version] by (simp_all add: Suc_le_eq)
  ultimately show ?thesis
    using assms len plan_steps_valid [of query qt]
    by (simp add: research_plan_valid_def rule_plan_def Suc_le_eq list_all_iff del: One_nat_def)
qed

text \<open>
  The rule-based planner and the validator agree: for a query of 1 to 1,000 characters the
  planner returns a plan, and with the default registry the validator accepts that plan and leaves
  it as it is, provided the input models accept the literal arguments the planner writes.
\<close>

theorem rule_plan_accepted:
  assumes "query \<noteq> []" and "length query \<le> 1000" and "length (show_nat version) \<le> 32"
    and "literals_accepted field_ok (plan_steps_for query qt)" and "2 \<le> max_plan_steps limits"
  shows "\<exists>plan. rule_create_plan query qt version = Inr plan \<and> rp_query_type plan = qt \<and> rp_goal plan = query \<and>
    validate_plan (default_registry validate field_ok) limits plan = Inr plan"
proof (intro exI conjI)
  show "rule_create_plan query qt version = Inr (rule_plan query qt version)"
    using rule_plan_valid [OF assms(1-3)] by (simp add: rule_create_plan_def)
  show "validate_plan (default_registry validate field_ok) limits (rule_plan query qt version) = Inr (rule_plan query qt version)"
    by (rule rule_plan_validates [OF assms(4,5)])
qed (simp_all add: rule_plan_def)

text \<open>An input check that bounds the integers as the input models of the default tools do.\<close>

fun demo_field_ok :: "tool_name \<Rightarrow> string \<Rightarrow> json \<Rightarrow> bool" where
  "demo_field_ok t name (JInt i) = (0 < i \<and> i \<le> 30)"
| "demo_field_ok t name _ = True"

theorem rule_plan_accepted_witness:
  "\<exists>plan. rule_create_plan ''who calls main'' CallChain 1 = Inr plan \<and>
    validate_plan (default_registry (\<lambda>t a. Some a) demo_field_ok) default_limits plan = Inr plan"
proof -
  have "length (show_nat 1) \<le> 32" by (subst show_nat.simps) simp
  moreover have "literals_accepted demo_field_ok (plan_steps_for ''who calls main'' CallChain)"
    by (simp add: literals_accepted_def plan_shape)
  ultimately show ?thesis
    using rule_plan_accepted [of "''who calls main''" 1 demo_field_ok CallChain default_limits "\<lambda>t a. Some a"]
    by (auto simp: default_limits_def)
qed

theorem validate_plan_sound_witness:
  "step_founded (default_registry (\<lambda>t a. Some a) demo_field_ok) (plan_steps_for ''who calls main'' CallChain) 1"
proof -
  have acc: "literals_accepted demo_field_ok (plan_steps_for ''who calls main'' CallChain)"
    by (simp add: literals_accepted_def plan_shape)
  have "validate_plan (default_registry (\<lambda>t a. Some a) demo_field_ok) default_limits (rule_plan ''who calls main'' CallChain 1)
      = Inr (rule_plan ''who calls main'' CallChain 1)"
    by (rule rule_plan_validates [OF acc]) (simp add: default_limits_def)
  from validate_plan_sound [OF this] have "\<forall>i < length (plan_steps_for ''who calls main'' CallChain).
      step_founded (default_registry (\<lambda>t a. Some a) demo_field_ok) (plan_steps_for ''who calls main'' CallChain) i"
    by (simp add: rule_plan_def)
  moreover have "1 < length (plan_steps_for ''who calls main'' CallChain)" by (simp add: plan_shape)
  ultimately show ?thesis by blast
qed

end
