(* ===== verification/Ra_Store.thy ===== *)
theory Ra_Store
  imports Ra_Graph
begin

text \<open>
  \<open>ResearchRunStore\<close> (\<open>persistence/research_run_store.py\<close>): the runs, their leases and the versions
  of their plans, with the constraints of \<open>research_migrations/001_research_runs.sql\<close>.  Times are
  microseconds; where a query compares the stored ISO texts, the order is the one of the texts.
  The clock, the new identifiers and lease tokens are arguments.  Each method is atomic.
\<close>

section \<open>Tables\<close>

record create_request = run_request +
  rq_index_version :: "string option"
  rq_parent :: "string option"
  rq_continued :: "string option"

record run_row =
  rr_id :: string
  rr_thread_id :: string
  rr_repo_id :: string
  rr_index_version :: string
  rr_parent :: "string option"
  rr_continued :: "string option"
  rr_seeds :: "string list"
  rr_request :: create_request
  rr_request_hash :: string
  rr_key_hash :: "string option"
  rr_caller_hash :: string
  rr_status :: run_status
  rr_route :: "research_route option"
  rr_plan_id :: "string option"
  rr_plan_version :: "string option"
  rr_graph_version :: string
  rr_state_version :: string
  rr_cancel_requested :: bool
  rr_resume_count :: nat
  rr_last_resumed :: "time option"
  rr_checkpoint_id :: "string option"
  rr_result :: "json option"
  rr_budget :: json
  rr_errors :: json
  rr_stop_reason :: "string option"
  rr_retryable :: bool
  rr_created :: time
  rr_started :: "time option"
  rr_updated :: time
  rr_finished :: "time option"

record lease_row =
  lr_run_id :: string
  lr_owner :: string
  lr_token_hash :: string
  lr_acquired :: time
  lr_expires :: time
  lr_heartbeat :: time

record run_db =
  rd_runs :: "run_row list"
  rd_leases :: "lease_row list"
  rd_plans :: "plan_row list"

definition empty_run_db :: run_db where
  "empty_run_db = \<lparr>rd_runs = [], rd_leases = [], rd_plans = []\<rparr>"

definition store_error :: "string \<Rightarrow> exn" where
  "store_error code = ResearchRunStoreError code"

text \<open>
  \<open>_iso\<close> prints no fraction when the microseconds are zero, and \<open>'Z'\<close> sorts after \<open>'.'\<close>: as texts, the
  full second comes after every other instant of its second.
\<close>

definition iso_rank :: "time \<Rightarrow> int" where
  "iso_rank t = t div 1000000 * 1000001 + (if t mod 1000000 = 0 then 1000000 else t mod 1000000)"

section \<open>Creating and reading runs\<close>

definition opt_json :: "('a \<Rightarrow> json) \<Rightarrow> 'a option \<Rightarrow> json" where
  "opt_json f v = (case v of None \<Rightarrow> JNull | Some x \<Rightarrow> f x)"

definition request_json :: "create_request \<Rightarrow> json" where
  "request_json rq = JObj [(''query'', JStr (rq_query rq)), (''index_version_id'', opt_json JStr (rq_index_version rq)),
     (''query_type'', opt_json (\<lambda>t. JStr (query_type_name t)) (rq_query_type rq)),
     (''answer_enabled'', JBool (rq_answer_enabled rq)), (''external_text_consent'', JBool (rq_consent rq)),
     (''parent_run_id'', opt_json JStr (rq_parent rq)), (''continued_from_run_id'', opt_json JStr (rq_continued rq)),
     (''seed_evidence_ids'', JArr (map JStr (rq_seed_ids rq)))]"

definition request_hash :: "string \<Rightarrow> string \<Rightarrow> create_request \<Rightarrow> string" where
  "request_hash repo_id index_version_id rq = stable_hash (dumps_sorted escape_char_raw (sort_keys
     (JObj [(''repo_id'', JStr repo_id), (''index_version_id'', JStr index_version_id), (''request'', request_json rq)])))"

definition caller_hash :: "string \<Rightarrow> string" where
  "caller_hash scope = stable_hash (if strip scope = [] then ''anonymous'' else strip scope)"

definition find_idempotent :: "string \<Rightarrow> string \<Rightarrow> run_db \<Rightarrow> run_row option" where
  "find_idempotent ch kh db = List.find (\<lambda>r. rr_caller_hash r = ch \<and> rr_key_hash r = Some kh) (rd_runs db)"

definition known_run :: "string option \<Rightarrow> run_db \<Rightarrow> bool" where
  "known_run ref db = (case ref of None \<Rightarrow> True | Some i \<Rightarrow> i \<in> rr_id ` set (rd_runs db))"

text \<open>
  \<open>INSERT INTO research_runs\<close>: \<open>None\<close> is the \<open>IntegrityError\<close> of a used id or thread id, of the
  unique index on caller and key, or of a parent that is no run.
\<close>

definition insert_run :: "run_row \<Rightarrow> run_db \<Rightarrow> run_db option" where
  "insert_run row db =
     (if rr_id row \<in> rr_id ` set (rd_runs db) \<or> rr_thread_id row \<in> rr_thread_id ` set (rd_runs db)
         \<or> (rr_key_hash row \<noteq> None \<and>
              (rr_caller_hash row, rr_key_hash row) \<in> (\<lambda>r. (rr_caller_hash r, rr_key_hash r)) ` set (rd_runs db))
         \<or> \<not> known_run (rr_parent row) db \<or> \<not> known_run (rr_continued row) db
      then None else Some (db\<lparr>rd_runs := rd_runs db @ [row]\<rparr>))"

definition new_run :: "time \<Rightarrow> string \<Rightarrow> string \<Rightarrow> string \<Rightarrow> create_request \<Rightarrow> string \<Rightarrow> string option
    \<Rightarrow> string \<Rightarrow> string \<Rightarrow> run_row" where
  "new_run now run_id repo_id index_version_id rq ch kh graph_version state_version =
     \<lparr>rr_id = run_id, rr_thread_id = run_id, rr_repo_id = repo_id, rr_index_version = index_version_id,
       rr_parent = rq_parent rq, rr_continued = rq_continued rq, rr_seeds = rq_seed_ids rq, rr_request = rq,
       rr_request_hash = request_hash repo_id index_version_id rq, rr_key_hash = kh, rr_caller_hash = ch,
       rr_status = RQueued, rr_route = None, rr_plan_id = None, rr_plan_version = None,
       rr_graph_version = graph_version, rr_state_version = state_version, rr_cancel_requested = False,
       rr_resume_count = 0, rr_last_resumed = None, rr_checkpoint_id = None, rr_result = None, rr_budget = JObj [],
       rr_errors = JArr [], rr_stop_reason = None, rr_retryable = False, rr_created = now, rr_started = None,
       rr_updated = now, rr_finished = None\<rparr>"

definition get_run :: "string \<Rightarrow> run_db \<Rightarrow> exn + run_row" where
  "get_run run_id db =
     (case find_by rr_id run_id (rd_runs db) of
        None \<Rightarrow> Inl (store_error ''agent_run_not_found'') | Some r \<Rightarrow> Inr r)"

definition create_run :: "time \<Rightarrow> string \<Rightarrow> string \<Rightarrow> string \<Rightarrow> create_request \<Rightarrow> string \<Rightarrow> string option
    \<Rightarrow> string \<Rightarrow> string \<Rightarrow> run_db \<Rightarrow> (run_db, run_row \<times> bool) outcome" where
  "create_run now uuid repo_id index_version_id rq caller_scope key graph_version state_version db =
     (let rh = request_hash repo_id index_version_id rq;
          ch = caller_hash caller_scope;
          kh = (case key of None \<Rightarrow> None | Some k \<Rightarrow> if k = [] then None else Some (stable_hash k));
          existing = (case kh of None \<Rightarrow> None | Some h \<Rightarrow> find_idempotent ch h db)
      in case existing of
           Some r \<Rightarrow> if rr_request_hash r \<noteq> rh then (Inl (store_error ''idempotency_key_conflict''), db)
                     else (Inr (r, True), db)
         | None \<Rightarrow>
             (let row = new_run now (''run_'' @ uuid) repo_id index_version_id rq ch kh graph_version state_version in
              case insert_run row db of
                Some db' \<Rightarrow> (Inr (row, False), db')
              | None \<Rightarrow> (Inl (if kh = None then IntegrityError else store_error ''idempotency_key_conflict''), db)))"

definition get_run_for_caller :: "string \<Rightarrow> string \<Rightarrow> run_db \<Rightarrow> exn + run_row" where
  "get_run_for_caller run_id caller_scope db =
     (case get_run run_id db of
        Inl e \<Rightarrow> Inl e
      | Inr r \<Rightarrow> if rr_caller_hash r \<noteq> caller_hash caller_scope then Inl (store_error ''agent_run_forbidden'') else Inr r)"

section \<open>Status\<close>

record status_update =
  su_route :: "research_route option"
  su_stop_reason :: "string option"
  su_retryable :: "bool option"
  su_result :: "json option"
  su_budget :: "json option"
  su_errors :: "json option"
  su_checkpoint :: "string option"

definition no_update :: status_update where
  "no_update = \<lparr>su_route = None, su_stop_reason = None, su_retryable = None, su_result = None, su_budget = None,
     su_errors = None, su_checkpoint = None\<rparr>"

definition set_given :: "'a option \<Rightarrow> 'a \<Rightarrow> 'a" where
  "set_given new old = (case new of None \<Rightarrow> old | Some x \<Rightarrow> x)"

definition set_maybe :: "'a option \<Rightarrow> 'a option \<Rightarrow> 'a option" where
  "set_maybe new old = (case new of None \<Rightarrow> old | Some x \<Rightarrow> Some x)"

definition updated_row :: "time \<Rightarrow> run_status \<Rightarrow> status_update \<Rightarrow> run_row \<Rightarrow> run_row" where
  "updated_row now target u r = r\<lparr>rr_status := target, rr_updated := now,
     rr_route := set_maybe (su_route u) (rr_route r), rr_stop_reason := set_maybe (su_stop_reason u) (rr_stop_reason r),
     rr_retryable := set_given (su_retryable u) (rr_retryable r), rr_result := set_maybe (su_result u) (rr_result r),
     rr_budget := set_given (su_budget u) (rr_budget r), rr_errors := set_given (su_errors u) (rr_errors r),
     rr_checkpoint_id := set_maybe (su_checkpoint u) (rr_checkpoint_id r),
     rr_finished := (if target \<in> TERMINAL_STATUSES then Some now else rr_finished r),
     rr_started := (if target \<in> TERMINAL_STATUSES \<union> {RQueued, RPaused, RInterrupted, RCancelling} then rr_started r
       else case rr_started r of None \<Rightarrow> Some now | Some t \<Rightarrow> Some t)\<rparr>"

definition set_run :: "string \<Rightarrow> (run_row \<Rightarrow> run_row) \<Rightarrow> run_db \<Rightarrow> run_db" where
  "set_run run_id f db = db\<lparr>rd_runs := update_by rr_id run_id f (rd_runs db)\<rparr>"

definition update_status :: "time \<Rightarrow> string \<Rightarrow> run_status \<Rightarrow> run_status list \<Rightarrow> status_update \<Rightarrow> run_db
    \<Rightarrow> (run_db, run_row) outcome" where
  "update_status now run_id target allowed_from u db =
     (if allowed_from = [] then (Inl (ValueError ''allowed_from must not be empty''), db)
      else case get_run run_id db of
          Inl e \<Rightarrow> (Inl e, db)
        | Inr current \<Rightarrow>
            if rr_status current \<in> TERMINAL_STATUSES
            then (if rr_status current = target then Inr current else Inl (store_error ''invalid_run_transition''), db)
            else if rr_status current \<notin> set allowed_from
            then (if rr_status current = target then Inr current else Inl (store_error ''invalid_run_transition''), db)
            else (Inr (updated_row now target u current), set_run run_id (updated_row now target u) db))"

definition cancelling_row :: "time \<Rightarrow> run_row \<Rightarrow> run_row" where
  "cancelling_row now r = r\<lparr>rr_cancel_requested := True, rr_status := RCancelling, rr_updated := now\<rparr>"

definition request_cancel_run :: "time \<Rightarrow> string \<Rightarrow> run_db \<Rightarrow> (run_db, run_row) outcome" where
  "request_cancel_run now run_id db =
     (case get_run run_id db of
        Inl e \<Rightarrow> (Inl e, db)
      | Inr current \<Rightarrow> if rr_status current \<in> TERMINAL_STATUSES then (Inr current, db)
                       else (Inr (cancelling_row now current), set_run run_id (cancelling_row now) db))"

definition is_cancel_requested :: "string \<Rightarrow> run_db \<Rightarrow> exn + bool" where
  "is_cancel_requested run_id db = map_sum id rr_cancel_requested (get_run run_id db)"

definition resumed_row :: "time \<Rightarrow> run_row \<Rightarrow> run_row" where
  "resumed_row now r = r\<lparr>rr_resume_count := rr_resume_count r + 1, rr_status := RInterrupted,
     rr_last_resumed := Some now, rr_updated := now\<rparr>"

definition mark_resumed :: "time \<Rightarrow> string \<Rightarrow> run_db \<Rightarrow> (run_db, run_row) outcome" where
  "mark_resumed now run_id db =
     (case get_run run_id db of
        Inl e \<Rightarrow> (Inl e, db)
      | Inr current \<Rightarrow> if rr_status current \<notin> RESUMABLE_STATUSES then (Inl (store_error ''resume_not_allowed''), db)
                       else (Inr (resumed_row now current), set_run run_id (resumed_row now) db))"

section \<open>Plans\<close>

definition save_run_plan :: "time \<Rightarrow> string \<Rightarrow> research_plan \<Rightarrow> string option \<Rightarrow> run_db \<Rightarrow> (run_db, unit) outcome" where
  "save_run_plan now run_id plan replaced_reason db =
     (case save_plan run_id plan replaced_reason (rd_plans db) of
        Inl e \<Rightarrow> (Inl e, db)
      | Inr rows \<Rightarrow>
          if run_id \<notin> rr_id ` set (rd_runs db) \<and> length (rd_plans db) < length rows
          then (Inl IntegrityError, db)
          else (Inr (), set_run run_id
            (\<lambda>r. r\<lparr>rr_plan_id := Some (rp_id plan), rr_plan_version := Some (rp_version plan), rr_updated := now\<rparr>)
            (db\<lparr>rd_plans := rows\<rparr>)))"

section \<open>Leases\<close>

record run_lease =
  le_run_id :: string
  le_owner :: string
  le_token :: string
  le_expires :: time

definition lease_span :: "int \<Rightarrow> int" where
  "lease_span ttl = max 1000000 ttl"

definition acquire_lease :: "time \<Rightarrow> string \<Rightarrow> string \<Rightarrow> string \<Rightarrow> int \<Rightarrow> run_db \<Rightarrow> (run_db, run_lease option) outcome" where
  "acquire_lease now token run_id owner ttl db =
     (let expires = now + lease_span ttl;
          row = \<lparr>lr_run_id = run_id, lr_owner = owner, lr_token_hash = stable_hash token, lr_acquired = now,
            lr_expires = expires, lr_heartbeat = now\<rparr>;
          lease = \<lparr>le_run_id = run_id, le_owner = owner, le_token = token, le_expires = expires\<rparr>
      in case find_by lr_run_id run_id (rd_leases db) of
           Some current \<Rightarrow>
             if now < lr_expires current \<and> lr_owner current \<noteq> owner then (Inr None, db)
             else (Inr (Some lease), db\<lparr>rd_leases := update_by lr_run_id run_id (\<lambda>_. row) (rd_leases db)\<rparr>)
         | None \<Rightarrow>
             if run_id \<notin> rr_id ` set (rd_runs db) then (Inl IntegrityError, db)
             else (Inr (Some lease), db\<lparr>rd_leases := rd_leases db @ [row]\<rparr>))"

definition holds_lease :: "run_lease \<Rightarrow> lease_row \<Rightarrow> bool" where
  "holds_lease l r \<longleftrightarrow> lr_run_id r = le_run_id l \<and> lr_owner r = le_owner l \<and> lr_token_hash r = stable_hash (le_token l)"

definition renew_lease :: "time \<Rightarrow> run_lease \<Rightarrow> int \<Rightarrow> run_db \<Rightarrow> run_lease option \<times> run_db" where
  "renew_lease now l ttl db =
     (let expires = now + lease_span ttl in
      if list_ex (holds_lease l) (rd_leases db)
      then (Some (l\<lparr>le_expires := expires\<rparr>), db\<lparr>rd_leases := update_where (holds_lease l)
        (\<lambda>r. r\<lparr>lr_expires := expires, lr_heartbeat := now\<rparr>) (rd_leases db)\<rparr>)
      else (None, db))"

definition release_lease :: "run_lease \<Rightarrow> run_db \<Rightarrow> bool \<times> run_db" where
  "release_lease l db = (list_ex (holds_lease l) (rd_leases db),
     db\<lparr>rd_leases := filter (\<lambda>r. \<not> holds_lease l r) (rd_leases db)\<rparr>)"

definition claimable :: "time \<Rightarrow> run_db \<Rightarrow> run_row \<Rightarrow> bool" where
  "claimable now db r \<longleftrightarrow> rr_status r \<notin> TERMINAL_STATUSES \<union> {RPaused} \<and>
     (rr_status r = RQueued \<or>
      (case find_by lr_run_id (rr_id r) (rd_leases db) of
         None \<Rightarrow> True | Some l \<Rightarrow> iso_rank (lr_expires l) \<le> iso_rank now))"

definition list_claimable :: "time \<Rightarrow> int \<Rightarrow> run_db \<Rightarrow> string list" where
  "list_claimable now limit db = take (nat (max 1 (min limit 100)))
     (map rr_id (sort_key (\<lambda>r. iso_rank (rr_created r)) (filter (claimable now db) (rd_runs db))))"

section \<open>Deleting finished runs\<close>

definition terminal_runs_before :: "time \<Rightarrow> int \<Rightarrow> run_db \<Rightarrow> run_row list" where
  "terminal_runs_before cutoff limit db = take (nat (max 1 (min limit 1000)))
     (sort_key (\<lambda>r. case rr_finished r of None \<Rightarrow> 0 | Some t \<Rightarrow> iso_rank t)
       (filter (\<lambda>r. rr_status r \<in> TERMINAL_STATUSES \<and>
          (case rr_finished r of None \<Rightarrow> False | Some t \<Rightarrow> iso_rank t < iso_rank cutoff)) (rd_runs db)))"

text \<open>Leases and plans go with the run (\<open>ON DELETE CASCADE\<close>), references to it become null.\<close>

definition forget_run :: "string \<Rightarrow> run_row \<Rightarrow> run_row" where
  "forget_run run_id r = r\<lparr>rr_parent := (if rr_parent r = Some run_id then None else rr_parent r),
     rr_continued := (if rr_continued r = Some run_id then None else rr_continued r)\<rparr>"

definition delete_terminal_run :: "string \<Rightarrow> run_db \<Rightarrow> bool \<times> run_db" where
  "delete_terminal_run run_id db =
     (if list_ex (\<lambda>r. rr_id r = run_id \<and> rr_status r \<in> TERMINAL_STATUSES) (rd_runs db)
      then (True, \<lparr>rd_runs = map (forget_run run_id) (filter (\<lambda>r. rr_id r \<noteq> run_id) (rd_runs db)),
        rd_leases = filter (\<lambda>l. lr_run_id l \<noteq> run_id) (rd_leases db),
        rd_plans = filter (\<lambda>p. pr_run_id p \<noteq> run_id) (rd_plans db)\<rparr>)
      else (False, db))"

end
