(* ===== verification/Ra_Coord.thy ===== *)
theory Ra_Coord
  imports Ra_Store
begin

text \<open>
  \<open>ResearchRunCoordinator\<close> (\<open>services/research_run_coordinator.py\<close>): one process that claims runs
  under a lease, executes the graph of each in a task and publishes its states.  A task is split
  where it awaits: it begins, the graph yields a state, the task ends.  What the graph yields and
  how its stream ends, whether a checkpoint exists, the clock and the lease tokens are arguments.
  Traces and spans are left out.
\<close>

section \<open>State\<close>

record run_task =
  tk_run :: string
  tk_lease :: run_lease
  tk_begun :: bool
  tk_cancelled :: bool

record coordinator =
  co_owner :: string
  co_max :: nat
  co_lease_span :: int
  co_stopping :: bool
  co_tasks :: "run_task list"
  co_db :: run_db

definition new_coordinator :: "string \<Rightarrow> nat \<Rightarrow> int \<Rightarrow> run_db \<Rightarrow> coordinator" where
  "new_coordinator owner max_runs lease_us db = \<lparr>co_owner = owner, co_max = max 1 max_runs,
     co_lease_span = max 5000000 lease_us, co_stopping = False, co_tasks = [], co_db = db\<rparr>"

definition in_tasks :: "string \<Rightarrow> coordinator \<Rightarrow> bool" where
  "in_tasks run_id co \<longleftrightarrow> run_id \<in> tk_run ` set (co_tasks co)"

text \<open>What the graph's state shows of a run: the arguments of \<open>_publish_state\<close> and \<open>_publish_terminal\<close>.\<close>

record published =
  pb_status :: run_status
  pb_route :: research_route
  pb_stop_reason :: "string option"
  pb_cancel_requested :: bool
  pb_result :: json
  pb_budget :: json
  pb_errors :: json

text \<open>How the stream of a task ends: with the last state if there was one, by an exception of the
  graph (its \<open>error_code\<close>, \<open>retryable\<close> and message), or by a cancellation of the task, which the
  heartbeat requests when it has lost the lease.\<close>

datatype stream_end =
    StreamDone "published option"
  | StreamRaised "string option" bool string
  | StreamCancelled bool

section \<open>Claiming and resuming\<close>

definition start_task :: "run_lease \<Rightarrow> coordinator \<Rightarrow> coordinator" where
  "start_task lease co = co\<lparr>co_tasks := co_tasks co @
     [\<lparr>tk_run = le_run_id lease, tk_lease = lease, tk_begun = False, tk_cancelled = False\<rparr>]\<rparr>"

fun claim_runs :: "time \<Rightarrow> (string \<Rightarrow> string) \<Rightarrow> string list \<Rightarrow> coordinator \<Rightarrow> coordinator" where
  "claim_runs now token [] co = co"
| "claim_runs now token (run_id # ids) co =
     (if co_max co \<le> length (co_tasks co) then co
      else if in_tasks run_id co then claim_runs now token ids co
      else case acquire_lease now (token run_id) run_id (co_owner co) (co_lease_span co) (co_db co) of
          (Inr (Some lease), db) \<Rightarrow> claim_runs now token ids (start_task lease (co\<lparr>co_db := db\<rparr>))
        | (Inr None, db) \<Rightarrow> claim_runs now token ids co
        | (Inl e, db) \<Rightarrow> co)"

definition claim_round :: "time \<Rightarrow> (string \<Rightarrow> string) \<Rightarrow> coordinator \<Rightarrow> coordinator" where
  "claim_round now token co =
     (if co_stopping co then co
      else claim_runs now token (list_claimable now (2 * int (co_max co)) (co_db co)) co)"

text \<open>\<open>resume\<close>; the row it read first, before it awaited the checkpoint, may be the one it returns.\<close>

definition resume_run ::
    "string \<Rightarrow> string \<Rightarrow> time \<Rightarrow> string \<Rightarrow> bool \<Rightarrow> string \<Rightarrow> coordinator \<Rightarrow> (coordinator, run_row) outcome" where
  "resume_run graph_version state_version now token checkpoint_exists run_id co =
     (case get_run run_id (co_db co) of
        Inl e \<Rightarrow> (Inl e, co)
      | Inr run \<Rightarrow>
          if rr_graph_version run \<noteq> graph_version \<or> rr_state_version run \<noteq> state_version
          then (Inl (store_error ''run_version_incompatible''), co)
          else if \<not> checkpoint_exists then (Inl (store_error ''checkpoint_unavailable''), co)
          else if in_tasks run_id co then (Inr run, co)
          else case acquire_lease now token run_id (co_owner co) (co_lease_span co) (co_db co) of
              (Inl e, db) \<Rightarrow> (Inl e, co)
            | (Inr None, db) \<Rightarrow> (get_run run_id db, co)
            | (Inr (Some lease), db) \<Rightarrow>
                (case mark_resumed now run_id db of
                   (Inl e, db') \<Rightarrow> (Inl e, co\<lparr>co_db := snd (release_lease lease db')\<rparr>)
                 | (Inr resumed, db') \<Rightarrow> (Inr resumed, start_task lease (co\<lparr>co_db := db'\<rparr>))))"

section \<open>A task\<close>

definition failure_errors :: "string \<Rightarrow> string \<Rightarrow> bool \<Rightarrow> json" where
  "failure_errors code message retryable = JArr [JObj [(''error_code'', JStr code),
     (''component'', JStr ''research_coordinator''), (''message'', JStr message), (''retryable'', JBool retryable)]]"

text \<open>\<open>with suppress(ResearchRunStoreError): update_status(..., allowed_from=[current["status"]])\<close>.\<close>

definition settle :: "time \<Rightarrow> string \<Rightarrow> run_status \<Rightarrow> status_update \<Rightarrow> run_db \<Rightarrow> run_db" where
  "settle now run_id target u db =
     (case get_run run_id db of
        Inl e \<Rightarrow> db
      | Inr current \<Rightarrow> if rr_status current \<in> TERMINAL_STATUSES then db
                       else snd (update_status now run_id target [rr_status current] u db))"

definition fail_run :: "time \<Rightarrow> string \<Rightarrow> string option \<Rightarrow> bool \<Rightarrow> string \<Rightarrow> run_db \<Rightarrow> run_db" where
  "fail_run now run_id code retryable message db =
     (let c = (case code of None \<Rightarrow> ''agent_run_failed'' | Some c \<Rightarrow> c) in
      settle now run_id RFailed (no_update\<lparr>su_stop_reason := Some c, su_retryable := Some retryable,
        su_errors := Some (failure_errors c message retryable)\<rparr>) db)"

definition interrupt_run :: "time \<Rightarrow> string \<Rightarrow> string \<Rightarrow> run_db \<Rightarrow> run_db" where
  "interrupt_run now reason run_id db =
     settle now run_id RInterrupted (no_update\<lparr>su_stop_reason := Some reason, su_retryable := Some True\<rparr>) db"

text \<open>An exception inside the \<open>try\<close> of \<open>_execute_run_impl\<close>, here always one of the store.\<close>

definition fail_with :: "time \<Rightarrow> string \<Rightarrow> exn \<Rightarrow> run_db \<Rightarrow> run_db" where
  "fail_with now run_id e db =
     fail_run now run_id (case e of ResearchRunStoreError c \<Rightarrow> Some c | _ \<Rightarrow> None) False [] db"

definition end_task :: "string \<Rightarrow> run_lease \<Rightarrow> run_db \<Rightarrow> coordinator \<Rightarrow> coordinator" where
  "end_task run_id lease db co = co\<lparr>co_db := snd (release_lease lease db),
     co_tasks := filter (\<lambda>t. tk_run t \<noteq> run_id) (co_tasks co)\<rparr>"

definition set_task :: "string \<Rightarrow> (run_task \<Rightarrow> run_task) \<Rightarrow> coordinator \<Rightarrow> coordinator" where
  "set_task run_id f co = co\<lparr>co_tasks := update_by tk_run run_id f (co_tasks co)\<rparr>"

definition task_begins :: "time \<Rightarrow> bool \<Rightarrow> run_task \<Rightarrow> coordinator \<Rightarrow> coordinator" where
  "task_begins now checkpoint_exists t co =
     (let run_id = tk_run t; db = co_db co in
      case get_run run_id db of
        Inl e \<Rightarrow> end_task run_id (tk_lease t) db co
      | Inr run \<Rightarrow>
          if rr_status run = RCancelling \<or> rr_cancel_requested run
          then (case update_status now run_id RCancelled [rr_status run] no_update db of
                  (Inl e, db') \<Rightarrow> end_task run_id (tk_lease t) (fail_with now run_id e db') co
                | (Inr r, db') \<Rightarrow> end_task run_id (tk_lease t) db' co)
          else if rr_status run \<in> {RInterrupted, RPaused} \<and> \<not> checkpoint_exists
          then end_task run_id (tk_lease t) (fail_with now run_id (store_error ''checkpoint_unavailable'') db) co
          else set_task run_id (\<lambda>t. t\<lparr>tk_begun := True\<rparr>) co)"

definition publish_state :: "time \<Rightarrow> string \<Rightarrow> published \<Rightarrow> run_db \<Rightarrow> run_db" where
  "publish_state now run_id st db =
     (if pb_status st \<in> TERMINAL_STATUSES then db
      else case get_run run_id db of
          Inl e \<Rightarrow> db
        | Inr current \<Rightarrow>
            if rr_status current = RCancelling then db
            else snd (update_status now run_id (pb_status st) [rr_status current]
              (no_update\<lparr>su_route := Some (pb_route st), su_result := Some (pb_result st),
                su_budget := Some (pb_budget st), su_errors := Some (pb_errors st)\<rparr>) db))"

definition terminal_target :: "run_row \<Rightarrow> published \<Rightarrow> run_status" where
  "terminal_target current st =
     (if rr_status current = RCancelling \<or> pb_cancel_requested st then RCancelled
      else if pb_status st \<in> TERMINAL_STATUSES then pb_status st else RPartial)"

definition publish_terminal :: "time \<Rightarrow> string \<Rightarrow> published \<Rightarrow> run_db \<Rightarrow> (run_db, run_row) outcome" where
  "publish_terminal now run_id st db =
     (case get_run run_id db of
        Inl e \<Rightarrow> (Inl e, db)
      | Inr current \<Rightarrow> update_status now run_id (terminal_target current st) [rr_status current]
          \<lparr>su_route = Some (pb_route st), su_stop_reason = pb_stop_reason st, su_retryable = None,
            su_result = Some (pb_result st), su_budget = Some (pb_budget st), su_errors = Some (pb_errors st),
            su_checkpoint = None\<rparr> db)"

definition stream_outcome :: "time \<Rightarrow> bool \<Rightarrow> string \<Rightarrow> stream_end \<Rightarrow> run_db \<Rightarrow> run_db" where
  "stream_outcome now stopping run_id se db =
     (case se of
        StreamDone None \<Rightarrow> fail_with now run_id (store_error ''checkpoint_unavailable'') db
      | StreamDone (Some st) \<Rightarrow>
          (case publish_terminal now run_id st db of
             (Inl e, db') \<Rightarrow> fail_with now run_id e db' | (Inr r, db') \<Rightarrow> db')
      | StreamRaised code retryable message \<Rightarrow> fail_run now run_id code retryable message db
      | StreamCancelled lease_lost \<Rightarrow>
          if \<not> stopping \<and> lease_lost then interrupt_run now ''research_run_lease_lost'' run_id db else db)"

section \<open>Shutdown\<close>

definition interrupt_all :: "time \<Rightarrow> string list \<Rightarrow> run_db \<Rightarrow> run_db" where
  "interrupt_all now pending db = fold (interrupt_run now ''application_shutdown'') pending db"

text \<open>\<open>stop\<close>: \<open>pending\<close> are the runs whose tasks did not end within the grace period.\<close>

definition stop_coordinator :: "time \<Rightarrow> string list \<Rightarrow> coordinator \<Rightarrow> coordinator" where
  "stop_coordinator now pending co =
     (let late = filter (\<lambda>t. tk_run t \<in> set pending) (co_tasks co) in
      co\<lparr>co_stopping := True,
        co_tasks := map (\<lambda>t. if tk_run t \<in> set pending then t\<lparr>tk_cancelled := True\<rparr> else t) (co_tasks co),
        co_db := interrupt_all now (map tk_run late) (co_db co)\<rparr>)"

definition purge_terminal_runs :: "time \<Rightarrow> int \<Rightarrow> coordinator \<Rightarrow> nat \<times> coordinator" where
  "purge_terminal_runs cutoff limit co =
     (let runs = terminal_runs_before cutoff limit (co_db co);
          (n, db) = fold (\<lambda>r (n, db). let (gone, db') = delete_terminal_run (rr_id r) db
                                      in (if gone then n + 1 else n, db')) runs (0, co_db co)
      in (n, co\<lparr>co_db := db\<rparr>))"

section \<open>The coordinator as a machine\<close>

text \<open>
  The calls of the API, what the loop and the tasks do, and a restart of the process, after a stop
  or a crash, over the same database.  A task that was cancelled publishes nothing more; it ends by
  the cancellation or by an exception raised while it is handled.  A task that is cancelled before
  it began never runs, so it keeps its lease.
\<close>

datatype co_op =
    CreateRun time string string string create_request string "string option" string string
  | CancelRun time string
  | ResumeRun string string time string bool string
  | ClaimRound time "string \<Rightarrow> string"
  | TaskBegins time bool string
  | SavePlan time string research_plan "string option"
  | PublishState time string published
  | TaskEnds time string stream_end
  | Heartbeat time string
  | Stop time "string list"
  | Purge time int
  | Restart string nat int

definition on_db :: "(run_db \<Rightarrow> run_db) \<Rightarrow> coordinator \<Rightarrow> coordinator" where
  "on_db f co = co\<lparr>co_db := f (co_db co)\<rparr>"

definition live_task :: "string \<Rightarrow> coordinator \<Rightarrow> run_task option" where
  "live_task run_id co = List.find (\<lambda>t. tk_run t = run_id \<and> tk_begun t \<and> \<not> tk_cancelled t) (co_tasks co)"

fun end_allowed :: "run_task \<Rightarrow> stream_end \<Rightarrow> bool" where
  "end_allowed t (StreamDone st) = (tk_begun t \<and> \<not> tk_cancelled t)"
| "end_allowed t (StreamRaised c r m) = tk_begun t"
| "end_allowed t (StreamCancelled l) = True"

fun co_step :: "co_op \<Rightarrow> coordinator \<Rightarrow> coordinator" where
  "co_step (CreateRun now uuid repo_id version rq caller key gv sv) co =
     on_db (\<lambda>db. snd (create_run now uuid repo_id version rq caller key gv sv db)) co"
| "co_step (CancelRun now run_id) co = on_db (\<lambda>db. snd (request_cancel_run now run_id db)) co"
| "co_step (ResumeRun gv sv now token ckpt run_id) co = snd (resume_run gv sv now token ckpt run_id co)"
| "co_step (ClaimRound now token) co = claim_round now token co"
| "co_step (TaskBegins now ckpt run_id) co =
     (case find_by tk_run run_id (co_tasks co) of
        None \<Rightarrow> co
      | Some t \<Rightarrow> if tk_begun t \<or> tk_cancelled t then co else task_begins now ckpt t co)"
| "co_step (SavePlan now run_id plan reason) co =
     (if live_task run_id co = None then co
      else on_db (\<lambda>db. snd (save_run_plan now run_id plan reason db)) co)"
| "co_step (PublishState now run_id st) co =
     (if live_task run_id co = None then co else on_db (publish_state now run_id st) co)"
| "co_step (TaskEnds now run_id se) co =
     (case find_by tk_run run_id (co_tasks co) of
        None \<Rightarrow> co
      | Some t \<Rightarrow> if \<not> end_allowed t se then co
                  else if \<not> tk_begun t
                  then co\<lparr>co_tasks := filter (\<lambda>t. tk_run t \<noteq> run_id) (co_tasks co)\<rparr>
                  else end_task run_id (tk_lease t) (stream_outcome now (co_stopping co) run_id se (co_db co)) co)"
| "co_step (Heartbeat now run_id) co =
     (case find_by tk_run run_id (co_tasks co) of
        None \<Rightarrow> co
      | Some t \<Rightarrow> on_db (\<lambda>db. snd (renew_lease now (tk_lease t) (co_lease_span co) db)) co)"
| "co_step (Stop now pending) co = stop_coordinator now pending co"
| "co_step (Purge cutoff limit) co = snd (purge_terminal_runs cutoff limit co)"
| "co_step (Restart owner max_runs lease_us) co = new_coordinator owner max_runs lease_us (co_db co)"

definition co_run :: "co_op list \<Rightarrow> coordinator \<Rightarrow> coordinator" where
  "co_run ops co = fold co_step ops co"

end
