(* ===== verification/Ra_Coord_Props.thy ===== *)
theory Ra_Coord_Props
  imports Ra_Coord
begin

text \<open>
  Properties of the run store and its coordinator: a lease excludes other owners, the row of a
  finished run never changes, and a run whose cancellation was accepted never completes.
\<close>

section \<open>Leases\<close>

text \<open>The operations of any number of processes on one store, and those that respect a lease.\<close>

datatype lease_op =
    Acquire time string string string int
  | Renew time run_lease int
  | Release run_lease
  | SetStatus time string run_status "run_status list" status_update
  | Cancel time string
  | Resume time string
  | Delete string

fun store_step :: "lease_op \<Rightarrow> run_db \<Rightarrow> run_db" where
  "store_step (Acquire now token run_id owner ttl) db = snd (acquire_lease now token run_id owner ttl db)"
| "store_step (Renew now l ttl) db = snd (renew_lease now l ttl db)"
| "store_step (Release l) db = snd (release_lease l db)"
| "store_step (SetStatus now run_id target allowed u) db = snd (update_status now run_id target allowed u db)"
| "store_step (Cancel now run_id) db = snd (request_cancel_run now run_id db)"
| "store_step (Resume now run_id) db = snd (mark_resumed now run_id db)"
| "store_step (Delete run_id) db = snd (delete_terminal_run run_id db)"

fun leaves_lease :: "string \<Rightarrow> string \<Rightarrow> time \<Rightarrow> lease_op \<Rightarrow> bool" where
  "leaves_lease run_id owner ends (Acquire now token i intruder ttl) = (i = run_id \<longrightarrow> intruder \<noteq> owner \<and> now < ends)"
| "leaves_lease run_id owner ends (Renew now l ttl) = (le_run_id l = run_id \<longrightarrow> le_owner l \<noteq> owner)"
| "leaves_lease run_id owner ends (Release l) = (le_run_id l = run_id \<longrightarrow> le_owner l \<noteq> owner)"
| "leaves_lease run_id owner ends (Delete i) = (i \<noteq> run_id)"
| "leaves_lease run_id owner ends _ = True"

definition held :: "string \<Rightarrow> string \<Rightarrow> string \<Rightarrow> time \<Rightarrow> run_db \<Rightarrow> bool" where
  "held run_id owner token_hash ends db \<longleftrightarrow> (\<exists>r. find_by lr_run_id run_id (rd_leases db) = Some r
     \<and> lr_owner r = owner \<and> lr_token_hash r = token_hash \<and> ends \<le> lr_expires r)"

lemma find_by_filter:
  "find_by key k rows = Some r \<Longrightarrow> P r \<Longrightarrow> find_by key k (filter P rows) = Some r"
  by (induction rows) (auto split: if_splits)

lemma find_by_put_row:
  "key row = k \<Longrightarrow> find_by key k' (update_by key k (\<lambda>_. row) rows) =
     (if k = k' then map_option (\<lambda>_. row) (find_by key k rows) else find_by key k' rows)"
  by (induction rows) (auto simp: update_by_def)

lemma held_leases: "held run_id owner h e db \<Longrightarrow> rd_leases db' = rd_leases db \<Longrightarrow> held run_id owner h e db'"
  by (simp add: held_def)

lemma leases_frame [simp]:
  "rd_leases (set_run i f db) = rd_leases db"
  "rd_leases (snd (update_status now i target allowed u db)) = rd_leases db"
  "rd_leases (snd (request_cancel_run now i db)) = rd_leases db"
  "rd_leases (snd (mark_resumed now i db)) = rd_leases db"
  by (auto simp: set_run_def update_status_def request_cancel_run_def mark_resumed_def split: sum.splits)

lemma acquire_held:
  assumes "held run_id owner h e db" and "i = run_id \<longrightarrow> intruder \<noteq> owner \<and> now < e"
  shows "held run_id owner h e (snd (acquire_lease now token i intruder ttl db))"
  using assms
  by (cases "i = run_id")
    (auto simp: held_def acquire_lease_def Let_def find_by_append find_by_put_row split: option.splits)

lemma renew_held:
  assumes "held run_id owner h e db" and "le_run_id l = run_id \<longrightarrow> le_owner l \<noteq> owner"
  shows "held run_id owner h e (snd (renew_lease now l ttl db))"
proof -
  obtain r where r: "find_by lr_run_id run_id (rd_leases db) = Some r" "lr_owner r = owner" "lr_token_hash r = h" "e \<le> lr_expires r"
    using assms(1) by (auto simp: held_def)
  have "\<not> holds_lease l r" using assms(2) r find_by_SomeD [OF r(1)] by (auto simp: holds_lease_def)
  then show ?thesis using r by (simp add: held_def renew_lease_def Let_def find_by_update_where)
qed

lemma release_held:
  assumes "held run_id owner h e db" and "le_run_id l = run_id \<longrightarrow> le_owner l \<noteq> owner"
  shows "held run_id owner h e (snd (release_lease l db))"
proof -
  obtain r where r: "find_by lr_run_id run_id (rd_leases db) = Some r" "lr_owner r = owner" "lr_token_hash r = h" "e \<le> lr_expires r"
    using assms(1) by (auto simp: held_def)
  have "\<not> holds_lease l r" using assms(2) r find_by_SomeD [OF r(1)] by (auto simp: holds_lease_def)
  with find_by_filter [OF r(1)] r show ?thesis by (simp add: held_def release_lease_def)
qed

lemma delete_held:
  assumes "held run_id owner h e db" and "i \<noteq> run_id"
  shows "held run_id owner h e (snd (delete_terminal_run i db))"
proof -
  obtain r where r: "find_by lr_run_id run_id (rd_leases db) = Some r" "lr_owner r = owner" "lr_token_hash r = h" "e \<le> lr_expires r"
    using assms(1) by (auto simp: held_def)
  have "lr_run_id r \<noteq> i" using assms(2) find_by_SomeD [OF r(1)] by simp
  with find_by_filter [OF r(1), of "\<lambda>l. lr_run_id l \<noteq> i"] r show ?thesis
    by (simp add: held_def delete_terminal_run_def)
qed

lemma store_step_held:
  assumes "held run_id owner h e db" and "leaves_lease run_id owner e op"
  shows "held run_id owner h e (store_step op db)"
  using assms by (cases op) (simp_all add: acquire_held renew_held release_held delete_held held_leases [OF assms(1)])

interpretation lease: machine store_step "leaves_lease run_id owner e" "held run_id owner h e" "\<lambda>_ _. True"
  by unfold_locales (simp_all add: store_step_held)

lemma acquired_held:
  assumes "acquire_lease t0 token run_id owner ttl db = (Inr (Some l), db')"
  shows "held run_id owner (stable_hash token) (le_expires l) db' \<and> le_run_id l = run_id \<and> le_owner l = owner \<and> le_token l = token"
  using assms
  by (auto simp: held_def acquire_lease_def Let_def find_by_append find_by_put_row split: option.splits if_splits)

text \<open>
  C36. A lease is exclusive.  Once a process has acquired the lease of a run, then until it expires,
  whatever other processes do with the store (claim, renew and release under their own names,
  change statuses, delete other runs), no other owner acquires it, their attempts change nothing,
  and the holder can renew it.
\<close>

theorem lease_exclusive:
  assumes "acquire_lease t0 token run_id owner ttl db = (Inr (Some l), db1)"
    and "list_all (leaves_lease run_id owner (le_expires l)) ops" and "db2 = fold store_step ops db1"
    and "intruder \<noteq> owner" and "now < le_expires l"
  shows "acquire_lease now token2 run_id intruder ttl2 db2 = (Inr None, db2) \<and>
    fst (renew_lease now l ttl db2) = Some (l\<lparr>le_expires := now + lease_span ttl\<rparr>)"
proof -
  note a = acquired_held [OF assms(1)]
  have "held run_id owner (stable_hash token) (le_expires l) db2"
    unfolding assms(3) by (rule lease.run_inv) (use a assms(2) in simp_all)
  then obtain r where r: "find_by lr_run_id run_id (rd_leases db2) = Some r" "lr_owner r = owner"
    "lr_token_hash r = stable_hash token" "le_expires l \<le> lr_expires r"
    by (auto simp: held_def)
  have "holds_lease l r" using a r find_by_SomeD [OF r(1)] by (simp add: holds_lease_def)
  then have "list_ex (holds_lease l) (rd_leases db2)"
    using find_by_SomeD [OF r(1)] by (auto simp: list_ex_iff)
  moreover have "now < lr_expires r \<and> lr_owner r \<noteq> intruder" using r assms(4,5) by auto
  ultimately show ?thesis by (simp add: acquire_lease_def renew_lease_def Let_def r(1))
qed

definition demo_create :: create_request where
  "demo_create = \<lparr>rq_query = ''who calls main'', rq_query_type = None, rq_answer_enabled = True, rq_consent = False,
     rq_seed_ids = [], rq_index_version = Some ''v1'', rq_parent = None, rq_continued = None\<rparr>"

definition demo_run_db :: run_db where
  "demo_run_db = empty_run_db\<lparr>rd_runs := [new_run 0 ''run_1'' ''repo'' ''v1'' demo_create (caller_hash ''me'') None ''1.0'' ''1.0'']\<rparr>"

theorem lease_exclusive_witness:
  "fst (acquire_lease 9000000 ''t2'' ''run_1'' ''b'' 30000000
     (fold store_step [Cancel 1 ''run_1'', Acquire 2000000 ''t3'' ''run_1'' ''c'' 30000000]
        (snd (acquire_lease 0 ''t1'' ''run_1'' ''a'' 30000000 demo_run_db)))) = Inr None"
proof -
  define l where "l = \<lparr>le_run_id = ''run_1'', le_owner = ''a'', le_token = ''t1'', le_expires = 30000000\<rparr>"
  have "fst (acquire_lease 0 ''t1'' ''run_1'' ''a'' 30000000 demo_run_db) = Inr (Some l)"
    by (simp add: acquire_lease_def demo_run_db_def empty_run_db_def new_run_def lease_span_def l_def Let_def)
  then obtain db1 where a: "acquire_lease 0 ''t1'' ''run_1'' ''a'' 30000000 demo_run_db = (Inr (Some l), db1)"
    by (metis prod.collapse)
  show ?thesis
    using lease_exclusive [OF a, of "[Cancel 1 ''run_1'', Acquire 2000000 ''t3'' ''run_1'' ''c'' 30000000]", OF _ refl,
        of "''b''" 9000000 "''t2''" 30000000]
    by (simp add: a) (simp add: l_def)
qed

section \<open>Rows of runs over time\<close>

text \<open>
  \<open>sound\<close>: ids are unique; a run whose cancellation was requested is neither completed nor partial.
  \<open>tasks_sound\<close>: the run of a task is not finished, and while a task can publish, its run is
  cancelling once its cancellation was requested.
\<close>

definition ABANDONED :: "run_status set" where
  "ABANDONED = {RCancelling, RCancelled, RFailed, RInterrupted}"

definition sound :: "run_db \<Rightarrow> bool" where
  "sound db \<longleftrightarrow> distinct (map rr_id (rd_runs db))
     \<and> (\<forall>r \<in> set (rd_runs db). rr_cancel_requested r \<longrightarrow> rr_status r \<in> ABANDONED)"

definition task_sound :: "run_db \<Rightarrow> run_task \<Rightarrow> bool" where
  "task_sound db t \<longleftrightarrow> (\<forall>r. find_by rr_id (tk_run t) (rd_runs db) = Some r \<longrightarrow>
     rr_status r \<notin> TERMINAL_STATUSES \<and>
     (tk_begun t \<and> \<not> tk_cancelled t \<and> rr_cancel_requested r \<longrightarrow> rr_status r = RCancelling))"

definition co_inv :: "coordinator \<Rightarrow> bool" where
  "co_inv co \<longleftrightarrow> sound (co_db co) \<and> (\<forall>t \<in> set (co_tasks co). task_sound (co_db co) t)
     \<and> distinct (map tk_run (co_tasks co))"

definition run_later :: "run_row \<Rightarrow> run_row \<Rightarrow> bool" where
  "run_later r r' \<longleftrightarrow> (rr_cancel_requested r \<longrightarrow> rr_cancel_requested r')
     \<and> (rr_status r \<in> TERMINAL_STATUSES \<longrightarrow> r' = r)"

definition db_later :: "run_db \<Rightarrow> run_db \<Rightarrow> bool" where
  "db_later db db' \<longleftrightarrow> rows_later run_later rr_id (rd_runs db) (rd_runs db')"

lemma run_later_refl [simp]: "run_later r r"
  by (simp add: run_later_def)

lemma run_later_trans: "run_later a b \<Longrightarrow> run_later b c \<Longrightarrow> run_later a c"
  by (auto simp: run_later_def)

lemma db_later_refl [simp]: "db_later db db"
  by (simp add: db_later_def rows_later_refl)

lemma db_later_trans: "db_later a b \<Longrightarrow> db_later b c \<Longrightarrow> db_later a c"
  unfolding db_later_def by (erule (1) rows_later_trans) (rule run_later_trans)

lemma db_later_runs: "rd_runs db' = rd_runs db \<Longrightarrow> db_later db db'"
  by (simp add: db_later_def rows_later_refl)

text \<open>An operation changes at most the row of one run: \<open>row_step\<close> says how.\<close>

definition row_step :: "string \<Rightarrow> (run_row \<Rightarrow> run_row \<Rightarrow> bool) \<Rightarrow> run_db \<Rightarrow> run_db \<Rightarrow> bool" where
  "row_step i R db db' \<longleftrightarrow> rd_runs db' = rd_runs db \<or>
     (\<exists>r f. find_by rr_id i (rd_runs db) = Some r \<and> R r (f r) \<and> (\<forall>x. rr_id (f x) = rr_id x) \<and>
        rd_runs db' = update_by rr_id i f (rd_runs db))"

lemma row_step_refl [simp]: "row_step i R db db"
  by (simp add: row_step_def)

lemma row_step_set_run:
  "get_run i db = Inr r \<Longrightarrow> R r (f r) \<Longrightarrow> (\<And>x. rr_id (f x) = rr_id x) \<Longrightarrow> row_step i R db (set_run i f db)"
  by (auto simp: row_step_def set_run_def get_run_def split: option.splits)

lemma row_step_find:
  assumes "row_step i R db db'" and "find_by rr_id k (rd_runs db') = Some x"
  shows "\<exists>r. find_by rr_id k (rd_runs db) = Some r \<and> (x = r \<or> k = i \<and> R r x)"
  using assms unfolding row_step_def by (auto simp: find_by_update_by split: if_splits)

lemma row_step_keys: "row_step i R db db' \<Longrightarrow> map rr_id (rd_runs db') = map rr_id (rd_runs db)"
  unfolding row_step_def by (auto simp: map_key_update_by)

lemma row_step_later:
  assumes "row_step i R db db'" and "\<And>r x. find_by rr_id i (rd_runs db) = Some r \<Longrightarrow> R r x \<Longrightarrow> run_later r x"
  shows "db_later db db'"
  using assms unfolding row_step_def db_later_def rows_later_def
  by (auto simp: find_by_update_by)

lemma sound_find: "sound db \<longleftrightarrow> distinct (map rr_id (rd_runs db)) \<and>
    (\<forall>k r. find_by rr_id k (rd_runs db) = Some r \<longrightarrow> rr_cancel_requested r \<longrightarrow> rr_status r \<in> ABANDONED)"
  unfolding sound_def using find_by_distinct [of rr_id "rd_runs db"] find_by_SomeD [of rr_id _ "rd_runs db"] by blast

lemma row_step_sound:
  assumes "row_step i R db db'" and "sound db"
    and "\<And>r x. find_by rr_id i (rd_runs db) = Some r \<Longrightarrow> R r x \<Longrightarrow> rr_cancel_requested x \<Longrightarrow> rr_status x \<in> ABANDONED"
  shows "sound db'"
  unfolding sound_find
proof (intro conjI allI impI)
  show "distinct (map rr_id (rd_runs db'))" using row_step_keys [OF assms(1)] assms(2) by (simp add: sound_def)
next
  fix k x assume k: "find_by rr_id k (rd_runs db') = Some x" "rr_cancel_requested x"
  from row_step_find [OF assms(1) k(1)] obtain r where "find_by rr_id k (rd_runs db) = Some r" "x = r \<or> k = i \<and> R r x" by blast
  with assms(2,3) k(2) show "rr_status x \<in> ABANDONED" unfolding sound_find by blast
qed

lemma row_step_task:
  assumes "row_step i R db db'" and "task_sound db t"
    and "\<And>r x. tk_run t = i \<Longrightarrow> find_by rr_id i (rd_runs db) = Some r \<Longrightarrow> R r x \<Longrightarrow> rr_status x \<notin> TERMINAL_STATUSES \<and>
       (tk_begun t \<and> \<not> tk_cancelled t \<and> rr_cancel_requested x \<longrightarrow> rr_status x = RCancelling)"
  shows "task_sound db' t"
  unfolding task_sound_def
proof (intro allI impI)
  fix x assume x: "find_by rr_id (tk_run t) (rd_runs db') = Some x"
  from row_step_find [OF assms(1) x] obtain r
    where r: "find_by rr_id (tk_run t) (rd_runs db) = Some r" "x = r \<or> tk_run t = i \<and> R r x" by blast
  from r(2) show "rr_status x \<notin> TERMINAL_STATUSES \<and>
      (tk_begun t \<and> \<not> tk_cancelled t \<and> rr_cancel_requested x \<longrightarrow> rr_status x = RCancelling)"
  proof
    assume "x = r"
    with r(1) assms(2) show ?thesis unfolding task_sound_def by blast
  next
    assume "tk_run t = i \<and> R r x"
    with r(1) assms(3) [of r x] show ?thesis by simp
  qed
qed

section \<open>What each operation does to the rows\<close>

definition moved :: "(run_row \<Rightarrow> run_status set) \<Rightarrow> run_row \<Rightarrow> run_row \<Rightarrow> bool" where
  "moved S r x \<longleftrightarrow> rr_status r \<notin> TERMINAL_STATUSES \<and> rr_cancel_requested x = rr_cancel_requested r \<and> rr_status x \<in> S r"

lemma moved_later: "moved S r x \<Longrightarrow> run_later r x"
  by (simp add: moved_def run_later_def)

lemma row_step_moved_later: "row_step i (moved S) db db' \<Longrightarrow> db_later db db'"
  by (erule row_step_later) (rule moved_later)

lemma moved_updated: "rr_status r \<notin> TERMINAL_STATUSES \<Longrightarrow> target \<in> S r \<Longrightarrow> moved S r (updated_row now target u r)"
  by (simp add: moved_def updated_row_def)

lemma updated_row_id [simp]: "rr_id (updated_row now target u r) = rr_id r"
  by (simp add: updated_row_def)

lemma update_status_run:
  assumes "get_run i db = Inr r" "rr_status r \<notin> TERMINAL_STATUSES"
  shows "update_status now i target [rr_status r] u db = (Inr (updated_row now target u r), set_run i (updated_row now target u) db)"
  using assms by (simp add: update_status_def)

lemma settle_step: "row_step i (moved (\<lambda>_. {target})) db (settle now i target u db)"
proof (cases "get_run i db")
  case (Inr r)
  show ?thesis
  proof (cases "rr_status r \<in> TERMINAL_STATUSES")
    case False
    with Inr have "settle now i target u db = set_run i (updated_row now target u) db"
      by (simp add: settle_def update_status_run)
    with Inr False show ?thesis by (simp add: row_step_set_run moved_updated)
  qed (simp add: settle_def Inr)
qed (simp add: settle_def)

lemma publish_step:
  "row_step i (moved (\<lambda>r. if rr_status r = RCancelling then {} else {pb_status st} - TERMINAL_STATUSES)) db
     (publish_state now i st db)" (is "row_step i (moved ?S) db _")
proof (cases "pb_status st \<in> TERMINAL_STATUSES \<or> (\<exists>e. get_run i db = Inl e)")
  case False
  then obtain r where r: "get_run i db = Inr r" and pb: "pb_status st \<notin> TERMINAL_STATUSES" by (cases "get_run i db") auto
  show ?thesis
  proof (cases "rr_status r = RCancelling \<or> rr_status r \<in> TERMINAL_STATUSES")
    case True
    with r pb have "publish_state now i st db = db" by (auto simp: publish_state_def update_status_def)
    then show ?thesis by simp
  next
    case False
    with r pb obtain u where "publish_state now i st db = set_run i (updated_row now (pb_status st) u) db"
      by (simp add: publish_state_def update_status_run)
    then show ?thesis using r pb False by (simp add: row_step_set_run moved_updated)
  qed
qed (auto simp: publish_state_def)

definition end_statuses :: "stream_end \<Rightarrow> run_row \<Rightarrow> run_status set" where
  "end_statuses se r = (case se of StreamDone (Some st) \<Rightarrow> {terminal_target r st} | StreamDone None \<Rightarrow> {RFailed}
     | StreamRaised c b m \<Rightarrow> {RFailed} | StreamCancelled l \<Rightarrow> {RInterrupted})"

lemma failed_step: "row_step i (moved (\<lambda>_. {RFailed})) db (fail_run now i code retryable message db)"
  by (simp add: fail_run_def Let_def settle_step)

lemma stream_done_step: "row_step i (moved (\<lambda>r. {terminal_target r st})) db (stream_outcome now stopping i (StreamDone (Some st)) db)"
proof (cases "get_run i db")
  case (Inl e)
  then show ?thesis by (simp add: stream_outcome_def publish_terminal_def fail_with_def fail_run_def settle_def)
next
  case (Inr r)
  show ?thesis
  proof (cases "rr_status r \<in> TERMINAL_STATUSES")
    case True
    with Inr show ?thesis
      by (auto simp: stream_outcome_def publish_terminal_def update_status_def fail_with_def fail_run_def settle_def)
  next
    case False
    with Inr obtain u where "stream_outcome now stopping i (StreamDone (Some st)) db = set_run i (updated_row now (terminal_target r st) u) db"
      by (simp add: stream_outcome_def publish_terminal_def update_status_run)
    then show ?thesis using Inr False by (simp add: row_step_set_run moved_updated)
  qed
qed

lemma stream_step: "row_step i (moved (end_statuses se)) db (stream_outcome now stopping i se db)"
proof (cases se)
  case (StreamDone st)
  show ?thesis
  proof (cases st)
    case None
    have "end_statuses se = (\<lambda>_. {RFailed})" by (simp add: StreamDone None end_statuses_def fun_eq_iff)
    then show ?thesis by (simp add: StreamDone None stream_outcome_def fail_with_def failed_step)
  next
    case (Some st')
    have "end_statuses se = (\<lambda>r. {terminal_target r st'})" by (simp add: StreamDone Some end_statuses_def fun_eq_iff)
    then show ?thesis by (simp add: StreamDone Some stream_done_step)
  qed
next
  case (StreamRaised c b m)
  have "end_statuses se = (\<lambda>_. {RFailed})" by (simp add: StreamRaised end_statuses_def fun_eq_iff)
  then show ?thesis by (simp add: StreamRaised stream_outcome_def failed_step)
next
  case (StreamCancelled l)
  have "end_statuses se = (\<lambda>_. {RInterrupted})" by (simp add: StreamCancelled end_statuses_def fun_eq_iff)
  then show ?thesis by (simp add: StreamCancelled stream_outcome_def interrupt_run_def settle_step)
qed

lemma cancel_step:
  "row_step i (\<lambda>r x. rr_status r \<notin> TERMINAL_STATUSES \<and> rr_status x = RCancelling \<and> rr_cancel_requested x) db
     (snd (request_cancel_run now i db))"
proof (cases "get_run i db")
  case (Inr r)
  show ?thesis
  proof (cases "rr_status r \<in> TERMINAL_STATUSES")
    case False
    with Inr show ?thesis by (simp add: request_cancel_run_def row_step_set_run cancelling_row_def)
  qed (simp add: request_cancel_run_def Inr)
qed (simp add: request_cancel_run_def)

lemma resume_step:
  "row_step i (\<lambda>r x. rr_status r \<in> RESUMABLE_STATUSES \<and> rr_status x = RInterrupted \<and> rr_cancel_requested x = rr_cancel_requested r)
     db (snd (mark_resumed now i db))"
proof (cases "get_run i db")
  case (Inr r)
  show ?thesis
  proof (cases "rr_status r \<in> RESUMABLE_STATUSES")
    case True
    with Inr show ?thesis by (simp add: mark_resumed_def row_step_set_run resumed_row_def)
  qed (simp add: mark_resumed_def Inr)
qed (simp add: mark_resumed_def)

lemma save_plan_step:
  "row_step i (\<lambda>r x. rr_status x = rr_status r \<and> rr_cancel_requested x = rr_cancel_requested r) db (snd (save_run_plan now i plan reason db))"
proof -
  define f where "f = (\<lambda>r :: run_row. r\<lparr>rr_plan_id := Some (rp_id plan), rr_plan_version := Some (rp_version plan), rr_updated := now\<rparr>)"
  have f: "rr_id (f r) = rr_id r" "rr_status (f r) = rr_status r" "rr_cancel_requested (f r) = rr_cancel_requested r" for r
    by (simp_all add: f_def)
  have "rd_runs (snd (save_run_plan now i plan reason db)) \<in> {rd_runs db, update_by rr_id i f (rd_runs db)}"
    by (auto simp: save_run_plan_def set_run_def f_def split: sum.splits)
  moreover have "update_by rr_id i f (rd_runs db) = rd_runs db" if "find_by rr_id i (rd_runs db) = None"
    using that by (simp add: find_by_None_iff update_by_absent)
  ultimately show ?thesis unfolding row_step_def using f by (cases "find_by rr_id i (rd_runs db)") auto
qed

section \<open>The invariant of the coordinator\<close>

definition no_purge :: "co_op \<Rightarrow> bool" where
  "no_purge op = (case op of Purge _ _ \<Rightarrow> False | _ \<Rightarrow> True)"

definition keeps :: "coordinator \<Rightarrow> coordinator \<Rightarrow> bool" where
  "keeps co co' \<longleftrightarrow> (co_inv co \<longrightarrow> co_inv co' \<and> db_later (co_db co) (co_db co'))"

lemma keepsI: "(co_inv co \<Longrightarrow> co_inv co') \<Longrightarrow> (co_inv co \<Longrightarrow> db_later (co_db co) (co_db co')) \<Longrightarrow> keeps co co'"
  by (simp add: keeps_def)

lemma keeps_refl [simp]: "keeps co co"
  by (simp add: keeps_def)

lemma keeps_trans: "keeps a b \<Longrightarrow> keeps b c \<Longrightarrow> keeps a c"
  unfolding keeps_def using db_later_trans by blast

lemma task_sound_runs: "rd_runs db' = rd_runs db \<Longrightarrow> task_sound db' t = task_sound db t"
  by (simp add: task_sound_def)

lemma sound_runs: "rd_runs db' = rd_runs db \<Longrightarrow> sound db' = sound db"
  by (simp add: sound_def)

text \<open>A change of the row of one run that keeps the task and cancellation invariants.\<close>

lemma keeps_row:
  assumes step: "row_step i R (co_db co) db'"
    and later: "\<And>r x. co_inv co \<Longrightarrow> find_by rr_id i (rd_runs (co_db co)) = Some r \<Longrightarrow> R r x \<Longrightarrow> run_later r x"
    and good: "\<And>r x. co_inv co \<Longrightarrow> find_by rr_id i (rd_runs (co_db co)) = Some r \<Longrightarrow> R r x \<Longrightarrow>
      rr_cancel_requested x \<Longrightarrow> rr_status x \<in> ABANDONED"
    and tasks: "\<And>t r x. t \<in> set tasks \<Longrightarrow> tk_run t = i \<Longrightarrow> co_inv co \<Longrightarrow> find_by rr_id i (rd_runs (co_db co)) = Some r \<Longrightarrow>
      R r x \<Longrightarrow> rr_status x \<notin> TERMINAL_STATUSES \<and> (tk_begun t \<and> \<not> tk_cancelled t \<and> rr_cancel_requested x \<longrightarrow> rr_status x = RCancelling)"
    and sub: "set tasks \<subseteq> set (co_tasks co)" "distinct (map tk_run tasks)"
  shows "keeps co (co\<lparr>co_db := db', co_tasks := tasks\<rparr>)"
proof (rule keepsI)
  assume inv: "co_inv co"
  then have s: "sound (co_db co)" and t: "\<And>t. t \<in> set tasks \<Longrightarrow> task_sound (co_db co) t"
    using sub(1) by (auto simp: co_inv_def)
  have "sound db'" by (rule row_step_sound [OF step s]) (use good [OF inv] in blast)
  moreover have "task_sound db' t" if "t \<in> set tasks" for t
    by (rule row_step_task [OF step t [OF that]]) (use tasks [OF that _ inv] in blast)
  ultimately show "co_inv (co\<lparr>co_db := db', co_tasks := tasks\<rparr>)" using sub(2) by (simp add: co_inv_def)
next
  assume inv: "co_inv co"
  show "db_later (co_db co) (co_db (co\<lparr>co_db := db', co_tasks := tasks\<rparr>))"
    using row_step_later [OF step later [OF inv]] by simp
qed

lemma keeps_runs:
  assumes "rd_runs db' = rd_runs (co_db co)"
    and "set tasks \<subseteq> set (co_tasks co)" "co_inv co \<Longrightarrow> distinct (map tk_run tasks)"
  shows "keeps co (co\<lparr>co_db := db', co_tasks := tasks\<rparr>)"
  using assms by (auto simp: keeps_def co_inv_def task_sound_runs [OF assms(1)] sound_runs [OF assms(1)] intro: db_later_runs)

lemma on_db_tasks: "on_db f co = co\<lparr>co_db := f (co_db co), co_tasks := co_tasks co\<rparr>"
  by (simp add: on_db_def)

lemma leases_keep_runs [simp]:
  "rd_runs (snd (acquire_lease now token i owner ttl db)) = rd_runs db"
  "rd_runs (snd (renew_lease now l ttl db)) = rd_runs db"
  "rd_runs (snd (release_lease l db)) = rd_runs db"
  by (auto simp: acquire_lease_def renew_lease_def release_lease_def Let_def split: option.splits)

lemma row_step_runs: "row_step i R db db' \<Longrightarrow> rd_runs db'' = rd_runs db' \<Longrightarrow> row_step i R db db''"
  by (simp add: row_step_def)

lemma end_task_tasks:
  "end_task i l db co = co\<lparr>co_db := snd (release_lease l db), co_tasks := filter (\<lambda>t. tk_run t \<noteq> i) (co_tasks co)\<rparr>"
  by (simp add: end_task_def)

lemma distinct_filter_tasks: "co_inv co \<Longrightarrow> distinct (map tk_run (filter P (co_tasks co)))"
  by (simp add: co_inv_def distinct_map_filter)

text \<open>A task ends: its run may be in any status afterwards that honours a requested cancellation.\<close>

lemma keeps_end:
  assumes step: "row_step i (moved S) (co_db co) db"
    and good: "\<And>r st. co_inv co \<Longrightarrow> find_by rr_id i (rd_runs (co_db co)) = Some r \<Longrightarrow> rr_cancel_requested r \<Longrightarrow>
      st \<in> S r \<Longrightarrow> st \<in> ABANDONED"
  shows "keeps co (end_task i l db co)"
proof (cases "co_inv co")
  case True
  show ?thesis unfolding end_task_tasks
  proof (rule keeps_row)
    show "row_step i (moved S) (co_db co) (snd (release_lease l db))"
      by (rule row_step_runs [OF step]) simp
  qed (use good in \<open>auto simp: moved_def moved_later distinct_filter_tasks [OF True] intro: moved_later\<close>)
qed (simp add: keeps_def)

lemma terminal_not_live:
  "TERMINAL_STATUSES = {RCompleted, RPartial, RFailed, RCancelled}" "RCancelling \<notin> TERMINAL_STATUSES" "RInterrupted \<notin> TERMINAL_STATUSES"
  by (simp_all add: TERMINAL_STATUSES_def)

lemma invD:
  assumes "co_inv co" "t \<in> set (co_tasks co)" "find_by rr_id (tk_run t) (rd_runs (co_db co)) = Some r"
  shows "rr_status r \<notin> TERMINAL_STATUSES"
    and "tk_begun t \<Longrightarrow> \<not> tk_cancelled t \<Longrightarrow> rr_cancel_requested r \<Longrightarrow> rr_status r = RCancelling"
  using assms by (auto simp: co_inv_def task_sound_def)

lemma keeps_cancel: "keeps co (co_step (CancelRun now i) co)"
proof (cases "co_inv co")
  case True
  then show ?thesis unfolding co_step.simps on_db_tasks
    by (intro keeps_row [OF cancel_step]) (auto simp: run_later_def ABANDONED_def TERMINAL_STATUSES_def co_inv_def cancelling_row_def)
qed (simp add: keeps_def)

lemma live_taskD: "live_task i co = Some t \<Longrightarrow> t \<in> set (co_tasks co) \<and> tk_run t = i \<and> tk_begun t \<and> \<not> tk_cancelled t"
  by (auto simp: live_task_def find_Some_iff)

lemma same_task: "co_inv co \<Longrightarrow> t \<in> set (co_tasks co) \<Longrightarrow> t' \<in> set (co_tasks co) \<Longrightarrow> tk_run t = tk_run t' \<Longrightarrow> t = t'"
  by (simp add: co_inv_def distinct_map inj_on_def)

lemma keeps_save: "keeps co (co_step (SavePlan now i plan reason) co)"
proof (cases "co_inv co \<and> live_task i co \<noteq> None")
  case True
  then obtain t where t: "t \<in> set (co_tasks co)" "tk_run t = i" and inv: "co_inv co" using live_taskD by auto
  have "co_step (SavePlan now i plan reason) co = co\<lparr>co_db := snd (save_run_plan now i plan reason (co_db co)), co_tasks := co_tasks co\<rparr>"
    using True by (auto simp: on_db_tasks)
  also have "keeps co \<dots>"
  proof (rule keeps_row [OF save_plan_step])
    fix r x :: run_row assume r: "find_by rr_id i (rd_runs (co_db co)) = Some r"
      and x: "rr_status x = rr_status r \<and> rr_cancel_requested x = rr_cancel_requested r"
    show "run_later r x" using invD(1) [OF inv t(1)] t(2) r x by (simp add: run_later_def)
    show "rr_cancel_requested x \<Longrightarrow> rr_status x \<in> ABANDONED" using inv r x by (auto simp: co_inv_def sound_find)
  next
    fix t and r x :: run_row assume "t \<in> set (co_tasks co)" "tk_run t = i" "find_by rr_id i (rd_runs (co_db co)) = Some r"
      and "rr_status x = rr_status r \<and> rr_cancel_requested x = rr_cancel_requested r"
    then show "rr_status x \<notin> TERMINAL_STATUSES \<and> (tk_begun t \<and> \<not> tk_cancelled t \<and> rr_cancel_requested x \<longrightarrow> rr_status x = RCancelling)"
      using invD [OF inv] by metis
  qed (use inv in \<open>simp_all add: co_inv_def\<close>)
  finally show ?thesis .
qed (auto simp: keeps_def)

lemma keeps_publish: "keeps co (co_step (PublishState now i st) co)"
proof (cases "co_inv co \<and> live_task i co \<noteq> None")
  case True
  then obtain t where t: "t \<in> set (co_tasks co)" "tk_run t = i" "tk_begun t" "\<not> tk_cancelled t" and inv: "co_inv co"
    using live_taskD by auto
  have calm: "\<not> rr_cancel_requested r" if "find_by rr_id i (rd_runs (co_db co)) = Some r" "rr_status r \<noteq> RCancelling" for r
    using invD(2) [OF inv t(1) _ t(3,4)] t(2) that by auto
  have "co_step (PublishState now i st) co = co\<lparr>co_db := publish_state now i st (co_db co), co_tasks := co_tasks co\<rparr>"
    using True by (auto simp: on_db_tasks)
  also have "keeps co \<dots>"
    by (rule keeps_row [OF publish_step]) (use inv calm in \<open>auto simp: moved_def run_later_def co_inv_def split: if_splits\<close>)
  finally show ?thesis .
qed (auto simp: keeps_def)

lemma end_statuses_good:
  assumes "co_inv co" "t \<in> set (co_tasks co)" "tk_begun t" "end_allowed t se"
    and "find_by rr_id (tk_run t) (rd_runs (co_db co)) = Some r" "rr_cancel_requested r" "st \<in> end_statuses se r"
  shows "st \<in> ABANDONED"
proof (cases "\<exists>p. se = StreamDone (Some p)")
  case True
  then have "rr_status r = RCancelling" using invD(2) [OF assms(1,2,5)] assms(4,6) by auto
  then show ?thesis using True assms(7) by (auto simp: end_statuses_def terminal_target_def ABANDONED_def)
next
  case False
  then show ?thesis using assms(7) by (auto simp: end_statuses_def ABANDONED_def split: stream_end.splits option.splits)
qed

lemma keeps_ends: "keeps co (co_step (TaskEnds now i se) co)"
proof (cases "find_by tk_run i (co_tasks co)")
  case (Some t)
  then have t: "t \<in> set (co_tasks co)" "tk_run t = i" by (auto dest: find_by_SomeD)
  show ?thesis
  proof (cases "end_allowed t se \<and> tk_begun t")
    case True
    then have "co_step (TaskEnds now i se) co = end_task i (tk_lease t) (stream_outcome now (co_stopping co) i se (co_db co)) co"
      by (simp add: Some)
    moreover have "keeps co \<dots>"
      by (rule keeps_end [OF stream_step]) (use end_statuses_good [OF _ t(1)] True t(2) in blast)
    ultimately show ?thesis by simp
  next
    case False
    have "keeps co (co\<lparr>co_db := co_db co, co_tasks := filter (\<lambda>t. tk_run t \<noteq> i) (co_tasks co)\<rparr>)"
      by (rule keeps_runs) (auto simp: distinct_filter_tasks)
    with False Some show ?thesis by auto
  qed
qed simp

text \<open>A new task on a run that is not finished.\<close>

lemma keeps_start:
  assumes "\<not> in_tasks (le_run_id lease) co"
    and "\<And>r. find_by rr_id (le_run_id lease) (rd_runs (co_db co)) = Some r \<Longrightarrow> rr_status r \<notin> TERMINAL_STATUSES"
  shows "keeps co (start_task lease co)"
  using assms by (auto simp: keeps_def co_inv_def start_task_def in_tasks_def task_sound_def)

lemma keeps_db_runs: "rd_runs db = rd_runs (co_db co) \<Longrightarrow> keeps co (co\<lparr>co_db := db\<rparr>)"
  by (auto simp: keeps_def co_inv_def task_sound_runs [of db] sound_runs [of db] intro: db_later_runs)

lemma acquired_id: "acquire_lease now token i owner ttl db = (Inr (Some l), db') \<Longrightarrow> le_run_id l = i"
  by (auto simp: acquire_lease_def Let_def split: option.splits if_splits)

lemma keeps_claims:
  assumes "\<And>i r. i \<in> set ids \<Longrightarrow> find_by rr_id i (rd_runs (co_db co)) = Some r \<Longrightarrow> rr_status r \<notin> TERMINAL_STATUSES"
  shows "keeps co (claim_runs now token ids co)"
  using assms
proof (induction now token ids co rule: claim_runs.induct)
  case (2 now token i ids co)
  show ?case
  proof (cases "co_max co \<le> length (co_tasks co) \<or> in_tasks i co")
    case True
    have "keeps co (claim_runs now token ids co)" if "\<not> co_max co \<le> length (co_tasks co)" "in_tasks i co"
    proof (rule 2(1) [OF that])
      fix j r assume "j \<in> set ids" "find_by rr_id j (rd_runs (co_db co)) = Some r"
      then show "rr_status r \<notin> TERMINAL_STATUSES" using 2(4) [of j r] by simp
    qed
    with True show ?thesis by auto
  next
    case False
    then have n: "\<not> co_max co \<le> length (co_tasks co)" "\<not> in_tasks i co" by auto
    obtain out db where a: "acquire_lease now (token i) i (co_owner co) (co_lease_span co) (co_db co) = (out, db)" by fastforce
    have runs: "rd_runs db = rd_runs (co_db co)" using leases_keep_runs(1) a by (metis snd_conv)
    show ?thesis
    proof (cases out)
      case (Inl e)
      then show ?thesis using False a by simp
    next
      case (Inr res)
      show ?thesis
      proof (cases res)
        case None
        have "keeps co (claim_runs now token ids co)"
        proof (rule 2(2) [OF n a [symmetric] Inr None])
          fix j r assume "j \<in> set ids" "find_by rr_id j (rd_runs (co_db co)) = Some r"
          then show "rr_status r \<notin> TERMINAL_STATUSES" using 2(4) [of j r] by simp
        qed
        then show ?thesis using False a Inr None by simp
      next
        case (Some lease)
        let ?co = "co\<lparr>co_db := db\<rparr>"
        have id: "le_run_id lease = i" using acquired_id a Inr Some by blast
        have "keeps ?co (start_task lease ?co)"
          by (rule keeps_start) (use False 2(4) [of i] in \<open>simp_all add: id runs in_tasks_def\<close>)
        moreover have "keeps co ?co" by (rule keeps_db_runs) (rule runs)
        moreover have "keeps (start_task lease ?co) (claim_runs now token ids (start_task lease ?co))"
        proof (rule 2(3) [OF n a [symmetric] Inr Some])
          fix j r assume "j \<in> set ids" "find_by rr_id j (rd_runs (co_db (start_task lease ?co))) = Some r"
          then show "rr_status r \<notin> TERMINAL_STATUSES" using 2(4) [of j r] runs by (simp add: start_task_def)
        qed
        ultimately have "keeps co (claim_runs now token ids (start_task lease ?co))" using keeps_trans by blast
        then show ?thesis using False a Inr Some by simp
      qed
    qed
  qed
qed simp

lemma claimable_live:
  assumes "sound db" "i \<in> set (list_claimable now limit db)" "find_by rr_id i (rd_runs db) = Some r"
  shows "rr_status r \<notin> TERMINAL_STATUSES"
proof -
  from assms(2) obtain r' where r': "r' \<in> set (rd_runs db)" "rr_id r' = i" "claimable now db r'"
    by (auto simp: list_claimable_def dest!: in_set_takeD)
  have "find_by rr_id (rr_id r') (rd_runs db) = Some r'" using assms(1) r'(1) by (simp add: sound_def find_by_distinct)
  with assms(3) r'(2,3) show ?thesis by (simp add: claimable_def)
qed

lemma keeps_claim_round: "keeps co (co_step (ClaimRound now token) co)"
proof (cases "co_inv co")
  case True
  then show ?thesis
    using keeps_claims claimable_live by (auto simp: claim_round_def co_inv_def)
qed (simp add: keeps_def)

lemma keeps_resume: "keeps co (co_step (ResumeRun gv sv now token ckpt i) co)"
proof -
  obtain out db where a: "acquire_lease now token i (co_owner co) (co_lease_span co) (co_db co) = (out, db)" by fastforce
  obtain out2 db2 where m: "mark_resumed now i db = (out2, db2)" by fastforce
  have runs: "rd_runs db = rd_runs (co_db co)" using leases_keep_runs(1) a by (metis snd_conv)
  show ?thesis
  proof (cases "snd (resume_run gv sv now token ckpt i co) = co")
    case False
    then obtain run lease where g: "get_run i (co_db co) = Inr run" and free: "\<not> in_tasks i co" and l: "out = Inr (Some lease)"
      by (auto simp: resume_run_def a split: sum.splits option.splits if_splits)
    have id: "le_run_id lease = i" using acquired_id a l by blast
    have g': "get_run i db = Inr run" using g by (simp add: get_run_def runs)
    show ?thesis
    proof (cases "rr_status run \<in> RESUMABLE_STATUSES")
      case ok: True
      then have m': "mark_resumed now i db = (Inr (resumed_row now run), set_run i (resumed_row now) db)"
        using g' by (simp add: mark_resumed_def)
      have step: "row_step i (\<lambda>r x. rr_status r \<in> RESUMABLE_STATUSES \<and> rr_status x = RInterrupted \<and>
          rr_cancel_requested x = rr_cancel_requested r) (co_db co) (set_run i (resumed_row now) db)"
        using resume_step [of i db now] m' runs by (simp add: row_step_def)
      let ?co = "co\<lparr>co_db := set_run i (resumed_row now) db, co_tasks := co_tasks co\<rparr>"
      have 1: "keeps co ?co" if "co_inv co"
      proof (rule keeps_row [OF step])
        fix t assume "t \<in> set (co_tasks co)" "tk_run t = i"
        then show "rr_status x \<notin> TERMINAL_STATUSES \<and> (tk_begun t \<and> \<not> tk_cancelled t \<and> rr_cancel_requested x \<longrightarrow> rr_status x = RCancelling)" for x
          using free by (auto simp: in_tasks_def)
      qed (use that in \<open>auto simp: run_later_def RESUMABLE_STATUSES_def TERMINAL_STATUSES_def ABANDONED_def co_inv_def\<close>)
      have 2: "keeps ?co (start_task lease ?co)"
      proof (rule keeps_start)
        show "\<not> in_tasks (le_run_id lease) ?co" using free id by (simp add: in_tasks_def)
        fix r assume "find_by rr_id (le_run_id lease) (rd_runs (co_db ?co)) = Some r"
        then have "rr_status r = RInterrupted"
          by (auto simp: id set_run_def find_by_update_by resumed_row_def)
        then show "rr_status r \<notin> TERMINAL_STATUSES" by (simp add: TERMINAL_STATUSES_def)
      qed
      have "snd (resume_run gv sv now token ckpt i co) \<in> {co, start_task lease ?co}"
        using g free l a m' by (auto simp: resume_run_def split: if_splits)
      then show ?thesis using 1 2 keeps_trans [of co ?co] False by (cases "co_inv co") (auto simp: keeps_def)
    next
      case bad: False
      then have "mark_resumed now i db = (Inl (store_error ''resume_not_allowed''), db)"
        using g' by (simp add: mark_resumed_def)
      then have "snd (resume_run gv sv now token ckpt i co) \<in> {co, co\<lparr>co_db := snd (release_lease lease db)\<rparr>}"
        using g free l a by (auto simp: resume_run_def split: if_splits)
      moreover have "keeps co (co\<lparr>co_db := snd (release_lease lease db)\<rparr>)"
        by (rule keeps_db_runs) (simp add: runs)
      ultimately show ?thesis by auto
    qed
  qed simp
qed

lemma keeps_create: "keeps co (co_step (CreateRun now uuid repo_id version rq caller key gv sv) co)"
proof -
  define db where "db = snd (create_run now uuid repo_id version rq caller key gv sv (co_db co))"
  have "rd_runs db = rd_runs (co_db co) \<or> (\<exists>row. rd_runs db = rd_runs (co_db co) @ [row] \<and>
      rr_id row \<notin> rr_id ` set (rd_runs (co_db co)) \<and> rr_status row = RQueued \<and> \<not> rr_cancel_requested row)"
    by (auto simp: db_def create_run_def insert_run_def new_run_def Let_def split: option.splits)
  then have "keeps co (co\<lparr>co_db := db\<rparr>)"
  proof
    assume "\<exists>row. rd_runs db = rd_runs (co_db co) @ [row] \<and> rr_id row \<notin> rr_id ` set (rd_runs (co_db co)) \<and>
      rr_status row = RQueued \<and> \<not> rr_cancel_requested row"
    then obtain row where row: "rd_runs db = rd_runs (co_db co) @ [row]" "rr_id row \<notin> rr_id ` set (rd_runs (co_db co))"
      "rr_status row = RQueued" "\<not> rr_cancel_requested row" by blast
    have "task_sound db t" if "task_sound (co_db co) t" for t
      using that row by (auto simp: task_sound_def find_by_append TERMINAL_STATUSES_def split: option.splits)
    then show ?thesis
      using row by (auto simp: keeps_def co_inv_def sound_def db_later_def intro: rows_later_append)
  qed (rule keeps_db_runs)
  then show ?thesis by (simp add: on_db_def db_def)
qed

lemma keeps_begins: "keeps co (co_step (TaskBegins now ckpt i) co)"
proof (cases "find_by tk_run i (co_tasks co)")
  case (Some t)
  then have t: "t \<in> set (co_tasks co)" "tk_run t = i" by (auto dest: find_by_SomeD)
  show ?thesis
  proof (cases "tk_begun t \<or> tk_cancelled t")
    case False
    then have e: "co_step (TaskBegins now ckpt i) co = task_begins now ckpt t co" by (simp add: Some)
    have fails: "keeps co (end_task i (tk_lease t) (fail_with now i e (co_db co)) co)" for e
      unfolding fail_with_def by (rule keeps_end [OF failed_step]) (simp add: ABANDONED_def)
    show ?thesis
    proof (cases "get_run i (co_db co)")
      case (Inl x)
      have "keeps co (end_task i (tk_lease t) (co_db co) co)"
        by (rule keeps_end [where S = "\<lambda>_. {}"]) simp_all
      then show ?thesis unfolding e by (simp add: task_begins_def t(2) Inl)
    next
      case (Inr run)
      then have found: "find_by rr_id i (rd_runs (co_db co)) = Some run" by (simp add: get_run_def split: option.splits)
      consider (cancel) "rr_status run = RCancelling \<or> rr_cancel_requested run"
        | (lost) "\<not> (rr_status run = RCancelling \<or> rr_cancel_requested run)" "rr_status run \<in> {RInterrupted, RPaused} \<and> \<not> ckpt"
        | (go) "\<not> (rr_status run = RCancelling \<or> rr_cancel_requested run)" "\<not> (rr_status run \<in> {RInterrupted, RPaused} \<and> \<not> ckpt)"
        by blast
      then show ?thesis
      proof cases
        case cancel
        show ?thesis
        proof (cases "co_inv co")
          case True
          then have live: "rr_status run \<notin> TERMINAL_STATUSES" using invD(1) [OF True t(1)] found t(2) by simp
          have step: "row_step i (moved (\<lambda>_. {RCancelled})) (co_db co) (set_run i (updated_row now RCancelled no_update) (co_db co))"
            using Inr live by (simp add: row_step_set_run moved_updated)
          have "keeps co (end_task i (tk_lease t) (set_run i (updated_row now RCancelled no_update) (co_db co)) co)"
            by (rule keeps_end [OF step]) (simp add: ABANDONED_def)
          then show ?thesis unfolding e using cancel live by (simp add: task_begins_def t(2) Inr Let_def update_status_run)
        qed (simp add: keeps_def)
      next
        case lost
        then show ?thesis unfolding e using fails by (simp add: task_begins_def t(2) Inr Let_def)
      next
        case go
        have "keeps co (set_task i (\<lambda>t. t\<lparr>tk_begun := True\<rparr>) co)"
        proof (rule keepsI)
          assume inv: "co_inv co"
          have "task_sound (co_db co) (t'\<lparr>tk_begun := True\<rparr>)" if "task_sound (co_db co) t'" "tk_run t' = i" for t'
            using that found go(1) by (auto simp: task_sound_def)
          then show "co_inv (set_task i (\<lambda>t. t\<lparr>tk_begun := True\<rparr>) co)"
            using inv by (auto simp: co_inv_def set_task_def set_update_by map_key_update_by)
        qed (simp add: set_task_def)
        then show ?thesis unfolding e using go by (auto simp: task_begins_def t(2) Inr Let_def)
      qed
    qed
  qed (simp add: Some)
qed simp

lemma interrupt_step: "row_step i (moved (\<lambda>_. {RInterrupted})) db (interrupt_run now reason i db)"
  by (simp add: interrupt_run_def settle_step)

lemma interrupt_one:
  assumes "sound db"
  shows "sound (interrupt_run now reason i db) \<and> db_later db (interrupt_run now reason i db) \<and>
    (task_sound db t \<and> (tk_run t = i \<longrightarrow> tk_cancelled t) \<longrightarrow> task_sound (interrupt_run now reason i db) t)"
proof (intro conjI impI)
  show "sound (interrupt_run now reason i db)"
    by (rule row_step_sound [OF interrupt_step assms]) (simp add: moved_def ABANDONED_def)
  show "db_later db (interrupt_run now reason i db)" by (rule row_step_moved_later [OF interrupt_step])
  assume "task_sound db t \<and> (tk_run t = i \<longrightarrow> tk_cancelled t)"
  then show "task_sound (interrupt_run now reason i db) t"
    by (intro row_step_task [OF interrupt_step]) (auto simp: moved_def TERMINAL_STATUSES_def)
qed

lemma interrupt_many:
  "sound db \<Longrightarrow> sound (interrupt_all now ids db) \<and> db_later db (interrupt_all now ids db) \<and>
    (task_sound db t \<and> (tk_run t \<in> set ids \<longrightarrow> tk_cancelled t) \<longrightarrow> task_sound (interrupt_all now ids db) t)"
proof (induction ids arbitrary: db)
  case (Cons i ids)
  note one = interrupt_one [OF Cons.prems, of now "''application_shutdown''" i t]
  note rest = Cons.IH [of "interrupt_run now ''application_shutdown'' i db"]
  have "interrupt_all now (i # ids) db = interrupt_all now ids (interrupt_run now ''application_shutdown'' i db)"
    by (simp add: interrupt_all_def)
  with one rest db_later_trans show ?case by auto
qed (simp add: interrupt_all_def)

lemma keeps_stop: "keeps co (co_step (Stop now pending) co)"
proof (cases "co_inv co")
  case True
  define late where "late = map tk_run (filter (\<lambda>t. tk_run t \<in> set pending) (co_tasks co))"
  define f where "f = (\<lambda>t :: run_task. if tk_run t \<in> set pending then t\<lparr>tk_cancelled := True\<rparr> else t)"
  have s: "sound (co_db co)" using True by (simp add: co_inv_def)
  have "task_sound (interrupt_all now late (co_db co)) (f t)" if t: "t \<in> set (co_tasks co)" for t
  proof -
    have "task_sound (co_db co) (f t)" using True t by (auto simp: co_inv_def f_def task_sound_def)
    moreover have "tk_run (f t) \<in> set late \<longrightarrow> tk_cancelled (f t)" by (auto simp: late_def f_def)
    ultimately show ?thesis using interrupt_many [OF s] by blast
  qed
  moreover have "tk_run \<circ> f = tk_run" by (simp add: f_def fun_eq_iff)
  ultimately show ?thesis
    using True interrupt_many [OF s, of now late]
    by (auto simp: keeps_def co_inv_def stop_coordinator_def late_def [symmetric] f_def [symmetric] Let_def)
qed (simp add: keeps_def)

lemma keeps_heartbeat: "keeps co (co_step (Heartbeat now i) co)"
  by (auto simp: on_db_def intro!: keeps_db_runs split: option.splits)

lemma co_step_keeps: "no_purge op \<Longrightarrow> keeps co (co_step op co)"
proof (cases op)
  case (Restart owner n l)
  then show ?thesis by (simp add: keeps_def co_inv_def new_coordinator_def)
qed (simp_all only: keeps_create keeps_cancel keeps_resume keeps_claim_round keeps_begins keeps_save keeps_publish
    keeps_ends keeps_heartbeat keeps_stop no_purge_def co_op.case simp_thms)

lemma forget_run_same [simp]:
  "rr_id (forget_run i r) = rr_id r" "rr_status (forget_run i r) = rr_status r"
  "rr_cancel_requested (forget_run i r) = rr_cancel_requested r"
  by (simp_all add: forget_run_def)

lemma find_by_forget:
  "find_by rr_id k (map (forget_run i) (filter (\<lambda>r. rr_id r \<noteq> i) rows)) =
     (if k = i then None else map_option (forget_run i) (find_by rr_id k rows))"
  by (induction rows) auto

lemma delete_inv:
  "sound db \<Longrightarrow> sound (snd (delete_terminal_run i db))"
  "task_sound db t \<Longrightarrow> task_sound (snd (delete_terminal_run i db)) t"
  by (auto simp: sound_def task_sound_def delete_terminal_run_def find_by_forget comp_def distinct_map_filter split: if_splits)

lemma purge_inv:
  "sound db \<and> (\<forall>t \<in> T. task_sound db t) \<Longrightarrow>
   (let db' = snd (fold (\<lambda>r (n, db). let (gone, db') = delete_terminal_run (rr_id r) db
                                      in (if gone then n + 1 else n, db')) runs (k, db))
    in sound db' \<and> (\<forall>t \<in> T. task_sound db' t))"
proof (induction runs arbitrary: k db)
  case (Cons r runs)
  obtain gone db1 where d: "delete_terminal_run (rr_id r) db = (gone, db1)" by fastforce
  have "sound db1 \<and> (\<forall>t \<in> T. task_sound db1 t)"
    using Cons.prems delete_inv [of db] d by (metis snd_conv)
  from Cons.IH [OF this] show ?case by (simp add: d)
qed simp

lemma co_step_inv: "co_inv co \<Longrightarrow> co_inv (co_step op co)"
proof (cases op)
  case (Purge cutoff limit)
  assume "co_inv co"
  then show ?thesis
    using purge_inv [of "co_db co" "set (co_tasks co)" "terminal_runs_before cutoff limit (co_db co)" 0]
    by (simp add: Purge purge_terminal_runs_def co_inv_def Let_def case_prod_beta)
qed (use co_step_keeps [of op co] in \<open>simp_all only: keeps_def no_purge_def co_op.case simp_thms\<close>)

interpretation coordinator_inv: machine co_step "\<lambda>_. True" co_inv "\<lambda>_ _. True"
  by unfold_locales (simp_all add: co_step_inv)

interpretation coordinator: machine co_step no_purge co_inv "\<lambda>a b. db_later (co_db a) (co_db b)"
proof unfold_locales
  show "co_inv s \<Longrightarrow> no_purge op \<Longrightarrow> db_later (co_db s) (co_db (co_step op s))" for s op
    using co_step_keeps [of op s] by (simp add: keeps_def)
qed (auto simp: co_step_inv intro: db_later_trans)

lemma co_run_inv: "co_inv (co_run ops (new_coordinator owner n l empty_run_db))"
  unfolding co_run_def
  by (rule coordinator_inv.run_inv) (simp_all add: co_inv_def new_coordinator_def empty_run_db_def sound_def list_all_iff)

lemma co_run_row:
  assumes "co_inv co" "list_all no_purge ops" "get_run i (co_db co) = Inr r"
  shows "\<exists>r'. get_run i (co_db (co_run ops co)) = Inr r' \<and> run_later r r'"
  using coordinator.run_later [OF assms(1,2)] assms(3)
  by (auto simp: db_later_def get_run_def co_run_def dest!: rows_laterD split: option.splits)

text \<open>
  C37. The outcome of a research run is final.  In any history of a coordinator over its store
  (calls of the API, claims, tasks that begin, publish and end, lost leases, shutdowns, crashes and
  restarts), once a run is completed, partial, failed or cancelled, its row never changes again
  until it is purged.
\<close>

theorem finished_run_frozen:
  assumes "co1 = co_run ops0 (new_coordinator owner n l empty_run_db)"
    and "get_run i (co_db co1) = Inr r" and "rr_status r \<in> TERMINAL_STATUSES" and "list_all no_purge ops"
  shows "get_run i (co_db (co_run ops co1)) = Inr r"
proof -
  have "co_inv co1" unfolding assms(1) by (rule co_run_inv)
  from co_run_row [OF this assms(4,2)] assms(3) show ?thesis by (auto simp: run_later_def)
qed

text \<open>
  C38. An accepted cancellation is honoured.  If the cancellation of an unfinished run is requested,
  then in any later history without a purge the request stays on record and the run is never
  completed nor partial: it is cancelling, interrupted, failed or cancelled, even if its graph goes
  on to publish states and ends with an answer, and across restarts.
\<close>

theorem cancelled_run_never_completes:
  assumes "co1 = co_run ops0 (new_coordinator owner n l empty_run_db)"
    and "get_run i (co_db co1) = Inr r" and "rr_status r \<notin> TERMINAL_STATUSES" and "list_all no_purge ops"
  shows "\<exists>r'. get_run i (co_db (co_run (CancelRun now i # ops) co1)) = Inr r' \<and> rr_cancel_requested r' \<and>
    rr_status r' \<in> {RCancelling, RCancelled, RFailed, RInterrupted}"
proof -
  have inv: "co_inv co1" unfolding assms(1) by (rule co_run_inv)
  let ?co2 = "co_step (CancelRun now i) co1"
  have inv2: "co_inv ?co2" by (rule co_step_inv [OF inv])
  have "get_run i (co_db ?co2) = Inr (cancelling_row now r)"
    using assms(2,3) by (auto simp: on_db_def request_cancel_run_def get_run_def set_run_def find_by_update_by cancelling_row_def split: option.splits)
  from co_run_row [OF inv2 assms(4) this] obtain r' where
    r': "get_run i (co_db (co_run ops ?co2)) = Inr r'" "run_later (cancelling_row now r) r'" by blast
  have c: "rr_cancel_requested r'" using r'(2) by (simp add: run_later_def cancelling_row_def)
  have "co_inv (co_run ops ?co2)" unfolding co_run_def by (rule coordinator_inv.run_inv [OF inv2]) (simp add: list_all_iff)
  with r'(1) c have "rr_status r' \<in> ABANDONED" by (auto simp: co_inv_def sound_find get_run_def split: option.splits)
  with r'(1) c show ?thesis by (simp add: co_run_def ABANDONED_def)
qed

definition demo_run_created :: coordinator where
  "demo_run_created = co_run [CreateRun 0 ''1'' ''repo'' ''v1'' demo_create ''me'' None ''1.0'' ''1.0'']
     (new_coordinator ''a'' 2 30000000 empty_run_db)"

definition demo_run_done :: published where
  "demo_run_done = \<lparr>pb_status = RCompleted, pb_route = Planned, pb_stop_reason = None, pb_cancel_requested = False,
     pb_result = JObj [], pb_budget = JObj [], pb_errors = JArr []\<rparr>"

lemma demo_run_created_run:
  "get_run ''run_1'' (co_db demo_run_created) =
     Inr (new_run 0 ''run_1'' ''repo'' ''v1'' demo_create (caller_hash ''me'') None ''1.0'' ''1.0'')"
  by (simp add: demo_run_created_def co_run_def new_coordinator_def on_db_def create_run_def insert_run_def empty_run_db_def
      known_run_def demo_create_def get_run_def Let_def) (simp add: new_run_def demo_create_def)

theorem cancelled_run_never_completes_witness:
  "\<exists>r'. get_run ''run_1'' (co_db (co_run [CancelRun 2000000 ''run_1'', ClaimRound 3000000 (\<lambda>_. ''t''),
       TaskBegins 3000000 False ''run_1'', TaskEnds 4000000 ''run_1'' (StreamDone (Some demo_run_done))] demo_run_created)) = Inr r'
     \<and> rr_status r' \<notin> {RCompleted, RPartial}"
  using cancelled_run_never_completes [OF demo_run_created_def demo_run_created_run, of "[ClaimRound 3000000 (\<lambda>_. ''t''),
       TaskBegins 3000000 False ''run_1'', TaskEnds 4000000 ''run_1'' (StreamDone (Some demo_run_done))]" 2000000]
  by (auto simp: new_run_def TERMINAL_STATUSES_def no_purge_def)

definition demo_finished :: coordinator where
  "demo_finished = co_run [CreateRun 0 ''1'' ''repo'' ''v1'' demo_create ''me'' None ''1.0'' ''1.0'', ClaimRound 1000000 (\<lambda>_. ''t''),
     TaskBegins 1000000 False ''run_1'', TaskEnds 4000000 ''run_1'' (StreamDone (Some demo_run_done))]
     (new_coordinator ''a'' 2 30000000 empty_run_db)"

lemma demo_claimed:
  "co_step (ClaimRound 1000000 (\<lambda>_. ''t'')) demo_run_created = start_task
     \<lparr>le_run_id = ''run_1'', le_owner = ''a'', le_token = ''t'', le_expires = 31000000\<rparr>
     (demo_run_created\<lparr>co_db := snd (acquire_lease 1000000 ''t'' ''run_1'' ''a'' 30000000 (co_db demo_run_created))\<rparr>)"
  by (simp add: demo_run_created_def co_run_def new_coordinator_def on_db_def create_run_def insert_run_def empty_run_db_def
      known_run_def demo_create_def Let_def claim_round_def list_claimable_def claimable_def new_run_def
      TERMINAL_STATUSES_def in_tasks_def acquire_lease_def lease_span_def start_task_def)

lemma demo_finished_run:
  "\<exists>r. get_run ''run_1'' (co_db demo_finished) = Inr r \<and> rr_status r = RCompleted"
proof -
  define co where "co = co_step (ClaimRound 1000000 (\<lambda>_. ''t'')) demo_run_created"
  have "rd_runs (co_db co) = rd_runs (co_db demo_run_created)" unfolding co_def demo_claimed by (simp add: start_task_def)
  then have run: "get_run ''run_1'' (co_db co) =
      Inr (new_run 0 ''run_1'' ''repo'' ''v1'' demo_create (caller_hash ''me'') None ''1.0'' ''1.0'')"
    using demo_run_created_run by (simp add: get_run_def)
  have tasks: "find_by tk_run ''run_1'' (co_tasks co) = Some \<lparr>tk_run = ''run_1'',
      tk_lease = \<lparr>le_run_id = ''run_1'', le_owner = ''a'', le_token = ''t'', le_expires = 31000000\<rparr>, tk_begun = False, tk_cancelled = False\<rparr>"
    unfolding co_def demo_claimed
    by (simp add: start_task_def) (simp add: demo_run_created_def co_run_def new_coordinator_def on_db_def)
  define co2 where "co2 = co_step (TaskBegins 1000000 False ''run_1'') co"
  have co2: "co2 = set_task ''run_1'' (\<lambda>t. t\<lparr>tk_begun := True\<rparr>) co"
    unfolding co2_def using run tasks by (simp add: task_begins_def Let_def) (simp add: new_run_def)
  have tasks2: "\<exists>t. find_by tk_run ''run_1'' (co_tasks co2) = Some t \<and> tk_begun t \<and> \<not> tk_cancelled t"
    by (simp add: co2 set_task_def find_by_update_by tasks)
  have db2: "co_db co2 = co_db co" by (simp add: co2 set_task_def)
  define row where "row = new_run 0 ''run_1'' ''repo'' ''v1'' demo_create (caller_hash ''me'') None ''1.0'' ''1.0''"
  have "rr_status row \<notin> TERMINAL_STATUSES" by (simp add: row_def new_run_def TERMINAL_STATUSES_def)
  note up = update_status_run [OF run [folded row_def] this]
  have "rr_status row \<noteq> RCancelling" by (simp add: row_def new_run_def)
  then have "terminal_target row demo_run_done = RCompleted"
    by (simp add: terminal_target_def demo_run_done_def TERMINAL_STATUSES_def)
  then obtain u where "stream_outcome 4000000 (co_stopping co2) ''run_1'' (StreamDone (Some demo_run_done)) (co_db co) =
       set_run ''run_1'' (updated_row 4000000 RCompleted u) (co_db co)"
    using run up by (simp add: stream_outcome_def publish_terminal_def row_def [symmetric])
  then have "rd_runs (co_db (co_step (TaskEnds 4000000 ''run_1'' (StreamDone (Some demo_run_done))) co2)) =
      update_by rr_id ''run_1'' (updated_row 4000000 RCompleted u) (rd_runs (co_db co))"
    using tasks2 by (auto simp: end_task_def db2 set_run_def)
  moreover have "demo_finished = co_step (TaskEnds 4000000 ''run_1'' (StreamDone (Some demo_run_done))) co2"
    by (simp only: demo_finished_def co2_def co_def demo_run_created_def co_run_def fold_simps)
  ultimately show ?thesis
    using run by (auto simp: get_run_def find_by_update_by updated_row_def split: option.splits)
qed

theorem finished_run_frozen_witness:
  "\<exists>r. get_run ''run_1'' (co_db (co_run [CancelRun 5000000 ''run_1'', Restart ''b'' 1 5000000, ClaimRound 90000000 (\<lambda>_. ''u'')]
     demo_finished)) = Inr r \<and> rr_status r = RCompleted"
proof -
  obtain r where r: "get_run ''run_1'' (co_db demo_finished) = Inr r" "rr_status r = RCompleted" using demo_finished_run by blast
  from finished_run_frozen [OF demo_finished_def r(1), of "[CancelRun 5000000 ''run_1'', Restart ''b'' 1 5000000, ClaimRound 90000000 (\<lambda>_. ''u'')]"]
  have "get_run ''run_1'' (co_db (co_run [CancelRun 5000000 ''run_1'', Restart ''b'' 1 5000000, ClaimRound 90000000 (\<lambda>_. ''u'')] demo_finished)) = Inr r"
    by (simp add: r(2) TERMINAL_STATUSES_def no_purge_def)
  with r(2) show ?thesis by blast
qed

end
