(* ===== verification/Rt_Fusion.thy ===== *)
theory Rt_Fusion
  imports Ra_Schemas "HOL-Library.Product_Lexorder"
begin

text \<open>
  Ranking of retrieval hits: reciprocal rank fusion (\<open>retrieval/fusion.py\<close>), the fusion with a
  reranker (\<open>retrieval/reranker.py\<close>) and the configurations of the query profiles
  (\<open>retrieval/query_profiler.py\<close>).  Scores are exact rationals.  What a reranker returns for the
  candidates, or that it raises, is an argument.
\<close>

section \<open>Data\<close>

datatype source = Dense | Graph | Sparse

primrec source_name :: "source \<Rightarrow> string" where
  "source_name Dense = ''dense''" | "source_name Graph = ''graph''" | "source_name Sparse = ''sparse''"

text \<open>Of the metadata of a hit: \<open>exact_boost\<close>, \<open>graph_path_edge_ids\<close> and \<open>text\<close>.\<close>

record raw_hit =
  rh_source :: source
  rh_chunk :: string
  rh_entity :: string
  rh_score :: rat
  rh_rank :: nat
  rh_exact :: rat
  rh_path :: "string list"
  rh_text :: "string option"

definition raw_hit_valid :: "raw_hit \<Rightarrow> bool" where
  "raw_hit_valid h \<longleftrightarrow> 1 \<le> rh_rank h"

record fused_candidate =
  fc_chunk :: string
  fc_entity :: string
  fc_hits :: "raw_hit list"
  fc_preliminary :: "rat option"
  fc_final :: "rat option"
  fc_path :: "string list"
  fc_contributions :: "(string \<times> rat) list"

record final_candidate =
  nc_candidate :: fused_candidate
  nc_reranker_score :: "rat option"
  nc_reranker_normalized :: "rat option"
  nc_final_score :: rat
  nc_contributions :: "(string \<times> rat) list"

record retrieval_config =
  rc_profile :: query_type
  rc_dense_enabled :: bool
  rc_sparse_enabled :: bool
  rc_graph_enabled :: bool
  rc_reranker_enabled :: bool
  rc_dense_top_k :: nat
  rc_sparse_top_k :: nat
  rc_fusion_top_k :: nat
  rc_graph_seed_k :: nat
  rc_graph_max_hops :: nat
  rc_graph_max_candidates :: nat
  rc_final_top_k :: nat
  rc_rrf_k :: nat
  rc_source_weights :: "(string \<times> rat) list"
  rc_edge_weights :: "(string \<times> rat) list"
  rc_hybrid_weight :: rat
  rc_reranker_weight :: rat
  rc_token_budget :: nat
  rc_max_entities :: nat

definition retrieval_config_valid :: "retrieval_config \<Rightarrow> bool" where
  "retrieval_config_valid c \<longleftrightarrow> rc_dense_top_k c \<le> 200 \<and> rc_sparse_top_k c \<le> 200
     \<and> 1 \<le> rc_fusion_top_k c \<and> rc_fusion_top_k c \<le> 200 \<and> rc_graph_seed_k c \<le> 50 \<and> rc_graph_max_hops c \<le> 2
     \<and> rc_graph_max_candidates c \<le> 100 \<and> 1 \<le> rc_final_top_k c \<and> rc_final_top_k c \<le> 50 \<and> 1 \<le> rc_rrf_k c
     \<and> 0 \<le> rc_hybrid_weight c \<and> rc_hybrid_weight c \<le> 1 \<and> 0 \<le> rc_reranker_weight c \<and> rc_reranker_weight c \<le> 1
     \<and> 256 \<le> rc_token_budget c \<and> 1 \<le> rc_max_entities c \<and> rc_max_entities c \<le> 50
     \<and> \<bar>rc_hybrid_weight c + rc_reranker_weight c - 1\<bar> \<le> 1 / 1000000000
     \<and> (\<not> rc_reranker_enabled c \<longrightarrow> rc_hybrid_weight c = 1 \<and> rc_reranker_weight c = 0)"

section \<open>Configurations of the profiles\<close>

record profile_config =
  pc_dense_top_k :: nat
  pc_sparse_top_k :: nat
  pc_hops :: nat
  pc_edges :: "string list"
  pc_dense_weight :: rat
  pc_sparse_weight :: rat
  pc_graph_weight :: rat
  pc_hybrid :: rat
  pc_reranker :: rat

definition profile_values :: "nat \<Rightarrow> nat \<Rightarrow> nat \<Rightarrow> string list \<Rightarrow> rat \<times> rat \<times> rat \<Rightarrow> rat \<times> rat \<Rightarrow> profile_config" where
  "profile_values dense sparse hops edges weights final =
     (case (weights, final) of ((d, s, g), (h, r)) \<Rightarrow>
        \<lparr>pc_dense_top_k = dense, pc_sparse_top_k = sparse, pc_hops = hops, pc_edges = edges, pc_dense_weight = d,
          pc_sparse_weight = s, pc_graph_weight = g, pc_hybrid = h, pc_reranker = r\<rparr>)"

primrec PROFILE_CONFIG :: "query_type \<Rightarrow> profile_config" where
  "PROFILE_CONFIG SymbolLookup = profile_values 15 40 1 [''DEFINES'', ''CONTAINS''] (1/2, 3/2, 1/2) (7/10, 3/10)"
| "PROFILE_CONFIG ImplementationExplanation =
     profile_values 30 30 1 [''DEFINES'', ''CONTAINS'', ''CALLS'', ''INSTANTIATES''] (1, 1, 4/5) (35/100, 65/100)"
| "PROFILE_CONFIG CallChain =
     profile_values 20 30 2 [''CALLS'', ''INSTANTIATES'', ''DEFINES''] (3/5, 1, 8/5) (1/2, 1/2)"
| "PROFILE_CONFIG Architecture =
     profile_values 30 20 2 [''CONTAINS'', ''DEFINES'', ''INHERITS'', ''INSTANTIATES'', ''IMPORTS''] (1, 7/10, 3/2) (1/2, 1/2)"
| "PROFILE_CONFIG TensorShape =
     profile_values 30 30 1 [''CALLS'', ''CONTAINS'', ''DEFINES''] (11/10, 1, 4/5) (2/5, 3/5)"
| "PROFILE_CONFIG Configuration =
     profile_values 15 40 1 [''CONTAINS'', ''DEFINES'', ''IMPORTS''] (3/5, 3/2, 7/10) (7/10, 3/10)"
| "PROFILE_CONFIG TrainingProcess =
     profile_values 30 25 2 [''CALLS'', ''INSTANTIATES'', ''CONTAINS'', ''DEFINES''] (1, 4/5, 7/5) (1/2, 1/2)"
| "PROFILE_CONFIG InferenceProcess =
     profile_values 30 25 2 [''CALLS'', ''INSTANTIATES'', ''CONTAINS'', ''DEFINES''] (1, 4/5, 7/5) (1/2, 1/2)"
| "PROFILE_CONFIG PaperAlignment =
     profile_values 35 25 2 [''ALIGNS_WITH'', ''CONTAINS'', ''DEFINES''] (6/5, 4/5, 3/2) (2/5, 3/5)"
| "PROFILE_CONFIG GeneralRepository =
     profile_values 30 30 1 [''CONTAINS'', ''DEFINES'', ''IMPORTS'', ''CALLS''] (1, 1, 4/5) (1/2, 1/2)"

definition profile_config_of :: "query_type \<Rightarrow> bool \<Rightarrow> bool \<Rightarrow> retrieval_config" where
  "profile_config_of profile dense_enabled reranker_enabled =
     (let v = PROFILE_CONFIG profile in
      \<lparr>rc_profile = profile, rc_dense_enabled = dense_enabled, rc_sparse_enabled = True,
        rc_graph_enabled = (0 < pc_hops v), rc_reranker_enabled = reranker_enabled,
        rc_dense_top_k = pc_dense_top_k v, rc_sparse_top_k = pc_sparse_top_k v, rc_fusion_top_k = 40,
        rc_graph_seed_k = 8, rc_graph_max_hops = pc_hops v, rc_graph_max_candidates = 30, rc_final_top_k = 10,
        rc_rrf_k = 60,
        rc_source_weights = [(''dense'', pc_dense_weight v), (''sparse'', pc_sparse_weight v), (''graph'', pc_graph_weight v)],
        rc_edge_weights = map (\<lambda>e. (e, 1)) (pc_edges v),
        rc_hybrid_weight = (if reranker_enabled then pc_hybrid v else 1),
        rc_reranker_weight = (if reranker_enabled then pc_reranker v else 0),
        rc_token_budget = 6000, rc_max_entities = 8\<rparr>)"

section \<open>Reciprocal rank fusion\<close>

definition EXACT_MATCH_RRF_BOOST :: rat where
  "EXACT_MATCH_RRF_BOOST = 1 / 20"

definition lookup_or :: "rat \<Rightarrow> string \<Rightarrow> (string \<times> rat) list \<Rightarrow> rat" where
  "lookup_or d k kvs = (case map_of kvs k of None \<Rightarrow> d | Some v \<Rightarrow> v)"

definition contribution :: "retrieval_config \<Rightarrow> raw_hit \<Rightarrow> rat" where
  "contribution config h =
     lookup_or 1 (source_name (rh_source h)) (rc_source_weights config) / of_nat (rc_rrf_k config + rh_rank h)"

definition add_contribution :: "retrieval_config \<Rightarrow> raw_hit \<Rightarrow> (string \<times> rat) list \<Rightarrow> (string \<times> rat) list" where
  "add_contribution config h cs =
     dict_set (source_name (rh_source h)) (lookup_or 0 (source_name (rh_source h)) cs + contribution config h) cs"

definition graph_path :: "raw_hit list \<Rightarrow> string list" where
  "graph_path hits =
     (let paths = map rh_path (filter (\<lambda>h. rh_source h = Graph) hits)
      in if paths = [] then [] else hd (sort_key (\<lambda>p. (length p, p)) paths))"

definition fuse_chunk :: "retrieval_config \<Rightarrow> bool \<Rightarrow> string \<Rightarrow> raw_hit list \<Rightarrow> fused_candidate" where
  "fuse_chunk config preliminary chunk_id hits =
     (let contributions = fold (add_contribution config) hits [];
          score = foldl (\<lambda>s h. s + contribution config h) 0 hits;
          exact = list_ex (\<lambda>h. 0 < rh_exact h) hits;
          total = (if exact then score + EXACT_MATCH_RRF_BOOST else score)
      in \<lparr>fc_chunk = chunk_id, fc_entity = Min (set (map rh_entity hits)),
           fc_hits = sort_key (\<lambda>h. (source_name (rh_source h), rh_rank h, rh_chunk h)) hits,
           fc_preliminary = (if preliminary then Some total else None),
           fc_final = (if preliminary then None else Some total),
           fc_path = graph_path hits,
           fc_contributions = (if exact then dict_set ''exact_match_boost'' EXACT_MATCH_RRF_BOOST contributions
             else contributions)\<rparr>)"

definition or_zero :: "rat option \<Rightarrow> rat" where
  "or_zero v = (case v of None \<Rightarrow> 0 | Some x \<Rightarrow> x)"

definition fuse_key :: "bool \<Rightarrow> fused_candidate \<Rightarrow> rat \<times> rat \<times> nat \<times> string \<times> string" where
  "fuse_key preliminary c =
     (- or_zero (if preliminary then fc_preliminary c else fc_final c), - lookup_or 0 ''exact_match_boost'' (fc_contributions c),
      Min (set (map rh_rank (fc_hits c))), fc_entity c, fc_chunk c)"

definition fuse :: "raw_hit list \<Rightarrow> retrieval_config \<Rightarrow> bool \<Rightarrow> fused_candidate list" where
  "fuse hits config preliminary =
     take (rc_fusion_top_k config) (sort_key (fuse_key preliminary)
       (map (\<lambda>c. fuse_chunk config preliminary c (filter (\<lambda>h. rh_chunk h = c) hits)) (fromkeys (map rh_chunk hits))))"

definition preliminary_rrf :: "raw_hit list \<Rightarrow> raw_hit list \<Rightarrow> retrieval_config \<Rightarrow> exn + fused_candidate list" where
  "preliminary_rrf dense sparse config =
     (if list_ex (\<lambda>h. rh_source h = Graph) (dense @ sparse)
      then Inl (ValueError ''Preliminary RRF accepts only dense and sparse hits.'')
      else Inr (fuse (dense @ sparse) config True))"

definition final_rrf :: "raw_hit list \<Rightarrow> raw_hit list \<Rightarrow> raw_hit list \<Rightarrow> retrieval_config \<Rightarrow> fused_candidate list" where
  "final_rrf dense sparse graph config = fuse (dense @ sparse @ graph) config False"

section \<open>Reranker\<close>

definition normalize :: "(string \<times> rat) list \<Rightarrow> (string \<times> rat) list" where
  "normalize values =
     (if values = [] then []
      else let low = Min (snd ` set values); high = Max (snd ` set values)
           in if high = low then map (\<lambda>(k, v). (k, 1)) values else map (\<lambda>(k, v). (k, (v - low) / (high - low))) values)"

text \<open>\<open>reranker\<close> is absent, or what its \<open>score\<close> did: it raised, or returned a score for some chunks.\<close>

definition reranker_values :: "retrieval_config \<Rightarrow> (string \<times> rat) list option option \<Rightarrow> (string \<times> rat) list" where
  "reranker_values config reranker =
     (if rc_reranker_enabled config then (case reranker of Some (Some vs) \<Rightarrow> vs | _ \<Rightarrow> []) else [])"

definition reranker_warnings :: "retrieval_config \<Rightarrow> (string \<times> rat) list option option \<Rightarrow> string list" where
  "reranker_warnings config reranker =
     (if rc_reranker_enabled config
      then (case reranker of
              None \<Rightarrow> [''reranker_unavailable_fallback_to_final_rrf'']
            | Some None \<Rightarrow> [''reranker_failed_fallback_to_final_rrf''] | Some (Some vs) \<Rightarrow> [])
      else [])"

definition final_key :: "final_candidate \<Rightarrow> rat \<times> rat \<times> rat \<times> string \<times> string" where
  "final_key n = (- nc_final_score n, - lookup_or 0 ''exact_match_boost'' (nc_contributions n),
     - or_zero (fc_final (nc_candidate n)), fc_entity (nc_candidate n), fc_chunk (nc_candidate n))"

definition rescore :: "retrieval_config \<Rightarrow> (string \<times> rat) list \<Rightarrow> (string \<times> rat) list \<Rightarrow> fused_candidate \<Rightarrow> final_candidate" where
  "rescore config rrf values c =
     (let scores = normalize values; use = (scores \<noteq> []);
          hybrid = (if use then rc_hybrid_weight config else 1) * lookup_or 0 (fc_chunk c) rrf;
          normalized = map_of scores (fc_chunk c);
          rerank = (if use then rc_reranker_weight config else 0) * or_zero normalized
      in \<lparr>nc_candidate = c, nc_reranker_score = map_of values (fc_chunk c), nc_reranker_normalized = normalized,
           nc_final_score = hybrid + rerank,
           nc_contributions = dict_set ''reranker'' rerank (dict_set ''hybrid_final_rrf'' hybrid (fc_contributions c))\<rparr>)"

definition fuse_reranker ::
    "fused_candidate list \<Rightarrow> retrieval_config \<Rightarrow> (string \<times> rat) list option option \<Rightarrow> final_candidate list \<times> string list" where
  "fuse_reranker candidates config reranker =
     (let rrf = normalize (fold (\<lambda>c. dict_set (fc_chunk c) (or_zero (fc_final c))) candidates [])
      in (take (rc_final_top_k config)
            (sort_key final_key (map (rescore config rrf (reranker_values config reranker)) candidates)),
          reranker_warnings config reranker))"

end
