(* ===== verification/Rt_Fusion_Props.thy ===== *)
theory Rt_Fusion_Props
  imports Rt_Fusion
begin

text \<open>
  Reciprocal rank fusion against a reference on the multiset of hits: the fused ranking, its scores
  and its entities do not depend on the order in which the retrievers deliver their hits.
\<close>

section \<open>The reference\<close>

definition spec_hits :: "raw_hit multiset \<Rightarrow> string \<Rightarrow> raw_hit multiset" where
  "spec_hits H c = filter_mset (\<lambda>h. rh_chunk h = c) H"

definition spec_boost :: "raw_hit multiset \<Rightarrow> string \<Rightarrow> rat" where
  "spec_boost H c = (if \<exists>h \<in># spec_hits H c. 0 < rh_exact h then 1 / 20 else 0)"

definition spec_score :: "retrieval_config \<Rightarrow> raw_hit multiset \<Rightarrow> string \<Rightarrow> rat" where
  "spec_score config H c = sum_mset (image_mset (contribution config) (spec_hits H c)) + spec_boost H c"

definition spec_entity :: "raw_hit multiset \<Rightarrow> string \<Rightarrow> string" where
  "spec_entity H c = Min (rh_entity ` set_mset (spec_hits H c))"

definition spec_key :: "retrieval_config \<Rightarrow> raw_hit multiset \<Rightarrow> string \<Rightarrow> rat \<times> rat \<times> nat \<times> string \<times> string" where
  "spec_key config H c = (- spec_score config H c, - spec_boost H c,
     Min (rh_rank ` set_mset (spec_hits H c)), spec_entity H c, c)"

text \<open>All chunks that were hit, best first, cut after \<open>fusion_top_k\<close>.\<close>

definition spec_ranking :: "retrieval_config \<Rightarrow> raw_hit multiset \<Rightarrow> (string \<times> string \<times> rat) list" where
  "spec_ranking config H = map (\<lambda>c. (c, spec_entity H c, spec_score config H c))
     (take (rc_fusion_top_k config) (sort_key (spec_key config H) (sorted_list_of_set (rh_chunk ` set_mset H))))"

section \<open>The implementation agrees\<close>

lemma foldl_sum: "foldl (\<lambda>s h. s + f h) a hits = a + (sum_mset (image_mset f (mset hits)) :: rat)"
  by (induction hits arbitrary: a) (simp_all add: algebra_simps)

lemma dict_set_keys: "fst ` set (dict_set k v d) = insert k (fst ` set d)"
  unfolding dom_map_of_conv_image_fst [symmetric] by auto

lemma contribution_keys:
  "fst ` set (fold (add_contribution config) hits d) \<subseteq> fst ` set d \<union> range source_name"
proof (induction hits arbitrary: d)
  case (Cons h hits)
  have "fst ` set (add_contribution config h d) = insert (source_name (rh_source h)) (fst ` set d)"
    by (simp add: add_contribution_def dict_set_keys)
  with Cons.IH [of "add_contribution config h d"] show ?case by auto
qed simp

lemma boost_not_source: "''exact_match_boost'' \<notin> range source_name"
proof
  assume "''exact_match_boost'' \<in> range source_name"
  then obtain s where "source_name s = ''exact_match_boost''" by auto
  then show False by (cases s) simp_all
qed

lemma no_boost_yet: "lookup_or 0 ''exact_match_boost'' (fold (add_contribution config) hits []) = 0"
proof -
  have "''exact_match_boost'' \<notin> fst ` set (fold (add_contribution config) hits [])"
    using contribution_keys [of config hits "[]"] boost_not_source by auto
  then show ?thesis by (simp add: lookup_or_def map_of_eq_None_iff [THEN iffD2])
qed

lemma mset_spec_hits: "mset (filter (\<lambda>h. rh_chunk h = c) hits) = spec_hits (mset hits) c"
  by (simp add: spec_hits_def)

lemma set_spec_hits: "set_mset (spec_hits (mset hits) c) = set (filter (\<lambda>h. rh_chunk h = c) hits)"
  by (simp flip: mset_spec_hits)

lemma fuse_chunk_score:
  "or_zero (if preliminary then fc_preliminary (fuse_chunk config preliminary c (filter (\<lambda>h. rh_chunk h = c) hits))
     else fc_final (fuse_chunk config preliminary c (filter (\<lambda>h. rh_chunk h = c) hits))) = spec_score config (mset hits) c"
  unfolding spec_score_def spec_boost_def set_spec_hits
  by (simp add: fuse_chunk_def Let_def foldl_sum or_zero_def EXACT_MATCH_RRF_BOOST_def list_ex_iff spec_hits_def)

lemma fuse_chunk_entity:
  "fc_entity (fuse_chunk config preliminary c (filter (\<lambda>h. rh_chunk h = c) hits)) = spec_entity (mset hits) c"
  unfolding spec_entity_def set_spec_hits by (simp add: fuse_chunk_def Let_def)

lemma fuse_chunk_key:
  "fuse_key preliminary (fuse_chunk config preliminary c (filter (\<lambda>h. rh_chunk h = c) hits)) = spec_key config (mset hits) c"
proof -
  let ?f = "fuse_chunk config preliminary c (filter (\<lambda>h. rh_chunk h = c) hits)"
  have boost: "lookup_or 0 ''exact_match_boost'' (fc_contributions ?f) = spec_boost (mset hits) c"
    unfolding spec_boost_def set_spec_hits
    using no_boost_yet [of config "filter (\<lambda>h. rh_chunk h = c) hits"]
    by (auto simp: fuse_chunk_def Let_def list_ex_iff EXACT_MATCH_RRF_BOOST_def lookup_or_def)
  have "set (map rh_rank (fc_hits ?f)) = rh_rank ` set (filter (\<lambda>h. rh_chunk h = c) hits)" by (simp add: fuse_chunk_def Let_def)
  moreover have "fc_chunk ?f = c" by (simp add: fuse_chunk_def Let_def)
  ultimately show ?thesis
    unfolding fuse_key_def spec_key_def boost fuse_chunk_score fuse_chunk_entity set_spec_hits by simp
qed

lemma sort_key_map: "sort_key k (map f xs) = map f (sort_key (\<lambda>x. k (f x)) xs)"
proof -
  have ins: "insort_key k (f x) (map f ys) = map f (insort_key (\<lambda>x. k (f x)) x ys)" for x ys
    by (induction ys) auto
  show ?thesis by (induction xs) (simp_all add: ins)
qed

lemma fuse_matches_spec:
  "map (\<lambda>f. (fc_chunk f, fc_entity f, or_zero (if preliminary then fc_preliminary f else fc_final f))) (fuse hits config preliminary)
     = spec_ranking config (mset hits)"
proof -
  let ?f = "\<lambda>c. fuse_chunk config preliminary c (filter (\<lambda>h. rh_chunk h = c) hits)"
  have "sort_key (spec_key config (mset hits)) (fromkeys (map rh_chunk hits)) =
      sort_key (spec_key config (mset hits)) (sorted_list_of_set (rh_chunk ` set_mset (mset hits)))"
  proof (rule sort_key_inj_key_eq)
    show "mset (fromkeys (map rh_chunk hits)) = mset (sort_key (spec_key config (mset hits)) (sorted_list_of_set (rh_chunk ` set_mset (mset hits))))"
      by (simp flip: set_eq_iff_mset_eq_distinct)
    show "inj_on (spec_key config (mset hits)) (set (fromkeys (map rh_chunk hits)))"
      by (simp add: inj_on_def spec_key_def)
  qed simp
  then show ?thesis
    unfolding fuse_def sort_key_map fuse_chunk_key spec_ranking_def take_map [symmetric] list.map_comp comp_def
      fuse_chunk_score fuse_chunk_entity
    by (simp add: fuse_chunk_def Let_def)
qed


end
