(* ===== verification/Rt_Index.thy ===== *)
theory Rt_Index
  imports Ra_Schemas
begin

text \<open>
  The structured index as the retrieval side reads it (\<open>persistence/retrieval_read_store.py\<close>): the
  versions of a repository, its chunks joined with their entities, its knowledge edges
  (\<open>domain/edges.py\<close>) and its evidence.  A read returns its rows in the order of the query's
  \<open>ORDER BY\<close>.  The metadata of chunks and edges is left out.
\<close>

section \<open>Rows\<close>

datatype version_status = VStaging | VActive | VSuperseded | VFailed

record version_row =
  vr_repo :: string
  vr_id :: string
  vr_status :: version_status

record document =
  dd_chunk :: string
  dd_entity :: string
  dd_repo :: string
  dd_version :: string
  dd_entity_kind :: string
  dd_entity_type :: "string option"
  dd_chunk_type :: string
  dd_path :: "string option"
  dd_name :: "string option"
  dd_code_name :: "string option"
  dd_start :: "int option"
  dd_end :: "int option"
  dd_page :: "int option"
  dd_ordinal :: int
  dd_text :: string
  dd_content_hash :: string

record edge =
  ke_id :: string
  ke_repo :: string
  ke_version :: string
  ke_source :: string
  ke_target :: "string option"
  ke_type :: string
  ke_confidence :: rat
  ke_resolution :: string
  ke_unresolved :: "string option"
  ke_evidence :: "string list"

text \<open>\<open>KnowledgeEdge.validate_resolution\<close>: an edge without a target says that it is unresolved and keeps the symbol.\<close>

definition edge_valid :: "edge \<Rightarrow> bool" where
  "edge_valid e \<longleftrightarrow> 0 \<le> ke_confidence e \<and> ke_confidence e \<le> 1
     \<and> (ke_target e = None \<longrightarrow> ke_resolution e \<in> {''ambiguous'', ''unresolved''} \<and> (case ke_unresolved e of None \<Rightarrow> False | Some s \<Rightarrow> s \<noteq> []))"

record evidence_row =
  ev_version :: string
  ev_entity :: string
  ev_evidence :: retrieval_evidence

text \<open>\<open>ix_active\<close> lists the repositories with their active versions.\<close>

record index_db =
  ix_active :: "(string \<times> string option) list"
  ix_versions :: "version_row list"
  ix_documents :: "document list"
  ix_edges :: "edge list"
  ix_evidence :: "evidence_row list"

record retrieval_filter =
  rf_repo :: string
  rf_version :: string
  rf_entity_types :: "string list"
  rf_entity_kinds :: "string list"
  rf_paths :: "string list"
  rf_path_prefixes :: "string list"
  rf_names :: "string list"
  rf_chunk_types :: "string list"

definition plain_filter :: "string \<Rightarrow> string \<Rightarrow> retrieval_filter" where
  "plain_filter repo_id version = \<lparr>rf_repo = repo_id, rf_version = version, rf_entity_types = [], rf_entity_kinds = [],
     rf_paths = [], rf_path_prefixes = [], rf_names = [], rf_chunk_types = []\<rparr>"

section \<open>Reads\<close>

definition read_error :: "string \<Rightarrow> exn + 'a" where
  "read_error code = Inl (PlainError (Some code) [])"

definition resolve_version :: "index_db \<Rightarrow> string \<Rightarrow> string option \<Rightarrow> exn + string" where
  "resolve_version db repo_id requested =
     (case map_of (ix_active db) repo_id of
        None \<Rightarrow> read_error ''repository_not_found''
      | Some active \<Rightarrow>
          (case (case requested of None \<Rightarrow> active | Some v \<Rightarrow> if v = [] then active else Some v) of
             None \<Rightarrow> read_error ''index_version_not_active''
           | Some version \<Rightarrow>
               if version = [] then read_error ''index_version_not_active''
               else case find_by (\<lambda>r. (vr_repo r, vr_id r)) (repo_id, version) (ix_versions db) of
                   None \<Rightarrow> read_error ''index_version_not_found''
                 | Some r \<Rightarrow> if vr_status r \<in> {VActive, VSuperseded} then Inr version
                             else read_error ''index_version_not_active''))"

definition allowed_by :: "string list \<Rightarrow> string option \<Rightarrow> bool" where
  "allowed_by values v \<longleftrightarrow> values = [] \<or> (case v of None \<Rightarrow> False | Some x \<Rightarrow> x \<in> set values)"

text \<open>\<open>LIKE\<close> compares ASCII letters without their case.\<close>

definition like_prefix :: "string \<Rightarrow> string \<Rightarrow> bool" where
  "like_prefix prefix path \<longleftrightarrow> map fold_case (take (length prefix) path) = map fold_case prefix"

definition matches_filter :: "retrieval_filter \<Rightarrow> document \<Rightarrow> bool" where
  "matches_filter f d \<longleftrightarrow> dd_repo d = rf_repo f \<and> dd_version d = rf_version f
     \<and> allowed_by (rf_entity_types f) (dd_entity_type d) \<and> allowed_by (rf_entity_kinds f) (Some (dd_entity_kind d))
     \<and> allowed_by (rf_paths f) (dd_path d) \<and> allowed_by (rf_names f) (dd_code_name d)
     \<and> allowed_by (rf_chunk_types f) (Some (dd_chunk_type d))
     \<and> (rf_path_prefixes f = [] \<or>
        (case dd_path d of None \<Rightarrow> False | Some p \<Rightarrow> list_ex (\<lambda>q. like_prefix q p) (rf_path_prefixes f)))"

text \<open>\<open>RetrievalDocument\<close> needs the type of the joined entity.\<close>

definition list_documents :: "index_db \<Rightarrow> retrieval_filter \<Rightarrow> exn + document list" where
  "list_documents db f =
     (case resolve_version db (rf_repo f) (Some (rf_version f)) of
        Inl e \<Rightarrow> Inl e
      | Inr _ \<Rightarrow>
          let rows = sort_key dd_chunk (filter (matches_filter f) (ix_documents db))
          in if list_ex (\<lambda>d. dd_entity_type d = None) rows then Inl ValidationError else Inr rows)"

definition documents_by_chunk_ids :: "index_db \<Rightarrow> string \<Rightarrow> string \<Rightarrow> string list \<Rightarrow> exn + (string \<times> document) list" where
  "documents_by_chunk_ids db repo_id version chunk_ids =
     (if chunk_ids = [] then Inr []
      else case list_documents db (plain_filter repo_id version) of
          Inl e \<Rightarrow> Inl e
        | Inr ds \<Rightarrow> Inr (map (\<lambda>d. (dd_chunk d, d)) (filter (\<lambda>d. dd_chunk d \<in> set chunk_ids) ds)))"

definition entity_chunks :: "index_db \<Rightarrow> string \<Rightarrow> string \<Rightarrow> string \<Rightarrow> document list" where
  "entity_chunks db repo_id version entity_id =
     sort_key dd_chunk (filter (\<lambda>d. dd_repo d = repo_id \<and> dd_version d = version \<and> dd_entity d = entity_id) (ix_documents db))"

definition chunks_for_entities ::
    "index_db \<Rightarrow> string \<Rightarrow> string \<Rightarrow> string list \<Rightarrow> exn + (string \<times> document list) list" where
  "chunks_for_entities db repo_id version entity_ids =
     (if entity_ids = [] then Inr []
      else case resolve_version db repo_id (Some version) of
          Inl e \<Rightarrow> Inl e
        | Inr _ \<Rightarrow> Inr (filter (\<lambda>(i, ds). ds \<noteq> [])
            (map (\<lambda>i. (i, entity_chunks db repo_id version i)) (sort (fromkeys entity_ids)))))"

definition evidence_for_entities :: "index_db \<Rightarrow> string \<Rightarrow> string list \<Rightarrow> string \<Rightarrow> retrieval_evidence list" where
  "evidence_for_entities db version entity_ids entity_id =
     (if entity_id \<notin> set entity_ids then []
      else sort_key re_id (map ev_evidence
        (filter (\<lambda>r. ev_version r = version \<and> ev_entity r = entity_id) (ix_evidence db))))"

definition touches :: "string list \<Rightarrow> bool \<Rightarrow> edge \<Rightarrow> bool" where
  "touches entity_ids include_incoming e \<longleftrightarrow> ke_source e \<in> set entity_ids
     \<or> (include_incoming \<and> (case ke_target e of None \<Rightarrow> False | Some t \<Rightarrow> t \<in> set entity_ids))"

definition graph_neighbors ::
    "index_db \<Rightarrow> string \<Rightarrow> string \<Rightarrow> string list \<Rightarrow> string list \<Rightarrow> bool \<Rightarrow> exn + edge list" where
  "graph_neighbors db repo_id version entity_ids edge_types include_incoming =
     (if entity_ids = [] \<or> edge_types = [] then Inr []
      else case resolve_version db repo_id (Some version) of
          Inl e \<Rightarrow> Inl e
        | Inr _ \<Rightarrow> Inr (sort_key (\<lambda>e. - ke_confidence e) (sort_key ke_id
            (filter (\<lambda>e. ke_version e = version \<and> ke_repo e = repo_id \<and> touches entity_ids include_incoming e
               \<and> ke_type e \<in> set edge_types) (ix_edges db)))))"

end
