(* ===== verification/Rt_Context.thy ===== *)
theory Rt_Context
  imports Rt_Index
begin

text \<open>
  Building the context of an answer (\<open>retrieval/context_builder.py\<close>): a token estimate, the
  truncation of long texts around the words of the query, and the selection of candidates under a
  token budget.  Texts are ASCII, so no character counts as CJK.
\<close>

section \<open>Tokens\<close>

text \<open>\<open>ceil(n / 2.5)\<close>.\<close>

definition token_count :: "string \<Rightarrow> nat" where
  "token_count text = (if text = [] then 0 else max 1 ((2 * length text + 4) div 5))"

section \<open>Truncation\<close>

definition line_break :: "char \<Rightarrow> bool" where
  "line_break c = (let n = of_char c :: nat in (10 \<le> n \<and> n \<le> 13) \<or> (28 \<le> n \<and> n \<le> 30))"

text \<open>\<open>str.splitlines()\<close>; the first argument is the current line, reversed.\<close>

fun lines_from :: "string \<Rightarrow> string \<Rightarrow> string list" where
  "lines_from cur [] = (if cur = [] then [] else [rev cur])"
| "lines_from cur (c # cs) =
     (if line_break c then
        (case cs of
           d # ds \<Rightarrow> if c = CHR 0x0D \<and> d = CHR 0x0A then rev cur # lines_from [] ds else rev cur # lines_from [] cs
         | [] \<Rightarrow> [rev cur])
      else lines_from (c # cur) cs)"

definition splitlines :: "string \<Rightarrow> string list" where
  "splitlines s = lines_from [] s"

definition term_start :: "char \<Rightarrow> bool" where
  "term_start c = ident_start c"

definition term_char :: "char \<Rightarrow> bool" where
  "term_char c \<longleftrightarrow> ident_char c \<or> c = CHR ''.''"

text \<open>\<open>re.findall(r"[A-Za-z_][\w.]*", text)\<close>, case-folded.\<close>

function find_terms :: "string \<Rightarrow> string list" where
  "find_terms [] = []"
| "find_terms (c # cs) =
     (if term_start c then map fold_case (c # takeWhile term_char cs) # find_terms (dropWhile term_char cs)
      else find_terms cs)"
  by pat_completeness auto
termination by (relation "measure length") (simp_all add: le_imp_less_Suc length_dropWhile_le)

definition contains_text :: "string \<Rightarrow> string \<Rightarrow> bool" where
  "contains_text s t = list_ex (\<lambda>i. take (length t) (drop i s) = t) [0..<length s + 1]"

definition term_lines :: "string list \<Rightarrow> string list \<Rightarrow> nat list" where
  "term_lines terms lines =
     filter (\<lambda>i. list_ex (\<lambda>t. contains_text (map fold_case (lines ! i)) t) terms) [0..<length lines]"

definition selected_line :: "nat list \<Rightarrow> nat \<Rightarrow> nat \<Rightarrow> bool" where
  "selected_line indexes n i \<longleftrightarrow> i < min 5 n \<or> list_ex (\<lambda>k. k - 20 \<le> i \<and> i < k + 21) indexes \<or> n - 3 \<le> i"

function pop_lines :: "nat \<Rightarrow> string list \<Rightarrow> string list" where
  "pop_lines budget ls =
     (if ls \<noteq> [] \<and> budget < token_count (join_with [CHR 0x0A] ls) then pop_lines budget (butlast ls) else ls)"
  by pat_completeness auto
termination by (relation "measure (\<lambda>(b, ls). length ls)") auto

declare pop_lines.simps [simp del]

definition query_aware_truncate :: "string \<Rightarrow> string \<Rightarrow> nat \<Rightarrow> string" where
  "query_aware_truncate text query_text budget =
     (if token_count text \<le> budget then text
      else let lines = splitlines text;
               n = length lines;
               indexes = term_lines (find_terms query_text) lines;
               ordered = pop_lines budget (map (\<lambda>i. lines ! i) (filter (selected_line indexes n) [0..<n]))
           in if ordered = [] then take (max 1 (5 * budget div 2)) text else join_with [CHR 0x0A] ordered)"

section \<open>Selection\<close>

record candidate = document +
  cd_final_score :: rat
  cd_evidence :: "retrieval_evidence list"

definition fallback_evidence :: "candidate \<Rightarrow> retrieval_evidence list" where
  "fallback_evidence c =
     (let blank = \<lparr>re_id = ''chunk:'' @ dd_chunk c, re_source_type = ''paper'', re_path = None, re_start_line = None,
        re_end_line = None, re_paper_id = None, re_page_number = dd_page c, re_figure_id = None, re_bbox = None\<rparr>
      in case dd_path c of
           Some (p # ps) \<Rightarrow> [blank\<lparr>re_source_type := ''code'', re_path := Some (p # ps), re_start_line := dd_start c,
             re_end_line := dd_end c, re_page_number := None\<rparr>]
         | _ \<Rightarrow> if dd_page c \<noteq> None then [blank] else [])"

definition context_id :: "string \<Rightarrow> string \<Rightarrow> string \<Rightarrow> string" where
  "context_id query_id entity_id chunk_id = ''ctx_'' @ stable_hash (join_with [CHR 0x00] [query_id, entity_id, chunk_id])"

definition or_text :: "string option \<Rightarrow> string \<Rightarrow> string" where
  "or_text v d = (case v of Some (c # cs) \<Rightarrow> c # cs | _ \<Rightarrow> d)"

definition context_item_of ::
    "string \<Rightarrow> (string \<Rightarrow> string list) \<Rightarrow> candidate \<Rightarrow> string \<Rightarrow> nat \<Rightarrow> context_item" where
  "context_item_of query_id notes c text rank =
     \<lparr>ci_id = context_id query_id (dd_entity c) (dd_chunk c), ci_entity_id = dd_entity c, ci_chunk_ids = [dd_chunk c],
       ci_title = or_text (dd_name c) (or_text (dd_path c) (dd_entity c)), ci_text = text,
       ci_token_count = token_count text, ci_truncated = (text \<noteq> dd_text c), ci_rank = rank,
       ci_notes = notes (dd_entity c),
       ci_evidence = (if cd_evidence c \<noteq> [] then cd_evidence c else fallback_evidence c)\<rparr>"

record building =
  bd_items :: "context_item list"
  bd_omitted :: "string list"
  bd_hashes :: "string set"
  bd_entities :: "string set"

definition used_tokens :: "context_item list \<Rightarrow> nat" where
  "used_tokens items = sum_list (map ci_token_count items)"

definition item_limit :: "nat \<Rightarrow> nat" where
  "item_limit token_budget = max 1 (2 * token_budget div 5)"

definition fitted_text :: "string \<Rightarrow> nat \<Rightarrow> candidate \<Rightarrow> string" where
  "fitted_text query_text token_budget c =
     (if item_limit token_budget < token_count (dd_text c)
      then query_aware_truncate (dd_text c) query_text (item_limit token_budget) else dd_text c)"

definition add_candidate ::
    "string \<Rightarrow> string \<Rightarrow> nat \<Rightarrow> nat \<Rightarrow> (string \<Rightarrow> string list) \<Rightarrow> candidate \<Rightarrow> building \<Rightarrow> building" where
  "add_candidate query_id query_text token_budget max_entities notes c b =
     (let omit = b\<lparr>bd_omitted := bd_omitted b @ [dd_chunk c]\<rparr> in
      if dd_content_hash c \<in> bd_hashes b \<or> dd_entity c \<in> bd_entities b then omit
      else if max_entities \<le> card (bd_entities b) then omit
      else let text = fitted_text query_text token_budget c in
        if token_budget < used_tokens (bd_items b) + token_count text then omit
        else \<lparr>bd_items = bd_items b @ [context_item_of query_id notes c text (length (bd_items b) + 1)],
               bd_omitted = bd_omitted b, bd_hashes = insert (dd_content_hash c) (bd_hashes b),
               bd_entities = insert (dd_entity c) (bd_entities b)\<rparr>)"

definition build_context ::
    "string \<Rightarrow> string \<Rightarrow> string \<Rightarrow> string \<Rightarrow> candidate list \<Rightarrow> nat \<Rightarrow> nat \<Rightarrow> (string \<Rightarrow> string list) \<Rightarrow> context_bundle" where
  "build_context repo_id version query_id query_text candidates token_budget max_entities notes =
     (let b = fold (add_candidate query_id query_text token_budget max_entities notes) candidates
                \<lparr>bd_items = [], bd_omitted = [], bd_hashes = {}, bd_entities = {}\<rparr>;
          override = (bd_items b = [] \<and> candidates \<noteq> []);
          items = (if override
            then [context_item_of query_id notes (hd candidates)
                    (query_aware_truncate (dd_text (hd candidates)) query_text token_budget) 1]
            else bd_items b)
      in \<lparr>cb_repo_id = repo_id, cb_index_version_id = version, cb_query_id = query_id, cb_items = items,
           cb_estimated_tokens = used_tokens items, cb_validated_tokens = None,
           cb_count_method = ''conservative_code_estimate'', cb_token_budget = token_budget,
           cb_omitted_ids = bd_omitted b,
           cb_warnings = (if override then [''single_item_budget_override''] else [])\<rparr>)"

section \<open>The provider's budget\<close>

text \<open>\<open>items.pop()\<close> while the provider's own count exceeds what is allowed; the count is an argument.\<close>

function pop_items :: "(context_item list \<Rightarrow> nat) \<Rightarrow> nat \<Rightarrow> context_item list \<Rightarrow> string list \<Rightarrow> context_item list \<times> string list" where
  "pop_items counter allowed items omitted =
     (if items \<noteq> [] \<and> allowed < counter items
      then pop_items counter allowed (butlast items) (omitted @ ci_chunk_ids (last items)) else (items, omitted))"
  by pat_completeness auto
termination by (relation "measure (\<lambda>(c, a, items, om). length items)") auto

declare pop_items.simps [simp del]

definition validate_provider_budget ::
    "context_bundle \<Rightarrow> (context_item list \<Rightarrow> nat) \<Rightarrow> int \<Rightarrow> int \<Rightarrow> exn + context_bundle" where
  "validate_provider_budget bundle counter limit reserved =
     (if limit - reserved < 0 then Inl (ValueError ''reserved_output_tokens exceeds the Provider context limit.'')
      else let (kept, omitted) = pop_items counter (nat (limit - reserved)) (cb_items bundle) (cb_omitted_ids bundle);
               items = map (\<lambda>(rank, item). item\<lparr>ci_rank := rank\<rparr>) (enumerate 1 kept)
           in Inr (bundle\<lparr>cb_items := items, cb_validated_tokens := Some (counter kept),
                cb_count_method := ''provider_tokenizer'', cb_omitted_ids := omitted,
                cb_warnings := (if length items \<noteq> length (cb_items bundle)
                  then cb_warnings bundle @ [''provider_token_validation_reduced_context''] else cb_warnings bundle)\<rparr>))"

end
