(* ===== verification/Rt_Context_Props.thy ===== *)
theory Rt_Context_Props
  imports Rt_Context "HOL-Library.Multiset" "HOL-Library.Sublist"
begin

text \<open>
  The context of an answer keeps to its token budget: truncation, the invariant of the selection
  loop, and the bundle.
\<close>

section \<open>Truncation\<close>

lemma token_count_take: "1 \<le> b \<Longrightarrow> token_count (take (max 1 (5 * b div 2)) t) \<le> b"
proof -
  assume b: "1 \<le> b"
  define n where "n = length (take (max 1 (5 * b div 2)) t)"
  have "n \<le> 5 * b div 2" using b by (simp add: n_def)
  then have "(2 * n + 4) div 5 \<le> b" by linarith
  then show ?thesis using b by (simp add: token_count_def n_def)
qed

lemma pop_lines_fits:
  "pop_lines b ls \<noteq> [] \<Longrightarrow> token_count (join_with [CHR 0x0A] (pop_lines b ls)) \<le> b"
  by (induction b ls rule: pop_lines.induct) (subst (asm) pop_lines.simps, subst pop_lines.simps, auto split: if_splits)

lemma truncate_fits: "1 \<le> b \<Longrightarrow> token_count (query_aware_truncate t q b) \<le> b"
  using pop_lines_fits token_count_take by (simp add: query_aware_truncate_def Let_def)

lemma truncate_short: "token_count t \<le> b \<Longrightarrow> query_aware_truncate t q b = t"
  by (simp add: query_aware_truncate_def)

lemma item_limit_le: "1 \<le> b \<Longrightarrow> item_limit b \<le> b"
  by (simp add: item_limit_def)

lemma fitted_text_fits: "token_count (fitted_text q b c) \<le> item_limit b"
proof -
  have "1 \<le> item_limit b" by (simp add: item_limit_def)
  then show ?thesis using truncate_fits by (simp add: fitted_text_def)
qed

section \<open>The selection loop\<close>

text \<open>What the loop has established once it has seen the candidates \<open>cs\<close>.\<close>

record select_input =
  sel_query :: string
  sel_text :: string
  sel_budget :: nat
  sel_max :: nat
  sel_notes :: "string \<Rightarrow> string list"

definition step :: "select_input \<Rightarrow> candidate \<Rightarrow> building \<Rightarrow> building" where
  "step s = add_candidate (sel_query s) (sel_text s) (sel_budget s) (sel_max s) (sel_notes s)"

definition kept_ids :: "building \<Rightarrow> string list" where
  "kept_ids b = concat (map ci_chunk_ids (bd_items b))"

definition selecting :: "select_input \<Rightarrow> candidate list \<Rightarrow> building \<Rightarrow> bool" where
  "selecting s cs b \<longleftrightarrow> used_tokens (bd_items b) \<le> sel_budget s
     \<and> (\<forall>i\<in>set (bd_items b). ci_token_count i = token_count (ci_text i) \<and> ci_token_count i \<le> item_limit (sel_budget s))
     \<and> bd_entities b = ci_entity_id ` set (bd_items b) \<and> distinct (map ci_entity_id (bd_items b))
     \<and> length (bd_items b) \<le> sel_max s
     \<and> map ci_rank (bd_items b) = [1..<length (bd_items b) + 1]
     \<and> mset (kept_ids b) + mset (bd_omitted b) = mset (map dd_chunk cs)
     \<and> subseq (kept_ids b) (map dd_chunk cs)"

lemma selecting_start: "selecting s [] \<lparr>bd_items = [], bd_omitted = [], bd_hashes = {}, bd_entities = {}\<rparr>"
  by (simp add: selecting_def used_tokens_def kept_ids_def)

lemma card_entities: "selecting s cs b \<Longrightarrow> card (bd_entities b) = length (bd_items b)"
  by (simp add: selecting_def) (metis distinct_card length_map set_map)

lemma subseq_snoc: "subseq xs ys \<Longrightarrow> subseq xs (ys @ [y])"
  using list_emb_append_mono [of "(=)" xs ys "[]" "[y]"] by simp

lemma subseq_snoc2: "subseq xs ys \<Longrightarrow> subseq (xs @ [y]) (ys @ [y])"
  by (simp add: list_emb_append_mono)

lemma context_item_of_fields [simp]:
  "ci_entity_id (context_item_of q n c t r) = dd_entity c" "ci_chunk_ids (context_item_of q n c t r) = [dd_chunk c]"
  "ci_text (context_item_of q n c t r) = t" "ci_token_count (context_item_of q n c t r) = token_count t"
  "ci_rank (context_item_of q n c t r) = r"
  by (simp_all add: context_item_of_def)

lemma selecting_omit: "selecting s cs b \<Longrightarrow> selecting s (cs @ [c]) (b\<lparr>bd_omitted := bd_omitted b @ [dd_chunk c]\<rparr>)"
  unfolding selecting_def kept_ids_def by (auto intro: subseq_snoc simp add: add.assoc [symmetric])

lemma selecting_keep:
  assumes s: "selecting s cs b" and new: "dd_entity c \<notin> bd_entities b" and room: "\<not> sel_max s \<le> card (bd_entities b)"
    and t: "token_count t \<le> item_limit (sel_budget s)" and fits: "used_tokens (bd_items b) + token_count t \<le> sel_budget s"
  shows "selecting s (cs @ [c])
     \<lparr>bd_items = bd_items b @ [context_item_of q n c t (Suc (length (bd_items b)))], bd_omitted = bd_omitted b,
      bd_hashes = insert (dd_content_hash c) (bd_hashes b), bd_entities = insert (dd_entity c) (bd_entities b)\<rparr>"
proof -
  have "length (bd_items b) < sel_max s" using room card_entities [OF s] by simp
  moreover have "subseq (concat (map ci_chunk_ids (bd_items b)) @ [dd_chunk c]) (map dd_chunk cs @ [dd_chunk c])"
    using s by (auto intro: subseq_snoc2 simp only: selecting_def kept_ids_def)
  ultimately show ?thesis using assms by (auto simp add: selecting_def kept_ids_def used_tokens_def)
qed

lemma selecting_step: "selecting s cs b \<Longrightarrow> selecting s (cs @ [c]) (step s c b)"
  unfolding step_def add_candidate_def Let_def
  by (auto intro!: selecting_omit selecting_keep fitted_text_fits simp add: not_less)

lemma selecting_fold: "selecting s cs b \<Longrightarrow> selecting s (cs @ ds) (fold (step s) ds b)"
  by (induction ds arbitrary: cs b) (use selecting_step in force)+

lemma step_keeps: "bd_items b \<noteq> [] \<Longrightarrow> bd_items (step s c b) \<noteq> []"
  by (simp add: step_def add_candidate_def Let_def)

lemma fold_keeps: "bd_items b \<noteq> [] \<Longrightarrow> bd_items (fold (step s) cs b) \<noteq> []"
  by (induction cs arbitrary: b) (simp_all add: step_keeps)

text \<open>The first candidate always fits, so the override of the builder is for a budget of nothing only.\<close>

lemma first_fits:
  assumes "1 \<le> sel_budget s" "1 \<le> sel_max s"
  shows "bd_items (step s c \<lparr>bd_items = [], bd_omitted = [], bd_hashes = {}, bd_entities = {}\<rparr>) \<noteq> []"
  using assms fitted_text_fits [of "sel_text s" "sel_budget s" c] item_limit_le [of "sel_budget s"]
  by (simp add: step_def add_candidate_def Let_def used_tokens_def)

section \<open>The bundle\<close>

definition selected :: "select_input \<Rightarrow> candidate list \<Rightarrow> building" where
  "selected s cs = fold (step s) cs \<lparr>bd_items = [], bd_omitted = [], bd_hashes = {}, bd_entities = {}\<rparr>"

lemma selecting_selected: "selecting s cs (selected s cs)"
  using selecting_fold [OF selecting_start, of s cs] by (simp add: selected_def)

lemma selected_some:
  assumes "1 \<le> sel_budget s" "1 \<le> sel_max s" shows "bd_items (selected s cs) = [] \<longleftrightarrow> cs = []"
  using first_fits [OF assms] fold_keeps [of _ s] by (cases cs) (auto simp add: selected_def)

lemma build_context_selected:
  assumes "1 \<le> sel_budget s" "1 \<le> sel_max s"
  shows "build_context repo_id version (sel_query s) (sel_text s) cs (sel_budget s) (sel_max s) (sel_notes s) =
    \<lparr>cb_repo_id = repo_id, cb_index_version_id = version, cb_query_id = sel_query s, cb_items = bd_items (selected s cs),
     cb_estimated_tokens = used_tokens (bd_items (selected s cs)), cb_validated_tokens = None,
     cb_count_method = ''conservative_code_estimate'', cb_token_budget = sel_budget s,
     cb_omitted_ids = bd_omitted (selected s cs), cb_warnings = []\<rparr>"
proof -
  have "bd_items (selected s cs) = [] \<longleftrightarrow> cs = []" by (rule selected_some) (fact assms)+
  then show ?thesis by (simp add: build_context_def Let_def selected_def step_def [abs_def])
qed


definition demo_candidate :: "string \<Rightarrow> string \<Rightarrow> string \<Rightarrow> candidate" where
  "demo_candidate chunk entity text = \<lparr>dd_chunk = chunk, dd_entity = entity, dd_repo = ''r'', dd_version = ''v'',
     dd_entity_kind = ''code'', dd_entity_type = None, dd_chunk_type = ''function'', dd_path = Some ''a.py'', dd_name = None,
     dd_code_name = None, dd_start = None, dd_end = None, dd_page = None, dd_ordinal = 0, dd_text = text,
     dd_content_hash = text, cd_final_score = 1, cd_evidence = []\<rparr>"


section \<open>The provider's count\<close>

lemma pop_items_fits:
  "pop_items counter a items om = (kept, om') \<Longrightarrow> kept \<noteq> [] \<Longrightarrow> counter kept \<le> a"
  by (induction counter a items om rule: pop_items.induct) (subst (asm) (2) pop_items.simps, auto split: if_splits)

lemma pop_items_prefix:
  "pop_items counter a items om = (kept, om') \<Longrightarrow> prefix kept items"
proof (induction counter a items om rule: pop_items.induct)
  case (1 counter a items om)
  then show ?case
    by (subst (asm) (2) pop_items.simps)
      (auto split: if_splits intro: prefix_order.trans prefixeq_butlast)
qed

end
