(* ===== verification/Rt_Fts.thy ===== *)
theory Rt_Fts
  imports Rt_Fusion Rt_Context
begin

text \<open>
  The full-text index (\<open>persistence/fts_generation_store.py\<close>): generations of documents that are
  built, activated and searched.  \<open>sync\<close> commits twice, so it is two operations here.  What SQLite's
  FTS5 matches and its \<open>bm25\<close> values are a parameter; texts are ASCII.
\<close>

section \<open>Tables\<close>

datatype fts_status = FBuilding | FReady | FStale | FFailed | FSuperseded

record fts_row =
  fr_id :: string
  fr_repo :: string
  fr_version :: string
  fr_profile :: string
  fr_status :: fts_status
  fr_count :: nat
  fr_content_hash :: string
  fr_error :: "string option"

record fts_db =
  ft_rows :: "fts_row list"
  ft_docs :: "(string \<times> document) list"

definition FTS_PROFILE_VERSION :: string where
  "FTS_PROFILE_VERSION = ''fts5-unicode61-symbol-v1''"

definition documents_hash :: "document list \<Rightarrow> string" where
  "documents_hash docs = stable_hash (dumps_sorted escape_char_raw
     (JArr (map (\<lambda>d. JObj [(''chunk_id'', JStr (dd_chunk d)), (''content_hash'', JStr (dd_content_hash d))]) (sort_key dd_chunk docs))))"

definition fts_generation_id :: "string \<Rightarrow> string \<Rightarrow> string \<Rightarrow> string \<Rightarrow> string" where
  "fts_generation_id repo_id version profile content_hash =
     ''fts_'' @ stable_hash (join_with [CHR 0x00] [''fts:v1'', repo_id, version, profile, content_hash])"

definition in_scope :: "string \<Rightarrow> string \<Rightarrow> string \<Rightarrow> fts_row \<Rightarrow> bool" where
  "in_scope repo_id version profile r \<longleftrightarrow> fr_repo r = repo_id \<and> fr_version r = version \<and> fr_profile r = profile"

definition delete_generation_documents :: "string \<Rightarrow> fts_db \<Rightarrow> fts_db" where
  "delete_generation_documents gid db = db\<lparr>ft_docs := filter (\<lambda>p. fst p \<noteq> gid) (ft_docs db)\<rparr>"

definition generation_documents :: "string \<Rightarrow> fts_db \<Rightarrow> document list" where
  "generation_documents gid db = map snd (filter (\<lambda>p. fst p = gid) (ft_docs db))"

section \<open>Building a generation\<close>

definition sync_generation :: "string \<Rightarrow> string \<Rightarrow> string \<Rightarrow> document list \<Rightarrow> string" where
  "sync_generation repo_id version profile docs = fts_generation_id repo_id version profile (documents_hash docs)"

text \<open>The first transaction; the result says whether the generation was ready before.\<close>

definition sync_begin :: "string \<Rightarrow> string \<Rightarrow> string \<Rightarrow> document list \<Rightarrow> fts_db \<Rightarrow> bool \<times> fts_db" where
  "sync_begin repo_id version profile docs db =
     (let gid = sync_generation repo_id version profile docs;
          building = \<lparr>fr_id = gid, fr_repo = repo_id, fr_version = version, fr_profile = profile, fr_status = FBuilding,
            fr_count = 0, fr_content_hash = documents_hash docs, fr_error = None\<rparr>
      in case find_by fr_id gid (ft_rows db) of
           None \<Rightarrow> (False, delete_generation_documents gid (db\<lparr>ft_rows := ft_rows db @ [building]\<rparr>))
         | Some r \<Rightarrow>
             if fr_status r = FReady then (True, db)
             else (False, delete_generation_documents gid (db\<lparr>ft_rows :=
               update_by fr_id gid (\<lambda>r. r\<lparr>fr_status := FBuilding, fr_count := 0, fr_error := None\<rparr>) (ft_rows db)\<rparr>)))"

definition sync_failed :: "string \<Rightarrow> string \<Rightarrow> fts_db \<Rightarrow> fts_db" where
  "sync_failed gid code db = delete_generation_documents gid
     (db\<lparr>ft_rows := update_by fr_id gid (\<lambda>r. r\<lparr>fr_status := FFailed, fr_error := Some code\<rparr>) (ft_rows db)\<rparr>)"

definition activate :: "string \<Rightarrow> string \<Rightarrow> string \<Rightarrow> string \<Rightarrow> nat \<Rightarrow> fts_row list \<Rightarrow> fts_row list" where
  "activate repo_id version profile gid n rows =
     update_where (\<lambda>r. fr_id r = gid \<and> fr_status r = FBuilding) (\<lambda>r. r\<lparr>fr_status := FReady, fr_count := n, fr_error := None\<rparr>)
       (update_where (\<lambda>r. in_scope repo_id version profile r \<and> fr_status r = FReady \<and> fr_id r \<noteq> gid)
          (\<lambda>r. r\<lparr>fr_status := FSuperseded\<rparr>) rows)"

text \<open>The partial unique index \<open>uq_fts_ready_scope\<close>.\<close>

definition ready_unique :: "fts_row list \<Rightarrow> bool" where
  "ready_unique rows \<longleftrightarrow> distinct (map (\<lambda>r. (fr_repo r, fr_version r, fr_profile r)) (filter (\<lambda>r. fr_status r = FReady) rows))"

text \<open>
  The second transaction.  An insert fails without its generation (foreign key) or when the
  generation already has the chunk (unique key); every failure is caught, recorded and raised again.
\<close>

definition sync_write ::
    "string \<Rightarrow> string \<Rightarrow> string \<Rightarrow> document list \<Rightarrow> bool \<Rightarrow> fts_db \<Rightarrow> (fts_db, string \<times> bool) outcome" where
  "sync_write repo_id version profile docs fail_before_activation db =
     (let gid = sync_generation repo_id version profile docs;
          present = generation_documents gid db;
          rows = activate repo_id version profile gid (length docs) (ft_rows db);
          fail = (\<lambda>e code. (Inl e, sync_failed gid code db))
      in if (docs \<noteq> [] \<and> find_by fr_id gid (ft_rows db) = None) \<or> \<not> distinct (map dd_chunk docs)
            \<or> list_ex (\<lambda>d. dd_chunk d \<in> dd_chunk ` set present) docs
         then fail IntegrityError ''fts_sync_failed''
         else if length present + length docs \<noteq> length docs
         then fail (PlainError (Some ''fts_count_mismatch'') []) ''fts_count_mismatch''
         else if fail_before_activation
         then fail (PlainError (Some ''fts_sync_injected_failure'') []) ''fts_sync_injected_failure''
         else if \<not> ready_unique rows then fail IntegrityError ''fts_sync_failed''
         else (Inr (gid, False), \<lparr>ft_rows = rows, ft_docs = ft_docs db @ map (Pair gid) (sort_key dd_chunk docs)\<rparr>))"

definition fts_sync :: "string \<Rightarrow> string \<Rightarrow> string \<Rightarrow> document list \<Rightarrow> bool \<Rightarrow> fts_db \<Rightarrow> (fts_db, string \<times> bool) outcome" where
  "fts_sync repo_id version profile docs fail_before_activation db =
     (case sync_begin repo_id version profile docs db of
        (True, db') \<Rightarrow> (Inr (sync_generation repo_id version profile docs, True), db')
      | (False, db') \<Rightarrow> sync_write repo_id version profile docs fail_before_activation db')"

definition ready_generation :: "string \<Rightarrow> string \<Rightarrow> string \<Rightarrow> fts_db \<Rightarrow> fts_row option" where
  "ready_generation repo_id version profile db =
     List.find (\<lambda>r. in_scope repo_id version profile r \<and> fr_status r = FReady) (ft_rows db)"

definition delete_fts_version :: "string \<Rightarrow> string \<Rightarrow> fts_db \<Rightarrow> fts_db" where
  "delete_fts_version repo_id version db =
     (let gone = map fr_id (filter (\<lambda>r. fr_repo r = repo_id \<and> fr_version r = version) (ft_rows db))
      in \<lparr>ft_rows = filter (\<lambda>r. \<not> (fr_repo r = repo_id \<and> fr_version r = version)) (ft_rows db),
          ft_docs = filter (\<lambda>p. fst p \<notin> set gone) (ft_docs db)\<rparr>)"

section \<open>Searching\<close>

definition is_lower :: "char \<Rightarrow> bool" where
  "is_lower c \<longleftrightarrow> c \<in> set ''abcdefghijklmnopqrstuvwxyz''"

definition is_upper :: "char \<Rightarrow> bool" where
  "is_upper c \<longleftrightarrow> c \<in> set ''ABCDEFGHIJKLMNOPQRSTUVWXYZ''"

text \<open>\<open>re.sub(r"([a-z0-9])([A-Z])", r"\1 \2", v)\<close>\<close>

fun split_camel :: "string \<Rightarrow> string" where
  "split_camel (a # b # cs) =
     (if (is_lower a \<or> a \<in> set ''0123456789'') \<and> is_upper b then a # CHR '' '' # b # split_camel cs
      else a # split_camel (b # cs))"
| "split_camel cs = cs"

definition symbol_separator :: "char \<Rightarrow> bool" where
  "symbol_separator c \<longleftrightarrow> c \<in> {CHR 0x5C, CHR ''/'', CHR ''.'', CHR ''_'', CHR '':'', CHR ''-''}"

text \<open>\<open>re.sub(r"[\\/._:\-]+", " ", v)\<close>; the flag says that the last character was a separator.\<close>

fun blank_separators :: "bool \<Rightarrow> string \<Rightarrow> string" where
  "blank_separators inside [] = []"
| "blank_separators inside (c # cs) =
     (if symbol_separator c then (if inside then blank_separators True cs else CHR '' '' # blank_separators True cs)
      else c # blank_separators False cs)"

definition symbol_text :: "string option \<Rightarrow> string \<Rightarrow> string" where
  "symbol_text primary secondary =
     blank_separators False (split_camel (join_with '' '' (filter (\<lambda>p. p \<noteq> [])
       [case primary of None \<Rightarrow> [] | Some s \<Rightarrow> s, secondary])))"

function words_of :: "string \<Rightarrow> string list" where
  "words_of [] = []"
| "words_of (c # cs) =
     (if ident_char c then (c # takeWhile ident_char cs) # words_of (dropWhile ident_char cs) else words_of cs)"
  by pat_completeness auto
termination by (relation "measure length") (simp_all add: le_imp_less_Suc length_dropWhile_le)

fun distinct_folded :: "string list \<Rightarrow> string list \<Rightarrow> string list" where
  "distinct_folded seen [] = []"
| "distinct_folded seen (t # ts) =
     (if map fold_case t \<in> set seen then distinct_folded seen ts else t # distinct_folded (map fold_case t # seen) ts)"

definition match_expression :: "string \<Rightarrow> string" where
  "match_expression query_text =
     join_with '' OR '' (map (\<lambda>t. [CHR 0x22] @ t @ [CHR 0x22])
       (take 32 (distinct_folded [] (words_of (symbol_text (Some query_text) [])))))"

definition exact_boost :: "string \<Rightarrow> string option \<Rightarrow> string option \<Rightarrow> rat" where
  "exact_boost query qualified_name path =
     (let values = map (map fold_case) (filter (\<lambda>v. v \<noteq> [])
            [case qualified_name of None \<Rightarrow> [] | Some v \<Rightarrow> v, case path of None \<Rightarrow> [] | Some v \<Rightarrow> v])
      in if query \<in> set values then 10 else if query \<noteq> [] \<and> list_ex (\<lambda>v. contains_text v query) values then 2 else 0)"

definition fts_filter :: "retrieval_filter \<Rightarrow> document \<Rightarrow> bool" where
  "fts_filter f d \<longleftrightarrow> allowed_by (rf_entity_types f) (dd_entity_type d) \<and> allowed_by (rf_entity_kinds f) (Some (dd_entity_kind d))
     \<and> allowed_by (rf_paths f) (dd_path d) \<and> allowed_by (rf_names f) (dd_name d)
     \<and> allowed_by (rf_chunk_types f) (Some (dd_chunk_type d))
     \<and> (rf_path_prefixes f = [] \<or>
        (case dd_path d of None \<Rightarrow> False | Some p \<Rightarrow> list_ex (\<lambda>q. like_prefix q p) (rf_path_prefixes f)))"

text \<open>
  \<open>bm25 expression corpus d\<close>: no match, or the value of SQLite's \<open>bm25\<close> (smaller is better), which
  depends on all the documents of the table.
\<close>

type_synonym fts_engine = "string \<Rightarrow> document list \<Rightarrow> document \<Rightarrow> rat option"

definition ranked_documents ::
    "fts_engine \<Rightarrow> string \<Rightarrow> retrieval_filter \<Rightarrow> document list \<Rightarrow> document list \<Rightarrow> (rat \<times> document) list" where
  "ranked_documents bm25 query_text f corpus docs =
     (let expression = match_expression query_text; query = map fold_case (strip query_text)
      in sort_key (\<lambda>(score, d). (- score, dd_chunk d))
           (map (\<lambda>d. (- the (bm25 expression corpus d) + exact_boost query (dd_name d) (dd_path d), d))
             (filter (\<lambda>d. bm25 expression corpus d \<noteq> None \<and> fts_filter f d) docs)))"

definition sparse_hit :: "string \<Rightarrow> nat \<times> rat \<times> document \<Rightarrow> raw_hit" where
  "sparse_hit query_text r =
     (case r of (rank, score, d) \<Rightarrow>
        \<lparr>rh_source = Sparse, rh_chunk = dd_chunk d, rh_entity = dd_entity d, rh_score = score, rh_rank = rank,
         rh_exact = exact_boost (map fold_case (strip query_text)) (dd_name d) (dd_path d), rh_path = [], rh_text = None\<rparr>)"

definition fts_search ::
    "fts_engine \<Rightarrow> string \<Rightarrow> retrieval_filter \<Rightarrow> string \<Rightarrow> nat \<Rightarrow> fts_db \<Rightarrow> exn + raw_hit list" where
  "fts_search bm25 query_text f profile top_k db =
     (if match_expression query_text = [] then Inr []
      else case ready_generation (rf_repo f) (rf_version f) profile db of
          None \<Rightarrow> Inl (PlainError (Some ''fts_generation_not_ready'') [])
        | Some r \<Rightarrow> Inr (map (sparse_hit query_text)
            (enumerate 1 (take top_k (ranked_documents bm25 query_text f (map snd (ft_docs db)) (generation_documents (fr_id r) db))))))"

section \<open>Histories\<close>

text \<open>What several processes do to the store, one transaction after the other.\<close>

datatype fts_op =
    SyncBegin string string string "document list"
  | SyncWrite string string string "document list" bool
  | DeleteVersion string string

primrec fts_step :: "fts_op \<Rightarrow> fts_db \<Rightarrow> fts_db" where
  "fts_step (SyncBegin r v p docs) db = snd (sync_begin r v p docs db)"
| "fts_step (SyncWrite r v p docs fail) db = snd (sync_write r v p docs fail db)"
| "fts_step (DeleteVersion r v) db = delete_fts_version r v db"

definition empty_fts :: fts_db where
  "empty_fts = \<lparr>ft_rows = [], ft_docs = []\<rparr>"

end
