(* ===== verification/Rt_Graph.thy ===== *)
theory Rt_Graph
  imports Rt_Fusion Rt_Context "HOL-Library.Multiset"
begin

text \<open>
  Retrieval along the knowledge graph: the choice of a chunk for an entity
  (\<open>retrieval/entity_chunk_selector.py\<close>) and the expansion of seed candidates
  (\<open>retrieval/graph_retriever.py\<close>).  Scores are exact rationals.
\<close>

section \<open>The chunk of an entity\<close>

definition CODE_ORDER :: "string list" where
  "CODE_ORDER = [''function'', ''method'', ''model_module'', ''class'', ''file'', ''paper_entity'']"

primrec preferred_chunks :: "query_type \<Rightarrow> string list" where
  "preferred_chunks SymbolLookup = [''function'', ''method'', ''class'', ''model_module'', ''file'', ''paper_entity'']"
| "preferred_chunks ImplementationExplanation = CODE_ORDER"
| "preferred_chunks CallChain = CODE_ORDER"
| "preferred_chunks Architecture = [''class'', ''file'', ''model_module'', ''function'', ''method'', ''paper_entity'']"
| "preferred_chunks Configuration = [''file'', ''function'', ''method'', ''class'', ''model_module'', ''paper_entity'']"
| "preferred_chunks PaperAlignment = [''paper_entity'', ''function'', ''method'', ''class'', ''file'', ''model_module'']"
| "preferred_chunks TensorShape = CODE_ORDER"
| "preferred_chunks TrainingProcess = [''function'', ''method'', ''file'', ''class'', ''model_module'', ''paper_entity'']"
| "preferred_chunks InferenceProcess = [''function'', ''method'', ''file'', ''class'', ''model_module'', ''paper_entity'']"
| "preferred_chunks GeneralRepository = [''class'', ''file'', ''function'', ''method'', ''model_module'', ''paper_entity'']"

definition line_span :: "document \<Rightarrow> int" where
  "line_span d = (case (dd_start d, dd_end d) of (Some s, Some e) \<Rightarrow> e - s | _ \<Rightarrow> 1000000000)"

definition profile_priority :: "query_type \<Rightarrow> document \<Rightarrow> nat \<times> int" where
  "profile_priority profile d = (length (takeWhile (\<lambda>t. t \<noteq> dd_chunk_type d) (preferred_chunks profile)), line_span d)"

definition contains_evidence_line :: "document \<Rightarrow> int list \<Rightarrow> bool" where
  "contains_evidence_line d ns =
     (case (dd_start d, dd_end d) of (Some s, Some e) \<Rightarrow> list_ex (\<lambda>n. s \<le> n \<and> n \<le> e) ns | _ \<Rightarrow> False)"

definition contains_query :: "document \<Rightarrow> string list \<Rightarrow> bool" where
  "contains_query d terms = list_ex (\<lambda>t. contains_text (map fold_case (dd_text d)) t) terms"

definition rank_or_last :: "(string \<times> nat) list \<Rightarrow> string \<Rightarrow> nat" where
  "rank_or_last ranks k = (case map_of ranks k of None \<Rightarrow> 1000000000 | Some r \<Rightarrow> r)"

definition chunk_key ::
    "query_type \<Rightarrow> string list \<Rightarrow> int list \<Rightarrow> (string \<times> nat) list \<Rightarrow> document
     \<Rightarrow> int \<times> int \<times> nat \<times> (nat \<times> int) \<times> int \<times> string" where
  "chunk_key profile terms ns ranks d =
     (- of_bool (contains_evidence_line d ns), - of_bool (contains_query d terms), rank_or_last ranks (dd_chunk d),
      profile_priority profile d, dd_ordinal d, dd_chunk d)"

text \<open>The rule that decided, and the chunk; \<open>edge_lines\<close> gives the evidence lines of an edge.\<close>

definition select_chunk ::
    "(string \<Rightarrow> int list) \<Rightarrow> (string \<times> nat) list \<Rightarrow> string \<Rightarrow> string \<Rightarrow> query_type \<Rightarrow> string list \<Rightarrow> document list
     \<Rightarrow> string \<times> document option" where
  "select_chunk edge_lines ranks entity_id query_text profile path available =
     (let chunks = filter (\<lambda>d. dd_entity d = entity_id) available;
          terms = find_terms query_text;
          ns = concat (map edge_lines path)
      in case sort_key (chunk_key profile terms ns ranks) chunks of
           [] \<Rightarrow> (''note_only'', None)
         | d # _ \<Rightarrow>
             (if contains_evidence_line d ns then ''graph_edge_evidence''
              else if contains_query d terms then ''exact_query_term''
              else if dd_chunk d \<in> fst ` set ranks then ''current_retrieval_hit''
              else ''canonical_then_stable_id'', Some d))"

section \<open>Expansion\<close>

record frontier_item =
  gi_entity :: string
  gi_score :: rat
  gi_path :: "string list"
  gi_hop :: nat

record expansion =
  gx_frontier :: "frontier_item list"
  gx_best :: "(string \<times> rat \<times> string list) list"
  gx_notes :: "string list"
  gx_visited :: "(string \<times> rat) list"

definition unresolved_note :: "string \<Rightarrow> edge \<Rightarrow> string" where
  "unresolved_note entity_id e =
     entity_id @ '' --'' @ ke_type e @ ''--> unresolved:'' @ (case ke_unresolved e of None \<Rightarrow> ''None'' | Some s \<Rightarrow> s)"

definition edge_other :: "string \<Rightarrow> edge \<Rightarrow> string \<Rightarrow> string" where
  "edge_other entity_id e target = (if ke_source e = entity_id then target else ke_source e)"

definition edge_score :: "retrieval_config \<Rightarrow> rat \<Rightarrow> nat \<Rightarrow> edge \<Rightarrow> rat" where
  "edge_score config score hop e =
     score * lookup_or 1 (ke_type e) (rc_edge_weights config) * ke_confidence e * (13 / 20) ^ (hop + 1)"

text \<open>The loop over the edges of one entity; a full result empties the frontier and stops it.\<close>

fun relax :: "retrieval_config \<Rightarrow> frontier_item \<Rightarrow> edge list \<Rightarrow> expansion \<Rightarrow> expansion" where
  "relax config it [] x = x"
| "relax config it (e # es) x =
     (case ke_target e of
        None \<Rightarrow> relax config it es
          (if ke_source e = gi_entity it then x\<lparr>gx_notes := gx_notes x @ [unresolved_note (gi_entity it) e]\<rparr> else x)
      | Some target \<Rightarrow>
          (let neighbor = edge_other (gi_entity it) e target;
               score = edge_score config (gi_score it) (gi_hop it) e;
               path = gi_path it @ [ke_id e]
           in if score \<le> lookup_or (-1) neighbor (gx_visited x) then relax config it es x
              else let x' = x\<lparr>gx_visited := dict_set neighbor score (gx_visited x),
                     gx_best := dict_set neighbor (score, path) (gx_best x),
                     gx_frontier := gx_frontier x @ [\<lparr>gi_entity = neighbor, gi_score = score, gi_path = path, gi_hop = gi_hop it + 1\<rparr>]\<rparr>
                in if rc_graph_max_candidates config \<le> length (gx_best x') then x'\<lparr>gx_frontier := []\<rparr>
                   else relax config it es x'))"

lemma relax_frontier:
  "gx_frontier (relax config it es x) = []
   \<or> (\<exists>new. gx_frontier (relax config it es x) = gx_frontier x @ new \<and> (\<forall>i\<in>set new. gi_hop i = Suc (gi_hop it)))"
proof (induction es arbitrary: x)
  case (Cons e es)
  show ?case
  proof (cases "ke_target e")
    case None
    then show ?thesis
      using Cons.IH [of x] Cons.IH [of "x\<lparr>gx_notes := gx_notes x @ [unresolved_note (gi_entity it) e]\<rparr>"] by simp
  next
    case (Some t)
    define s where "s = edge_score config (gi_score it) (gi_hop it) e"
    define n where "n = edge_other (gi_entity it) e t"
    define y where "y = x\<lparr>gx_visited := dict_set n s (gx_visited x), gx_best := dict_set n (s, gi_path it @ [ke_id e]) (gx_best x),
       gx_frontier := gx_frontier x @ [\<lparr>gi_entity = n, gi_score = s, gi_path = gi_path it @ [ke_id e], gi_hop = gi_hop it + 1\<rparr>]\<rparr>"
    have "relax config it (e # es) x = (if s \<le> lookup_or (-1) n (gx_visited x) then relax config it es x
       else if rc_graph_max_candidates config \<le> length (gx_best y) then y\<lparr>gx_frontier := []\<rparr> else relax config it es y)"
      using Some by (simp add: Let_def s_def n_def y_def)
    moreover have "gx_frontier y = gx_frontier x @ [\<lparr>gi_entity = n, gi_score = s, gi_path = gi_path it @ [ke_id e], gi_hop = gi_hop it + 1\<rparr>]"
      by (simp add: y_def)
    ultimately show ?thesis using Cons.IH [of x] Cons.IH [of y] by (auto split: if_splits)
  qed
qed simp

text \<open>Every entry taken from the frontier is replaced by entries one hop further, up to the limit.\<close>

definition hops_left :: "retrieval_config \<Rightarrow> expansion \<Rightarrow> nat multiset" where
  "hops_left config x = image_mset (\<lambda>i. rc_graph_max_hops config - gi_hop i) (mset (gx_frontier x))"

lemma hops_left_pop:
  "gx_frontier x = it # rest \<Longrightarrow> (hops_left config (x\<lparr>gx_frontier := rest\<rparr>), hops_left config x) \<in> mult less_than"
  using one_step_implies_mult [of "{#rc_graph_max_hops config - gi_hop it#}" "{#}" less_than
    "image_mset (\<lambda>i. rc_graph_max_hops config - gi_hop i) (mset rest)"]
  by (simp add: hops_left_def)

lemma hops_left_relax:
  assumes "gx_frontier x = it # rest" "gi_hop it < rc_graph_max_hops config"
  shows "(hops_left config (relax config it es (x\<lparr>gx_frontier := rest\<rparr>)), hops_left config x) \<in> mult less_than"
proof -
  let ?f = "\<lambda>i. rc_graph_max_hops config - gi_hop i"
  consider (none) "gx_frontier (relax config it es (x\<lparr>gx_frontier := rest\<rparr>)) = []"
    | (new) new where "gx_frontier (relax config it es (x\<lparr>gx_frontier := rest\<rparr>)) = rest @ new"
        "\<forall>i\<in>set new. gi_hop i = Suc (gi_hop it)"
    using relax_frontier [of config it es "x\<lparr>gx_frontier := rest\<rparr>"] by auto
  then show ?thesis
  proof cases
    case none
    then show ?thesis
      using one_step_implies_mult [of "image_mset ?f (mset (gx_frontier x))" "{#}" less_than "{#}"] assms(1)
      by (simp add: hops_left_def)
  next
    case new
    have "\<forall>k\<in>#image_mset ?f (mset new). \<exists>j\<in>#{#?f it#}. (k, j) \<in> less_than" using new(2) assms(2) by auto
    from one_step_implies_mult [OF _ this, of "image_mset ?f (mset rest)"] show ?thesis
      using new(1) assms(1) by (simp add: hops_left_def)
  qed
qed

function expand_loop :: "retrieval_config \<Rightarrow> (string \<Rightarrow> exn + edge list) \<Rightarrow> expansion \<Rightarrow> exn + expansion" where
  "expand_loop config neighbors x =
     (case gx_frontier x of
        [] \<Rightarrow> Inr x
      | it # rest \<Rightarrow>
          if rc_graph_max_hops config \<le> gi_hop it then expand_loop config neighbors (x\<lparr>gx_frontier := rest\<rparr>)
          else (case neighbors (gi_entity it) of
              Inl e \<Rightarrow> Inl e
            | Inr es \<Rightarrow> expand_loop config neighbors (relax config it es (x\<lparr>gx_frontier := rest\<rparr>))))"
  by pat_completeness auto
termination
proof (relation "inv_image (mult less_than) (\<lambda>(config, neighbors, x). hops_left config x)")
  show "wf (inv_image (mult less_than) (\<lambda>(config, neighbors :: string \<Rightarrow> exn + edge list, x). hops_left config x))"
    by (simp add: wf_mult)
qed (auto intro: hops_left_pop hops_left_relax)

declare expand_loop.simps [simp del]

section \<open>Hits\<close>

definition hit_ranks :: "fused_candidate list \<Rightarrow> (string \<times> nat) list" where
  "hit_ranks seeds = fold (\<lambda>(rank, c) d. fold (\<lambda>h. dict_set (rh_chunk h) rank) (fc_hits c) d) (enumerate 1 seeds) []"

definition seed_scale :: "fused_candidate list \<Rightarrow> rat" where
  "seed_scale seeds = (let m = Max (set (map (\<lambda>c. or_zero (fc_preliminary c)) seeds)) in if m = 0 then 1 else m)"

definition seed_items :: "fused_candidate list \<Rightarrow> frontier_item list" where
  "seed_items seeds = map (\<lambda>c. \<lparr>gi_entity = fc_entity c, gi_score = or_zero (fc_preliminary c) / seed_scale seeds,
     gi_path = [], gi_hop = 0\<rparr>) seeds"

definition start_expansion :: "fused_candidate list \<Rightarrow> expansion" where
  "start_expansion seeds = \<lparr>gx_frontier = seed_items seeds, gx_best = [], gx_notes = [],
     gx_visited = fold (\<lambda>i. dict_set (gi_entity i) (gi_score i)) (seed_items seeds) []\<rparr>"

definition no_chunk_note :: "string \<Rightarrow> string list \<Rightarrow> string" where
  "no_chunk_note entity_id path = ''entity:'' @ entity_id @ '' has no chunk; graph_path='' @ join_with '','' path"

text \<open>A selected chunk with its score, entity, path and the rule that chose it.\<close>

record graph_choice =
  gc_score :: rat
  gc_chunk :: string
  gc_entity :: string
  gc_path :: "string list"
  gc_rule :: string

definition choose_chunk ::
    "query_type \<Rightarrow> string \<Rightarrow> (string \<times> nat) list \<Rightarrow> (string \<times> document list) list \<Rightarrow> string \<times> rat \<times> string list
     \<Rightarrow> string + graph_choice" where
  "choose_chunk profile query_text ranks chunks entry =
     (case entry of (entity_id, score, path) \<Rightarrow>
        (case select_chunk (\<lambda>e. []) ranks entity_id query_text profile path
            (case map_of chunks entity_id of None \<Rightarrow> [] | Some ds \<Rightarrow> ds) of
           (rule, None) \<Rightarrow> Inl (no_chunk_note entity_id path)
         | (rule, Some d) \<Rightarrow> Inr \<lparr>gc_score = score, gc_chunk = dd_chunk d, gc_entity = entity_id, gc_path = path, gc_rule = rule\<rparr>))"

definition lefts :: "('a + 'b) list \<Rightarrow> 'a list" where
  "lefts xs = concat (map (\<lambda>x. case x of Inl a \<Rightarrow> [a] | Inr b \<Rightarrow> []) xs)"

definition rights :: "('a + 'b) list \<Rightarrow> 'b list" where
  "rights xs = concat (map (\<lambda>x. case x of Inl a \<Rightarrow> [] | Inr b \<Rightarrow> [b]) xs)"

definition graph_hit :: "nat \<times> graph_choice \<Rightarrow> raw_hit" where
  "graph_hit rc = (case rc of (rank, c) \<Rightarrow> \<lparr>rh_source = Graph, rh_chunk = gc_chunk c, rh_entity = gc_entity c,
     rh_score = gc_score c, rh_rank = rank, rh_exact = 0, rh_path = gc_path c, rh_text = None\<rparr>)"

definition sorted_notes :: "string list \<Rightarrow> string list" where
  "sorted_notes notes = sort (remdups notes)"

definition expand_graph ::
    "index_db \<Rightarrow> string \<Rightarrow> retrieval_filter \<Rightarrow> retrieval_config \<Rightarrow> fused_candidate list \<Rightarrow> exn + raw_hit list \<times> string list" where
  "expand_graph db query_text f config candidates =
     (let seeds = take (rc_graph_seed_k config) candidates in
      if seeds = [] \<or> rc_graph_max_hops config = 0 \<or> rc_edge_weights config = [] then Inr ([], [])
      else case expand_loop config
          (\<lambda>i. graph_neighbors db (rf_repo f) (rf_version f) [i] (map fst (rc_edge_weights config)) True) (start_expansion seeds) of
        Inl e \<Rightarrow> Inl e
      | Inr x \<Rightarrow>
          if gx_best x = [] then Inr ([], sorted_notes (gx_notes x))
          else case chunks_for_entities db (rf_repo f) (rf_version f) (sort (map fst (gx_best x))) of
              Inl e \<Rightarrow> Inl e
            | Inr chunks \<Rightarrow>
                let choices = map (choose_chunk (rc_profile config) query_text (hit_ranks seeds) chunks) (gx_best x);
                    chosen = sort_key (\<lambda>c. (- gc_score c, gc_entity c, gc_chunk c)) (rights choices)
                in Inr (map graph_hit (enumerate 1 chosen), sorted_notes (gx_notes x @ lefts choices)))"

end
