(* ===== verification/Rt_Service.thy ===== *)
theory Rt_Service
  imports Rt_Fts Rt_Graph
begin

text \<open>
  The search service (\<open>retrieval/retrieval_service.py\<close>) with the classification of the query
  (\<open>retrieval/query_profiler.py\<close>): sparse, dense and graph hits are fused, reranked and turned into
  candidates.  The vector index, the reranker's model and FTS5 are given per search; spans and
  latencies are left out; query texts are ASCII, so the Chinese alternatives of the rules never match.
\<close>

section \<open>Profile of a query\<close>

fun split_dots :: "string \<Rightarrow> string list" where
  "split_dots [] = [[]]"
| "split_dots (c # cs) = (if c = CHR ''.'' then [] # split_dots cs
     else case split_dots cs of [] \<Rightarrow> [[c]] | p # ps \<Rightarrow> (c # p) # ps)"

definition looks_like_symbol :: "string \<Rightarrow> bool" where
  "looks_like_symbol text \<longleftrightarrow> CHR ''/'' \<in> set text \<or> CHR 0x5C \<in> set text \<or> take 3 (rev text) = ''yp.''
     \<or> (let parts = split_dots text in 2 \<le> length parts
          \<and> list_all (\<lambda>p. p \<noteq> [] \<and> ident_start (hd p) \<and> list_all ident_char p) parts)"

text \<open>\<open>call\s*(chain|path|graph)\<close>\<close>

definition call_phrase :: "string \<Rightarrow> bool" where
  "call_phrase t = list_ex (\<lambda>i. let s = drop i t; r = dropWhile is_space (drop 4 s)
     in take 4 s = ''call'' \<and> (take 5 r = ''chain'' \<or> take 4 r = ''path'' \<or> take 5 r = ''graph'')) [0..<length t + 1]"

definition any_of :: "string list \<Rightarrow> string \<Rightarrow> bool" where
  "any_of words t = list_ex (contains_text t) words"

definition PROFILE_RULES :: "(query_type \<times> (string \<Rightarrow> bool)) list" where
  "PROFILE_RULES =
     [(CallChain, \<lambda>t. call_phrase t \<or> any_of [''caller'', ''callee''] t),
      (PaperAlignment, any_of [''paper'', ''figure'', ''alignment'']),
      (TrainingProcess, any_of [''train'', ''loss'', ''optimizer'', ''backward'']),
      (InferenceProcess, any_of [''inference'', ''predict'', ''decode'', ''generation'']),
      (Configuration, any_of [''config'', ''yaml'', ''toml'']),
      (TensorShape, any_of [''shape'', ''tensor'', ''input_dim'', ''output_dim'']),
      (Architecture, any_of [''architecture'']),
      (ImplementationExplanation, any_of [''explain'', ''implementation''])]"

definition classify :: "string \<Rightarrow> query_type option \<Rightarrow> query_type \<times> string" where
  "classify text explicit_type =
     (case explicit_type of
        Some t \<Rightarrow> (t, ''explicit'')
      | None \<Rightarrow>
          let stripped = strip text in
          if looks_like_symbol stripped then (SymbolLookup, ''exact_symbol_or_path'')
          else case List.find (\<lambda>r. snd r (map fold_case stripped)) PROFILE_RULES of
              Some (p, _) \<Rightarrow> (p, ''rule:'' @ query_type_name p)
            | None \<Rightarrow> (GeneralRepository, ''fallback''))"

section \<open>Requests\<close>

record search_request =
  sr_text :: string
  sr_version :: "string option"
  sr_query_type :: "query_type option"
  sr_filters :: retrieval_filter
  sr_top_k :: "nat option"
  sr_include_graph :: "bool option"
  sr_include_reranker :: "bool option"

text \<open>\<open>_internal_filters\<close>: the public filters, with the repository and the version of the search.\<close>

definition internal_filters :: "string \<Rightarrow> string \<Rightarrow> search_request \<Rightarrow> retrieval_filter" where
  "internal_filters repo_id version request = (sr_filters request)\<lparr>rf_repo := repo_id, rf_version := version\<rparr>"

definition apply_request_overrides :: "retrieval_config \<Rightarrow> search_request \<Rightarrow> retrieval_config" where
  "apply_request_overrides config request =
     (let c1 = (case sr_top_k request of None \<Rightarrow> config | Some k \<Rightarrow> config\<lparr>rc_final_top_k := k\<rparr>);
          c2 = (if sr_include_graph request = Some False then c1\<lparr>rc_graph_enabled := False\<rparr> else c1)
      in if sr_include_reranker request = Some False \<and> rc_reranker_enabled config
         then c2\<lparr>rc_reranker_enabled := False, rc_hybrid_weight := 1, rc_reranker_weight := 0\<rparr> else c2)"

record execution_overrides =
  eo_dense :: "bool option"
  eo_sparse :: "bool option"
  eo_graph :: "bool option"
  eo_reranker :: "bool option"

definition override :: "bool option \<Rightarrow> bool \<Rightarrow> bool" where
  "override v d = (case v of None \<Rightarrow> d | Some b \<Rightarrow> b)"

definition apply_execution_overrides :: "retrieval_config \<Rightarrow> execution_overrides option \<Rightarrow> retrieval_config" where
  "apply_execution_overrides config execution =
     (case execution of
        None \<Rightarrow> config
      | Some x \<Rightarrow>
          let c = config\<lparr>rc_dense_enabled := override (eo_dense x) (rc_dense_enabled config),
                rc_sparse_enabled := override (eo_sparse x) (rc_sparse_enabled config),
                rc_graph_enabled := override (eo_graph x) (rc_graph_enabled config),
                rc_reranker_enabled := override (eo_reranker x) (rc_reranker_enabled config)\<rparr>
          in if eo_reranker x = Some False then c\<lparr>rc_hybrid_weight := 1, rc_reranker_weight := 0\<rparr> else c)"

section \<open>Surroundings\<close>

text \<open>
  What a vector query gives: chunk, entity and score of every point, in order.  \<open>None\<close> stands for
  an exception.  A vector index that synchronised answers with its own dense retriever and,
  if it has one, a sparse retriever.
\<close>

type_synonym vector_hits = "(string \<times> string \<times> rat) list"

record vector_index =
  vi_generation :: string
  vi_dense :: "vector_hits option"
  vi_sparse :: "vector_hits option option"

record search_env =
  se_bm25 :: fts_engine
  se_dense :: "vector_hits option option"
  se_vector :: "vector_index option option"
  se_reranker :: "(string \<times> rat) list option option"

definition vector_hit :: "source \<Rightarrow> nat \<times> string \<times> string \<times> rat \<Rightarrow> raw_hit" where
  "vector_hit src h = (case h of (rank, chunk, entity, score) \<Rightarrow>
     \<lparr>rh_source = src, rh_chunk = chunk, rh_entity = entity, rh_score = score, rh_rank = rank, rh_exact = 0, rh_path = [],
      rh_text = None\<rparr>)"

definition vector_retrieve :: "source \<Rightarrow> nat \<Rightarrow> vector_hits \<Rightarrow> raw_hit list" where
  "vector_retrieve src top_k hits = map (vector_hit src) (enumerate 1 (take top_k hits))"

definition attach_text :: "document list \<Rightarrow> raw_hit \<Rightarrow> raw_hit" where
  "attach_text documents h =
     (case find_by dd_chunk (rh_chunk h) documents of None \<Rightarrow> h | Some d \<Rightarrow> h\<lparr>rh_text := Some (dd_text d)\<rparr>)"

section \<open>Candidates\<close>

record retrieval_score =
  rs_dense :: "rat option"
  rs_sparse :: "rat option"
  rs_graph :: "rat option"
  rs_preliminary :: "rat option"
  rs_final_rrf :: rat
  rs_reranker :: "rat option"
  rs_reranker_normalized :: "rat option"
  rs_final :: rat
  rs_source_ranks :: "(string \<times> nat) list"
  rs_contributions :: "(string \<times> rat) list"

record search_candidate =
  sc_document :: document
  sc_score :: retrieval_score
  sc_sources :: "string list"
  sc_graph_path :: "string list"
  sc_evidence :: "retrieval_evidence list"

definition source_score :: "source \<Rightarrow> raw_hit list \<Rightarrow> rat option" where
  "source_score src hits = map_option rh_score (List.find (\<lambda>h. rh_source h = src) (rev hits))"

definition public_candidate ::
    "document list \<Rightarrow> (string \<Rightarrow> retrieval_evidence list) \<Rightarrow> final_candidate \<Rightarrow> search_candidate option" where
  "public_candidate documents evidence n =
     (let c = nc_candidate n; hits = fc_hits c in
      map_option (\<lambda>d. \<lparr>sc_document = d,
        sc_score = \<lparr>rs_dense = source_score Dense hits, rs_sparse = source_score Sparse hits,
          rs_graph = source_score Graph hits, rs_preliminary = fc_preliminary c, rs_final_rrf = or_zero (fc_final c),
          rs_reranker = nc_reranker_score n, rs_reranker_normalized = nc_reranker_normalized n, rs_final = nc_final_score n,
          rs_source_ranks = fold (\<lambda>h. dict_set (source_name (rh_source h)) (rh_rank h)) hits [],
          rs_contributions = nc_contributions n\<rparr>,
        sc_sources = sort (remdups (map (\<lambda>h. source_name (rh_source h)) hits)), sc_graph_path = fc_path c,
        sc_evidence = evidence (fc_entity c)\<rparr>) (find_by dd_chunk (fc_chunk c) documents))"

record retrieval_result =
  rr_filters :: retrieval_filter
  rr_config :: retrieval_config
  rr_candidates :: "search_candidate list"
  rr_total :: nat
  rr_version :: string
  rr_vector_generation :: "string option"
  rr_warnings :: "string list"

section \<open>The search\<close>

text \<open>The effective configuration and the rule that chose the profile.\<close>

definition effective_config ::
    "search_request \<Rightarrow> search_env \<Rightarrow> execution_overrides option \<Rightarrow> retrieval_config \<times> string" where
  "effective_config request env execution =
     (case classify (sr_text request) (sr_query_type request) of (profile, rule) \<Rightarrow>
        (apply_execution_overrides (apply_request_overrides
           (profile_config_of profile (se_dense env \<noteq> None \<or> se_vector env \<noteq> None)
              (sr_include_reranker request = Some True \<and> se_reranker env \<noteq> None)) request) execution, rule))"

text \<open>A sparse generation is built from the documents of the search when none is ready.\<close>

definition ensure_sparse :: "retrieval_filter \<Rightarrow> document list \<Rightarrow> fts_db \<Rightarrow> (fts_db, unit) outcome" where
  "ensure_sparse f documents fts =
     (if ready_generation (rf_repo f) (rf_version f) FTS_PROFILE_VERSION fts = None
      then (case fts_sync (rf_repo f) (rf_version f) FTS_PROFILE_VERSION documents False fts of
              (Inl e, fts') \<Rightarrow> (Inl e, fts') | (Inr _, fts') \<Rightarrow> (Inr (), fts'))
      else (Inr (), fts))"

definition sparse_hits :: "search_env \<Rightarrow> retrieval_config \<Rightarrow> string \<Rightarrow> retrieval_filter \<Rightarrow> fts_db \<Rightarrow> exn + raw_hit list" where
  "sparse_hits env config text f fts =
     (case (if rc_sparse_enabled config then fts_search (se_bm25 env) text f FTS_PROFILE_VERSION (rc_sparse_top_k config) fts
            else Inr []) of
        Inl e \<Rightarrow> Inl e
      | Inr hits \<Rightarrow> Inr (case se_vector env of
            Some (Some v) \<Rightarrow> (case vi_sparse v of Some (Some hs) \<Rightarrow> vector_retrieve Sparse (rc_sparse_top_k config) hs | _ \<Rightarrow> hits)
          | _ \<Rightarrow> hits))"

definition dense_source :: "search_env \<Rightarrow> vector_hits option option" where
  "dense_source env = (case se_vector env of Some (Some v) \<Rightarrow> Some (vi_dense v) | _ \<Rightarrow> se_dense env)"

definition dense_hits :: "search_env \<Rightarrow> retrieval_config \<Rightarrow> raw_hit list" where
  "dense_hits env config =
     (if rc_dense_enabled config
      then (case dense_source env of Some (Some hs) \<Rightarrow> vector_retrieve Dense (rc_dense_top_k config) hs | _ \<Rightarrow> [])
      else [])"

definition vector_warnings :: "search_env \<Rightarrow> retrieval_config \<Rightarrow> string list" where
  "vector_warnings env config =
     (if se_vector env = Some None then [''vector_index_unavailable_fallback_to_fts5''] else [])
     @ (case se_vector env of Some (Some v) \<Rightarrow>
          if vi_sparse v = Some None then [''qdrant_sparse_unavailable_fallback_to_fts5''] else [] | _ \<Rightarrow> [])
     @ (if rc_dense_enabled config \<and> dense_source env = Some None then [''dense_unavailable_fallback_to_sparse''] else [])"

definition graph_hits_of ::
    "index_db \<Rightarrow> search_request \<Rightarrow> retrieval_filter \<Rightarrow> retrieval_config \<Rightarrow> fused_candidate list \<Rightarrow> exn + raw_hit list \<times> string list" where
  "graph_hits_of db request f config seeds =
     (if rc_graph_enabled config \<and> sr_include_graph request \<noteq> Some False
      then expand_graph db (sr_text request) f config (take (rc_graph_seed_k config) seeds) else Inr ([], []))"

text \<open>From the hits of the retrievers to the result.\<close>

definition finish_search ::
    "index_db \<Rightarrow> search_request \<Rightarrow> search_env \<Rightarrow> retrieval_filter \<Rightarrow> retrieval_config \<Rightarrow> string \<Rightarrow> document list
     \<Rightarrow> raw_hit list \<Rightarrow> raw_hit list \<Rightarrow> exn + retrieval_result" where
  "finish_search db request env f config rule documents sparse dense =
     (case preliminary_rrf dense sparse config of
        Inl e \<Rightarrow> Inl e
      | Inr seeds \<Rightarrow>
          (case graph_hits_of db request f config seeds of
             Inl e \<Rightarrow> Inl e
           | Inr (raw_graph, notes) \<Rightarrow>
               let fused = final_rrf dense sparse (map (attach_text documents) raw_graph) config;
                   (final, reranker_notes) = fuse_reranker fused config (se_reranker env);
                   evidence = evidence_for_entities db (rf_version f) (map (\<lambda>n. fc_entity (nc_candidate n)) final)
               in Inr \<lparr>rr_filters = f, rr_config = config,
                    rr_candidates = List.map_filter (public_candidate documents evidence) final,
                    rr_total = length fused, rr_version = rf_version f,
                    rr_vector_generation = (case se_vector env of Some (Some v) \<Rightarrow> Some (vi_generation v) | _ \<Rightarrow> None),
                    rr_warnings = vector_warnings env config @ reranker_notes
                      @ (if notes \<noteq> [] then [''graph_relationship_notes:'' @ show_nat (length notes)] else [])
                      @ [''query_profile_rule:'' @ rule]\<rparr>))"

definition search ::
    "index_db \<Rightarrow> search_env \<Rightarrow> string \<Rightarrow> search_request \<Rightarrow> execution_overrides option \<Rightarrow> fts_db \<Rightarrow> (fts_db, retrieval_result) outcome" where
  "search db env repo_id request execution fts =
     (case resolve_version db repo_id (sr_version request) of
        Inl e \<Rightarrow> (Inl e, fts)
      | Inr version \<Rightarrow>
          let f = internal_filters repo_id version request;
              (config, rule) = effective_config request env execution
          in (case list_documents db f of
                Inl e \<Rightarrow> (Inl e, fts)
              | Inr documents \<Rightarrow>
                  (case (if rc_sparse_enabled config then ensure_sparse f documents fts else (Inr (), fts)) of
                     (Inl e, fts') \<Rightarrow> (Inl e, fts')
                   | (Inr _, fts') \<Rightarrow>
                       (case sparse_hits env config (sr_text request) f fts' of
                          Inl e \<Rightarrow> (Inl e, fts')
                        | Inr sparse \<Rightarrow>
                            (finish_search db request env f config rule documents (map (attach_text documents) sparse)
                               (map (attach_text documents) (dense_hits env config)), fts')))))"

end
