(* ===== verification/Rt_Fts_Props.thy ===== *)
theory Rt_Fts_Props
  imports Rt_Fts
begin

text \<open>
  The full-text index stays consistent when several processes synchronise, fail and delete in any
  order: one ready generation per scope, holding exactly the documents it was built from.
\<close>

section \<open>Generations in play\<close>

definition doc_keys :: "document list \<Rightarrow> (string \<times> string) list" where
  "doc_keys docs = map (\<lambda>d. (dd_chunk d, dd_content_hash d)) (sort_key dd_chunk docs)"

definition keys_hash :: "(string \<times> string) list \<Rightarrow> string" where
  "keys_hash ks = stable_hash (dumps_sorted escape_char_raw
     (JArr (map (\<lambda>(c, h). JObj [(''chunk_id'', JStr c), (''content_hash'', JStr h)]) ks)))"

lemma documents_hash_keys: "documents_hash docs = keys_hash (doc_keys docs)"
  by (simp add: documents_hash_def keys_hash_def doc_keys_def comp_def)

lemma length_doc_keys: "length (doc_keys docs) = length docs"
  by (simp add: doc_keys_def)

type_synonym generation_key = "string \<times> string \<times> string \<times> (string \<times> string) list"

definition gid_of :: "generation_key \<Rightarrow> string" where
  "gid_of g = (case g of (r, v, p, ks) \<Rightarrow> fts_generation_id r v p (keys_hash ks))"

lemma sync_generation_gid: "sync_generation r v p docs = gid_of (r, v, p, doc_keys docs)"
  by (simp add: sync_generation_def gid_of_def documents_hash_keys)

text \<open>The synchronisations of a history are among \<open>U\<close>, whose generation ids do not collide.\<close>

fun in_play :: "generation_key set \<Rightarrow> fts_op \<Rightarrow> bool" where
  "in_play U (SyncBegin r v p docs) = ((r, v, p, doc_keys docs) \<in> U)"
| "in_play U (SyncWrite r v p docs fail) = ((r, v, p, doc_keys docs) \<in> U)"
| "in_play U (DeleteVersion r v) = True"

section \<open>The invariant\<close>

definition row_ok :: "generation_key set \<Rightarrow> fts_row \<Rightarrow> bool" where
  "row_ok U r \<longleftrightarrow> (\<exists>ks. (fr_repo r, fr_version r, fr_profile r, ks) \<in> U \<and> fr_id r = gid_of (fr_repo r, fr_version r, fr_profile r, ks)
     \<and> fr_content_hash r = keys_hash ks)"

definition filled :: "generation_key set \<Rightarrow> document list \<Rightarrow> fts_row \<Rightarrow> bool" where
  "filled U ds r \<longleftrightarrow> fr_status r = FReady \<longrightarrow> (\<exists>rp v p. (rp, v, p, doc_keys ds) \<in> U \<and> fr_id r = gid_of (rp, v, p, doc_keys ds))
     \<and> fr_count r = length ds \<and> distinct (map dd_chunk ds)"

definition fts_inv :: "generation_key set \<Rightarrow> fts_db \<Rightarrow> bool" where
  "fts_inv U db \<longleftrightarrow> distinct (map fr_id (ft_rows db)) \<and> ready_unique (ft_rows db) \<and> (\<forall>r\<in>set (ft_rows db). row_ok U r)
     \<and> (\<forall>r\<in>set (ft_rows db). filled U (generation_documents (fr_id r) db) r)"

lemma generation_documents_delete [simp]:
  "generation_documents g (delete_generation_documents h db) = (if g = h then [] else generation_documents g db)"
  by (auto simp add: generation_documents_def delete_generation_documents_def intro!: arg_cong [of _ _ "map snd"] filter_cong)

lemma generation_documents_rows [simp]: "generation_documents g (db\<lparr>ft_rows := rows\<rparr>) = generation_documents g db"
  by (simp add: generation_documents_def)

lemma ft_rows_delete [simp]: "ft_rows (delete_generation_documents h db) = ft_rows db"
  by (simp add: delete_generation_documents_def)

lemma filled_not_ready: "fr_status r \<noteq> FReady \<Longrightarrow> filled U ds r"
  by (simp add: filled_def)

lemma distinct_filter_drop: "distinct (map f (filter P xs)) \<Longrightarrow> (\<And>x. Q x \<Longrightarrow> P x) \<Longrightarrow> distinct (map f (filter Q xs))"
  by (induction xs) (auto split: if_splits)

text \<open>Rows only lose their readiness.\<close>

lemma ready_unique_map:
  assumes "ready_unique rows" "\<And>r :: fts_row. fr_status (f r) = FReady \<Longrightarrow> f r = r"
  shows "ready_unique (map f rows)"
proof -
  let ?k = "\<lambda>r. (fr_repo r, fr_version r, fr_profile r)"
  have "map ?k (filter (\<lambda>r. fr_status r = FReady) (map f rows)) = map ?k (filter (\<lambda>r. fr_status (f r) = FReady) rows)"
    by (induction rows) (auto dest!: assms(2))
  moreover have "distinct (map ?k (filter (\<lambda>r. fr_status (f r) = FReady) rows))"
    using assms(1) unfolding ready_unique_def by (rule distinct_filter_drop) (use assms(2) in metis)
  ultimately show ?thesis by (simp add: ready_unique_def)
qed

lemma retire_inv:
  assumes "fts_inv U db" "\<And>r. fr_id (f r) = fr_id r" "\<And>r. row_ok U r \<Longrightarrow> row_ok U (f r)"
    "\<And>r. fr_status (f r) \<noteq> FReady"
  shows "fts_inv U (delete_generation_documents g (db\<lparr>ft_rows := update_by fr_id g f (ft_rows db)\<rparr>))"
proof -
  have "ready_unique (update_by fr_id g f (ft_rows db))"
    unfolding update_by_def using assms(1,4) by (intro ready_unique_map) (auto simp add: fts_inv_def split: if_splits)
  then show ?thesis using assms unfolding fts_inv_def
    by (auto simp add: map_key_update_by filled_not_ready set_update_by)
qed

lemma sync_begin_inv:
  assumes inv: "fts_inv U db" and U: "(r, v, p, doc_keys docs) \<in> U"
  shows "fts_inv U (snd (sync_begin r v p docs db))"
proof (cases "find_by fr_id (sync_generation r v p docs) (ft_rows db)")
  case None
  then have "sync_generation r v p docs \<notin> fr_id ` set (ft_rows db)" by (simp add: find_by_None_iff)
  then have "fr_id s \<noteq> sync_generation r v p docs" if "s \<in> set (ft_rows db)" for s
    using that by (metis imageI)
  with inv U None show ?thesis
    by (auto simp add: sync_begin_def Let_def fts_inv_def ready_unique_def filled_not_ready row_ok_def sync_generation_gid
        documents_hash_keys intro!: exI [of _ "doc_keys docs"])
next
  case (Some row)
  then show ?thesis
    using inv by (auto simp add: sync_begin_def Let_def intro!: retire_inv) (auto simp add: row_ok_def)
qed

lemma sync_failed_inv: "fts_inv U db \<Longrightarrow> fts_inv U (sync_failed g code db)"
  unfolding sync_failed_def by (rule retire_inv) (auto simp add: row_ok_def)

lemma activate_row:
  assumes "s \<in> set (activate r v p g n rows)"
  obtains t where "t \<in> set rows" "fr_id s = fr_id t" "fr_repo s = fr_repo t" "fr_version s = fr_version t"
    "fr_profile s = fr_profile t" "fr_content_hash s = fr_content_hash t"
    "fr_status s = FReady \<longrightarrow> s = t \<or> (fr_id t = g \<and> fr_count s = n)"
  using assms unfolding activate_def set_update_where by (auto split: if_splits)

lemma map_id_activate: "map fr_id (activate r v p g n rows) = map fr_id rows"
  by (simp add: activate_def map_update_where)

lemma sync_write_cases:
  "(\<exists>code. snd (sync_write r v p docs fail db) = sync_failed (sync_generation r v p docs) code db)
   \<or> (snd (sync_write r v p docs fail db) =
         \<lparr>ft_rows = activate r v p (sync_generation r v p docs) (length docs) (ft_rows db),
          ft_docs = ft_docs db @ map (Pair (sync_generation r v p docs)) (sort_key dd_chunk docs)\<rparr>
      \<and> distinct (map dd_chunk docs) \<and> generation_documents (sync_generation r v p docs) db = []
      \<and> ready_unique (activate r v p (sync_generation r v p docs) (length docs) (ft_rows db)))"
proof -
  define g where "g = sync_generation r v p docs"
  define broken where "broken \<longleftrightarrow> (docs \<noteq> [] \<and> find_by fr_id g (ft_rows db) = None) \<or> \<not> distinct (map dd_chunk docs)
    \<or> list_ex (\<lambda>d. dd_chunk d \<in> dd_chunk ` set (generation_documents g db)) docs"
  define rows where "rows = activate r v p g (length docs) (ft_rows db)"
  have "\<not> broken \<Longrightarrow> distinct (map dd_chunk docs)" by (simp add: broken_def)
  then show ?thesis
    unfolding sync_write_def Let_def g_def [symmetric] broken_def [symmetric] rows_def [symmetric]
    by (cases broken; cases "generation_documents g db"; cases fail; cases "ready_unique rows") auto
qed

text \<open>A generation whose ids do not collide has only one list of keys.\<close>

lemma sync_write_inv:
  assumes inv: "fts_inv U db" and U: "(r, v, p, doc_keys docs) \<in> U" "inj_on gid_of U"
  shows "fts_inv U (snd (sync_write r v p docs fail db))"
proof -
  define g where "g = sync_generation r v p docs"
  define rows where "rows = activate r v p g (length docs) (ft_rows db)"
  define db' where "db' = \<lparr>ft_rows = rows, ft_docs = ft_docs db @ map (Pair g) (sort_key dd_chunk docs)\<rparr>"
  consider (failed) code where "snd (sync_write r v p docs fail db) = sync_failed g code db"
    | (written) "snd (sync_write r v p docs fail db) = db'" "distinct (map dd_chunk docs)" "generation_documents g db = []"
        "ready_unique rows"
    using sync_write_cases [of r v p docs fail db] by (auto simp add: g_def rows_def db'_def)
  then show ?thesis
  proof cases
    case failed
    then show ?thesis using inv by (simp add: sync_failed_inv)
  next
    case written
    have docs: "generation_documents h db' = (if h = g then sort_key dd_chunk docs else generation_documents h db)" for h
      using written(3) by (auto simp add: generation_documents_def db'_def comp_def)
    have keys: "doc_keys (sort_key dd_chunk docs) = doc_keys docs" by (simp add: doc_keys_def sort_key_id_if_sorted)
    have fill: "filled U (generation_documents (fr_id s) db') s" if s: "s \<in> set rows" for s
    proof (cases "fr_status s = FReady")
      case True
      from activate_row [OF s [unfolded rows_def]] obtain t where t: "t \<in> set (ft_rows db)" "fr_id s = fr_id t"
        "s = t \<or> (fr_id t = g \<and> fr_count s = length docs)" using True by metis
      have old: "filled U (generation_documents (fr_id t) db) t" using inv t(1) by (simp add: fts_inv_def)
      show ?thesis
      proof (cases "fr_id t = g")
        case False
        then show ?thesis using t old docs by auto
      next
        case at_g: True
        have g: "(r, v, p, doc_keys docs) \<in> U" "g = gid_of (r, v, p, doc_keys docs)"
          using U by (simp_all add: g_def sync_generation_gid)
        have "fr_count s = length docs"
        proof (cases "s = t")
          case True
          then obtain rp w q where "(rp, w, q, doc_keys []) \<in> U" "g = gid_of (rp, w, q, doc_keys [])" "fr_count s = 0"
            using old at_g written(3) \<open>fr_status s = FReady\<close> by (auto simp add: filled_def)
          then have "doc_keys docs = doc_keys []" using g U(2) by (metis inj_onD prod.inject)
          then show ?thesis using \<open>fr_count s = 0\<close> length_doc_keys by (metis list.size(3))
        qed (use t at_g in simp)
        moreover have "distinct (map dd_chunk (sort_key dd_chunk docs))"
          using written(2) by (metis distinct_map distinct_sort set_sort)
        ultimately show ?thesis using g t(2) at_g by (auto simp add: filled_def docs keys)
      qed
    qed (simp add: filled_not_ready)
    have ok: "row_ok U s" if s: "s \<in> set rows" for s
    proof -
      from activate_row [OF s [unfolded rows_def]] obtain t where "t \<in> set (ft_rows db)" "fr_id s = fr_id t" "fr_repo s = fr_repo t"
        "fr_version s = fr_version t" "fr_profile s = fr_profile t" "fr_content_hash s = fr_content_hash t" by metis
      then show ?thesis using inv by (simp add: fts_inv_def row_ok_def)
    qed
    have "fts_inv U db'" using inv fill ok written(4)
      by (simp add: fts_inv_def db'_def rows_def map_id_activate)
    then show ?thesis by (simp add: written(1))
  qed
qed

lemma delete_version_inv:
  assumes "fts_inv U db" shows "fts_inv U (delete_fts_version r v db)"
proof -
  define keep where "keep = (\<lambda>s :: fts_row. \<not> (fr_repo s = r \<and> fr_version s = v))"
  have kept: "generation_documents (fr_id s) (delete_fts_version r v db) = generation_documents (fr_id s) db"
    if s: "s \<in> set (ft_rows db)" "keep s" for s
  proof -
    have "fr_id s \<notin> fr_id ` set (filter (\<lambda>t. \<not> keep t) (ft_rows db))"
      using s assms by (auto simp add: fts_inv_def distinct_map inj_on_def)
    then show ?thesis unfolding generation_documents_def delete_fts_version_def Let_def keep_def
      by (auto simp add: intro!: arg_cong [of _ _ "map snd"] filter_cong)
  qed
  have rows: "ft_rows (delete_fts_version r v db) = filter keep (ft_rows db)"
    by (simp add: delete_fts_version_def Let_def keep_def)
  have "ready_unique (filter keep (ft_rows db))"
    using assms unfolding fts_inv_def ready_unique_def by (auto simp add: conj_commute intro: distinct_filter_drop)
  then show ?thesis using assms kept unfolding fts_inv_def rows by (auto simp add: distinct_map_filter)
qed

interpretation fts: machine fts_step "\<lambda>op. inj_on gid_of U \<and> in_play U op" "fts_inv U" "\<lambda>_ _. True"
proof (unfold_locales, goal_cases)
  case (1 db op)
  then show ?case by (cases op) (auto intro: sync_begin_inv sync_write_inv delete_version_inv)
qed simp_all

lemma fts_inv_empty: "fts_inv U empty_fts"
  by (simp add: fts_inv_def empty_fts_def ready_unique_def)

text \<open>C16. Whatever several processes do to the full-text index, one transaction after the other and in any
  order - the two halves of a synchronisation, injected failures, deletions of versions - as long as the
  generation ids in play do not collide every scope has at most one ready generation, and a
  ready generation holds exactly the documents it was built from: their number and their
  digest are those of its row, no chunk occurs twice, and its id is the one of its content.\<close>

theorem fts_generation_complete:
  assumes "inj_on gid_of U" "list_all (in_play U) ops" "db = fold fts_step ops empty_fts"
  shows "ready_unique (ft_rows db)
    \<and> (\<forall>r\<in>set (ft_rows db). fr_status r = FReady \<longrightarrow>
         fr_count r = length (generation_documents (fr_id r) db) \<and> fr_content_hash r = documents_hash (generation_documents (fr_id r) db)
         \<and> distinct (map dd_chunk (generation_documents (fr_id r) db))
         \<and> fr_id r = sync_generation (fr_repo r) (fr_version r) (fr_profile r) (generation_documents (fr_id r) db))"
proof -
  have inv: "fts_inv U db" unfolding assms(3)
    by (rule fts.run_inv [OF fts_inv_empty]) (use assms(1,2) in \<open>simp add: list_all_iff\<close>)
  have "fr_content_hash r = documents_hash ds \<and> fr_id r = sync_generation (fr_repo r) (fr_version r) (fr_profile r) ds"
    if r: "r \<in> set (ft_rows db)" "fr_status r = FReady" and ds: "ds = generation_documents (fr_id r) db" for r ds
  proof -
    have "filled U ds r" "row_ok U r" using r ds inv by (simp_all add: fts_inv_def)
    then obtain rp v p where a: "(rp, v, p, doc_keys ds) \<in> U" "fr_id r = gid_of (rp, v, p, doc_keys ds)"
      using r(2) unfolding filled_def by blast
    from \<open>row_ok U r\<close> obtain ks where b: "(fr_repo r, fr_version r, fr_profile r, ks) \<in> U"
      "fr_id r = gid_of (fr_repo r, fr_version r, fr_profile r, ks)" "fr_content_hash r = keys_hash ks"
      unfolding row_ok_def by blast
    have "(rp, v, p, doc_keys ds) = (fr_repo r, fr_version r, fr_profile r, ks)"
      using assms(1) a b by (metis inj_onD)
    then show ?thesis using b by (simp add: documents_hash_keys sync_generation_gid)
  qed
  then show ?thesis using inv by (auto simp add: fts_inv_def filled_def)
qed

definition demo_document :: "string \<Rightarrow> document" where
  "demo_document chunk = \<lparr>dd_chunk = chunk, dd_entity = ''e'' @ chunk, dd_repo = ''r'', dd_version = ''v'', dd_entity_kind = ''code'',
     dd_entity_type = Some ''function'', dd_chunk_type = ''function'', dd_path = Some (chunk @ ''.py''), dd_name = None,
     dd_code_name = None, dd_start = None, dd_end = None, dd_page = None, dd_ordinal = 0, dd_text = [], dd_content_hash = ''h''\<rparr>"

definition demo_fts :: fts_db where
  "demo_fts = fold fts_step [SyncBegin ''r'' ''v'' ''p'' [demo_document ''k''], SyncWrite ''r'' ''v'' ''p'' [demo_document ''k''] False] empty_fts"

lemma demo_fts_ready:
  "\<exists>r\<in>set (ft_rows demo_fts). fr_status r = FReady \<and> generation_documents (fr_id r) demo_fts = [demo_document ''k'']"
  by (simp add: demo_fts_def empty_fts_def sync_begin_def sync_write_def Let_def generation_documents_def
      delete_generation_documents_def activate_def update_where_def ready_unique_def in_scope_def)

lemma fts_generation_complete_witness:
  "\<exists>r\<in>set (ft_rows demo_fts). fr_status r = FReady \<and> fr_count r = 1 \<and> fr_content_hash r = documents_hash [demo_document ''k'']"
proof -
  have "inj_on gid_of {(''r'', ''v'', ''p'', doc_keys [demo_document ''k''])}" by simp
  from fts_generation_complete [OF this _ demo_fts_def] demo_fts_ready show ?thesis by auto
qed

end
