(* ===== verification/Rt_Graph_Props.thy ===== *)
theory Rt_Graph_Props
  imports Rt_Graph
begin

text \<open>
  What graph retrieval returns: every hit is reached from a seed by a walk along edges of the
  index, its score is the product along that walk, and the hits are ranked and bounded.
\<close>

section \<open>Walks\<close>

fun walk :: "(edge \<Rightarrow> bool) \<Rightarrow> string \<Rightarrow> edge list \<Rightarrow> string \<Rightarrow> bool" where
  "walk ok a [] b \<longleftrightarrow> a = b"
| "walk ok a (e # es) b \<longleftrightarrow> ok e
     \<and> (case ke_target e of None \<Rightarrow> False | Some t \<Rightarrow> a \<in> {ke_source e, t} \<and> walk ok (edge_other a e t) es b)"

fun walk_score :: "retrieval_config \<Rightarrow> rat \<Rightarrow> nat \<Rightarrow> edge list \<Rightarrow> rat" where
  "walk_score config s h [] = s"
| "walk_score config s h (e # es) = walk_score config (edge_score config s h e) (Suc h) es"

lemma walk_snoc:
  "walk ok a es b \<Longrightarrow> ok e \<Longrightarrow> ke_target e = Some t \<Longrightarrow> b \<in> {ke_source e, t} \<Longrightarrow> walk ok a (es @ [e]) (edge_other b e t)"
  by (induction ok a es b rule: walk.induct) (auto split: option.splits)

lemma walk_score_snoc:
  "walk_score config s h (es @ [e]) = edge_score config (walk_score config s h es) (h + length es) e"
  by (induction es arbitrary: s h) simp_all

section \<open>The loop\<close>

definition reached :: "(edge \<Rightarrow> bool) \<Rightarrow> retrieval_config \<Rightarrow> frontier_item list \<Rightarrow> nat \<Rightarrow> string \<Rightarrow> rat \<Rightarrow> string list \<Rightarrow> bool" where
  "reached ok config seeds hop n s path \<longleftrightarrow> (\<exists>seed es. seed \<in> set seeds \<and> walk ok (gi_entity seed) es n \<and> length es = hop
     \<and> path = map ke_id es \<and> s = walk_score config (gi_score seed) 0 es)"

definition best_ok :: "(edge \<Rightarrow> bool) \<Rightarrow> retrieval_config \<Rightarrow> frontier_item list \<Rightarrow> expansion \<Rightarrow> bool" where
  "best_ok ok config seeds x \<longleftrightarrow> distinct (map fst (gx_best x)) \<and> length (gx_best x) \<le> max 1 (rc_graph_max_candidates config)
     \<and> (\<forall>(n, s, p)\<in>set (gx_best x). \<exists>h. 1 \<le> h \<and> h \<le> rc_graph_max_hops config \<and> reached ok config seeds h n s p)"

definition expanding :: "(edge \<Rightarrow> bool) \<Rightarrow> retrieval_config \<Rightarrow> frontier_item list \<Rightarrow> expansion \<Rightarrow> bool" where
  "expanding ok config seeds x \<longleftrightarrow> best_ok ok config seeds x
     \<and> (\<forall>i\<in>set (gx_frontier x). reached ok config seeds (gi_hop i) (gi_entity i) (gi_score i) (gi_path i))"

definition open_state :: "retrieval_config \<Rightarrow> expansion \<Rightarrow> bool" where
  "open_state config x \<longleftrightarrow> gx_frontier x = [] \<or> length (gx_best x) < max 1 (rc_graph_max_candidates config)"

lemma dict_set_entries: "set (dict_set k v d) \<subseteq> insert (k, v) (set d)" "distinct (map fst d) \<Longrightarrow> distinct (map fst (dict_set k v d))"
    "length (dict_set k v d) \<le> Suc (length d)"
  unfolding dict_set_def by (induction d) auto

definition usable :: "(edge \<Rightarrow> bool) \<Rightarrow> string \<Rightarrow> edge \<Rightarrow> bool" where
  "usable ok i e \<longleftrightarrow> ok e \<and> (\<forall>t. ke_target e = Some t \<longrightarrow> i \<in> {ke_source e, t})"

lemma relax_expanding:
  assumes "\<forall>e\<in>set es. usable ok (gi_entity it) e" "reached ok config seeds (gi_hop it) (gi_entity it) (gi_score it) (gi_path it)"
    "gi_hop it < rc_graph_max_hops config" "expanding ok config seeds x" "length (gx_best x) < max 1 (rc_graph_max_candidates config)"
  shows "expanding ok config seeds (relax config it es x) \<and> open_state config (relax config it es x)"
  using assms
proof (induction es arbitrary: x)
  case Nil
  then show ?case by (simp add: open_state_def)
next
  case (Cons e es)
  have rest: "\<forall>e\<in>set es. usable ok (gi_entity it) e" using Cons.prems by simp
  show ?case
  proof (cases "ke_target e")
    case None
    define y where "y = (if ke_source e = gi_entity it then x\<lparr>gx_notes := gx_notes x @ [unresolved_note (gi_entity it) e]\<rparr> else x)"
    have "expanding ok config seeds y" "length (gx_best y) < max 1 (rc_graph_max_candidates config)"
      using Cons.prems by (simp_all add: y_def expanding_def best_ok_def)
    from Cons.IH [OF rest Cons.prems(2,3) this] show ?thesis using None by (simp add: y_def)
  next
    case (Some t)
    define s where "s = edge_score config (gi_score it) (gi_hop it) e"
    define n where "n = edge_other (gi_entity it) e t"
    define i where "i = \<lparr>gi_entity = n, gi_score = s, gi_path = gi_path it @ [ke_id e], gi_hop = gi_hop it + 1\<rparr>"
    define y where "y = x\<lparr>gx_visited := dict_set n s (gx_visited x), gx_best := dict_set n (s, gi_path it @ [ke_id e]) (gx_best x),
       gx_frontier := gx_frontier x @ [i]\<rparr>"
    have run: "relax config it (e # es) x = (if s \<le> lookup_or (-1) n (gx_visited x) then relax config it es x
       else if rc_graph_max_candidates config \<le> length (gx_best y) then y\<lparr>gx_frontier := []\<rparr> else relax config it es y)"
      using Some by (simp add: Let_def s_def n_def y_def i_def)
    have new: "reached ok config seeds (gi_hop it + 1) n s (gi_path it @ [ke_id e])"
    proof -
      from Cons.prems(2) obtain seed ws where w: "seed \<in> set seeds" "walk ok (gi_entity seed) ws (gi_entity it)"
        "length ws = gi_hop it" "gi_path it = map ke_id ws" "gi_score it = walk_score config (gi_score seed) 0 ws"
        by (auto simp add: reached_def)
      have "usable ok (gi_entity it) e" using Cons.prems(1) by simp
      then have "walk ok (gi_entity seed) (ws @ [e]) n" unfolding n_def usable_def using Some by (auto intro!: walk_snoc [OF w(2)])
      then show ?thesis unfolding reached_def
        by (intro exI [of _ seed] exI [of _ "ws @ [e]"]) (use w in \<open>simp add: s_def walk_score_snoc\<close>)
    qed
    have y: "expanding ok config seeds y"
    proof -
      have "\<forall>(m, r, p)\<in>set (gx_best y). \<exists>h. 1 \<le> h \<and> h \<le> rc_graph_max_hops config \<and> reached ok config seeds h m r p"
      proof
        fix q assume "q \<in> set (gx_best y)"
        then consider "q = (n, s, gi_path it @ [ke_id e])" | "q \<in> set (gx_best x)"
          using dict_set_entries(1) [of n "(s, gi_path it @ [ke_id e])" "gx_best x"] by (auto simp add: y_def)
        then show "case q of (m, r, p) \<Rightarrow> \<exists>h. 1 \<le> h \<and> h \<le> rc_graph_max_hops config \<and> reached ok config seeds h m r p"
        proof cases
          case 1
          then show ?thesis using new Cons.prems(3) by (auto intro!: exI [of _ "Suc (gi_hop it)"])
        next
          case 2
          then show ?thesis using Cons.prems(4) by (auto simp add: expanding_def best_ok_def)
        qed
      qed
      moreover have "length (gx_best y) \<le> max 1 (rc_graph_max_candidates config)"
        using dict_set_entries(3) [of n "(s, gi_path it @ [ke_id e])" "gx_best x"] Cons.prems(5) by (simp add: y_def)
      ultimately show ?thesis using Cons.prems(4) new dict_set_entries(2)
        by (auto simp add: expanding_def best_ok_def y_def i_def)
    qed
    consider (skip) "relax config it (e # es) x = relax config it es x"
      | (full) "relax config it (e # es) x = y\<lparr>gx_frontier := []\<rparr>"
      | (go) "relax config it (e # es) x = relax config it es y" "\<not> rc_graph_max_candidates config \<le> length (gx_best y)"
      using run by (auto split: if_splits)
    then show ?thesis
    proof cases
      case skip
      then show ?thesis using Cons.IH [OF rest Cons.prems(2-5)] by simp
    next
      case full
      then show ?thesis using y by (simp add: expanding_def best_ok_def open_state_def)
    next
      case go
      then show ?thesis using Cons.IH [OF rest Cons.prems(2,3) y] by simp
    qed
  qed
qed

lemma expand_loop_expanding:
  assumes "expand_loop config neighbors x = Inr y" "expanding ok config seeds x" "open_state config x"
    "\<And>i es. neighbors i = Inr es \<Longrightarrow> \<forall>e\<in>set es. usable ok i e"
  shows "best_ok ok config seeds y"
  using assms
proof (induction config neighbors x rule: expand_loop.induct)
  case (1 config neighbors x)
  show ?case
  proof (cases "gx_frontier x")
    case Nil
    then show ?thesis using 1 by (simp add: expand_loop.simps [of config neighbors x] expanding_def)
  next
    case (Cons it rest)
    define x' where "x' = x\<lparr>gx_frontier := rest\<rparr>"
    have x': "expanding ok config seeds x'" "length (gx_best x') < max 1 (rc_graph_max_candidates config)"
      using 1(4,5) Cons by (auto simp add: x'_def expanding_def best_ok_def open_state_def)
    have it: "reached ok config seeds (gi_hop it) (gi_entity it) (gi_score it) (gi_path it)"
      using 1(4) Cons by (simp add: expanding_def)
    show ?thesis
    proof (cases "rc_graph_max_hops config \<le> gi_hop it")
      case True
      then have "expand_loop config neighbors x' = Inr y" using 1(3) Cons by (simp add: expand_loop.simps [of config neighbors x] x'_def)
      then show ?thesis using 1(1) [OF Cons True] x' 1(6) by (simp add: x'_def open_state_def)
    next
      case False
      then obtain es where es: "neighbors (gi_entity it) = Inr es" "expand_loop config neighbors (relax config it es x') = Inr y"
        using 1(3) Cons by (auto simp add: expand_loop.simps [of config neighbors x] x'_def split: sum.splits)
      have "expanding ok config seeds (relax config it es x') \<and> open_state config (relax config it es x')"
        using relax_expanding [OF 1(6) [OF es(1)] it _ x'] False by simp
      then show ?thesis using 1(2) [OF Cons False es(1)] es(2) 1(6) by (simp add: x'_def)
    qed
  qed
qed

section \<open>The hits\<close>

text \<open>The edges of the index that expansion may follow.\<close>

definition index_edge :: "index_db \<Rightarrow> retrieval_filter \<Rightarrow> retrieval_config \<Rightarrow> edge \<Rightarrow> bool" where
  "index_edge db f config e \<longleftrightarrow> e \<in> set (ix_edges db) \<and> ke_version e = rf_version f \<and> ke_repo e = rf_repo f
     \<and> ke_type e \<in> fst ` set (rc_edge_weights config)"

lemma graph_neighbors_usable:
  "graph_neighbors db (rf_repo f) (rf_version f) [i] (map fst (rc_edge_weights config)) True = Inr es
   \<Longrightarrow> \<forall>e\<in>set es. usable (index_edge db f config) i e"
  by (auto simp add: graph_neighbors_def usable_def index_edge_def touches_def split: sum.splits if_splits)

lemma start_expanding: "expanding ok config (seed_items seeds) (start_expansion seeds) \<and> open_state config (start_expansion seeds)"
  by (auto simp add: expanding_def best_ok_def open_state_def start_expansion_def reached_def seed_items_def
      intro!: exI [of _ "[]"])

definition chosen_from :: "index_db \<Rightarrow> retrieval_filter \<Rightarrow> expansion \<Rightarrow> graph_choice \<Rightarrow> bool" where
  "chosen_from db f x c \<longleftrightarrow> (gc_entity c, gc_score c, gc_path c) \<in> set (gx_best x)
     \<and> (\<exists>d\<in>set (ix_documents db). dd_chunk d = gc_chunk c \<and> dd_entity d = gc_entity c \<and> dd_repo d = rf_repo f
          \<and> dd_version d = rf_version f)"

lemma select_chunk_member: "select_chunk l r i q p es ds = (rule, Some d) \<Longrightarrow> d \<in> set ds"
proof -
  assume *: "select_chunk l r i q p es ds = (rule, Some d)"
  define ss where "ss = sort_key (chunk_key p (find_terms q) (concat (map l es)) r) (filter (\<lambda>d. dd_entity d = i) ds)"
  have "d \<in> set ss"
    using * unfolding select_chunk_def Let_def ss_def [symmetric] by (cases ss) simp_all
  then show ?thesis by (simp add: ss_def)
qed

lemma choose_chunk_from:
  assumes "choose_chunk p q r chunks entry = Inr c" "entry \<in> set (gx_best x)"
    "chunks_for_entities db (rf_repo f) (rf_version f) ids = Inr chunks"
  shows "chosen_from db f x c \<and> gc_entity c = fst entry"
proof -
  obtain i s es where entry: "entry = (i, s, es)" by (cases entry)
  define ds where "ds = (case map_of chunks i of None \<Rightarrow> [] | Some ds \<Rightarrow> ds)"
  obtain rule d where d: "select_chunk (\<lambda>e. []) r i q p es ds = (rule, Some d)"
    and c: "c = \<lparr>gc_score = s, gc_chunk = dd_chunk d, gc_entity = i, gc_path = es, gc_rule = rule\<rparr>"
    using assms(1) by (auto simp add: choose_chunk_def entry ds_def split: prod.splits option.splits)
  have "d \<in> set ds" using d by (rule select_chunk_member)
  then have "map_of chunks i = Some ds" by (cases "map_of chunks i") (simp_all add: ds_def)
  then have "(i, ds) \<in> set chunks" by (rule map_of_SomeD)
  then have "ds = entity_chunks db (rf_repo f) (rf_version f) i"
    using assms(3) by (auto simp add: chunks_for_entities_def split: if_splits sum.splits)
  with \<open>d \<in> set ds\<close> show ?thesis using assms(2) by (auto simp add: chosen_from_def c entry entity_chunks_def)
qed

lemma rights_choices:
  assumes "\<And>entry c. entry \<in> set xs \<Longrightarrow> g entry = Inr c \<Longrightarrow> P c \<and> gc_entity c = fst entry" "distinct (map fst xs)"
  shows "(\<forall>c\<in>set (rights (map g xs)). P c) \<and> distinct (map gc_entity (rights (map g xs)))
    \<and> gc_entity ` set (rights (map g xs)) \<subseteq> fst ` set xs \<and> length (rights (map g xs)) \<le> length xs"
  using assms
proof (induction xs)
  case (Cons e xs)
  have IH: "(\<forall>c\<in>set (rights (map g xs)). P c) \<and> distinct (map gc_entity (rights (map g xs)))
    \<and> gc_entity ` set (rights (map g xs)) \<subseteq> fst ` set xs \<and> length (rights (map g xs)) \<le> length xs"
  proof (rule Cons.IH)
    fix entry c assume "entry \<in> set xs" "g entry = Inr c"
    then show "P c \<and> gc_entity c = fst entry" using Cons.prems(1) [of entry c] by simp
  qed (use Cons.prems(2) in simp)
  show ?case
  proof (cases "g e")
    case (Inl n)
    then have "rights (map g (e # xs)) = rights (map g xs)" by (simp add: rights_def)
    then show ?thesis using IH by auto
  next
    case (Inr c)
    then have "rights (map g (e # xs)) = c # rights (map g xs)" by (simp add: rights_def)
    moreover have "P c" "gc_entity c = fst e" using Cons.prems(1) [of e c] Inr by simp_all
    ultimately show ?thesis using IH Cons.prems(2) by auto
  qed
qed (simp add: rights_def)

definition graph_hits :: "graph_choice list \<Rightarrow> raw_hit list" where
  "graph_hits cs = map graph_hit (enumerate 1 cs)"

lemma graph_hits_maps:
  "map rh_rank (graph_hits cs) = [1..<length cs + 1]" "map rh_entity (graph_hits cs) = map gc_entity cs"
  "map rh_score (graph_hits cs) = map gc_score cs" "length (graph_hits cs) = length cs"
proof -
  have "rh_rank \<circ> graph_hit = fst" "rh_entity \<circ> graph_hit = gc_entity \<circ> snd" "rh_score \<circ> graph_hit = gc_score \<circ> snd"
    by (auto simp add: graph_hit_def)
  then show "map rh_rank (graph_hits cs) = [1..<length cs + 1]" "map rh_entity (graph_hits cs) = map gc_entity cs"
    "map rh_score (graph_hits cs) = map gc_score cs"
    unfolding graph_hits_def list.map_comp by (simp_all add: flip: list.map_comp del: upt_Suc)
qed (simp add: graph_hits_def)

lemma graph_hits_member:
  "h \<in> set (graph_hits cs) \<Longrightarrow> \<exists>c\<in>set cs. rh_source h = Graph \<and> rh_chunk h = gc_chunk c \<and> rh_entity h = gc_entity c
     \<and> rh_score h = gc_score c \<and> rh_path h = gc_path c"
proof -
  assume "h \<in> set (graph_hits cs)"
  then obtain k c where "h = graph_hit (k, c)" "(k, c) \<in> set (enumerate 1 cs)" by (auto simp add: graph_hits_def)
  moreover from this(2) have "c \<in> set cs" by (metis enumerate_eq_zip set_zip_rightD)
  ultimately show ?thesis by (auto simp add: graph_hit_def)
qed

lemma expand_graph_hits:
  assumes "expand_graph db query_text f config candidates = Inr (hits, notes)" "hits \<noteq> []"
  obtains x cs where "best_ok (index_edge db f config) config (seed_items (take (rc_graph_seed_k config) candidates)) x"
    "\<forall>c\<in>set cs. chosen_from db f x c" "distinct (map gc_entity cs)" "length cs \<le> length (gx_best x)"
    "sorted (map (\<lambda>c. - gc_score c) cs)" "hits = graph_hits cs"
proof -
  define seeds where "seeds = take (rc_graph_seed_k config) candidates"
  define nb where "nb = (\<lambda>i. graph_neighbors db (rf_repo f) (rf_version f) [i] (map fst (rc_edge_weights config)) True)"
  obtain x chunks where x: "expand_loop config nb (start_expansion seeds) = Inr x"
    and chunks: "chunks_for_entities db (rf_repo f) (rf_version f) (sort (map fst (gx_best x))) = Inr chunks"
    and hits: "hits = graph_hits (sort_key (\<lambda>c. (- gc_score c, gc_entity c, gc_chunk c))
      (rights (map (choose_chunk (rc_profile config) query_text (hit_ranks seeds) chunks) (gx_best x))))"
    using assms by (auto simp add: expand_graph_def Let_def seeds_def nb_def graph_hits_def split: if_splits sum.splits)
  define g where "g = choose_chunk (rc_profile config) query_text (hit_ranks seeds) chunks"
  define cs where "cs = sort_key (\<lambda>c. (- gc_score c, gc_entity c, gc_chunk c)) (rights (map g (gx_best x)))"
  have best: "best_ok (index_edge db f config) config (seed_items seeds) x"
    using expand_loop_expanding [OF x] start_expanding graph_neighbors_usable unfolding nb_def by blast
  have r: "(\<forall>c\<in>set (rights (map g (gx_best x))). chosen_from db f x c) \<and> distinct (map gc_entity (rights (map g (gx_best x))))
    \<and> gc_entity ` set (rights (map g (gx_best x))) \<subseteq> fst ` set (gx_best x) \<and> length (rights (map g (gx_best x))) \<le> length (gx_best x)"
    using best by (intro rights_choices) (auto simp add: best_ok_def g_def intro: choose_chunk_from [OF _ _ chunks, THEN conjunct1] choose_chunk_from [OF _ _ chunks, THEN conjunct2])
  have mset: "mset cs = mset (rights (map g (gx_best x)))" by (simp add: cs_def)
  have "sorted (map (\<lambda>c. (- gc_score c, gc_entity c, gc_chunk c)) cs)" by (simp add: cs_def)
  then have "sorted (map (\<lambda>c. - gc_score c) cs)" by (auto simp add: sorted_map less_eq_prod_def elim!: sorted_wrt_mono_rel [rotated])
  moreover have "distinct (map gc_entity cs)" using r mset by (metis mset_eq_imp_distinct_iff mset_map)
  moreover have "\<forall>c\<in>set cs. chosen_from db f x c" using r by (simp add: cs_def)
  moreover have "length cs \<le> length (gx_best x)" using r by (simp add: cs_def)
  moreover have "hits = graph_hits cs" by (simp only: hits cs_def g_def)
  ultimately show ?thesis using that best unfolding seeds_def by blast
qed

text \<open>C31. Graph retrieval only returns what the graph supports.  Every hit of a successful expansion
  comes with a walk of one up to \<open>graph_max_hops\<close> edges of the index, in the repository and version
  of the query and of a weighted type, that starts in one of the seeds and ends in the entity of the hit: the
  edges of the hit's path; its score is the seed's normalised score times, for every edge, the type's
  weight, the edge's confidence and the decay of the hop; its chunk is a chunk of that entity.  The
  hits carry the ranks from one in the order of falling scores, no entity twice, and at most
  \<open>graph_max_candidates\<close> of them (one, if that is zero).\<close>

theorem graph_hits_are_walks:
  assumes "expand_graph db query_text f config candidates = Inr (hits, notes)"
  defines "seeds \<equiv> seed_items (take (rc_graph_seed_k config) candidates)"
  shows "(\<forall>h\<in>set hits. rh_source h = Graph
      \<and> (\<exists>seed\<in>set seeds. \<exists>es. walk (index_edge db f config) (gi_entity seed) es (rh_entity h) \<and> rh_path h = map ke_id es
           \<and> es \<noteq> [] \<and> length es \<le> rc_graph_max_hops config \<and> rh_score h = walk_score config (gi_score seed) 0 es)
      \<and> (\<exists>d\<in>set (ix_documents db). dd_chunk d = rh_chunk h \<and> dd_entity d = rh_entity h
           \<and> dd_repo d = rf_repo f \<and> dd_version d = rf_version f))
    \<and> map rh_rank hits = [1..<length hits + 1] \<and> sorted (map (\<lambda>h. - rh_score h) hits)
    \<and> distinct (map rh_entity hits) \<and> length hits \<le> max 1 (rc_graph_max_candidates config)"
proof (cases "hits = []")
  case False
  from expand_graph_hits [OF assms(1) False] obtain x cs where x: "best_ok (index_edge db f config) config seeds x"
    "\<forall>c\<in>set cs. chosen_from db f x c" "distinct (map gc_entity cs)" "length cs \<le> length (gx_best x)"
    "sorted (map (\<lambda>c. - gc_score c) cs)" "hits = graph_hits cs" unfolding seeds_def by blast
  have hit: "rh_source h = Graph
      \<and> (\<exists>seed\<in>set seeds. \<exists>es. walk (index_edge db f config) (gi_entity seed) es (rh_entity h) \<and> rh_path h = map ke_id es
           \<and> es \<noteq> [] \<and> length es \<le> rc_graph_max_hops config \<and> rh_score h = walk_score config (gi_score seed) 0 es)
      \<and> (\<exists>d\<in>set (ix_documents db). dd_chunk d = rh_chunk h \<and> dd_entity d = rh_entity h
           \<and> dd_repo d = rf_repo f \<and> dd_version d = rf_version f)" if h: "h \<in> set hits" for h
  proof -
    from h x(6) obtain c where c: "c \<in> set cs" "rh_source h = Graph" "rh_chunk h = gc_chunk c" "rh_entity h = gc_entity c"
      "rh_score h = gc_score c" "rh_path h = gc_path c" using graph_hits_member by blast
    then have from_best: "chosen_from db f x c" using x(2) by blast
    then obtain n where "1 \<le> n" "n \<le> rc_graph_max_hops config"
      "reached (index_edge db f config) config seeds n (gc_entity c) (gc_score c) (gc_path c)"
      using x(1) unfolding chosen_from_def best_ok_def by blast
    then show ?thesis using c from_best unfolding reached_def chosen_from_def by fastforce
  qed
  have "map (\<lambda>h. - rh_score h) hits = map (\<lambda>c. - gc_score c) cs"
    using arg_cong [OF graph_hits_maps(3) [of cs], of "map uminus"] by (simp add: x(6) comp_def)
  then show ?thesis using hit x graph_hits_maps [of cs] by (auto simp add: best_ok_def)
qed simp

definition demo_index :: index_db where
  "demo_index =
     (let d = \<lparr>dd_chunk = ''k'', dd_entity = ''b'', dd_repo = ''r'', dd_version = ''v'', dd_entity_kind = ''code'',
        dd_entity_type = None, dd_chunk_type = ''function'', dd_path = None, dd_name = None, dd_code_name = None, dd_start = None,
        dd_end = None, dd_page = None, dd_ordinal = 0, dd_text = [], dd_content_hash = ''h''\<rparr>;
          e = \<lparr>ke_id = ''e'', ke_repo = ''r'', ke_version = ''v'', ke_source = ''a'', ke_target = Some ''b'', ke_type = ''CALLS'',
        ke_confidence = 1, ke_resolution = ''exact'', ke_unresolved = None, ke_evidence = []\<rparr>
      in \<lparr>ix_active = [(''r'', Some ''v'')], ix_versions = [\<lparr>vr_repo = ''r'', vr_id = ''v'', vr_status = VActive\<rparr>],
        ix_documents = [d], ix_edges = [e], ix_evidence = []\<rparr>)"

definition demo_seed :: fused_candidate where
  "demo_seed = \<lparr>fc_chunk = ''s'', fc_entity = ''a'', fc_hits = [], fc_preliminary = Some 1, fc_final = None, fc_path = [],
     fc_contributions = []\<rparr>"

definition demo_graph_hit :: raw_hit where
  "demo_graph_hit = \<lparr>rh_source = Graph, rh_chunk = ''k'', rh_entity = ''b'', rh_score = 13 / 20, rh_rank = 1, rh_exact = 0,
     rh_path = [''e''], rh_text = None\<rparr>"

lemma demo_expansion:
  "expand_graph demo_index [] (plain_filter ''r'' ''v'') (profile_config_of CallChain False False) [demo_seed] = Inr ([demo_graph_hit], [])"
  by (simp add: expand_graph_def expand_loop.simps profile_config_of_def profile_values_def demo_index_def demo_seed_def
      plain_filter_def start_expansion_def seed_items_def seed_scale_def or_zero_def graph_neighbors_def resolve_version_def
      find_by_def touches_def Let_def edge_other_def edge_score_def lookup_or_def dict_set_def hit_ranks_def
      chunks_for_entities_def entity_chunks_def choose_chunk_def select_chunk_def contains_evidence_line_def contains_query_def
      find_terms.simps rights_def lefts_def sorted_notes_def graph_hit_def demo_graph_hit_def)

lemma graph_hits_are_walks_witness:
  "\<exists>es. es \<noteq> [] \<and> length es \<le> 2
     \<and> walk (index_edge demo_index (plain_filter ''r'' ''v'') (profile_config_of CallChain False False)) ''a'' es ''b''
     \<and> map ke_id es = [''e'']"
proof -
  have seeds: "seed_items (take (rc_graph_seed_k (profile_config_of CallChain False False)) [demo_seed])
      = [\<lparr>gi_entity = ''a'', gi_score = 1, gi_path = [], gi_hop = 0\<rparr>]"
    by (simp add: seed_items_def seed_scale_def or_zero_def demo_seed_def profile_config_of_def Let_def)
  have hops: "rc_graph_max_hops (profile_config_of CallChain False False) = 2"
    by (simp add: profile_config_of_def profile_values_def Let_def)
  show ?thesis using graph_hits_are_walks [OF demo_expansion] unfolding seeds hops by (auto simp add: demo_graph_hit_def)
qed

end
