(* ===== verification/Rt_Service_Props.thy ===== *)
theory Rt_Service_Props
  imports Rt_Service Rt_Fts_Props Rt_Graph_Props
begin

text \<open>
  What a search returns: candidates of the requested version that satisfy the request's filter,
  and what the first search of a version does to the sparse index of the later ones.
\<close>

section \<open>Fused candidates\<close>

lemma fuse_member:
  assumes "f \<in> set (fuse hits config preliminary)" "h \<in> set (fc_hits f)"
  shows "h \<in> set hits \<and> rh_chunk h = fc_chunk f"
proof -
  from assms(1) obtain c where "f = fuse_chunk config preliminary c (filter (\<lambda>h. rh_chunk h = c) hits)"
    unfolding fuse_def by (auto dest!: in_set_takeD)
  then show ?thesis using assms(2) by (auto simp add: fuse_chunk_def Let_def)
qed

lemma distinct_map_perm: "mset xs = mset ys \<Longrightarrow> distinct (map f xs) \<longleftrightarrow> distinct (map f ys)"
  by (metis mset_eq_imp_distinct_iff mset_map)

lemma fuse_distinct: "distinct (map fc_chunk (fuse hits config preliminary))"
proof -
  let ?g = "\<lambda>c. fuse_chunk config preliminary c (filter (\<lambda>h. rh_chunk h = c) hits)"
  let ?cs = "fromkeys (map rh_chunk hits)"
  have "map fc_chunk (map ?g ?cs) = ?cs" by (simp add: fuse_chunk_def Let_def comp_def)
  then have "distinct (map fc_chunk (map ?g ?cs))" by simp
  moreover have "mset (sort_key (fuse_key preliminary) (map ?g ?cs)) = mset (map ?g ?cs)" by (rule mset_sort)
  ultimately have "distinct (map fc_chunk (sort_key (fuse_key preliminary) (map ?g ?cs)))"
    using distinct_map_perm by blast
  then show ?thesis unfolding fuse_def by (simp flip: take_map)
qed

lemma fuse_reranker_shape:
  assumes "fuse_reranker cs config reranker = (final, warnings)"
  shows "sorted (map (\<lambda>n. - nc_final_score n) final) \<and> length final \<le> rc_final_top_k config
    \<and> (\<forall>n\<in>set final. nc_candidate n \<in> set cs)
    \<and> (distinct (map fc_chunk cs) \<longrightarrow> distinct (map (\<lambda>n. fc_chunk (nc_candidate n)) final))"
proof -
  define rrf where "rrf = normalize (fold (\<lambda>c. dict_set (fc_chunk c) (or_zero (fc_final c))) cs [])"
  define ns where "ns = map (rescore config rrf (reranker_values config reranker)) cs"
  have final: "final = take (rc_final_top_k config) (sort_key final_key ns)"
    using assms by (simp add: fuse_reranker_def Let_def rrf_def ns_def)
  have "sorted (map final_key (sort_key final_key ns))" by simp
  then have "sorted (map (\<lambda>n. - nc_final_score n) (sort_key final_key ns))"
    by (auto simp add: sorted_map final_key_def less_eq_prod_def elim!: sorted_wrt_mono_rel [rotated])
  then have "sorted (map (\<lambda>n. - nc_final_score n) final)"
    unfolding final take_map [symmetric] by (rule sorted_wrt_take)
  moreover have "nc_candidate n \<in> set cs" if "n \<in> set final" for n
    using that unfolding final by (auto dest!: in_set_takeD simp add: ns_def rescore_def Let_def)
  moreover have "distinct (map (\<lambda>n. fc_chunk (nc_candidate n)) final)" if "distinct (map fc_chunk cs)"
  proof -
    have "map (\<lambda>n. fc_chunk (nc_candidate n)) ns = map fc_chunk cs" by (simp add: ns_def rescore_def Let_def)
    then have "distinct (map (\<lambda>n. fc_chunk (nc_candidate n)) ns)" using that by (simp only:)
    then have "distinct (map (\<lambda>n. fc_chunk (nc_candidate n)) (sort_key final_key ns))"
      by (rule distinct_map_perm [THEN iffD2, rotated]) simp
    then show ?thesis unfolding final take_map [symmetric] by simp
  qed
  ultimately show ?thesis by (simp add: final)
qed

section \<open>Candidates\<close>

lemma public_candidate_Some:
  "public_candidate documents evidence n = Some c \<Longrightarrow> sc_document c \<in> set documents
     \<and> dd_chunk (sc_document c) = fc_chunk (nc_candidate n) \<and> rs_final (sc_score c) = nc_final_score n
     \<and> rs_sparse (sc_score c) = source_score Sparse (fc_hits (nc_candidate n))"
  by (auto simp add: public_candidate_def Let_def dest: find_by_SomeD)

lemma map_filter_candidates:
  fixes v :: "'n \<Rightarrow> rat"
  assumes "\<And>n c. g n = Some c \<Longrightarrow> key c = k n \<and> val c = v n"
  shows "(sorted (map (\<lambda>n. - v n) ns) \<longrightarrow> sorted (map (\<lambda>c. - val c) (List.map_filter g ns)))
    \<and> (distinct (map k ns) \<longrightarrow> distinct (map key (List.map_filter g ns)))
    \<and> length (List.map_filter g ns) \<le> length ns \<and> key ` set (List.map_filter g ns) \<subseteq> k ` set ns
    \<and> val ` set (List.map_filter g ns) \<subseteq> v ` set ns"
proof (induction ns)
  case (Cons n ns)
  show ?case
  proof (cases "g n")
    case None
    then show ?thesis using Cons.IH by (auto simp add: List.map_filter_simps)
  next
    case (Some c)
    then show ?thesis using Cons.IH assms [OF Some] by (auto simp add: List.map_filter_simps)
  qed
qed (simp add: List.map_filter_simps)

definition answered ::
    "index_db \<Rightarrow> search_env \<Rightarrow> string \<Rightarrow> search_request \<Rightarrow> document list \<Rightarrow> raw_hit list \<Rightarrow> raw_hit list \<Rightarrow> retrieval_result \<Rightarrow> bool" where
  "answered db env repo_id request documents sparse dense result \<longleftrightarrow>
     rr_filters result = internal_filters repo_id (rr_version result) request
     \<and> list_documents db (rr_filters result) = Inr documents
     \<and> (\<exists>rule. finish_search db request env (rr_filters result) (rr_config result) rule documents sparse dense = Inr result)"

lemma search_answered:
  assumes "search db env repo_id request execution fts = (Inr result, fts')"
  obtains documents sparse where "resolve_version db repo_id (sr_version request) = Inr (rr_version result)"
    "answered db env repo_id request documents (map (attach_text documents) sparse)
       (map (attach_text documents) (dense_hits env (rr_config result))) result"
    "rr_config result = fst (effective_config request env execution)"
    "(if rc_sparse_enabled (rr_config result) then ensure_sparse (rr_filters result) documents fts else (Inr (), fts)) = (Inr (), fts')"
    "sparse_hits env (rr_config result) (sr_text request) (rr_filters result) fts' = Inr sparse"
proof -
  obtain version where v: "resolve_version db repo_id (sr_version request) = Inr version"
    using assms by (auto simp add: search_def split: sum.splits)
  define f where "f = internal_filters repo_id version request"
  obtain config rule where c: "effective_config request env execution = (config, rule)" by fastforce
  obtain documents where d: "list_documents db f = Inr documents"
    using assms v c by (auto simp add: search_def f_def Let_def split: sum.splits)
  define ens where "ens = (if rc_sparse_enabled config then ensure_sparse f documents fts else (Inr (), fts))"
  obtain r fts1 where e: "ens = (r, fts1)" by fastforce
  have run: "search db env repo_id request execution fts =
    (case ens of (Inl e, fts') \<Rightarrow> (Inl e, fts') | (Inr _, fts') \<Rightarrow>
      (case sparse_hits env config (sr_text request) f fts' of Inl e \<Rightarrow> (Inl e, fts')
       | Inr sparse \<Rightarrow> (finish_search db request env f config rule documents (map (attach_text documents) sparse)
            (map (attach_text documents) (dense_hits env config)), fts')))"
    unfolding ens_def f_def using v c d [unfolded f_def] by (simp add: search_def Let_def)
  obtain sparse where s: "r = Inr ()" "fts1 = fts'" "sparse_hits env config (sr_text request) f fts' = Inr sparse"
    "finish_search db request env f config rule documents (map (attach_text documents) sparse)
            (map (attach_text documents) (dense_hits env config)) = Inr result"
    using assms unfolding run e by (auto split: sum.splits)
  have "rr_filters result = f \<and> rr_config result = config \<and> rr_version result = version"
    using s(4) by (auto simp add: finish_search_def Let_def f_def internal_filters_def split: sum.splits prod.splits)
  then have eqs: "rr_filters result = f" "rr_config result = config" "rr_version result = version" by simp_all
  have "answered db env repo_id request documents (map (attach_text documents) sparse)
       (map (attach_text documents) (dense_hits env (rr_config result))) result"
    unfolding answered_def eqs using d s(4) f_def by blast
  moreover have "(if rc_sparse_enabled config then ensure_sparse f documents fts else (Inr (), fts)) = (Inr (), fts')"
    using e s(1,2) by (simp add: ens_def)
  moreover have "config = fst (effective_config request env execution)" by (simp add: c)
  ultimately show ?thesis using that [of documents sparse, unfolded eqs] v s(3) unfolding eqs by blast
qed

lemma expand_graph_source:
  assumes "expand_graph db q f config cs = Inr (hits, notes)" "h \<in> set hits" shows "rh_source h = Graph"
proof -
  have "hits \<noteq> []" using assms(2) by auto
  from expand_graph_hits [OF assms(1) this] assms(2) show ?thesis using graph_hits_member by metis
qed

lemma attach_text_keeps [simp]:
  "rh_source (attach_text documents h) = rh_source h" "rh_chunk (attach_text documents h) = rh_chunk h"
  by (simp_all add: attach_text_def split: option.split)

lemma finish_searchE:
  assumes "finish_search db request env f config rule documents sparse dense = Inr result"
  obtains raw final ws evidence where "\<forall>h\<in>set raw. rh_source h = Graph"
    "fuse_reranker (final_rrf dense sparse (map (attach_text documents) raw) config) config (se_reranker env) = (final, ws)"
    "rr_candidates result = List.map_filter (public_candidate documents evidence) final" "rr_config result = config"
proof -
  obtain seeds where seeds: "preliminary_rrf dense sparse config = Inr seeds"
    using assms by (auto simp add: finish_search_def split: sum.splits)
  obtain raw gn where raw: "graph_hits_of db request f config seeds = Inr (raw, gn)"
    using assms seeds by (auto simp add: finish_search_def split: sum.splits)
  obtain final ws where final: "fuse_reranker (final_rrf dense sparse (map (attach_text documents) raw) config) config (se_reranker env) = (final, ws)"
    by fastforce
  have "\<forall>h\<in>set raw. rh_source h = Graph"
    using raw by (auto simp add: graph_hits_of_def split: if_splits intro: expand_graph_source)
  then show ?thesis using that [OF _ final] assms by (auto simp add: finish_search_def seeds raw final Let_def)
qed

lemma source_score_Some: "source_score src hits \<noteq> None \<Longrightarrow> \<exists>h\<in>set hits. rh_source h = src"
  by (auto simp add: source_score_def find_None_iff)

lemma answered_candidates:
  assumes "answered db env repo_id request documents sparse dense result" "\<forall>h\<in>set dense. rh_source h = Dense"
  shows "(\<forall>c\<in>set (rr_candidates result). sc_document c \<in> set documents
      \<and> (rs_sparse (sc_score c) \<noteq> None \<longrightarrow> dd_chunk (sc_document c) \<in> rh_chunk ` set sparse))
    \<and> sorted (map (\<lambda>c. - rs_final (sc_score c)) (rr_candidates result))
    \<and> distinct (map (\<lambda>c. dd_chunk (sc_document c)) (rr_candidates result))
    \<and> length (rr_candidates result) \<le> rc_final_top_k (rr_config result)"
proof -
  obtain rule where fin: "finish_search db request env (rr_filters result) (rr_config result) rule documents sparse dense = Inr result"
    using assms(1) by (auto simp add: answered_def)
  obtain raw final ws evidence where raw: "\<forall>h\<in>set raw. rh_source h = Graph"
    and final: "fuse_reranker (final_rrf dense sparse (map (attach_text documents) raw) (rr_config result)) (rr_config result) (se_reranker env) = (final, ws)"
    and cands: "rr_candidates result = List.map_filter (public_candidate documents evidence) final"
    using fin by (rule finish_searchE) (rule that)
  let ?fused = "final_rrf dense sparse (map (attach_text documents) raw) (rr_config result)"
  have shape: "sorted (map (\<lambda>n. - nc_final_score n) final)" "length final \<le> rc_final_top_k (rr_config result)"
    "\<forall>n\<in>set final. nc_candidate n \<in> set ?fused" "distinct (map (\<lambda>n. fc_chunk (nc_candidate n)) final)"
    using fuse_reranker_shape [OF final] fuse_distinct by (auto simp add: final_rrf_def)
  have member: "sc_document c \<in> set documents
      \<and> (rs_sparse (sc_score c) \<noteq> None \<longrightarrow> dd_chunk (sc_document c) \<in> rh_chunk ` set sparse)"
    if c: "c \<in> set (rr_candidates result)" for c
  proof -
    from c obtain n where n: "n \<in> set final" "public_candidate documents evidence n = Some c"
      unfolding cands by (auto simp add: List.map_filter_def)
    note pc = public_candidate_Some [OF n(2)]
    have "dd_chunk (sc_document c) \<in> rh_chunk ` set sparse" if "rs_sparse (sc_score c) \<noteq> None"
    proof -
      from that pc obtain h where h: "h \<in> set (fc_hits (nc_candidate n))" "rh_source h = Sparse"
        using source_score_Some by metis
      have "nc_candidate n \<in> set ?fused" using shape(3) n(1) by blast
      then have "h \<in> set (dense @ sparse @ map (attach_text documents) raw) \<and> rh_chunk h = fc_chunk (nc_candidate n)"
        unfolding final_rrf_def using h(1) by (rule fuse_member)
      then have "h \<in> set sparse \<and> rh_chunk h = fc_chunk (nc_candidate n)" using h(2) raw assms(2) by auto
      then show ?thesis using pc by force
    qed
    then show ?thesis using pc by blast
  qed
  have "(sorted (map (\<lambda>n. - nc_final_score n) final) \<longrightarrow> sorted (map (\<lambda>c. - rs_final (sc_score c)) (rr_candidates result)))
    \<and> (distinct (map (\<lambda>n. fc_chunk (nc_candidate n)) final) \<longrightarrow> distinct (map (\<lambda>c. dd_chunk (sc_document c)) (rr_candidates result)))
    \<and> length (rr_candidates result) \<le> length final"
    unfolding cands
    using map_filter_candidates [of "public_candidate documents evidence" "\<lambda>c. dd_chunk (sc_document c)"
      "\<lambda>n. fc_chunk (nc_candidate n)" "\<lambda>c. rs_final (sc_score c)" nc_final_score final] public_candidate_Some by blast
  then show ?thesis using shape member by auto
qed

lemma vector_retrieve_source: "h \<in> set (vector_retrieve src k hs) \<Longrightarrow> rh_source h = src"
proof -
  have "rh_source (vector_hit src x) = src" for x by (cases x) (simp add: vector_hit_def)
  then show "h \<in> set (vector_retrieve src k hs) \<Longrightarrow> rh_source h = src" by (auto simp add: vector_retrieve_def)
qed

lemma dense_hits_source: "h \<in> set (dense_hits env config) \<Longrightarrow> rh_source h = Dense"
  unfolding dense_hits_def
  by (cases "rc_dense_enabled config"; cases "dense_source env"; cases "the (dense_source env)")
    (auto dest: vector_retrieve_source)

lemma list_documents_matches: "list_documents db f = Inr ds \<Longrightarrow> d \<in> set ds \<Longrightarrow> d \<in> set (ix_documents db) \<and> matches_filter f d"
  by (auto simp add: list_documents_def Let_def split: sum.splits if_splits)

text \<open>C5. A successful search answers the request that was made: it is about the requested version, or the active one,
  every candidate is a document of the index in that repository and version that
  satisfies every filter of the request, no chunk occurs twice, the candidates come in the order
  of falling final scores and there are at most as many as the effective configuration allows -
  whatever the vector index, the full-text index and the reranker delivered.\<close>

theorem search_respects_request:
  assumes "search db env repo_id request execution fts = (Inr result, fts')"
  shows "resolve_version db repo_id (sr_version request) = Inr (rr_version result)
    \<and> rr_config result = fst (effective_config request env execution)
    \<and> (\<forall>c\<in>set (rr_candidates result). sc_document c \<in> set (ix_documents db)
         \<and> matches_filter (internal_filters repo_id (rr_version result) request) (sc_document c))
    \<and> sorted (map (\<lambda>c. - rs_final (sc_score c)) (rr_candidates result))
    \<and> distinct (map (\<lambda>c. dd_chunk (sc_document c)) (rr_candidates result))
    \<and> length (rr_candidates result) \<le> rc_final_top_k (rr_config result)"
proof -
  from search_answered [OF assms] obtain documents sparse where s:
    "resolve_version db repo_id (sr_version request) = Inr (rr_version result)"
    "answered db env repo_id request documents (map (attach_text documents) sparse)
       (map (attach_text documents) (dense_hits env (rr_config result))) result"
    "rr_config result = fst (effective_config request env execution)" by blast
  have "\<forall>h\<in>set (map (attach_text documents) (dense_hits env (rr_config result))). rh_source h = Dense"
    using dense_hits_source by auto
  from answered_candidates [OF s(2) this] s show ?thesis
    by (auto simp add: answered_def dest!: list_documents_matches)
qed

section \<open>The first search of a version\<close>

lemma find_append_None: "List.find P xs = None \<Longrightarrow> List.find P (xs @ ys) = List.find P ys"
  by (induction xs) (auto split: if_splits)

lemma ready_generation_fresh:
  assumes "\<forall>r\<in>set (ft_rows fts). fr_version r \<noteq> v \<and> fr_id r \<noteq> sync_generation rp v p docs"
    "fts_sync rp v p docs False fts = (Inr x, fts')"
  obtains r where "ready_generation rp v p fts' = Some r" "set (generation_documents (fr_id r) fts') = set docs"
proof -
  define g where "g = sync_generation rp v p docs"
  define row where "row = \<lparr>fr_id = g, fr_repo = rp, fr_version = v, fr_profile = p, fr_status = FBuilding, fr_count = 0,
    fr_content_hash = documents_hash docs, fr_error = None\<rparr>"
  define fts1 where "fts1 = delete_generation_documents g (fts\<lparr>ft_rows := ft_rows fts @ [row]\<rparr>)"
  have old: "fr_version r \<noteq> v \<and> fr_id r \<noteq> g" if "r \<in> set (ft_rows fts)" for r using that assms(1) by (simp add: g_def)
  then have "find_by fr_id g (ft_rows fts) = None" by (auto simp add: find_by_None_iff)
  then have "sync_begin rp v p docs fts = (False, fts1)"
    by (simp add: sync_begin_def Let_def g_def [symmetric] fts1_def row_def)
  then have w: "sync_write rp v p docs False fts1 = (Inr x, fts')" using assms(2) by (simp add: fts_sync_def)
  have rows1: "ft_rows fts1 = ft_rows fts @ [row]" by (simp add: fts1_def)
  have docs1: "generation_documents g fts1 = []" by (simp add: fts1_def)
  have fts': "fts' = \<lparr>ft_rows = activate rp v p g (length docs) (ft_rows fts1),
      ft_docs = ft_docs fts1 @ map (Pair g) (sort_key dd_chunk docs)\<rparr>"
    using w by (auto simp add: sync_write_def Let_def g_def [symmetric] split: if_splits)
  have "activate rp v p g (length docs) (ft_rows fts) = ft_rows fts"
    unfolding activate_def update_where_def by (induction "ft_rows fts") (auto simp add: in_scope_def map_idI old)
  then have act: "activate rp v p g (length docs) (ft_rows fts1) = ft_rows fts @ [row\<lparr>fr_status := FReady, fr_count := length docs, fr_error := None\<rparr>]"
    by (simp add: rows1) (simp add: activate_def update_where_def row_def in_scope_def)
  have "List.find (\<lambda>r. in_scope rp v p r \<and> fr_status r = FReady) (ft_rows fts) = None"
    using old by (auto simp add: find_None_iff in_scope_def)
  then have "ready_generation rp v p fts' = Some (row\<lparr>fr_status := FReady, fr_count := length docs, fr_error := None\<rparr>)"
    unfolding ready_generation_def fts' act by (simp add: find_append_None in_scope_def row_def)
  moreover have "set (generation_documents g fts') = set docs"
    using docs1 by (auto simp add: generation_documents_def fts')
  ultimately show ?thesis using that by (simp add: row_def)
qed

lemma fts_search_chunks:
  assumes "fts_search bm25 text f profile k fts = Inr hits" "ready_generation (rf_repo f) (rf_version f) profile fts = Some r"
    "h \<in> set hits"
  shows "rh_chunk h \<in> dd_chunk ` set (generation_documents (fr_id r) fts)"
proof -
  define ranked where "ranked = ranked_documents bm25 text f (map snd (ft_docs fts)) (generation_documents (fr_id r) fts)"
  have "h \<in> set (map (sparse_hit text) (enumerate 1 (take k ranked)))"
    using assms by (auto simp add: fts_search_def ranked_def split: if_splits)
  then obtain i score d where h: "h = sparse_hit text (i, score, d)" "(i, score, d) \<in> set (enumerate 1 (take k ranked))" by auto
  then have "(score, d) \<in> set ranked" by (metis enumerate_eq_zip in_set_takeD set_zip_rightD)
  then have "d \<in> set (generation_documents (fr_id r) fts)" by (auto simp add: ranked_def ranked_documents_def Let_def)
  then show ?thesis by (simp add: h sparse_hit_def)
qed

text \<open>The first search of a version decides what the later ones can find.  The sparse index of a
  version is built from the documents that pass the filter of the first search, and it is never
  built again: as long as no vector index delivers sparse hits, a later search of the version
  leaves the index as it is, and every candidate of it that has a sparse score satisfies the
  filter of the first search, whatever the later request asks for.\<close>

theorem first_filter_narrows_index:
  assumes first: "search db env repo_id request execution fts = (Inr result, fts')" "rc_sparse_enabled (rr_config result)"
      "\<forall>r\<in>set (ft_rows fts). fr_version r \<noteq> rr_version result"
      "\<forall>r\<in>set (ft_rows fts). \<forall>docs. fr_id r \<noteq> sync_generation repo_id (rr_version result) FTS_PROFILE_VERSION docs"
    and later: "search db env' repo_id request' execution' fts' = (Inr result', fts'')" "rr_version result' = rr_version result"
      "\<forall>v. se_vector env' = Some (Some v) \<longrightarrow> vi_sparse v = None"
    and key: "inj_on (\<lambda>d. (dd_version d, dd_chunk d)) (set (ix_documents db))"
  shows "fts'' = fts' \<and> (\<forall>c\<in>set (rr_candidates result'). rs_sparse (sc_score c) \<noteq> None
    \<longrightarrow> matches_filter (internal_filters repo_id (rr_version result) request) (sc_document c))"
proof -
  define f where "f = internal_filters repo_id (rr_version result) request"
  define f' where "f' = internal_filters repo_id (rr_version result') request'"
  have scope: "rf_repo f = repo_id" "rf_version f = rr_version result" "rf_repo f' = repo_id" "rf_version f' = rr_version result"
    by (simp_all add: f_def f'_def internal_filters_def later(2))
  from search_answered [OF first(1)] obtain ds where ds: "rr_filters result = f" "list_documents db f = Inr ds"
    "ensure_sparse f ds fts = (Inr (), fts')"
    using first(2) unfolding answered_def f_def by metis
  have "ready_generation repo_id (rr_version result) FTS_PROFILE_VERSION fts = None"
    using first(3) by (auto simp add: ready_generation_def find_None_iff in_scope_def)
  then obtain x where "fts_sync repo_id (rr_version result) FTS_PROFILE_VERSION ds False fts = (Inr x, fts')"
    using ds(3) by (auto simp add: ensure_sparse_def scope split: prod.splits sum.splits)
  moreover have "\<forall>r\<in>set (ft_rows fts). fr_version r \<noteq> rr_version result
      \<and> fr_id r \<noteq> sync_generation repo_id (rr_version result) FTS_PROFILE_VERSION ds"
    using first(3,4) by blast
  ultimately obtain r where r: "ready_generation repo_id (rr_version result) FTS_PROFILE_VERSION fts' = Some r"
    "set (generation_documents (fr_id r) fts') = set ds"
    by (metis ready_generation_fresh)
  from search_answered [OF later(1)] obtain ds' sparse where later':
    "answered db env' repo_id request' ds' (map (attach_text ds') sparse) (map (attach_text ds') (dense_hits env' (rr_config result'))) result'"
    "(if rc_sparse_enabled (rr_config result') then ensure_sparse (rr_filters result') ds' fts' else (Inr (), fts')) = (Inr (), fts'')"
    "sparse_hits env' (rr_config result') (sr_text request') (rr_filters result') fts'' = Inr sparse" by metis
  have filters: "rr_filters result' = f'" using later'(1) by (simp add: answered_def f'_def)
  have same: "fts'' = fts'"
    using later'(2) r(1) unfolding filters by (auto simp add: ensure_sparse_def scope split: if_splits)
  have chunks: "rh_chunk h \<in> dd_chunk ` set ds" if "h \<in> set sparse" for h
  proof -
    have "(if rc_sparse_enabled (rr_config result')
       then fts_search (se_bm25 env') (sr_text request') f' FTS_PROFILE_VERSION (rc_sparse_top_k (rr_config result')) fts'
       else Inr []) = Inr sparse"
      using later'(3) later(3) unfolding filters same sparse_hits_def by (auto split: sum.splits option.splits)
    then show ?thesis using fts_search_chunks [of _ _ f' _ _ fts' sparse r h] r that scope by (auto split: if_splits)
  qed
  have "\<forall>h\<in>set (map (attach_text ds') (dense_hits env' (rr_config result'))). rh_source h = Dense"
    using dense_hits_source by auto
  note cands = answered_candidates [OF later'(1) this, THEN conjunct1]
  have "matches_filter f (sc_document c)" if c: "c \<in> set (rr_candidates result')" "rs_sparse (sc_score c) \<noteq> None" for c
  proof -
    have "sc_document c \<in> set ds'" "dd_chunk (sc_document c) \<in> rh_chunk ` set sparse"
      using bspec [OF cands c(1)] c(2) by (auto simp add: image_image)
    then obtain d where d: "d \<in> set ds" "dd_chunk d = dd_chunk (sc_document c)" using chunks by force
    have l: "list_documents db f' = Inr ds'" using later'(1) unfolding answered_def filters by blast
    have "matches_filter f' (sc_document c)" "sc_document c \<in> set (ix_documents db)"
      using list_documents_matches [OF l \<open>sc_document c \<in> set ds'\<close>] by simp_all
    moreover have "matches_filter f d" "d \<in> set (ix_documents db)" using list_documents_matches [OF ds(2) d(1)] by simp_all
    ultimately have "d = sc_document c"
      using d(2) scope by (intro inj_onD [OF key]) (simp_all add: matches_filter_def)
    then show ?thesis using \<open>matches_filter f d\<close> by simp
  qed
  then show ?thesis using same by (simp add: f_def)
qed

section \<open>Two searches\<close>

definition demo_library :: index_db where
  "demo_library = \<lparr>ix_active = [(''r'', Some ''v'')], ix_versions = [\<lparr>vr_repo = ''r'', vr_id = ''v'', vr_status = VActive\<rparr>],
     ix_documents = [demo_document ''k'', demo_document ''m''], ix_edges = [], ix_evidence = []\<rparr>"

definition demo_filter :: "string list \<Rightarrow> retrieval_filter" where
  "demo_filter paths = (plain_filter ''r'' ''v'')\<lparr>rf_paths := paths\<rparr>"

definition demo_search :: "string list \<Rightarrow> search_request" where
  "demo_search paths = \<lparr>sr_text = ''m'', sr_version = None, sr_query_type = Some SymbolLookup,
     sr_filters = demo_filter paths, sr_top_k = None, sr_include_graph = Some False, sr_include_reranker = None\<rparr>"

definition demo_search_env :: search_env where
  "demo_search_env = \<lparr>se_bm25 = \<lambda>e corpus d. Some (- 1), se_dense = None, se_vector = None, se_reranker = None\<rparr>"

definition demo_config :: retrieval_config where
  "demo_config = (profile_config_of SymbolLookup False False)\<lparr>rc_graph_enabled := False\<rparr>"

definition demo_generation :: string where
  "demo_generation = sync_generation ''r'' ''v'' FTS_PROFILE_VERSION [demo_document ''k'']"

definition demo_sparse :: fts_db where
  "demo_sparse = \<lparr>ft_rows = [\<lparr>fr_id = demo_generation, fr_repo = ''r'', fr_version = ''v'', fr_profile = FTS_PROFILE_VERSION,
     fr_status = FReady, fr_count = 1, fr_content_hash = documents_hash [demo_document ''k''], fr_error = None\<rparr>],
     ft_docs = [(demo_generation, demo_document ''k'')]\<rparr>"

definition demo_sparse_hit :: raw_hit where
  "demo_sparse_hit = \<lparr>rh_source = Sparse, rh_chunk = ''k'', rh_entity = ''ek'', rh_score = 1, rh_rank = 1, rh_exact = 0, rh_path = [],
     rh_text = None\<rparr>"

lemma demo_effective: "effective_config (demo_search paths) demo_search_env None = (demo_config, ''explicit'')"
  by (simp add: effective_config_def demo_search_def demo_search_env_def classify_def apply_execution_overrides_def
      apply_request_overrides_def demo_config_def Let_def profile_config_of_def)

lemma demo_resolve: "resolve_version demo_library ''r'' None = Inr ''v''" "resolve_version demo_library ''r'' (Some ''v'') = Inr ''v''"
  by (simp_all add: resolve_version_def demo_library_def)

lemma demo_internal: "internal_filters ''r'' ''v'' (demo_search paths) = demo_filter paths"
  by (simp add: internal_filters_def demo_search_def demo_filter_def plain_filter_def)

lemma demo_documents:
  "list_documents demo_library (demo_filter [''k.py'']) = Inr [demo_document ''k'']"
  "list_documents demo_library (demo_filter []) = Inr [demo_document ''k'', demo_document ''m'']"
  by (simp_all add: list_documents_def demo_resolve demo_filter_def plain_filter_def)
    (simp_all add: demo_library_def matches_filter_def allowed_by_def demo_document_def Let_def)

lemma demo_ensure: "ensure_sparse (demo_filter [''k.py'']) [demo_document ''k''] empty_fts = (Inr (), demo_sparse)"
  by (simp add: ensure_sparse_def ready_generation_def empty_fts_def fts_sync_def sync_begin_def sync_write_def Let_def
      demo_filter_def plain_filter_def demo_generation_def [symmetric] delete_generation_documents_def generation_documents_def
      activate_def update_where_def ready_unique_def in_scope_def demo_sparse_def)

lemma demo_sparse_ready: "ready_generation ''r'' ''v'' FTS_PROFILE_VERSION demo_sparse \<noteq> None"
  by (simp add: demo_sparse_def ready_generation_def in_scope_def)

lemma demo_hits:
  "sparse_hits demo_search_env demo_config ''m'' (demo_filter []) demo_sparse = Inr [demo_sparse_hit]"
  "sparse_hits demo_search_env demo_config ''m'' (demo_filter [''k.py'']) demo_sparse = Inr [demo_sparse_hit]"
  by (simp_all add: sparse_hits_def demo_search_env_def demo_config_def profile_config_of_def profile_values_def Let_def fts_search_def
      demo_sparse_def ready_generation_def in_scope_def demo_filter_def plain_filter_def generation_documents_def match_expression_def
      symbol_text_def symbol_separator_def ident_char_def ident_start_def ranked_documents_def fts_filter_def allowed_by_def sparse_hit_def
      exact_boost_def strip_def is_space_def fold_case_def contains_text_def demo_document_def demo_sparse_hit_def is_lower_def)

definition demo_result :: "string list \<Rightarrow> document list \<Rightarrow> exn + retrieval_result" where
  "demo_result paths ds = finish_search demo_library (demo_search paths) demo_search_env (demo_filter paths) demo_config ''explicit''
     ds (map (attach_text ds) [demo_sparse_hit]) []"

lemma demo_config_fields [simp]:
  "rc_fusion_top_k demo_config = 40" "rc_final_top_k demo_config = 10" "\<not> rc_graph_enabled demo_config"
  "\<not> rc_reranker_enabled demo_config" "rc_sparse_enabled demo_config" "\<not> rc_dense_enabled demo_config"
  by (simp_all add: demo_config_def profile_config_of_def Let_def)

lemma fuse_single: "1 \<le> rc_fusion_top_k config \<Longrightarrow> fuse [h] config b = [fuse_chunk config b (rh_chunk h) [h]]"
  by (simp add: fuse_def take_Cons')

lemma fuse_reranker_single:
  "1 \<le> rc_final_top_k config \<Longrightarrow> \<exists>n ws. fuse_reranker [c] config reranker = ([n], ws) \<and> nc_candidate n = c"
  by (simp add: fuse_reranker_def Let_def take_Cons' rescore_def)

lemma demo_finish:
  "\<exists>result. demo_result paths (demo_document ''k'' # ds) = Inr result \<and> rr_config result = demo_config \<and> rr_version result = ''v''
     \<and> length (rr_candidates result) = 1"
proof -
  define h where "h = attach_text (demo_document ''k'' # ds) demo_sparse_hit"
  have h: "rh_chunk h = ''k''" "rh_source h = Sparse" by (simp_all add: h_def demo_sparse_hit_def)
  obtain n ws where n: "fuse_reranker (final_rrf [] [h] [] demo_config) demo_config None = ([n], ws)"
    "fc_chunk (nc_candidate n) = ''k''"
    using fuse_reranker_single [of demo_config "fuse_chunk demo_config False ''k'' [h]" None]
    by (auto simp add: final_rrf_def fuse_single h fuse_chunk_def Let_def)
  have c: "\<exists>c. public_candidate (demo_document ''k'' # ds) ev n = Some c" for ev
    using n(2) by (simp add: public_candidate_def Let_def demo_document_def)
  have "preliminary_rrf [] [h] demo_config = Inr (fuse [h] demo_config True)" by (simp add: preliminary_rrf_def h)
  moreover have "rf_version (demo_filter paths) = ''v''" by (simp add: demo_filter_def plain_filter_def)
  moreover obtain ev where "ev = evidence_for_entities demo_library ''v'' [fc_entity (nc_candidate n)]" by blast
  moreover from c [of ev] obtain sc where "public_candidate (demo_document ''k'' # ds) ev n = Some sc" ..
  ultimately show ?thesis
    by (simp add: demo_result_def finish_search_def h_def [symmetric] graph_hits_of_def n Let_def demo_search_env_def
        List.map_filter_simps)
qed

lemma demo_searches:
  assumes "paths = [''k.py''] \<and> fts = empty_fts \<or> paths = [] \<and> fts = demo_sparse"
  shows "\<exists>result. search demo_library demo_search_env ''r'' (demo_search paths) None fts = (Inr result, demo_sparse)
    \<and> rr_config result = demo_config \<and> rr_version result = ''v'' \<and> length (rr_candidates result) = 1"
proof -
  obtain ds where ds: "list_documents demo_library (demo_filter paths) = Inr (demo_document ''k'' # ds)"
    "ensure_sparse (demo_filter paths) (demo_document ''k'' # ds) fts = (Inr (), demo_sparse)"
    using assms demo_documents demo_ensure demo_sparse_ready by (auto simp add: ensure_sparse_def demo_filter_def plain_filter_def)
  have "sparse_hits demo_search_env demo_config ''m'' (demo_filter paths) demo_sparse = Inr [demo_sparse_hit]"
    using assms demo_hits by auto
  moreover have "sr_version (demo_search paths) = None" "sr_text (demo_search paths) = ''m''" by (simp_all add: demo_search_def)
  ultimately have "search demo_library demo_search_env ''r'' (demo_search paths) None fts
      = (demo_result paths (demo_document ''k'' # ds), demo_sparse)"
    by (simp add: search_def demo_resolve demo_effective demo_internal ds demo_result_def dense_hits_def)
  then show ?thesis using demo_finish by auto
qed

lemma search_respects_request_witness:
  "\<exists>result :: retrieval_result. rr_candidates result \<noteq> [] \<and> (\<forall>c\<in>set (rr_candidates result). matches_filter (demo_filter [''k.py'']) (sc_document c))"
proof -
  obtain result where r: "search demo_library demo_search_env ''r'' (demo_search [''k.py'']) None empty_fts = (Inr result, demo_sparse)"
    "rr_version result = ''v''" "length (rr_candidates result) = 1" using demo_searches [of "[''k.py'']" empty_fts] by blast
  have "matches_filter (demo_filter [''k.py'']) (sc_document c)" if "c \<in> set (rr_candidates result)" for c
    using search_respects_request [OF r(1)] that by (simp add: r(2) demo_internal)
  moreover have "rr_candidates result \<noteq> []" using r(3) by auto
  ultimately show ?thesis by (auto intro!: exI [of _ result])
qed

lemma demo_filter_path: "matches_filter (demo_filter [''k.py'']) d \<Longrightarrow> dd_path d = Some ''k.py''"
  by (cases "dd_path d") (auto simp add: matches_filter_def allowed_by_def demo_filter_def plain_filter_def)

lemma first_filter_narrows_index_witness:
  "\<exists>result. search demo_library demo_search_env ''r'' (demo_search []) None demo_sparse = (Inr result, demo_sparse)
    \<and> rr_candidates result \<noteq> [] \<and> (\<forall>c\<in>set (rr_candidates result). rs_sparse (sc_score c) \<noteq> None
       \<longrightarrow> dd_path (sc_document c) = Some ''k.py'')"
proof -
  obtain result where r: "search demo_library demo_search_env ''r'' (demo_search [''k.py'']) None empty_fts = (Inr result, demo_sparse)"
    "rr_config result = demo_config" "rr_version result = ''v''" using demo_searches [of "[''k.py'']" empty_fts] by blast
  obtain result' where r': "search demo_library demo_search_env ''r'' (demo_search []) None demo_sparse = (Inr result', demo_sparse)"
    "rr_version result' = ''v''" "length (rr_candidates result') = 1" using demo_searches [of "[]" demo_sparse] by blast
  have "matches_filter (demo_filter [''k.py'']) (sc_document c)" if "c \<in> set (rr_candidates result')" "rs_sparse (sc_score c) \<noteq> None" for c
    using first_filter_narrows_index [OF r(1) _ _ _ r'(1)] that
    by (auto simp add: r r' demo_internal empty_fts_def demo_search_env_def demo_config_def profile_config_of_def Let_def demo_library_def
        inj_on_def demo_document_def)
  then have "dd_path (sc_document c) = Some ''k.py''" if "c \<in> set (rr_candidates result')" "rs_sparse (sc_score c) \<noteq> None" for c
    using that demo_filter_path by blast
  moreover have "rr_candidates result' \<noteq> []" using r'(3) by auto
  ultimately show ?thesis using r'(1) by blast
qed

end
