(* ===== verification/Ix_Store.thy ===== *)
theory Ix_Store
  imports Rt_Index
begin

text \<open>
  The store of the structured index (\<open>persistence/index_store.py\<close>, with the constraints of
  \<open>migrations/001_structured_index.sql\<close>): versions are built under a lease, made ready, activated and
  superseded.  Times are numbers; the owner of a lease and the clock are arguments.  SQLite's busy
  retries are left out.
\<close>

section \<open>Artifacts\<close>

text \<open>\<open>domain/entities.py\<close>, \<open>domain/evidence.py\<close> and \<open>domain/index_manifest.py\<close>.\<close>

record code_entity =
  ce_id :: string
  ce_repo :: string
  ce_type :: string
  ce_path :: string
  ce_name :: string
  ce_qualified_name :: string
  ce_parent :: "string option"
  ce_start :: "int option"
  ce_end :: "int option"
  ce_content_hash :: string
  ce_evidence :: "string list"

record paper_entity =
  pe_id :: string
  pe_paper :: string
  pe_type :: string
  pe_title :: "string option"
  pe_text :: string
  pe_page :: "int option"
  pe_content_hash :: string
  pe_evidence :: "string list"

record evidence_ref =
  er_id :: string
  er_source_type :: string
  er_entity :: "string option"
  er_path :: "string option"
  er_start :: "int option"
  er_end :: "int option"
  er_paper :: "string option"
  er_page :: "int option"
  er_figure :: "string option"
  er_bbox :: "(rat \<times> rat \<times> rat \<times> rat) option"

record symbol_chunk =
  sy_id :: string
  sy_repo :: string
  sy_entity :: string
  sy_entity_kind :: string
  sy_chunk_type :: string
  sy_path :: "string option"
  sy_page :: "int option"
  sy_start :: "int option"
  sy_end :: "int option"
  sy_ordinal :: int
  sy_text :: string
  sy_content_hash :: string

record index_artifacts =
  ia_files :: "string list"
  ia_code :: "code_entity list"
  ia_paper :: "paper_entity list"
  ia_edges :: "edge list"
  ia_evidence :: "evidence_ref list"
  ia_chunks :: "symbol_chunk list"

definition no_artifacts :: index_artifacts where
  "no_artifacts = \<lparr>ia_files = [], ia_code = [], ia_paper = [], ia_edges = [], ia_evidence = [], ia_chunks = []\<rparr>"

definition entity_ids :: "index_artifacts \<Rightarrow> string set" where
  "entity_ids a = ce_id ` set (ia_code a) \<union> pe_id ` set (ia_paper a)"

definition evidence_ids :: "index_artifacts \<Rightarrow> string set" where
  "evidence_ids a = er_id ` set (ia_evidence a)"

text \<open>A reference that Python takes for absent is \<open>None\<close> or empty.\<close>

definition known_or_absent :: "string set \<Rightarrow> string option \<Rightarrow> bool" where
  "known_or_absent ids v = (case v of None \<Rightarrow> True | Some i \<Rightarrow> i = [] \<or> i \<in> ids)"

definition artifacts_valid :: "index_artifacts \<Rightarrow> bool" where
  "artifacts_valid a = (let ids = entity_ids a; evs = evidence_ids a in
     list_all (\<lambda>e. known_or_absent ids (ce_parent e) \<and> set (ce_evidence e) \<subseteq> evs) (ia_code a)
     \<and> list_all (\<lambda>e. set (pe_evidence e) \<subseteq> evs) (ia_paper a)
     \<and> list_all (\<lambda>e. ke_source e \<in> ids \<and> known_or_absent ids (ke_target e) \<and> set (ke_evidence e) \<subseteq> evs) (ia_edges a)
     \<and> list_all (\<lambda>c. sy_entity c \<in> ids) (ia_chunks a)
     \<and> list_all (\<lambda>r. known_or_absent ids (er_entity r)) (ia_evidence a))"

text \<open>The primary keys of the six tables.\<close>

definition artifacts_keyed :: "index_artifacts \<Rightarrow> bool" where
  "artifacts_keyed a \<longleftrightarrow> distinct (ia_files a) \<and> distinct (map ce_id (ia_code a)) \<and> distinct (map pe_id (ia_paper a))
     \<and> distinct (map ke_id (ia_edges a)) \<and> distinct (map er_id (ia_evidence a)) \<and> distinct (map sy_id (ia_chunks a))"

section \<open>Tables\<close>

record repository_row =
  rp_id :: string
  rp_explicit :: bool
  rp_key :: "string option"
  rp_name :: string
  rp_active :: "string option"

datatype index_status = IxBuilding | IxReady | IxActive | IxSuperseded | IxFailed

record index_version =
  iv_id :: string
  iv_repo :: string
  iv_sequence :: nat
  iv_input :: string
  iv_state :: index_status
  iv_retries :: nat
  iv_owner :: "string option"
  iv_expires :: "nat option"
  iv_error_code :: "string option"
  iv_activated :: "nat option"

text \<open>The artifact tables are kept per version.\<close>

record index_store =
  is_repositories :: "repository_row list"
  is_versions :: "index_version list"
  is_artifacts :: "(string \<times> index_artifacts) list"

record index_config =
  ic_max_retries :: nat
  ic_lease_seconds :: nat

record version_lease =
  vl_id :: string
  vl_sequence :: nat
  vl_owner :: "string option"
  vl_reused :: bool
  vl_activated :: "nat option"

definition index_busy :: "exn + 'a" where
  "index_busy = Inl (PlainError None ''IndexBusyError'')"

definition runtime_error :: "exn + 'a" where
  "runtime_error = Inl (PlainError None ''RuntimeError'')"

definition in_build :: "index_version \<Rightarrow> bool" where
  "in_build r \<longleftrightarrow> iv_state r \<in> {IxBuilding, IxReady}"

definition lease_expired :: "nat \<Rightarrow> index_version \<Rightarrow> bool" where
  "lease_expired now r = (case iv_expires r of None \<Rightarrow> True | Some t \<Rightarrow> t \<le> now)"

definition artifacts_of :: "string \<Rightarrow> index_store \<Rightarrow> index_artifacts" where
  "artifacts_of v db = (case map_of (is_artifacts db) v of None \<Rightarrow> no_artifacts | Some a \<Rightarrow> a)"

section \<open>Beginning a version\<close>

definition index_version_id :: "string \<Rightarrow> nat \<Rightarrow> string \<Rightarrow> string" where
  "index_version_id repo_id seq input = ''idx_'' @ stable_hash (join_with [CHR 0x00] [repo_id, show_nat seq, input])"

definition upsert_repository ::
    "string \<Rightarrow> bool \<Rightarrow> string option \<Rightarrow> string \<Rightarrow> index_store \<Rightarrow> exn + index_store" where
  "upsert_repository repo_id explicit_mode key name db =
     (if explicit_mode \<longleftrightarrow> key = None then Inl IntegrityError
      else if explicit_mode \<and> list_ex (\<lambda>r. rp_id r \<noteq> repo_id \<and> rp_explicit r \<and> rp_key r = key) (is_repositories db) then Inl IntegrityError
      else Inr (db\<lparr>is_repositories :=
        (if find_by rp_id repo_id (is_repositories db) = None
         then is_repositories db @ [\<lparr>rp_id = repo_id, rp_explicit = explicit_mode, rp_key = key, rp_name = name, rp_active = None\<rparr>]
         else update_by rp_id repo_id (\<lambda>r. r\<lparr>rp_name := name\<rparr>) (is_repositories db))\<rparr>))"

definition resume_or_reuse ::
    "index_config \<Rightarrow> index_version \<Rightarrow> string \<Rightarrow> string \<Rightarrow> nat \<Rightarrow> index_store \<Rightarrow> exn + version_lease \<times> index_store" where
  "resume_or_reuse config row repo_id owner now db =
     (if iv_state row = IxActive then Inr (\<lparr>vl_id = iv_id row, vl_sequence = iv_sequence row, vl_owner = None, vl_reused = True,
        vl_activated = iv_activated row\<rparr>, db)
      else if iv_state row = IxSuperseded then runtime_error
      else if in_build row \<and> \<not> lease_expired now row then index_busy
      else if ic_max_retries config \<le> iv_retries row then runtime_error
      else if list_ex (\<lambda>r. iv_repo r = repo_id \<and> in_build r \<and> iv_id r \<noteq> iv_id row) (is_versions db) then index_busy
      else Inr (\<lparr>vl_id = iv_id row, vl_sequence = iv_sequence row, vl_owner = Some owner, vl_reused = False, vl_activated = None\<rparr>,
        db\<lparr>is_versions := update_by iv_id (iv_id row) (\<lambda>r. r\<lparr>iv_state := IxBuilding, iv_retries := iv_retries r + 1,
          iv_owner := Some owner, iv_expires := Some (now + ic_lease_seconds config), iv_error_code := None\<rparr>) (is_versions db)\<rparr>))"

definition next_sequence :: "string \<Rightarrow> index_store \<Rightarrow> nat" where
  "next_sequence repo_id db = Max (set (0 # map iv_sequence (filter (\<lambda>r. iv_repo r = repo_id) (is_versions db)))) + 1"

definition insert_version ::
    "index_config \<Rightarrow> string \<Rightarrow> string \<Rightarrow> string \<Rightarrow> nat \<Rightarrow> index_store \<Rightarrow> exn + version_lease \<times> index_store" where
  "insert_version config repo_id input owner now db =
     (let s = next_sequence repo_id db; v = index_version_id repo_id s input;
          row = \<lparr>iv_id = v, iv_repo = repo_id, iv_sequence = s, iv_input = input, iv_state = IxBuilding, iv_retries = 0,
            iv_owner = Some owner, iv_expires = Some (now + ic_lease_seconds config), iv_error_code = None, iv_activated = None\<rparr>
      in case insert_by iv_id row (is_versions db) of
           None \<Rightarrow> Inl IntegrityError
         | Some rows \<Rightarrow> Inr (\<lparr>vl_id = v, vl_sequence = s, vl_owner = Some owner, vl_reused = False, vl_activated = None\<rparr>,
             db\<lparr>is_versions := rows\<rparr>))"

text \<open>The transaction of \<open>begin_version\<close>; an exception leaves the store as it was.\<close>

definition begin_version ::
    "index_config \<Rightarrow> string \<Rightarrow> bool \<Rightarrow> string option \<Rightarrow> string \<Rightarrow> string \<Rightarrow> string \<Rightarrow> nat \<Rightarrow> index_store
     \<Rightarrow> (index_store, version_lease) outcome" where
  "begin_version config repo_id explicit_mode key name input owner now db =
     (case (case upsert_repository repo_id explicit_mode key name db of
         Inl e \<Rightarrow> Inl e
       | Inr db1 \<Rightarrow>
           (case List.find (\<lambda>r. iv_repo r = repo_id \<and> iv_input r = input) (is_versions db1) of
              Some row \<Rightarrow> resume_or_reuse config row repo_id owner now db1
            | None \<Rightarrow>
                (case List.find (\<lambda>r. iv_repo r = repo_id \<and> in_build r) (is_versions db1) of
                   None \<Rightarrow> insert_version config repo_id input owner now db1
                 | Some b \<Rightarrow>
                     if \<not> lease_expired now b then index_busy
                     else insert_version config repo_id input owner now
                       (db1\<lparr>is_versions := update_by iv_id (iv_id b) (\<lambda>r. r\<lparr>iv_state := IxFailed, iv_error_code := Some ''stale_lease'',
                          iv_owner := None, iv_expires := None\<rparr>) (is_versions db1)\<rparr>))))
      of Inl e \<Rightarrow> (Inl e, db) | Inr (lease, db') \<Rightarrow> (Inr lease, db'))"

text \<open>
  Waiting for a build of the same input: \<open>dbs\<close> are the stores that the polls find before the
  deadline.  The answer is a lease, or the store in which the transaction runs again, or the error.
\<close>

datatype wait_result = WaitBusy | WaitReuse version_lease | WaitRetry index_store

fun await_same_input :: "string \<Rightarrow> string \<Rightarrow> index_store list \<Rightarrow> wait_result" where
  "await_same_input repo_id input [] = WaitBusy"
| "await_same_input repo_id input (db # dbs) =
     (case List.find (\<lambda>r. iv_repo r = repo_id \<and> iv_input r = input) (is_versions db) of
        None \<Rightarrow> WaitBusy
      | Some r \<Rightarrow>
          if iv_state r = IxActive then WaitReuse \<lparr>vl_id = iv_id r, vl_sequence = iv_sequence r, vl_owner = None, vl_reused = True,
            vl_activated = iv_activated r\<rparr>
          else if iv_state r \<in> {IxFailed, IxSuperseded} then WaitRetry db
          else await_same_input repo_id input dbs)"

section \<open>Finishing a version\<close>

definition mark_ready :: "index_config \<Rightarrow> version_lease \<Rightarrow> nat \<Rightarrow> index_store \<Rightarrow> (index_store, unit) outcome" where
  "mark_ready config lease now db =
     (let hit = (\<lambda>r. iv_id r = vl_id lease \<and> iv_state r = IxBuilding \<and> iv_owner r = vl_owner lease \<and> iv_owner r \<noteq> None) in
      if vl_reused lease then (Inr (), db)
      else if list_ex hit (is_versions db)
      then (Inr (), db\<lparr>is_versions := update_where hit (\<lambda>r. r\<lparr>iv_state := IxReady,
        iv_expires := Some (now + ic_lease_seconds config)\<rparr>) (is_versions db)\<rparr>)
      else (index_busy, db))"

definition supersede_active :: "string \<Rightarrow> index_version list \<Rightarrow> index_version list" where
  "supersede_active repo_id = update_where (\<lambda>r. iv_repo r = repo_id \<and> iv_state r = IxActive) (\<lambda>r. r\<lparr>iv_state := IxSuperseded\<rparr>)"

definition point_to :: "string \<Rightarrow> string \<Rightarrow> repository_row list \<Rightarrow> repository_row list" where
  "point_to repo_id v = update_by rp_id repo_id (\<lambda>r. r\<lparr>rp_active := Some v\<rparr>)"

definition activate_version ::
    "version_lease \<Rightarrow> index_artifacts \<Rightarrow> nat \<Rightarrow> index_store \<Rightarrow> (index_store, nat) outcome" where
  "activate_version lease artifacts now db =
     (if vl_reused lease then (Inr (case vl_activated lease of None \<Rightarrow> now | Some t \<Rightarrow> t), db)
      else if \<not> artifacts_valid artifacts then (Inl (ValueError []), db)
      else case find_by iv_id (vl_id lease) (is_versions db) of
          None \<Rightarrow> (index_busy, db)
        | Some row \<Rightarrow>
            if iv_state row \<noteq> IxReady \<or> iv_owner row \<noteq> vl_owner lease then (index_busy, db)
            else if \<not> artifacts_keyed artifacts then (Inl IntegrityError, db)
            else (Inr now,
              \<lparr>is_repositories = point_to (iv_repo row) (vl_id lease) (is_repositories db),
               is_versions = update_by iv_id (vl_id lease) (\<lambda>r. r\<lparr>iv_state := IxActive, iv_activated := Some now, iv_owner := None,
                 iv_expires := None, iv_error_code := None\<rparr>) (supersede_active (iv_repo row) (is_versions db)),
               is_artifacts = dict_set (vl_id lease) artifacts (is_artifacts db)\<rparr>))"

definition mark_failed :: "version_lease \<Rightarrow> string \<Rightarrow> index_store \<Rightarrow> index_store" where
  "mark_failed lease code db =
     (if vl_reused lease then db
      else db\<lparr>is_versions := update_where (\<lambda>r. iv_id r = vl_id lease \<and> in_build r)
        (\<lambda>r. r\<lparr>iv_state := IxFailed, iv_error_code := Some code, iv_owner := None, iv_expires := None\<rparr>) (is_versions db)\<rparr>)"

definition rollback_to_version :: "string \<Rightarrow> string \<Rightarrow> nat \<Rightarrow> index_store \<Rightarrow> (index_store, unit) outcome" where
  "rollback_to_version repo_id v now db =
     (case List.find (\<lambda>r. iv_repo r = repo_id \<and> iv_id r = v) (is_versions db) of
        None \<Rightarrow> (Inl (ValueError []), db)
      | Some r \<Rightarrow>
          if iv_state r \<notin> {IxActive, IxSuperseded} then (Inl (ValueError []), db)
          else (Inr (), db\<lparr>is_versions := update_by iv_id v (\<lambda>r. r\<lparr>iv_state := IxActive, iv_activated := Some now\<rparr>)
                   (supersede_active repo_id (is_versions db)),
                 is_repositories := point_to repo_id v (is_repositories db)\<rparr>))"

text \<open>
  \<open>build_structured_index\<close> of \<open>indexing/index_service.py\<close>: \<open>extracted\<close> is what reading the repository
  and the paper gives.  An exception of the build marks the version as failed and is raised again.
\<close>

definition build_index ::
    "index_config \<Rightarrow> string \<Rightarrow> bool \<Rightarrow> string option \<Rightarrow> string \<Rightarrow> string \<Rightarrow> string \<Rightarrow> exn + index_artifacts
     \<Rightarrow> nat \<Rightarrow> nat \<Rightarrow> nat \<Rightarrow> index_store \<Rightarrow> (index_store, version_lease \<times> nat option) outcome" where
  "build_index config repo_id explicit_mode key name input owner extracted t1 t2 t3 db =
     (case begin_version config repo_id explicit_mode key name input owner t1 db of
        (Inl e, db1) \<Rightarrow> (Inl e, db1)
      | (Inr lease, db1) \<Rightarrow>
          if vl_reused lease then (Inr (lease, vl_activated lease), db1)
          else let failed = mark_failed lease ''structured_index_build_failed'' in
            (case extracted of
               Inl e \<Rightarrow> (Inl e, failed db1)
             | Inr artifacts \<Rightarrow>
                 (case mark_ready config lease t2 db1 of
                    (Inl e, db2) \<Rightarrow> (Inl e, failed db2)
                  | (Inr _, db2) \<Rightarrow>
                      (case activate_version lease artifacts t3 db2 of
                         (Inl e, db3) \<Rightarrow> (Inl e, failed db3)
                       | (Inr t, db3) \<Rightarrow> (Inr (lease, Some t), db3)))))"

section \<open>Histories\<close>

datatype index_op =
    BeginVersion string bool "string option" string string string nat
  | MarkReady version_lease nat
  | ActivateVersion version_lease index_artifacts nat
  | MarkFailed version_lease string
  | RollbackVersion string string nat

primrec index_step :: "index_config \<Rightarrow> index_op \<Rightarrow> index_store \<Rightarrow> index_store" where
  "index_step config (BeginVersion r ex k n i ow now) db = snd (begin_version config r ex k n i ow now db)"
| "index_step config (MarkReady l now) db = snd (mark_ready config l now db)"
| "index_step config (ActivateVersion l a now) db = snd (activate_version l a now db)"
| "index_step config (MarkFailed l code) db = mark_failed l code db"
| "index_step config (RollbackVersion r v now) db = snd (rollback_to_version r v now db)"

definition empty_index :: index_store where
  "empty_index = \<lparr>is_repositories = [], is_versions = [], is_artifacts = []\<rparr>"

section \<open>What readers see\<close>

text \<open>The joins of \<open>RetrievalReadStore.list_documents\<close>.\<close>

definition document_of :: "string \<Rightarrow> index_artifacts \<Rightarrow> symbol_chunk \<Rightarrow> document" where
  "document_of v a c =
     (let code = find_by ce_id (sy_entity c) (ia_code a); paper = find_by pe_id (sy_entity c) (ia_paper a) in
      \<lparr>dd_chunk = sy_id c, dd_entity = sy_entity c, dd_repo = sy_repo c, dd_version = v, dd_entity_kind = sy_entity_kind c,
       dd_entity_type = (case code of Some e \<Rightarrow> Some (ce_type e) | None \<Rightarrow> map_option pe_type paper),
       dd_chunk_type = sy_chunk_type c, dd_path = sy_path c,
       dd_name = (case code of Some e \<Rightarrow> Some (ce_qualified_name e) | None \<Rightarrow> Option.bind paper pe_title),
       dd_code_name = map_option ce_qualified_name code, dd_start = sy_start c, dd_end = sy_end c, dd_page = sy_page c,
       dd_ordinal = sy_ordinal c, dd_text = sy_text c, dd_content_hash = sy_content_hash c\<rparr>)"

definition evidence_of :: "string \<Rightarrow> evidence_ref \<Rightarrow> evidence_row list" where
  "evidence_of v r =
     (case er_entity r of
        None \<Rightarrow> []
      | Some i \<Rightarrow> [\<lparr>ev_version = v, ev_entity = i, ev_evidence = \<lparr>re_id = er_id r, re_source_type = er_source_type r, re_path = er_path r,
          re_start_line = er_start r, re_end_line = er_end r, re_paper_id = er_paper r, re_page_number = er_page r,
          re_figure_id = er_figure r, re_bbox = er_bbox r\<rparr>\<rparr>])"

primrec read_status :: "index_status \<Rightarrow> version_status" where
  "read_status IxBuilding = VStaging"
| "read_status IxReady = VStaging"
| "read_status IxActive = VActive"
| "read_status IxSuperseded = VSuperseded"
| "read_status IxFailed = VFailed"

definition index_view :: "index_store \<Rightarrow> index_db" where
  "index_view db =
     \<lparr>ix_active = map (\<lambda>r. (rp_id r, rp_active r)) (is_repositories db),
      ix_versions = map (\<lambda>r. \<lparr>vr_repo = iv_repo r, vr_id = iv_id r, vr_status = read_status (iv_state r)\<rparr>) (is_versions db),
      ix_documents = concat (map (\<lambda>(v, a). map (document_of v a) (ia_chunks a)) (is_artifacts db)),
      ix_edges = concat (map (\<lambda>(v, a). map (\<lambda>e. e\<lparr>ke_version := v\<rparr>) (ia_edges a)) (is_artifacts db)),
      ix_evidence = concat (map (\<lambda>(v, a). concat (map (evidence_of v) (ia_evidence a))) (is_artifacts db))\<rparr>"

end
