(* ===== verification/Ix_Props.thy ===== *)
theory Ix_Props
  imports Ix_Store Rt_Service_Props Rt_Fusion_Props
begin

text \<open>
  The structured index across all its builders: one active version and one build per repository,
  published versions that never change, and what a reader finds after an activation.
\<close>

section \<open>The invariant\<close>

definition live :: "index_version \<Rightarrow> bool" where
  "live r \<longleftrightarrow> iv_state r = IxActive"

definition is_published :: "index_version \<Rightarrow> bool" where
  "is_published r \<longleftrightarrow> iv_state r \<in> {IxActive, IxSuperseded}"

definition one :: "(index_version \<Rightarrow> bool) \<Rightarrow> index_version list \<Rightarrow> bool" where
  "one P vs \<longleftrightarrow> (\<forall>r\<in>set vs. \<forall>s\<in>set vs. iv_repo r = iv_repo s \<and> P r \<and> P s \<longrightarrow> r = s)"

definition keys_ok :: "index_version list \<Rightarrow> bool" where
  "keys_ok vs \<longleftrightarrow> (\<forall>r\<in>set vs. iv_id r \<noteq> []) \<and> distinct (map iv_id vs) \<and> distinct (map (\<lambda>r. (iv_repo r, iv_input r)) vs)
     \<and> distinct (map (\<lambda>r. (iv_repo r, iv_sequence r)) vs)"

definition pointers_ok :: "repository_row list \<Rightarrow> index_version list \<Rightarrow> bool" where
  "pointers_ok ps vs \<longleftrightarrow> (\<forall>r\<in>set vs. live r \<longrightarrow> (\<forall>p\<in>set ps. rp_id p = iv_repo r \<longrightarrow> rp_active p = Some (iv_id r)))
     \<and> (\<forall>p\<in>set ps. \<forall>v. rp_active p = Some v \<longrightarrow> (\<exists>r\<in>set vs. iv_id r = v \<and> iv_repo r = rp_id p \<and> live r))"

definition artifacts_ok :: "(string \<times> index_artifacts) list \<Rightarrow> index_version list \<Rightarrow> bool" where
  "artifacts_ok arts vs \<longleftrightarrow> distinct (map fst arts) \<and> (\<forall>(v, a)\<in>set arts. artifacts_valid a \<and> artifacts_keyed a)
     \<and> fst ` set arts = iv_id ` {r \<in> set vs. is_published r}"

definition index_inv :: "index_store \<Rightarrow> bool" where
  "index_inv db \<longleftrightarrow> distinct (map rp_id (is_repositories db)) \<and> iv_repo ` set (is_versions db) \<subseteq> rp_id ` set (is_repositories db)
     \<and> keys_ok (is_versions db) \<and> one live (is_versions db) \<and> one in_build (is_versions db)
     \<and> pointers_ok (is_repositories db) (is_versions db) \<and> artifacts_ok (is_artifacts db) (is_versions db)"

text \<open>Later stores have the published versions of earlier ones, with the same content.\<close>

definition index_later :: "index_store \<Rightarrow> index_store \<Rightarrow> bool" where
  "index_later a b \<longleftrightarrow> (\<forall>r\<in>set (is_versions a). is_published r \<longrightarrow>
     (\<exists>s\<in>set (is_versions b). iv_id s = iv_id r \<and> iv_repo s = iv_repo r \<and> iv_sequence s = iv_sequence r \<and> iv_input s = iv_input r
        \<and> is_published s) \<and> map_of (is_artifacts b) (iv_id r) = map_of (is_artifacts a) (iv_id r))"

section \<open>Changes of the version rows\<close>

definition same_keys :: "(index_version \<Rightarrow> index_version) \<Rightarrow> bool" where
  "same_keys f \<longleftrightarrow> (\<forall>r. iv_id (f r) = iv_id r \<and> iv_repo (f r) = iv_repo r \<and> iv_sequence (f r) = iv_sequence r \<and> iv_input (f r) = iv_input r)"

lemma keys_ok_map: "same_keys f \<Longrightarrow> keys_ok (map f vs) = keys_ok vs"
  by (simp add: keys_ok_def same_keys_def comp_def)

lemma one_map: "one P vs \<Longrightarrow> same_keys f \<Longrightarrow> (\<And>r. r \<in> set vs \<Longrightarrow> P (f r) \<Longrightarrow> P r) \<Longrightarrow> one P (map f vs)"
  unfolding one_def same_keys_def by auto

lemma distinct_mapD: "distinct (map f xs) \<Longrightarrow> x \<in> set xs \<Longrightarrow> y \<in> set xs \<Longrightarrow> f x = f y \<Longrightarrow> x = y"
  by (auto simp add: distinct_map dest: inj_onD)

lemma one_update:
  assumes "one P vs" "distinct (map iv_id vs)" "same_keys f" "\<And>r. r \<in> set vs \<Longrightarrow> iv_repo r = R \<and> P r \<Longrightarrow> iv_id r = v"
    "\<And>r. r \<in> set vs \<Longrightarrow> iv_id r = v \<Longrightarrow> iv_repo r = R"
  shows "one P (update_by iv_id v f vs)"
  unfolding one_def
proof (intro ballI impI)
  fix r s assume r: "r \<in> set (update_by iv_id v f vs)" and s: "s \<in> set (update_by iv_id v f vs)"
    and rs: "iv_repo r = iv_repo s \<and> P r \<and> P s"
  obtain r0 s0 where r0: "r0 \<in> set vs" "r = (if iv_id r0 = v then f r0 else r0)" and s0: "s0 \<in> set vs" "s = (if iv_id s0 = v then f s0 else s0)"
    using r s by (auto simp add: update_by_def)
  have repo: "iv_repo r0 = iv_repo s0" using rs r0(2) s0(2) assms(3) by (auto simp add: same_keys_def split: if_splits)
  show "r = s"
  proof (cases "iv_id r0 = v")
    case r: True
    show ?thesis
    proof (cases "iv_id s0 = v")
      case True
      then have "r0 = s0" using r distinct_mapD [OF assms(2) r0(1) s0(1)] by simp
      then show ?thesis using r0(2) s0(2) by simp
    next
      case False
      then have "P s0" "iv_repo s0 = R" using s0(2) rs assms(5) [OF r0(1) r] repo by simp_all
      then show ?thesis using assms(4) [OF s0(1)] False by simp
    qed
  next
    case r: False
    show ?thesis
    proof (cases "iv_id s0 = v")
      case True
      then have "P r0" "iv_repo r0 = R" using r0(2) r rs assms(5) [OF s0(1)] repo by simp_all
      then show ?thesis using assms(4) [OF r0(1)] r by simp
    next
      case False
      then show ?thesis using r r0 s0 rs assms(1) unfolding one_def by simp
    qed
  qed
qed

text \<open>A change that neither publishes nor touches what is published.\<close>

definition quiet :: "index_version list \<Rightarrow> (index_version \<Rightarrow> index_version) \<Rightarrow> bool" where
  "quiet vs f \<longleftrightarrow> same_keys f \<and> (\<forall>r\<in>set vs. (is_published (f r) \<longrightarrow> is_published r) \<and> (is_published r \<longrightarrow> f r = r))"

lemma live_published: "live r \<Longrightarrow> is_published r"
  by (simp add: live_def is_published_def)

lemma quiet_change:
  assumes inv: "index_inv db" and f: "quiet (is_versions db) f" and build: "one in_build (map f (is_versions db))"
  shows "index_inv (db\<lparr>is_versions := map f (is_versions db)\<rparr>) \<and> index_later db (db\<lparr>is_versions := map f (is_versions db)\<rparr>)"
proof -
  let ?vs = "is_versions db"
  have k: "same_keys f" using f by (simp add: quiet_def)
  have pub: "is_published (f r) \<longleftrightarrow> is_published r" and same: "is_published r \<Longrightarrow> f r = r" if "r \<in> set ?vs" for r
    using f that unfolding quiet_def by metis+
  have live_same: "live (f r) \<longleftrightarrow> live r" if "r \<in> set ?vs" for r
    using pub [OF that] same [OF that] live_published by metis
  have "pointers_ok (is_repositories db) (map f ?vs)"
    using inv k live_same unfolding index_inv_def pointers_ok_def same_keys_def by (simp add: bex_simps)
  moreover have "r \<in> f ` set ?vs \<and> is_published r \<longleftrightarrow> r \<in> set ?vs \<and> is_published r" for r
  proof
    assume "r \<in> f ` set ?vs \<and> is_published r"
    then obtain q where "q \<in> set ?vs" "r = f q" "is_published (f q)" by auto
    then show "r \<in> set ?vs \<and> is_published r" using pub same by auto
  next
    assume "r \<in> set ?vs \<and> is_published r"
    then show "r \<in> f ` set ?vs \<and> is_published r" using same [of r] by (auto intro!: image_eqI [of r f r])
  qed
  then have "{r \<in> set (map f ?vs). is_published r} = {r \<in> set ?vs. is_published r}" by simp
  moreover have "one live (map f ?vs)" using inv k live_same by (intro one_map) (auto simp add: index_inv_def)
  ultimately have "index_inv (db\<lparr>is_versions := map f ?vs\<rparr>)"
    using inv k build by (auto simp add: index_inv_def keys_ok_map artifacts_ok_def same_keys_def)
  moreover have "index_later db (db\<lparr>is_versions := map f ?vs\<rparr>)"
    unfolding index_later_def using same by (auto intro!: bexI)
  ultimately show ?thesis by simp
qed

lemma index_later_refl: "index_later a a"
  by (auto simp add: index_later_def)

lemma index_later_trans: "index_later a b \<Longrightarrow> index_later b c \<Longrightarrow> index_later a c"
  unfolding index_later_def by metis

section \<open>Beginning a version\<close>

lemma upsert_change:
  assumes inv: "index_inv db" and up: "upsert_repository repo_id ex key name db = Inr db1"
  shows "index_inv db1 \<and> index_later db db1 \<and> is_versions db1 = is_versions db \<and> repo_id \<in> rp_id ` set (is_repositories db1)"
proof (cases "find_by rp_id repo_id (is_repositories db)")
  case None
  then have new: "repo_id \<notin> rp_id ` set (is_repositories db)" by (simp add: find_by_None_iff)
  define row where "row = \<lparr>rp_id = repo_id, rp_explicit = ex, rp_key = key, rp_name = name, rp_active = None\<rparr>"
  have db1: "db1 = db\<lparr>is_repositories := is_repositories db @ [row]\<rparr>"
    using up None by (auto simp add: upsert_repository_def row_def split: if_splits)
  have "iv_repo r \<noteq> repo_id" if "r \<in> set (is_versions db)" for r using that inv new by (auto simp add: index_inv_def)
  then have "pointers_ok (is_repositories db @ [row]) (is_versions db)"
    using inv by (auto simp add: index_inv_def pointers_ok_def row_def)
  then have "index_inv db1" using inv new by (auto simp add: db1 index_inv_def row_def)
  then show ?thesis by (simp add: db1 row_def index_later_def) blast
next
  case (Some old)
  have db1: "db1 = db\<lparr>is_repositories := update_by rp_id repo_id (\<lambda>r. r\<lparr>rp_name := name\<rparr>) (is_repositories db)\<rparr>"
    using up Some by (auto simp add: upsert_repository_def split: if_splits)
  have "pointers_ok (update_by rp_id repo_id (\<lambda>r. r\<lparr>rp_name := name\<rparr>) (is_repositories db)) (is_versions db)"
    using inv by (auto simp add: index_inv_def pointers_ok_def set_update_by)
  then have "index_inv db1" using inv by (simp add: db1 index_inv_def map_key_update_by image_update_by)
  moreover have "repo_id \<in> rp_id ` set (is_repositories db1)"
    using find_by_SomeD [OF Some] by (auto simp add: db1 image_update_by)
  ultimately show ?thesis by (simp add: db1 index_later_def) blast
qed

lemma unique_row: "index_inv db \<Longrightarrow> r \<in> set (is_versions db) \<Longrightarrow> s \<in> set (is_versions db) \<Longrightarrow> iv_id r = iv_id s \<Longrightarrow> r = s"
  unfolding index_inv_def keys_ok_def by (metis distinct_mapD)

lemma update_quiet:
  assumes inv: "index_inv db" and row: "row \<in> set (is_versions db)" "\<not> is_published row" and f: "same_keys f" "\<And>r. \<not> is_published (f r)"
    and build: "one in_build (update_by iv_id (iv_id row) f (is_versions db))"
  shows "index_inv (db\<lparr>is_versions := update_by iv_id (iv_id row) f (is_versions db)\<rparr>)
     \<and> index_later db (db\<lparr>is_versions := update_by iv_id (iv_id row) f (is_versions db)\<rparr>)"
proof -
  have "quiet (is_versions db) (\<lambda>r. if iv_id r = iv_id row then f r else r)"
    using f row unique_row [OF inv _ row(1)] by (auto simp add: quiet_def same_keys_def)
  from quiet_change [OF inv this] build show ?thesis by (simp add: update_by_def)
qed

lemma resume_change:
  assumes inv: "index_inv db" and row: "row \<in> set (is_versions db)" "iv_repo row = repo_id"
    and res: "resume_or_reuse config row repo_id owner now db = Inr (lease, db')"
  shows "index_inv db' \<and> index_later db db'"
proof (cases "iv_state row = IxActive")
  case True
  then show ?thesis using res inv by (simp add: resume_or_reuse_def index_later_refl)
next
  case False
  define f where "f = (\<lambda>r :: index_version. r\<lparr>iv_state := IxBuilding, iv_retries := iv_retries r + 1,
          iv_owner := Some owner, iv_expires := Some (now + ic_lease_seconds config), iv_error_code := None\<rparr>)"
  have db': "db' = db\<lparr>is_versions := update_by iv_id (iv_id row) f (is_versions db)\<rparr>" and np: "iv_state row \<noteq> IxSuperseded"
    and free: "\<forall>r\<in>set (is_versions db). iv_repo r = repo_id \<and> in_build r \<longrightarrow> iv_id r = iv_id row"
    using res False by (auto simp add: resume_or_reuse_def f_def index_busy_def runtime_error_def list_ex_iff split: if_splits)
  have "same_keys f" by (simp add: same_keys_def f_def)
  then have "one in_build (update_by iv_id (iv_id row) f (is_versions db))"
    using inv free row unique_row [OF inv _ row(1)]
    by (intro one_update [where R = repo_id]) (auto simp add: index_inv_def keys_ok_def)
  moreover have "\<not> is_published row" using False np by (simp add: is_published_def)
  ultimately show ?thesis unfolding db'
    using update_quiet [OF inv row(1) _ \<open>same_keys f\<close>] by (simp add: is_published_def f_def)
qed

lemma insert_change:
  assumes inv: "index_inv db" and repo: "repo_id \<in> rp_id ` set (is_repositories db)"
    and new: "\<forall>r\<in>set (is_versions db). iv_repo r = repo_id \<longrightarrow> iv_input r \<noteq> input \<and> \<not> in_build r"
    and ins: "insert_version config repo_id input owner now db = Inr (lease, db')"
  shows "index_inv db' \<and> index_later db db'"
proof -
  define v where "v = index_version_id repo_id (next_sequence repo_id db) input"
  define row where "row = \<lparr>iv_id = v, iv_repo = repo_id, iv_sequence = next_sequence repo_id db, iv_input = input, iv_state = IxBuilding,
    iv_retries = 0, iv_owner = Some owner, iv_expires = Some (now + ic_lease_seconds config), iv_error_code = None, iv_activated = None\<rparr>"
  have row: "iv_repo row = repo_id" "iv_input row = input" "iv_sequence row = next_sequence repo_id db" "iv_state row = IxBuilding"
    by (simp_all add: row_def)
  obtain vs where ib: "insert_by iv_id row (is_versions db) = Some vs" and db'_vs: "db' = db\<lparr>is_versions := vs\<rparr>"
    using ins by (auto simp add: insert_version_def Let_def row_def v_def split: option.splits)
  then have ib: "insert_by iv_id row (is_versions db) = Some (is_versions db')" and db': "db' = db\<lparr>is_versions := is_versions db'\<rparr>"
    by simp_all
  have rows: "is_versions db' = is_versions db @ [row]" "iv_id row \<notin> iv_id ` set (is_versions db)"
    using insert_by_SomeD [OF ib] by auto
  have "iv_sequence r < next_sequence repo_id db" if "r \<in> set (is_versions db)" "iv_repo r = repo_id" for r
    using that unfolding next_sequence_def by (auto intro!: le_imp_less_Suc Max_ge)
  moreover have "iv_id row \<noteq> []" by (simp add: row_def v_def index_version_id_def)
  ultimately have "keys_ok (is_versions db @ [row])" using inv row rows(2) new unfolding index_inv_def keys_ok_def by fastforce
  moreover have "one live (is_versions db @ [row])" "one in_build (is_versions db @ [row])"
    using inv row new by (auto simp add: index_inv_def one_def live_def)
  moreover have "pointers_ok (is_repositories db) (is_versions db @ [row])"
    using inv row by (auto simp add: index_inv_def pointers_ok_def live_def)
  moreover have "{r \<in> set (is_versions db @ [row]). is_published r} = {r \<in> set (is_versions db). is_published r}"
    using row by (auto simp add: is_published_def)
  ultimately have "index_inv (db\<lparr>is_versions := is_versions db @ [row]\<rparr>)"
    using inv row repo by (simp add: index_inv_def artifacts_ok_def)
  moreover have "index_later db (db\<lparr>is_versions := is_versions db @ [row]\<rparr>)" by (auto simp add: index_later_def)
  ultimately show ?thesis using db' rows(1) by simp
qed

lemma begin_change:
  assumes inv: "index_inv db"
  shows "index_inv (snd (begin_version config repo_id ex key name input owner now db))
    \<and> index_later db (snd (begin_version config repo_id ex key name input owner now db))"
proof (cases "fst (begin_version config repo_id ex key name input owner now db)")
  case (Inl e)
  then have "snd (begin_version config repo_id ex key name input owner now db) = db"
    by (auto simp add: begin_version_def split: sum.splits prod.splits)
  then show ?thesis using inv by (simp add: index_later_refl)
next
  case (Inr lease)
  then obtain db1 where up: "upsert_repository repo_id ex key name db = Inr db1"
    by (auto simp add: begin_version_def split: sum.splits)
  note db1 = upsert_change [OF inv up]
  define db' where "db' = snd (begin_version config repo_id ex key name input owner now db)"
  show ?thesis
  proof (cases "List.find (\<lambda>r. iv_repo r = repo_id \<and> iv_input r = input) (is_versions db1)")
    case (Some row)
    then have "resume_or_reuse config row repo_id owner now db1 = Inr (lease, db')"
      using Inr up by (auto simp add: begin_version_def db'_def split: sum.splits prod.splits)
    then show ?thesis using resume_change [of db1 row repo_id] find_SomeD [OF Some] db1 index_later_trans
      unfolding db'_def [symmetric] by blast
  next
    case none: None
    then have fresh: "\<forall>r\<in>set (is_versions db1). iv_repo r = repo_id \<longrightarrow> iv_input r \<noteq> input" by (auto simp add: find_None_iff)
    show ?thesis
    proof (cases "List.find (\<lambda>r. iv_repo r = repo_id \<and> in_build r) (is_versions db1)")
      case None
      then have "insert_version config repo_id input owner now db1 = Inr (lease, db')"
        using Inr up none by (auto simp add: begin_version_def db'_def split: sum.splits prod.splits)
      moreover have "\<forall>r\<in>set (is_versions db1). iv_repo r = repo_id \<longrightarrow> \<not> in_build r" using None by (auto simp add: find_None_iff)
      ultimately show ?thesis using insert_change [of db1 repo_id] fresh db1 index_later_trans unfolding db'_def [symmetric] by blast
    next
      case (Some b)
      note b = find_SomeD [OF Some]
      define f where "f = (\<lambda>r :: index_version. r\<lparr>iv_state := IxFailed, iv_error_code := Some ''stale_lease'', iv_owner := None, iv_expires := None\<rparr>)"
      define db2 where "db2 = db1\<lparr>is_versions := update_by iv_id (iv_id b) f (is_versions db1)\<rparr>"
      have ins: "insert_version config repo_id input owner now db2 = Inr (lease, db')"
        using Inr up none Some
        by (auto simp add: begin_version_def db'_def db2_def f_def index_busy_def split: sum.splits prod.splits if_splits)
      have f: "same_keys f" "\<And>r. \<not> in_build (f r)" "\<And>r. \<not> is_published (f r)" by (simp_all add: same_keys_def f_def in_build_def is_published_def)
      have b': "b \<in> set (is_versions db1)" "\<not> is_published b" using b by (auto simp add: in_build_def is_published_def)
      have "one in_build (update_by iv_id (iv_id b) f (is_versions db1))"
        unfolding update_by_def using db1 f by (intro one_map) (auto simp add: index_inv_def same_keys_def split: if_splits)
      then have db2: "index_inv db2 \<and> index_later db1 db2" unfolding db2_def using db1 b' f by (intro update_quiet) auto
      have "\<forall>r\<in>set (is_versions db2). iv_repo r = repo_id \<longrightarrow> iv_input r \<noteq> input \<and> \<not> in_build r"
      proof (intro ballI impI)
        fix r assume "r \<in> set (is_versions db2)" "iv_repo r = repo_id"
        then obtain r0 where r0: "r0 \<in> set (is_versions db1)" "r = (if iv_id r0 = iv_id b then f r0 else r0)" "iv_repo r0 = repo_id"
          using f(1) by (auto simp add: db2_def update_by_def same_keys_def split: if_splits)
        have "iv_input r = iv_input r0" using r0(2) f(1) by (simp add: same_keys_def)
        moreover have "\<not> in_build r"
        proof
          assume "in_build r"
          then have r: "r = r0" "in_build r0" "iv_id r0 \<noteq> iv_id b" using r0(2) f(2) by (auto split: if_splits)
          then show False using db1 b r0 unfolding index_inv_def one_def by metis
        qed
        ultimately show "iv_input r \<noteq> input \<and> \<not> in_build r" using fresh r0 by simp
      qed
      then show ?thesis using insert_change [OF _ _ _ ins] db1 db2 index_later_trans unfolding db'_def [symmetric] db2_def
        by (metis (no_types, lifting) index_store.select_convs(1) index_store.surjective index_store.update_convs(2))
    qed
  qed
qed

section \<open>Publishing a version\<close>

definition publish :: "string \<Rightarrow> string \<Rightarrow> (index_version \<Rightarrow> index_version) \<Rightarrow> index_version list \<Rightarrow> index_version list" where
  "publish R v f vs = update_by iv_id v f (supersede_active R vs)"

definition retire :: "string \<Rightarrow> index_version \<Rightarrow> index_version" where
  "retire R r = (if iv_repo r = R \<and> iv_state r = IxActive then r\<lparr>iv_state := IxSuperseded\<rparr> else r)"

lemma supersede_active_map: "supersede_active R vs = map (retire R) vs"
  by (simp add: supersede_active_def update_where_def retire_def)

lemma retire_facts:
  "same_keys (retire R)" "is_published (retire R r) \<longleftrightarrow> is_published r" "in_build (retire R r) \<longleftrightarrow> in_build r"
  "live (retire R r) \<longleftrightarrow> live r \<and> iv_repo r \<noteq> R" "iv_repo r \<noteq> R \<Longrightarrow> retire R r = r" "iv_repo (retire R r) = iv_repo r"
  "iv_id (retire R r) = iv_id r"
  by (auto simp add: same_keys_def retire_def is_published_def in_build_def live_def)

lemma publish_members:
  "s \<in> set (publish R v f vs) \<longleftrightarrow> (\<exists>r\<in>set vs. s = (if iv_id r = v then f (retire R r) else retire R r))"
  by (auto simp add: publish_def update_by_def supersede_active_map retire_facts)

lemma publish_change:
  assumes inv: "index_inv db" and row: "row \<in> set (is_versions db)" "iv_id row = v" "iv_repo row = R"
    and f: "same_keys f" "\<And>r. live (f r)"
    and arts: "distinct (map fst arts)" "\<forall>(w, a)\<in>set arts. artifacts_valid a \<and> artifacts_keyed a"
      "fst ` set arts = insert v (fst ` set (is_artifacts db))"
      "\<And>w. w \<in> fst ` set (is_artifacts db) \<Longrightarrow> map_of arts w = map_of (is_artifacts db) w"
    and db': "db' = \<lparr>is_repositories = point_to R v (is_repositories db), is_versions = publish R v f (is_versions db), is_artifacts = arts\<rparr>"
  shows "index_inv db' \<and> index_later db db'"
proof -
  let ?vs = "is_versions db" and ?vs' = "publish R v f (is_versions db)" and ?ps = "is_repositories db"
  note mem = publish_members [of _ R v f ?vs]
  have at_v: "iv_repo r = R" if "r \<in> set ?vs" "iv_id r = v" for r using unique_row [OF inv that(1) row(1)] that(2) row by simp
  have f_ids: "iv_id (f r) = iv_id r" "iv_repo (f r) = iv_repo r" for r using f(1) by (simp_all add: same_keys_def)
  have f_pub: "is_published (f r)" "\<not> in_build (f r)" for r using f(2) [of r] by (auto simp add: live_def is_published_def in_build_def)
  have keys: "keys_ok ?vs'"
    using inv f(1) retire_facts(1) unfolding publish_def update_by_def supersede_active_map index_inv_def
    by (simp add: keys_ok_map same_keys_def del: map_map)
  have build: "one in_build ?vs'" unfolding one_def
  proof (intro ballI impI)
    fix a b assume a: "a \<in> set ?vs'" and b: "b \<in> set ?vs'" and ab: "iv_repo a = iv_repo b \<and> in_build a \<and> in_build b"
    from a b ab obtain r t where rt: "r \<in> set ?vs" "a = retire R r" "t \<in> set ?vs" "b = retire R t"
      unfolding mem using f_pub by (metis (no_types, lifting))
    have "r = t" using inv rt ab unfolding index_inv_def one_def by (metis retire_facts(3,6))
    then show "a = b" using rt by simp
  qed
  have live_rows: "(iv_id s = v \<and> iv_repo s = R) \<or> (s \<in> set ?vs \<and> live s \<and> iv_repo s \<noteq> R)" if s: "s \<in> set ?vs'" "live s" for s
  proof -
    from s(1) obtain r where r: "r \<in> set ?vs" "s = (if iv_id r = v then f (retire R r) else retire R r)" unfolding mem by blast
    show ?thesis
    proof (cases "iv_id r = v")
      case True
      then show ?thesis using r at_v f_ids retire_facts by simp
    next
      case False
      then show ?thesis using r s(2) retire_facts by auto
    qed
  qed
  have live: "one live ?vs'" unfolding one_def
  proof (intro ballI impI)
    fix a b assume a: "a \<in> set ?vs'" and b: "b \<in> set ?vs'" and ab: "iv_repo a = iv_repo b \<and> live a \<and> live b"
    have "distinct (map iv_id ?vs')" using keys by (simp add: keys_ok_def)
    then show "a = b" using live_rows [OF a] live_rows [OF b] ab a b inv distinct_mapD
      unfolding index_inv_def one_def by metis
  qed
  have row': "\<exists>r\<in>set ?vs'. iv_id r = v \<and> iv_repo r = R \<and> live r"
    unfolding publish_members using row f f_ids retire_facts by (intro bexI [of _ "f (retire R row)"]) (auto simp add: publish_members)
  have pointers: "pointers_ok (point_to R v ?ps) ?vs'" unfolding pointers_ok_def
  proof (intro conjI ballI allI impI)
    fix s p assume s: "s \<in> set ?vs'" "live s" and p: "p \<in> set (point_to R v ?ps)" "rp_id p = iv_repo s"
    from p(1) obtain q where q: "q \<in> set ?ps" "p = (if rp_id q = R then q\<lparr>rp_active := Some v\<rparr> else q)"
      by (auto simp add: point_to_def update_by_def)
    then show "rp_active p = Some (iv_id s)"
      using live_rows [OF s] p(2) inv unfolding index_inv_def pointers_ok_def by (auto split: if_splits)
  next
    fix p w assume p: "p \<in> set (point_to R v ?ps)" "rp_active p = Some w"
    from p(1) obtain q where q: "q \<in> set ?ps" "p = (if rp_id q = R then q\<lparr>rp_active := Some v\<rparr> else q)"
      by (auto simp add: point_to_def update_by_def)
    show "\<exists>r\<in>set ?vs'. iv_id r = w \<and> iv_repo r = rp_id p \<and> live r"
    proof (cases "rp_id q = R")
      case True
      then show ?thesis using q p(2) row' by auto
    next
      case False
      then have q_p: "p = q" using q(2) by simp
      have "\<forall>p\<in>set ?ps. \<forall>v. rp_active p = Some v \<longrightarrow> (\<exists>r\<in>set ?vs. iv_id r = v \<and> iv_repo r = rp_id p \<and> live r)"
        using inv by (simp add: index_inv_def pointers_ok_def)
      from this [rule_format, OF q(1), of w] obtain r where r: "r \<in> set ?vs" "iv_id r = w" "iv_repo r = rp_id q" "live r"
        using p(2) q_p by blast
      then have "r \<in> set ?vs'" unfolding mem using False at_v retire_facts(5) by (intro bexI [of _ r]) auto
      then show ?thesis using r q_p by auto
    qed
  qed
  have pub: "iv_id ` {s \<in> set ?vs'. is_published s} = insert v (iv_id ` {r \<in> set ?vs. is_published r})"
  proof (intro set_eqI iffI)
    fix i assume "i \<in> iv_id ` {s \<in> set ?vs'. is_published s}"
    then obtain r where "r \<in> set ?vs" "iv_id r = i" "i = v \<or> is_published r"
      using f_ids retire_facts unfolding publish_members by (auto split: if_splits)
    then show "i \<in> insert v (iv_id ` {r \<in> set ?vs. is_published r})" by auto
  next
    fix i assume i: "i \<in> insert v (iv_id ` {r \<in> set ?vs. is_published r})"
    show "i \<in> iv_id ` {s \<in> set ?vs'. is_published s}"
    proof (cases "i = v")
      case True
      then show ?thesis using row' live_published by auto
    next
      case False
      then obtain r where r: "r \<in> set ?vs" "is_published r" "iv_id r = i" using i by auto
      then have "retire R r \<in> set ?vs'" unfolding mem using False by auto
      then show ?thesis using r retire_facts(2,7) by (auto intro!: image_eqI [of _ _ "retire R r"])
    qed
  qed
  have repos: "iv_repo ` set ?vs' \<subseteq> rp_id ` set ?ps"
  proof
    fix i assume "i \<in> iv_repo ` set ?vs'"
    then obtain t where t: "i = iv_repo t" "t \<in> set ?vs'" by blast
    then obtain r where r: "r \<in> set ?vs" "t = (if iv_id r = v then f (retire R r) else retire R r)" unfolding mem by blast
    then have r: "r \<in> set ?vs" "i = iv_repo r" using t(1) f_ids(2) retire_facts(6) by auto
    then show "i \<in> rp_id ` set ?ps" using inv unfolding index_inv_def by blast
  qed
  have arts_ok: "artifacts_ok arts ?vs'" using arts inv pub by (simp add: artifacts_ok_def index_inv_def)
  have "index_inv db'" using inv keys build live pointers repos arts_ok
    by (simp add: db' index_inv_def point_to_def map_key_update_by image_update_by)
  moreover have "index_later db db'" unfolding index_later_def
  proof (intro ballI impI conjI)
    fix r assume r: "r \<in> set (is_versions db)" "is_published r"
    define s where "s = (if iv_id r = v then f (retire R r) else retire R r)"
    have "s \<in> set ?vs'" unfolding mem s_def using r by blast
    moreover have "iv_id s = iv_id r \<and> iv_repo s = iv_repo r \<and> iv_sequence s = iv_sequence r \<and> iv_input s = iv_input r \<and> is_published s"
      using f(1) retire_facts(1) f_pub r retire_facts(2) by (simp add: s_def same_keys_def)
    ultimately show "\<exists>s\<in>set (is_versions db'). iv_id s = iv_id r \<and> iv_repo s = iv_repo r \<and> iv_sequence s = iv_sequence r
      \<and> iv_input s = iv_input r \<and> is_published s" by (auto simp add: db')
    have "iv_id r \<in> fst ` set (is_artifacts db)" using inv r by (auto simp add: index_inv_def artifacts_ok_def)
    then show "map_of (is_artifacts db') (iv_id r) = map_of (is_artifacts db) (iv_id r)" using arts(4) by (simp add: db')
  qed
  ultimately show ?thesis ..
qed

lemma activate_change:
  assumes inv: "index_inv db"
  shows "index_inv (snd (activate_version lease a now db)) \<and> index_later db (snd (activate_version lease a now db))"
proof (cases "snd (activate_version lease a now db) = db")
  case True
  then show ?thesis using inv by (simp add: index_later_refl)
next
  case False
  define f where "f = (\<lambda>r :: index_version. r\<lparr>iv_state := IxActive, iv_activated := Some now, iv_owner := None, iv_expires := None,
    iv_error_code := None\<rparr>)"
  obtain row where row: "find_by iv_id (vl_id lease) (is_versions db) = Some row" "iv_state row = IxReady" "artifacts_valid a"
    "artifacts_keyed a" and db': "snd (activate_version lease a now db) = \<lparr>is_repositories = point_to (iv_repo row) (vl_id lease) (is_repositories db),
      is_versions = publish (iv_repo row) (vl_id lease) f (is_versions db), is_artifacts = dict_set (vl_id lease) a (is_artifacts db)\<rparr>"
  proof -
    have nr: "\<not> vl_reused lease" using False by (cases "vl_reused lease") (simp_all add: activate_version_def)
    have av: "artifacts_valid a" using False nr by (cases "artifacts_valid a") (simp_all add: activate_version_def)
    obtain row where row: "find_by iv_id (vl_id lease) (is_versions db) = Some row"
      using False nr av by (cases "find_by iv_id (vl_id lease) (is_versions db)") (simp_all add: activate_version_def)
    have st: "iv_state row = IxReady" "iv_owner row = vl_owner lease" "artifacts_keyed a"
      using False nr av row by (simp_all add: activate_version_def split: if_splits)
    have "snd (activate_version lease a now db) = \<lparr>is_repositories = point_to (iv_repo row) (vl_id lease) (is_repositories db),
      is_versions = publish (iv_repo row) (vl_id lease) f (is_versions db), is_artifacts = dict_set (vl_id lease) a (is_artifacts db)\<rparr>"
      using nr av row st by (simp add: activate_version_def publish_def f_def)
    then show thesis using that row st av by blast
  qed
  have r: "row \<in> set (is_versions db)" "iv_id row = vl_id lease" using find_by_SomeD [OF row(1)] by simp_all
  have ok: "distinct (map fst (is_artifacts db))" "\<forall>(w, b)\<in>set (is_artifacts db). artifacts_valid b \<and> artifacts_keyed b"
    "fst ` set (is_artifacts db) = iv_id ` {r \<in> set (is_versions db). is_published r}"
    using inv by (simp_all add: index_inv_def artifacts_ok_def)
  have new: "vl_id lease \<notin> fst ` set (is_artifacts db)"
  proof
    assume "vl_id lease \<in> fst ` set (is_artifacts db)"
    then obtain t where t: "t \<in> set (is_versions db)" "is_published t" "vl_id lease = iv_id t" unfolding ok(3) by blast
    then have "t = row" using unique_row [OF inv t(1) r(1)] r(2) by simp
    then show False using t(2) row(2) by (simp add: is_published_def)
  qed
  show ?thesis
  proof (rule publish_change [OF inv r refl, of f "dict_set (vl_id lease) a (is_artifacts db)"])
    show "same_keys f" "live (f r)" for r by (simp_all add: same_keys_def f_def live_def)
    show "distinct (map fst (dict_set (vl_id lease) a (is_artifacts db)))" using dict_set_entries(2) [OF ok(1)] .
    show "\<forall>(w, b)\<in>set (dict_set (vl_id lease) a (is_artifacts db)). artifacts_valid b \<and> artifacts_keyed b"
      using dict_set_entries(1) [of "vl_id lease" a "is_artifacts db"] ok(2) row(3,4) by fastforce
    show "fst ` set (dict_set (vl_id lease) a (is_artifacts db)) = insert (vl_id lease) (fst ` set (is_artifacts db))"
      by (rule dict_set_keys)
    show "map_of (dict_set (vl_id lease) a (is_artifacts db)) w = map_of (is_artifacts db) w" if "w \<in> fst ` set (is_artifacts db)" for w
      using that new by (cases "w = vl_id lease") simp_all
  qed (rule db')
qed

lemma rollback_change:
  assumes inv: "index_inv db"
  shows "index_inv (snd (rollback_to_version R v now db)) \<and> index_later db (snd (rollback_to_version R v now db))"
proof (cases "snd (rollback_to_version R v now db) = db")
  case True
  then show ?thesis using inv by (simp add: index_later_refl)
next
  case False
  define f where "f = (\<lambda>r :: index_version. r\<lparr>iv_state := IxActive, iv_activated := Some now\<rparr>)"
  obtain row where row: "List.find (\<lambda>r. iv_repo r = R \<and> iv_id r = v) (is_versions db) = Some row" "is_published row"
    and db': "snd (rollback_to_version R v now db) = db\<lparr>is_versions := publish R v f (is_versions db),
      is_repositories := point_to R v (is_repositories db)\<rparr>"
  proof -
    obtain row where row: "List.find (\<lambda>r. iv_repo r = R \<and> iv_id r = v) (is_versions db) = Some row"
      using False by (cases "List.find (\<lambda>r. iv_repo r = R \<and> iv_id r = v) (is_versions db)") (simp_all add: rollback_to_version_def)
    have p: "iv_state row \<in> {IxActive, IxSuperseded}"
      using False row by (cases "iv_state row \<in> {IxActive, IxSuperseded}") (simp_all add: rollback_to_version_def)
    have "snd (rollback_to_version R v now db) = db\<lparr>is_versions := publish R v f (is_versions db),
      is_repositories := point_to R v (is_repositories db)\<rparr>"
      using row p by (simp add: rollback_to_version_def publish_def f_def)
    then show thesis using that row p by (simp add: is_published_def)
  qed
  note r = find_SomeD [OF row(1)]
  have ok: "artifacts_ok (is_artifacts db) (is_versions db)" using inv by (simp add: index_inv_def)
  then have "v \<in> fst ` set (is_artifacts db)" using r row(2) by (auto simp add: artifacts_ok_def)
  then have keys: "fst ` set (is_artifacts db) = insert v (fst ` set (is_artifacts db))" by (simp add: insert_absorb)
  have f: "same_keys f" "live (f r)" for r by (simp_all add: same_keys_def f_def live_def)
  have arts: "distinct (map fst (is_artifacts db))" "\<forall>(w, a)\<in>set (is_artifacts db). artifacts_valid a \<and> artifacts_keyed a"
    using ok by (simp_all add: artifacts_ok_def)
  show ?thesis
  proof (rule publish_change [OF inv _ _ _ f arts keys refl])
    show "row \<in> set (is_versions db)" "iv_id row = v" "iv_repo row = R" using r by simp_all
    show "snd (rollback_to_version R v now db) = \<lparr>is_repositories = point_to R v (is_repositories db),
      is_versions = publish R v f (is_versions db), is_artifacts = is_artifacts db\<rparr>" by (simp add: db')
  qed
qed

section \<open>Histories\<close>

lemma mark_failed_change:
  assumes inv: "index_inv db"
  shows "index_inv (mark_failed lease code db) \<and> index_later db (mark_failed lease code db)"
proof (cases "vl_reused lease")
  case True
  then show ?thesis using inv by (simp add: mark_failed_def index_later_refl)
next
  case False
  define f where "f = (\<lambda>r :: index_version. if iv_id r = vl_id lease \<and> in_build r then r\<lparr>iv_state := IxFailed, iv_error_code := Some code,
    iv_owner := None, iv_expires := None\<rparr> else r)"
  have q: "quiet (is_versions db) f" by (auto simp add: quiet_def same_keys_def f_def is_published_def in_build_def)
  have "one in_build (map f (is_versions db))"
  proof (rule one_map)
    show "one in_build (is_versions db)" using inv by (simp add: index_inv_def)
    show "same_keys f" using q by (simp add: quiet_def)
    show "in_build r" if "in_build (f r)" for r
      using that by (cases "iv_id r = vl_id lease \<and> in_build r") (simp_all only: f_def if_True if_False)
  qed
  from quiet_change [OF inv q this] False show ?thesis by (simp add: mark_failed_def update_where_def f_def)
qed

lemma mark_ready_change:
  assumes inv: "index_inv db"
  shows "index_inv (snd (mark_ready config lease now db)) \<and> index_later db (snd (mark_ready config lease now db))"
proof (cases "snd (mark_ready config lease now db) = db")
  case True
  then show ?thesis using inv by (simp add: index_later_refl)
next
  case False
  define f where "f = (\<lambda>r :: index_version. if iv_id r = vl_id lease \<and> iv_state r = IxBuilding \<and> iv_owner r = vl_owner lease \<and> iv_owner r \<noteq> None
    then r\<lparr>iv_state := IxReady, iv_expires := Some (now + ic_lease_seconds config)\<rparr> else r)"
  have q: "quiet (is_versions db) f" by (auto simp add: quiet_def same_keys_def f_def is_published_def)
  have "one in_build (map f (is_versions db))"
  proof (rule one_map)
    show "one in_build (is_versions db)" using inv by (simp add: index_inv_def)
    show "same_keys f" using q by (simp add: quiet_def)
    show "in_build r" if "in_build (f r)" for r
      using that by (cases "iv_state r = IxBuilding") (simp_all add: f_def in_build_def)
  qed
  moreover have "snd (mark_ready config lease now db) = db\<lparr>is_versions := map f (is_versions db)\<rparr>"
  proof -
    define hit where "hit = (\<lambda>r :: index_version. iv_id r = vl_id lease \<and> iv_state r = IxBuilding \<and> iv_owner r = vl_owner lease \<and> iv_owner r \<noteq> None)"
    note m = mark_ready_def [of config lease now db, unfolded Let_def, folded hit_def]
    have nr: "\<not> vl_reused lease" using False by (cases "vl_reused lease") (simp_all add: m)
    have "list_ex hit (is_versions db)" using False nr by (cases "list_ex hit (is_versions db)") (simp_all add: m)
    then show ?thesis using nr by (simp add: m update_where_def f_def hit_def)
  qed
  ultimately show ?thesis using quiet_change [OF inv q] by simp
qed

lemma index_step_change: "index_inv db \<Longrightarrow> index_inv (index_step config op db) \<and> index_later db (index_step config op db)"
  using begin_change mark_ready_change activate_change mark_failed_change rollback_change by (cases op) simp_all

interpretation builders: machine "index_step config" "\<lambda>_. True" index_inv index_later
  by unfold_locales (use index_step_change index_later_refl index_later_trans in blast)+

lemma index_inv_empty: "index_inv empty_index"
  by (simp add: index_inv_def empty_index_def keys_ok_def one_def pointers_ok_def artifacts_ok_def)

section \<open>Leases\<close>

lemma begin_post:
  assumes inv: "index_inv db" and b: "begin_version config repo_id ex key name input owner now db = (Inr lease, db')"
  shows "\<exists>row\<in>set (is_versions db'). iv_id row = vl_id lease \<and> iv_repo row = repo_id \<and> iv_input row = input
    \<and> (if vl_reused lease then iv_state row = IxActive
       else iv_state row = IxBuilding \<and> iv_owner row = Some owner \<and> vl_owner lease = Some owner)"
proof -
  obtain db1 where up: "upsert_repository repo_id ex key name db = Inr db1"
    using b by (auto simp add: begin_version_def split: sum.splits)
  note db1 = upsert_change [OF inv up]
  show ?thesis
  proof (cases "List.find (\<lambda>r. iv_repo r = repo_id \<and> iv_input r = input) (is_versions db1)")
    case (Some row)
    note row = find_SomeD [OF Some]
    have res: "resume_or_reuse config row repo_id owner now db1 = Inr (lease, db')"
      using b up Some by (auto simp add: begin_version_def split: sum.splits prod.splits)
    show ?thesis
    proof (cases "iv_state row = IxActive")
      case True
      then show ?thesis using res row by (auto simp add: resume_or_reuse_def)
    next
      case False
      define f where "f = (\<lambda>r :: index_version. r\<lparr>iv_state := IxBuilding, iv_retries := iv_retries r + 1,
          iv_owner := Some owner, iv_expires := Some (now + ic_lease_seconds config), iv_error_code := None\<rparr>)"
      have "vl_id lease = iv_id row" "\<not> vl_reused lease" "vl_owner lease = Some owner"
        "is_versions db' = update_by iv_id (iv_id row) f (is_versions db1)"
        using res False by (auto simp add: resume_or_reuse_def f_def index_busy_def runtime_error_def split: if_splits)
      moreover have "f row \<in> set (update_by iv_id (iv_id row) f (is_versions db1))"
        using row by (auto simp add: update_by_def intro!: image_eqI [of _ _ row])
      ultimately show ?thesis using row by (intro bexI [of _ "f row"]) (simp_all add: f_def)
    qed
  next
    case None
    then obtain db2 where "insert_version config repo_id input owner now db2 = Inr (lease, db')"
      using b up by (auto simp add: begin_version_def index_busy_def split: sum.splits prod.splits option.splits if_splits)
    then show ?thesis
      by (auto simp add: insert_version_def Let_def split: option.splits dest!: insert_by_SomeD)
  qed
qed

lemma begin_again:
  assumes inv: "index_inv db" and row: "row \<in> set (is_versions db)" "iv_repo row = repo_id" "iv_input row = input" "\<not> is_published row"
    and b: "begin_version config repo_id ex key name input owner now db = (Inr lease, db')"
  shows "vl_id lease = iv_id row \<and> \<not> vl_reused lease"
proof -
  obtain db1 where up: "upsert_repository repo_id ex key name db = Inr db1"
    using b by (auto simp add: begin_version_def split: sum.splits)
  have vs: "is_versions db1 = is_versions db" using upsert_change [OF inv up] by blast
  obtain r where r: "List.find (\<lambda>r. iv_repo r = repo_id \<and> iv_input r = input) (is_versions db) = Some r"
    using row by (cases "List.find (\<lambda>r. iv_repo r = repo_id \<and> iv_input r = input) (is_versions db)") (auto simp add: find_None_iff)
  have "distinct (map (\<lambda>r. (iv_repo r, iv_input r)) (is_versions db))" using inv by (simp add: index_inv_def keys_ok_def)
  then have "r = row" using find_SomeD [OF r] row by (auto elim: distinct_mapD)
  then have "resume_or_reuse config row repo_id owner now db1 = Inr (lease, db')"
    using b up r vs by (auto simp add: begin_version_def split: sum.splits prod.splits)
  then show ?thesis using row(4) by (auto simp add: resume_or_reuse_def is_published_def index_busy_def runtime_error_def split: if_splits)
qed


lemma mark_ready_ids:
  "(\<lambda>r. (iv_id r, iv_repo r)) ` set (is_versions (snd (mark_ready config lease now db))) = (\<lambda>r. (iv_id r, iv_repo r)) ` set (is_versions db)"
proof -
  have "map (\<lambda>r. (iv_id r, iv_repo r)) (is_versions (snd (mark_ready config lease now db))) = map (\<lambda>r. (iv_id r, iv_repo r)) (is_versions db)"
    by (simp add: mark_ready_def Let_def map_update_where)
  then show ?thesis by (metis set_map)
qed

lemma mark_ready_rows:
  "row \<in> set (is_versions db) \<Longrightarrow> \<exists>r\<in>set (is_versions (snd (mark_ready config lease now db))). iv_id r = iv_id row \<and> iv_repo r = iv_repo row"
  using equalityD2 [OF mark_ready_ids [of config lease now db], THEN subsetD, of "(iv_id row, iv_repo row)"] by fastforce

lemma mark_ready_busy:
  "\<not> vl_reused lease \<Longrightarrow> \<forall>r\<in>set (is_versions db). iv_id r = vl_id lease \<longrightarrow> iv_owner r \<noteq> vl_owner lease \<or> iv_state r \<noteq> IxBuilding
    \<Longrightarrow> mark_ready config lease now db = (index_busy, db)"
  by (auto simp add: mark_ready_def Let_def list_ex_iff)

section \<open>Readers\<close>

lemma view_documents:
  assumes "distinct (map fst arts)" "map_of arts v = Some a"
  shows "filter (matches_filter (plain_filter R v)) (concat (map (\<lambda>(v, a). map (document_of v a) (ia_chunks a)) arts))
    = map (document_of v a) (filter (\<lambda>c. sy_repo c = R) (ia_chunks a))"
proof -
  have one: "filter (matches_filter (plain_filter R v)) (map (document_of w b) cs)
      = (if w = v then map (document_of w b) (filter (\<lambda>c. sy_repo c = R) cs) else [])" for w b cs
    by (induction cs) (auto simp add: matches_filter_def plain_filter_def allowed_by_def document_of_def Let_def)
  have none: "filter (matches_filter (plain_filter R v)) (concat (map (\<lambda>(v, a). map (document_of v a) (ia_chunks a)) xs)) = []"
    if "v \<notin> fst ` set xs" for xs
    using that by (induction xs) (auto simp add: one)
  show ?thesis using assms by (induction arts) (auto simp add: one none)
qed

lemma view_resolve:
  assumes inv: "index_inv db" and row: "row \<in> set (is_versions db)" "live row"
  shows "resolve_version (index_view db) (iv_repo row) None = Inr (iv_id row)
    \<and> resolve_version (index_view db) (iv_repo row) (Some (iv_id row)) = Inr (iv_id row)"
proof -
  have "iv_repo row \<in> rp_id ` set (is_repositories db)" using inv row(1) unfolding index_inv_def by blast
  then obtain p where p: "p \<in> set (is_repositories db)" "rp_id p = iv_repo row" by auto
  then have "rp_active p = Some (iv_id row)" using inv row unfolding index_inv_def pointers_ok_def by blast
  moreover have "distinct (map fst (map (\<lambda>r. (rp_id r, rp_active r)) (is_repositories db)))"
    using inv by (simp add: index_inv_def comp_def)
  ultimately have "map_of (ix_active (index_view db)) (iv_repo row) = Some (Some (iv_id row))"
    using p by (auto simp add: index_view_def intro!: map_of_is_SomeI image_eqI [of _ _ p])
  moreover have "find_by (\<lambda>r. (vr_repo r, vr_id r)) (iv_repo row, iv_id row) (ix_versions (index_view db))
      = Some \<lparr>vr_repo = iv_repo row, vr_id = iv_id row, vr_status = VActive\<rparr>"
  proof -
    have "distinct (map iv_id (is_versions db))" using inv by (simp add: index_inv_def keys_ok_def)
    then have "distinct (map (\<lambda>r. (vr_repo r, vr_id r)) (ix_versions (index_view db)))"
      by (auto simp add: index_view_def comp_def distinct_map inj_on_def)
    moreover have "\<lparr>vr_repo = iv_repo row, vr_id = iv_id row, vr_status = VActive\<rparr> \<in> set (ix_versions (index_view db))"
      using row by (auto simp add: index_view_def live_def intro!: image_eqI [of _ _ row])
    ultimately show ?thesis using find_by_distinct [of "\<lambda>r. (vr_repo r, vr_id r)"] by fastforce
  qed
  moreover have "iv_id row \<noteq> []" using inv row by (auto simp add: index_inv_def keys_ok_def)
  ultimately show ?thesis by (simp add: resolve_version_def)
qed

lemma view_list_documents:
  assumes inv: "index_inv db" and row: "row \<in> set (is_versions db)" "live row" and a: "map_of (is_artifacts db) (iv_id row) = Some a"
  shows "list_documents (index_view db) (plain_filter (iv_repo row) (iv_id row))
    = Inr (sort_key dd_chunk (map (document_of (iv_id row) a) (filter (\<lambda>c. sy_repo c = iv_repo row) (ia_chunks a))))"
proof -
  have arts: "distinct (map fst (is_artifacts db))" "artifacts_valid a"
    using inv map_of_SomeD [OF a] by (auto simp add: index_inv_def artifacts_ok_def)
  have "dd_entity_type (document_of v a c) \<noteq> None" if "c \<in> set (ia_chunks a)" for v c
  proof -
    have "sy_entity c \<in> entity_ids a" using arts(2) that by (simp add: artifacts_valid_def Let_def list_all_iff)
    then have "find_by ce_id (sy_entity c) (ia_code a) \<noteq> None \<or> find_by pe_id (sy_entity c) (ia_paper a) \<noteq> None"
      by (auto simp add: entity_ids_def find_by_None_iff)
    then show ?thesis by (auto simp add: document_of_def Let_def split: option.splits)
  qed
  then show ?thesis using view_documents [OF arts(1) a, of "iv_repo row"] view_resolve [OF inv row]
    by (auto simp add: list_documents_def plain_filter_def index_view_def Let_def list_ex_iff)
qed

section \<open>Properties\<close>

definition index_after :: "index_config \<Rightarrow> index_op list \<Rightarrow> index_store" where
  "index_after config ops = fold (index_step config) ops empty_index"

lemma index_after_inv: "index_inv (index_after config ops)"
  using builders.run_inv [OF index_inv_empty, of ops] by (simp add: index_after_def list.pred_True)

lemma index_after_later: "index_later (index_after config ops) (index_after config (ops @ rest))"
  using builders.run_later [OF index_after_inv, of rest config ops] by (simp add: index_after_def list.pred_True)

text \<open>C24. Whatever the builders of the index do, in any order and with any leases, a repository has at most
  one active version and at most one version in building, its pointer names the active one, and
  every published version has artifacts whose references resolve and whose keys are unique.\<close>

theorem one_active_version:
  assumes "db = index_after config ops"
  shows "(\<forall>r\<in>set (is_versions db). \<forall>s\<in>set (is_versions db). iv_repo r = iv_repo s \<and> r \<noteq> s
      \<longrightarrow> \<not> (iv_state r = IxActive \<and> iv_state s = IxActive) \<and> \<not> (in_build r \<and> in_build s))
    \<and> (\<forall>p\<in>set (is_repositories db). \<forall>v. rp_active p = Some v
      \<longleftrightarrow> (\<exists>r\<in>set (is_versions db). iv_repo r = rp_id p \<and> iv_id r = v \<and> iv_state r = IxActive))
    \<and> (\<forall>r\<in>set (is_versions db). iv_state r \<in> {IxActive, IxSuperseded}
      \<longrightarrow> (\<exists>a. map_of (is_artifacts db) (iv_id r) = Some a \<and> artifacts_valid a \<and> artifacts_keyed a))"
proof (intro conjI)
  have inv: "index_inv db" using assms index_after_inv by simp
  show "\<forall>r\<in>set (is_versions db). \<forall>s\<in>set (is_versions db). iv_repo r = iv_repo s \<and> r \<noteq> s
      \<longrightarrow> \<not> (iv_state r = IxActive \<and> iv_state s = IxActive) \<and> \<not> (in_build r \<and> in_build s)"
    using inv unfolding index_inv_def one_def live_def by blast
  show "\<forall>p\<in>set (is_repositories db). \<forall>v. rp_active p = Some v
      \<longleftrightarrow> (\<exists>r\<in>set (is_versions db). iv_repo r = rp_id p \<and> iv_id r = v \<and> iv_state r = IxActive)"
    using inv unfolding index_inv_def pointers_ok_def live_def by metis
  show "\<forall>r\<in>set (is_versions db). iv_state r \<in> {IxActive, IxSuperseded}
      \<longrightarrow> (\<exists>a. map_of (is_artifacts db) (iv_id r) = Some a \<and> artifacts_valid a \<and> artifacts_keyed a)"
  proof (intro ballI impI)
    fix r assume "r \<in> set (is_versions db)" "iv_state r \<in> {IxActive, IxSuperseded}"
    then have "iv_id r \<in> fst ` set (is_artifacts db)" using inv unfolding index_inv_def artifacts_ok_def is_published_def by blast
    then obtain a where a: "map_of (is_artifacts db) (iv_id r) = Some a" by (metis map_of_eq_None_iff not_None_eq)
    then show "\<exists>a. map_of (is_artifacts db) (iv_id r) = Some a \<and> artifacts_valid a \<and> artifacts_keyed a"
      using inv map_of_SomeD [OF a] unfolding index_inv_def artifacts_ok_def by blast
  qed
qed

text \<open>C26. A published version is immutable: whatever the builders do afterwards, it stays active or superseded,
  under the same repository, sequence number and input, with the very same artifacts.\<close>

theorem published_versions_stay:
  assumes "r \<in> set (is_versions (index_after config ops))" "iv_state r \<in> {IxActive, IxSuperseded}"
  shows "(\<exists>s\<in>set (is_versions (index_after config (ops @ rest))). iv_id s = iv_id r \<and> iv_repo s = iv_repo r
      \<and> iv_sequence s = iv_sequence r \<and> iv_input s = iv_input r \<and> iv_state s \<in> {IxActive, IxSuperseded})
    \<and> map_of (is_artifacts (index_after config (ops @ rest))) (iv_id r) = map_of (is_artifacts (index_after config ops)) (iv_id r)"
  using index_after_later [of config ops rest] assms unfolding index_later_def is_published_def by blast

lemma lease_pair:
  assumes inv: "index_inv db" and b1: "begin_version config repo_id ex key name input owner now db = (Inr lease, db1)" "\<not> vl_reused lease"
    and b2: "begin_version config repo_id ex' key' name' input owner' now' db1 = (Inr lease', db2)"
  shows "vl_id lease' = vl_id lease \<and> \<not> vl_reused lease' \<and> vl_owner lease = Some owner \<and> vl_owner lease' = Some owner'
    \<and> (\<exists>row\<in>set (is_versions db2). iv_id row = vl_id lease \<and> iv_state row = IxBuilding \<and> iv_owner row = Some owner')
    \<and> index_inv db2"
proof -
  have inv1: "index_inv db1" using begin_change [OF inv, of config repo_id ex key name input owner now] b1 by simp
  obtain row where row: "row \<in> set (is_versions db1)" "iv_id row = vl_id lease" "iv_repo row = repo_id" "iv_input row = input"
    "iv_state row = IxBuilding" "vl_owner lease = Some owner" using begin_post [OF inv b1(1)] b1(2) by auto
  then have "\<not> is_published row" by (simp add: is_published_def)
  from begin_again [OF inv1 row(1,3,4) this b2] have l: "vl_id lease' = vl_id lease" "\<not> vl_reused lease'" using row(2) by simp_all
  have "index_inv db2" using begin_change [OF inv1, of config repo_id ex' key' name' input owner' now'] b2 by simp
  moreover obtain r where "r \<in> set (is_versions db2)" "iv_id r = vl_id lease'" "iv_state r = IxBuilding" "iv_owner r = Some owner'"
    "vl_owner lease' = Some owner'" using begin_post [OF inv1 b2] l(2) by auto
  ultimately show ?thesis using l row(6) by auto
qed

text \<open>C15. A builder that lost its lease still ends the build of its successor.  When the lease of a build has
  run out and another builder has resumed the version, the first one can no longer make the
  version ready, as its owner does not match.  But \<open>mark_failed\<close>, which it calls for this very
  error, does not look at the owner: after it, the successor cannot make its version ready either.\<close>

theorem lost_lease_fails_successor:
  assumes "begin_version config repo_id ex key name input owner now (index_after config ops) = (Inr lease, db1)" "\<not> vl_reused lease"
    "begin_version config repo_id ex' key' name' input owner' now' db1 = (Inr lease', db2)" "owner \<noteq> owner'"
  shows "mark_ready config lease t db2 = (index_busy, db2) \<and> fst (mark_ready config lease' t db2) = Inr ()
    \<and> mark_ready config lease' t (mark_failed lease code db2) = (index_busy, mark_failed lease code db2)"
proof -
  note p = lease_pair [OF index_after_inv assms(1-3)]
  then obtain row where row: "row \<in> set (is_versions db2)" "iv_id row = vl_id lease" "iv_state row = IxBuilding" "iv_owner row = Some owner'"
    by blast
  have only: "r = row" if "r \<in> set (is_versions db2)" "iv_id r = vl_id lease" for r
    using that unique_row [of db2 r row] p row by simp
  have "mark_ready config lease t db2 = (index_busy, db2)"
    using p only row(4) assms(2,4) by (intro mark_ready_busy) auto
  moreover have "fst (mark_ready config lease' t db2) = Inr ()"
    using p row by (auto simp add: mark_ready_def Let_def list_ex_iff)
  moreover have "mark_ready config lease' t (mark_failed lease code db2) = (index_busy, mark_failed lease code db2)"
    using p assms(2) by (intro mark_ready_busy) (auto simp add: mark_failed_def update_where_def in_build_def)
  ultimately show ?thesis by simp
qed

lemma activate_post:
  assumes inv: "index_inv db" and act: "activate_version lease a now db = (Inr t, db')" "\<not> vl_reused lease"
    and row: "row \<in> set (is_versions db)" "iv_id row = vl_id lease"
  shows "index_inv db' \<and> map_of (is_artifacts db') (vl_id lease) = Some a
    \<and> (\<exists>r\<in>set (is_versions db'). iv_id r = vl_id lease \<and> iv_repo r = iv_repo row \<and> live r)"
proof -
  have "find_by iv_id (vl_id lease) (is_versions db) = Some row"
    using inv row find_by_distinct [of iv_id "is_versions db" row] by (simp add: index_inv_def keys_ok_def)
  then have db': "db' = \<lparr>is_repositories = point_to (iv_repo row) (vl_id lease) (is_repositories db),
      is_versions = publish (iv_repo row) (vl_id lease) (\<lambda>r :: index_version. r\<lparr>iv_state := IxActive, iv_activated := Some now, iv_owner := None,
         iv_expires := None, iv_error_code := None\<rparr>) (is_versions db), is_artifacts = dict_set (vl_id lease) a (is_artifacts db)\<rparr>"
    using act by (auto simp add: activate_version_def index_busy_def publish_def split: if_splits)
  have "index_inv db'" using activate_change [OF inv, of lease a now] act(1) by simp
  moreover have "map_of (is_artifacts db') (vl_id lease) = Some a" by (simp add: db')
  moreover have "\<exists>r\<in>set (is_versions db'). iv_id r = vl_id lease \<and> iv_repo r = iv_repo row \<and> live r"
    using row by (auto simp add: db' Bex_def publish_members live_def retire_facts)
  ultimately show ?thesis by simp
qed

text \<open>C22. From build to search.  When \<open>build_structured_index\<close> returns a lease, a reader that asks for no
  particular version of the repository gets the version of this lease; and when the version was
  not reused, its documents are the chunks that were extracted, joined with their entities and
  sorted by their ids.\<close>

theorem build_reaches_readers:
  assumes "build_index config repo_id ex key name input owner extracted t1 t2 t3 (index_after config ops) = (Inr (lease, t), db')"
  shows "resolve_version (index_view db') repo_id None = Inr (vl_id lease)
    \<and> (vl_reused lease \<or> (\<exists>a. extracted = Inr a \<and> list_documents (index_view db') (plain_filter repo_id (vl_id lease))
        = Inr (sort_key dd_chunk (map (document_of (vl_id lease) a) (filter (\<lambda>c. sy_repo c = repo_id) (ia_chunks a))))))"
proof -
  let ?db = "index_after config ops"
  have inv: "index_inv ?db" by (rule index_after_inv)
  obtain db1 where b: "begin_version config repo_id ex key name input owner t1 ?db = (Inr lease, db1)"
    using assms by (auto simp add: build_index_def Let_def split: prod.splits sum.splits if_splits)
  have inv1: "index_inv db1" using begin_change [OF inv, of config repo_id ex key name input owner t1] b by simp
  obtain row where row: "row \<in> set (is_versions db1)" "iv_id row = vl_id lease" "iv_repo row = repo_id"
    "vl_reused lease \<Longrightarrow> iv_state row = IxActive" using begin_post [OF inv b] by auto
  show ?thesis
  proof (cases "vl_reused lease")
    case True
    then have "db' = db1" using assms b by (simp add: build_index_def)
    then show ?thesis using view_resolve [OF inv1 row(1)] row True by (simp add: live_def)
  next
    case False
    obtain a where a: "extracted = Inr a" using assms b False by (cases extracted) (auto simp add: build_index_def Let_def)
    obtain x db2 where r: "mark_ready config lease t2 db1 = (x, db2)" by (cases "mark_ready config lease t2 db1")
    obtain y db3 where act: "activate_version lease a t3 db2 = (y, db3)" by (cases "activate_version lease a t3 db2")
    have "x = Inr ()" "y = Inr (the t)" "db3 = db'"
      using assms by (auto simp add: build_index_def Let_def b False a r act split: sum.splits)
    note act = act [unfolded this]
    have inv2: "index_inv db2" using mark_ready_change [OF inv1, of config lease t2] r by simp
    obtain row2 where row2: "row2 \<in> set (is_versions db2)" "iv_id row2 = vl_id lease" "iv_repo row2 = repo_id"
      using mark_ready_rows [of row db1 config lease t2] row r by auto
    note post = activate_post [OF inv2 act False row2(1,2)]
    then obtain s where s: "s \<in> set (is_versions db')" "iv_id s = vl_id lease" "iv_repo s = repo_id" "live s" using row2(3) by auto
    have inv': "index_inv db'" and arts: "map_of (is_artifacts db') (iv_id s) = Some a" using post s(2) by simp_all
    show ?thesis using view_resolve [OF inv' s(1,4)] view_list_documents [OF inv' s(1,4) arts] s(2,3) a by simp
  qed
qed

section \<open>Witnesses\<close>

definition demo_entity :: code_entity where
  "demo_entity = \<lparr>ce_id = ''e'', ce_repo = ''r'', ce_type = ''function'', ce_path = ''k.py'', ce_name = ''f'', ce_qualified_name = ''k.f'',
     ce_parent = None, ce_start = Some 1, ce_end = Some 2, ce_content_hash = ''h'', ce_evidence = []\<rparr>"

definition demo_chunk :: symbol_chunk where
  "demo_chunk = \<lparr>sy_id = ''c'', sy_repo = ''r'', sy_entity = ''e'', sy_entity_kind = ''code'', sy_chunk_type = ''source'',
     sy_path = Some ''k.py'', sy_page = None, sy_start = Some 1, sy_end = Some 2, sy_ordinal = 0, sy_text = ''def f'', sy_content_hash = ''h''\<rparr>"

definition demo_artifacts :: index_artifacts where
  "demo_artifacts = no_artifacts\<lparr>ia_files := [''k.py''], ia_code := [demo_entity], ia_chunks := [demo_chunk]\<rparr>"

definition demo_ix_config :: index_config where
  "demo_ix_config = \<lparr>ic_max_retries = 3, ic_lease_seconds = 10\<rparr>"

definition demo_index_id :: string where
  "demo_index_id = index_version_id ''r'' 1 ''i''"

definition demo_lease :: version_lease where
  "demo_lease = \<lparr>vl_id = demo_index_id, vl_sequence = 1, vl_owner = Some ''o'', vl_reused = False, vl_activated = None\<rparr>"

definition demo_version :: index_version where
  "demo_version = \<lparr>iv_id = demo_index_id, iv_repo = ''r'', iv_sequence = 1, iv_input = ''i'', iv_state = IxBuilding, iv_retries = 0,
     iv_owner = Some ''o'', iv_expires = Some 10, iv_error_code = None, iv_activated = None\<rparr>"

definition demo_store :: "index_version \<Rightarrow> index_store" where
  "demo_store r = \<lparr>is_repositories = [\<lparr>rp_id = ''r'', rp_explicit = True, rp_key = Some ''key'', rp_name = ''name'', rp_active = None\<rparr>],
     is_versions = [r], is_artifacts = []\<rparr>"

lemma demo_begin:
  "begin_version demo_ix_config ''r'' True (Some ''key'') ''name'' ''i'' ''o'' 0 empty_index = (Inr demo_lease, demo_store demo_version)"
  by (simp add: begin_version_def upsert_repository_def empty_index_def insert_version_def Let_def next_sequence_def
      demo_lease_def demo_store_def demo_version_def demo_index_id_def demo_ix_config_def insert_by_def)

lemma demo_build:
  "\<exists>db. build_index demo_ix_config ''r'' True (Some ''key'') ''name'' ''i'' ''o'' (Inr demo_artifacts) 0 1 2 empty_index
      = (Inr (demo_lease, Some 2), db) \<and> db = index_after demo_ix_config [BeginVersion ''r'' True (Some ''key'') ''name'' ''i'' ''o'' 0,
        MarkReady demo_lease 1, ActivateVersion demo_lease demo_artifacts 2]
      \<and> (\<exists>r. is_versions db = [r] \<and> iv_state r = IxActive \<and> iv_id r = demo_index_id)"
proof -
  have a: "artifacts_valid demo_artifacts" "artifacts_keyed demo_artifacts"
    by (simp_all add: artifacts_valid_def artifacts_keyed_def demo_artifacts_def no_artifacts_def demo_entity_def demo_chunk_def
        Let_def entity_ids_def evidence_ids_def known_or_absent_def)
  show ?thesis
    by (simp add: build_index_def demo_begin index_after_def mark_ready_def Let_def demo_lease_def demo_store_def
        demo_version_def update_where_def activate_version_def a update_by_def supersede_active_def)
qed

definition demo_index_ops :: "index_op list" where
  "demo_index_ops = [BeginVersion ''r'' True (Some ''key'') ''name'' ''i'' ''o'' 0, MarkReady demo_lease 1,
     ActivateVersion demo_lease demo_artifacts 2]"

lemma demo_active:
  "\<exists>r. is_versions (index_after demo_ix_config demo_index_ops) = [r] \<and> iv_state r = IxActive \<and> iv_id r = demo_index_id"
  using demo_build unfolding demo_index_ops_def by metis

lemma one_active_version_witness:
  "\<exists>r a. r \<in> set (is_versions (index_after demo_ix_config demo_index_ops))
    \<and> map_of (is_artifacts (index_after demo_ix_config demo_index_ops)) (iv_id r) = Some a \<and> artifacts_valid a"
proof -
  obtain r where r: "is_versions (index_after demo_ix_config demo_index_ops) = [r]" "iv_state r = IxActive" using demo_active by blast
  then show ?thesis using one_active_version [OF refl, of demo_ix_config demo_index_ops] by auto
qed

lemma published_versions_stay_witness:
  "\<exists>s\<in>set (is_versions (index_after demo_ix_config (demo_index_ops @ [MarkFailed demo_lease ''late'']))).
     iv_id s = demo_index_id \<and> iv_state s \<in> {IxActive, IxSuperseded}"
proof -
  obtain r where r: "is_versions (index_after demo_ix_config demo_index_ops) = [r]" "iv_state r = IxActive" "iv_id r = demo_index_id"
    using demo_active by blast
  then show ?thesis
    using published_versions_stay [of r demo_ix_config demo_index_ops "[MarkFailed demo_lease ''late'']"] by auto
qed

lemma lost_lease_fails_successor_witness:
  "\<exists>l db. begin_version demo_ix_config ''r'' True (Some ''key'') ''name'' ''i'' ''p'' 20 (demo_store demo_version) = (Inr l, db)
    \<and> mark_ready demo_ix_config demo_lease 21 db = (index_busy, db)
    \<and> fst (mark_ready demo_ix_config l 21 (mark_failed demo_lease ''busy'' db)) = index_busy"
proof -
  obtain l db where b: "begin_version demo_ix_config ''r'' True (Some ''key'') ''name'' ''i'' ''p'' 20 (demo_store demo_version) = (Inr l, db)"
    by (simp add: begin_version_def upsert_repository_def demo_store_def resume_or_reuse_def demo_version_def in_build_def
        lease_expired_def demo_ix_config_def)
  have "begin_version demo_ix_config ''r'' True (Some ''key'') ''name'' ''i'' ''o'' 0 (index_after demo_ix_config [])
      = (Inr demo_lease, demo_store demo_version)" by (simp add: index_after_def demo_begin)
  from lost_lease_fails_successor [OF this _ b] have "mark_ready demo_ix_config demo_lease 21 db = (index_busy, db)
    \<and> mark_ready demo_ix_config l 21 (mark_failed demo_lease ''busy'' db) = (index_busy, mark_failed demo_lease ''busy'' db)"
    by (simp add: demo_lease_def)
  then show ?thesis using b by auto
qed

lemma build_reaches_readers_witness:
  "\<exists>db. build_index demo_ix_config ''r'' True (Some ''key'') ''name'' ''i'' ''o'' (Inr demo_artifacts) 0 1 2 empty_index
      = (Inr (demo_lease, Some 2), db) \<and> resolve_version (index_view db) ''r'' None = Inr demo_index_id
    \<and> list_documents (index_view db) (plain_filter ''r'' demo_index_id) = Inr [document_of demo_index_id demo_artifacts demo_chunk]"
proof -
  obtain db where b: "build_index demo_ix_config ''r'' True (Some ''key'') ''name'' ''i'' ''o'' (Inr demo_artifacts) 0 1 2
      (index_after demo_ix_config []) = (Inr (demo_lease, Some 2), db)"
    using demo_build by (auto simp add: index_after_def)
  from build_reaches_readers [OF this] show ?thesis using b
    by (auto simp add: demo_lease_def demo_artifacts_def no_artifacts_def demo_chunk_def index_after_def)
qed

end
