(* ===== verification/Ev_Schemas.thy ===== *)
theory Ev_Schemas
  imports Ra_Schemas Complex_Main
begin

text \<open>
  The data of the evaluation subsystem (\<open>evaluation/schemas.py\<close>) with the validators of its models, and
  the ids of \<open>evaluation/stable_ids.py\<close>.  Scores are real numbers.  Timestamps are numbers where an
  operation looks at them and left out elsewhere; so are schema versions and provenance.  Of a tool
  call only \<open>str(call.get("tool_name", ""))\<close> is kept, and of a claim its text and whether it is supported.
\<close>

section \<open>Identifiers\<close>

definition eval_hash :: "json \<Rightarrow> string" where
  "eval_hash v = stable_hash (dumps_sorted escape_char_raw (sort_keys v))"

definition eval_id :: "string \<Rightarrow> json \<Rightarrow> string" where
  "eval_id prefix v = prefix @ ''_'' @ take 32 (eval_hash v)"

definition json_opt :: "string option \<Rightarrow> json" where
  "json_opt v = (case v of None \<Rightarrow> JNull | Some s \<Rightarrow> JStr s)"

definition json_strings :: "string list \<Rightarrow> json" where
  "json_strings xs = JArr (map JStr xs)"

section \<open>Enumerations\<close>

datatype eval_component = EvIndex | EvRetrieval | EvAgent | EvAlignment | EvAnswer | EvObservability

primrec component_name :: "eval_component \<Rightarrow> string" where
  "component_name EvIndex = ''index''"
| "component_name EvRetrieval = ''retrieval''"
| "component_name EvAgent = ''agent''"
| "component_name EvAlignment = ''alignment''"
| "component_name EvAnswer = ''answer''"
| "component_name EvObservability = ''observability''"

datatype dataset_split = SplitDev | SplitLockedTest | SplitRegression

primrec split_name :: "dataset_split \<Rightarrow> string" where
  "split_name SplitDev = ''dev''"
| "split_name SplitLockedTest = ''locked_test''"
| "split_name SplitRegression = ''regression''"

datatype dataset_source = HumanAuthored | ConfirmedBadCase | SyntheticFixture

primrec dataset_source_name :: "dataset_source \<Rightarrow> string" where
  "dataset_source_name HumanAuthored = ''human_authored''"
| "dataset_source_name ConfirmedBadCase = ''confirmed_bad_case''"
| "dataset_source_name SyntheticFixture = ''synthetic_fixture''"

datatype eval_mode = OfflineRecompute | DeterministicFixture | LiveExperiment

primrec eval_mode_name :: "eval_mode \<Rightarrow> string" where
  "eval_mode_name OfflineRecompute = ''offline_recompute''"
| "eval_mode_name DeterministicFixture = ''deterministic_fixture''"
| "eval_mode_name LiveExperiment = ''live_experiment''"

datatype eval_status = EvQueued | EvPreparing | EvRunning | EvAggregating | EvComparing
  | EvCompleted | EvPartial | EvFailed | EvCancelled

datatype execution_status = ExecQueued | ExecRunning | ExecCompleted | ExecError | ExecSkipped | ExecCancelled

datatype evaluation_outcome = OutcomePassed | OutcomeFailed | OutcomeNotEvaluable | OutcomeIndeterminate

section \<open>Gold and outcomes\<close>

record index_gold =
  ig_entities :: "string list"
  ig_edges :: "string list"
  ig_evidence :: "string list"
  ig_chunks :: "string list"
  ig_unresolved :: "string list"

record index_outcome =
  io_version :: string
  io_entities :: "string list"
  io_edges :: "string list"
  io_evidence :: "string list"
  io_chunks :: "string list"
  io_unresolved :: "string list"
  io_manifest :: string

record retrieval_gold =
  rg_entities :: "string list"
  rg_chunks :: "string list"
  rg_paths :: "string list list"

record retrieval_outcome =
  ro_entities :: "string list"
  ro_chunks :: "string list"
  ro_paths :: "string list list"
  ro_fallbacks :: "string list"

record agent_gold =
  ag_route :: string
  ag_required :: "string list"
  ag_forbidden :: "string list"
  ag_evidence :: "string list"
  ag_edges :: "string list"
  ag_terminal :: string
  ag_max_calls :: nat

record agent_outcome =
  ao_route :: string
  ao_tools :: "string list"
  ao_evidence :: "string list"
  ao_edges :: "string list"
  ao_terminal :: string

datatype relation_type = Implements | PartiallyImplements | SupportsTraining | SupportsInference | Configures

type_synonym alignment_selection = "string \<times> relation_type"

record alignment_gold =
  lg_profile :: string
  lg_selections :: "alignment_selection list"
  lg_alternatives :: "alignment_selection list list"
  lg_alignable :: bool
  lg_no_implementation :: bool
  lg_paper_evidence :: "string list"
  lg_code_evidence :: "string list"

definition alignment_gold_valid :: "alignment_gold \<Rightarrow> bool" where
  "alignment_gold_valid g \<longleftrightarrow> \<not> (lg_no_implementation g \<and> lg_selections g \<noteq> [])"

record alignment_outcome =
  lo_profile :: string
  lo_candidates :: "string list"
  lo_selections :: "alignment_selection list"
  lo_decision :: string
  lo_paper_evidence :: "string list"
  lo_code_evidence :: "string list"
  lo_probabilities :: "(string \<times> real) list"

record answer_gold =
  wg_points :: "string list"
  wg_forbidden :: "string list"
  wg_evidence :: "string list"
  wg_citation_sets :: "string list list"
  wg_partial :: bool

record answer_outcome =
  wo_points :: "string list"
  wo_claims :: "(string \<times> bool) list"
  wo_citations :: "string list"
  wo_evidence :: "string list"
  wo_partial :: bool

datatype integrity = IntegrityComplete | IntegrityPartial | IntegrityUnknown

record observability_gold =
  bg_operations :: "string list"
  bg_forbidden :: "string list"
  bg_state :: integrity
  bg_flags :: "string list"
  bg_max_drops :: nat
  bg_max_missing :: nat

record observability_outcome =
  bo_operations :: "string list"
  bo_attributes :: "string list"
  bo_state :: integrity
  bo_flags :: "string list"
  bo_drops :: nat
  bo_missing :: nat

datatype gold =
    GoldIndex index_gold
  | GoldRetrieval retrieval_gold
  | GoldAgent agent_gold
  | GoldAlignment alignment_gold
  | GoldAnswer answer_gold
  | GoldObservability observability_gold

datatype outcome_value =
    OutIndex index_outcome
  | OutRetrieval retrieval_outcome
  | OutAgent agent_outcome
  | OutAlignment alignment_outcome
  | OutAnswer answer_outcome
  | OutObservability observability_outcome

primrec gold_component :: "gold \<Rightarrow> eval_component" where
  "gold_component (GoldIndex _) = EvIndex"
| "gold_component (GoldRetrieval _) = EvRetrieval"
| "gold_component (GoldAgent _) = EvAgent"
| "gold_component (GoldAlignment _) = EvAlignment"
| "gold_component (GoldAnswer _) = EvAnswer"
| "gold_component (GoldObservability _) = EvObservability"

primrec outcome_component :: "outcome_value \<Rightarrow> eval_component" where
  "outcome_component (OutIndex _) = EvIndex"
| "outcome_component (OutRetrieval _) = EvRetrieval"
| "outcome_component (OutAgent _) = EvAgent"
| "outcome_component (OutAlignment _) = EvAlignment"
| "outcome_component (OutAnswer _) = EvAnswer"
| "outcome_component (OutObservability _) = EvObservability"

section \<open>Datasets and cases\<close>

datatype dataset_status = VersionDraft | VersionValidating | VersionFrozen | VersionSuperseded | VersionInvalid

datatype adjudication = NotRequired | AdjPending | Agreed | Adjudicated | Disputed

record eval_case =
  ec_id :: string
  ec_family :: string
  ec_version :: string
  ec_split :: dataset_split
  ec_source :: dataset_source
  ec_component :: eval_component
  ec_input_component :: eval_component
  ec_fixture :: string
  ec_repo :: string
  ec_index :: "string option"
  ec_fixture_index :: "string option"
  ec_refs :: "string list"
  ec_gold :: gold
  ec_tags :: "string list"
  ec_annotators :: "string list"
  ec_adjudication :: adjudication
  ec_hash :: string

definition eval_case_valid :: "eval_case \<Rightarrow> bool" where
  "eval_case_valid c \<longleftrightarrow> ec_input_component c = ec_component c \<and> gold_component (ec_gold c) = ec_component c
     \<and> ec_index c = ec_fixture_index c"

record dataset_version =
  dv_id :: string
  dv_dataset :: string
  dv_status :: dataset_status
  dv_parent :: "string option"
  dv_case_count :: nat
  dv_gold_hash :: string
  dv_fixture_hash :: string
  dv_content_hash :: string

section \<open>Results\<close>

record case_result =
  cr_id :: string
  cr_run :: string
  cr_case :: string
  cr_component :: eval_component
  cr_status :: execution_status
  cr_outcome :: "evaluation_outcome option"
  cr_complete :: bool
  cr_incomplete :: "string list"
  cr_error :: "string option"
  cr_failures :: "string list"
  cr_value :: "outcome_value option"
  cr_trace :: "string option"
  cr_latency :: "real option"

definition case_result_valid :: "case_result \<Rightarrow> bool" where
  "case_result_valid r \<longleftrightarrow>
     (cr_status r = ExecError \<longrightarrow> (case cr_error r of None \<Rightarrow> False | Some e \<Rightarrow> e \<noteq> []) \<and> cr_outcome r = None)
     \<and> (cr_status r = ExecCompleted \<longrightarrow> cr_outcome r \<noteq> None)
     \<and> (cr_outcome r = Some OutcomeFailed \<longrightarrow> cr_failures r \<noteq> [])
     \<and> \<not> (cr_outcome r = Some OutcomeIndeterminate \<and> cr_complete r)
     \<and> (case cr_value r of None \<Rightarrow> True | Some v \<Rightarrow> outcome_component v = cr_component r)
     \<and> (case cr_latency r of None \<Rightarrow> True | Some l \<Rightarrow> 0 \<le> l)
     \<and> length (cr_incomplete r) \<le> 100 \<and> length (cr_failures r) \<le> 100"

record metric_result =
  mr_run :: string
  mr_definition :: string
  mr_subgroup :: "(string \<times> string) list"
  mr_value :: "real option"
  mr_numerator :: "real option"
  mr_denominator :: "real option"
  mr_samples :: nat
  mr_complete :: bool
  mr_reasons :: "string list"

section \<open>Comparisons and gates\<close>

datatype compatibility = Compatible | PartiallyCompatible | Incompatible

record comparison_scope =
  sc_common :: "string list"
  sc_excluded_baseline :: "string list"
  sc_excluded_candidate :: "string list"
  sc_comparable :: "string list"
  sc_incomparable :: "string list"
  sc_compatibility :: compatibility
  sc_reasons :: "string list"

record metric_delta =
  md_definition :: string
  md_subgroup :: "(string \<times> string) list"
  md_baseline :: "real option"
  md_candidate :: "real option"
  md_absolute :: "real option"
  md_relative :: "real option"
  md_samples :: nat
  md_complete :: bool

record regression_comparison =
  co_id :: string
  co_binding :: string
  co_baseline :: string
  co_candidate :: string
  co_scope :: comparison_scope
  co_deltas :: "metric_delta list"
  co_subgroup_deltas :: "metric_delta list"

datatype rule_comparison = EqualZero | MinValue | MaxValue | MaxAbsoluteDrop | MaxRelativeDrop

datatype incomplete_policy = PolicyBlock | PolicyWarning | PolicyIgnore

datatype rule_severity = SeverityWarning | SeverityBlock

record gate_rule =
  gr_id :: string
  gr_definition :: string
  gr_scope :: string
  gr_filter :: "(string \<times> string) list"
  gr_comparison :: rule_comparison
  gr_threshold :: real
  gr_min_samples :: nat
  gr_policy :: incomplete_policy
  gr_severity :: rule_severity

definition gate_rule_valid :: "gate_rule \<Rightarrow> bool" where
  "gate_rule_valid r \<longleftrightarrow> (if gr_scope r = ''overall'' then gr_filter r = [] else gr_scope r \<in> fst ` set (gr_filter r))
     \<and> 1 \<le> gr_min_samples r"

record gate_config =
  gc_version :: string
  gc_hard :: "gate_rule list"
  gc_quality :: "gate_rule list"
  gc_performance :: "gate_rule list"
  gc_min_repeats :: "nat option"

datatype rule_verdict = RulePassed | RuleWarning | RuleBlocked | RuleIndeterminate

record rule_result =
  rl_rule :: string
  rl_verdict :: rule_verdict
  rl_samples :: nat
  rl_baseline :: "real option"
  rl_candidate :: "real option"
  rl_reasons :: "string list"

datatype gate_verdict = GatePassed | GateBlocked | GateIndeterminate

record regression_gate =
  rgate_comparison :: string
  rgate_hard :: "rule_result list"
  rgate_quality :: "rule_result list"
  rgate_performance :: "rule_result list"
  rgate_verdict :: gate_verdict
  rgate_reasons :: "string list"

end
