(* ===== verification/Ev_Metrics.thy ===== *)
theory Ev_Metrics
  imports Ev_Schemas
begin

text \<open>
  Judging the outcome of a case (\<open>evaluation/adapter.py\<close>, \<open>evaluation/adapters/components.py\<close>) and the
  metrics of a run (\<open>evaluation/metric_engine.py\<close>).
\<close>

section \<open>Adapters\<close>

definition missing :: "string \<Rightarrow> string list \<Rightarrow> string list \<Rightarrow> string list" where
  "missing kind expected actual = (if set expected \<subseteq> set actual then [] else [kind @ ''_missing''])"

definition flag :: "bool \<Rightarrow> string \<Rightarrow> string list" where
  "flag b code = (if b then [code] else [])"

definition index_failures :: "index_gold \<Rightarrow> index_outcome \<Rightarrow> string list" where
  "index_failures g a = missing ''entity'' (ig_entities g) (io_entities a) @ missing ''edge'' (ig_edges g) (io_edges a)
     @ missing ''evidence'' (ig_evidence g) (io_evidence a) @ missing ''chunk'' (ig_chunks g) (io_chunks a)
     @ flag (\<not> set (io_unresolved a) \<subseteq> set (ig_unresolved g)) ''index_unexpected_unresolved_symbol''"

definition retrieval_failures :: "retrieval_gold \<Rightarrow> retrieval_outcome \<Rightarrow> string list" where
  "retrieval_failures g a = missing ''entity'' (rg_entities g) (ro_entities a) @ missing ''chunk'' (rg_chunks g) (ro_chunks a)
     @ flag (rg_paths g \<noteq> [] \<and> \<not> set (rg_paths g) \<subseteq> set (ro_paths a)) ''retrieval_graph_path_missing''"

definition agent_failures :: "agent_gold \<Rightarrow> agent_outcome \<Rightarrow> string list" where
  "agent_failures g a = flag (ao_route a \<noteq> ag_route g) ''agent_route_mismatch''
     @ flag (\<not> set (ag_required g) \<subseteq> set (ao_tools a)) ''agent_required_tool_missing''
     @ flag (set (ag_forbidden g) \<inter> set (ao_tools a) \<noteq> {}) ''agent_forbidden_tool''
     @ flag (ag_max_calls g < length (ao_tools a)) ''agent_tool_budget_exceeded''
     @ missing ''evidence'' (ag_evidence g) (ao_evidence a) @ missing ''edge'' (ag_edges g) (ao_edges a)
     @ flag (ao_terminal a \<noteq> ag_terminal g) ''agent_terminal_status_mismatch''"

definition alignment_failures :: "alignment_gold \<Rightarrow> alignment_outcome \<Rightarrow> string list" where
  "alignment_failures g a =
     flag (set (lo_selections a) \<noteq> set (lg_selections g) \<and> set (lo_selections a) \<notin> set (map set (lg_alternatives g)))
       ''alignment_selection_mismatch''"

definition answer_failures :: "answer_gold \<Rightarrow> answer_outcome \<Rightarrow> string list" where
  "answer_failures g a = missing ''answer_point'' (wg_points g) (wo_points a) @ missing ''evidence'' (wg_evidence g) (wo_evidence a)
     @ flag (set (wg_forbidden g) \<inter> fst ` set (wo_claims a) \<noteq> {}) ''answer_forbidden_claim''
     @ flag (wo_partial a \<noteq> wg_partial g) ''answer_partial_mismatch''"

definition observability_failures :: "observability_gold \<Rightarrow> observability_outcome \<Rightarrow> string list" where
  "observability_failures g a = missing ''operation'' (bg_operations g) (bo_operations a)
     @ flag (set (bg_forbidden g) \<inter> set (bo_attributes a) \<noteq> {}) ''observability_forbidden_attribute''
     @ flag (bo_state a \<noteq> bg_state g) ''observability_completeness_mismatch''
     @ flag (\<not> set (bo_flags a) \<subseteq> set (bg_flags g)) ''observability_unexpected_integrity_flag''
     @ flag (bg_max_drops g < bo_drops a) ''observability_drop_exceeded''
     @ flag (bg_max_missing g < bo_missing a) ''observability_missing_span_exceeded''"

fun as_index where "as_index (GoldIndex g) = Some g" | "as_index _ = None"
fun as_retrieval where "as_retrieval (GoldRetrieval g) = Some g" | "as_retrieval _ = None"
fun as_agent where "as_agent (GoldAgent g) = Some g" | "as_agent _ = None"
fun as_alignment where "as_alignment (GoldAlignment g) = Some g" | "as_alignment _ = None"
fun as_answer where "as_answer (GoldAnswer g) = Some g" | "as_answer _ = None"
fun as_observability where "as_observability (GoldObservability g) = Some g" | "as_observability _ = None"
fun out_index where "out_index (OutIndex a) = Some a" | "out_index _ = None"
fun out_retrieval where "out_retrieval (OutRetrieval a) = Some a" | "out_retrieval _ = None"
fun out_agent where "out_agent (OutAgent a) = Some a" | "out_agent _ = None"
fun out_alignment where "out_alignment (OutAlignment a) = Some a" | "out_alignment _ = None"
fun out_answer where "out_answer (OutAnswer a) = Some a" | "out_answer _ = None"
fun out_observability where "out_observability (OutObservability a) = Some a" | "out_observability _ = None"

text \<open>The adapter of a component asserts the types of gold and outcome: \<open>None\<close> is the failed assertion.\<close>

definition judge :: "(gold \<Rightarrow> 'g option) \<Rightarrow> (outcome_value \<Rightarrow> 'o option) \<Rightarrow> ('g \<Rightarrow> 'o \<Rightarrow> string list) \<Rightarrow> gold \<Rightarrow> outcome_value
    \<Rightarrow> string list option" where
  "judge gold_of out_of f g v = (case (gold_of g, out_of v) of (Some a, Some b) \<Rightarrow> Some (f a b) | _ \<Rightarrow> None)"

primrec quality_failures :: "eval_component \<Rightarrow> gold \<Rightarrow> outcome_value \<Rightarrow> string list option" where
  "quality_failures EvIndex g v = judge as_index out_index index_failures g v"
| "quality_failures EvRetrieval g v = judge as_retrieval out_retrieval retrieval_failures g v"
| "quality_failures EvAgent g v = judge as_agent out_agent agent_failures g v"
| "quality_failures EvAlignment g v = judge as_alignment out_alignment alignment_failures g v"
| "quality_failures EvAnswer g v = judge as_answer out_answer answer_failures g v"
| "quality_failures EvObservability g v = judge as_observability out_observability observability_failures g v"

text \<open>
  The environment of an execution: what preparing the case gives, and the outcome that a fixed
  outcome, an executor or a prediction artifact supplies (\<open>None\<close> when there is none).
\<close>

datatype exec_failure = ResolverFailure string | OtherFailure "string option"

type_synonym case_environment = "(exec_failure + unit) \<times> (exec_failure + outcome_value option) \<times> real"

definition make_result ::
    "string \<Rightarrow> eval_case \<Rightarrow> real \<Rightarrow> execution_status \<Rightarrow> evaluation_outcome option \<Rightarrow> outcome_value option \<Rightarrow> bool
     \<Rightarrow> string list \<Rightarrow> string option \<Rightarrow> string list \<Rightarrow> case_result" where
  "make_result run c latency status out v full incomplete err failures =
     \<lparr>cr_id = eval_id ''result'' (json_strings [run, ec_id c]), cr_run = run, cr_case = ec_id c, cr_component = ec_component c,
      cr_status = status, cr_outcome = out, cr_complete = full, cr_incomplete = incomplete, cr_error = err, cr_failures = failures,
      cr_value = v, cr_trace = None, cr_latency = Some latency\<rparr>"

definition failure_result :: "string \<Rightarrow> eval_case \<Rightarrow> real \<Rightarrow> exec_failure \<Rightarrow> case_result" where
  "failure_result run c latency e =
     (case e of
        ResolverFailure code \<Rightarrow> make_result run c latency ExecCompleted (Some OutcomeIndeterminate) None False [code] None []
      | OtherFailure code \<Rightarrow> make_result run c latency ExecError None None False [''execution_error'']
          (Some (case code of None \<Rightarrow> ''evaluation_adapter_error'' | Some x \<Rightarrow> x)) [])"

definition execute_case :: "string \<Rightarrow> eval_case \<Rightarrow> case_environment \<Rightarrow> case_result" where
  "execute_case run c env =
     (case env of (prepared, supplied, latency) \<Rightarrow>
        (case prepared of
           Inl e \<Rightarrow> failure_result run c latency e
         | Inr _ \<Rightarrow>
             (case supplied of
                Inl e \<Rightarrow> failure_result run c latency e
              | Inr None \<Rightarrow> make_result run c latency ExecCompleted (Some OutcomeNotEvaluable) None True [] None []
              | Inr (Some v) \<Rightarrow>
                  (case quality_failures (ec_component c) (ec_gold c) v of
                     None \<Rightarrow> failure_result run c latency (OtherFailure None)
                   | Some failures \<Rightarrow> make_result run c latency ExecCompleted
                       (Some (if failures = [] then OutcomePassed else OutcomeFailed)) (Some v) True [] None failures))))"

section \<open>Scores of one case\<close>

definition ratio :: "real \<Rightarrow> nat \<Rightarrow> real option" where
  "ratio n d = (if d = 0 then None else Some (n / real d))"

definition mean_of :: "real list \<Rightarrow> real option" where
  "mean_of xs = (if xs = [] then None else Some (sum_list xs / real (length xs)))"

definition recall_at :: "string list \<Rightarrow> string set \<Rightarrow> nat \<Rightarrow> real" where
  "recall_at ranking g k = (if g = {} then 1 else real (card (set (take k ranking) \<inter> g)) / real (card g))"

definition set_recall :: "string list \<Rightarrow> string list \<Rightarrow> real" where
  "set_recall found g = (if set g = {} then 1 else real (card (set found \<inter> set g)) / real (card (set g)))"

definition path_recall :: "string list list \<Rightarrow> string list list \<Rightarrow> real" where
  "path_recall found g = (if set g = {} then 1 else real (card (set g \<inter> set found)) / real (card (set g)))"

definition reciprocal_rank :: "string list \<Rightarrow> string set \<Rightarrow> real" where
  "reciprocal_rank ranking g =
     (case List.find (\<lambda>(i, x). x \<in> g) (enumerate 1 ranking) of None \<Rightarrow> 0 | Some (i, _) \<Rightarrow> 1 / real i)"

definition discount :: "nat \<Rightarrow> real" where
  "discount i = 1 / log 2 (real (i + 1))"

definition ndcg :: "string list \<Rightarrow> string set \<Rightarrow> nat \<Rightarrow> real" where
  "ndcg ranking g k =
     (if g = {} then 1
      else let score = sum_list (map (\<lambda>(i, x). if x \<in> g then discount i else 0) (enumerate 1 (take k ranking)));
               ideal = sum_list (map discount [1..<min (card g) k + 1])
           in if ideal = 0 then 0 else score / ideal)"

definition f1 :: "alignment_selection set \<Rightarrow> alignment_selection set \<Rightarrow> real" where
  "f1 found g =
     (if found = {} \<and> g = {} then 1
      else let overlap = real (card (found \<inter> g));
               precision = (if found = {} then 0 else overlap / real (card found));
               recall = (if g = {} then 0 else overlap / real (card g))
           in if precision + recall = 0 then 0 else 2 * precision * recall / (precision + recall))"

definition in_bin :: "nat \<Rightarrow> nat \<Rightarrow> real \<Rightarrow> bool" where
  "in_bin bins i p \<longleftrightarrow> real i / real bins \<le> p
     \<and> (if i = bins - 1 then p \<le> real (i + 1) / real bins else p < real (i + 1) / real bins)"

definition bin_score :: "nat \<Rightarrow> (real \<times> real) list \<Rightarrow> real" where
  "bin_score size_all members =
     (if members = [] then 0
      else real (length members) / real size_all
        * \<bar>sum_list (map fst members) / real (length members) - sum_list (map snd members) / real (length members)\<bar>)"

definition ece :: "(real \<times> real) list \<Rightarrow> nat \<Rightarrow> real option" where
  "ece pairs bins =
     (if pairs = [] then None
      else Some (sum_list (map (\<lambda>i. bin_score (length pairs) (filter (\<lambda>(p, l). in_bin bins i p) pairs)) [0..<bins])))"

section \<open>The metrics of a group of results\<close>

text \<open>Name, value, numerator, denominator, completeness and reasons.\<close>

type_synonym metric_value = "string \<times> real option \<times> real option \<times> real option \<times> bool \<times> string list"

definition evaluable :: "case_result list \<Rightarrow> case_result list" where
  "evaluable rows = filter (\<lambda>r. cr_status r = ExecCompleted \<and> (cr_outcome r = Some OutcomePassed \<or> cr_outcome r = Some OutcomeFailed)) rows"

definition rows_complete :: "case_result list \<Rightarrow> bool" where
  "rows_complete rows \<longleftrightarrow> length (evaluable rows) = length rows \<and> list_all cr_complete rows"

definition row_reasons :: "case_result list \<Rightarrow> string list" where
  "row_reasons rows = (if rows_complete rows then [] else [''incomplete_or_not_evaluable_case''])"

definition ratio_value :: "case_result list \<Rightarrow> string \<Rightarrow> nat \<Rightarrow> nat \<Rightarrow> metric_value" where
  "ratio_value rows name n d = (name, ratio (real n) d, Some (real n), Some (real d), rows_complete rows, row_reasons rows)"

definition mean_value :: "case_result list \<Rightarrow> string \<Rightarrow> real list \<Rightarrow> metric_value" where
  "mean_value rows name xs = (name, mean_of xs, Some (sum_list xs), Some (real (length xs)), rows_complete rows, row_reasons rows)"

definition count_value :: "case_result list \<Rightarrow> string \<Rightarrow> nat \<Rightarrow> metric_value" where
  "count_value rows name n = (name, Some (real n), Some (real n), Some (real (length rows)), rows_complete rows, row_reasons rows)"

definition count :: "('a \<Rightarrow> bool) \<Rightarrow> 'a list \<Rightarrow> nat" where
  "count P xs = length (filter P xs)"

definition typed :: "(gold \<Rightarrow> 'g option) \<Rightarrow> (outcome_value \<Rightarrow> 'o option) \<Rightarrow> (string \<Rightarrow> eval_case option) \<Rightarrow> case_result list
    \<Rightarrow> ('g \<times> 'o \<times> case_result) list" where
  "typed gold_of out_of cases rows = List.map_filter (\<lambda>r.
     case (cases (cr_case r), cr_value r) of
       (Some c, Some v) \<Rightarrow> (case (gold_of (ec_gold c), out_of v) of (Some g, Some o') \<Rightarrow> Some (g, o', r) | _ \<Rightarrow> None)
     | _ \<Rightarrow> None) rows"

definition passed_value :: "string \<Rightarrow> case_result list \<Rightarrow> metric_value" where
  "passed_value name rows = ratio_value rows name (count (\<lambda>r. cr_outcome r = Some OutcomePassed) (evaluable rows)) (length (evaluable rows))"

definition index_values :: "(string \<Rightarrow> eval_case option) \<Rightarrow> case_result list \<Rightarrow> metric_value list" where
  "index_values cases rows = (let ps = typed as_index out_index cases (evaluable rows) in
     [passed_value ''case_pass_rate'' rows,
      mean_value rows ''entity_recall'' (map (\<lambda>(g, a, _). set_recall (io_entities a) (ig_entities g)) ps),
      mean_value rows ''edge_recall'' (map (\<lambda>(g, a, _). set_recall (io_edges a) (ig_edges g)) ps),
      mean_value rows ''evidence_recall'' (map (\<lambda>(g, a, _). set_recall (io_evidence a) (ig_evidence g)) ps),
      mean_value rows ''chunk_recall'' (map (\<lambda>(g, a, _). set_recall (io_chunks a) (ig_chunks g)) ps)])"

definition agent_values :: "(string \<Rightarrow> eval_case option) \<Rightarrow> case_result list \<Rightarrow> metric_value list" where
  "agent_values cases rows = (let ps = typed as_agent out_agent cases (evaluable rows); d = length (evaluable rows) in
     [passed_value ''task_success'' rows,
      count_value rows ''invalid_tool_call'' (count (\<lambda>r. ''agent_forbidden_tool'' \<in> set (cr_failures r)) rows),
      ratio_value rows ''route_accuracy'' (count (\<lambda>(g, a, _). ao_route a = ag_route g) ps) d,
      ratio_value rows ''tool_selection_accuracy'' (count (\<lambda>(g, a, _). set (ag_required g) \<subseteq> set (ao_tools a)
        \<and> set (ag_forbidden g) \<inter> set (ao_tools a) = {}) ps) d,
      ratio_value rows ''evidence_sufficiency'' (count (\<lambda>(g, a, _). set (ag_evidence g) \<subseteq> set (ao_evidence a)) ps) d,
      ratio_value rows ''budget_compliance'' (count (\<lambda>(g, a, _). length (ao_tools a) \<le> ag_max_calls g) ps) d])"

definition allowed_citations :: "answer_gold \<Rightarrow> string set" where
  "allowed_citations g = set (concat (wg_citation_sets g))"

definition valid_citations :: "answer_gold \<Rightarrow> answer_outcome \<Rightarrow> nat" where
  "valid_citations g a = (if allowed_citations g = {} then length (wo_citations a)
     else count (\<lambda>x. x \<in> allowed_citations g) (wo_citations a))"

definition answer_values :: "(string \<Rightarrow> eval_case option) \<Rightarrow> case_result list \<Rightarrow> metric_value list" where
  "answer_values cases rows = (let ps = typed as_answer out_answer cases (evaluable rows);
       coverages = map (\<lambda>(g, a, _). set_recall (wo_points a) (wg_points g)) ps in
     [passed_value ''case_pass_rate'' rows, mean_value rows ''claim_coverage'' coverages, mean_value rows ''answer_completeness'' coverages,
      ratio_value rows ''supported_claim_rate'' (sum_list (map (\<lambda>(_, a, _). count snd (wo_claims a)) ps))
        (sum_list (map (\<lambda>(_, a, _). length (wo_claims a)) ps)),
      ratio_value rows ''citation_validity'' (sum_list (map (\<lambda>(g, a, _). valid_citations g a) ps))
        (sum_list (map (\<lambda>(_, a, _). length (wo_citations a)) ps))])"

definition ranking_of :: "retrieval_outcome \<Rightarrow> string list" where
  "ranking_of a = ro_entities a @ ro_chunks a"

definition retrieval_gold_set :: "retrieval_gold \<Rightarrow> string set" where
  "retrieval_gold_set g = set (rg_entities g @ rg_chunks g)"

definition retrieval_values :: "(string \<Rightarrow> eval_case option) \<Rightarrow> case_result list \<Rightarrow> metric_value list" where
  "retrieval_values cases rows = (let ps = typed as_retrieval out_retrieval cases (evaluable rows); d = length (evaluable rows);
       recalls = (\<lambda>k. map (\<lambda>(g, a, _). recall_at (ranking_of a) (retrieval_gold_set g) k) ps) in
     [mean_value rows ''recall_at_1'' (recalls 1), mean_value rows ''recall_at_5'' (recalls 5),
      mean_value rows ''recall_at_10'' (recalls 10), mean_value rows ''recall_at_20'' (recalls 20),
      mean_value rows ''mrr'' (map (\<lambda>(g, a, _). reciprocal_rank (ranking_of a) (retrieval_gold_set g)) ps),
      mean_value rows ''ndcg_at_10'' (map (\<lambda>(g, a, _). ndcg (ranking_of a) (retrieval_gold_set g) 10) ps),
      ratio_value rows ''empty_rate'' (count (\<lambda>(g, a, _). ranking_of a = []) ps) d,
      mean_value rows ''graph_path_recall'' (map (\<lambda>(g, a, _). path_recall (ro_paths a) (rg_paths g)) ps),
      ratio_value rows ''fallback_rate'' (count (\<lambda>(g, a, _). ro_fallbacks a \<noteq> []) ps) d,
      mean_value rows ''latency_ms'' (List.map_filter (\<lambda>(_, _, r). cr_latency r) ps)])"

definition evidence_share :: "alignment_gold \<Rightarrow> alignment_outcome \<Rightarrow> real" where
  "evidence_share g a = set_recall (lo_paper_evidence a @ lo_code_evidence a) (lg_paper_evidence g @ lg_code_evidence g)"

definition labelled :: "alignment_gold \<Rightarrow> alignment_outcome \<Rightarrow> (real \<times> real) list" where
  "labelled g a = map (\<lambda>(i, p). (p, if i \<in> fst ` set (lg_selections g) then 1 else 0)) (lo_probabilities a)"

definition calibration_value :: "case_result list \<Rightarrow> string \<Rightarrow> real option \<Rightarrow> nat \<Rightarrow> metric_value" where
  "calibration_value rows name v n = (name, v, None, Some (real n), rows_complete rows \<and> n \<noteq> 0,
     if row_reasons rows \<noteq> [] then row_reasons rows else if n = 0 then [''no_probability_labels''] else [])"

definition alignment_values :: "(string \<Rightarrow> eval_case option) \<Rightarrow> case_result list \<Rightarrow> metric_value list" where
  "alignment_values cases rows = (let ps = typed as_alignment out_alignment cases (evaluable rows);
       exact = (\<lambda>(g, a, r :: case_result). set (lo_selections a) = set (lg_selections g));
       accepted = filter (\<lambda>(g, a, _). lo_decision a = ''accepted'') ps;
       abstained = filter (\<lambda>(g, a, _). lo_decision a = ''abstained'' \<or> lo_decision a = ''needs_review'') ps;
       none = filter (\<lambda>(g, a, _). lo_decision a = ''no_implementation'') ps;
       labels = concat (map (\<lambda>(g, a, _). labelled g a) ps) in
     [mean_value rows ''candidate_recall_at_20'' (map (\<lambda>(g, a, _). recall_at (lo_candidates a) (fst ` set (lg_selections g)) 20) ps),
      mean_value rows ''pair_f1'' (map (\<lambda>(g, a, _). f1 (set (lo_selections a)) (set (lg_selections g))) ps),
      mean_value rows ''exact_set'' (map (\<lambda>p. if exact p then 1 else 0) ps),
      ratio_value rows ''selective_accuracy'' (count exact accepted) (length accepted),
      ratio_value rows ''coverage'' (length accepted) (length (evaluable rows)),
      ratio_value rows ''abstention_accuracy'' (count (\<lambda>(g, _, _). \<not> lg_alignable g) abstained) (length abstained),
      ratio_value rows ''no_implementation_accuracy'' (count (\<lambda>(g, _, _). lg_no_implementation g) none) (length none),
      mean_value rows ''evidence_recall'' (map (\<lambda>(g, a, _). evidence_share g a) ps),
      calibration_value rows ''brier'' (mean_of (map (\<lambda>(p, l). (p - l) ^ 2) labels)) (length labels),
      calibration_value rows ''ece'' (ece labels 10) (length labels)])"

definition observability_values :: "case_result list \<Rightarrow> metric_value list" where
  "observability_values rows = (let os = List.map_filter (\<lambda>r. Option.bind (cr_value r) out_observability) (evaluable rows);
       leaks = count (\<lambda>r. ''observability_forbidden_attribute'' \<in> set (cr_failures r)) rows in
     [ratio_value rows ''trace_completeness'' (count (\<lambda>a. bo_state a = IntegrityComplete) os) (length os),
      ratio_value rows ''integrity_flag_rate'' (count (\<lambda>a. bo_flags a \<noteq> []) os) (length os),
      mean_value rows ''missing_span_rate'' (map (\<lambda>a. real (bo_missing a)) os),
      ratio_value rows ''link_validity'' (count (\<lambda>r. ''observability_link_missing'' \<notin> set (cr_failures r)) rows) (length rows),
      ratio_value rows ''redaction_validity'' (length rows - leaks) (length rows),
      mean_value rows ''drop_rate'' (map (\<lambda>a. real (bo_drops a)) os),
      count_value rows ''secret_leak'' leaks])"

primrec metric_values :: "eval_component \<Rightarrow> (string \<Rightarrow> eval_case option) \<Rightarrow> case_result list \<Rightarrow> metric_value list" where
  "metric_values EvIndex cases rows = index_values cases rows"
| "metric_values EvAgent cases rows = agent_values cases rows"
| "metric_values EvAnswer cases rows = answer_values cases rows"
| "metric_values EvRetrieval cases rows = retrieval_values cases rows"
| "metric_values EvAlignment cases rows = alignment_values cases rows"
| "metric_values EvObservability cases rows = observability_values rows"

section \<open>The metrics of a run\<close>

definition metric_specs :: "(eval_component \<times> string list) list" where
  "metric_specs =
     [(EvIndex, [''case_pass_rate'', ''entity_recall'', ''edge_recall'', ''evidence_recall'', ''chunk_recall'']),
      (EvRetrieval, [''recall_at_1'', ''recall_at_5'', ''recall_at_10'', ''recall_at_20'', ''mrr'', ''ndcg_at_10'', ''empty_rate'',
         ''graph_path_recall'', ''fallback_rate'', ''latency_ms'']),
      (EvAgent, [''task_success'', ''route_accuracy'', ''tool_selection_accuracy'', ''evidence_sufficiency'', ''budget_compliance'',
         ''invalid_tool_call'']),
      (EvAlignment, [''candidate_recall_at_20'', ''pair_f1'', ''exact_set'', ''selective_accuracy'', ''coverage'', ''abstention_accuracy'',
         ''no_implementation_accuracy'', ''evidence_recall'', ''brier'', ''ece'']),
      (EvAnswer, [''case_pass_rate'', ''claim_coverage'', ''supported_claim_rate'', ''citation_validity'', ''answer_completeness'']),
      (EvObservability, [''trace_completeness'', ''integrity_flag_rate'', ''missing_span_rate'', ''link_validity'', ''redaction_validity'',
         ''drop_rate'', ''secret_leak'', ''recorder_overhead_ms''])]"

definition metric_definition_id :: "eval_component \<Rightarrow> string \<Rightarrow> string" where
  "metric_definition_id c name = eval_id ''metric'' (JObj [(''component'', JStr (component_name c)), (''name'', JStr name), (''version'', JStr ''1'')])"

definition default_metric_definitions :: "((eval_component \<times> string) \<times> string) list" where
  "default_metric_definitions = concat (map (\<lambda>(c, names). map (\<lambda>n. ((c, n), metric_definition_id c n)) names) metric_specs)"

text \<open>Groups in the order of their first result: \<open>defaultdict(list)\<close>.\<close>

type_synonym metric_group = "eval_component \<times> (string \<times> string) list"

definition add_row :: "case_result \<Rightarrow> metric_group \<Rightarrow> (metric_group \<times> case_result list) list \<Rightarrow> (metric_group \<times> case_result list) list" where
  "add_row r key groups = dict_set key ((case map_of groups key of None \<Rightarrow> [] | Some rows \<Rightarrow> rows) @ [r]) groups"

definition group_keys :: "eval_component \<Rightarrow> eval_case \<Rightarrow> metric_group list" where
  "group_keys component c = [(component, []), (component, [(''split'', split_name (ec_split c))]),
     (component, [(''source'', dataset_source_name (ec_source c))]), (component, [(''repo'', ec_repo c)])]
     @ map (\<lambda>t. (component, [(''tag'', t)])) (ec_tags c)"

definition add_result :: "(string \<Rightarrow> eval_case option) \<Rightarrow> case_result \<Rightarrow> (metric_group \<times> case_result list) list
    \<Rightarrow> (metric_group \<times> case_result list) list" where
  "add_result cases r groups =
     (case cases (cr_case r) of None \<Rightarrow> groups | Some c \<Rightarrow> fold (add_row r) (group_keys (cr_component r) c) groups)"

definition case_table :: "eval_case list \<Rightarrow> string \<Rightarrow> eval_case option" where
  "case_table cases = map_of (rev (map (\<lambda>c. (ec_id c, c)) cases))"

definition group_metrics ::
    "((eval_component \<times> string) \<times> string) list \<Rightarrow> string \<Rightarrow> (string \<Rightarrow> eval_case option) \<Rightarrow> metric_group \<times> case_result list
     \<Rightarrow> metric_result list" where
  "group_metrics definitions run cases grp =
     (case grp of ((component, subgroup), rows) \<Rightarrow>
        List.map_filter (\<lambda>(name, v, n, d, full, reasons).
          case map_of definitions (component, name) of
            None \<Rightarrow> None
          | Some i \<Rightarrow> Some \<lparr>mr_run = run, mr_definition = i, mr_subgroup = subgroup, mr_value = v, mr_numerator = n, mr_denominator = d,
              mr_samples = (case d of None \<Rightarrow> length rows | Some x \<Rightarrow> nat \<lfloor>x\<rfloor>), mr_complete = full, mr_reasons = reasons\<rparr>)
          (metric_values component cases rows))"

definition compute_metrics :: "string \<Rightarrow> eval_case list \<Rightarrow> case_result list \<Rightarrow> metric_result list" where
  "compute_metrics run cases results =
     concat (map (group_metrics default_metric_definitions run (case_table cases))
       (fold (add_result (case_table cases)) results []))"

end
