(* ===== verification/Ev_Metrics_Props.thy ===== *)
theory Ev_Metrics_Props
  imports Ev_Metrics
begin

text \<open>
  Every execution of a case gives a result that its schema accepts, and the scores are scores: they lie
  between 0 and 1.
\<close>

section \<open>Executions\<close>

lemma judge_component:
  "quality_failures c g v = Some fs \<Longrightarrow> outcome_component v = c \<and> gold_component g = c"
  by (cases c; cases g; cases v) (simp_all add: judge_def)

lemma length_missing: "length (missing k e a) \<le> 1"
  by (simp add: missing_def)

lemma length_flag: "length (flag b c) \<le> 1"
  by (simp add: flag_def)

lemma length_failures: "quality_failures c g v = Some fs \<Longrightarrow> length fs \<le> 7"
  using length_missing length_flag
  by (cases c; cases g; cases v)
    (auto simp add: judge_def index_failures_def retrieval_failures_def agent_failures_def alignment_failures_def
      answer_failures_def observability_failures_def missing_def flag_def)

text \<open>C21. Whatever preparing the case, its executor and its adapter do, also when they raise, the execution of a
  case ends in one result that passes the validator of the schema.  It passes exactly for an outcome
  of the right kind without quality failures, it is an error exactly when something other than the
  artifact resolver raised or the outcome has the wrong kind, and only these two kinds of result
  count as evaluated: a missing artifact makes it indeterminate, no outcome not evaluable.\<close>

theorem execution_result_valid:
  assumes "0 \<le> latency" "prepared \<noteq> Inl (OtherFailure (Some []))" "supplied \<noteq> Inl (OtherFailure (Some []))"
    "r = execute_case run c (prepared, supplied, latency)"
  shows "case_result_valid r \<and> cr_run r = run \<and> cr_case r = ec_id c
    \<and> (cr_outcome r = Some OutcomePassed \<longleftrightarrow>
        (\<exists>u v. prepared = Inr u \<and> supplied = Inr (Some v) \<and> quality_failures (ec_component c) (ec_gold c) v = Some []))
    \<and> (cr_status r = ExecError \<longleftrightarrow> (case prepared of Inl e \<Rightarrow> \<exists>x. e = OtherFailure x
        | Inr _ \<Rightarrow> (case supplied of Inl e \<Rightarrow> \<exists>x. e = OtherFailure x | Inr None \<Rightarrow> False
             | Inr (Some v) \<Rightarrow> quality_failures (ec_component c) (ec_gold c) v = None)))
    \<and> (evaluable [r] = [r] \<longleftrightarrow> cr_value r \<noteq> None) \<and> (cr_complete r \<longleftrightarrow> cr_status r = ExecCompleted \<and> cr_outcome r \<noteq> Some OutcomeIndeterminate)"
proof (cases prepared)
  case (Inl e)
  then show ?thesis using assms(1,2)
    by (cases e) (auto simp add: assms(4) execute_case_def failure_result_def make_result_def case_result_valid_def evaluable_def
        split: option.splits)
next
  case p: (Inr u)
  show ?thesis
  proof (cases supplied)
    case (Inl e)
    then show ?thesis using assms(1,3) p
      by (cases e) (auto simp add: assms(4) execute_case_def failure_result_def make_result_def case_result_valid_def evaluable_def
        split: option.splits)
  next
    case s: (Inr w)
    show ?thesis
    proof (cases w)
      case None
      then show ?thesis using assms(1) p s
        by (simp add: assms(4) execute_case_def make_result_def case_result_valid_def evaluable_def)
    next
      case v: (Some v)
      show ?thesis
      proof (cases "quality_failures (ec_component c) (ec_gold c) v")
        case None
        then show ?thesis using assms(1) p s v
          by (simp add: assms(4) execute_case_def failure_result_def make_result_def case_result_valid_def evaluable_def)
      next
        case (Some fs)
        then have "outcome_component v = ec_component c" "length fs \<le> 100" using judge_component length_failures by fastforce+
        then show ?thesis using assms(1) p s v Some
          by (simp add: assms(4) execute_case_def make_result_def case_result_valid_def evaluable_def)
      qed
    qed
  qed
qed

section \<open>Scores\<close>

definition unit :: "real \<Rightarrow> bool" where
  "unit x \<longleftrightarrow> 0 \<le> x \<and> x \<le> 1"

named_theorems unit_intros

lemma unit_share [unit_intros]: "n \<le> d \<Longrightarrow> unit (real n / real d)"
  by (auto simp add: unit_def divide_le_eq_1)

lemma card_share [unit_intros]: "finite g \<Longrightarrow> unit (real (card (s \<inter> g)) / real (card g))"
  by (intro unit_share card_mono) auto

lemma unit_recall [unit_intros]: "finite g \<Longrightarrow> unit (recall_at ranking g k)"
  using card_share [of g "set (take k ranking)"] by (simp add: recall_at_def unit_def)

lemma unit_set_recall [unit_intros]: "unit (set_recall found g)"
  using card_share [of "set g" "set found"] by (simp add: set_recall_def unit_def)

lemma unit_path_recall [unit_intros]: "unit (path_recall found g)"
  using card_share [of "set g" "set found"] by (simp add: path_recall_def unit_def Int_commute)

lemma unit_reciprocal [unit_intros]: "unit (reciprocal_rank ranking g)"
proof (cases "List.find (\<lambda>(i, x). x \<in> g) (enumerate 1 ranking)")
  case None
  then show ?thesis by (simp add: reciprocal_rank_def unit_def)
next
  case (Some p)
  obtain i x where p: "p = (i, x)" by (cases p)
  have "(i, x) \<in> set (enumerate 1 ranking)" using Some p by (auto dest: find_SomeD)
  then have "1 \<le> i" by (auto simp add: in_set_enumerate_eq)
  then show ?thesis using Some p by (simp add: reciprocal_rank_def unit_def)
qed

lemma unit_f1 [unit_intros]:
  assumes "finite found" "finite g"
  shows "unit (f1 found g)"
proof -
  have "0 \<le> 2 * p * r / (p + r) \<and> 2 * p * r / (p + r) \<le> 1" if "unit p" "unit r" "p + r \<noteq> 0" for p r :: real
  proof -
    have "p * r \<le> p" "p * r \<le> r" "0 \<le> p * r"
      using that(1,2) mult_left_le [of r p] mult_left_le [of p r] by (auto simp add: unit_def mult.commute)
    moreover have "0 < p + r" using that by (auto simp add: unit_def)
    ultimately show ?thesis by (auto simp add: divide_simps)
  qed
  moreover have "unit (if found = {} then 0 else real (card (found \<inter> g)) / real (card found))"
    using card_share [OF assms(1), of g] by (simp add: Int_commute unit_def)
  moreover have "unit (if g = {} then 0 else real (card (found \<inter> g)) / real (card g))"
    using card_share [OF assms(2), of found] by (simp add: unit_def)
  ultimately show ?thesis unfolding f1_def Let_def unit_def by (simp split del: if_split) (auto split: if_splits)
qed

section \<open>Discounted gain\<close>

lemma discount_pos: "1 \<le> i \<Longrightarrow> 0 < discount i"
  by (simp add: discount_def)

lemma discount_nonneg: "0 \<le> discount i"
  by (simp add: discount_def)

lemma discount_antimono: "1 \<le> i \<Longrightarrow> i \<le> j \<Longrightarrow> discount j \<le> discount i"
  by (simp add: discount_def frac_le)

definition gain :: "nat \<Rightarrow> string set \<Rightarrow> string list \<Rightarrow> real" where
  "gain s g xs = sum_list (map (\<lambda>(i, x). if x \<in> g then discount i else 0) (enumerate s xs))"

lemma discounts_shift: "1 \<le> s \<Longrightarrow> sum_list (map discount [s + 1..<s + 1 + m]) \<le> sum_list (map discount [s..<s + m])"
proof (induction m)
  case (Suc m)
  then show ?case using discount_antimono [of "s + m" "s + 1 + m"] by simp
qed simp

lemma gain_le: "1 \<le> s \<Longrightarrow> gain s g xs \<le> sum_list (map discount [s..<s + length (filter (\<lambda>x. x \<in> g) xs)])"
proof (induction xs arbitrary: s)
  case (Cons x xs)
  let ?m = "length (filter (\<lambda>x. x \<in> g) xs)"
  have ih: "gain (Suc s) g xs \<le> sum_list (map discount [Suc s..<Suc s + ?m])" using Cons.IH [of "Suc s"] by simp
  show ?case
  proof (cases "x \<in> g")
    case True
    then have "[s..<s + length (filter (\<lambda>x. x \<in> g) (x # xs))] = s # [Suc s..<Suc s + ?m]" by (simp add: upt_rec)
    then show ?thesis using ih True by (simp add: gain_def)
  next
    case False
    then show ?thesis using ih discounts_shift [of s ?m] Cons.prems by (simp add: gain_def)
  qed
qed (simp add: gain_def)

lemma discounts_mono:
  assumes "m \<le> n"
  shows "sum_list (map discount [1..<m + 1]) \<le> sum_list (map discount [1..<n + 1])"
proof -
  have "[1..<n + 1] = [1..<m + 1] @ [m + 1..<n + 1]" using assms upt_add_eq_append [of 1 "m + 1" "n - m"] by simp
  moreover have "0 \<le> sum_list (map discount [m + 1..<n + 1])" by (intro sum_list_nonneg) (auto simp add: discount_nonneg)
  ultimately show ?thesis by simp
qed

lemma gain_nonneg: "0 \<le> gain s g xs"
  unfolding gain_def by (intro sum_list_nonneg) (auto simp add: discount_nonneg)

lemma unit_ndcg [unit_intros]:
  assumes "distinct ranking" "finite g"
  shows "unit (ndcg ranking g k)"
proof -
  let ?hits = "filter (\<lambda>x. x \<in> g) (take k ranking)"
  have "distinct ?hits" using assms(1) by simp
  then have "length ?hits = card (set ?hits)" by (rule distinct_card [symmetric])
  also have "\<dots> \<le> card g" using assms(2) by (intro card_mono) auto
  finally have "length ?hits \<le> min (card g) k" using length_filter_le [of "\<lambda>x. x \<in> g" "take k ranking"] by simp
  then have "gain 1 g (take k ranking) \<le> sum_list (map discount [1..<min (card g) k + 1])"
    using gain_le [of 1 g "take k ranking"] discounts_mono [of "length ?hits" "min (card g) k"] by (simp add: add.commute)
  then show ?thesis using gain_nonneg [of 1 g "take k ranking"]
    unfolding unit_def ndcg_def Let_def gain_def [symmetric] by (auto simp add: divide_le_eq_1)
qed

text \<open>Without distinct ids the gain of a ranking can exceed its ideal.\<close>

lemma ndcg_of_repetition: "1 < ndcg [''a'', ''a''] {''a''} 10"
proof -
  have "enumerate 1 (take 10 [''a'', ''a'']) = [(1, ''a''), (2, ''a'')]" "[1..<min (card {''a''}) 10 + 1] = [1 :: nat]"
    by (simp_all add: numeral_eq_Suc)
  then show ?thesis by (simp add: ndcg_def Let_def discount_def)
qed

section \<open>Calibration\<close>

lemma in_bin_unique: "in_bin bins i p \<Longrightarrow> in_bin bins j p \<Longrightarrow> i < bins \<Longrightarrow> j < bins \<Longrightarrow> i = j"
proof (induction i j rule: linorder_wlog)
  case (le i j)
  show ?case
  proof (rule ccontr)
    assume "i \<noteq> j"
    then have "i + 1 \<le> j" "i \<noteq> bins - 1" using le by auto
    then have "p < real (i + 1) / real bins" "real j / real bins \<le> p" using le by (simp_all add: in_bin_def)
    moreover have "real (i + 1) / real bins \<le> real j / real bins" using \<open>i + 1 \<le> j\<close> by (intro divide_right_mono) auto
    ultimately show False by linarith
  qed
qed simp

lemma one_bin: "sum_list (map (\<lambda>i. if in_bin bins i p then 1 else 0) [0..<bins]) \<le> (1 :: nat)"
proof -
  have "sum_list (map (\<lambda>i. if in_bin bins i p then 1 else 0) [0..<bins]) = card {i. i < bins \<and> in_bin bins i p}"
    by (simp add: sum_list_distinct_conv_sum_set sum.If_cases Int_def conj_commute)
  also have "\<dots> \<le> 1" using in_bin_unique by (subst One_nat_def, subst card_le_Suc0_iff_eq) auto
  finally show ?thesis .
qed

lemma bins_disjoint: "sum_list (map (\<lambda>i. length (filter (\<lambda>(p, l). in_bin bins i p) pairs)) [0..<bins]) \<le> length pairs"
proof (induction pairs)
  case (Cons pl pairs)
  obtain p l where pl: "pl = (p, l)" by (cases pl)
  have "sum_list (map (\<lambda>i. length (filter (\<lambda>(p, l). in_bin bins i p) (pl # pairs))) [0..<bins])
      = sum_list (map (\<lambda>i. if in_bin bins i p then 1 else 0) [0..<bins]) + sum_list (map (\<lambda>i. length (filter (\<lambda>(p, l). in_bin bins i p) pairs)) [0..<bins])"
    unfolding sum_list_addf [symmetric] by (intro arg_cong [where f = sum_list] map_cong) (simp_all add: pl)
  then show ?case using Cons one_bin [of bins p] by simp
qed simp

lemma unit_mean: "list_all unit xs \<Longrightarrow> mean_of xs = Some m \<Longrightarrow> unit m"
proof -
  assume u: "list_all unit xs" and m: "mean_of xs = Some m"
  have "0 \<le> sum_list xs" using u by (induction xs) (auto simp add: unit_def)
  moreover have "sum_list xs \<le> real (length xs)" using u by (induction xs) (auto simp add: unit_def)
  ultimately show "unit m" using m by (auto simp add: mean_of_def unit_def divide_le_eq_1 split: if_splits)
qed

lemma bin_score_bound:
  assumes "list_all (\<lambda>(p, l). unit p \<and> unit l) members"
  shows "0 \<le> bin_score n members \<and> bin_score n members \<le> real (length members) / real n"
proof (cases "members = []")
  case False
  have "unit (sum_list (map fst members) / real (length members))" "unit (sum_list (map snd members) / real (length members))"
  proof -
    have "list_all unit (map fst members)" "list_all unit (map snd members)" using assms by (auto simp add: list_all_iff)
    then show "unit (sum_list (map fst members) / real (length members))" "unit (sum_list (map snd members) / real (length members))"
      using False by (auto intro: unit_mean simp add: mean_of_def)
  qed
  then have "\<bar>sum_list (map fst members) / real (length members) - sum_list (map snd members) / real (length members)\<bar> \<le> 1"
    by (auto simp add: unit_def)
  then show ?thesis using False mult_left_le [of _ "real (length members) / real n"] by (simp add: bin_score_def)
qed (simp add: bin_score_def)

lemma unit_ece [unit_intros]:
  assumes "list_all (\<lambda>(p, l). unit p \<and> unit l) pairs" "ece pairs bins = Some e"
  shows "unit e"
proof -
  let ?members = "\<lambda>i. filter (\<lambda>(p, l). in_bin bins i p) pairs"
  have all: "list_all (\<lambda>(p, l). unit p \<and> unit l) (?members i)" for i using assms(1) by (auto simp add: list_all_iff)
  have e: "e = sum_list (map (\<lambda>i. bin_score (length pairs) (?members i)) [0..<bins])" and ne: "pairs \<noteq> []"
    using assms(2) by (auto simp add: ece_def split: if_splits)
  have "0 \<le> e" unfolding e using bin_score_bound [OF all] by (intro sum_list_nonneg) auto
  have "e \<le> sum_list (map (\<lambda>i. real (length (?members i)) / real (length pairs)) [0..<bins])"
    unfolding e using bin_score_bound [OF all] by (intro sum_list_mono) blast
  also have "\<dots> = real (sum_list (map (\<lambda>i. length (?members i)) [0..<bins])) / real (length pairs)"
    by (induction "[0..<bins]") (simp_all add: sum_list_triv sum_divide_distrib sum_list_distinct_conv_sum_set)
  also have "\<dots> \<le> 1" using bins_disjoint [of bins pairs] by (simp add: divide_le_eq_1)
  finally show ?thesis using \<open>0 \<le> e\<close> by (simp add: unit_def)
qed

section \<open>Metrics\<close>

lemma count_le: "count P xs \<le> length xs"
  by (simp add: count_def)

lemma map_filter_le: "length (List.map_filter f xs) \<le> length xs"
  by (simp add: List.map_filter_def)

lemma typed_le: "length (typed gold_of out_of cases rows) \<le> length rows"
  unfolding typed_def by (rule map_filter_le)

lemma sum_count_le: "(\<And>x. x \<in> set xs \<Longrightarrow> f x \<le> g x) \<Longrightarrow> sum_list (map f xs) \<le> sum_list (map g xs :: nat list)"
  by (rule sum_list_mono)

text \<open>The metrics whose values are not shares.\<close>

definition unbounded_metrics :: "string set" where
  "unbounded_metrics = {''latency_ms'', ''invalid_tool_call'', ''secret_leak'', ''missing_span_rate'', ''drop_rate''}"

definition unit_value :: "metric_value \<Rightarrow> bool" where
  "unit_value m \<longleftrightarrow> fst m \<in> unbounded_metrics \<or> (case fst (snd m) of None \<Rightarrow> True | Some v \<Rightarrow> unit v)"

lemma unit_ratio_value: "n \<le> d \<Longrightarrow> unit_value (ratio_value rows name n d)"
  by (simp add: unit_value_def ratio_value_def ratio_def unit_share)

lemma unit_mean_value: "list_all unit xs \<Longrightarrow> unit_value (mean_value rows name xs)"
  using unit_mean [of xs] by (auto simp add: unit_value_def mean_value_def split: option.splits)

lemma unit_unbounded: "name \<in> unbounded_metrics \<Longrightarrow> unit_value (mean_value rows name xs) \<and> unit_value (count_value rows name n)"
  by (simp add: unit_value_def mean_value_def count_value_def)

lemma unit_calibration: "(\<And>x. v = Some x \<Longrightarrow> unit x) \<Longrightarrow> unit_value (calibration_value rows name v n)"
  by (auto simp add: unit_value_def calibration_value_def split: option.splits)

lemma unit_passed: "unit_value (passed_value name rows)"
  unfolding passed_value_def by (intro unit_ratio_value count_le)

lemma unit_map: "(\<And>x. x \<in> set xs \<Longrightarrow> unit (f x)) \<Longrightarrow> list_all unit (map f xs)"
  by (simp add: list_all_iff)

lemmas unit_shares = unit_passed unit_unbounded [THEN conjunct1] unit_unbounded [THEN conjunct2] unit_ratio_value unit_mean_value

lemma typed_count: "count P (typed gold_of out_of cases rows) \<le> length rows"
  using count_le typed_le order_trans by blast

lemma unit_index: "list_all unit_value (index_values cases rows)"
  by (auto simp add: index_values_def Let_def intro!: unit_passed unit_mean_value unit_map unit_set_recall)

lemma unit_agent: "list_all unit_value (agent_values cases rows)"
  by (auto simp add: agent_values_def Let_def unbounded_metrics_def intro!: unit_passed unit_ratio_value typed_count
      unit_unbounded [THEN conjunct2])

lemma unit_answer: "list_all unit_value (answer_values cases rows)"
  by (auto simp add: answer_values_def Let_def valid_citations_def count_le
      intro!: unit_passed unit_ratio_value unit_mean_value unit_map unit_set_recall sum_count_le)

lemma unit_observability: "list_all unit_value (observability_values rows)"
  by (auto simp add: observability_values_def Let_def unbounded_metrics_def count_le
      intro!: unit_ratio_value unit_unbounded [THEN conjunct1] unit_unbounded [THEN conjunct2])

text \<open>What the two components need of their outcomes.\<close>

definition scorable :: "case_result \<Rightarrow> bool" where
  "scorable r \<longleftrightarrow> (case cr_value r of
       Some (OutRetrieval a) \<Rightarrow> distinct (ranking_of a)
     | Some (OutAlignment a) \<Rightarrow> list_all (\<lambda>(i, p). unit p) (lo_probabilities a)
     | _ \<Rightarrow> True)"

lemma scorableD: "list_all scorable rows \<Longrightarrow> r \<in> set rows \<Longrightarrow> scorable r"
  by (simp add: list_all_iff)

lemma typed_memberD: "(g, a, r) \<in> set (typed gold_of out_of cases rows) \<Longrightarrow> r \<in> set rows \<and> (\<exists>v. cr_value r = Some v \<and> out_of v = Some a)"
  by (force simp add: typed_def List.map_filter_def split: option.splits)

lemma latency_value: "unit_value (mean_value rows ''latency_ms'' xs) = True"
  by (simp add: unit_unbounded unbounded_metrics_def)

lemma unit_retrieval:
  assumes "list_all scorable rows"
  shows "list_all unit_value (retrieval_values cases rows)"
proof -
  have "distinct (ranking_of a)" if t: "(g, a, r) \<in> set (typed as_retrieval out_retrieval cases (evaluable rows))" for g a r
  proof -
    obtain v where "r \<in> set rows" "cr_value r = Some v" "out_retrieval v = Some a"
      using typed_memberD [OF t] by (auto simp add: evaluable_def)
    then show ?thesis using scorableD [OF assms] by (cases v) (force simp add: scorable_def)+
  qed
  then show ?thesis
    by (auto simp add: retrieval_values_def Let_def latency_value retrieval_gold_set_def
        intro!: unit_ratio_value unit_mean_value unit_map unit_recall unit_reciprocal unit_ndcg unit_path_recall typed_count)
qed

lemma unit_alignment:
  assumes "list_all scorable rows"
  shows "list_all unit_value (alignment_values cases rows)"
proof -
  let ?ps = "typed as_alignment out_alignment cases (evaluable rows)"
  let ?labels = "concat (map (\<lambda>(g, a, _). labelled g a) ?ps)"
  have "list_all (\<lambda>(i, p). unit p) (lo_probabilities a)" if t: "(g, a, r) \<in> set ?ps" for g a r
  proof -
    obtain v where "r \<in> set rows" "cr_value r = Some v" "out_alignment v = Some a"
      using typed_memberD [OF t] by (auto simp add: evaluable_def)
    then show ?thesis using scorableD [OF assms] by (cases v) (force simp add: scorable_def)+
  qed
  then have labels: "list_all (\<lambda>(p, l). unit p \<and> unit l) ?labels"
    by (fastforce simp add: list_all_iff labelled_def unit_def)
  have "unit ((p - l) ^ 2)" if "unit p" "unit l" for p l :: real
  proof -
    have "\<bar>p - l\<bar> \<le> 1" using that by (auto simp add: unit_def)
    then show ?thesis by (simp add: unit_def abs_square_le_1)
  qed
  then have "list_all unit (map (\<lambda>(p, l). (p - l) ^ 2) ?labels)" using labels by (auto simp add: list_all_iff)
  then have brier: "unit_value (calibration_value rows ''brier'' (mean_of (map (\<lambda>(p, l). (p - l) ^ 2) ?labels)) (length ?labels))"
    using unit_mean by (intro unit_calibration) blast
  have ece: "unit_value (calibration_value rows ''ece'' (ece ?labels 10) (length ?labels))"
    using unit_ece [OF labels] by (intro unit_calibration) blast
  have sub: "length (filter P ?ps) \<le> length (evaluable rows)" for P
    using order_trans [OF length_filter_le typed_le] .
  show ?thesis unfolding alignment_values_def Let_def list.pred_inject
    by (intro conjI TrueI brier ece unit_mean_value unit_map unit_ratio_value sub count_le)
      (auto simp add: unit_recall unit_f1 evidence_share_def unit_set_recall unit_def [of 0] unit_def [of 1])
qed


text \<open>No adapter reports a missing link, so the metric of link validity is 1 for every executed case.\<close>

lemma in_missing: "x \<in> set (missing kind expected actual) \<longleftrightarrow> x = kind @ ''_missing'' \<and> \<not> set expected \<subseteq> set actual"
  by (simp add: missing_def)

lemma in_flag: "x \<in> set (flag b code) \<longleftrightarrow> b \<and> x = code"
  by (auto simp add: flag_def)

lemma judge_SomeD: "judge gold_of out_of f g v = Some fs \<Longrightarrow> \<exists>a b. fs = f a b"
  by (auto simp add: judge_def split: option.splits)

lemmas failure_lists = index_failures_def retrieval_failures_def agent_failures_def alignment_failures_def answer_failures_def
  observability_failures_def in_missing in_flag

lemma no_link_failure: "quality_failures c g v = Some fs \<Longrightarrow> ''observability_link_missing'' \<notin> set fs"
  by (cases c; simp; drule judge_SomeD; elim exE; simp add: failure_lists)

section \<open>Witnesses\<close>

definition demo_case :: "gold \<Rightarrow> eval_case" where
  "demo_case g = \<lparr>ec_id = ''c'', ec_family = ''f'', ec_version = ''v'', ec_split = SplitDev, ec_source = SyntheticFixture,
     ec_component = gold_component g, ec_input_component = gold_component g, ec_fixture = ''x'', ec_repo = ''r'', ec_index = None,
     ec_fixture_index = None, ec_refs = [], ec_gold = g, ec_tags = [], ec_annotators = [], ec_adjudication = NotRequired, ec_hash = []\<rparr>"

definition demo_retrieval_gold :: retrieval_gold where
  "demo_retrieval_gold = \<lparr>rg_entities = [''a''], rg_chunks = [], rg_paths = []\<rparr>"

definition demo_retrieval_outcome :: retrieval_outcome where
  "demo_retrieval_outcome = \<lparr>ro_entities = [''a'', ''b''], ro_chunks = [], ro_paths = [], ro_fallbacks = []\<rparr>"

definition demo_execution :: case_result where
  "demo_execution = execute_case ''run'' (demo_case (GoldRetrieval demo_retrieval_gold)) (Inr (), Inr (Some (OutRetrieval demo_retrieval_outcome)), 3)"

lemma demo_execution_value: "cr_value demo_execution = Some (OutRetrieval demo_retrieval_outcome)"
    "evaluable [demo_execution] = [demo_execution]" "cr_case demo_execution = ''c''"
  by (simp_all add: demo_execution_def execute_case_def demo_case_def judge_def retrieval_failures_def demo_retrieval_gold_def
      demo_retrieval_outcome_def make_result_def missing_def flag_def evaluable_def)

lemma execution_result_valid_witness:
  "case_result_valid demo_execution \<and> cr_outcome demo_execution = Some OutcomePassed"
  using execution_result_valid [of 3 "Inr ()" "Inr (Some (OutRetrieval demo_retrieval_outcome))" demo_execution "''run''"
      "demo_case (GoldRetrieval demo_retrieval_gold)"]
  by (simp add: demo_execution_def demo_case_def judge_def retrieval_failures_def demo_retrieval_gold_def
      demo_retrieval_outcome_def missing_def flag_def)


end
