(* ===== verification/Ev_Gate.thy ===== *)
theory Ev_Gate
  imports Ev_Metrics "HOL-Library.Product_Lexorder" "HOL-Library.Sublist"
begin

text \<open>
  Comparing a run with its baseline (\<open>evaluation/comparator.py\<close>) and the regression gate
  (\<open>evaluation/regression_gate.py\<close>), composed as \<open>create_comparison\<close> of \<open>evaluation/api.py\<close> does.
\<close>

section \<open>Runs\<close>

record run_fingerprint =
  fp_version :: string
  fp_case_set :: string
  fp_gold :: string
  fp_subject :: string
  fp_metrics :: string
  fp_adapters :: string
  fp_adapter_major :: string
  fp_fixture :: string
  fp_mode :: eval_mode
  fp_environment :: string
  fp_seed :: int
  fp_hash :: string

record eval_run =
  eu_id :: string
  eu_plan :: string
  eu_version :: string
  eu_subject :: string
  eu_mode :: eval_mode
  eu_status :: eval_status
  eu_fingerprint :: run_fingerprint
  eu_environment :: string
  eu_group :: "string option"
  eu_repeat :: "nat option"
  eu_attempt :: nat
  eu_retry_of :: "string option"
  eu_cancel :: bool
  eu_counts :: "(string \<times> nat) list"
  eu_complete :: bool
  eu_reasons :: "string list"
  eu_error :: "string option"
  eu_created :: nat
  eu_updated :: nat

section \<open>The comparison\<close>

definition PERFORMANCE_TERMS :: "string list" where
  "PERFORMANCE_TERMS = [''latency'', ''token'', ''cost'', ''overhead'', ''throughput'', ''calls'']"

definition performance_metric :: "string \<Rightarrow> bool" where
  "performance_metric name \<longleftrightarrow> list_ex (\<lambda>term. sublist term name) PERFORMANCE_TERMS"

definition mismatches :: "eval_run \<Rightarrow> eval_run \<Rightarrow> bool \<Rightarrow> string list" where
  "mismatches b c same_environment = (let p = eu_fingerprint b; q = eu_fingerprint c in
     flag (eu_version b \<noteq> eu_version c) ''dataset_version_mismatch''
     @ flag (fp_case_set p \<noteq> fp_case_set q) ''case_set_hash_mismatch''
     @ flag (fp_gold p \<noteq> fp_gold q) ''gold_hash_mismatch''
     @ flag (fp_fixture p \<noteq> fp_fixture q) ''fixture_hash_mismatch''
     @ flag (fp_adapter_major p \<noteq> fp_adapter_major q) ''adapter_major_hash_mismatch''
     @ flag (fp_metrics p \<noteq> fp_metrics q) ''metric_definition_hash_mismatch''
     @ flag (eu_mode b \<noteq> eu_mode c) ''evaluation_mode_mismatch''
     @ flag (\<not> same_environment) ''execution_environment_mismatch'')"

type_synonym metric_table_key = "string \<times> (string \<times> string) list"

definition metric_key :: "metric_result \<Rightarrow> metric_table_key" where
  "metric_key m = (mr_definition m, sort (mr_subgroup m))"

definition metric_table :: "metric_result list \<Rightarrow> metric_table_key \<Rightarrow> metric_result option" where
  "metric_table ms = map_of (rev (map (\<lambda>m. (metric_key m, m)) ms))"

definition metric_delta_of :: "metric_result \<Rightarrow> metric_result \<Rightarrow> metric_delta" where
  "metric_delta_of b c =
     \<lparr>md_definition = mr_definition b, md_subgroup = mr_subgroup b, md_baseline = mr_value b, md_candidate = mr_value c,
      md_absolute = (case (mr_value b, mr_value c) of (Some x, Some y) \<Rightarrow> Some (y - x) | _ \<Rightarrow> None),
      md_relative = (case (mr_value b, mr_value c) of
         (Some x, Some y) \<Rightarrow> if x = 0 then (if y = 0 then Some 0 else None) else Some ((y - x) / \<bar>x\<bar>) | _ \<Rightarrow> None),
      md_samples = min (mr_samples b) (mr_samples c), md_complete = (mr_complete b \<and> mr_complete c)\<rparr>"

definition common_keys :: "metric_result list \<Rightarrow> metric_result list \<Rightarrow> metric_table_key list" where
  "common_keys bs cs = sorted_list_of_set (set (map metric_key bs) \<inter> set (map metric_key cs))"

text \<open>The keys whose metrics are compared, and those that depend on the environment.\<close>

definition incomparable_key :: "(string \<times> string) list \<Rightarrow> bool \<Rightarrow> metric_table_key \<Rightarrow> bool" where
  "incomparable_key names same_environment k \<longleftrightarrow>
     performance_metric (case map_of names (fst k) of None \<Rightarrow> fst k | Some n \<Rightarrow> n) \<and> \<not> same_environment"

definition deltas_of :: "metric_result list \<Rightarrow> metric_result list \<Rightarrow> metric_table_key list \<Rightarrow> metric_delta list" where
  "deltas_of bs cs keys = map (\<lambda>k. metric_delta_of (the (metric_table bs k)) (the (metric_table cs k))) keys"

definition sorted_names :: "string set \<Rightarrow> string list" where
  "sorted_names s = sorted_list_of_set s"

definition compatibility_of :: "string list \<Rightarrow> string list \<Rightarrow> string list \<Rightarrow> bool \<Rightarrow> metric_table_key list \<Rightarrow> compatibility" where
  "compatibility_of reasons common comparable same_cases incomparable =
     (if common = [] \<or> comparable = [] \<or> set reasons \<inter> {''gold_hash_mismatch'', ''fixture_hash_mismatch'',
          ''adapter_major_hash_mismatch'', ''metric_definition_hash_mismatch''} \<noteq> {} then Incompatible
      else if reasons \<noteq> [] \<or> \<not> same_cases \<or> incomparable \<noteq> [] then PartiallyCompatible
      else Compatible)"

definition scope_json :: "comparison_scope \<Rightarrow> json" where
  "scope_json s = JObj [(''schema_version'', JStr ''1''), (''common_case_ids'', json_strings (sc_common s)),
     (''excluded_baseline_case_ids'', json_strings (sc_excluded_baseline s)),
     (''excluded_candidate_case_ids'', json_strings (sc_excluded_candidate s)),
     (''comparable_metric_definition_ids'', json_strings (sc_comparable s)),
     (''incompatible_metric_definition_ids'', json_strings (sc_incomparable s)),
     (''compatibility'', JStr (case sc_compatibility s of Compatible \<Rightarrow> ''compatible'' | PartiallyCompatible \<Rightarrow> ''partially_compatible''
        | Incompatible \<Rightarrow> ''incompatible'')),
     (''incompatibility_reasons'', json_strings (sc_reasons s))]"

definition compare_runs ::
    "string \<Rightarrow> eval_run \<Rightarrow> eval_run \<Rightarrow> string \<Rightarrow> string \<Rightarrow> case_result list \<Rightarrow> case_result list \<Rightarrow> metric_result list \<Rightarrow> metric_result list
     \<Rightarrow> (string \<times> string) list \<Rightarrow> regression_comparison" where
  "compare_runs binding b c env_b env_c results_b results_c metrics_b metrics_c names =
     (let cases_b = set (map cr_case results_b); cases_c = set (map cr_case results_c);
          common = sorted_names (cases_b \<inter> cases_c); same_environment = (env_b = env_c);
          reasons = mismatches b c same_environment; keys = common_keys metrics_b metrics_c;
          comparable = filter (\<lambda>k. \<not> incomparable_key names same_environment k) keys;
          incomparable = filter (incomparable_key names same_environment) keys;
          deltas = deltas_of metrics_b metrics_c comparable;
          scope = \<lparr>sc_common = common, sc_excluded_baseline = sorted_names (cases_b - cases_c),
            sc_excluded_candidate = sorted_names (cases_c - cases_b), sc_comparable = sorted_names (fst ` set comparable),
            sc_incomparable = sorted_names (fst ` set incomparable),
            sc_compatibility = compatibility_of reasons common (map fst comparable) (cases_b = cases_c) incomparable,
            sc_reasons = sorted_names (set reasons)\<rparr>
      in \<lparr>co_id = eval_id ''comparison'' (JArr [JStr (eu_id b), JStr (eu_id c), scope_json scope]), co_binding = binding,
          co_baseline = eu_id b, co_candidate = eu_id c, co_scope = scope,
          co_deltas = filter (\<lambda>d. md_subgroup d = []) deltas, co_subgroup_deltas = filter (\<lambda>d. md_subgroup d \<noteq> []) deltas\<rparr>)"

definition comparison_ready :: "regression_comparison \<Rightarrow> bool" where
  "comparison_ready c \<longleftrightarrow> sc_compatibility (co_scope c) \<noteq> Incompatible"

section \<open>The gate\<close>

definition rule_matches :: "gate_rule \<Rightarrow> metric_delta \<Rightarrow> bool" where
  "rule_matches rule d \<longleftrightarrow> md_definition d = gr_definition rule \<and> list_all (\<lambda>(k, v). map_of (md_subgroup d) k = Some v) (gr_filter rule)"

definition rule_passes :: "gate_rule \<Rightarrow> metric_delta \<Rightarrow> bool" where
  "rule_passes rule d =
     (case gr_comparison rule of
        EqualZero \<Rightarrow> md_candidate d = Some 0
      | MinValue \<Rightarrow> (case md_candidate d of None \<Rightarrow> False | Some x \<Rightarrow> gr_threshold rule \<le> x)
      | MaxValue \<Rightarrow> (case md_candidate d of None \<Rightarrow> False | Some x \<Rightarrow> x \<le> gr_threshold rule)
      | MaxAbsoluteDrop \<Rightarrow> md_candidate d \<noteq> None
          \<and> (case md_absolute d of None \<Rightarrow> False | Some x \<Rightarrow> - \<bar>gr_threshold rule\<bar> \<le> x)
      | MaxRelativeDrop \<Rightarrow> md_candidate d \<noteq> None
          \<and> (if md_baseline d = Some 0 then md_candidate d = Some 0
             else (case md_relative d of None \<Rightarrow> False | Some x \<Rightarrow> - \<bar>gr_threshold rule\<bar> \<le> x)))"

definition rule_result_of :: "gate_rule \<Rightarrow> rule_verdict \<Rightarrow> metric_delta option \<Rightarrow> string list \<Rightarrow> rule_result" where
  "rule_result_of rule verdict row reasons =
     \<lparr>rl_rule = gr_id rule, rl_verdict = verdict, rl_samples = (case row of None \<Rightarrow> 0 | Some d \<Rightarrow> md_samples d),
      rl_baseline = Option.bind row md_baseline, rl_candidate = Option.bind row md_candidate, rl_reasons = reasons\<rparr>"

definition incomplete_verdict :: "gate_rule \<Rightarrow> bool \<Rightarrow> rule_verdict" where
  "incomplete_verdict rule hard =
     (if hard \<and> gr_policy rule \<noteq> PolicyIgnore then RuleBlocked
      else case gr_policy rule of PolicyBlock \<Rightarrow> RuleBlocked | PolicyWarning \<Rightarrow> RuleWarning | PolicyIgnore \<Rightarrow> RulePassed)"

definition evaluate_rule :: "metric_delta list \<Rightarrow> bool \<Rightarrow> gate_rule \<Rightarrow> rule_result" where
  "evaluate_rule deltas hard rule =
     (case List.find (rule_matches rule) deltas of
        None \<Rightarrow> rule_result_of rule (incomplete_verdict rule hard) None [''gate_metric_missing'']
      | Some d \<Rightarrow>
          if md_samples d < gr_min_samples rule \<or> \<not> md_complete d
          then rule_result_of rule (incomplete_verdict rule hard) (Some d) [''gate_input_incomplete'']
          else if rule_passes rule d then rule_result_of rule RulePassed (Some d) []
          else rule_result_of rule (case gr_severity rule of SeverityBlock \<Rightarrow> RuleBlocked | SeverityWarning \<Rightarrow> RuleWarning) (Some d)
            [''gate_rule_threshold_failed''])"

definition evaluate_gate :: "regression_comparison \<Rightarrow> gate_config \<Rightarrow> regression_gate" where
  "evaluate_gate c config =
     (if sc_compatibility (co_scope c) = Incompatible
      then \<lparr>rgate_comparison = co_id c, rgate_hard = [], rgate_quality = [], rgate_performance = [], rgate_verdict = GateIndeterminate,
        rgate_reasons = [''comparison_incompatible'']\<rparr>
      else let deltas = co_deltas c @ co_subgroup_deltas c;
               hard = map (evaluate_rule deltas True) (gc_hard config);
               quality = map (evaluate_rule deltas False) (gc_quality config);
               performance = map (evaluate_rule deltas False) (gc_performance config);
               results = hard @ quality @ performance
           in \<lparr>rgate_comparison = co_id c, rgate_hard = hard, rgate_quality = quality, rgate_performance = performance,
               rgate_verdict = (if list_ex (\<lambda>r. rl_verdict r = RuleBlocked) results then GateBlocked
                 else if list_ex (\<lambda>r. rl_verdict r = RuleIndeterminate) results then GateIndeterminate else GatePassed),
               rgate_reasons = sorted_names (set (concat (map rl_reasons results)))\<rparr>)"

text \<open>\<open>create_comparison\<close>: there is a gate only for a comparison that is ready.\<close>

definition create_gate :: "regression_comparison \<Rightarrow> gate_config \<Rightarrow> regression_gate option" where
  "create_gate c config = (if comparison_ready c then Some (evaluate_gate c config) else None)"

end
