(* ===== verification/Ev_Gate_Props.thy ===== *)
theory Ev_Gate_Props
  imports Ev_Gate
begin

text \<open>
  What the verdict of the regression gate means for the runs that were compared.
\<close>

section \<open>Rules\<close>

text \<open>The delta a rule looks at, and when it counts.\<close>

definition rule_input :: "metric_delta list \<Rightarrow> gate_rule \<Rightarrow> metric_delta option" where
  "rule_input deltas rule =
     (case List.find (rule_matches rule) deltas of
        None \<Rightarrow> None | Some d \<Rightarrow> if gr_min_samples rule \<le> md_samples d \<and> md_complete d then Some d else None)"

text \<open>A rule stands in the way of a pass: its input is missing and must not be, or its threshold fails and blocks.\<close>

definition rule_blocks :: "metric_delta list \<Rightarrow> bool \<Rightarrow> gate_rule \<Rightarrow> bool" where
  "rule_blocks deltas hard rule \<longleftrightarrow>
     (case rule_input deltas rule of
        None \<Rightarrow> gr_policy rule = PolicyBlock \<or> hard \<and> gr_policy rule = PolicyWarning
      | Some d \<Rightarrow> \<not> rule_passes rule d \<and> gr_severity rule = SeverityBlock)"

lemma rl_verdict_result [simp]: "rl_verdict (rule_result_of rule verdict row reasons) = verdict"
  by (simp add: rule_result_of_def)

lemma evaluate_rule_blocks: "rl_verdict (evaluate_rule deltas hard rule) = RuleBlocked \<longleftrightarrow> rule_blocks deltas hard rule"
proof (cases "List.find (rule_matches rule) deltas")
  case None
  then show ?thesis
    by (cases "gr_policy rule") (simp_all add: evaluate_rule_def rule_blocks_def rule_input_def incomplete_verdict_def)
next
  case (Some d)
  show ?thesis
  proof (cases "gr_min_samples rule \<le> md_samples d \<and> md_complete d")
    case True
    then show ?thesis using Some
      by (cases "gr_severity rule") (auto simp add: evaluate_rule_def rule_blocks_def rule_input_def not_less)
  next
    case False
    then have "md_samples d < gr_min_samples rule \<or> \<not> md_complete d" by auto
    moreover have "rule_input deltas rule = None" using Some False by (auto simp add: rule_input_def)
    ultimately show ?thesis using Some
      by (cases "gr_policy rule") (simp_all add: evaluate_rule_def rule_blocks_def incomplete_verdict_def)
  qed
qed

lemma evaluate_rule_determinate: "rl_verdict (evaluate_rule deltas hard rule) \<noteq> RuleIndeterminate"
  unfolding evaluate_rule_def incomplete_verdict_def
  by (auto split: option.splits incomplete_policy.splits rule_severity.splits)

lemma gate_verdict:
  "rgate_verdict (evaluate_gate c config) =
    (if sc_compatibility (co_scope c) = Incompatible then GateIndeterminate
     else if list_ex (rule_blocks (co_deltas c @ co_subgroup_deltas c) True) (gc_hard config)
       \<or> list_ex (rule_blocks (co_deltas c @ co_subgroup_deltas c) False) (gc_quality config @ gc_performance config)
     then GateBlocked else GatePassed)"
proof -
  define deltas where "deltas = co_deltas c @ co_subgroup_deltas c"
  have map: "list_ex (\<lambda>r. rl_verdict r = RuleBlocked) (map (evaluate_rule ds hard) rules) \<longleftrightarrow> list_ex (rule_blocks ds hard) rules" for ds hard rules
    by (simp add: list_ex_iff evaluate_rule_blocks)
  have none: "\<not> list_ex (\<lambda>r. rl_verdict r = RuleIndeterminate) (map (evaluate_rule ds hard) rules)" for ds hard rules
    using evaluate_rule_determinate by (auto simp add: list_ex_iff)
  show ?thesis
  proof (cases "sc_compatibility (co_scope c) = Incompatible")
    case True
    then show ?thesis by (simp add: evaluate_gate_def)
  next
    case False
    then show ?thesis unfolding evaluate_gate_def Let_def deltas_def [symmetric] list_ex_append map using none
      by (simp add: list_ex_append)
  qed
qed

text \<open>C25. The verdict of the gate.  A comparison of incompatible runs is indeterminate.  Every other is passed
  or blocked, and it is blocked exactly when some rule blocks it: a rule whose metric is missing,
  incomplete or has too few samples, if its policy says so (for a hard rule also when the policy only
  warns), or a rule of blocking severity whose threshold fails.\<close>

theorem gate_verdict_meaning:
  "rgate_verdict (evaluate_gate c config) =
    (if sc_compatibility (co_scope c) = Incompatible then GateIndeterminate
     else if list_ex (rule_blocks (co_deltas c @ co_subgroup_deltas c) True) (gc_hard config)
       \<or> list_ex (rule_blocks (co_deltas c @ co_subgroup_deltas c) False) (gc_quality config @ gc_performance config)
     then GateBlocked else GatePassed)"
  by (rule gate_verdict)

section \<open>Comparisons\<close>

lemma metric_tableD: "metric_table ms k = Some m \<Longrightarrow> m \<in> set ms \<and> metric_key m = k"
  by (auto simp add: metric_table_def dest!: map_of_SomeD)

lemma metric_table_unique:
  assumes "distinct (map metric_key ms)" "m \<in> set ms"
  shows "metric_table ms (metric_key m) = Some m"
proof -
  have "distinct (map fst (rev (map (\<lambda>m. (metric_key m, m)) ms)))" using assms(1) by (simp add: rev_map [symmetric] comp_def)
  then show ?thesis unfolding metric_table_def using assms(2) by (intro map_of_is_SomeI) simp_all
qed

lemma metric_table_defined: "k \<in> metric_key ` set ms \<Longrightarrow> \<exists>m. metric_table ms k = Some m"
proof -
  assume "k \<in> metric_key ` set ms"
  then have "metric_table ms k \<noteq> None" unfolding metric_table_def map_of_eq_None_iff by (auto simp add: image_image)
  then show ?thesis by blast
qed

lemma find_unique:
  assumes "x \<in> set xs" "P x" and only: "\<And>y. y \<in> set xs \<Longrightarrow> P y \<Longrightarrow> y = x"
  shows "List.find P (xs @ ys) = Some x"
proof -
  obtain z where z: "List.find P xs = Some z" using assms(1,2) by (cases "List.find P xs") (auto simp add: find_None_iff)
  then have "z = x" using find_SomeD [OF z] only by blast
  moreover have "List.find P (xs @ ys) = Some z" using z by (induction xs) auto
  ultimately show ?thesis by simp
qed

lemma empty_sorted: "sort xs = [] \<longleftrightarrow> xs = []"
  by (metis length_0_conv length_sort)

lemma overall_delta:
  assumes c: "c = compare_runs binding b q env_b env_c results_b results_c metrics_b metrics_c names"
    and mb: "mb \<in> set metrics_b" "mr_subgroup mb = []" "distinct (map metric_key metrics_b)"
    and mc: "mc \<in> set metrics_c" "mr_subgroup mc = []" "distinct (map metric_key metrics_c)"
    and same: "mr_definition mc = mr_definition mb" and ok: "\<not> incomparable_key names (env_b = env_c) (mr_definition mb, [])"
    and rule: "gr_definition rule = mr_definition mb" "gr_filter rule = []"
  shows "List.find (rule_matches rule) (co_deltas c @ co_subgroup_deltas c) = Some (metric_delta_of mb mc)"
proof (rule find_unique)
  let ?k = "(mr_definition mb, [] :: (string \<times> string) list)"
  let ?keys = "filter (\<lambda>k. \<not> incomparable_key names (env_b = env_c) k) (common_keys metrics_b metrics_c)"
  have deltas: "co_deltas c = filter (\<lambda>d. md_subgroup d = []) (deltas_of metrics_b metrics_c ?keys)"
    by (simp add: c compare_runs_def Let_def)
  have kb: "metric_key mb = ?k" "metric_key mc = ?k" using mb mc same by (simp_all add: metric_key_def)
  have tables: "metric_table metrics_b ?k = Some mb" "metric_table metrics_c ?k = Some mc"
    using metric_table_unique [OF mb(3,1)] metric_table_unique [OF mc(3,1)] kb by simp_all
  have "?k \<in> metric_key ` set metrics_b \<inter> metric_key ` set metrics_c" using kb mb(1) mc(1) by (metis IntI image_eqI)
  then have "?k \<in> set ?keys" using ok unfolding common_keys_def by simp
  then show "metric_delta_of mb mc \<in> set (co_deltas c)"
  proof -
    have "metric_delta_of mb mc = metric_delta_of (the (metric_table metrics_b ?k)) (the (metric_table metrics_c ?k))" using tables by simp
    then have "metric_delta_of mb mc \<in> set (deltas_of metrics_b metrics_c ?keys)"
      using \<open>?k \<in> set ?keys\<close> unfolding deltas_of_def set_map by (rule image_eqI)
    then show ?thesis using mb(2) by (simp add: deltas metric_delta_of_def)
  qed
  show "rule_matches rule (metric_delta_of mb mc)" using rule by (simp add: rule_matches_def metric_delta_of_def)
  fix d assume "d \<in> set (co_deltas c)" and m: "rule_matches rule d"
  then obtain k where k: "k \<in> set ?keys" "d = metric_delta_of (the (metric_table metrics_b k)) (the (metric_table metrics_c k))" "md_subgroup d = []"
    by (auto simp add: deltas deltas_of_def)
  have "k \<in> metric_key ` set metrics_b" using k(1) unfolding common_keys_def by auto
  then obtain r where r: "metric_table metrics_b k = Some r" using metric_table_defined by blast
  have "mr_definition r = mr_definition mb" "mr_subgroup r = []" using m k(2,3) r rule by (simp_all add: rule_matches_def metric_delta_of_def)
  then have "k = ?k" using metric_tableD [OF r] by (auto simp add: metric_key_def)
  then show "d = metric_delta_of mb mc" using k(2) tables by simp
qed

text \<open>C33. From metrics to the verdict: if the overall value of a metric in the candidate run falls below the
  baseline by more than the threshold of a blocking rule, and both are complete over enough samples,
  then the gate over the comparison of the two runs is blocked; unless the runs cannot be compared,
  when it is indeterminate.  It is never passed.\<close>

theorem regression_never_passes:
  assumes "c = compare_runs binding b q env_b env_c results_b results_c metrics_b metrics_c names"
    "mb \<in> set metrics_b" "mr_subgroup mb = []" "distinct (map metric_key metrics_b)"
    "mc \<in> set metrics_c" "mr_subgroup mc = []" "distinct (map metric_key metrics_c)"
    "mr_definition mc = mr_definition mb" "\<not> incomparable_key names (env_b = env_c) (mr_definition mb, [])"
    "mr_value mb = Some x" "mr_value mc = Some y" "y < x - \<bar>gr_threshold rule\<bar>"
    "mr_complete mb" "mr_complete mc" "gr_min_samples rule \<le> min (mr_samples mb) (mr_samples mc)"
    "rule \<in> set (gc_hard config @ gc_quality config @ gc_performance config)" "gr_definition rule = mr_definition mb" "gr_filter rule = []"
    "gr_comparison rule = MaxAbsoluteDrop" "gr_severity rule = SeverityBlock"
  shows "rgate_verdict (evaluate_gate c config) = (if comparison_ready c then GateBlocked else GateIndeterminate)"
proof -
  have find: "List.find (rule_matches rule) (co_deltas c @ co_subgroup_deltas c) = Some (metric_delta_of mb mc)"
    using overall_delta [OF assms(1-9,17,18)] .
  then have "rule_blocks (co_deltas c @ co_subgroup_deltas c) hard rule" for hard
    using assms by (simp add: rule_blocks_def rule_input_def metric_delta_of_def rule_passes_def)
  then have "list_ex (rule_blocks (co_deltas c @ co_subgroup_deltas c) True) (gc_hard config)
      \<or> list_ex (rule_blocks (co_deltas c @ co_subgroup_deltas c) False) (gc_quality config @ gc_performance config)"
    using assms(16) by (auto simp add: list_ex_iff)
  then show ?thesis unfolding gate_verdict comparison_ready_def by simp
qed

text \<open>Runs over different gold, fixtures, adapters or metric definitions never get a gate.\<close>

lemma mismatch_has_no_gate:
  assumes "c = compare_runs binding b q env_b env_c results_b results_c metrics_b metrics_c names"
    "fp_gold (eu_fingerprint b) \<noteq> fp_gold (eu_fingerprint q) \<or> fp_fixture (eu_fingerprint b) \<noteq> fp_fixture (eu_fingerprint q)
      \<or> fp_adapter_major (eu_fingerprint b) \<noteq> fp_adapter_major (eu_fingerprint q)
      \<or> fp_metrics (eu_fingerprint b) \<noteq> fp_metrics (eu_fingerprint q)"
  shows "create_gate c config = None"
proof -
  have "set (mismatches b q (env_b = env_c)) \<inter> {''gold_hash_mismatch'', ''fixture_hash_mismatch'',
      ''adapter_major_hash_mismatch'', ''metric_definition_hash_mismatch''} \<noteq> {}"
    using assms(2) by (auto simp add: mismatches_def Let_def flag_def)
  then have "sc_compatibility (co_scope c) = Incompatible"
    unfolding assms(1) compare_runs_def Let_def compatibility_of_def by simp
  then show ?thesis by (simp add: create_gate_def comparison_ready_def)
qed

section \<open>Witness\<close>

definition demo_metric :: "real \<Rightarrow> metric_result" where
  "demo_metric v = \<lparr>mr_run = ''x'', mr_definition = ''m'', mr_subgroup = [], mr_value = Some v, mr_numerator = None,
     mr_denominator = None, mr_samples = 2, mr_complete = True, mr_reasons = []\<rparr>"

definition demo_rule :: gate_rule where
  "demo_rule = \<lparr>gr_id = ''rule'', gr_definition = ''m'', gr_scope = ''overall'', gr_filter = [], gr_comparison = MaxAbsoluteDrop,
     gr_threshold = 1 / 10, gr_min_samples = 1, gr_policy = PolicyWarning, gr_severity = SeverityBlock\<rparr>"

definition demo_gate_config :: gate_config where
  "demo_gate_config = \<lparr>gc_version = ''g'', gc_hard = [], gc_quality = [demo_rule], gc_performance = [], gc_min_repeats = None\<rparr>"

definition demo_fingerprint :: run_fingerprint where
  "demo_fingerprint = \<lparr>fp_version = ''v'', fp_case_set = ''a'', fp_gold = ''b'', fp_subject = ''s'', fp_metrics = ''d'', fp_adapters = ''e'',
     fp_adapter_major = ''f'', fp_fixture = ''g'', fp_mode = OfflineRecompute, fp_environment = ''h'', fp_seed = 0, fp_hash = ''i''\<rparr>"

definition demo_run :: eval_run where
  "demo_run = \<lparr>eu_id = ''run'', eu_plan = ''p'', eu_version = ''v'', eu_subject = ''s'', eu_mode = OfflineRecompute, eu_status = EvCompleted,
     eu_fingerprint = demo_fingerprint, eu_environment = ''h'', eu_group = None, eu_repeat = None, eu_attempt = 1, eu_retry_of = None,
     eu_cancel = False, eu_counts = [], eu_complete = True, eu_reasons = [], eu_error = None,
     eu_created = 0, eu_updated = 0\<rparr>"

definition demo_case_result :: case_result where
  "demo_case_result = \<lparr>cr_id = ''id'', cr_run = ''x'', cr_case = ''c'', cr_component = EvIndex, cr_status = ExecCompleted, cr_outcome = Some OutcomePassed,
     cr_complete = True, cr_incomplete = [], cr_error = None, cr_failures = [], cr_value = None, cr_trace = None, cr_latency = None\<rparr>"

definition demo_comparison :: regression_comparison where
  "demo_comparison = compare_runs ''bind'' demo_run demo_run ''h'' ''h'' [demo_case_result] [demo_case_result] [demo_metric 1] [demo_metric (1 / 2)] []"

lemma demo_ready: "comparison_ready demo_comparison"
  by (simp add: comparison_ready_def demo_comparison_def compare_runs_def Let_def compatibility_of_def mismatches_def flag_def
      sorted_names_def common_keys_def metric_key_def demo_metric_def incomparable_key_def)

lemma regression_never_passes_witness: "rgate_verdict (evaluate_gate demo_comparison demo_gate_config) = GateBlocked"
  using regression_never_passes [OF demo_comparison_def, of "demo_metric 1" "demo_metric (1 / 2)" 1 "1 / 2" demo_rule demo_gate_config] demo_ready
  by (simp add: demo_metric_def demo_rule_def demo_gate_config_def incomparable_key_def)

end
