(* ===== verification/Ev_Store.thy ===== *)
theory Ev_Store
  imports Ev_Gate
begin

text \<open>
  The SQLite store of the evaluation subsystem (\<open>persistence/evaluation_store.py\<close>), with freezing
  dataset versions (\<open>evaluation/dataset_catalog.py\<close>) and promoting baselines
  (\<open>evaluation/baseline_service.py\<close>, \<open>evaluation/subjects.py\<close>).  A table is a list of rows; a row that
  the store keeps as JSON is compared as a record.  Each method is one step, reads included.
\<close>

section \<open>Rows\<close>

datatype subject_type = CodeCommit | WorktreePatch | Configuration | PromptProfile | ModelProfile | Combined

primrec subject_type_name :: "subject_type \<Rightarrow> string" where
  "subject_type_name CodeCommit = ''code_commit''"
| "subject_type_name WorktreePatch = ''worktree_patch''"
| "subject_type_name Configuration = ''configuration''"
| "subject_type_name PromptProfile = ''prompt_profile''"
| "subject_type_name ModelProfile = ''model_profile''"
| "subject_type_name Combined = ''combined''"

record eval_subject =
  es_id :: string
  es_type :: subject_type
  es_commit :: string
  es_tag :: "string option"
  es_patch :: "string option"
  es_config :: string
  es_prompts :: "(string \<times> string) list"
  es_models :: "(string \<times> string) list"
  es_providers :: "(string \<times> string) list"
  es_lock :: string
  es_hash :: string

definition string_dict :: "(string \<times> string) list \<Rightarrow> json" where
  "string_dict kvs = JObj (map (\<lambda>(k, v). (k, JStr v)) kvs)"

definition subject_hash :: "eval_subject \<Rightarrow> string" where
  "subject_hash s = eval_hash (JObj [(''subject_type'', JStr (subject_type_name (es_type s))), (''code_commit_sha'', JStr (es_commit s)),
     (''code_tag'', json_opt (es_tag s)), (''worktree_patch_hash'', json_opt (es_patch s)), (''config_hash'', JStr (es_config s)),
     (''prompt_profile_ids'', string_dict (es_prompts s)), (''model_profile_ids'', string_dict (es_models s)),
     (''provider_revisions'', string_dict (es_providers s)), (''dependency_lock_hash'', JStr (es_lock s))])"

definition formal_baseline_eligible :: "eval_subject \<Rightarrow> bool" where
  "formal_baseline_eligible s \<longleftrightarrow> es_type s \<in> {CodeCommit, Combined} \<and> es_patch s = None"

record eval_plan =
  ep_id :: string
  ep_version :: string
  ep_subject :: string
  ep_mode :: eval_mode
  ep_cases :: "string list"
  ep_definitions :: "string list"
  ep_binding :: "string option"
  ep_gate :: "string option"
  ep_config :: string

record eval_lease =
  el_run :: string
  el_owner :: string
  el_token :: string
  el_expires :: nat

datatype baseline_status = BaselineActive | BaselineSuperseded | BaselineRetired

record baseline_binding =
  bb_id :: string
  bb_version :: string
  bb_component :: eval_component
  bb_mode :: eval_mode
  bb_profile :: string
  bb_gate :: string
  bb_run :: string
  bb_subject :: string
  bb_status :: baseline_status

datatype bad_symptom = WrongAnswer | PartialAnswer | EmptyResult | WrongAlignment | InvalidCitation | UnsupportedClaim | Timeout
  | BudgetExhausted | UnexpectedAbstention | FalseAccept | TraceIncomplete

datatype root_cause = DatasetInvalid | ProfileExtractionError | IndexMissingEntity | IndexWrongEdge | RetrievalMiss | RetrievalRankError
  | GraphPathMissing | RerankerRegression | RouterError | PlanInvalid | ToolSelectionError | ToolArgumentError | ToolEmpty
  | EvidenceCheckerError | ContextTruncation | ProviderError | AlignmentCandidateMiss | AlignmentFeatureError | AlignmentScoringError
  | CalibrationError | AbstentionThresholdError | Nondeterminism | TelemetryDrop | UnknownCause

datatype bad_trigger = ExecutionErrorTrigger | QualityFailureTrigger | GoldInvalidTrigger | NotEvaluableTrigger | TelemetryIncompleteTrigger

datatype bad_status = BadOpen | BadTriaged | BadConfirmed | BadFixing | BadFixed | BadVerified | BadClosed | BadRejected

record bad_case =
  bc_id :: string
  bc_fingerprint :: string
  bc_result :: string
  bc_run :: string
  bc_family :: string
  bc_case :: string
  bc_component :: eval_component
  bc_symptom :: bad_symptom
  bc_trigger :: bad_trigger
  bc_suggested :: "(root_cause \<times> string) list"
  bc_cause :: "root_cause option"
  bc_status :: bad_status
  bc_revision :: nat
  bc_high :: bool
  bc_evidence :: "string list"
  bc_fix :: "string option"
  bc_verification :: "string option"
  bc_first :: string
  bc_last :: string
  bc_count :: nat

record bad_occurrence =
  oc_id :: string
  oc_bad_case :: string
  oc_run :: string
  oc_result :: string
  oc_subject :: string

record bad_event =
  be_id :: string
  be_bad_case :: string
  be_sequence :: nat
  be_from :: "bad_status option"
  be_to :: bad_status
  be_actor :: string
  be_based_on :: nat
  be_reason :: string
  be_refs :: "string list"

record bad_verification =
  bv_id :: string
  bv_bad_case :: string
  bv_run :: string
  bv_result :: string
  bv_rules :: "string list"
  bv_case_passed :: bool
  bv_rules_passed :: bool
  bv_regression_passed :: bool

datatype reproduction = ReproductionPending | Reproduced | NotReproducible | ReproductionRejected

record case_promotion =
  cp_id :: string
  cp_bad_case :: string
  cp_source :: string
  cp_target :: string
  cp_new_case :: string
  cp_reproduction_result :: "string option"
  cp_status :: reproduction
  cp_gold_approved :: bool
  cp_fix :: "string option"
  cp_created :: nat

record eval_db =
  ed_datasets :: "string list"
  ed_versions :: "dataset_version list"
  ed_cases :: "eval_case list"
  ed_subjects :: "eval_subject list"
  ed_environments :: "(string \<times> string) list"
  ed_definitions :: "string list"
  ed_plans :: "eval_plan list"
  ed_runs :: "eval_run list"
  ed_leases :: "eval_lease list"
  ed_results :: "case_result list"
  ed_metrics :: "(string \<times> metric_result) list"
  ed_gates :: "gate_config list"
  ed_bindings :: "baseline_binding list"
  ed_bad_cases :: "bad_case list"
  ed_occurrences :: "bad_occurrence list"
  ed_events :: "bad_event list"
  ed_verifications :: "bad_verification list"
  ed_promotions :: "case_promotion list"

section \<open>Reading and writing rows\<close>

definition eval_error :: "string \<Rightarrow> exn + 'a" where
  "eval_error code = Inl (PlainError (Some code) [])"

definition read_row :: "string \<Rightarrow> ('r \<Rightarrow> string) \<Rightarrow> (eval_db \<Rightarrow> 'r list) \<Rightarrow> string \<Rightarrow> eval_db \<Rightarrow> (eval_db, 'r) outcome" where
  "read_row code key table i db = ((case find_by key i (table db) of None \<Rightarrow> eval_error code | Some r \<Rightarrow> Inr r), db)"

definition get_version :: "string \<Rightarrow> eval_db \<Rightarrow> (eval_db, dataset_version) outcome" where
  "get_version = read_row ''evaluation_dataset_version_not_found'' dv_id ed_versions"

definition get_subject :: "string \<Rightarrow> eval_db \<Rightarrow> (eval_db, eval_subject) outcome" where
  "get_subject = read_row ''evaluation_subject_not_found'' es_id ed_subjects"

definition get_environment :: "string \<Rightarrow> eval_db \<Rightarrow> (eval_db, string \<times> string) outcome" where
  "get_environment = read_row ''evaluation_environment_not_found'' fst ed_environments"

definition get_plan :: "string \<Rightarrow> eval_db \<Rightarrow> (eval_db, eval_plan) outcome" where
  "get_plan = read_row ''evaluation_plan_not_found'' ep_id ed_plans"

definition get_eval_run :: "string \<Rightarrow> eval_db \<Rightarrow> (eval_db, eval_run) outcome" where
  "get_eval_run = read_row ''evaluation_run_not_found'' eu_id ed_runs"

definition get_bad_case :: "string \<Rightarrow> eval_db \<Rightarrow> (eval_db, bad_case) outcome" where
  "get_bad_case = read_row ''bad_case_not_found'' bc_id ed_bad_cases"

text \<open>\<open>_immutable_json\<close>: a row is inserted once and never changed.\<close>

definition keep_or_add :: "string \<Rightarrow> ('r \<Rightarrow> string) \<Rightarrow> 'r \<Rightarrow> 'r list \<Rightarrow> exn + 'r list" where
  "keep_or_add code key r rows =
     (case find_by key (key r) rows of
        None \<Rightarrow> Inr (rows @ [r])
      | Some x \<Rightarrow> if x = r then Inr rows else eval_error code)"

definition save_subject :: "eval_subject \<Rightarrow> eval_db \<Rightarrow> (eval_db, unit) outcome" where
  "save_subject s db =
     (if subject_hash s \<noteq> es_hash s then (eval_error ''evaluation_subject_hash_mismatch'', db)
      else case keep_or_add ''evaluation_subject_immutable'' es_id s (ed_subjects db) of
          Inl e \<Rightarrow> (Inl e, db)
        | Inr rows \<Rightarrow> if es_id s \<notin> es_id ` set (ed_subjects db) \<and> es_hash s \<in> es_hash ` set (ed_subjects db) then (Inl IntegrityError, db)
                      else (Inr (), db\<lparr>ed_subjects := rows\<rparr>))"

definition save_environment :: "string \<times> string \<Rightarrow> eval_db \<Rightarrow> (eval_db, unit) outcome" where
  "save_environment e db =
     (case keep_or_add ''evaluation_environment_immutable'' fst e (ed_environments db) of
        Inl x \<Rightarrow> (Inl x, db)
      | Inr rows \<Rightarrow> if fst e \<notin> fst ` set (ed_environments db) \<and> snd e \<in> snd ` set (ed_environments db) then (Inl IntegrityError, db)
                    else (Inr (), db\<lparr>ed_environments := rows\<rparr>))"

section \<open>Datasets\<close>

definition save_version :: "dataset_version \<Rightarrow> eval_db \<Rightarrow> (eval_db, unit) outcome" where
  "save_version v db =
     (case find_by dv_id (dv_id v) (ed_versions db) of
        None \<Rightarrow> if dv_dataset v \<notin> set (ed_datasets db) then (Inl IntegrityError, db)
                else (Inr (), db\<lparr>ed_versions := ed_versions db @ [v]\<rparr>)
      | Some x \<Rightarrow>
          if dv_status x = VersionFrozen \<and> x \<noteq> v then (eval_error ''evaluation_dataset_version_frozen'', db)
          else if dv_status x \<in> {VersionDraft, VersionValidating}
          then (Inr (), db\<lparr>ed_versions := update_by dv_id (dv_id v) (\<lambda>_. v) (ed_versions db)\<rparr>)
          else (Inr (), db))"

definition save_case :: "eval_case \<Rightarrow> eval_db \<Rightarrow> (eval_db, unit) outcome" where
  "save_case c db =
     and_then (get_version (ec_version c) db) (\<lambda>v db.
       case find_by ec_id (ec_id c) (ed_cases db) of
         None \<Rightarrow> if dv_status v = VersionFrozen then (eval_error ''evaluation_dataset_version_frozen'', db)
                 else (Inr (), db\<lparr>ed_cases := ed_cases db @ [c]\<rparr>)
       | Some x \<Rightarrow> if x = c then (Inr (), db) else (eval_error ''evaluation_case_immutable'', db))"

definition cases_of :: "string \<Rightarrow> eval_db \<Rightarrow> eval_case list" where
  "cases_of v db = sort_key ec_id (filter (\<lambda>c. ec_version c = v) (ed_cases db))"

definition list_cases :: "string \<Rightarrow> string list \<Rightarrow> eval_db \<Rightarrow> (eval_db, eval_case list) outcome" where
  "list_cases v ids db =
     (let items = filter (\<lambda>c. ids = [] \<or> ec_id c \<in> set ids) (cases_of v db) in
      if ids \<noteq> [] \<and> set (map ec_id items) \<noteq> set ids then (eval_error ''evaluation_case_not_found'', db) else (Inr items, db))"

text \<open>What pydantic dumps, and the built-in version of an adapter, are parameters.\<close>

record live_trial =
  lt_group :: string
  lt_repeats :: nat

record eval_dumps =
  dump_case :: "eval_case \<Rightarrow> json"
  dump_gold :: "gold \<Rightarrow> json"
  dump_fixture :: "string \<Rightarrow> json"
  dump_definition :: "eval_component \<times> string \<Rightarrow> json"
  dump_trial :: "live_trial \<Rightarrow> json"
  adapter_version :: "eval_component \<Rightarrow> string"

definition unreviewed :: "eval_case \<Rightarrow> bool" where
  "unreviewed c \<longleftrightarrow> ec_source c = HumanAuthored
     \<and> (card (set (ec_annotators c)) < 2 \<or> ec_adjudication c \<notin> {Agreed, Adjudicated})"

definition split_leak :: "eval_case list \<Rightarrow> bool" where
  "split_leak cs \<longleftrightarrow> list_ex (\<lambda>c. list_ex (\<lambda>d. ec_family c = ec_family d \<and> ec_split c \<noteq> ec_split d) cs) cs"

definition freeze_check :: "dataset_version \<Rightarrow> eval_case list \<Rightarrow> exn + unit" where
  "freeze_check v cs =
     (if dv_status v \<notin> {VersionDraft, VersionValidating} then eval_error ''dataset_not_freezable''
      else if cs = [] then eval_error ''dataset_has_no_cases''
      else if list_ex (\<lambda>c. ec_adjudication c \<in> {AdjPending, Disputed}) cs then eval_error ''gold_adjudication_incomplete''
      else if list_ex unreviewed cs then eval_error ''human_gold_double_review_required''
      else if split_leak cs then eval_error ''evaluation_case_split_leakage''
      else Inr ())"

definition frozen_version :: "eval_dumps \<Rightarrow> eval_case list \<Rightarrow> dataset_version \<Rightarrow> dataset_version" where
  "frozen_version dumps cs v = v\<lparr>dv_status := VersionFrozen, dv_case_count := length cs,
     dv_content_hash := eval_hash (JArr (map (dump_case dumps) cs)),
     dv_gold_hash := eval_hash (JArr (map (\<lambda>c. dump_gold dumps (ec_gold c)) cs)),
     dv_fixture_hash := eval_hash (JArr (map (\<lambda>c. dump_fixture dumps (ec_fixture c)) cs))\<rparr>"

definition validate_and_freeze :: "eval_dumps \<Rightarrow> string \<Rightarrow> eval_db \<Rightarrow> (eval_db, dataset_version) outcome" where
  "validate_and_freeze dumps i db =
     and_then (get_version i db) (\<lambda>v db.
       if dv_status v = VersionFrozen then (Inr v, db)
       else case freeze_check v (cases_of i db) of
           Inl e \<Rightarrow> (Inl e, db)
         | Inr _ \<Rightarrow> let f = frozen_version dumps (cases_of i db) v in and_then (save_version f db) (\<lambda>_ db. (Inr f, db)))"

section \<open>Runs\<close>

definition terminal_status :: "eval_status \<Rightarrow> bool" where
  "terminal_status s \<longleftrightarrow> s \<in> {EvCompleted, EvPartial, EvFailed, EvCancelled}"

primrec RUN_TRANSITIONS :: "eval_status \<Rightarrow> eval_status list" where
  "RUN_TRANSITIONS EvQueued = [EvPreparing, EvFailed, EvCancelled]"
| "RUN_TRANSITIONS EvPreparing = [EvRunning, EvFailed, EvCancelled]"
| "RUN_TRANSITIONS EvRunning = [EvAggregating, EvFailed, EvCancelled]"
| "RUN_TRANSITIONS EvAggregating = [EvComparing, EvCompleted, EvPartial, EvFailed, EvCancelled]"
| "RUN_TRANSITIONS EvComparing = [EvCompleted, EvPartial, EvFailed, EvCancelled]"
| "RUN_TRANSITIONS EvCompleted = []"
| "RUN_TRANSITIONS EvPartial = []"
| "RUN_TRANSITIONS EvFailed = []"
| "RUN_TRANSITIONS EvCancelled = []"

definition save_run :: "eval_run \<Rightarrow> eval_db \<Rightarrow> (eval_db, unit) outcome" where
  "save_run run db =
     (case find_by eu_id (eu_id run) (ed_runs db) of
        Some x \<Rightarrow> if x = run then (Inr (), db) else (eval_error ''evaluation_run_conflict'', db)
      | None \<Rightarrow>
          if eu_plan run \<in> ep_id ` set (ed_plans db) \<and> eu_subject run \<in> es_id ` set (ed_subjects db)
            \<and> eu_environment run \<in> fst ` set (ed_environments db)
          then (Inr (), db\<lparr>ed_runs := ed_runs db @ [run]\<rparr>)
          else (eval_error ''evaluation_run_not_found'', db))"

definition update_run :: "eval_run \<Rightarrow> eval_db \<Rightarrow> (eval_db, unit) outcome" where
  "update_run run db =
     and_then (get_eval_run (eu_id run) db) (\<lambda>current db.
       if terminal_status (eu_status current) then (eval_error ''evaluation_run_immutable'', db)
       else if eu_status run \<noteq> eu_status current \<and> eu_status run \<notin> set (RUN_TRANSITIONS (eu_status current))
       then (eval_error ''evaluation_run_transition_invalid'', db)
       else (Inr (), db\<lparr>ed_runs := update_by eu_id (eu_id run) (\<lambda>_. run) (ed_runs db)\<rparr>))"

definition request_eval_cancel :: "string \<Rightarrow> nat \<Rightarrow> eval_db \<Rightarrow> (eval_db, eval_run) outcome" where
  "request_eval_cancel i now db =
     and_then (get_eval_run i db) (\<lambda>run db.
       if terminal_status (eu_status run) then (eval_error ''evaluation_cancel_not_allowed'', db)
       else let u = run\<lparr>eu_cancel := True, eu_updated := now\<rparr> in and_then (update_run u db) (\<lambda>_ db. (Inr u, db)))"

definition find_reusable_run :: "string \<Rightarrow> eval_db \<Rightarrow> eval_run option" where
  "find_reusable_run h db =
     (case sort_key (\<lambda>r. (eu_attempt r, eu_created r))
         (filter (\<lambda>r. fp_hash (eu_fingerprint r) = h \<and> eu_status r \<notin> {EvPartial, EvFailed, EvCancelled}) (ed_runs db)) of
        [] \<Rightarrow> None | rs \<Rightarrow> Some (last rs))"

definition list_trial_runs :: "string \<Rightarrow> eval_db \<Rightarrow> eval_run list" where
  "list_trial_runs g db = filter (\<lambda>r. eu_group r = Some g) (sort_key eu_created (ed_runs db))"

definition save_result :: "case_result \<Rightarrow> eval_db \<Rightarrow> (eval_db, unit) outcome" where
  "save_result r db =
     (case keep_or_add ''evaluation_case_result_immutable'' cr_id r (ed_results db) of
        Inl e \<Rightarrow> (Inl e, db)
      | Inr rows \<Rightarrow>
          if cr_run r \<in> eu_id ` set (ed_runs db) \<and> cr_case r \<in> ec_id ` set (ed_cases db) then (Inr (), db\<lparr>ed_results := rows\<rparr>)
          else (Inl IntegrityError, db))"

definition results_of :: "string \<Rightarrow> eval_db \<Rightarrow> case_result list" where
  "results_of i db = filter (\<lambda>r. cr_run r = i) (ed_results db)"

definition metric_result_id :: "metric_result \<Rightarrow> string" where
  "metric_result_id m = eval_id ''metric_result'' (JArr [JStr (mr_run m), JStr (mr_definition m), string_dict (mr_subgroup m)])"

definition save_metric :: "metric_result \<Rightarrow> eval_db \<Rightarrow> (eval_db, unit) outcome" where
  "save_metric m db =
     (case map_of (ed_metrics db) (metric_result_id m) of
        Some x \<Rightarrow> if x = m then (Inr (), db) else (eval_error ''metric_result_immutable'', db)
      | None \<Rightarrow>
          if mr_definition m \<in> set (ed_definitions db) \<and> mr_run m \<in> eu_id ` set (ed_runs db)
          then (Inr (), db\<lparr>ed_metrics := ed_metrics db @ [(metric_result_id m, m)]\<rparr>)
          else (Inl IntegrityError, db))"

section \<open>Leases\<close>

definition eval_claimable :: "nat \<Rightarrow> eval_db \<Rightarrow> eval_run \<Rightarrow> bool" where
  "eval_claimable now db r \<longleftrightarrow> \<not> terminal_status (eu_status r)
     \<and> (case find_by el_run (eu_id r) (ed_leases db) of None \<Rightarrow> True | Some l \<Rightarrow> el_expires l \<le> now)"

definition list_claimable_runs :: "nat \<Rightarrow> nat \<Rightarrow> eval_db \<Rightarrow> eval_run list" where
  "list_claimable_runs limit now db = take limit (sort_key eu_created (filter (eval_claimable now db) (ed_runs db)))"

definition acquire_eval_lease :: "string \<Rightarrow> string \<Rightarrow> string \<Rightarrow> nat \<Rightarrow> nat \<Rightarrow> eval_db \<Rightarrow> eval_lease option \<times> eval_db" where
  "acquire_eval_lease i owner token now seconds db =
     (case find_by eu_id i (ed_runs db) of
        None \<Rightarrow> (None, db)
      | Some r \<Rightarrow>
          if eval_claimable now db r
          then (let l = \<lparr>el_run = i, el_owner = owner, el_token = token, el_expires = now + seconds\<rparr>
                in (Some l, db\<lparr>ed_leases := filter (\<lambda>x. el_run x \<noteq> i) (ed_leases db) @ [l]\<rparr>))
          else (None, db))"

definition holds_eval_lease :: "eval_lease \<Rightarrow> eval_lease \<Rightarrow> bool" where
  "holds_eval_lease l x \<longleftrightarrow> el_run x = el_run l \<and> el_owner x = el_owner l \<and> el_token x = el_token l"

definition renew_eval_lease :: "eval_lease \<Rightarrow> nat \<Rightarrow> nat \<Rightarrow> eval_db \<Rightarrow> (eval_db, eval_lease) outcome" where
  "renew_eval_lease l now seconds db =
     (if list_ex (holds_eval_lease l) (ed_leases db)
      then (Inr (l\<lparr>el_expires := now + seconds\<rparr>),
        db\<lparr>ed_leases := update_where (holds_eval_lease l) (\<lambda>x. x\<lparr>el_expires := now + seconds\<rparr>) (ed_leases db)\<rparr>)
      else (eval_error ''evaluation_lease_lost'', db))"

definition release_eval_lease :: "eval_lease \<Rightarrow> eval_db \<Rightarrow> eval_db" where
  "release_eval_lease l db = db\<lparr>ed_leases := filter (\<lambda>x. \<not> holds_eval_lease l x) (ed_leases db)\<rparr>"

section \<open>Baselines\<close>

definition same_scope :: "baseline_binding \<Rightarrow> baseline_binding \<Rightarrow> bool" where
  "same_scope a b \<longleftrightarrow> bb_version a = bb_version b \<and> bb_component a = bb_component b \<and> bb_mode a = bb_mode b \<and> bb_gate a = bb_gate b"

text \<open>One transaction; the primary key refuses a binding that was there before.\<close>

definition store_baseline :: "baseline_binding \<Rightarrow> eval_db \<Rightarrow> (eval_db, unit) outcome" where
  "store_baseline b db =
     and_then (get_eval_run (bb_run b) db) (\<lambda>run db. and_then (get_subject (bb_subject b) db) (\<lambda>subject db.
       if eu_status run \<noteq> EvCompleted \<or> \<not> eu_complete run then (eval_error ''baseline_run_incomplete'', db)
       else if eu_subject run \<noteq> bb_subject b \<or> eu_version run \<noteq> bb_version b then (eval_error ''baseline_binding_identity_mismatch'', db)
       else if subject_hash subject \<noteq> es_hash subject then (eval_error ''evaluation_subject_hash_mismatch'', db)
       else if \<not> formal_baseline_eligible subject then (eval_error ''formal_baseline_requires_clean_commit_subject'', db)
       else if bb_id b \<in> bb_id ` set (ed_bindings db) then (Inl IntegrityError, db)
       else (Inr (), db\<lparr>ed_bindings := update_where (\<lambda>x. same_scope x b \<and> bb_status x = BaselineActive)
              (\<lambda>x. x\<lparr>bb_status := BaselineSuperseded\<rparr>) (ed_bindings db) @ [b]\<rparr>)))"

definition completed_repeats :: "eval_run list \<Rightarrow> nat set" where
  "completed_repeats runs = \<Union> (set (map (\<lambda>r. if eu_status r = EvCompleted \<and> eu_complete r then set_option (eu_repeat r) else {}) runs))"

definition promote_baseline ::
    "string \<Rightarrow> eval_component \<Rightarrow> eval_mode \<Rightarrow> gate_config \<Rightarrow> string \<Rightarrow> eval_db \<Rightarrow> (eval_db, baseline_binding) outcome" where
  "promote_baseline version component mode gate run_id db =
     and_then (get_eval_run run_id db) (\<lambda>run db.
       if eu_status run \<noteq> EvCompleted \<or> \<not> eu_complete run then (eval_error ''baseline_run_incomplete'', db)
       else if mode = LiveExperiment \<and> card (completed_repeats (case eu_group run of None \<Rightarrow> [run]
            | Some g \<Rightarrow> if g = [] then [run] else list_trial_runs g db)) < (case gc_min_repeats gate of None \<Rightarrow> 2 | Some n \<Rightarrow> n)
       then (eval_error ''live_repeat_insufficient'', db)
       else let sources = remdups (map ec_source (filter (\<lambda>c. ec_component c = component) (cases_of version db))) in
         if sources = [] then (eval_error ''baseline_component_cases_missing'', db)
         else let b = \<lparr>bb_id = eval_id ''baseline'' (json_strings [version, component_name component, eval_mode_name mode, gc_version gate, run_id]),
                bb_version = version, bb_component = component, bb_mode = mode,
                bb_profile = (case sources of [s] \<Rightarrow> dataset_source_name s | _ \<Rightarrow> ''mixed''),
                bb_gate = gc_version gate, bb_run = run_id, bb_subject = eu_subject run, bb_status = BaselineActive\<rparr>
              in and_then (store_baseline b db) (\<lambda>_ db. (Inr b, db)))"

end
