(* ===== verification/Ev_Service.thy ===== *)
theory Ev_Service
  imports Ev_Store
begin

text \<open>
  Bad cases (\<open>evaluation/bad_case_analyzer.py\<close>, \<open>evaluation/bad_case_service.py\<close>,
  \<open>evaluation/promotion_service.py\<close>).  The times of bad cases, occurrences and events are left out.
\<close>

section \<open>Finding bad cases\<close>

definition trigger_type :: "case_result \<Rightarrow> bad_trigger option" where
  "trigger_type r =
     (if cr_status r = ExecError then Some ExecutionErrorTrigger
      else if cr_outcome r = Some OutcomeFailed then Some QualityFailureTrigger
      else if cr_outcome r = Some OutcomeNotEvaluable then Some NotEvaluableTrigger
      else if cr_outcome r = Some OutcomeIndeterminate \<or> \<not> cr_complete r then Some TelemetryIncompleteTrigger
      else None)"

definition error_code_of :: "case_result \<Rightarrow> string" where
  "error_code_of r = (case cr_error r of None \<Rightarrow> [] | Some e \<Rightarrow> e)"

definition symptom_of :: "eval_case \<Rightarrow> case_result \<Rightarrow> bad_symptom" where
  "symptom_of c r = (let codes = set (cr_failures r @ cr_incomplete r) in
     if sublist ''timeout'' (error_code_of r) then Timeout
     else if ec_component c = EvAlignment then (if ''alignment_selection_mismatch'' \<in> codes then WrongAlignment else UnexpectedAbstention)
     else if ec_component c = EvObservability \<or> \<not> cr_complete r then TraceIncomplete
     else if ec_component c = EvAnswer then (if ''answer_partial_mismatch'' \<in> codes then PartialAnswer else WrongAnswer)
     else if list_ex (sublist ''empty'') (cr_failures r @ cr_incomplete r) then EmptyResult
     else WrongAnswer)"

definition failure_code_of :: "case_result \<Rightarrow> string" where
  "failure_code_of r = (let codes = (if cr_failures r \<noteq> [] then cr_failures r else cr_incomplete r) in
     if error_code_of r \<noteq> [] then error_code_of r
     else case sort codes of [] \<Rightarrow> ''not_evaluable'' | x # _ \<Rightarrow> x)"

primrec symptom_name :: "bad_symptom \<Rightarrow> string" where
  "symptom_name WrongAnswer = ''wrong_answer''"
| "symptom_name PartialAnswer = ''partial_answer''"
| "symptom_name EmptyResult = ''empty_result''"
| "symptom_name WrongAlignment = ''wrong_alignment''"
| "symptom_name InvalidCitation = ''invalid_citation''"
| "symptom_name UnsupportedClaim = ''unsupported_claim''"
| "symptom_name Timeout = ''timeout''"
| "symptom_name BudgetExhausted = ''budget_exhausted''"
| "symptom_name UnexpectedAbstention = ''unexpected_abstention''"
| "symptom_name FalseAccept = ''false_accept''"
| "symptom_name TraceIncomplete = ''trace_incomplete''"

definition bad_fingerprint :: "eval_case \<Rightarrow> case_result \<Rightarrow> string" where
  "bad_fingerprint c r = eval_hash (json_strings
     [ec_family c, component_name (ec_component c), symptom_name (symptom_of c r), failure_code_of r])"

definition suggested_cause :: "eval_case \<Rightarrow> case_result \<Rightarrow> root_cause" where
  "suggested_cause c r =
     (if error_code_of r \<noteq> [] then (if sublist ''provider'' (error_code_of r) then ProviderError else UnknownCause)
      else case ec_component c of EvRetrieval \<Rightarrow> RetrievalMiss | EvAlignment \<Rightarrow> AlignmentScoringError | EvAgent \<Rightarrow> ToolSelectionError
        | EvObservability \<Rightarrow> TelemetryDrop | _ \<Rightarrow> UnknownCause)"

text \<open>\<open>save_bad_case\<close>: a new row, or the next revision of an old one; the fingerprint is unique.\<close>

definition save_bad_case :: "bad_case \<Rightarrow> eval_db \<Rightarrow> (eval_db, unit) outcome" where
  "save_bad_case b db =
     (case find_by bc_id (bc_id b) (ed_bad_cases db) of
        None \<Rightarrow> if bc_fingerprint b \<in> bc_fingerprint ` set (ed_bad_cases db) then (Inl IntegrityError, db)
                else (Inr (), db\<lparr>ed_bad_cases := ed_bad_cases db @ [b]\<rparr>)
      | Some x \<Rightarrow>
          if x = b then (Inr (), db)
          else if bc_revision b \<noteq> bc_revision x + 1 then (eval_error ''bad_case_conflict'', db)
          else (Inr (), db\<lparr>ed_bad_cases := update_by bc_id (bc_id b) (\<lambda>_. b\<lparr>bc_fingerprint := bc_fingerprint x\<rparr>) (ed_bad_cases db)\<rparr>))"

definition append_event :: "bad_event \<Rightarrow> eval_db \<Rightarrow> (eval_db, unit) outcome" where
  "append_event e db =
     (case find_by be_id (be_id e) (ed_events db) of
        Some x \<Rightarrow> if x = e then (Inr (), db) else (eval_error ''bad_case_event_immutable'', db)
      | None \<Rightarrow>
          if be_bad_case e \<notin> bc_id ` set (ed_bad_cases db)
            \<or> (be_bad_case e, be_sequence e) \<in> (\<lambda>x. (be_bad_case x, be_sequence x)) ` set (ed_events db)
          then (Inl IntegrityError, db)
          else (Inr (), db\<lparr>ed_events := ed_events db @ [e]\<rparr>))"

definition append_occurrence :: "bad_occurrence \<Rightarrow> eval_db \<Rightarrow> (eval_db, unit) outcome" where
  "append_occurrence x db =
     (case keep_or_add ''bad_case_occurrence_immutable'' oc_id x (ed_occurrences db) of
        Inl e \<Rightarrow> (Inl e, db)
      | Inr rows \<Rightarrow> if oc_bad_case x \<in> bc_id ` set (ed_bad_cases db) then (Inr (), db\<lparr>ed_occurrences := rows\<rparr>)
                    else (Inl IntegrityError, db))"

definition event_id_of :: "string \<Rightarrow> nat \<Rightarrow> string" where
  "event_id_of b n = eval_id ''bad_case_event'' (JArr [JStr b, JInt (int n)])"

definition new_bad_case :: "eval_case \<Rightarrow> case_result \<Rightarrow> bad_trigger \<Rightarrow> bad_case" where
  "new_bad_case c r trigger =
     \<lparr>bc_id = eval_id ''bad_case'' (JStr (bad_fingerprint c r)), bc_fingerprint = bad_fingerprint c r, bc_result = cr_id r, bc_run = cr_run r,
      bc_family = ec_family c, bc_case = ec_id c, bc_component = ec_component c, bc_symptom = symptom_of c r, bc_trigger = trigger,
      bc_suggested = [(suggested_cause c r, failure_code_of r)], bc_cause = None, bc_status = BadOpen, bc_revision = 0,
      bc_high = (trigger \<in> {ExecutionErrorTrigger, QualityFailureTrigger}), bc_evidence = [], bc_fix = None, bc_verification = None,
      bc_first = cr_run r, bc_last = cr_run r, bc_count = 1\<rparr>"

definition seen_again :: "case_result \<Rightarrow> bad_case \<Rightarrow> bad_case" where
  "seen_again r b = b\<lparr>bc_status := (if bc_status b = BadClosed then BadOpen else bc_status b), bc_last := cr_run r,
     bc_count := bc_count b + 1, bc_revision := bc_revision b + 1\<rparr>"

definition recurrence_event :: "bad_case \<Rightarrow> bad_event" where
  "recurrence_event b = \<lparr>be_id = event_id_of (bc_id b) (bc_revision b + 1), be_bad_case = bc_id b, be_sequence = bc_revision b + 1,
     be_from = Some BadClosed, be_to = BadOpen, be_actor = eval_hash (JStr ''automatic-recurrence''), be_based_on = bc_revision b,
     be_reason = ''bad_case_recurred'', be_refs = []\<rparr>"

definition occurrence_of :: "string \<Rightarrow> case_result \<Rightarrow> string \<Rightarrow> bad_occurrence" where
  "occurrence_of b r subject = \<lparr>oc_id = eval_id ''occurrence'' (json_strings [b, cr_id r]), oc_bad_case = b, oc_run = cr_run r,
     oc_result = cr_id r, oc_subject = subject\<rparr>"

definition analyze :: "eval_case \<Rightarrow> case_result \<Rightarrow> string \<Rightarrow> eval_db \<Rightarrow> (eval_db, bad_case option) outcome" where
  "analyze c r subject db =
     (case trigger_type r of
        None \<Rightarrow> (Inr None, db)
      | Some trigger \<Rightarrow>
          (case find_by oc_id (oc_id (occurrence_of (bc_id (new_bad_case c r trigger)) r subject)) (ed_occurrences db) of
             Some x \<Rightarrow> and_then (get_bad_case (oc_bad_case x) db) (\<lambda>b db. (Inr (Some b), db))
           | None \<Rightarrow>
               (case find_by bc_fingerprint (bad_fingerprint c r) (ed_bad_cases db) of
                  None \<Rightarrow> (let b = new_bad_case c r trigger in
                    and_then (save_bad_case b db) (\<lambda>_ db. and_then (append_occurrence (occurrence_of (bc_id b) r subject) db) (\<lambda>_ db. (Inr (Some b), db))))
                | Some b \<Rightarrow>
                    and_then (if bc_status b = BadClosed then append_event (recurrence_event b) db else (Inr (), db)) (\<lambda>_ db.
                    and_then (save_bad_case (seen_again r b) db) (\<lambda>_ db.
                    and_then (append_occurrence ((occurrence_of (bc_id (new_bad_case c r trigger)) r subject)\<lparr>oc_bad_case := bc_id b\<rparr>) db)
                      (\<lambda>_ db. (Inr (Some (seen_again r b)), db)))))))"

section \<open>Working on bad cases\<close>

primrec ALLOWED_TRANSITIONS :: "bad_status \<Rightarrow> bad_status list" where
  "ALLOWED_TRANSITIONS BadOpen = [BadTriaged, BadRejected]"
| "ALLOWED_TRANSITIONS BadTriaged = [BadConfirmed, BadRejected]"
| "ALLOWED_TRANSITIONS BadConfirmed = [BadFixing, BadRejected]"
| "ALLOWED_TRANSITIONS BadFixing = [BadFixed, BadRejected]"
| "ALLOWED_TRANSITIONS BadFixed = [BadVerified]"
| "ALLOWED_TRANSITIONS BadVerified = [BadClosed]"
| "ALLOWED_TRANSITIONS BadClosed = [BadOpen]"
| "ALLOWED_TRANSITIONS BadRejected = []"

record transition_request =
  tq_revision :: nat
  tq_reason :: string
  tq_cause :: "root_cause option"
  tq_fix :: "string option"
  tq_verification :: "bad_verification option"
  tq_refs :: "string list"

definition first_some :: "'a option \<Rightarrow> 'a option \<Rightarrow> 'a option" where
  "first_some a b = (case a of None \<Rightarrow> b | Some x \<Rightarrow> Some x)"

text \<open>The checks of a verification; the result must be stored under the run it names.\<close>

definition check_verification :: "string \<Rightarrow> bad_verification option \<Rightarrow> eval_db \<Rightarrow> exn + bad_verification" where
  "check_verification b v db =
     (case v of
        None \<Rightarrow> eval_error ''bad_case_verification_required''
      | Some v \<Rightarrow>
          if bv_bad_case v \<noteq> b then eval_error ''bad_case_verification_required''
          else if \<not> (bv_case_passed v \<and> bv_regression_passed v \<and> bv_rules_passed v) then eval_error ''bad_case_verification_failed''
          else case List.find (\<lambda>r. cr_id r = bv_result v) (results_of (bv_run v) db) of
              None \<Rightarrow> eval_error ''bad_case_verification_result_invalid''
            | Some r \<Rightarrow>
                if cr_outcome r \<noteq> Some OutcomePassed \<or> \<not> cr_complete r then eval_error ''bad_case_verification_result_invalid''
                else if \<not> list_ex (\<lambda>p. cp_bad_case p = b \<and> cp_status p = Reproduced \<and> cp_new_case p = cr_case r) (ed_promotions db)
                then eval_error ''bad_case_regression_case_mismatch''
                else if bv_rules v = [] then eval_error ''bad_case_relevant_hard_rules_required''
                else Inr v)"

definition save_verification :: "bad_verification \<Rightarrow> eval_db \<Rightarrow> (eval_db, unit) outcome" where
  "save_verification v db =
     (case keep_or_add ''bad_case_verification_immutable'' bv_id v (ed_verifications db) of
        Inl e \<Rightarrow> (Inl e, db)
      | Inr rows \<Rightarrow> if bv_bad_case v \<in> bc_id ` set (ed_bad_cases db) then (Inr (), db\<lparr>ed_verifications := rows\<rparr>) else (Inl IntegrityError, db))"

definition moved_bad_case :: "bad_case \<Rightarrow> bad_status \<Rightarrow> transition_request \<Rightarrow> string option \<Rightarrow> bad_case" where
  "moved_bad_case b target q v = b\<lparr>bc_status := target, bc_revision := bc_revision b + 1, bc_cause := first_some (tq_cause q) (bc_cause b),
     bc_fix := first_some (tq_fix q) (bc_fix b), bc_verification := v,
     bc_evidence := sorted_names (set (bc_evidence b @ tq_refs q))\<rparr>"

definition transition_bad_case :: "string \<Rightarrow> bad_status \<Rightarrow> transition_request \<Rightarrow> string \<Rightarrow> eval_db \<Rightarrow> (eval_db, bad_case) outcome" where
  "transition_bad_case i target q actor db =
     and_then (get_bad_case i db) (\<lambda>b db.
       if bc_revision b \<noteq> tq_revision q then (eval_error ''bad_case_conflict'', db)
       else if target \<notin> set (ALLOWED_TRANSITIONS (bc_status b)) then (eval_error ''bad_case_transition_invalid'', db)
       else if target = BadConfirmed \<and> first_some (tq_cause q) (bc_cause b) = None then (eval_error ''bad_case_root_cause_required'', db)
       else if target = BadFixed \<and> first_some (tq_fix q) (bc_fix b) = None then (eval_error ''fix_reference_required'', db)
       else and_then (if target = BadVerified
           then (case check_verification i (tq_verification q) db of
                   Inl e \<Rightarrow> (Inl e, db)
                 | Inr v \<Rightarrow> and_then (save_verification v db) (\<lambda>_ db. (Inr (Some (bv_id v)), db)))
           else (Inr (bc_verification b), db)) (\<lambda>v db.
         if target = BadClosed \<and> (first_some (tq_cause q) (bc_cause b) = None \<or> first_some (tq_fix q) (bc_fix b) = None \<or> v = None)
         then (eval_error ''bad_case_close_requirements_missing'', db)
         else and_then (append_event \<lparr>be_id = event_id_of i (bc_revision b + 1), be_bad_case = i, be_sequence = bc_revision b + 1,
                be_from = Some (bc_status b), be_to = target, be_actor = eval_hash (JStr actor), be_based_on = tq_revision q,
                be_reason = tq_reason q, be_refs = tq_refs q\<rparr> db) (\<lambda>_ db.
           and_then (save_bad_case (moved_bad_case b target q v) db) (\<lambda>_ db. (Inr (moved_bad_case b target q v), db)))))"

text \<open>The endpoint \<open>mark-fixed\<close> makes two transitions of a confirmed case.\<close>

definition mark_fixed :: "string \<Rightarrow> transition_request \<Rightarrow> string \<Rightarrow> eval_db \<Rightarrow> (eval_db, bad_case) outcome" where
  "mark_fixed i q actor db =
     and_then (get_bad_case i db) (\<lambda>b db.
       and_then (if bc_status b = BadConfirmed
                 then and_then (transition_bad_case i BadFixing q actor db) (\<lambda>b db. (Inr (q\<lparr>tq_revision := bc_revision b\<rparr>), db))
                 else (Inr q, db)) (\<lambda>q db. transition_bad_case i BadFixed q actor db))"

definition save_promotion :: "case_promotion \<Rightarrow> eval_db \<Rightarrow> (eval_db, unit) outcome" where
  "save_promotion p db =
     (case keep_or_add ''promotion_immutable'' cp_id p (ed_promotions db) of
        Inl e \<Rightarrow> (Inl e, db)
      | Inr rows \<Rightarrow> if cp_bad_case p \<in> bc_id ` set (ed_bad_cases db) then (Inr (), db\<lparr>ed_promotions := rows\<rparr>) else (Inl IntegrityError, db))"

definition derived_version :: "string \<Rightarrow> dataset_version \<Rightarrow> dataset_version" where
  "derived_version target source = source\<lparr>dv_id := target, dv_status := VersionDraft, dv_parent := Some (dv_id source), dv_case_count := 0\<rparr>"

definition ensure_target :: "string \<Rightarrow> string \<Rightarrow> eval_db \<Rightarrow> (eval_db, unit) outcome" where
  "ensure_target source target db =
     (case find_by dv_id target (ed_versions db) of
        Some _ \<Rightarrow> (Inr (), db)
      | None \<Rightarrow> and_then (get_version source db) (\<lambda>v db. save_version (derived_version target v) db))"

definition promote_case ::
    "string \<Rightarrow> string \<Rightarrow> string \<Rightarrow> string \<Rightarrow> string option \<Rightarrow> bool \<Rightarrow> string option \<Rightarrow> eval_case option \<Rightarrow> nat \<Rightarrow> eval_db
     \<Rightarrow> (eval_db, case_promotion) outcome" where
  "promote_case i source target new_case reproduction reproduced fix regression now db =
     and_then (get_bad_case i db) (\<lambda>b db.
       if bc_status b \<notin> {BadConfirmed, BadFixing, BadFixed, BadVerified} then (eval_error ''promotion_not_ready'', db)
       else if reproduced \<and> regression = None then (eval_error ''regression_case_required'', db)
       else and_then (case regression of
           None \<Rightarrow> (Inr (), db)
         | Some c \<Rightarrow>
             if ec_id c \<noteq> new_case then (eval_error ''regression_case_identity_mismatch'', db)
             else if ec_version c \<noteq> target then (eval_error ''regression_case_dataset_mismatch'', db)
             else and_then (ensure_target source target db) (\<lambda>_ db. save_case c db)) (\<lambda>_ db.
         let p = \<lparr>cp_id = eval_id ''promotion'' (json_strings [i, target, new_case]), cp_bad_case = i, cp_source = source, cp_target = target,
               cp_new_case = new_case, cp_reproduction_result = reproduction,
               cp_status = (if reproduced then Reproduced else ReproductionPending), cp_gold_approved = reproduced, cp_fix = fix, cp_created = now\<rparr>
         in and_then (save_promotion p db) (\<lambda>_ db. (Inr p, db))))"

end
