(* ===== verification/Ev_Run.thy ===== *)
theory Ev_Run
  imports Ev_Service
begin

text \<open>
  Evaluation runs: preparing and processing them (\<open>evaluation/evaluation_service.py\<close>), and the
  coordinator that executes a run under a lease (\<open>services/evaluation_run_coordinator.py\<close>).
  The cases of a run are executed in their order.  What one call of \<open>process_run\<close> meets is a
  \<open>run_environment\<close>: the outcome of building its context, of each case, and the cancellation
  requests that other callers commit between its own steps.  All times of one call are one number.
\<close>

section \<open>Preparing a run\<close>

record eval_run_request =
  rq_version :: string
  rq_subject :: string
  rq_environment :: string
  rq_mode :: eval_mode
  rq_components :: "eval_component list"
  rq_cases :: "string list"
  rq_adapters :: "(eval_component \<times> string) list"
  rq_definitions :: "string list"
  rq_binding :: "string option"
  rq_gate :: "string option"
  rq_concurrency :: nat
  rq_provider :: nat
  rq_budget :: "(nat \<times> nat) option"
  rq_consent :: bool
  rq_seed :: int
  rq_trial :: "live_trial option"
  rq_retry_of :: "string option"

definition requested_definitions :: "eval_run_request \<Rightarrow> ((eval_component \<times> string) \<times> string) list" where
  "requested_definitions q = filter (\<lambda>((c, _), i). c \<in> set (rq_components q) \<and> (rq_definitions q = [] \<or> i \<in> set (rq_definitions q)))
     default_metric_definitions"

definition adapter_versions :: "eval_dumps \<Rightarrow> eval_run_request \<Rightarrow> (string \<times> string) list" where
  "adapter_versions dumps q = map (\<lambda>c. (component_name c, (case map_of (rq_adapters q) c of None \<Rightarrow> adapter_version dumps c | Some v \<Rightarrow> v)))
     (remdups (rq_components q))"

definition major_version :: "string \<Rightarrow> string" where
  "major_version v = takeWhile (\<lambda>c. c \<noteq> CHR ''.'') v"

definition fingerprint_of :: "eval_dumps \<Rightarrow> eval_run_request \<Rightarrow> dataset_version \<Rightarrow> string list \<Rightarrow> string \<Rightarrow> run_fingerprint" where
  "fingerprint_of dumps q v ids environment_hash =
     (let cases = eval_hash (json_strings ids);
          metrics = eval_hash (JArr (map (\<lambda>((c, n), _). dump_definition dumps (c, n)) (requested_definitions q)));
          adapters = eval_hash (string_dict (adapter_versions dumps q));
          majors = eval_hash (string_dict (map (\<lambda>(c, x). (c, major_version x)) (adapter_versions dumps q)))
      in \<lparr>fp_version = dv_id v, fp_case_set = cases, fp_gold = dv_gold_hash v, fp_subject = rq_subject q, fp_metrics = metrics,
          fp_adapters = adapters, fp_adapter_major = majors, fp_fixture = dv_fixture_hash v, fp_mode = rq_mode q,
          fp_environment = environment_hash, fp_seed = rq_seed q,
          fp_hash = eval_hash (JObj [(''dataset_version_id'', JStr (dv_id v)), (''case_set_hash'', JStr cases), (''gold_hash'', JStr (dv_gold_hash v)),
             (''subject_id'', JStr (rq_subject q)), (''metric_definition_hash'', JStr metrics), (''adapter_profile_hash'', JStr adapters),
             (''adapter_major_hash'', JStr majors), (''fixture_hash'', JStr (dv_fixture_hash v)), (''execution_mode'', JStr (eval_mode_name (rq_mode q))),
             (''environment_hash'', JStr environment_hash), (''random_seed'', JInt (rq_seed q))])\<rparr>)"

definition plan_payload :: "eval_dumps \<Rightarrow> eval_run_request \<Rightarrow> string list \<Rightarrow> json" where
  "plan_payload dumps q ids = JObj [(''dataset_version_id'', JStr (rq_version q)), (''subject_id'', JStr (rq_subject q)),
     (''mode'', JStr (eval_mode_name (rq_mode q))), (''case_ids'', json_strings ids), (''adapter_versions'', string_dict (adapter_versions dumps q)),
     (''metric_definition_ids'', json_strings (map snd (requested_definitions q))), (''baseline_binding_id'', json_opt (rq_binding q)),
     (''gate_config_version'', json_opt (rq_gate q)), (''case_concurrency'', JInt (int (rq_concurrency q))),
     (''provider_concurrency'', JInt (int (rq_provider q))), (''random_seed'', JInt (rq_seed q)),
     (''live_trial'', (case rq_trial q of None \<Rightarrow> JNull | Some t \<Rightarrow> dump_trial dumps t))]"

definition plan_of :: "eval_dumps \<Rightarrow> eval_run_request \<Rightarrow> string list \<Rightarrow> eval_plan" where
  "plan_of dumps q ids = \<lparr>ep_id = eval_id ''eval_plan'' (plan_payload dumps q ids), ep_version = rq_version q, ep_subject = rq_subject q,
     ep_mode = rq_mode q, ep_cases = ids, ep_definitions = map snd (requested_definitions q), ep_binding = rq_binding q, ep_gate = rq_gate q,
     ep_config = eval_hash (plan_payload dumps q ids)\<rparr>"

text \<open>The validator of \<open>EvaluationPlan\<close>, with the bounds of its list of cases.\<close>

definition plan_valid :: "eval_run_request \<Rightarrow> string list \<Rightarrow> bool" where
  "plan_valid q ids \<longleftrightarrow> (if rq_mode q = LiveExperiment then rq_consent q \<and> rq_budget q \<noteq> None \<and> rq_trial q \<noteq> None else rq_trial q = None)
     \<and> ids \<noteq> [] \<and> length ids \<le> 10000"

definition save_definitions :: "string list \<Rightarrow> eval_db \<Rightarrow> eval_db" where
  "save_definitions ids db = db\<lparr>ed_definitions := fold (\<lambda>i ds. if i \<in> set ds then ds else ds @ [i]) ids (ed_definitions db)\<rparr>"

definition save_eval_plan :: "eval_plan \<Rightarrow> eval_db \<Rightarrow> (eval_db, unit) outcome" where
  "save_eval_plan p db =
     (case keep_or_add ''evaluation_plan_immutable'' ep_id p (ed_plans db) of
        Inl e \<Rightarrow> (Inl e, db)
      | Inr rows \<Rightarrow> if ep_version p \<in> dv_id ` set (ed_versions db) \<and> ep_subject p \<in> es_id ` set (ed_subjects db)
                    then (Inr (), db\<lparr>ed_plans := rows\<rparr>) else (Inl IntegrityError, db))"

definition run_id_of :: "string \<Rightarrow> nat \<Rightarrow> string option \<Rightarrow> nat option \<Rightarrow> string" where
  "run_id_of fingerprint attempt retry repeat_index = eval_id ''evaluation_run'' (JArr [JStr fingerprint, JInt (int attempt), json_opt retry,
     (case repeat_index of None \<Rightarrow> JNull | Some n \<Rightarrow> JInt (int n))])"

definition queued_run :: "eval_run_request \<Rightarrow> run_fingerprint \<Rightarrow> string \<Rightarrow> nat \<Rightarrow> nat option \<Rightarrow> nat \<Rightarrow> nat \<Rightarrow> eval_run" where
  "queued_run q fp plan attempt index n now =
     (let i = (if rq_trial q = None then None else index) in
      \<lparr>eu_id = run_id_of (fp_hash fp) attempt (rq_retry_of q) i, eu_plan = plan, eu_version = rq_version q, eu_subject = rq_subject q,
       eu_mode = rq_mode q, eu_status = EvQueued, eu_fingerprint = fp, eu_environment = rq_environment q,
       eu_group = map_option lt_group (rq_trial q), eu_repeat = i, eu_attempt = attempt, eu_retry_of = rq_retry_of q, eu_cancel = False,
       eu_counts = [(''total'', n), (''completed'', 0), (''failed'', 0)], eu_complete = False, eu_reasons = [], eu_error = None,
       eu_created = now, eu_updated = now\<rparr>)"

definition attempt_number :: "string option \<Rightarrow> eval_db \<Rightarrow> (eval_db, nat) outcome" where
  "attempt_number retry db =
     (case retry of
        None \<Rightarrow> (Inr 1, db)
      | Some i \<Rightarrow> if i = [] then (Inr 1, db) else and_then (get_eval_run i db) (\<lambda>parent db.
          if eu_status parent \<in> {EvFailed, EvCancelled, EvPartial} then (Inr (eu_attempt parent + 1), db)
          else (eval_error ''evaluation_retry_not_allowed'', db)))"

definition create_eval_run :: "eval_dumps \<Rightarrow> eval_run_request \<Rightarrow> run_fingerprint \<Rightarrow> string list \<Rightarrow> nat option \<Rightarrow> nat \<Rightarrow> eval_db \<Rightarrow> (eval_db, eval_run) outcome" where
  "create_eval_run dumps q fp ids index now db =
     and_then (attempt_number (rq_retry_of q) db) (\<lambda>attempt db.
       if \<not> plan_valid q ids then (Inl ValidationError, db)
       else let plan = plan_of dumps q ids; run = queued_run q fp (ep_id plan) attempt index (length ids) now in
       and_then (case find_by ep_id (ep_id plan) (ed_plans db) of
           Some p \<Rightarrow> if ep_config p \<noteq> ep_config plan then (eval_error ''evaluation_plan_conflict'', db) else (Inr (), db)
         | None \<Rightarrow> save_eval_plan plan db) (\<lambda>_ db.
       and_then (save_run run db) (\<lambda>_ db. (Inr run, db))))"

definition prepare_run :: "eval_dumps \<Rightarrow> eval_run_request \<Rightarrow> nat option \<Rightarrow> nat \<Rightarrow> eval_db \<Rightarrow> (eval_db, eval_run) outcome" where
  "prepare_run dumps q index now db =
     and_then (get_version (rq_version q) db) (\<lambda>v db.
       if dv_status v \<noteq> VersionFrozen then (eval_error ''dataset_not_frozen'', db)
       else and_then (get_subject (rq_subject q) db) (\<lambda>_ db. and_then (get_environment (rq_environment q) db) (\<lambda>environment db.
         and_then (list_cases (rq_version q) (rq_cases q) db) (\<lambda>found db.
           let ids = map ec_id (filter (\<lambda>c. ec_component c \<in> set (rq_components q)) found) in
           if ids = [] then (eval_error ''evaluation_case_not_found'', db)
           else let db = save_definitions (map snd (requested_definitions q)) db;
                    fp = fingerprint_of dumps q v ids (snd environment) in
             (case (if rq_retry_of q = None \<and> rq_trial q = None then find_reusable_run (fp_hash fp) db else None) of
                Some r \<Rightarrow> (Inr r, db)
              | None \<Rightarrow> create_eval_run dumps q fp ids index now db)))))"

section \<open>Processing a run\<close>

record run_environment =
  re_context :: "exn option"
  re_case :: "string \<Rightarrow> case_environment"
  re_cancel :: "nat \<Rightarrow> bool"
  re_case_cancel :: "string \<Rightarrow> bool"

definition cancelling :: "bool \<Rightarrow> string \<Rightarrow> nat \<Rightarrow> eval_db \<Rightarrow> eval_db" where
  "cancelling b i now db = (if b then snd (request_eval_cancel i now db) else db)"

definition transition_run :: "eval_run \<Rightarrow> eval_status \<Rightarrow> nat \<Rightarrow> eval_db \<Rightarrow> (eval_db, eval_run) outcome" where
  "transition_run run status now db = (let u = run\<lparr>eu_status := status, eu_updated := now\<rparr> in and_then (update_run u db) (\<lambda>_ db. (Inr u, db)))"

definition finish_run :: "eval_run \<Rightarrow> eval_status \<Rightarrow> bool \<Rightarrow> string list \<Rightarrow> nat \<Rightarrow> eval_db \<Rightarrow> (eval_db, eval_run) outcome" where
  "finish_run run status full reasons now db =
     (let u = run\<lparr>eu_status := status, eu_complete := full, eu_reasons := reasons, eu_updated := now\<rparr>
      in and_then (update_run u db) (\<lambda>_ db. (Inr u, db)))"

fun run_cases :: "run_environment \<Rightarrow> string \<Rightarrow> nat \<Rightarrow> eval_case list \<Rightarrow> eval_db \<Rightarrow> (eval_db, case_result list) outcome" where
  "run_cases env i now [] db = (Inr [], db)"
| "run_cases env i now (c # cs) db =
     and_then (get_eval_run i (cancelling (re_case_cancel env (ec_id c)) i now db)) (\<lambda>latest db.
       if eu_cancel latest then run_cases env i now cs db
       else let r = execute_case i c (re_case env (ec_id c)) in
         if \<not> case_result_valid r then (Inl ValidationError, db)
         else and_then (save_result r db) (\<lambda>_ db. and_then (run_cases env i now cs db) (\<lambda>rs db. (Inr (r # rs), db))))"

definition existing_results :: "string \<Rightarrow> eval_db \<Rightarrow> case_result list" where
  "existing_results i db = map snd (fold (\<lambda>r. dict_set (cr_case r) r) (results_of i db) [])"

fun save_metrics :: "metric_result list \<Rightarrow> eval_db \<Rightarrow> (eval_db, unit) outcome" where
  "save_metrics [] db = (Inr (), db)"
| "save_metrics (m # ms) db = and_then (save_metric m db) (\<lambda>_ db. save_metrics ms db)"

definition needs_analysis :: "case_result \<Rightarrow> bool" where
  "needs_analysis r \<longleftrightarrow> cr_outcome r \<noteq> Some OutcomePassed \<or> \<not> cr_complete r"

fun analyze_results :: "(string \<Rightarrow> eval_case option) \<Rightarrow> string \<Rightarrow> case_result list \<Rightarrow> eval_db \<Rightarrow> (eval_db, unit) outcome" where
  "analyze_results by_case subject [] db = (Inr (), db)"
| "analyze_results by_case subject (r # rs) db =
     (if needs_analysis r
      then (case by_case (cr_case r) of
              None \<Rightarrow> (Inl KeyError, db)
            | Some c \<Rightarrow> and_then (analyze c r subject db) (\<lambda>_ db. analyze_results by_case subject rs db))
      else analyze_results by_case subject rs db)"

definition run_complete :: "eval_case list \<Rightarrow> case_result list \<Rightarrow> bool" where
  "run_complete cs rs \<longleftrightarrow> length rs = length cs \<and> list_all (\<lambda>r. cr_complete r \<and> cr_status r = ExecCompleted
     \<and> (cr_outcome r = Some OutcomePassed \<or> cr_outcome r = Some OutcomeFailed)) rs"

definition run_counts :: "eval_case list \<Rightarrow> case_result list \<Rightarrow> (string \<times> nat) list" where
  "run_counts cs rs = [(''total'', length cs), (''completed'', count (\<lambda>r. cr_status r = ExecCompleted) rs),
     (''failed'', count (\<lambda>r. cr_status r = ExecError) rs), (''passed'', count (\<lambda>r. cr_outcome r = Some OutcomePassed) rs),
     (''quality_failed'', count (\<lambda>r. cr_outcome r = Some OutcomeFailed) rs)]"

text \<open>The second half: metrics, bad cases and the verdict on the run.\<close>

definition conclude_run :: "eval_run \<Rightarrow> eval_case list \<Rightarrow> case_result list \<Rightarrow> nat \<Rightarrow> eval_db \<Rightarrow> (eval_db, eval_run) outcome" where
  "conclude_run run cs rs now db =
     (if eu_status run \<notin> {EvAggregating, EvComparing} then (eval_error ''evaluation_run_recovery_state_invalid'', db)
      else and_then (save_metrics (compute_metrics (eu_id run) cs rs) db) (\<lambda>_ db.
        and_then (analyze_results (case_table cs) (eu_subject run) rs db) (\<lambda>_ db.
          finish_run (run\<lparr>eu_counts := run_counts cs rs\<rparr>) (if run_complete cs rs then EvCompleted else EvPartial) (run_complete cs rs)
            (if run_complete cs rs then [] else [''case_result_incomplete'']) now db)))"

definition close_run :: "run_environment \<Rightarrow> string \<Rightarrow> eval_case list \<Rightarrow> case_result list \<Rightarrow> nat \<Rightarrow> eval_db \<Rightarrow> (eval_db, eval_run) outcome" where
  "close_run env i cs rs now db =
     and_then (get_eval_run i (cancelling (re_cancel env 2) i now db)) (\<lambda>latest db.
       if eu_cancel latest then finish_run latest EvCancelled False [''cancel_requested''] now db
       else and_then (if eu_status latest = EvRunning then transition_run latest EvAggregating now (cancelling (re_cancel env 3) i now db)
                      else (Inr latest, db)) (\<lambda>run db. conclude_run run cs rs now db))"

definition pending_cases :: "eval_case list \<Rightarrow> case_result list \<Rightarrow> eval_case list" where
  "pending_cases cs existing = filter (\<lambda>c. ec_id c \<notin> cr_case ` set existing) cs"

definition execute_run_cases :: "run_environment \<Rightarrow> eval_run \<Rightarrow> eval_case list \<Rightarrow> nat \<Rightarrow> eval_db \<Rightarrow> (eval_db, eval_run) outcome" where
  "execute_run_cases env run cs now db =
     (case re_context env of
        Some e \<Rightarrow> (Inl e, db)
      | None \<Rightarrow> let existing = existing_results (eu_id run) db in
          and_then (if eu_status run = EvRunning then run_cases env (eu_id run) now (pending_cases cs existing) db else (Inr [], db)) (\<lambda>new db.
            close_run env (eu_id run) cs (existing @ new) now db))"

definition process_run :: "run_environment \<Rightarrow> string \<Rightarrow> nat \<Rightarrow> eval_db \<Rightarrow> (eval_db, eval_run) outcome" where
  "process_run env i now db =
     and_then (get_eval_run i db) (\<lambda>run db. and_then (get_plan (eu_plan run) db) (\<lambda>plan db.
     and_then (list_cases (eu_version run) (ep_cases plan) db) (\<lambda>cs db.
     and_then (if eu_status run = EvQueued then transition_run run EvPreparing now (cancelling (re_cancel env 0) i now db) else (Inr run, db)) (\<lambda>run db.
       if eu_cancel run then finish_run run EvCancelled False [''cancel_requested''] now db
       else and_then (if eu_status run = EvPreparing then transition_run run EvRunning now (cancelling (re_cancel env 1) i now db) else (Inr run, db))
         (\<lambda>run db. execute_run_cases env run cs now db)))))"

section \<open>The coordinator\<close>

text \<open>\<open>getattr(exc, "error_code", ...)\<close>: the evaluation store's errors carry one.\<close>

definition failure_code :: "exn \<Rightarrow> string" where
  "failure_code e = (case e of PlainError (Some code) _ \<Rightarrow> code | _ \<Rightarrow> ''evaluation_run_failed'')"

definition mark_failed_if_needed :: "string \<Rightarrow> exn \<Rightarrow> nat \<Rightarrow> eval_db \<Rightarrow> (eval_db, unit) outcome" where
  "mark_failed_if_needed i e now db =
     and_then (get_eval_run i db) (\<lambda>run db.
       if terminal_status (eu_status run) then (Inr (), db)
       else update_run (run\<lparr>eu_status := EvFailed, eu_complete := False, eu_error := Some (failure_code e), eu_reasons := [''execution_failure''],
              eu_updated := now\<rparr>) db)"

definition execute_leased :: "run_environment \<Rightarrow> eval_lease \<Rightarrow> nat \<Rightarrow> eval_db \<Rightarrow> eval_db" where
  "execute_leased env l now db =
     (case find_by eu_id (el_run l) (ed_runs db) of
        None \<Rightarrow> db
      | Some _ \<Rightarrow> release_eval_lease l
          (case process_run env (el_run l) now db of
             (Inl e, db') \<Rightarrow> snd (mark_failed_if_needed (el_run l) e now db')
           | (Inr _, db') \<Rightarrow> db'))"

text \<open>One round of \<open>_run_manager\<close>: lease what can be claimed, up to the capacity.\<close>

fun claim_eval_runs :: "(string \<Rightarrow> string) \<Rightarrow> string \<Rightarrow> nat \<Rightarrow> nat \<Rightarrow> eval_run list \<Rightarrow> eval_db \<Rightarrow> eval_lease list \<times> eval_db" where
  "claim_eval_runs token owner now seconds [] db = ([], db)"
| "claim_eval_runs token owner now seconds (r # rs) db =
     (case acquire_eval_lease (eu_id r) owner (token (eu_id r)) now seconds db of
        (None, db) \<Rightarrow> claim_eval_runs token owner now seconds rs db
      | (Some l, db) \<Rightarrow> (case claim_eval_runs token owner now seconds rs db of (ls, db) \<Rightarrow> (l # ls, db)))"

definition manager_round :: "(string \<Rightarrow> string) \<Rightarrow> string \<Rightarrow> nat \<Rightarrow> nat \<Rightarrow> nat \<Rightarrow> eval_db \<Rightarrow> eval_lease list \<times> eval_db" where
  "manager_round token owner capacity now seconds db =
     (if capacity = 0 then ([], db) else claim_eval_runs token owner now seconds (list_claimable_runs capacity now db) db)"

section \<open>Histories\<close>

text \<open>The calls that change the store, in any order and with any arguments.\<close>

datatype eval_op =
    SaveSubject eval_subject
  | SaveEnvironment string string
  | SaveVersion dataset_version
  | SaveCase eval_case
  | FreezeVersion string
  | PrepareRun eval_run_request "nat option" nat
  | CancelRun string nat
  | AcquireLease string string string nat nat
  | RenewLease eval_lease nat nat
  | ExecuteRun run_environment eval_lease nat
  | PromoteBaseline string eval_component eval_mode gate_config string
  | MoveBadCase string bad_status transition_request string
  | MarkFixed string transition_request string
  | PromoteCase string string string string "string option" bool "string option" "eval_case option" nat

primrec eval_step :: "eval_dumps \<Rightarrow> eval_op \<Rightarrow> eval_db \<Rightarrow> eval_db" where
  "eval_step dumps (SaveSubject s) db = snd (save_subject s db)"
| "eval_step dumps (SaveEnvironment i h) db = snd (save_environment (i, h) db)"
| "eval_step dumps (SaveVersion v) db = snd (save_version v db)"
| "eval_step dumps (SaveCase c) db = snd (save_case c db)"
| "eval_step dumps (FreezeVersion i) db = snd (validate_and_freeze dumps i db)"
| "eval_step dumps (PrepareRun q index now) db = snd (prepare_run dumps q index now db)"
| "eval_step dumps (CancelRun i now) db = snd (request_eval_cancel i now db)"
| "eval_step dumps (AcquireLease i owner token now seconds) db = snd (acquire_eval_lease i owner token now seconds db)"
| "eval_step dumps (RenewLease l now seconds) db = snd (renew_eval_lease l now seconds db)"
| "eval_step dumps (ExecuteRun env l now) db = execute_leased env l now db"
| "eval_step dumps (PromoteBaseline v c m g r) db = snd (promote_baseline v c m g r db)"
| "eval_step dumps (MoveBadCase i s q actor) db = snd (transition_bad_case i s q actor db)"
| "eval_step dumps (MarkFixed i q actor) db = snd (mark_fixed i q actor db)"
| "eval_step dumps (PromoteCase i source target n r rep fix c now) db = snd (promote_case i source target n r rep fix c now db)"

text \<open>A version is saved as a draft, only freezing makes it frozen.\<close>

primrec eval_allowed :: "eval_op \<Rightarrow> bool" where
  "eval_allowed (SaveSubject s) = True"
| "eval_allowed (SaveEnvironment i h) = True"
| "eval_allowed (SaveVersion v) = (dv_status v \<noteq> VersionFrozen)"
| "eval_allowed (SaveCase c) = True"
| "eval_allowed (FreezeVersion i) = True"
| "eval_allowed (PrepareRun q index now) = True"
| "eval_allowed (CancelRun i now) = True"
| "eval_allowed (AcquireLease i owner token now seconds) = True"
| "eval_allowed (RenewLease l now seconds) = True"
| "eval_allowed (ExecuteRun env l now) = True"
| "eval_allowed (PromoteBaseline v c m g r) = True"
| "eval_allowed (MoveBadCase i s q actor) = True"
| "eval_allowed (MarkFixed i q actor) = True"
| "eval_allowed (PromoteCase i source target n r rep fix c now) = True"

definition empty_evaluation :: "string list \<Rightarrow> eval_db" where
  "empty_evaluation datasets = \<lparr>ed_datasets = datasets, ed_versions = [], ed_cases = [], ed_subjects = [], ed_environments = [],
     ed_definitions = [], ed_plans = [], ed_runs = [], ed_leases = [], ed_results = [], ed_metrics = [], ed_gates = [], ed_bindings = [],
     ed_bad_cases = [], ed_occurrences = [], ed_events = [], ed_verifications = [], ed_promotions = []\<rparr>"

end
