(* ===== verification/Ev_Inv.thy ===== *)
theory Ev_Inv
  imports Ev_Run
begin

text \<open>
  The evaluation store as a machine: an invariant of the store and the order in which its states
  follow each other, both kept by every call, whatever calls come before.
\<close>

section \<open>What every state satisfies\<close>

definition cases_sound :: "eval_case list \<Rightarrow> bool" where
  "cases_sound cs \<longleftrightarrow> cs \<noteq> [] \<and> list_all (\<lambda>c. ec_adjudication c \<notin> {AdjPending, Disputed} \<and> \<not> unreviewed c) cs \<and> \<not> split_leak cs"

definition version_sound :: "eval_dumps \<Rightarrow> eval_db \<Rightarrow> dataset_version \<Rightarrow> bool" where
  "version_sound dumps db v \<longleftrightarrow> dv_status v = VersionFrozen
     \<longrightarrow> cases_sound (cases_of (dv_id v) db) \<and> frozen_version dumps (cases_of (dv_id v) db) v = v"

definition one_active_binding :: "baseline_binding list \<Rightarrow> bool" where
  "one_active_binding bs \<longleftrightarrow> (\<forall>a \<in> set bs. \<forall>b \<in> set bs. bb_status a = BaselineActive \<longrightarrow> bb_status b = BaselineActive \<longrightarrow> same_scope a b \<longrightarrow> a = b)"

definition passing_evidence :: "eval_db \<Rightarrow> bad_case \<Rightarrow> bad_verification \<Rightarrow> bool" where
  "passing_evidence db b v \<longleftrightarrow> bv_bad_case v = bc_id b
     \<and> (\<exists>r \<in> set (ed_results db). cr_id r = bv_result v \<and> cr_run r = bv_run v \<and> cr_outcome r = Some OutcomePassed \<and> cr_complete r
        \<and> (\<exists>p \<in> set (ed_promotions db). cp_bad_case p = bc_id b \<and> cp_status p = Reproduced \<and> cp_new_case p = cr_case r))"

definition verified_by :: "eval_db \<Rightarrow> bad_case \<Rightarrow> bool" where
  "verified_by db b \<longleftrightarrow> (\<exists>v \<in> set (ed_verifications db). bc_verification b = Some (bv_id v) \<and> passing_evidence db b v)"

definition bad_sound :: "eval_db \<Rightarrow> bad_case \<Rightarrow> bool" where
  "bad_sound db b \<longleftrightarrow>
     (bc_status b \<in> {BadConfirmed, BadFixing, BadFixed, BadVerified, BadClosed} \<longrightarrow> bc_cause b \<noteq> None)
     \<and> (bc_status b \<in> {BadFixed, BadVerified, BadClosed} \<longrightarrow> bc_fix b \<noteq> None)
     \<and> (bc_status b \<in> {BadVerified, BadClosed} \<longrightarrow> verified_by db b)"

definition result_planned :: "eval_db \<Rightarrow> case_result \<Rightarrow> bool" where
  "result_planned db r \<longleftrightarrow> (\<exists>u p. find_by eu_id (cr_run r) (ed_runs db) = Some u \<and> find_by ep_id (eu_plan u) (ed_plans db) = Some p
     \<and> cr_case r \<in> set (ep_cases p))"

definition eval_keys_ok :: "eval_db \<Rightarrow> bool" where
  "eval_keys_ok db \<longleftrightarrow> distinct (map dv_id (ed_versions db)) \<and> distinct (map ec_id (ed_cases db)) \<and> distinct (map eu_id (ed_runs db))
     \<and> distinct (map cr_id (ed_results db)) \<and> distinct (map bb_id (ed_bindings db)) \<and> distinct (map bc_id (ed_bad_cases db))"

definition eval_inv :: "eval_dumps \<Rightarrow> eval_db \<Rightarrow> bool" where
  "eval_inv dumps db \<longleftrightarrow> eval_keys_ok db \<and> list_all (version_sound dumps db) (ed_versions db) \<and> one_active_binding (ed_bindings db)
     \<and> list_all (bad_sound db) (ed_bad_cases db) \<and> list_all (\<lambda>p. ep_cases p \<noteq> []) (ed_plans db)
     \<and> list_all (result_planned db) (ed_results db)"

section \<open>How states follow each other\<close>

definition run_identity :: "eval_run \<Rightarrow> string \<times> string \<times> string \<times> run_fingerprint \<times> string \<times> string option \<times> nat option \<times> nat" where
  "run_identity r = (eu_plan r, eu_version r, eu_subject r, eu_fingerprint r, eu_environment r, eu_group r, eu_repeat r, eu_attempt r)"

definition run_follows :: "eval_run \<Rightarrow> eval_run \<Rightarrow> bool" where
  "run_follows r r' \<longleftrightarrow> run_identity r' = run_identity r \<and> (terminal_status (eu_status r) \<longrightarrow> r' = r)"

definition runs_later :: "eval_run list \<Rightarrow> eval_run list \<Rightarrow> bool" where
  "runs_later rs rs' \<longleftrightarrow> (\<forall>i r. find_by eu_id i rs = Some r \<longrightarrow> (\<exists>r'. find_by eu_id i rs' = Some r' \<and> run_follows r r'))"

definition frozen_later :: "eval_db \<Rightarrow> eval_db \<Rightarrow> bool" where
  "frozen_later db db' \<longleftrightarrow> (\<forall>i v. find_by dv_id i (ed_versions db) = Some v \<longrightarrow> dv_status v = VersionFrozen
     \<longrightarrow> find_by dv_id i (ed_versions db') = Some v \<and> cases_of i db' = cases_of i db)"

definition eval_later :: "eval_db \<Rightarrow> eval_db \<Rightarrow> bool" where
  "eval_later db db' \<longleftrightarrow> runs_later (ed_runs db) (ed_runs db') \<and> frozen_later db db' \<and> prefix (ed_cases db) (ed_cases db')
     \<and> prefix (ed_plans db) (ed_plans db') \<and> prefix (ed_results db) (ed_results db') \<and> prefix (ed_metrics db) (ed_metrics db')
     \<and> prefix (ed_events db) (ed_events db') \<and> prefix (ed_verifications db) (ed_verifications db') \<and> prefix (ed_promotions db) (ed_promotions db')"

lemma run_follows_refl [simp]: "run_follows r r"
  by (simp add: run_follows_def)

lemma run_follows_trans: "run_follows r s \<Longrightarrow> run_follows s t \<Longrightarrow> run_follows r t"
  by (auto simp add: run_follows_def)

lemma runs_later_refl [simp]: "runs_later rs rs"
  by (simp add: runs_later_def)

lemma frozen_later_refl [simp]: "frozen_later db db"
  by (simp add: frozen_later_def)

lemma eval_later_refl [simp]: "eval_later db db"
  by (simp add: eval_later_def)

lemma runs_later_trans: "runs_later a b \<Longrightarrow> runs_later b c \<Longrightarrow> runs_later a c"
  unfolding runs_later_def using run_follows_trans by blast

lemma frozen_later_trans: "frozen_later a b \<Longrightarrow> frozen_later b c \<Longrightarrow> frozen_later a c"
  by (simp add: frozen_later_def)

lemma eval_later_trans: "eval_later a b \<Longrightarrow> eval_later b c \<Longrightarrow> eval_later a c"
  unfolding eval_later_def
  by (elim conjE, intro conjI) (erule (1) runs_later_trans frozen_later_trans prefix_order.order_trans)+

section \<open>The parts of the invariant over time\<close>

lemma find_by_prefix: "prefix xs ys \<Longrightarrow> find_by key k xs = Some r \<Longrightarrow> find_by key k ys = Some r"
  by (auto simp add: prefix_def find_by_append)

lemma verified_by_mono:
  assumes "verified_by db b" "prefix (ed_results db) (ed_results db')" "prefix (ed_verifications db) (ed_verifications db')"
    "prefix (ed_promotions db) (ed_promotions db')"
  shows "verified_by db' b"
proof -
  note sub = assms(2-4) [THEN set_mono_prefix, THEN subsetD]
  obtain v where v: "v \<in> set (ed_verifications db)" "bc_verification b = Some (bv_id v)" "passing_evidence db b v"
    using assms(1) unfolding verified_by_def by blast
  then obtain r p where r: "r \<in> set (ed_results db)" "cr_id r = bv_result v" "cr_run r = bv_run v" "cr_outcome r = Some OutcomePassed" "cr_complete r"
    and p: "p \<in> set (ed_promotions db)" "cp_bad_case p = bc_id b" "cp_status p = Reproduced" "cp_new_case p = cr_case r"
    unfolding passing_evidence_def by blast
  have "passing_evidence db' b v" unfolding passing_evidence_def
    using v(3) [unfolded passing_evidence_def] r p sub(1) [OF r(1)] sub(3) [OF p(1)] by blast
  then show ?thesis unfolding verified_by_def using v sub(2) by blast
qed

lemma bad_sound_mono:
  "bad_sound db b \<Longrightarrow> prefix (ed_results db) (ed_results db') \<Longrightarrow> prefix (ed_verifications db) (ed_verifications db')
   \<Longrightarrow> prefix (ed_promotions db) (ed_promotions db') \<Longrightarrow> bad_sound db' b"
  unfolding bad_sound_def using verified_by_mono by blast

lemma result_planned_mono:
  assumes "result_planned db r" "runs_later (ed_runs db) (ed_runs db')" "prefix (ed_plans db) (ed_plans db')"
  shows "result_planned db' r"
proof -
  obtain u p where u: "find_by eu_id (cr_run r) (ed_runs db) = Some u" "find_by ep_id (eu_plan u) (ed_plans db) = Some p" "cr_case r \<in> set (ep_cases p)"
    using assms(1) unfolding result_planned_def by blast
  obtain u' where "find_by eu_id (cr_run r) (ed_runs db') = Some u'" "run_follows u u'" using assms(2) u(1) unfolding runs_later_def by blast
  moreover from this have "eu_plan u' = eu_plan u" by (simp add: run_follows_def run_identity_def)
  ultimately show ?thesis unfolding result_planned_def using u(2,3) find_by_prefix [OF assms(3)] by metis
qed

lemma keep_or_addD:
  "keep_or_add code key r rows = Inr rows' \<Longrightarrow> rows' = rows \<and> r \<in> set rows \<or> rows' = rows @ [r] \<and> key r \<notin> key ` set rows"
  by (auto simp add: keep_or_add_def eval_error_def find_by_None_iff split: option.splits if_splits dest: find_by_SomeD)

lemma keep_or_add_prefix: "keep_or_add code key r rows = Inr rows' \<Longrightarrow> prefix rows rows'"
  by (drule keep_or_addD) auto

lemma keep_or_add_distinct: "keep_or_add code key r rows = Inr rows' \<Longrightarrow> distinct (map key rows) \<Longrightarrow> distinct (map key rows')"
  by (drule keep_or_addD) auto

lemma runs_later_append: "runs_later rs (rs @ xs)"
  by (auto simp add: runs_later_def find_by_append)

definition step_ok :: "eval_dumps \<Rightarrow> eval_db \<Rightarrow> eval_db \<Rightarrow> bool" where
  "step_ok dumps db db' \<longleftrightarrow> eval_inv dumps db' \<and> eval_later db db'"

lemma step_ok_refl: "eval_inv dumps db \<Longrightarrow> step_ok dumps db db"
  by (simp add: step_ok_def)

lemma step_ok_trans: "step_ok dumps a b \<Longrightarrow> step_ok dumps b c \<Longrightarrow> step_ok dumps a c"
  unfolding step_ok_def using eval_later_trans by blast

text \<open>A call that touches none of the tables of the invariant keeps it.\<close>

definition same_core :: "eval_db \<Rightarrow> eval_db \<Rightarrow> bool" where
  "same_core db db' \<longleftrightarrow> ed_versions db' = ed_versions db \<and> ed_cases db' = ed_cases db \<and> ed_runs db' = ed_runs db
     \<and> ed_bindings db' = ed_bindings db \<and> ed_bad_cases db' = ed_bad_cases db"

lemma version_sound_cong: "ed_cases db' = ed_cases db \<Longrightarrow> version_sound dumps db' v = version_sound dumps db v"
  by (simp add: version_sound_def cases_of_def)

lemma frozen_later_cong: "ed_versions db' = ed_versions db \<Longrightarrow> ed_cases db' = ed_cases db \<Longrightarrow> frozen_later db db'"
  by (simp add: frozen_later_def cases_of_def)

lemma same_core_ok:
  assumes inv: "eval_inv dumps db" and core: "same_core db db'"
    and plans: "prefix (ed_plans db) (ed_plans db')" "list_all (\<lambda>p. ep_cases p \<noteq> []) (ed_plans db')"
    and results: "prefix (ed_results db) (ed_results db')" "distinct (map cr_id (ed_results db'))" "list_all (result_planned db') (ed_results db')"
    and logs: "prefix (ed_metrics db) (ed_metrics db')" "prefix (ed_events db) (ed_events db')"
      "prefix (ed_verifications db) (ed_verifications db')" "prefix (ed_promotions db) (ed_promotions db')"
  shows "step_ok dumps db db'"
proof -
  have "list_all (bad_sound db') (ed_bad_cases db')" using inv core results(1) logs(3,4) bad_sound_mono
    unfolding eval_inv_def same_core_def by (metis list.pred_mono_strong)
  moreover have "list_all (version_sound dumps db') (ed_versions db')" using inv core version_sound_cong [of db' db]
    unfolding eval_inv_def same_core_def list_all_iff by metis
  ultimately have "eval_inv dumps db'" using assms unfolding eval_inv_def same_core_def eval_keys_ok_def by simp
  moreover have "eval_later db db'" using assms frozen_later_cong [of db' db] unfolding eval_later_def same_core_def by simp
  ultimately show ?thesis by (simp add: step_ok_def)
qed

end
