(* ===== verification/Ev_Keeps.thy ===== *)
theory Ev_Keeps
  imports Ev_Inv
begin

text \<open>Every call of the evaluation store keeps the invariant and follows the state before.\<close>

section \<open>Sequences of calls\<close>

lemma and_then_ok:
  assumes "step_ok dumps db (snd m)" "\<And>x s. m = (Inr x, s) \<Longrightarrow> step_ok dumps db s \<Longrightarrow> step_ok dumps db (snd (f x s))"
  shows "step_ok dumps db (snd (and_then m f))"
proof (cases m)
  case (Pair y s)
  then show ?thesis using assms by (cases y) simp_all
qed

lemma and_then_step:
  assumes "step_ok dumps db0 db" "\<And>d. step_ok dumps db0 d \<Longrightarrow> step_ok dumps d (snd (m d))"
    "\<And>x s. m db = (Inr x, s) \<Longrightarrow> step_ok dumps db0 s \<Longrightarrow> step_ok dumps db s \<Longrightarrow> step_ok dumps db0 (snd (f x s))"
  shows "step_ok dumps db0 (snd (and_then (m db) f))"
  using assms step_ok_trans by (intro and_then_ok) (blast, metis snd_conv)

lemma get_runD: "get_eval_run i db = (Inr r, s) \<Longrightarrow> find_by eu_id i (ed_runs db) = Some r \<and> s = db"
  by (auto simp add: get_eval_run_def read_row_def eval_error_def split: option.splits)

lemma get_versionD: "get_version i db = (Inr v, s) \<Longrightarrow> find_by dv_id i (ed_versions db) = Some v \<and> s = db"
  by (auto simp add: get_version_def read_row_def eval_error_def split: option.splits)

lemma get_planD: "get_plan i db = (Inr p, s) \<Longrightarrow> find_by ep_id i (ed_plans db) = Some p \<and> s = db"
  by (auto simp add: get_plan_def read_row_def eval_error_def split: option.splits)

lemma get_bad_caseD: "get_bad_case i db = (Inr b, s) \<Longrightarrow> find_by bc_id i (ed_bad_cases db) = Some b \<and> s = db"
  by (auto simp add: get_bad_case_def read_row_def eval_error_def split: option.splits)

lemma read_same [simp]:
  "snd (get_eval_run i db) = db" "snd (get_version i db) = db" "snd (get_plan i db) = db" "snd (get_bad_case i db) = db"
  "snd (get_subject i db) = db" "snd (get_environment i db) = db" "snd (list_cases v ids db) = db"
  by (simp_all add: get_eval_run_def get_version_def get_plan_def get_bad_case_def get_subject_def get_environment_def read_row_def list_cases_def Let_def)

section \<open>Tables beside the core\<close>

definition aside :: "eval_db \<Rightarrow> eval_db \<Rightarrow> bool" where
  "aside db db' \<longleftrightarrow> same_core db db' \<and> ed_plans db' = ed_plans db \<and> ed_results db' = ed_results db \<and> prefix (ed_metrics db) (ed_metrics db')
     \<and> prefix (ed_events db) (ed_events db') \<and> prefix (ed_verifications db) (ed_verifications db') \<and> prefix (ed_promotions db) (ed_promotions db')"

lemma aside_ok: "eval_inv dumps db \<Longrightarrow> aside db db' \<Longrightarrow> step_ok dumps db db'"
proof -
  assume inv: "eval_inv dumps db" and a: "aside db db'"
  have "list_all (result_planned db') (ed_results db')" using inv a result_planned_mono [of db _ db']
    unfolding eval_inv_def aside_def same_core_def list_all_iff by simp
  then show ?thesis using inv a by (intro same_core_ok) (simp_all add: aside_def eval_inv_def eval_keys_ok_def)
qed

lemma aside_refl [simp]: "aside db db"
  by (simp add: aside_def same_core_def)

lemma aside_subject: "aside db (snd (save_subject s db))"
  by (auto simp add: save_subject_def aside_def same_core_def split: sum.splits)

lemma aside_environment: "aside db (snd (save_environment e db))"
  by (auto simp add: save_environment_def aside_def same_core_def split: sum.splits)

lemma aside_definitions: "aside db (save_definitions ids db)"
  by (simp add: save_definitions_def aside_def same_core_def)

lemma aside_acquire: "aside db (snd (acquire_eval_lease i owner token now seconds db))"
  by (simp add: acquire_eval_lease_def aside_def same_core_def Let_def split: option.splits)

lemma aside_renew: "aside db (snd (renew_eval_lease l now seconds db))"
  by (simp add: renew_eval_lease_def aside_def same_core_def)

lemma aside_release: "aside db (release_eval_lease l db)"
  by (simp add: release_eval_lease_def aside_def same_core_def)

lemma aside_metric: "aside db (snd (save_metric m db))"
  by (auto simp add: save_metric_def aside_def same_core_def split: option.splits)

lemma aside_event: "aside db (snd (append_event e db))"
  by (auto simp add: append_event_def aside_def same_core_def split: option.splits)

lemma aside_occurrence: "aside db (snd (append_occurrence x db))"
  by (auto simp add: append_occurrence_def aside_def same_core_def split: sum.splits)

lemma aside_verification: "aside db (snd (save_verification v db))"
  by (auto simp add: save_verification_def aside_def same_core_def split: sum.splits dest: keep_or_add_prefix)

lemma aside_promotion: "aside db (snd (save_promotion p db))"
  by (auto simp add: save_promotion_def aside_def same_core_def split: sum.splits dest: keep_or_add_prefix)

lemmas aside_calls = aside_subject aside_environment aside_definitions aside_acquire aside_renew aside_release aside_metric aside_event
  aside_occurrence aside_verification aside_promotion

section \<open>Plans and results\<close>

lemma save_plan_ok:
  assumes inv: "eval_inv dumps db" and p: "ep_cases p \<noteq> []"
  shows "step_ok dumps db (snd (save_eval_plan p db))"
proof (cases "keep_or_add ''evaluation_plan_immutable'' ep_id p (ed_plans db)")
  case (Inl e)
  then show ?thesis using inv by (simp add: save_eval_plan_def step_ok_refl)
next
  case (Inr rows)
  have pre: "prefix (ed_plans db) rows" and ne: "list_all (\<lambda>p. ep_cases p \<noteq> []) rows"
    using keep_or_add_prefix [OF Inr] keep_or_addD [OF Inr] inv p by (auto simp add: eval_inv_def)
  have "step_ok dumps db (db\<lparr>ed_plans := rows\<rparr>)"
  proof (rule same_core_ok [OF inv])
    show "list_all (result_planned (db\<lparr>ed_plans := rows\<rparr>)) (ed_results (db\<lparr>ed_plans := rows\<rparr>))"
      using inv result_planned_mono [of db _ "db\<lparr>ed_plans := rows\<rparr>"] pre unfolding eval_inv_def list_all_iff by simp
  qed (use inv pre ne in \<open>simp_all add: same_core_def eval_inv_def eval_keys_ok_def\<close>)
  then show ?thesis using inv Inr by (simp add: save_eval_plan_def step_ok_refl)
qed

lemma save_result_ok:
  assumes inv: "eval_inv dumps db" and r: "result_planned db r"
  shows "step_ok dumps db (snd (save_result r db))"
proof (cases "keep_or_add ''evaluation_case_result_immutable'' cr_id r (ed_results db)")
  case (Inl e)
  then show ?thesis using inv by (simp add: save_result_def step_ok_refl)
next
  case (Inr rows)
  let ?d = "db\<lparr>ed_results := rows\<rparr>"
  have "list_all (result_planned db) rows" using keep_or_addD [OF Inr] inv r by (auto simp add: eval_inv_def)
  moreover have "result_planned ?d = result_planned db" by (simp add: result_planned_def fun_eq_iff)
  ultimately have "step_ok dumps db ?d" using keep_or_add_prefix [OF Inr] keep_or_add_distinct [OF Inr] inv
    by (intro same_core_ok) (simp_all add: same_core_def eval_inv_def eval_keys_ok_def)
  then show ?thesis using inv Inr by (simp add: save_result_def step_ok_refl)
qed

section \<open>Runs\<close>

lemma run_change_ok:
  assumes inv: "eval_inv dumps db" and later: "runs_later (ed_runs db) rows" and keys: "distinct (map eu_id rows)"
  shows "step_ok dumps db (db\<lparr>ed_runs := rows\<rparr>)"
proof -
  let ?d = "db\<lparr>ed_runs := rows\<rparr>"
  have "list_all (result_planned ?d) (ed_results ?d)"
    using inv result_planned_mono [of db _ ?d] later unfolding eval_inv_def list_all_iff by simp
  moreover have "bad_sound ?d = bad_sound db" by (simp add: bad_sound_def verified_by_def passing_evidence_def fun_eq_iff)
  moreover have "version_sound dumps ?d = version_sound dumps db" using version_sound_cong [of ?d db] by (simp add: fun_eq_iff)
  ultimately show ?thesis unfolding step_ok_def using inv later keys
    by (simp add: eval_inv_def eval_later_def eval_keys_ok_def frozen_later_cong)
qed

text \<open>A run that an operation read before: a copy that may be stale, but of the same run.\<close>

definition copy_of :: "eval_db \<Rightarrow> eval_run \<Rightarrow> bool" where
  "copy_of db run \<longleftrightarrow> (\<exists>row. find_by eu_id (eu_id run) (ed_runs db) = Some row \<and> run_identity run = run_identity row)"

lemma copy_later: "copy_of db run \<Longrightarrow> step_ok dumps db db' \<Longrightarrow> copy_of db' run"
  unfolding copy_of_def step_ok_def eval_later_def runs_later_def run_follows_def by metis

lemma copy_read: "find_by eu_id i (ed_runs db) = Some run \<Longrightarrow> copy_of db run"
  unfolding copy_of_def using find_by_SomeD by metis

lemma find_by_replace:
  "find_by key i (update_by key (key x) (\<lambda>_. x) rows) = (if i = key x then map_option (\<lambda>_. x) (find_by key i rows) else find_by key i rows)"
  by (induction rows) (auto simp add: update_by_def)

lemma update_run_ok:
  assumes inv: "eval_inv dumps db" and copy: "copy_of db run"
  shows "step_ok dumps db (snd (update_run run db))"
proof -
  obtain row where row: "find_by eu_id (eu_id run) (ed_runs db) = Some row" "run_identity run = run_identity row"
    using copy unfolding copy_of_def by blast
  have get: "get_eval_run (eu_id run) db = (Inr row, db)" using row(1) by (simp add: get_eval_run_def read_row_def)
  show ?thesis
  proof (cases "terminal_status (eu_status row) \<or> (eu_status run \<noteq> eu_status row \<and> eu_status run \<notin> set (RUN_TRANSITIONS (eu_status row)))")
    case True
    then show ?thesis using inv by (auto simp add: update_run_def get step_ok_refl)
  next
    case False
    let ?rows = "update_by eu_id (eu_id run) (\<lambda>_. run) (ed_runs db)"
    have "runs_later (ed_runs db) ?rows" unfolding runs_later_def find_by_replace using row False by (auto simp add: run_follows_def)
    moreover have "map eu_id ?rows = map eu_id (ed_runs db)" by (simp add: update_by_def)
    ultimately have "step_ok dumps db (db\<lparr>ed_runs := ?rows\<rparr>)" using inv by (intro run_change_ok) (simp_all add: eval_inv_def eval_keys_ok_def)
    then show ?thesis using False by (auto simp add: update_run_def get)
  qed
qed

lemma save_run_ok: "eval_inv dumps db \<Longrightarrow> step_ok dumps db (snd (save_run run db))"
proof (cases "find_by eu_id (eu_id run) (ed_runs db)")
  case None
  assume inv: "eval_inv dumps db"
  have "eu_id run \<notin> eu_id ` set (ed_runs db)" using None by (simp add: find_by_None_iff)
  then have "step_ok dumps db (db\<lparr>ed_runs := ed_runs db @ [run]\<rparr>)"
    using inv by (intro run_change_ok) (auto simp add: runs_later_append eval_inv_def eval_keys_ok_def)
  then show ?thesis using inv None by (simp add: save_run_def step_ok_refl)
next
  case (Some x)
  assume "eval_inv dumps db"
  then show ?thesis using Some by (simp add: save_run_def step_ok_refl)
qed

lemma request_cancel_ok: "eval_inv dumps db \<Longrightarrow> step_ok dumps db (snd (request_eval_cancel i now db))"
  unfolding request_eval_cancel_def
proof (rule and_then_ok)
  assume inv: "eval_inv dumps db"
  then show "step_ok dumps db (snd (get_eval_run i db))" by (simp add: step_ok_refl)
  fix run s assume g: "get_eval_run i db = (Inr run, s)"
  let ?u = "run\<lparr>eu_cancel := True, eu_updated := now\<rparr>"
  have "copy_of db run" and s: "s = db" using get_runD [OF g] copy_read by blast+
  then have "copy_of db ?u" by (simp add: copy_of_def run_identity_def)
  then have "step_ok dumps db (snd (update_run ?u db))" using update_run_ok [OF inv] by blast
  then show "step_ok dumps db (snd (if terminal_status (eu_status run) then (eval_error ''evaluation_cancel_not_allowed'', s)
      else let u = ?u in and_then (update_run u s) (\<lambda>_ db. (Inr u, db))))"
    using inv unfolding s by (auto simp add: step_ok_refl Let_def intro!: and_then_ok)
qed

lemma cancelling_ok: "eval_inv dumps db \<Longrightarrow> step_ok dumps db (cancelling b i now db)"
  by (simp add: cancelling_def request_cancel_ok step_ok_refl)

section \<open>Dataset versions and cases\<close>

lemma version_change_ok:
  assumes inv: "eval_inv dumps db" and keys: "distinct (map dv_id rows)" and sound: "list_all (version_sound dumps db) rows"
    and frozen: "\<And>i v. find_by dv_id i (ed_versions db) = Some v \<Longrightarrow> dv_status v = VersionFrozen \<Longrightarrow> find_by dv_id i rows = Some v"
  shows "step_ok dumps db (db\<lparr>ed_versions := rows\<rparr>)"
proof -
  let ?d = "db\<lparr>ed_versions := rows\<rparr>"
  have "version_sound dumps ?d = version_sound dumps db" using version_sound_cong [of ?d db] by (simp add: fun_eq_iff)
  moreover have "bad_sound ?d = bad_sound db" by (simp add: bad_sound_def verified_by_def passing_evidence_def fun_eq_iff)
  moreover have "result_planned ?d = result_planned db" by (simp add: result_planned_def fun_eq_iff)
  moreover have "frozen_later db ?d" using frozen by (simp add: frozen_later_def cases_of_def)
  ultimately show ?thesis unfolding step_ok_def using inv keys sound by (simp add: eval_inv_def eval_later_def eval_keys_ok_def)
qed

lemma save_version_ok:
  assumes inv: "eval_inv dumps db" and v: "version_sound dumps db v"
  shows "step_ok dumps db (snd (save_version v db))"
proof (cases "find_by dv_id (dv_id v) (ed_versions db)")
  case None
  then have "dv_id v \<notin> dv_id ` set (ed_versions db)" by (simp add: find_by_None_iff)
  then have "step_ok dumps db (db\<lparr>ed_versions := ed_versions db @ [v]\<rparr>)"
    using inv v by (intro version_change_ok) (auto simp add: eval_inv_def eval_keys_ok_def find_by_append)
  then show ?thesis using inv None by (simp add: save_version_def step_ok_refl)
next
  case (Some x)
  have "step_ok dumps db (db\<lparr>ed_versions := update_by dv_id (dv_id v) (\<lambda>_. v) (ed_versions db)\<rparr>)" if "dv_status x \<noteq> VersionFrozen"
  proof (rule version_change_ok [OF inv])
    have "map dv_id (update_by dv_id (dv_id v) (\<lambda>_. v) (ed_versions db)) = map dv_id (ed_versions db)" by (simp add: update_by_def)
    then show "distinct (map dv_id (update_by dv_id (dv_id v) (\<lambda>_. v) (ed_versions db)))" using inv by (simp add: eval_inv_def eval_keys_ok_def)
    show "list_all (version_sound dumps db) (update_by dv_id (dv_id v) (\<lambda>_. v) (ed_versions db))"
      using inv v by (auto simp add: eval_inv_def list_all_iff set_update_by)
    fix i w assume "find_by dv_id i (ed_versions db) = Some w" "dv_status w = VersionFrozen"
    then show "find_by dv_id i (update_by dv_id (dv_id v) (\<lambda>_. v) (ed_versions db)) = Some w"
      unfolding find_by_replace using Some that by auto
  qed
  then show ?thesis using inv Some by (auto simp add: save_version_def step_ok_refl)
qed

lemma cases_of_append: "ec_version c \<noteq> i \<Longrightarrow> cases_of i (db\<lparr>ed_cases := ed_cases db @ [c]\<rparr>) = cases_of i db"
  by (simp add: cases_of_def)

lemma save_case_ok: "eval_inv dumps db \<Longrightarrow> step_ok dumps db (snd (save_case c db))"
  unfolding save_case_def
proof (rule and_then_ok)
  assume inv: "eval_inv dumps db"
  then show "step_ok dumps db (snd (get_version (ec_version c) db))" by (simp add: step_ok_refl)
  fix v s assume "get_version (ec_version c) db = (Inr v, s)"
  then have v: "find_by dv_id (ec_version c) (ed_versions db) = Some v" and s: "s = db" by (auto dest: get_versionD)
  have "step_ok dumps db (db\<lparr>ed_cases := ed_cases db @ [c]\<rparr>)" if fresh: "find_by ec_id (ec_id c) (ed_cases db) = None" and draft: "dv_status v \<noteq> VersionFrozen"
  proof -
    let ?d = "db\<lparr>ed_cases := ed_cases db @ [c]\<rparr>"
    have other: "cases_of (dv_id w) ?d = cases_of (dv_id w) db" if "w \<in> set (ed_versions db)" "dv_status w = VersionFrozen" for w
    proof (rule cases_of_append)
      have "find_by dv_id (dv_id w) (ed_versions db) = Some w" using inv that(1) by (intro find_by_distinct) (simp_all add: eval_inv_def eval_keys_ok_def)
      then show "ec_version c \<noteq> dv_id w" using v draft that(2) by auto
    qed
    then have "list_all (version_sound dumps ?d) (ed_versions db)" using inv by (simp add: eval_inv_def list_all_iff version_sound_def)
    moreover have "frozen_later db ?d" unfolding frozen_later_def
    proof (intro allI impI)
      fix i w assume w: "find_by dv_id i (ed_versions db) = Some w" "dv_status w = VersionFrozen"
      then show "find_by dv_id i (ed_versions ?d) = Some w \<and> cases_of i ?d = cases_of i db" using other [of w] find_by_SomeD [OF w(1)] by simp
    qed
    moreover have "bad_sound ?d = bad_sound db" by (simp add: bad_sound_def verified_by_def passing_evidence_def fun_eq_iff)
    moreover have "result_planned ?d = result_planned db" by (simp add: result_planned_def fun_eq_iff)
    moreover have "ec_id c \<notin> ec_id ` set (ed_cases db)" using fresh by (simp add: find_by_None_iff)
    ultimately show ?thesis unfolding step_ok_def using inv by (simp add: eval_inv_def eval_later_def eval_keys_ok_def)
  qed
  then show "step_ok dumps db (snd (case find_by ec_id (ec_id c) (ed_cases s) of
         None \<Rightarrow> if dv_status v = VersionFrozen then (eval_error ''evaluation_dataset_version_frozen'', s)
                 else (Inr (), s\<lparr>ed_cases := ed_cases s @ [c]\<rparr>)
       | Some x \<Rightarrow> if x = c then (Inr (), s) else (eval_error ''evaluation_case_immutable'', s)))"
    using inv unfolding s by (auto simp add: step_ok_refl split: option.splits)
qed

lemma freeze_check_sound: "freeze_check v cs = Inr () \<Longrightarrow> cases_sound cs"
  by (auto simp add: freeze_check_def cases_sound_def eval_error_def list_ex_iff list_all_iff split: if_splits)

lemma frozen_version_sound:
  "cases_sound (cases_of (dv_id v) db) \<Longrightarrow> version_sound dumps db (frozen_version dumps (cases_of (dv_id v) db) v)"
  by (simp add: version_sound_def frozen_version_def)

lemma freeze_ok: "eval_inv dumps db \<Longrightarrow> step_ok dumps db (snd (validate_and_freeze dumps i db))"
  unfolding validate_and_freeze_def
proof (rule and_then_ok)
  assume inv: "eval_inv dumps db"
  then show "step_ok dumps db (snd (get_version i db))" by (simp add: step_ok_refl)
  fix v s assume "get_version i db = (Inr v, s)"
  then have i: "dv_id v = i" and s: "s = db" by (auto dest!: get_versionD dest: find_by_SomeD)
  let ?f = "frozen_version dumps (cases_of i db) v"
  have "step_ok dumps db (snd (save_version ?f db))" if "freeze_check v (cases_of i db) = Inr ()"
    using save_version_ok [OF inv] frozen_version_sound [of v db dumps] freeze_check_sound [OF that] i by simp
  then show "step_ok dumps db (snd (if dv_status v = VersionFrozen then (Inr v, s)
      else case freeze_check v (cases_of i s) of Inl e \<Rightarrow> (Inl e, s)
         | Inr _ \<Rightarrow> let f = frozen_version dumps (cases_of i s) v in and_then (save_version f s) (\<lambda>_ db. (Inr f, db))))"
    using inv unfolding s by (auto simp add: step_ok_refl Let_def split: sum.splits intro!: and_then_ok)
qed

section \<open>Baselines\<close>

lemma same_scope_symp: "same_scope a b \<Longrightarrow> same_scope b a"
  by (simp add: same_scope_def)

lemma same_scope_trans: "same_scope a b \<Longrightarrow> same_scope b c \<Longrightarrow> same_scope a c"
  by (simp add: same_scope_def)

definition superseding :: "baseline_binding \<Rightarrow> baseline_binding list \<Rightarrow> baseline_binding list" where
  "superseding b bs = update_where (\<lambda>x. same_scope x b \<and> bb_status x = BaselineActive) (\<lambda>x. x\<lparr>bb_status := BaselineSuperseded\<rparr>) bs @ [b]"

lemma active_superseding: "x \<in> set (superseding b bs) \<Longrightarrow> bb_status x = BaselineActive \<Longrightarrow> x = b \<or> (x \<in> set bs \<and> \<not> same_scope x b)"
  by (auto simp add: superseding_def set_update_where)

lemma one_active_superseding: "one_active_binding bs \<Longrightarrow> one_active_binding (superseding b bs)"
  unfolding one_active_binding_def by (metis active_superseding same_scope_symp)

lemma binding_change_ok:
  assumes inv: "eval_inv dumps db" and "distinct (map bb_id rows)" "one_active_binding rows"
  shows "step_ok dumps db (db\<lparr>ed_bindings := rows\<rparr>)"
proof -
  let ?d = "db\<lparr>ed_bindings := rows\<rparr>"
  have "version_sound dumps ?d = version_sound dumps db" using version_sound_cong [of ?d db] by (simp add: fun_eq_iff)
  moreover have "bad_sound ?d = bad_sound db" by (simp add: bad_sound_def verified_by_def passing_evidence_def fun_eq_iff)
  moreover have "result_planned ?d = result_planned db" by (simp add: result_planned_def fun_eq_iff)
  ultimately show ?thesis unfolding step_ok_def using assms by (simp add: eval_inv_def eval_later_def eval_keys_ok_def frozen_later_cong)
qed

lemma store_baseline_ok: "eval_inv dumps db \<Longrightarrow> step_ok dumps db (snd (store_baseline b db))"
  unfolding store_baseline_def
proof (rule and_then_ok)
  assume inv: "eval_inv dumps db"
  then show "step_ok dumps db (snd (get_eval_run (bb_run b) db))" by (simp add: step_ok_refl)
  fix run s assume "get_eval_run (bb_run b) db = (Inr run, s)"
  then have s: "s = db" by (auto dest: get_runD)
  have new: "step_ok dumps db (db\<lparr>ed_bindings := superseding b (ed_bindings db)\<rparr>)" if "bb_id b \<notin> bb_id ` set (ed_bindings db)"
  proof (rule binding_change_ok [OF inv])
    show "one_active_binding (superseding b (ed_bindings db))" using inv by (simp add: eval_inv_def one_active_superseding)
    show "distinct (map bb_id (superseding b (ed_bindings db)))" using inv that by (simp add: eval_inv_def eval_keys_ok_def superseding_def map_update_where)
  qed
  show "step_ok dumps db (snd (and_then (get_subject (bb_subject b) s) (\<lambda>subject db.
       if eu_status run \<noteq> EvCompleted \<or> \<not> eu_complete run then (eval_error ''baseline_run_incomplete'', db)
       else if eu_subject run \<noteq> bb_subject b \<or> eu_version run \<noteq> bb_version b then (eval_error ''baseline_binding_identity_mismatch'', db)
       else if subject_hash subject \<noteq> es_hash subject then (eval_error ''evaluation_subject_hash_mismatch'', db)
       else if \<not> formal_baseline_eligible subject then (eval_error ''formal_baseline_requires_clean_commit_subject'', db)
       else if bb_id b \<in> bb_id ` set (ed_bindings db) then (Inl IntegrityError, db)
       else (Inr (), db\<lparr>ed_bindings := update_where (\<lambda>x. same_scope x b \<and> bb_status x = BaselineActive)
              (\<lambda>x. x\<lparr>bb_status := BaselineSuperseded\<rparr>) (ed_bindings db) @ [b]\<rparr>))))"
    unfolding s superseding_def [symmetric]
  proof (rule and_then_ok)
    show "step_ok dumps db (snd (get_subject (bb_subject b) db))" using inv by (simp add: step_ok_refl)
    fix subject t assume "get_subject (bb_subject b) db = (Inr subject, t)"
    then have "t = db" by (metis read_same(5) snd_conv)
    then show "step_ok dumps db (snd (if eu_status run \<noteq> EvCompleted \<or> \<not> eu_complete run then (eval_error ''baseline_run_incomplete'', t)
       else if eu_subject run \<noteq> bb_subject b \<or> eu_version run \<noteq> bb_version b then (eval_error ''baseline_binding_identity_mismatch'', t)
       else if subject_hash subject \<noteq> es_hash subject then (eval_error ''evaluation_subject_hash_mismatch'', t)
       else if \<not> formal_baseline_eligible subject then (eval_error ''formal_baseline_requires_clean_commit_subject'', t)
       else if bb_id b \<in> bb_id ` set (ed_bindings t) then (Inl IntegrityError, t)
       else (Inr (), t\<lparr>ed_bindings := superseding b (ed_bindings t)\<rparr>)))"
      using inv new by (simp add: step_ok_refl)
  qed
qed

lemma promote_baseline_ok: "eval_inv dumps db \<Longrightarrow> step_ok dumps db (snd (promote_baseline v c m g r db))"
  unfolding promote_baseline_def
  by (rule and_then_ok) (auto simp add: step_ok_refl Let_def dest!: get_runD intro!: and_then_ok store_baseline_ok)

end
