(* ===== verification/Ev_Machine.thy ===== *)
theory Ev_Machine
  imports Ev_Keeps
begin

text \<open>The operations over several tables, and the store as a machine that only takes sound steps.\<close>

section \<open>Bad cases\<close>

lemma save_bad_case_ok:
  assumes inv: "eval_inv dumps db" and b: "bad_sound db b"
  shows "step_ok dumps db (snd (save_bad_case b db))"
proof -
  have change: "step_ok dumps db (db\<lparr>ed_bad_cases := rows\<rparr>)" if "distinct (map bc_id rows)" "list_all (bad_sound db) rows" for rows
  proof -
    let ?d = "db\<lparr>ed_bad_cases := rows\<rparr>"
    have "version_sound dumps ?d = version_sound dumps db" using version_sound_cong [of ?d db] by (simp add: fun_eq_iff)
    moreover have "bad_sound ?d = bad_sound db" by (simp add: bad_sound_def verified_by_def passing_evidence_def fun_eq_iff)
    moreover have "result_planned ?d = result_planned db" by (simp add: result_planned_def fun_eq_iff)
    ultimately show ?thesis unfolding step_ok_def using inv that by (simp add: eval_inv_def eval_later_def eval_keys_ok_def frozen_later_cong)
  qed
  show ?thesis
  proof (cases "find_by bc_id (bc_id b) (ed_bad_cases db)")
    case None
    then have "bc_id b \<notin> bc_id ` set (ed_bad_cases db)" by (simp add: find_by_None_iff)
    then have "step_ok dumps db (db\<lparr>ed_bad_cases := ed_bad_cases db @ [b]\<rparr>)"
      using inv b by (intro change) (simp_all add: eval_inv_def eval_keys_ok_def)
    then show ?thesis using inv None by (simp add: save_bad_case_def step_ok_refl)
  next
    case (Some x)
    let ?rows = "update_by bc_id (bc_id b) (\<lambda>_. b\<lparr>bc_fingerprint := bc_fingerprint x\<rparr>) (ed_bad_cases db)"
    have "map bc_id ?rows = map bc_id (ed_bad_cases db)" by (simp add: update_by_def)
    moreover have "bad_sound db (b\<lparr>bc_fingerprint := bc_fingerprint x\<rparr>)" using b by (simp add: bad_sound_def verified_by_def passing_evidence_def)
    ultimately have "step_ok dumps db (db\<lparr>ed_bad_cases := ?rows\<rparr>)"
      using inv by (intro change) (auto simp add: eval_inv_def eval_keys_ok_def list_all_iff set_update_by)
    then show ?thesis using inv Some by (simp add: save_bad_case_def step_ok_refl)
  qed
qed

lemma bad_sound_later: "bad_sound db b \<Longrightarrow> step_ok dumps db db' \<Longrightarrow> bad_sound db' b"
  unfolding step_ok_def eval_later_def using bad_sound_mono by blast

lemma bad_row_sound: "eval_inv dumps db \<Longrightarrow> find_by k i (ed_bad_cases db) = Some b \<Longrightarrow> bad_sound db b"
  by (auto simp add: eval_inv_def list_all_iff dest: find_by_SomeD)

lemma new_bad_case_sound: "bad_sound db (new_bad_case c r trigger)"
  by (simp add: bad_sound_def new_bad_case_def)

lemma seen_again_sound: "bad_sound db b \<Longrightarrow> bad_sound db (seen_again r b)"
  by (simp add: bad_sound_def seen_again_def verified_by_def passing_evidence_def)

lemma step_ok_inv: "step_ok dumps db db' \<Longrightarrow> eval_inv dumps db'"
  by (simp add: step_ok_def)

text \<open>The next call of a sequence.\<close>

lemma next_ok: "step_ok dumps db0 db \<Longrightarrow> (eval_inv dumps db \<Longrightarrow> step_ok dumps db db') \<Longrightarrow> step_ok dumps db0 db'"
  using step_ok_trans step_ok_inv by blast

lemma next_aside: "step_ok dumps db0 db \<Longrightarrow> aside db db' \<Longrightarrow> step_ok dumps db0 db'"
  using next_ok aside_ok by blast

lemma analyze_ok: "eval_inv dumps db \<Longrightarrow> step_ok dumps db (snd (analyze c r subject db))"
proof (cases "trigger_type r")
  case None
  assume "eval_inv dumps db"
  then show ?thesis using None by (simp add: analyze_def step_ok_refl)
next
  case (Some trigger)
  assume inv: "eval_inv dumps db"
  let ?n = "new_bad_case c r trigger"
  let ?o = "occurrence_of (bc_id ?n) r subject"
  consider (seen) x where "find_by oc_id (oc_id ?o) (ed_occurrences db) = Some x"
    | (new) "find_by oc_id (oc_id ?o) (ed_occurrences db) = None" "find_by bc_fingerprint (bad_fingerprint c r) (ed_bad_cases db) = None"
    | (again) b where "find_by oc_id (oc_id ?o) (ed_occurrences db) = None" "find_by bc_fingerprint (bad_fingerprint c r) (ed_bad_cases db) = Some b"
    by fastforce
  then show ?thesis
  proof cases
    case seen
    then show ?thesis using inv Some by (auto simp add: analyze_def step_ok_refl Let_def dest!: get_bad_caseD intro!: and_then_ok)
  next
    case new
    have "step_ok dumps db (snd (and_then (save_bad_case ?n db) (\<lambda>_ db. and_then (append_occurrence ?o db) (\<lambda>_ db. (Inr (Some ?n), db)))))"
      using save_bad_case_ok [OF inv new_bad_case_sound] by (intro and_then_ok) (auto intro: next_aside aside_occurrence)
    then show ?thesis using Some new by (simp add: analyze_def Let_def)
  next
    case again
    let ?first = "if bc_status b = BadClosed then append_event (recurrence_event b) db else (Inr (), db)"
    have first: "step_ok dumps db (snd ?first)" using inv by (simp add: step_ok_refl aside_ok aside_event)
    have "step_ok dumps db (snd (and_then ?first (\<lambda>_ db. and_then (save_bad_case (seen_again r b) db) (\<lambda>_ db.
        and_then (append_occurrence (?o\<lparr>oc_bad_case := bc_id b\<rparr>) db) (\<lambda>_ db. (Inr (Some (seen_again r b)), db))))))"
    proof (rule and_then_ok [OF first])
      fix x s assume s: "step_ok dumps db s"
      have "bad_sound s (seen_again r b)" using seen_again_sound bad_sound_later [OF _ s] bad_row_sound [OF inv again(2)] by blast
      then have "step_ok dumps db (snd (save_bad_case (seen_again r b) s))" using next_ok [OF s] save_bad_case_ok by blast
      then show "step_ok dumps db (snd (and_then (save_bad_case (seen_again r b) s) (\<lambda>_ db.
          and_then (append_occurrence (?o\<lparr>oc_bad_case := bc_id b\<rparr>) db) (\<lambda>_ db. (Inr (Some (seen_again r b)), db)))))"
        by (intro and_then_ok) (auto intro: next_aside aside_occurrence)
    qed
    then show ?thesis using Some again by (simp add: analyze_def Let_def)
  qed
qed

lemma check_verification_evidence:
  assumes "check_verification (bc_id b) w db = Inr v"
  shows "passing_evidence db b v"
proof -
  obtain r where w: "w = Some v" "bv_bad_case v = bc_id b" and r: "List.find (\<lambda>r. cr_id r = bv_result v) (results_of (bv_run v) db) = Some r"
    and ok: "cr_outcome r = Some OutcomePassed" "cr_complete r"
    and p: "list_ex (\<lambda>p. cp_bad_case p = bc_id b \<and> cp_status p = Reproduced \<and> cp_new_case p = cr_case r) (ed_promotions db)"
    using assms by (auto simp add: check_verification_def eval_error_def split: option.splits if_splits)
  have "r \<in> set (ed_results db)" "cr_run r = bv_run v" "cr_id r = bv_result v" using find_SomeD [OF r] by (auto simp add: results_of_def)
  then show ?thesis using w ok p unfolding passing_evidence_def list_ex_iff by blast
qed

lemma first_some_Some: "first_some a b = None \<longleftrightarrow> a = None \<and> b = None"
  by (cases a) (simp_all add: first_some_def)

lemma moved_fields [simp]:
  "bc_status (moved_bad_case b target q v) = target" "bc_id (moved_bad_case b target q v) = bc_id b" "bc_verification (moved_bad_case b target q v) = v"
  "bc_cause (moved_bad_case b target q v) = first_some (tq_cause q) (bc_cause b)" "bc_fix (moved_bad_case b target q v) = first_some (tq_fix q) (bc_fix b)"
  by (simp_all add: moved_bad_case_def)

lemma passing_moved [simp]: "passing_evidence db (moved_bad_case b target q v) = passing_evidence db b"
  by (simp add: passing_evidence_def fun_eq_iff)

lemma moved_sound:
  assumes b: "bad_sound db b" and t: "target \<in> set (ALLOWED_TRANSITIONS (bc_status b))"
    and cause: "target = BadConfirmed \<Longrightarrow> first_some (tq_cause q) (bc_cause b) \<noteq> None"
    and mended: "target = BadFixed \<Longrightarrow> first_some (tq_fix q) (bc_fix b) \<noteq> None"
    and verified: "target = BadVerified \<Longrightarrow> \<exists>w \<in> set (ed_verifications db). v = Some (bv_id w) \<and> passing_evidence db b w"
    and other: "target \<noteq> BadVerified \<Longrightarrow> v = bc_verification b"
  shows "bad_sound db (moved_bad_case b target q v)"
proof -
  show ?thesis
  proof (cases target)
    case BadVerified
    then have "bc_status b = BadFixed" using t by (cases "bc_status b") simp_all
    then show ?thesis using b verified BadVerified by (auto simp add: bad_sound_def first_some_Some verified_by_def)
  next
    case BadClosed
    then have "bc_status b = BadVerified" using t by (cases "bc_status b") simp_all
    then show ?thesis using b other BadClosed by (auto simp add: bad_sound_def first_some_Some verified_by_def)
  next
    case BadFixed
    then have "bc_status b = BadFixing" using t by (cases "bc_status b") simp_all
    then show ?thesis using b mended BadFixed by (auto simp add: bad_sound_def first_some_Some)
  next
    case BadFixing
    then have "bc_status b = BadConfirmed" using t by (cases "bc_status b") simp_all
    then show ?thesis using b BadFixing by (auto simp add: bad_sound_def first_some_Some)
  next
    case BadConfirmed
    then show ?thesis using cause by (auto simp add: bad_sound_def)
  qed (simp_all add: bad_sound_def)
qed

lemma save_verification_member: "save_verification v db = (Inr (), db') \<Longrightarrow> v \<in> set (ed_verifications db')"
  by (auto simp add: save_verification_def split: sum.splits if_splits dest: keep_or_addD)

lemma passing_evidence_later: "passing_evidence db b v \<Longrightarrow> step_ok dumps db db' \<Longrightarrow> passing_evidence db' b v"
proof -
  assume p: "passing_evidence db b v" and s: "step_ok dumps db db'"
  have "set (ed_results db) \<subseteq> set (ed_results db')" "set (ed_promotions db) \<subseteq> set (ed_promotions db')"
    using s set_mono_prefix unfolding step_ok_def eval_later_def by blast+
  then show ?thesis using p unfolding passing_evidence_def by blast
qed

lemma transition_ok:
  assumes inv: "eval_inv dumps db"
  shows "step_ok dumps db (snd (transition_bad_case i target q actor db))"
proof (cases "find_by bc_id i (ed_bad_cases db)")
  case None
  then show ?thesis using inv by (simp add: transition_bad_case_def get_bad_case_def read_row_def eval_error_def step_ok_refl)
next
  case (Some b)
  have id: "bc_id b = i" using find_by_SomeD [OF Some] by simp
  have get: "get_bad_case i db = (Inr b, db)" using Some by (simp add: get_bad_case_def read_row_def)
  let ?verify = "if target = BadVerified
      then (case check_verification i (tq_verification q) db of
              Inl e \<Rightarrow> (Inl e, db)
            | Inr v \<Rightarrow> and_then (save_verification v db) (\<lambda>_ db. (Inr (Some (bv_id v)), db)))
      else (Inr (bc_verification b), db)"
  define event where "event = \<lparr>be_id = event_id_of i (bc_revision b + 1), be_bad_case = i, be_sequence = bc_revision b + 1,
                be_from = Some (bc_status b), be_to = target, be_actor = eval_hash (JStr actor), be_based_on = tq_revision q,
                be_reason = tq_reason q, be_refs = tq_refs q\<rparr>"
  let ?rest = "\<lambda>v db. if target = BadClosed \<and> (first_some (tq_cause q) (bc_cause b) = None \<or> first_some (tq_fix q) (bc_fix b) = None \<or> v = None)
         then (eval_error ''bad_case_close_requirements_missing'', db)
         else and_then (append_event event db) (\<lambda>_ db. and_then (save_bad_case (moved_bad_case b target q v) db) (\<lambda>_ db. (Inr (moved_bad_case b target q v), db)))"
  let ?go = "bc_revision b = tq_revision q \<and> target \<in> set (ALLOWED_TRANSITIONS (bc_status b))
      \<and> \<not> (target = BadConfirmed \<and> first_some (tq_cause q) (bc_cause b) = None) \<and> \<not> (target = BadFixed \<and> first_some (tq_fix q) (bc_fix b) = None)"
  have "snd (transition_bad_case i target q actor db) = (if ?go then snd (and_then ?verify ?rest) else db)"
    unfolding transition_bad_case_def get and_then_simps event_def by (simp add: eval_error_def)
  moreover have "step_ok dumps db (snd (and_then ?verify ?rest))" if go: ?go
  proof (rule and_then_ok)
    show "step_ok dumps db (snd ?verify)" using inv
      by (auto simp add: step_ok_refl aside_ok aside_verification split: sum.splits intro!: and_then_ok)
    fix v s assume v: "?verify = (Inr v, s)" and s: "step_ok dumps db s"
    have w: "\<exists>w \<in> set (ed_verifications s). v = Some (bv_id w) \<and> passing_evidence s b w" if t: "target = BadVerified"
    proof -
      obtain w where w: "check_verification i (tq_verification q) db = Inr w" using v t by (cases "check_verification i (tq_verification q) db") simp_all
      then have "and_then (save_verification w db) (\<lambda>_ db. (Inr (Some (bv_id w)), db)) = (Inr v, s)" using v t by simp
      then have "save_verification w db = (Inr (), s)" "v = Some (bv_id w)"
        by (cases "save_verification w db"; cases "fst (save_verification w db)"; simp)+
      then show ?thesis using save_verification_member passing_evidence_later [OF _ s] check_verification_evidence [of b _ db w] w id by blast
    qed
    have "bad_sound s (moved_bad_case b target q v)"
    proof (rule moved_sound)
      show "bad_sound s b" using bad_sound_later [OF bad_row_sound [OF inv Some] s] .
      show "target \<noteq> BadVerified \<Longrightarrow> v = bc_verification b" using v by simp
    qed (use go w in auto)
    then have "step_ok dumps db (snd (and_then (append_event event s) (\<lambda>_ db. and_then (save_bad_case (moved_bad_case b target q v) db) (\<lambda>_ db. (Inr (moved_bad_case b target q v), db)))))"
    proof (intro and_then_ok, goal_cases)
      case 1
      show ?case using next_aside [OF s] aside_event by blast
    next
      case (2 x t)
      then have "step_ok dumps s t" using aside_ok [OF step_ok_inv [OF s] aside_event] by (metis snd_conv)
      then show ?case using next_ok [OF 2(3)] save_bad_case_ok bad_sound_later [OF 2(1)] by blast
    qed simp
    then show "step_ok dumps db (snd (?rest v s))" using s by simp
  qed
  ultimately show ?thesis using inv by (simp add: step_ok_refl)
qed

lemma mark_fixed_ok: "eval_inv dumps db \<Longrightarrow> step_ok dumps db (snd (mark_fixed i q actor db))"
  unfolding mark_fixed_def
proof (rule and_then_ok)
  assume inv: "eval_inv dumps db"
  then show "step_ok dumps db (snd (get_bad_case i db))" by (simp add: step_ok_refl)
  fix b s assume "get_bad_case i db = (Inr b, s)" and s: "step_ok dumps db s"
  show "step_ok dumps db (snd (and_then (if bc_status b = BadConfirmed
                 then and_then (transition_bad_case i BadFixing q actor s) (\<lambda>b db. (Inr (q\<lparr>tq_revision := bc_revision b\<rparr>), db))
                 else (Inr q, s)) (\<lambda>q db. transition_bad_case i BadFixed q actor db)))"
    using s next_ok [OF s transition_ok] by (intro and_then_ok) (auto intro!: and_then_ok intro: next_ok transition_ok)
qed

lemma derived_version_sound: "version_sound dumps db (derived_version target v)"
  by (simp add: version_sound_def derived_version_def)

lemma ensure_target_ok: "eval_inv dumps db \<Longrightarrow> step_ok dumps db (snd (ensure_target source target db))"
  by (auto simp add: ensure_target_def step_ok_refl derived_version_sound split: option.splits dest!: get_versionD intro!: and_then_ok save_version_ok)

lemma promote_case_ok: "eval_inv dumps db \<Longrightarrow> step_ok dumps db (snd (promote_case i source target n r rep fix c now db))"
  unfolding promote_case_def
proof (rule and_then_ok)
  assume inv: "eval_inv dumps db"
  then show "step_ok dumps db (snd (get_bad_case i db))" by (simp add: step_ok_refl)
  fix b s assume s: "step_ok dumps db s"
  let ?p = "\<lparr>cp_id = eval_id ''promotion'' (json_strings [i, target, n]), cp_bad_case = i, cp_source = source, cp_target = target,
               cp_new_case = n, cp_reproduction_result = r,
               cp_status = (if rep then Reproduced else ReproductionPending), cp_gold_approved = rep, cp_fix = fix, cp_created = now\<rparr>"
  have target: "step_ok dumps db (snd (and_then (ensure_target source target s) (\<lambda>_ db. save_case x db)))" for x
    using next_ok [OF s ensure_target_ok] by (intro and_then_ok) (auto intro: next_ok save_case_ok)
  let ?case = "case c of None \<Rightarrow> (Inr (), s)
         | Some c \<Rightarrow> if ec_id c \<noteq> n then (eval_error ''regression_case_identity_mismatch'', s)
             else if ec_version c \<noteq> target then (eval_error ''regression_case_dataset_mismatch'', s)
             else and_then (ensure_target source target s) (\<lambda>_ db. save_case c db)"
  have "step_ok dumps db (snd (and_then ?case (\<lambda>_ db. and_then (save_promotion ?p db) (\<lambda>_ db. (Inr ?p, db)))))"
  proof (rule and_then_ok)
    show "step_ok dumps db (snd ?case)" using s target by (auto split: option.splits)
  qed (auto intro!: and_then_ok intro: next_aside aside_promotion)
  then show "step_ok dumps db (snd (if bc_status b \<notin> {BadConfirmed, BadFixing, BadFixed, BadVerified} then (eval_error ''promotion_not_ready'', s)
       else if rep \<and> c = None then (eval_error ''regression_case_required'', s)
       else and_then ?case (\<lambda>_ db. let p = ?p in and_then (save_promotion p db) (\<lambda>_ db. (Inr p, db)))))"
    using s by (simp add: Let_def)
qed

end
