(* ===== verification/Ev_Process.thy ===== *)
theory Ev_Process
  imports Ev_Machine
begin

text \<open>Preparing, processing and executing runs are sound steps; what a run that ends leaves behind.\<close>

section \<open>Preparing\<close>

lemma plan_of_cases [simp]: "ep_cases (plan_of dumps q ids) = ids"
  by (simp add: plan_of_def)

lemma attempt_same [simp]: "snd (attempt_number retry db) = db"
  by (auto simp add: attempt_number_def and_then_def get_eval_run_def read_row_def eval_error_def split: option.splits)

lemma create_run_ok:
  assumes inv: "eval_inv dumps db" and ids: "ids \<noteq> []"
  shows "step_ok dumps db (snd (create_eval_run dumps' q fp ids index now db))"
  unfolding create_eval_run_def
proof (rule and_then_ok)
  show "step_ok dumps db (snd (attempt_number (rq_retry_of q) db))" using inv by (simp add: step_ok_refl)
  fix attempt s assume s: "step_ok dumps db s"
  let ?plan = "plan_of dumps' q ids"
  let ?run = "queued_run q fp (ep_id ?plan) attempt index (length ids) now"
  let ?save = "case find_by ep_id (ep_id ?plan) (ed_plans s) of
      Some p \<Rightarrow> if ep_config p \<noteq> ep_config ?plan then (eval_error ''evaluation_plan_conflict'', s) else (Inr (), s)
    | None \<Rightarrow> save_eval_plan ?plan s"
  have "step_ok dumps db (snd ?save)" using s next_ok [OF s save_plan_ok] ids by (auto split: option.splits)
  then have "step_ok dumps db (snd (and_then ?save (\<lambda>_ db. and_then (save_run ?run db) (\<lambda>_ db. (Inr ?run, db)))))"
    by (intro and_then_ok) (auto intro: next_ok save_run_ok)
  then show "step_ok dumps db (snd (if \<not> plan_valid q ids then (Inl ValidationError, s) else let plan = ?plan; run = queued_run q fp (ep_id plan) attempt index (length ids) now in
       and_then (case find_by ep_id (ep_id plan) (ed_plans s) of
           Some p \<Rightarrow> if ep_config p \<noteq> ep_config plan then (eval_error ''evaluation_plan_conflict'', s) else (Inr (), s)
         | None \<Rightarrow> save_eval_plan plan s) (\<lambda>_ db. and_then (save_run run db) (\<lambda>_ db. (Inr run, db)))))"
    using s by (simp add: Let_def)
qed

text \<open>What \<open>prepare_run\<close> does after its reads.\<close>

definition enter_run :: "eval_dumps \<Rightarrow> eval_run_request \<Rightarrow> run_fingerprint \<Rightarrow> string list \<Rightarrow> nat option \<Rightarrow> nat \<Rightarrow> eval_db \<Rightarrow> (eval_db, eval_run) outcome" where
  "enter_run dumps q fp ids index now db =
     (case (if rq_retry_of q = None \<and> rq_trial q = None then find_reusable_run (fp_hash fp) db else None) of
        Some r \<Rightarrow> (Inr r, db) | None \<Rightarrow> create_eval_run dumps q fp ids index now db)"

definition requested_ids :: "eval_run_request \<Rightarrow> eval_case list \<Rightarrow> string list" where
  "requested_ids q found = map ec_id (filter (\<lambda>c. ec_component c \<in> set (rq_components q)) found)"

lemma list_cases_then: "and_then (list_cases v ids db) f = (case fst (list_cases v ids db) of Inl e \<Rightarrow> (Inl e, db) | Inr cs \<Rightarrow> f cs db)"
  unfolding and_then_def using read_same(7) [of v ids db] by (cases "list_cases v ids db") (auto split: sum.splits)

lemma prepare_run_steps:
  "prepare_run dumps q index now db =
     (case (find_by dv_id (rq_version q) (ed_versions db), find_by es_id (rq_subject q) (ed_subjects db), find_by fst (rq_environment q) (ed_environments db)) of
        (None, _, _) \<Rightarrow> (eval_error ''evaluation_dataset_version_not_found'', db)
      | (Some v, s, e) \<Rightarrow>
          if dv_status v \<noteq> VersionFrozen then (eval_error ''dataset_not_frozen'', db)
          else case (s, e) of
              (None, _) \<Rightarrow> (eval_error ''evaluation_subject_not_found'', db)
            | (Some _, None) \<Rightarrow> (eval_error ''evaluation_environment_not_found'', db)
            | (Some _, Some e) \<Rightarrow>
                (case fst (list_cases (rq_version q) (rq_cases q) db) of
                   Inl x \<Rightarrow> (Inl x, db)
                 | Inr found \<Rightarrow>
                     if requested_ids q found = [] then (eval_error ''evaluation_case_not_found'', db)
                     else enter_run dumps q (fingerprint_of dumps q v (requested_ids q found) (snd e)) (requested_ids q found) index now
                       (save_definitions (map snd (requested_definitions q)) db)))"
  unfolding prepare_run_def
  by (auto simp add: get_version_def get_subject_def get_environment_def read_row_def eval_error_def requested_ids_def enter_run_def Let_def
      list_cases_then split: option.splits sum.splits)

lemma prepare_run_ok: "eval_inv dumps db \<Longrightarrow> step_ok dumps db (snd (prepare_run dumps' q index now db))"
proof -
  assume inv: "eval_inv dumps db"
  have "step_ok dumps db (save_definitions ids db)" for ids using inv by (simp add: aside_ok aside_definitions)
  then have "step_ok dumps db (snd (enter_run dumps' q fp ids index now (save_definitions ds db)))" if "ids \<noteq> []" for fp ids ds
    using next_ok [OF _ create_run_ok] that by (auto simp add: enter_run_def split: option.splits)
  then show ?thesis using inv unfolding prepare_run_steps by (auto simp add: step_ok_refl split: option.splits sum.splits)
qed

section \<open>Processing\<close>

definition run_planned :: "eval_db \<Rightarrow> string \<Rightarrow> string set \<Rightarrow> bool" where
  "run_planned db i ids \<longleftrightarrow> (\<exists>u p. find_by eu_id i (ed_runs db) = Some u \<and> find_by ep_id (eu_plan u) (ed_plans db) = Some p \<and> ids \<subseteq> set (ep_cases p))"

lemma planned_later:
  assumes "run_planned db i ids" "step_ok dumps db db'"
  shows "run_planned db' i ids"
proof -
  obtain u p where u: "find_by eu_id i (ed_runs db) = Some u" "find_by ep_id (eu_plan u) (ed_plans db) = Some p" "ids \<subseteq> set (ep_cases p)"
    using assms(1) unfolding run_planned_def by blast
  obtain u' where "find_by eu_id i (ed_runs db') = Some u'" "run_follows u u'"
    using assms(2) u(1) unfolding step_ok_def eval_later_def runs_later_def by blast
  moreover from this have "eu_plan u' = eu_plan u" by (simp add: run_follows_def run_identity_def)
  ultimately show ?thesis unfolding run_planned_def using u(2,3) assms(2) find_by_prefix unfolding step_ok_def eval_later_def by metis
qed

lemma executed_case [simp]: "cr_run (execute_case i c env) = i" "cr_case (execute_case i c env) = ec_id c"
  by (auto simp add: execute_case_def failure_result_def make_result_def split: prod.splits sum.splits option.splits exec_failure.splits)

lemma run_cases_ok:
  "step_ok dumps db0 db \<Longrightarrow> run_planned db i (ec_id ` set cs) \<Longrightarrow> step_ok dumps db0 (snd (run_cases env i now cs db))"
proof (induction cs arbitrary: db)
  case (Cons c cs)
  let ?d = "cancelling (re_case_cancel env (ec_id c)) i now db"
  have d: "step_ok dumps db ?d" using cancelling_ok step_ok_inv [OF Cons.prems(1)] by blast
  then have d0: "step_ok dumps db0 ?d" and p: "run_planned ?d i (ec_id ` set (c # cs))"
    using step_ok_trans [OF Cons.prems(1)] planned_later [OF Cons.prems(2)] by blast+
  have sub: "run_planned t i (ec_id ` set cs)" "run_planned t i {ec_id c}" if "run_planned t i (ec_id ` set (c # cs))" for t
    using that unfolding run_planned_def by auto
  show ?case unfolding run_cases.simps
  proof (rule and_then_ok)
    show "step_ok dumps db0 (snd (get_eval_run i ?d))" using d0 by simp
    fix latest s assume "get_eval_run i ?d = (Inr latest, s)"
    then have s: "s = ?d" by (auto dest: get_runD)
    let ?r = "execute_case i c (re_case env (ec_id c))"
    have saved: "step_ok dumps db0 (snd (and_then (save_result ?r ?d) (\<lambda>_ db. and_then (run_cases env i now cs db) (\<lambda>rs db. (Inr (?r # rs), db)))))"
    proof (rule and_then_ok)
      have "result_planned ?d ?r" using sub(2) [OF p] by (simp add: run_planned_def result_planned_def)
      then have r: "step_ok dumps ?d (snd (save_result ?r ?d))" using save_result_ok step_ok_inv [OF d0] by blast
      then show "step_ok dumps db0 (snd (save_result ?r ?d))" using step_ok_trans [OF d0] by blast
      fix x t assume t: "save_result ?r ?d = (Inr x, t)" "step_ok dumps db0 t"
      then have "run_planned t i (ec_id ` set (c # cs))" using planned_later [OF p r] by simp
      then show "step_ok dumps db0 (snd (and_then (run_cases env i now cs t) (\<lambda>rs db. (Inr (?r # rs), db))))"
        using Cons.IH [OF t(2)] sub(1) by (intro and_then_ok) simp_all
    qed
    show "step_ok dumps db0 (snd (if eu_cancel latest then run_cases env i now cs s
       else let r = ?r in if \<not> case_result_valid r then (Inl ValidationError, s)
         else and_then (save_result r s) (\<lambda>_ db. and_then (run_cases env i now cs db) (\<lambda>rs db. (Inr (r # rs), db)))))"
      unfolding s using saved d0 Cons.IH [OF d0 sub(1) [OF p]] by (simp add: Let_def)
  qed
qed simp

lemma save_metrics_ok: "step_ok dumps db0 db \<Longrightarrow> step_ok dumps db0 (snd (save_metrics ms db))"
  by (induction ms arbitrary: db) (auto intro!: and_then_ok intro: next_aside aside_metric)

lemma analyze_results_ok: "step_ok dumps db0 db \<Longrightarrow> step_ok dumps db0 (snd (analyze_results by_case subject rs db))"
  by (induction rs arbitrary: db) (auto intro!: and_then_ok intro: next_ok analyze_ok split: option.splits)

lemma transition_run_ok: "step_ok dumps db0 db \<Longrightarrow> copy_of db run \<Longrightarrow> step_ok dumps db0 (snd (transition_run run status now db))"
proof -
  assume s: "step_ok dumps db0 db" and "copy_of db run"
  then have "copy_of db (run\<lparr>eu_status := status, eu_updated := now\<rparr>)" by (simp add: copy_of_def run_identity_def)
  then have "step_ok dumps db0 (snd (update_run (run\<lparr>eu_status := status, eu_updated := now\<rparr>) db))" using next_ok [OF s update_run_ok] by blast
  then show ?thesis by (auto simp add: transition_run_def Let_def intro!: and_then_ok)
qed

lemma finish_run_ok: "step_ok dumps db0 db \<Longrightarrow> copy_of db run \<Longrightarrow> step_ok dumps db0 (snd (finish_run run status full reasons now db))"
proof -
  let ?u = "run\<lparr>eu_status := status, eu_complete := full, eu_reasons := reasons, eu_updated := now\<rparr>"
  assume s: "step_ok dumps db0 db" and "copy_of db run"
  then have "copy_of db ?u" by (simp add: copy_of_def run_identity_def)
  then have "step_ok dumps db0 (snd (update_run ?u db))" using next_ok [OF s update_run_ok] by blast
  then show ?thesis by (auto simp add: finish_run_def Let_def intro!: and_then_ok)
qed

text \<open>A transition leaves a copy of the run.\<close>

lemma transition_runD:
  assumes "transition_run run status now db = (Inr run', db')" "copy_of db run" "eval_inv dumps db"
  shows "step_ok dumps db db' \<and> copy_of db' run' \<and> eu_id run' = eu_id run \<and> run_identity run' = run_identity run \<and> eu_status run' = status
    \<and> eu_cancel run' = eu_cancel run"
proof -
  have ok: "step_ok dumps db db'" using transition_run_ok [OF step_ok_refl [OF assms(3)] assms(2), of status now] assms(1) by simp
  have u: "run' = run\<lparr>eu_status := status, eu_updated := now\<rparr>"
    using assms(1) by (simp add: transition_run_def Let_def and_then_def split: prod.splits sum.splits)
  have "copy_of db run'" using assms(2) by (simp add: u copy_of_def run_identity_def)
  then show ?thesis using copy_later [OF _ ok] ok by (simp add: u run_identity_def)
qed

lemma conclude_run_ok:
  assumes s: "step_ok dumps db0 db" and c: "copy_of db run"
  shows "step_ok dumps db0 (snd (conclude_run run cs rs now db))"
proof -
  have m: "step_ok dumps db (snd (save_metrics ms db))" for ms using save_metrics_ok step_ok_refl [OF step_ok_inv [OF s]] by blast
  have "step_ok dumps db (snd (and_then (save_metrics (compute_metrics (eu_id run) cs rs) db) (\<lambda>_ db.
        and_then (analyze_results (case_table cs) (eu_subject run) rs db) (\<lambda>_ db.
          finish_run (run\<lparr>eu_counts := run_counts cs rs\<rparr>) (if run_complete cs rs then EvCompleted else EvPartial) (run_complete cs rs)
            (if run_complete cs rs then [] else [''case_result_incomplete'']) now db))))"
  proof (rule and_then_ok [OF m])
    fix x t assume t: "step_ok dumps db t"
    show "step_ok dumps db (snd (and_then (analyze_results (case_table cs) (eu_subject run) rs t) (\<lambda>_ db.
          finish_run (run\<lparr>eu_counts := run_counts cs rs\<rparr>) (if run_complete cs rs then EvCompleted else EvPartial) (run_complete cs rs)
            (if run_complete cs rs then [] else [''case_result_incomplete'']) now db)))"
    proof (rule and_then_ok [OF analyze_results_ok [OF t]])
      fix y u assume u: "step_ok dumps db u"
      have "copy_of u (run\<lparr>eu_counts := run_counts cs rs\<rparr>)" using copy_later [OF c u] by (simp add: copy_of_def run_identity_def)
      then show "step_ok dumps db (snd (finish_run (run\<lparr>eu_counts := run_counts cs rs\<rparr>) (if run_complete cs rs then EvCompleted else EvPartial) (run_complete cs rs)
            (if run_complete cs rs then [] else [''case_result_incomplete'']) now u))" using finish_run_ok [OF u] by blast
    qed
  qed
  then show ?thesis using step_ok_trans [OF s] step_ok_refl [OF step_ok_inv [OF s]] s by (simp add: conclude_run_def)
qed

lemma close_run_ok:
  assumes inv: "eval_inv dumps db"
  shows "step_ok dumps db (snd (close_run env i cs rs now db))"
  unfolding close_run_def
proof (rule and_then_ok)
  let ?d = "cancelling (re_cancel env 2) i now db"
  have d: "step_ok dumps db ?d" using inv cancelling_ok by blast
  then show "step_ok dumps db (snd (get_eval_run i ?d))" by simp
  fix latest s assume "get_eval_run i ?d = (Inr latest, s)"
  then have s: "s = ?d" and c: "copy_of ?d latest" using get_runD copy_read by blast+
  let ?e = "cancelling (re_cancel env 3) i now ?d"
  have e: "step_ok dumps db ?e" "copy_of ?e latest" using step_ok_trans [OF d] cancelling_ok step_ok_inv [OF d] copy_later [OF c] by blast+
  have next1: "step_ok dumps db (snd (and_then (transition_run latest EvAggregating now ?e) (\<lambda>run db. conclude_run run cs rs now db)))"
  proof (rule and_then_ok)
    show "step_ok dumps db (snd (transition_run latest EvAggregating now ?e))" using transition_run_ok e by blast
    fix run t assume t: "transition_run latest EvAggregating now ?e = (Inr run, t)" "step_ok dumps db t"
    then show "step_ok dumps db (snd (conclude_run run cs rs now t))" using conclude_run_ok [OF t(2)] transition_runD [OF t(1) e(2) step_ok_inv [OF e(1)]] by blast
  qed
  show "step_ok dumps db (snd (if eu_cancel latest then finish_run latest EvCancelled False [''cancel_requested''] now s
       else and_then (if eu_status latest = EvRunning then transition_run latest EvAggregating now (cancelling (re_cancel env 3) i now s)
                      else (Inr latest, s)) (\<lambda>run db. conclude_run run cs rs now db)))"
    unfolding s using finish_run_ok [OF d c] next1 conclude_run_ok [OF d c] by simp
qed

lemma execute_run_cases_ok:
  assumes s: "step_ok dumps db0 db" and p: "run_planned db (eu_id run) (ec_id ` set cs)"
  shows "step_ok dumps db0 (snd (execute_run_cases env run cs now db))"
proof (cases "re_context env")
  case None
  let ?p = "pending_cases cs (existing_results (eu_id run) db)"
  let ?new = "if eu_status run = EvRunning then run_cases env (eu_id run) now ?p db else (Inr [], db)"
  have "run_planned db (eu_id run) (ec_id ` set ?p)" using p unfolding run_planned_def pending_cases_def by force
  then have "step_ok dumps db0 (snd ?new)" using run_cases_ok s by auto
  then have "step_ok dumps db0 (snd (and_then ?new (\<lambda>new db. close_run env (eu_id run) cs (existing_results (eu_id run) db @ new) now db)))" for db
    by (intro and_then_ok) (auto intro: next_ok close_run_ok)
  moreover have "snd (execute_run_cases env run cs now db) =
      snd (and_then ?new (\<lambda>new t. close_run env (eu_id run) cs (existing_results (eu_id run) db @ new) now t))"
    using None by (simp add: execute_run_cases_def Let_def)
  ultimately show ?thesis using \<open>step_ok dumps db0 (snd ?new)\<close> by (auto intro!: and_then_ok intro: next_ok close_run_ok)
qed (use s in \<open>simp add: execute_run_cases_def\<close>)

lemma list_casesD:
  assumes "list_cases v ids db = (Inr cs, s)" "ids \<noteq> []" "eval_inv dumps db"
  shows "ec_id ` set cs = set ids \<and> distinct (map ec_id cs) \<and> s = db"
proof -
  have cs: "cs = filter (\<lambda>c. ids = [] \<or> ec_id c \<in> set ids) (cases_of v db)" "set (map ec_id cs) = set ids" "s = db"
    using assms(1,2) by (auto simp add: list_cases_def Let_def eval_error_def split: if_splits)
  have "distinct (map ec_id (ed_cases db))" using assms(3) by (simp add: eval_inv_def eval_keys_ok_def)
  then have "distinct (map ec_id (filter (\<lambda>c. ec_version c = v) (ed_cases db)))" by (simp add: distinct_map_filter)
  then have "distinct (map ec_id (cases_of v db))" unfolding cases_of_def
    by (metis distinct_map set_sort distinct_sort sorted_distinct_set_unique)
  then show ?thesis using cs by (simp add: distinct_map_filter)
qed

end
