(* ===== verification/Ev_Run_Props.thy ===== *)
theory Ev_Run_Props
  imports Ev_Process
begin

text \<open>
  The evaluation store as a machine: processing and executing runs are sound steps, so every history
  keeps the invariant of the store.
\<close>

section \<open>Processing is a sound step\<close>

text \<open>The states of \<open>process_run\<close> between its stages.\<close>

definition started_run :: "run_environment \<Rightarrow> eval_run \<Rightarrow> nat \<Rightarrow> eval_db \<Rightarrow> (eval_db, eval_run) outcome" where
  "started_run env run now db =
     (if eu_status run = EvQueued then transition_run run EvPreparing now (cancelling (re_cancel env 0) (eu_id run) now db) else (Inr run, db))"

definition resume_eval_run :: "run_environment \<Rightarrow> eval_run \<Rightarrow> eval_case list \<Rightarrow> nat \<Rightarrow> eval_db \<Rightarrow> (eval_db, eval_run) outcome" where
  "resume_eval_run env run cs now db =
     (if eu_cancel run then finish_run run EvCancelled False [''cancel_requested''] now db
      else and_then (if eu_status run = EvPreparing then transition_run run EvRunning now (cancelling (re_cancel env 1) (eu_id run) now db) else (Inr run, db))
        (\<lambda>run db. execute_run_cases env run cs now db))"

lemma process_run_stages:
  assumes "find_by eu_id i (ed_runs db) = Some run" "find_by ep_id (eu_plan run) (ed_plans db) = Some p"
    "list_cases (eu_version run) (ep_cases p) db = (Inr cs, db)"
  shows "process_run env i now db = and_then (started_run env run now db) (\<lambda>run db. resume_eval_run env run cs now db)"
proof -
  have i: "eu_id run = i" using find_by_SomeD [OF assms(1)] by simp
  have keep: "eu_id r = i" if "started_run env run now db = (Inr r, s)" for r s
    using that i by (auto simp add: started_run_def transition_run_def Let_def and_then_def split: if_splits prod.splits sum.splits)
  have "process_run env i now db = and_then (started_run env run now db) (\<lambda>run db.
       if eu_cancel run then finish_run run EvCancelled False [''cancel_requested''] now db
       else and_then (if eu_status run = EvPreparing then transition_run run EvRunning now (cancelling (re_cancel env 1) i now db) else (Inr run, db))
         (\<lambda>run db. execute_run_cases env run cs now db))"
    using assms i by (simp add: process_run_def get_eval_run_def get_plan_def read_row_def started_run_def)
  also have "\<dots> = and_then (started_run env run now db) (\<lambda>run db. resume_eval_run env run cs now db)"
    using keep unfolding and_then_def resume_eval_run_def by (auto split: prod.splits sum.splits)
  finally show ?thesis .
qed

lemma process_runD:
  assumes "process_run env i now db = (Inr r, db')"
  obtains run p cs where "find_by eu_id i (ed_runs db) = Some run" "find_by ep_id (eu_plan run) (ed_plans db) = Some p"
    "list_cases (eu_version run) (ep_cases p) db = (Inr cs, db)"
proof -
  obtain run where run: "find_by eu_id i (ed_runs db) = Some run"
    using assms by (auto simp add: process_run_def get_eval_run_def read_row_def eval_error_def split: option.splits)
  moreover obtain p where p: "find_by ep_id (eu_plan run) (ed_plans db) = Some p"
    using assms run by (auto simp add: process_run_def get_eval_run_def get_plan_def read_row_def eval_error_def split: option.splits)
  moreover obtain cs where "fst (list_cases (eu_version run) (ep_cases p) db) = Inr cs"
    using assms run p by (cases "fst (list_cases (eu_version run) (ep_cases p) db)")
      (simp_all add: process_run_def get_eval_run_def get_plan_def read_row_def list_cases_then)
  ultimately show thesis using that by (metis prod.collapse read_same(7))
qed

lemma plan_nonempty: "eval_inv dumps db \<Longrightarrow> find_by ep_id i (ed_plans db) = Some p \<Longrightarrow> ep_cases p \<noteq> []"
  by (auto simp add: eval_inv_def list_all_iff dest: find_by_SomeD)

lemma started_run_ok:
  assumes inv: "eval_inv dumps db" and run: "find_by eu_id i (ed_runs db) = Some run"
  shows "step_ok dumps db (snd (started_run env run now db))"
    "started_run env run now db = (Inr r, s) \<Longrightarrow> copy_of s r \<and> eu_id r = i \<and> run_identity r = run_identity run"
proof -
  let ?c = "cancelling (re_cancel env 0) (eu_id run) now db"
  have id: "eu_id run = i" using find_by_SomeD [OF run] by simp
  have c: "step_ok dumps db ?c" using inv cancelling_ok by blast
  have copy: "copy_of ?c run" using copy_later [OF copy_read [OF run] c] .
  show "step_ok dumps db (snd (started_run env run now db))"
    using transition_run_ok [OF c copy] inv by (simp add: started_run_def step_ok_refl)
  show "copy_of s r \<and> eu_id r = i \<and> run_identity r = run_identity run" if "started_run env run now db = (Inr r, s)"
    using that transition_runD [OF _ copy step_ok_inv [OF c]] copy_read [OF run] id unfolding started_run_def by (auto split: if_splits)
qed

lemma resume_run_ok:
  assumes s: "step_ok dumps db0 db" and c: "copy_of db run" and p: "run_planned db (eu_id run) (ec_id ` set cs)"
  shows "step_ok dumps db0 (snd (resume_eval_run env run cs now db))"
proof -
  let ?c = "cancelling (re_cancel env 1) (eu_id run) now db"
  have d: "step_ok dumps db ?c" using cancelling_ok step_ok_inv [OF s] by blast
  have d0: "step_ok dumps db0 ?c" using step_ok_trans [OF s d] .
  have moved_bad_case: "step_ok dumps db0 (snd (and_then (transition_run run EvRunning now ?c) (\<lambda>run db. execute_run_cases env run cs now db)))"
  proof (rule and_then_ok)
    show "step_ok dumps db0 (snd (transition_run run EvRunning now ?c))" using transition_run_ok [OF d0 copy_later [OF c d]] .
    fix r t assume t: "transition_run run EvRunning now ?c = (Inr r, t)" "step_ok dumps db0 t"
    have u: "step_ok dumps ?c t" "eu_id r = eu_id run" using transition_runD [OF t(1) copy_later [OF c d] step_ok_inv [OF d]] by blast+
    then show "step_ok dumps db0 (snd (execute_run_cases env r cs now t))"
      using execute_run_cases_ok [OF t(2)] planned_later [OF planned_later [OF p d] u(1)] by simp
  qed
  then show ?thesis using finish_run_ok [OF s c] execute_run_cases_ok [OF s p] by (simp add: resume_eval_run_def)
qed

lemma process_run_ok:
  assumes inv: "eval_inv dumps db"
  shows "step_ok dumps db (snd (process_run env i now db))"
proof (cases "\<exists>run p cs. find_by eu_id i (ed_runs db) = Some run \<and> find_by ep_id (eu_plan run) (ed_plans db) = Some p
    \<and> list_cases (eu_version run) (ep_cases p) db = (Inr cs, db)")
  case True
  then obtain run p cs where run: "find_by eu_id i (ed_runs db) = Some run" and p: "find_by ep_id (eu_plan run) (ed_plans db) = Some p"
    and cs: "list_cases (eu_version run) (ep_cases p) db = (Inr cs, db)" by blast
  have plan: "run_planned db i (ec_id ` set cs)" using run p list_casesD [OF cs plan_nonempty [OF inv p] inv] unfolding run_planned_def by blast
  show ?thesis unfolding process_run_stages [OF run p cs]
  proof (rule and_then_ok [OF started_run_ok(1) [OF inv run]])
    fix r s assume r: "started_run env run now db = (Inr r, s)" and s: "step_ok dumps db s"
    then show "step_ok dumps db (snd (resume_eval_run env r cs now s))"
      using resume_run_ok [OF s] started_run_ok(2) [OF inv run r] planned_later [OF plan s] by simp
  qed
next
  case False
  have "snd (process_run env i now db) = db"
  proof (cases "find_by eu_id i (ed_runs db)")
    case (Some run)
    show ?thesis
    proof (cases "find_by ep_id (eu_plan run) (ed_plans db)")
      case p: (Some p)
      then have "\<exists>e. fst (list_cases (eu_version run) (ep_cases p) db) = Inl e" using False Some
        by (metis obj_sumE prod.collapse read_same(7))
      then show ?thesis using Some p by (auto simp add: process_run_def get_eval_run_def get_plan_def read_row_def list_cases_then)
    qed (use Some in \<open>simp add: process_run_def get_eval_run_def get_plan_def read_row_def eval_error_def\<close>)
  qed (simp add: process_run_def get_eval_run_def read_row_def eval_error_def)
  then show ?thesis using inv by (simp add: step_ok_refl)
qed

lemma mark_failed_ok: "eval_inv dumps db \<Longrightarrow> step_ok dumps db (snd (mark_failed_if_needed i e now db))"
  unfolding mark_failed_if_needed_def
proof (rule and_then_ok)
  assume inv: "eval_inv dumps db"
  then show "step_ok dumps db (snd (get_eval_run i db))" by (simp add: step_ok_refl)
  fix run s assume "get_eval_run i db = (Inr run, s)"
  then have s: "s = db" and "copy_of db run" using get_runD copy_read by blast+
  let ?u = "run\<lparr>eu_status := EvFailed, eu_complete := False, eu_error := Some (failure_code e), eu_reasons := [''execution_failure''], eu_updated := now\<rparr>"
  have "copy_of db ?u" using \<open>copy_of db run\<close> by (simp add: copy_of_def run_identity_def)
  then have "step_ok dumps db (snd (update_run ?u db))" using update_run_ok [OF inv] by blast
  then show "step_ok dumps db (snd (if terminal_status (eu_status run) then (Inr (), s) else update_run ?u s))"
    using inv by (simp add: s step_ok_refl)
qed

lemma execute_leased_ok: "eval_inv dumps db \<Longrightarrow> step_ok dumps db (execute_leased env l now db)"
proof -
  assume inv: "eval_inv dumps db"
  have p: "step_ok dumps db (snd (process_run env (el_run l) now db))" using process_run_ok [OF inv] .
  obtain x s where xs: "process_run env (el_run l) now db = (x, s)" by fastforce
  have "step_ok dumps db (case x of Inl e \<Rightarrow> snd (mark_failed_if_needed (el_run l) e now s) | Inr _ \<Rightarrow> s)"
    using p next_ok [OF p mark_failed_ok] by (auto simp add: xs split: sum.splits)
  then show ?thesis using inv next_aside [OF _ aside_release] xs
    by (auto simp add: execute_leased_def step_ok_refl split: option.splits sum.splits)
qed

section \<open>The machine\<close>

lemma eval_step_ok: "eval_inv dumps db \<Longrightarrow> eval_allowed op \<Longrightarrow> step_ok dumps db (eval_step dumps op db)"
  by (cases op)
    (simp_all add: aside_ok aside_calls save_version_ok version_sound_def save_case_ok freeze_ok prepare_run_ok request_cancel_ok
      execute_leased_ok promote_baseline_ok transition_ok mark_fixed_ok promote_case_ok)

interpretation evaluation: machine "eval_step dumps" eval_allowed "eval_inv dumps" eval_later
proof unfold_locales
  show "eval_inv dumps s \<Longrightarrow> eval_allowed op \<Longrightarrow> eval_inv dumps (eval_step dumps op s)"
    "eval_inv dumps s \<Longrightarrow> eval_allowed op \<Longrightarrow> eval_later s (eval_step dumps op s)" for s op
    using eval_step_ok unfolding step_ok_def by blast+
  show "eval_later s t \<Longrightarrow> eval_later t u \<Longrightarrow> eval_later s u" for s t u by (rule eval_later_trans)
qed simp

lemma empty_inv: "eval_inv dumps (empty_evaluation datasets)"
  by (simp add: eval_inv_def eval_keys_ok_def one_active_binding_def empty_evaluation_def)

definition eval_history :: "eval_dumps \<Rightarrow> string list \<Rightarrow> eval_op list \<Rightarrow> eval_db" where
  "eval_history dumps datasets ops = fold (eval_step dumps) ops (empty_evaluation datasets)"

lemma history_inv: "list_all eval_allowed ops \<Longrightarrow> eval_inv dumps (eval_history dumps datasets ops)"
  unfolding eval_history_def by (rule evaluation.run_inv [OF empty_inv])

lemma history_later:
  "list_all eval_allowed (ops @ more_ops) \<Longrightarrow> eval_later (eval_history dumps datasets ops) (eval_history dumps datasets (ops @ more_ops))"
  using evaluation.run_later [OF history_inv [of ops dumps datasets]] by (simp add: eval_history_def)

end
