(* ===== verification/Ev_Outcome.thy ===== *)
theory Ev_Outcome
  imports Ev_Run_Props
begin

text \<open>How a processed run ends: what the returned run says of the stored results, and that the coordinator always ends it.\<close>

section \<open>The row that is written last\<close>

lemma update_run_written: "update_run run db = (Inr (), db') \<Longrightarrow> find_by eu_id (eu_id run) (ed_runs db') = Some run"
proof -
  assume u: "update_run run db = (Inr (), db')"
  obtain row where "find_by eu_id (eu_id run) (ed_runs db) = Some row"
    using u by (auto simp add: update_run_def get_eval_run_def read_row_def eval_error_def split: option.splits)
  moreover from this have "ed_runs db' = update_by eu_id (eu_id run) (\<lambda>_. run) (ed_runs db)"
    using u by (auto simp add: update_run_def get_eval_run_def read_row_def eval_error_def split: if_splits)
  ultimately show ?thesis by (simp add: find_by_replace)
qed

lemma finish_runD:
  assumes "finish_run run status full reasons now db = (Inr r, db')"
  shows "find_by eu_id (eu_id run) (ed_runs db') = Some r \<and> r = run\<lparr>eu_status := status, eu_complete := full, eu_reasons := reasons, eu_updated := now\<rparr>
    \<and> ed_results db' = ed_results db"
proof -
  let ?u = "run\<lparr>eu_status := status, eu_complete := full, eu_reasons := reasons, eu_updated := now\<rparr>"
  obtain x s where u: "update_run ?u db = (x, s)" by fastforce
  then have "x = Inr ()" "r = ?u" "s = db'" using assms by (auto simp add: finish_run_def Let_def and_then_def split: sum.splits)
  moreover have "ed_results s = ed_results db" using u
    by (auto simp add: update_run_def get_eval_run_def read_row_def eval_error_def and_then_def split: option.splits if_splits)
  ultimately show ?thesis using update_run_written [of ?u db s] u by simp
qed

lemma prefix_results: "step_ok dumps db db' \<Longrightarrow> set (ed_results db) \<subseteq> set (ed_results db')"
  unfolding step_ok_def eval_later_def using set_mono_prefix by blast

definition evaluated :: "case_result \<Rightarrow> bool" where
  "evaluated r \<longleftrightarrow> cr_complete r \<and> cr_status r = ExecCompleted \<and> (cr_outcome r = Some OutcomePassed \<or> cr_outcome r = Some OutcomeFailed)"

lemma run_complete_evaluated: "run_complete cs rs \<longleftrightarrow> length rs = length cs \<and> list_all evaluated rs"
  by (simp add: run_complete_def evaluated_def [abs_def])

lemma conclude_runD:
  assumes c: "conclude_run run cs rs now db = (Inr r, db')" and inv: "eval_inv dumps db"
  shows "find_by eu_id (eu_id run) (ed_runs db') = Some r \<and> eu_status r = (if run_complete cs rs then EvCompleted else EvPartial)
    \<and> eu_complete r = run_complete cs rs \<and> eu_counts r = run_counts cs rs \<and> set (ed_results db) \<subseteq> set (ed_results db')
    \<and> eu_plan r = eu_plan run \<and> eu_id r = eu_id run"
proof -
  obtain x1 s1 where s1: "save_metrics (compute_metrics (eu_id run) cs rs) db = (x1, s1)" by fastforce
  have "\<exists>u. x1 = Inr u" using c s1 by (cases x1) (auto simp add: conclude_run_def eval_error_def split: if_splits)
  then obtain u1 where u1: "x1 = Inr u1" by blast
  obtain x2 s2 where s2: "analyze_results (case_table cs) (eu_subject run) rs s1 = (x2, s2)" by fastforce
  have "\<exists>u. x2 = Inr u" using c s1 u1 s2 by (cases x2) (auto simp add: conclude_run_def eval_error_def split: if_splits)
  then obtain u2 where u2: "x2 = Inr u2" by blast
  have f: "finish_run (run\<lparr>eu_counts := run_counts cs rs\<rparr>) (if run_complete cs rs then EvCompleted else EvPartial) (run_complete cs rs)
      (if run_complete cs rs then [] else [''case_result_incomplete'']) now s2 = (Inr r, db')"
    using c s1 u1 s2 u2 by (auto simp add: conclude_run_def eval_error_def split: if_splits)
  have "step_ok dumps db s1" using save_metrics_ok [OF step_ok_refl [OF inv]] s1 by (metis snd_conv)
  then have "step_ok dumps db s2" using analyze_results_ok s2 by (metis snd_conv)
  then show ?thesis using finish_runD [OF f] prefix_results by fastforce
qed

section \<open>The results a run gathers\<close>

lemma fold_dict_set:
  assumes "\<forall>(k, v) \<in> set d. k = f v \<and> v \<in> S" "distinct (map fst d)" "set rs \<subseteq> S"
  shows "(\<forall>(k, v) \<in> set (fold (\<lambda>r. dict_set (f r) r) rs d). k = f v \<and> v \<in> S) \<and> distinct (map fst (fold (\<lambda>r. dict_set (f r) r) rs d))"
  using assms
proof (induction rs arbitrary: d)
  case (Cons r rs)
  have "set (dict_set (f r) r d) \<subseteq> insert (f r, r) (set d)" unfolding dict_set_def by (induction d) auto
  then have "\<forall>(k, v) \<in> set (dict_set (f r) r d). k = f v \<and> v \<in> S" using Cons.prems(1,3) by fastforce
  moreover have "distinct (map fst (dict_set (f r) r d))" using Cons.prems(2) unfolding dict_set_def by (rule distinct_update)
  ultimately show ?case using Cons.IH [of "dict_set (f r) r d"] Cons.prems(3) by simp
qed simp

lemma existing_results:
  "set (existing_results i db) \<subseteq> set (results_of i db)" "distinct (map cr_case (existing_results i db))"
proof -
  let ?d = "fold (\<lambda>r. dict_set (cr_case r) r) (results_of i db) []"
  have d: "\<forall>(k, v) \<in> set ?d. k = cr_case v \<and> v \<in> set (results_of i db)" "distinct (map fst ?d)"
    using fold_dict_set [of "[]" cr_case "set (results_of i db)" "results_of i db"] by simp_all
  then show "set (existing_results i db) \<subseteq> set (results_of i db)" unfolding existing_results_def by auto
  have "map cr_case (map snd ?d) = map fst ?d" using d(1) by (auto intro!: map_cong)
  then show "distinct (map cr_case (existing_results i db))" unfolding existing_results_def by (metis d(2))
qed

lemma save_result_stored: "save_result r db = (Inr u, db') \<Longrightarrow> r \<in> set (ed_results db')"
  by (auto simp add: save_result_def split: sum.splits if_splits dest: keep_or_addD)

lemma run_casesD:
  "run_cases env i now cs db = (Inr rs, db') \<Longrightarrow> eval_inv dumps db \<Longrightarrow> run_planned db i (ec_id ` set cs)
   \<Longrightarrow> set rs \<subseteq> set (results_of i db') \<and> cr_case ` set rs \<subseteq> ec_id ` set cs \<and> (distinct (map ec_id cs) \<longrightarrow> distinct (map cr_case rs))"
proof (induction cs arbitrary: db rs)
  case (Cons c cs)
  let ?d = "cancelling (re_case_cancel env (ec_id c)) i now db"
  have d: "step_ok dumps db ?d" using cancelling_ok Cons.prems(2) by blast
  have p: "run_planned ?d i (ec_id ` set (c # cs))" using planned_later [OF Cons.prems(3) d] .
  then have sub: "run_planned ?d i (ec_id ` set cs)" unfolding run_planned_def by auto
  obtain latest where g: "get_eval_run i ?d = (Inr latest, ?d)"
    using Cons.prems(1) read_same(1) [of i ?d] unfolding run_cases.simps by (cases "get_eval_run i ?d"; cases "fst (get_eval_run i ?d)") auto
  show ?case
  proof (cases "eu_cancel latest")
    case True
    then show ?thesis using Cons.prems(1) g Cons.IH [OF _ step_ok_inv [OF d] sub] by auto
  next
    case False
    let ?r = "execute_case i c (re_case env (ec_id c))"
    obtain x t where t: "save_result ?r ?d = (x, t)" by fastforce
    have "\<exists>u. x = Inr u" using Cons.prems(1) g False t by (cases x) (auto simp add: Let_def split: if_splits)
    then obtain u where u: "x = Inr u" by blast
    obtain y s where s: "run_cases env i now cs t = (y, s)" by fastforce
    have "\<exists>w. y = Inr w \<and> rs = ?r # w \<and> s = db'" using Cons.prems(1) g False t u s by (cases y) (auto simp add: Let_def split: if_splits)
    then obtain w where w: "y = Inr w" "rs = ?r # w" "s = db'" by blast
    have planned_r: "result_planned ?d ?r" using p by (auto simp add: run_planned_def result_planned_def)
    have dt: "step_ok dumps ?d t" using save_result_ok [OF step_ok_inv [OF d] planned_r] t by simp
    have pt: "run_planned t i (ec_id ` set cs)" using planned_later [OF sub dt] .
    have IH: "set w \<subseteq> set (results_of i db')" "cr_case ` set w \<subseteq> ec_id ` set cs" "distinct (map ec_id cs) \<longrightarrow> distinct (map cr_case w)"
      using Cons.IH [OF _ step_ok_inv [OF dt] pt] s w by simp_all
    have "step_ok dumps t db'" using run_cases_ok [OF step_ok_refl [OF step_ok_inv [OF dt]] pt] s w by (metis snd_conv)
    then have "?r \<in> set (ed_results db')" using save_result_stored [of ?r ?d u t] t u prefix_results by blast
    then show ?thesis using IH w by (auto simp add: results_of_def)
  qed
qed simp

text \<open>Results that are complete in number, one for a case, cover the cases.\<close>

lemma results_cover:
  assumes "distinct (map cr_case rs)" "cr_case ` set rs \<subseteq> ids" "ids = ec_id ` set cs" "distinct (map ec_id cs)" "length rs = length cs"
  shows "cr_case ` set rs = ids"
proof (rule card_subset_eq)
  have "card (cr_case ` set rs) = length rs" "card ids = length cs" using assms by (metis distinct_card length_map list.set_map)+
  then show "card (cr_case ` set rs) = card ids" using assms(5) by simp
qed (use assms in auto)

section \<open>How a run ends\<close>

definition every_case_evaluated :: "eval_db \<Rightarrow> eval_run \<Rightarrow> bool" where
  "every_case_evaluated db run \<longleftrightarrow> (\<exists>p. find_by ep_id (eu_plan run) (ed_plans db) = Some p
     \<and> list_all (\<lambda>c. list_ex (\<lambda>r. cr_case r = c \<and> evaluated r) (results_of (eu_id run) db)) (ep_cases p))"

definition ended_well :: "eval_db \<Rightarrow> eval_run \<Rightarrow> bool" where
  "ended_well db run \<longleftrightarrow> find_by eu_id (eu_id run) (ed_runs db) = Some run
     \<and> (case eu_status run of EvCompleted \<Rightarrow> eu_complete run \<and> every_case_evaluated db run
        | EvPartial \<Rightarrow> \<not> eu_complete run | EvCancelled \<Rightarrow> eu_cancel run | _ \<Rightarrow> False)"

lemma ended_well_terminal: "ended_well db run \<Longrightarrow> terminal_status (eu_status run)"
  by (cases "eu_status run") (simp_all add: ended_well_def terminal_status_def)

lemma finish_cancelled: "finish_run run EvCancelled False reasons now db = (Inr r, db') \<Longrightarrow> eu_cancel run \<Longrightarrow> ended_well db' r \<and> eu_id r = eu_id run"
  by (drule finish_runD) (simp add: ended_well_def)

lemma conclude_ended:
  assumes c: "conclude_run run cs rs now db = (Inr r, db')" and inv: "eval_inv dumps db"
    and plan: "find_by ep_id (eu_plan run) (ed_plans db) = Some p" and cs: "ec_id ` set cs = set (ep_cases p)" "distinct (map ec_id cs)"
    and rs: "set rs \<subseteq> set (results_of (eu_id run) db)" "distinct (map cr_case rs)" "cr_case ` set rs \<subseteq> set (ep_cases p)" and copy: "copy_of db run"
  shows "ended_well db' r"
proof -
  note r = conclude_runD [OF c inv]
  have later: "step_ok dumps db db'" using conclude_run_ok [OF step_ok_refl [OF inv] copy] c by (metis snd_conv)
  have "every_case_evaluated db' r" if full: "run_complete cs rs"
    unfolding every_case_evaluated_def list_all_iff list_ex_iff
  proof (intro exI conjI ballI)
    show "find_by ep_id (eu_plan r) (ed_plans db') = Some p" using later plan r find_by_prefix unfolding step_ok_def eval_later_def by metis
    fix x assume "x \<in> set (ep_cases p)"
    moreover have "cr_case ` set rs = set (ep_cases p)"
      using results_cover [OF rs(2,3) cs(1) [symmetric] cs(2)] full by (simp add: run_complete_evaluated)
    ultimately have "x \<in> cr_case ` set rs" by simp
    then obtain y where y: "y \<in> set rs" "cr_case y = x" by (rule imageE) simp
    then have "evaluated y" using full by (simp add: run_complete_evaluated list_all_iff)
    moreover have "y \<in> set (results_of (eu_id r) db')" using y(1) rs(1) r by (auto simp add: results_of_def)
    ultimately show "\<exists>y \<in> set (results_of (eu_id r) db'). cr_case y = x \<and> evaluated y" using y(2) by blast
  qed
  then show ?thesis unfolding ended_well_def using r by simp
qed

lemma results_of_later: "step_ok dumps db db' \<Longrightarrow> set (results_of i db) \<subseteq> set (results_of i db')"
  using prefix_results by (fastforce simp add: results_of_def)

lemma close_ended:
  assumes c: "close_run env i cs rs now db = (Inr r, db')" and inv: "eval_inv dumps db"
    and row: "find_by eu_id i (ed_runs db) = Some u" and plan: "find_by ep_id (eu_plan u) (ed_plans db) = Some p"
    and cs: "ec_id ` set cs = set (ep_cases p)" "distinct (map ec_id cs)"
    and rs: "set rs \<subseteq> set (results_of i db)" "distinct (map cr_case rs)" "cr_case ` set rs \<subseteq> set (ep_cases p)"
  shows "ended_well db' r \<and> eu_id r = i"
proof -
  let ?d = "cancelling (re_cancel env 2) i now db"
  have d: "step_ok dumps db ?d" using cancelling_ok inv by blast
  obtain latest where l: "find_by eu_id i (ed_runs ?d) = Some latest" "run_follows u latest"
    using d row unfolding step_ok_def eval_later_def runs_later_def by blast
  have g: "get_eval_run i ?d = (Inr latest, ?d)" using l(1) by (simp add: get_eval_run_def read_row_def)
  have id: "eu_id latest = i" using find_by_SomeD [OF l(1)] by simp
  have same: "eu_plan latest = eu_plan u" using l(2) by (simp add: run_follows_def run_identity_def)
  let ?e = "cancelling (re_cancel env 3) i now ?d"
  have e: "step_ok dumps ?d ?e" using cancelling_ok step_ok_inv [OF d] by blast
  have plan': "find_by ep_id (eu_plan latest) (ed_plans t) = Some p" if "step_ok dumps db t" for t
    using that plan same find_by_prefix unfolding step_ok_def eval_later_def by metis
  show ?thesis
  proof (cases "eu_cancel latest")
    case True
    then show ?thesis using c g finish_cancelled id by (simp add: close_run_def)
  next
    case going: False
    show ?thesis
    proof (cases "eu_status latest = EvRunning")
      case True
      obtain x t where t: "transition_run latest EvAggregating now ?e = (x, t)" by fastforce
      have "\<exists>run. x = Inr run" using c g going True t by (cases x) (simp_all add: close_run_def)
      then obtain run where run: "x = Inr run" by blast
      note m = transition_runD [OF t [unfolded run] copy_later [OF copy_read [OF l(1)] e] step_ok_inv [OF e]]
      have s: "step_ok dumps db t" using step_ok_trans [OF step_ok_trans [OF d e]] m by blast
      have "conclude_run run cs rs now t = (Inr r, db')" using c g going True t run by (simp add: close_run_def)
      moreover have "eu_plan run = eu_plan latest" "eu_id run = i" using m id by (simp_all add: run_identity_def)
      ultimately show ?thesis
        using conclude_ended [of run cs rs now t r db' dumps p] conclude_runD [of run cs rs now t r db' dumps] step_ok_inv [OF s] plan' [OF s] cs rs m
          results_of_later [OF s, of i] by auto
    next
      case False
      then have "conclude_run latest cs rs now ?d = (Inr r, db')" using c g going by (simp add: close_run_def)
      then show ?thesis
        using conclude_ended [of latest cs rs now ?d r db' dumps p] conclude_runD [of latest cs rs now ?d r db' dumps] step_ok_inv [OF d] plan' [OF d] cs rs
          results_of_later [OF d, of i] copy_read [OF l(1)] id by auto
    qed
  qed
qed

lemma execute_ended:
  assumes c: "execute_run_cases env run cs now db = (Inr r, db')" and inv: "eval_inv dumps db"
    and copy: "copy_of db run" and plan: "find_by ep_id (eu_plan run) (ed_plans db) = Some p"
    and cs: "ec_id ` set cs = set (ep_cases p)" "distinct (map ec_id cs)"
  shows "ended_well db' r \<and> eu_id r = eu_id run"
proof -
  let ?old = "existing_results (eu_id run) db"
  let ?todo = "pending_cases cs ?old"
  let ?run = "if eu_status run = EvRunning then run_cases env (eu_id run) now ?todo db else (Inr [], db)"
  obtain u where u: "find_by eu_id (eu_id run) (ed_runs db) = Some u" "run_identity run = run_identity u" using copy unfolding copy_of_def by blast
  have pu: "eu_plan run = eu_plan u" using u(2) by (simp add: run_identity_def)
  have run_planned: "run_planned db (eu_id run) (ec_id ` set ?todo)" unfolding run_planned_def pending_cases_def using u(1) plan cs(1) pu by auto
  have ctx: "re_context env = None" using c by (cases "re_context env") (simp_all add: execute_run_cases_def)
  obtain x t where t: "?run = (x, t)" by fastforce
  have "\<exists>rs. x = Inr rs" using c t ctx by (cases x) (simp_all add: execute_run_cases_def Let_def)
  then obtain rs where rs: "x = Inr rs" by blast
  have close: "close_run env (eu_id run) cs (?old @ rs) now t = (Inr r, db')" using c t ctx rs by (simp add: execute_run_cases_def Let_def)
  have s: "step_ok dumps db t" using run_cases_ok [OF step_ok_refl [OF inv] run_planned, of env now] t inv
    by (cases "eu_status run = EvRunning") (auto simp add: step_ok_refl)
  have new: "set rs \<subseteq> set (results_of (eu_id run) t)" "cr_case ` set rs \<subseteq> set (map ec_id ?todo)" "distinct (map ec_id ?todo) \<longrightarrow> distinct (map cr_case rs)"
    using run_casesD [OF _ inv run_planned, of env now rs t] t rs by (cases "eu_status run = EvRunning"; simp)+
  have old: "set ?old \<subseteq> set (results_of (eu_id run) t)" using existing_results(1) results_of_later [OF s] by blast
  have oldp: "cr_case ` set ?old \<subseteq> set (ep_cases p)"
  proof
    fix k assume "k \<in> cr_case ` set ?old"
    then obtain y where y: "y \<in> set (ed_results db)" "cr_run y = eu_id run" "cr_case y = k" using existing_results(1) by (fastforce simp add: results_of_def)
    then have "result_planned db y" using inv by (simp add: eval_inv_def list_all_iff)
    then show "k \<in> set (ep_cases p)" using u(1) pu plan y unfolding result_planned_def by auto
  qed
  have todo: "set (map ec_id ?todo) \<subseteq> set (ep_cases p)" "set (map ec_id ?todo) \<inter> cr_case ` set ?old = {}" "distinct (map ec_id ?todo)"
    using cs unfolding pending_cases_def by (auto simp add: distinct_map_filter)
  have news: "cr_case ` set rs \<subseteq> set (map ec_id ?todo)" "distinct (map cr_case rs)"
    using new(2,3) todo(3) by blast+
  obtain u' where u': "find_by eu_id (eu_id run) (ed_runs t) = Some u'" "run_follows u u'"
    using s u(1) unfolding step_ok_def eval_later_def runs_later_def by blast
  have "eu_plan u' = eu_plan run" using u'(2) pu by (simp add: run_follows_def run_identity_def)
  then have "find_by ep_id (eu_plan u') (ed_plans t) = Some p" using s plan find_by_prefix unfolding step_ok_def eval_later_def by metis
  then show ?thesis
  proof (rule close_ended [OF close step_ok_inv [OF s] u'(1) _ cs])
    show "set (?old @ rs) \<subseteq> set (results_of (eu_id run) t)" using old new(1) by simp
    have "cr_case ` set rs \<inter> cr_case ` set ?old = {}" using news(1) todo(2) by blast
    then show "distinct (map cr_case (?old @ rs))" using existing_results(2) [of "eu_id run" db] news(2) by (simp add: Int_commute)
    show "cr_case ` set (?old @ rs) \<subseteq> set (ep_cases p)" using oldp subset_trans [OF news(1) todo(1)] by (simp add: image_Un)
  qed
qed

lemma process_ended:
  assumes c: "process_run env i now db = (Inr r, db')" and inv: "eval_inv dumps db"
  shows "ended_well db' r \<and> eu_id r = i"
proof -
  obtain run p cs where run: "find_by eu_id i (ed_runs db) = Some run" and p: "find_by ep_id (eu_plan run) (ed_plans db) = Some p"
    and cs: "list_cases (eu_version run) (ep_cases p) db = (Inr cs, db)" using process_runD [OF c] by blast
  note found = list_casesD [OF cs plan_nonempty [OF inv p] inv]
  obtain x s where x: "started_run env run now db = (x, s)" by fastforce
  have "\<exists>y. x = Inr y" using c x unfolding process_run_stages [OF run p cs] by (cases x) simp_all
  then obtain y where y: "x = Inr y" by blast
  have s: "step_ok dumps db s" using started_run_ok(1) [OF inv run, of env now] x by simp
  note start = started_run_ok(2) [OF inv run x [unfolded y]]
  have resume: "resume_eval_run env y cs now s = (Inr r, db')" using c x y unfolding process_run_stages [OF run p cs] by simp
  have plan: "find_by ep_id (eu_plan y) (ed_plans t) = Some p" if "step_ok dumps db t" for t
  proof -
    have "eu_plan y = eu_plan run" using start by (simp add: run_identity_def)
    then show ?thesis using that p find_by_prefix unfolding step_ok_def eval_later_def by metis
  qed
  let ?c = "cancelling (re_cancel env 1) (eu_id y) now s"
  have d: "step_ok dumps s ?c" using cancelling_ok step_ok_inv [OF s] by blast
  show ?thesis
  proof (cases "eu_cancel y")
    case True
    then show ?thesis using resume finish_cancelled start by (simp add: resume_eval_run_def)
  next
    case going: False
    show ?thesis
    proof (cases "eu_status y = EvPreparing")
      case True
      obtain z t where z: "transition_run y EvRunning now ?c = (z, t)" by fastforce
      have "\<exists>w. z = Inr w" using resume going True z by (cases z) (simp_all add: resume_eval_run_def)
      then obtain w where w: "z = Inr w" by blast
      note m = transition_runD [OF z [unfolded w] copy_later [OF conjunct1 [OF start] d] step_ok_inv [OF d]]
      have t: "step_ok dumps db t" using step_ok_trans [OF step_ok_trans [OF s d]] m by blast
      have "execute_run_cases env w cs now t = (Inr r, db')" using resume going True z w by (simp add: resume_eval_run_def)
      moreover have "eu_plan w = eu_plan y" "eu_id w = i" using m start by (simp_all add: run_identity_def)
      ultimately show ?thesis using execute_ended [of env w cs now t r db' dumps p] step_ok_inv [OF t] m plan [OF t] found by simp
    next
      case False
      then have "execute_run_cases env y cs now s = (Inr r, db')" using resume going by (simp add: resume_eval_run_def)
      then show ?thesis using execute_ended [of env y cs now s r db' dumps p] step_ok_inv [OF s] start plan [OF s] found by simp
    qed
  qed
qed

section \<open>The coordinator\<close>

lemma fail_transition: "\<not> terminal_status s \<Longrightarrow> EvFailed \<in> set (RUN_TRANSITIONS s)"
  by (cases s) (simp_all add: terminal_status_def)

lemma mark_failed_terminal:
  assumes "find_by eu_id i (ed_runs db) = Some run"
  shows "\<exists>r. find_by eu_id i (ed_runs (snd (mark_failed_if_needed i e now db))) = Some r \<and> terminal_status (eu_status r)"
proof (cases "terminal_status (eu_status run)")
  case True
  then show ?thesis using assms by (simp add: mark_failed_if_needed_def get_eval_run_def read_row_def)
next
  case False
  have id: "eu_id run = i" using find_by_SomeD [OF assms] by simp
  let ?u = "run\<lparr>eu_status := EvFailed, eu_complete := False, eu_error := Some (failure_code e), eu_reasons := [''execution_failure''], eu_updated := now\<rparr>"
  have "fst (update_run ?u db) = Inr ()" using assms id False fail_transition [OF False] by (simp add: update_run_def get_eval_run_def read_row_def)
  then have "find_by eu_id i (ed_runs (snd (update_run ?u db))) = Some ?u" 
    using update_run_written [of ?u db "snd (update_run ?u db)"] id by (cases "update_run ?u db") simp
  then show ?thesis using assms False by (simp add: mark_failed_if_needed_def get_eval_run_def read_row_def terminal_status_def)
qed

end
