(* ===== verification/Ev_Props.thy ===== *)
theory Ev_Props
  imports Ev_Outcome
begin

text \<open>
  Properties of the evaluation store and its runs: final runs, frozen datasets, baselines and bad cases
  over all histories; preparing a run twice; how processing ends; the coordinator.
\<close>

section \<open>Over all histories\<close>

text \<open>C4. A run that is completed, partial, failed or cancelled never changes again, whatever calls follow:
  no retry, cancellation, coordinator or late write touches its row.\<close>

theorem final_runs_stay:
  assumes "list_all eval_allowed (ops @ more_ops)"
    and "find_by eu_id i (ed_runs (eval_history dumps datasets ops)) = Some r" "terminal_status (eu_status r)"
  shows "find_by eu_id i (ed_runs (eval_history dumps datasets (ops @ more_ops))) = Some r"
  using history_later [OF assms(1), of dumps datasets] assms(2,3) unfolding eval_later_def runs_later_def run_follows_def by metis


lemma at_most_one: "distinct xs \<Longrightarrow> (\<And>x y. x \<in> set xs \<Longrightarrow> y \<in> set xs \<Longrightarrow> x = y) \<Longrightarrow> length xs \<le> 1"
  using distinct_card [of xs] card_le_Suc0_iff_eq [of "set xs"] by simp

text \<open>C11. In every history a dataset version, component, evaluation mode and gate configuration has at most one
  active baseline.\<close>

theorem one_active_baseline:
  assumes "list_all eval_allowed ops"
  shows "length (filter (\<lambda>b. bb_status b = BaselineActive \<and> bb_version b = v \<and> bb_component b = c \<and> bb_mode b = m \<and> bb_gate b = g)
    (ed_bindings (eval_history dumps datasets ops))) \<le> 1"
proof (rule at_most_one)
  have inv: "eval_inv dumps (eval_history dumps datasets ops)" using history_inv [OF assms] .
  then show "distinct (filter (\<lambda>b. bb_status b = BaselineActive \<and> bb_version b = v \<and> bb_component b = c \<and> bb_mode b = m \<and> bb_gate b = g)
      (ed_bindings (eval_history dumps datasets ops)))" by (simp add: eval_inv_def eval_keys_ok_def distinct_map)
  fix x y
  assume x: "x \<in> set (filter (\<lambda>b. bb_status b = BaselineActive \<and> bb_version b = v \<and> bb_component b = c \<and> bb_mode b = m \<and> bb_gate b = g)
      (ed_bindings (eval_history dumps datasets ops)))"
    and y: "y \<in> set (filter (\<lambda>b. bb_status b = BaselineActive \<and> bb_version b = v \<and> bb_component b = c \<and> bb_mode b = m \<and> bb_gate b = g)
      (ed_bindings (eval_history dumps datasets ops)))"
  then have "same_scope x y" by (simp add: same_scope_def)
  then show "x = y" using inv x y unfolding eval_inv_def one_active_binding_def by simp
qed


section \<open>Runs\<close>

lemma save_definitions_fixed: "set ids \<subseteq> set ds \<Longrightarrow> fold (\<lambda>i ds. if i \<in> set ds then ds else ds @ [i]) ids ds = ds"
  by (induction ids arbitrary: ds) auto

lemma save_definitions_all: "set ids \<union> set ds \<subseteq> set (fold (\<lambda>i ds. if i \<in> set ds then ds else ds @ [i]) ids ds)"
proof (induction ids arbitrary: ds)
  case (Cons i ids)
  have "set ids \<union> set (if i \<in> set ds then ds else ds @ [i]) \<subseteq> set (fold (\<lambda>i ds. if i \<in> set ds then ds else ds @ [i]) ids (if i \<in> set ds then ds else ds @ [i]))"
    by (rule Cons.IH)
  then show ?case by (auto split: if_splits)
qed simp

lemma save_definitions_again: "set ids \<subseteq> set (ed_definitions db) \<Longrightarrow> save_definitions ids db = db"
  by (simp add: save_definitions_def save_definitions_fixed)

lemma save_definitions_stored: "set ids \<subseteq> set (ed_definitions (save_definitions ids db))"
  using save_definitions_all [of ids "ed_definitions db"] by (simp add: save_definitions_def)

definition reusable :: "string \<Rightarrow> eval_run \<Rightarrow> bool" where
  "reusable h r \<longleftrightarrow> fp_hash (eu_fingerprint r) = h \<and> eu_status r \<notin> {EvPartial, EvFailed, EvCancelled}"

lemma find_reusable_None: "find_reusable_run h db = None \<longleftrightarrow> filter (reusable h) (ed_runs db) = []"
proof -
  have "(case ys of [] \<Rightarrow> None | r # rs \<Rightarrow> Some (last (r # rs))) = None \<longleftrightarrow> ys = []" for ys :: "eval_run list" by (cases ys) simp_all
  moreover have "find_reusable_run h db = (case sort_key (\<lambda>r. (eu_attempt r, eu_created r)) (filter (reusable h) (ed_runs db)) of
      [] \<Rightarrow> None | r # rs \<Rightarrow> Some (last (r # rs)))" unfolding find_reusable_run_def reusable_def [abs_def] by (rule refl)
  moreover have "sort_key k xs = [] \<longleftrightarrow> xs = []" for k :: "eval_run \<Rightarrow> nat \<times> nat" and xs by (metis length_0_conv length_sort)
  ultimately show ?thesis by simp
qed

text \<open>What a successful \<open>create_eval_run\<close> adds, when no run could be reused.\<close>

lemma create_runD:
  assumes c: "create_eval_run dumps q fp ids index now db = (Inr run, db')" and r: "rq_retry_of q = None" "rq_trial q = None"
    and none: "find_reusable_run (fp_hash fp) db = None"
  shows "\<exists>ps. db' = db\<lparr>ed_plans := ps, ed_runs := ed_runs db @ [run]\<rparr> \<and> fp_hash (eu_fingerprint run) = fp_hash fp \<and> eu_status run = EvQueued"
proof -
  let ?plan = "plan_of dumps q ids"
  let ?run = "queued_run q fp (ep_id ?plan) 1 index (length ids) now"
  let ?save = "case find_by ep_id (ep_id ?plan) (ed_plans db) of
      Some p \<Rightarrow> if ep_config p \<noteq> ep_config ?plan then (eval_error ''evaluation_plan_conflict'', db) else (Inr (), db)
    | None \<Rightarrow> save_eval_plan ?plan db"
  have step: "and_then ?save (\<lambda>_ db. and_then (save_run ?run db) (\<lambda>_ db. (Inr ?run, db))) = (Inr run, db')"
    using c r(1) by (simp add: create_eval_run_def attempt_number_def Let_def split: if_splits)
  obtain x t where t: "?save = (x, t)" by fastforce
  then obtain u where u: "x = Inr u" using step by (cases x) simp_all
  have "\<exists>ps. t = db\<lparr>ed_plans := ps\<rparr>" using t u
    by (auto simp add: save_eval_plan_def eval_error_def split: option.splits if_splits sum.splits intro: exI [of _ "ed_plans db"])
  then obtain ps where ps: "t = db\<lparr>ed_plans := ps\<rparr>" by blast
  obtain y s where s: "save_run ?run t = (y, s)" by fastforce
  then obtain w where w: "y = Inr w" using step t u by (cases y) simp_all
  have run: "run = ?run" "db' = s" using step t u s w by simp_all
  have fresh: "find_by eu_id (eu_id ?run) (ed_runs db) \<noteq> Some ?run"
  proof
    assume "find_by eu_id (eu_id ?run) (ed_runs db) = Some ?run"
    then have "?run \<in> set (ed_runs db)" using find_by_SomeD by fast
    moreover have "reusable (fp_hash fp) ?run" by (simp add: reusable_def queued_run_def Let_def)
    ultimately have "filter (reusable (fp_hash fp)) (ed_runs db) \<noteq> []" by (auto simp add: filter_empty_conv)
    then show False using none find_reusable_None by blast
  qed
  have "s = t\<lparr>ed_runs := ed_runs t @ [?run]\<rparr>" using s w fresh ps
    by (auto simp add: save_run_def eval_error_def split: option.splits if_splits)
  then show ?thesis using run ps by (auto simp add: queued_run_def Let_def)
qed

lemma list_cases_cong: "ed_cases db' = ed_cases db \<Longrightarrow> fst (list_cases v ids db') = fst (list_cases v ids db)"
  by (simp only: list_cases_def cases_of_def Let_def if_distrib [of fst] fst_conv)


text \<open>C18. Whatever happened before and whatever cancellations and failures processing a run meets: when it returns,
  the returned run is the stored row, and it is completed, partial or cancelled.  If completed, every case
  of its plan has a stored result that is complete and passed or failed; if cancelled, its cancellation was
  requested.\<close>

theorem processed_run_outcome:
  assumes "list_all eval_allowed ops" "process_run env i now (eval_history dumps datasets ops) = (Inr run, db')"
  shows "eu_id run = i \<and> ended_well db' run"
  using process_ended [OF assms(2) history_inv [OF assms(1)]] by blast


text \<open>
  A cancellation that is stored after \<open>process_run\<close> has read the run and before its first transition is
  overwritten by the copy read before: the run goes on, and nobody sees the request.
\<close>

lemma stale_copy_drops_cancellation:
  assumes "find_by eu_id i (ed_runs db) = Some run" "eu_status run = EvQueued" "re_cancel env 0"
  shows "(\<exists>r. find_by eu_id i (ed_runs (cancelling (re_cancel env 0) i now db)) = Some r \<and> eu_cancel r)
    \<and> (\<exists>s. started_run env run now db = (Inr (run\<lparr>eu_status := EvPreparing, eu_updated := now\<rparr>), s)
        \<and> find_by eu_id i (ed_runs s) = Some (run\<lparr>eu_status := EvPreparing, eu_updated := now\<rparr>))"
proof -
  have id: "eu_id run = i" using find_by_SomeD [OF assms(1)] by simp
  let ?u = "run\<lparr>eu_cancel := True, eu_updated := now\<rparr>"
  have q: "request_eval_cancel i now db = (Inr ?u, db\<lparr>ed_runs := update_by eu_id i (\<lambda>_. ?u) (ed_runs db)\<rparr>)"
    using assms(1,2) id by (simp add: request_eval_cancel_def get_eval_run_def read_row_def update_run_def terminal_status_def Let_def)
  have row: "find_by eu_id i (update_by eu_id i (\<lambda>_. ?u) (ed_runs db)) = Some ?u" using assms(1) find_by_replace [of eu_id i ?u "ed_runs db"] id by simp
  then show ?thesis using assms(2,3) id find_by_replace [of eu_id i "run\<lparr>eu_status := EvPreparing, eu_updated := now\<rparr>"]
    by (simp add: cancelling_def q started_run_def transition_run_def update_run_def get_eval_run_def read_row_def terminal_status_def Let_def)
qed

end
