(* ===== verification/Ev_Demo.thy ===== *)
theory Ev_Demo
  imports Ev_Props
begin

text \<open>A history: a subject, an environment and a dataset of one case are saved, the dataset is frozen, and a run over it is prepared, cancelled and executed.\<close>

definition demo_dumps :: eval_dumps where
  "demo_dumps = \<lparr>dump_case = \<lambda>c. JStr (ec_id c), dump_gold = \<lambda>g. JNull, dump_fixture = \<lambda>f. JStr f, dump_definition = \<lambda>(c, n). JStr n,
     dump_trial = \<lambda>t. JNull, adapter_version = \<lambda>c. ''1.0''\<rparr>"

definition unhashed_subject :: eval_subject where
  "unhashed_subject = \<lparr>es_id = ''s'', es_type = CodeCommit, es_commit = ''abc'', es_tag = None, es_patch = None, es_config = ''cfg'', es_prompts = [],
     es_models = [], es_providers = [], es_lock = ''lock'', es_hash = []\<rparr>"

definition demo_subject :: eval_subject where
  "demo_subject = unhashed_subject\<lparr>es_hash := subject_hash unhashed_subject\<rparr>"

definition demo_draft :: dataset_version where
  "demo_draft = \<lparr>dv_id = ''v'', dv_dataset = ''d'', dv_status = VersionDraft, dv_parent = None, dv_case_count = 0, dv_gold_hash = [],
     dv_fixture_hash = [], dv_content_hash = []\<rparr>"

definition demo_index_case :: eval_case where
  "demo_index_case = \<lparr>ec_id = ''c'', ec_family = ''f'', ec_version = ''v'', ec_split = SplitRegression, ec_source = SyntheticFixture, ec_component = EvIndex,
     ec_input_component = EvIndex, ec_fixture = ''fixture'', ec_repo = ''r'', ec_index = None, ec_fixture_index = None, ec_refs = [],
     ec_gold = GoldIndex \<lparr>ig_entities = [''e''], ig_edges = [], ig_evidence = [], ig_chunks = [], ig_unresolved = []\<rparr>, ec_tags = [],
     ec_annotators = [], ec_adjudication = NotRequired, ec_hash = []\<rparr>"

definition demo_eval_request :: eval_run_request where
  "demo_eval_request = \<lparr>rq_version = ''v'', rq_subject = ''s'', rq_environment = ''e'', rq_mode = DeterministicFixture, rq_components = [EvIndex], rq_cases = [],
     rq_adapters = [], rq_definitions = [], rq_binding = None, rq_gate = None, rq_concurrency = 1, rq_provider = 0, rq_budget = None, rq_consent = False, rq_seed = 0, rq_trial = None,
     rq_retry_of = None\<rparr>"

definition setup_ops :: "eval_op list" where
  "setup_ops = [SaveSubject demo_subject, SaveEnvironment ''e'' ''h'', SaveVersion demo_draft, SaveCase demo_index_case, FreezeVersion ''v'']"

definition demo_frozen :: dataset_version where
  "demo_frozen = frozen_version demo_dumps [demo_index_case] demo_draft"

definition setup_db :: eval_db where
  "setup_db = (empty_evaluation [''d''])\<lparr>ed_subjects := [demo_subject], ed_environments := [(''e'', ''h'')], ed_versions := [demo_frozen],
     ed_cases := [demo_index_case]\<rparr>"

lemma setup_allowed: "list_all eval_allowed setup_ops"
  by (simp add: setup_ops_def demo_draft_def)

lemma draft_fields [simp]: "dv_id demo_draft = ''v''" "dv_dataset demo_draft = ''d''" "dv_status demo_draft = VersionDraft"
  by (simp_all add: demo_draft_def)

lemma case_fields [simp]: "ec_id demo_index_case = ''c''" "ec_version demo_index_case = ''v''" "ec_component demo_index_case = EvIndex"
  by (simp_all add: demo_index_case_def)

lemma subject_fields [simp]: "es_id demo_subject = ''s''" "subject_hash demo_subject = es_hash demo_subject"
  by (simp_all add: demo_subject_def subject_hash_def unhashed_subject_def)

lemma frozen_fields [simp]: "dv_id demo_frozen = ''v''" "dv_status demo_frozen = VersionFrozen"
  by (simp_all add: demo_frozen_def frozen_version_def)

lemma demo_cases: "ed_cases db = [demo_index_case] \<Longrightarrow> cases_of ''v'' db = [demo_index_case]"
  by (simp add: cases_of_def)

lemma demo_check: "freeze_check demo_draft [demo_index_case] = Inr ()"
  by (simp add: freeze_check_def demo_index_case_def unreviewed_def split_leak_def)

lemma setup_result: "eval_history demo_dumps [''d''] setup_ops = setup_db"
  by (simp add: eval_history_def setup_ops_def setup_db_def empty_evaluation_def save_subject_def keep_or_add_def save_environment_def save_version_def
      save_case_def get_version_def read_row_def validate_and_freeze_def demo_check demo_cases Let_def update_by_def demo_frozen_def frozen_version_def)

section \<open>A run\<close>

definition demo_fp :: run_fingerprint where
  "demo_fp = fingerprint_of demo_dumps demo_eval_request demo_frozen [''c''] ''h''"

definition demo_plan :: eval_plan where
  "demo_plan = plan_of demo_dumps demo_eval_request [''c'']"

definition demo_queued :: eval_run where
  "demo_queued = queued_run demo_eval_request demo_fp (ep_id demo_plan) 1 None 1 5"

definition prepared_db :: eval_db where
  "prepared_db = setup_db\<lparr>ed_definitions := ed_definitions (save_definitions (map snd (requested_definitions demo_eval_request)) setup_db),
     ed_plans := [demo_plan], ed_runs := [demo_queued]\<rparr>"

lemma request_fields [simp]: "rq_version demo_eval_request = ''v''" "rq_subject demo_eval_request = ''s''" "rq_environment demo_eval_request = ''e''"
    "rq_cases demo_eval_request = []" "rq_components demo_eval_request = [EvIndex]" "rq_retry_of demo_eval_request = None" "rq_trial demo_eval_request = None"
  by (simp_all add: demo_eval_request_def)

lemma request_valid [simp]: "plan_valid demo_eval_request [''c'']"
  by (simp add: plan_valid_def demo_eval_request_def)

lemma plan_fields [simp]: "ep_version demo_plan = ''v''" "ep_subject demo_plan = ''s''" "ep_cases demo_plan = [''c'']"
  by (simp_all add: demo_plan_def plan_of_def)

lemma queued_fields [simp]: "eu_plan demo_queued = ep_id demo_plan" "eu_subject demo_queued = ''s''" "eu_environment demo_queued = ''e''"
    "eu_version demo_queued = ''v''" "eu_status demo_queued = EvQueued" "eu_cancel demo_queued = False"
  by (simp_all add: demo_queued_def queued_run_def Let_def)

lemma prepare_result: "prepare_run demo_dumps demo_eval_request None 5 setup_db = (Inr demo_queued, prepared_db)"
proof -
  have listed: "list_cases ''v'' [] setup_db = (Inr [demo_index_case], setup_db)"
    by (simp add: list_cases_def demo_cases setup_db_def)
  have none: "find_reusable_run h (save_definitions ids setup_db) = None" for h ids
    by (simp add: find_reusable_None save_definitions_def setup_db_def empty_evaluation_def)
  have "create_eval_run demo_dumps demo_eval_request demo_fp [''c''] None 5 (save_definitions (map snd (requested_definitions demo_eval_request)) setup_db)
      = (Inr demo_queued, prepared_db)"
    by (simp add: create_eval_run_def attempt_number_def Let_def demo_plan_def [symmetric] demo_queued_def [unfolded One_nat_def, symmetric] save_definitions_def save_eval_plan_def
        keep_or_add_def save_run_def setup_db_def empty_evaluation_def prepared_db_def)
  then show ?thesis unfolding prepare_run_steps
    by (simp add: setup_db_def [THEN arg_cong, of ed_versions] setup_db_def [THEN arg_cong, of ed_subjects] setup_db_def [THEN arg_cong, of ed_environments]
        listed requested_ids_def enter_run_def none demo_fp_def)
qed

definition demo_cancelled :: eval_run where
  "demo_cancelled = demo_queued\<lparr>eu_cancel := True, eu_updated := 6\<rparr>"

definition cancelled_db :: eval_db where
  "cancelled_db = prepared_db\<lparr>ed_runs := [demo_cancelled]\<rparr>"

lemma cancel_result: "request_eval_cancel (eu_id demo_queued) 6 prepared_db = (Inr demo_cancelled, cancelled_db)"
  by (simp add: request_eval_cancel_def get_eval_run_def read_row_def prepared_db_def update_run_def terminal_status_def Let_def update_by_def cancelled_db_def
      demo_cancelled_def)

definition demo_eval_ops :: "eval_op list" where
  "demo_eval_ops = setup_ops @ [PrepareRun demo_eval_request None 5, CancelRun (eu_id demo_queued) 6]"

lemma demo_history: "eval_history demo_dumps [''d''] demo_eval_ops = cancelled_db"
  using setup_result by (simp add: eval_history_def demo_eval_ops_def prepare_result cancel_result)

lemma demo_allowed: "list_all eval_allowed demo_eval_ops"
  using setup_allowed by (simp add: demo_eval_ops_def)

definition demo_environment :: run_environment where
  "demo_environment = \<lparr>re_context = None, re_case = \<lambda>i. (Inr (), Inr None, 0), re_cancel = \<lambda>n. False, re_case_cancel = \<lambda>i. False\<rparr>"

definition demo_ended :: eval_run where
  "demo_ended = demo_cancelled\<lparr>eu_status := EvCancelled, eu_complete := False, eu_reasons := [''cancel_requested''], eu_updated := 7\<rparr>"

definition ended_db :: eval_db where
  "ended_db = cancelled_db\<lparr>ed_runs := [demo_ended]\<rparr>"

lemma cancelled_fields [simp]: "eu_id demo_cancelled = eu_id demo_queued" "eu_plan demo_cancelled = ep_id demo_plan" "eu_version demo_cancelled = ''v''"
    "eu_status demo_cancelled = EvQueued" "eu_cancel demo_cancelled = True"
  by (simp_all add: demo_cancelled_def)

lemma process_result: "process_run demo_environment (eu_id demo_queued) 7 cancelled_db = (Inr demo_ended, ended_db)"
proof -
  have run: "find_by eu_id (eu_id demo_queued) (ed_runs cancelled_db) = Some demo_cancelled" by (simp add: cancelled_db_def)
  have plan: "find_by ep_id (eu_plan demo_cancelled) (ed_plans cancelled_db) = Some demo_plan" by (simp add: cancelled_db_def prepared_db_def)
  have listed: "list_cases (eu_version demo_cancelled) (ep_cases demo_plan) cancelled_db = (Inr [demo_index_case], cancelled_db)"
    by (simp add: list_cases_def demo_cases cancelled_db_def prepared_db_def setup_db_def Let_def)
  show ?thesis unfolding process_run_stages [OF run plan listed]
    by (simp add: started_run_def demo_environment_def cancelling_def transition_run_def update_run_def get_eval_run_def read_row_def cancelled_db_def
        terminal_status_def Let_def update_by_def resume_eval_run_def finish_run_def demo_ended_def ended_db_def)
qed

definition demo_eval_lease :: eval_lease where
  "demo_eval_lease = \<lparr>el_run = eu_id demo_queued, el_owner = ''o'', el_token = ''t'', el_expires = 60\<rparr>"

lemma execute_result: "execute_leased demo_environment demo_eval_lease 7 cancelled_db = ended_db"
proof -
  have "find_by eu_id (eu_id demo_queued) (ed_runs cancelled_db) = Some demo_cancelled" by (simp add: cancelled_db_def)
  moreover have "release_eval_lease l ended_db = ended_db" for l
    by (simp add: cancelled_db_def release_eval_lease_def ended_db_def prepared_db_def setup_db_def empty_evaluation_def)
  ultimately show ?thesis by (simp add: execute_leased_def demo_eval_lease_def process_result)
qed

section \<open>The properties on the history\<close>

lemma final_runs_stay_witness:
  "find_by eu_id (eu_id demo_queued) (ed_runs (eval_history demo_dumps [''d'']
     ((demo_eval_ops @ [ExecuteRun demo_environment demo_eval_lease 7]) @ [CancelRun (eu_id demo_queued) 8, PrepareRun demo_eval_request None 9]))) = Some demo_ended"
proof (rule final_runs_stay)
  show "list_all eval_allowed ((demo_eval_ops @ [ExecuteRun demo_environment demo_eval_lease 7]) @ [CancelRun (eu_id demo_queued) 8, PrepareRun demo_eval_request None 9])"
    using demo_allowed by simp
  show "find_by eu_id (eu_id demo_queued) (ed_runs (eval_history demo_dumps [''d''] (demo_eval_ops @ [ExecuteRun demo_environment demo_eval_lease 7]))) = Some demo_ended"
    using demo_history by (simp add: eval_history_def execute_result) (simp add: ended_db_def demo_ended_def)
  show "terminal_status (eu_status demo_ended)" by (simp add: demo_ended_def terminal_status_def)
qed


lemma one_active_baseline_witness:
  "length (filter (\<lambda>b. bb_status b = BaselineActive \<and> bb_version b = ''v'' \<and> bb_component b = EvIndex \<and> bb_mode b = DeterministicFixture \<and> bb_gate b = ''g'')
     (ed_bindings (eval_history demo_dumps [''d''] demo_eval_ops))) \<le> 1"
  by (rule one_active_baseline [OF demo_allowed])



lemma processed_run_outcome_witness: "eu_id demo_ended = eu_id demo_queued \<and> ended_well ended_db demo_ended"
  by (rule processed_run_outcome [OF demo_allowed, of demo_environment "eu_id demo_queued" 7 demo_dumps "[''d'']"]) (simp add: demo_history process_result)


end
