(* ===== verification/Spec2Isabelle.thy ===== *)
theory Spec2Isabelle
  imports Cp_Outbox_Props Cp_Backend_Runs Id_Props Id_Token Ra_Answer_Props Ra_Coord_Props
    Rt_Fusion_Props Rt_Context_Props Rt_Service_Props Ix_Props
    Ev_Metrics_Props Ev_Gate_Props Ev_Demo
begin

text \<open>
  A verification development of the CodeResearch Agent (\<open>src/backend/app\<close>): a service that indexes a
  repository and its papers, retrieves from the index, answers research questions with a planning agent,
  runs its long work as jobs under a control plane, and evaluates itself on frozen datasets.

  \<^bold>\<open>How the parts interact.\<close>  A client of the control plane logs in (\<open>control_plane/auth.py\<close>), gets an access token and
  creates a job.  The job and its first attempt are rows of one SQLite store (\<open>control_plane/store.py\<close>); in the same
  transaction an outbox event is written, which a dispatcher or the in-process backend (\<open>control_plane/jobs.py\<close>) turns into
  the execution of a handler.  Jobs build the structured index (\<open>persistence/index_store.py\<close>): versions under a lease, of
  which one per repository is active and is what readers resolve (\<open>persistence/retrieval_read_store.py\<close>).  A search
  (\<open>retrieval/retrieval_service.py\<close>) ranks the documents of a version by full text, vectors and the knowledge graph, fuses
  the rankings and builds a context within a token budget.  The research agent (\<open>agents/research\<close>) plans tool calls over
  this retrieval, checks their evidence and writes an answer with citations; its runs are executed by a coordinator
  (\<open>services/research_run_coordinator.py\<close>) under leases of its store.  The evaluation subsystem (\<open>evaluation\<close>) executes
  cases of frozen datasets, computes metrics, compares runs with a baseline behind a gate, and keeps bad cases.

  \<^bold>\<open>Theories.\<close>

  \<^item> \<open>Prelude\<close>: exceptions as values (\<open>exn\<close>, \<open>outcome\<close>), \<open>and_then\<close> for calls in sequence, tables as lists of rows with a
    key, \<open>list(dict.fromkeys())\<close>, decimal numbers; the locale \<open>machine\<close> (steps that keep an invariant and an order of
    states), which every store of the development interprets.
  \<^item> \<open>Py_Json\<close>, \<open>Py_Json_Parse\<close>, \<open>Py_Base64\<close>, \<open>Hashing\<close>: \<open>json.dumps\<close> and \<open>json.loads\<close>, URL-safe base64, and SHA-256 with the
    hashes that identifiers are made of, all executable.
  \<^item> \<open>Cp_Schemas\<close>, \<open>Cp_Tables\<close>, \<open>Cp_Jobs\<close>, \<open>Cp_Outbox\<close>, \<open>Cp_Backend\<close>: the control plane's data (\<open>schemas.py\<close>), its tables and job
    operations, the outbox with its dispatcher, the in-process backend as the atomic stretches of its tasks.  \<open>Cp_Job_Inv\<close>,
    \<open>Cp_Reach\<close>, \<open>Cp_Job_Safety\<close>, \<open>Cp_Recovery\<close>, \<open>Cp_Properties\<close>, \<open>Cp_Outbox_Props\<close>, \<open>Cp_Backend_Props\<close>, \<open>Cp_Task_Props\<close>,
    \<open>Cp_Backend_Runs\<close>: the invariant of the store and that all its operations keep it; one live attempt per job, finished
    jobs absorb, results are accepted once, recovery settles everything, claims exclude each other, a task always ends its
    attempt, and every history of the backend is a history of store operations.
  \<^item> \<open>Id_Auth\<close>: \<open>LocalIdentityService\<close>; \<open>Id_Inv\<close>, \<open>Id_Runs\<close>, \<open>Id_Props\<close>: one active refresh token per session, reuse of a
    spent one ends the family, sign-out is final, logins and their limit.  \<open>Id_Token\<close>: the access token as text and its
    round trip.
  \<^item> \<open>Ra_Schemas\<close>, \<open>Ra_Plan\<close>, \<open>Ra_Tools\<close>, \<open>Ra_Answer\<close>, \<open>Ra_Graph\<close>, \<open>Ra_Store\<close>, \<open>Ra_Coord\<close>: the agent's data, planners and budget,
    tool registry and argument resolution, evidence and answers, the graph's nodes and routes, the run store and the
    coordinator.  \<open>Ra_Term\<close>, \<open>Ra_Props\<close>, \<open>Ra_Answer_Props\<close>, \<open>Ra_Coord_Props\<close>: runs end, budgets hold, plans and answers are
    sound, leases exclude, finished runs stay, cancelled ones never complete.
  \<^item> \<open>Rt_Fusion\<close>, \<open>Rt_Index\<close>, \<open>Rt_Context\<close>, \<open>Rt_Graph\<close>, \<open>Rt_Fts\<close>, \<open>Rt_Service\<close>: reciprocal rank fusion and diversity, the read
    store, the context builder, retrieval along the graph, the generations of the full-text index, and the search service
    that composes them; each with its \<open>_Props\<close>.
  \<^item> \<open>Ix_Store\<close>, \<open>Ix_Props\<close>: versions of the structured index: one active version, published versions immutable, what a build
    returns is what readers find; the lost-lease defect.
  \<^item> \<open>Ev_Schemas\<close>, \<open>Ev_Metrics\<close>, \<open>Ev_Gate\<close>, \<open>Ev_Store\<close>, \<open>Ev_Service\<close>, \<open>Ev_Run\<close>: the data of evaluation, adapters and metrics,
    comparison and gate, the store with datasets and baselines, bad cases and promotions, preparing and processing runs and
    the coordinator.  \<open>Ev_Metrics_Props\<close> and \<open>Ev_Gate_Props\<close>: results satisfy their schema, metrics are shares, what the gate's
    verdict means.  \<open>Ev_Inv\<close>, \<open>Ev_Keeps\<close>, \<open>Ev_Machine\<close>, \<open>Ev_Process\<close>, \<open>Ev_Run_Props\<close>: the invariant, kept by every call;
    \<open>Ev_Outcome\<close>, \<open>Ev_Props\<close>: frozen datasets and final runs stay, one active baseline, closed bad cases have evidence,
    preparing is idempotent, how runs end.  \<open>Ev_Demo\<close>: a history on which these properties are applied.

  \<^bold>\<open>Conventions.\<close>  A class or table row is a record whose fields keep the order of the source, an enumeration a datatype with a
  function to its text.  A method is one function of the state that returns result or exception together with the state
  after it; it is one atomic step, as its SQLite transaction is (the full-text synchronisation has two).  Concurrency is
  the order of such steps in a history; tasks of the backend and of the coordinators are cut where they await.  What comes
  from outside a step (random tokens, times, replies of a model or tool, cancellations committed meanwhile) is an argument
  or an environment of the step.  Numbers of the ranking are exact rationals, those of evaluation real numbers: rounding
  is not modelled.  A \<open>char\<close> is a code point below 256; Chinese constants are their UTF-8 bytes, and texts of searches and
  contexts are ASCII.

  \<^bold>\<open>Bounds and fuel.\<close>  \<open>research_run_ends\<close> gives a number of super-steps that suffices for plans of at most \<open>N\<close> steps (the rule
  planner makes at most two), by the measure of \<open>Ra_Term\<close>; with a tool budget below a plan the graph does loop
  (\<open>exhausted_budget_loops\<close>).  Expansion of the graph terminates by the multiset of its queue.  Every other loop is structural.

  \<^bold>\<open>Parameters.\<close>  The password hasher (with the law that a hash verifies its own password), the vector index, the reranker,
  \<open>MATCH\<close> and \<open>bm25\<close> of FTS5, pydantic's dump and validation of tool arguments and evaluation models, the query profiler of
  the planner (\<open>Rt_Service.classify\<close> models it for ASCII texts), language-model replies, tool outcomes and what is
  extracted from a repository.

  \<^bold>\<open>Not modelled.\<close>  HTTP routes (they check a permission and call one modelled service), the team mode over PostgreSQL and
  Celery, migrations, busy retries of SQLite, heartbeats while a step runs, tracing, checkpoints and the recursion limit of
  the graph library, several coordinator processes for the two properties on cancellation, concurrency of cases within an
  evaluation run, stored comparisons and gates, idempotency keys and callers of evaluation, replay manifests and artifact
  references, the alignment subsystem (for its size), parsing and chunking, embedding and model files, the document pipeline
  and its tools, settings, and the user interface.  Free text of messages, token usage and most timestamps are left out where
  no operation reads them.
\<close>

end
